(* ===== verification/Rust_Prelude.thy ===== *)
theory Rust_Prelude
  imports Main "HOL-Library.Word" "HOL-Library.Sublist"
begin

text \<open>
  Shared vocabulary of the development: Rust's fixed-width integers, byte buffers, strings,
  \<open>Result\<close> values and panics, the few standard-library operations that several components
  use, and the generic lemmas about them. A slice or a \<open>BytesMut\<close> is the list of its
  bytes; \<open>usize\<close> lengths are \<open>nat\<close> (a buffer that exists fits in memory) unless an
  overflow matters, \<open>u64\<close> counters are 64-bit words.
\<close>

unbundle bit_operations_syntax

section \<open>Types\<close>

type_synonym byte = "8 word"
type_synonym u16 = "16 word"
type_synonym u32 = "32 word"
type_synonym u64 = "64 word"
type_synonym bytes = "byte list"

text \<open>A Rust \<open>String\<close> as the sequence of its Unicode scalar values (what \<open>chars()\<close> yields).\<close>

type_synonym rstring = "nat list"

datatype ('a, 'e) result = Ok (ok_value: 'a) | Err (err_value: 'e)

text \<open>A computation that may panic.\<close>

datatype 'a exec = Panic | Return 'a

text \<open>The part of \<open>std::io::Error\<close> the code uses, and \<open>std::task::Poll\<close>.\<close>

datatype io_kind =
    NotFound | PermissionDenied | ConnectionReset | WouldBlock | InvalidInput | UnexpectedEof | WriteZero | OtherKind

datatype io_error = IoError io_kind string

datatype 'a poll = Pending | Ready 'a

text \<open>A byte-string literal.\<close>

definition bstr :: "string \<Rightarrow> bytes" where
  "bstr s = map of_char s"

lemma length_bstr [simp]: "length (bstr s) = length s"
  by (simp add: bstr_def)

lemma bstr_Nil [simp]: "bstr [] = []"
  by (simp add: bstr_def)

lemma bstr_Cons [simp]: "bstr (c # cs) = of_char c # bstr cs"
  by (simp add: bstr_def)

section \<open>Results\<close>

fun is_ok :: "('a, 'e) result \<Rightarrow> bool" where
  "is_ok (Ok _) = True"
| "is_ok (Err _) = False"

lemma is_ok_iff: "is_ok r \<longleftrightarrow> (\<exists>a. r = Ok a)"
  by (cases r) auto

section \<open>Integers\<close>

definition sat_sub :: "'a::len word \<Rightarrow> 'a word \<Rightarrow> 'a word" where
  "sat_sub a b = (if b \<le> a then a - b else 0)"

lemma unat_sat_sub [simp]: "unat (sat_sub a b) = unat a - unat b"
  by (auto simp: sat_sub_def unat_sub word_le_nat_alt)

lemma unat_min [simp]: "unat (min a b) = min (unat a) (unat (b :: 'a::len word))"
  by (auto simp: min_def word_le_nat_alt)

text \<open>Big-endian bytes of an integer, most significant byte first.\<close>

fun be_bytes :: "nat \<Rightarrow> 'a::len word \<Rightarrow> bytes" where
  "be_bytes 0 w = []"
| "be_bytes (Suc n) w = be_bytes n (drop_bit 8 w) @ [ucast w]"

fun from_be :: "'a::len word \<Rightarrow> bytes \<Rightarrow> 'a word" where
  "from_be acc [] = acc"
| "from_be acc (b # bs) = from_be (push_bit 8 acc OR ucast b) bs"

text \<open>Little-endian bytes, least significant byte first.\<close>

fun le_bytes :: "nat \<Rightarrow> 'a::len word \<Rightarrow> bytes" where
  "le_bytes 0 w = []"
| "le_bytes (Suc n) w = ucast w # le_bytes n (drop_bit 8 w)"

fun from_le :: "bytes \<Rightarrow> 'a::len word" where
  "from_le [] = 0"
| "from_le (b # bs) = ucast b OR push_bit 8 (from_le bs)"

lemma length_be_bytes [simp]: "length (be_bytes n w) = n"
  by (induction n arbitrary: w) auto

lemma length_le_bytes [simp]: "length (le_bytes n w) = n"
  by (induction n arbitrary: w) auto

section \<open>Sequences\<close>

definition nth_opt :: "'a list \<Rightarrow> nat \<Rightarrow> 'a option" where
  "nth_opt xs i = (if i < length xs then Some (xs ! i) else None)"

lemma nth_opt_Some [simp]: "i < length xs \<Longrightarrow> nth_opt xs i = Some (xs ! i)"
  by (simp add: nth_opt_def)

lemma nth_opt_None [simp]: "length xs \<le> i \<Longrightarrow> nth_opt xs i = None"
  by (simp add: nth_opt_def)

lemma map_filter_nth_opt:
  "\<forall>i \<in> set is. i < length xs \<Longrightarrow> List.map_filter (nth_opt xs) is = map ((!) xs) is"
  by (induction "is") (auto simp: List.map_filter_simps)

lemma map_filter_all_Some:
  "\<forall>x \<in> set xs. f x = Some (g x) \<Longrightarrow> List.map_filter f xs = map g xs"
  by (induction xs) (auto simp: List.map_filter_simps)

lemma map_nth_upt: "b \<le> length xs \<Longrightarrow> map ((!) xs) [a..<b] = drop a (take b xs)"
  by (rule nth_equalityI) auto

lemma rev_drop_take:
  assumes "b \<le> length xs"
  shows "rev (drop a (take b xs)) = take (b - a) (drop (length xs - b) (rev xs))"
  using assms by (simp add: rev_drop rev_take min_absorb2)

text \<open>Saturating bounds select what the plain bounds select.\<close>

lemma take_saturated: "take (length xs - (length xs - l)) xs = take l xs"
  by (cases "l \<le> length xs") auto

lemma drop_saturated: "drop (length xs - (length xs - l)) xs = drop l xs"
  by (cases "l \<le> length xs") auto

lemma page_saturated:
  "take ((length xs - m) - ((length xs - m) - l)) (drop (length xs - (length xs - m)) xs) =
     take l (drop m xs)"
  using take_saturated [of "drop m xs" l] by (simp add: drop_saturated)

lemma concat_pages: "concat (map (\<lambda>i. take l (drop (i * l) xs)) [0..<m]) = take (m * l) xs"
proof (induction m)
  case (Suc m)
  then show ?case by (simp add: take_add [symmetric] add.commute)
qed simp

lemma take_drop_within:
  "m + j \<le> length (take k xs) \<Longrightarrow> take m (drop j (take k xs)) = take m (drop j xs)"
  by (simp add: drop_take min_def split: if_splits)

end
