(* ===== verification/Anchor_Interface.thy ===== *)
theory Anchor_Interface
  imports Rust_Prelude
begin

text \<open>
  The contract that the three Exonum anchoring services (\<open>log_service\<close>, \<open>hash_service\<close>,
  \<open>batch_service\<close> of \<open>exonum-logstore/backend/src\<close>) share: a transaction \<open>write\<close> that
  stores one record under a 32-byte content hash, at most once, and appends to two lists,
  the service-wide order of records and the submitter's own history. What the services call
  and the repository does not contain is a parameter: the \<open>hex\<close> crate and MerkleDB's list
  hash are the fields of \<^verbatim>\<open>crypto_env\<close>. A MerkleDB proof map is modelled by the map it
  stores, a proof list by the list it stores.
\<close>

type_synonym hash = bytes
type_synonym address = bytes

record crypto_env =
  hex_decode :: "rstring \<Rightarrow> bytes option"
  hex_encode :: "bytes \<Rightarrow> rstring"
  list_object_hash :: "hash list \<Rightarrow> hash"

text \<open>What a transaction handler reads of its \<open>ExecutionContext\<close>.\<close>

record call_context =
  ctx_transaction_hash :: "hash option"
  ctx_caller :: address

datatype 'e exec_error = ServiceError 'e | UnauthorizedCaller

datatype api_error = BadRequest string

text \<open>The abstract ledger of a service: its records in the order they were accepted.\<close>

definition ledger_of :: "('s \<Rightarrow> hash \<Rightarrow> 'r option) \<Rightarrow> ('s \<Rightarrow> hash list) \<Rightarrow> 's \<Rightarrow> (hash \<times> 'r) list" where
  "ledger_of lookup ordered s = map (\<lambda>k. (k, the (lookup s k))) (ordered s)"

text \<open>
  The state invariant of a service: the order lists every stored key exactly once.
\<close>

definition anchor_wf :: "('s \<Rightarrow> hash \<Rightarrow> 'r option) \<Rightarrow> ('s \<Rightarrow> hash list) \<Rightarrow> 's \<Rightarrow> bool" where
  "anchor_wf lookup ordered s \<longleftrightarrow>
     distinct (ordered s) \<and> set (ordered s) = dom (lookup s) \<and> (\<forall>k \<in> dom (lookup s). length k = 32)"

text \<open>A block of transactions, executed in order.\<close>

definition run_writes ::
  "('c \<Rightarrow> 'a \<Rightarrow> 's \<Rightarrow> 'x \<times> 's) \<Rightarrow> ('c \<times> 'a) list \<Rightarrow> 's \<Rightarrow> 's" where
  "run_writes write_tx txs s = fold (\<lambda>(c, a) s. snd (write_tx c a s)) txs s"

lemma run_writes_Nil [simp]: "run_writes write_tx [] s = s"
  by (simp add: run_writes_def)

lemma run_writes_Cons [simp]:
  "run_writes write_tx ((c, a) # txs) s = run_writes write_tx txs (snd (write_tx c a s))"
  by (simp add: run_writes_def)

lemma run_writes_append:
  "run_writes write_tx (txs @ txs') s = run_writes write_tx txs' (run_writes write_tx txs s)"
  by (simp add: run_writes_def)

text \<open>The items the list endpoints return: newest first, from the bounds they compute.\<close>

definition page_items ::
  "(hash \<Rightarrow> 'r option) \<Rightarrow> hash list \<Rightarrow> u64 \<Rightarrow> u64 \<Rightarrow> 'r list" where
  "page_items get lst start fin =
     List.map_filter get (List.map_filter (nth_opt lst) (rev [unat start..<unat fin]))"

lemma page_items_eq:
  assumes fin: "unat fin \<le> length lst" and stored: "set lst \<subseteq> dom get"
  shows "page_items get lst start fin =
     take (unat fin - unat start) (drop (length lst - unat fin) (rev (map (the \<circ> get) lst)))"
proof -
  let ?is = "rev [unat start..<unat fin]"
  have "List.map_filter (nth_opt lst) ?is = map ((!) lst) ?is"
    using fin by (intro map_filter_nth_opt) auto
  also have "\<dots> = rev (drop (unat start) (take (unat fin) lst))"
    using fin by (simp add: rev_map [symmetric] map_nth_upt)
  finally have keys: "List.map_filter (nth_opt lst) ?is =
      rev (drop (unat start) (take (unat fin) lst))" .
  have "set (rev (drop (unat start) (take (unat fin) lst))) \<subseteq> dom get"
    using stored by (auto dest: in_set_dropD in_set_takeD)
  then have "page_items get lst start fin =
      map (the \<circ> get) (rev (drop (unat start) (take (unat fin) lst)))"
    unfolding page_items_def keys by (intro map_filter_all_Some) force
  also have "rev (drop (unat start) (take (unat fin) lst)) =
      take (unat fin - unat start) (drop (length lst - unat fin) (rev lst))"
    using fin by (rule rev_drop_take)
  finally show ?thesis
    by (simp add: take_map drop_map rev_map)
qed

section \<open>The interface\<close>

locale anchor_service =
  fixes write_tx :: "call_context \<Rightarrow> 'arg \<Rightarrow> 's \<Rightarrow> (unit, 'e exec_error) result \<times> 's"
    and key_of :: "'arg \<Rightarrow> (hash, 'e) result"
    and lookup :: "'s \<Rightarrow> hash \<Rightarrow> 'r option"
    and ordered :: "'s \<Rightarrow> hash list"
    and history :: "'s \<Rightarrow> address \<Rightarrow> hash list"
    and new_record :: "hash \<Rightarrow> 'arg \<Rightarrow> hash list \<Rightarrow> hash \<Rightarrow> 'r"
    and duplicate :: 'e
  assumes key_length: "key_of a = Ok k \<Longrightarrow> length k = 32"
    and write_unauthorized:
      "ctx_transaction_hash c = None \<Longrightarrow> write_tx c a s = (Err UnauthorizedCaller, s)"
    and write_bad_key:
      "ctx_transaction_hash c = Some t \<Longrightarrow> key_of a = Err e \<Longrightarrow>
         write_tx c a s = (Err (ServiceError e), s)"
    and write_duplicate:
      "ctx_transaction_hash c = Some t \<Longrightarrow> key_of a = Ok k \<Longrightarrow> lookup s k = Some r \<Longrightarrow>
         write_tx c a s = (Err (ServiceError duplicate), s)"
    and write_fresh:
      "ctx_transaction_hash c = Some t \<Longrightarrow> key_of a = Ok k \<Longrightarrow> lookup s k = None \<Longrightarrow>
         fst (write_tx c a s) = Ok ()"
    and lookup_fresh:
      "ctx_transaction_hash c = Some t \<Longrightarrow> key_of a = Ok k \<Longrightarrow> lookup s k = None \<Longrightarrow>
         lookup (snd (write_tx c a s)) =
           (lookup s)(k \<mapsto> new_record k a (history s (ctx_caller c) @ [t]) t)"
    and ordered_fresh:
      "ctx_transaction_hash c = Some t \<Longrightarrow> key_of a = Ok k \<Longrightarrow> lookup s k = None \<Longrightarrow>
         ordered (snd (write_tx c a s)) = ordered s @ [k]"
    and history_fresh:
      "ctx_transaction_hash c = Some t \<Longrightarrow> key_of a = Ok k \<Longrightarrow> lookup s k = None \<Longrightarrow>
         history (snd (write_tx c a s)) =
           (history s)(ctx_caller c := history s (ctx_caller c) @ [t])"
begin

text \<open>A transaction either is rejected and changes nothing, or stores one fresh record.\<close>

lemma write_cases:
  obtains (rejected) e where "write_tx c a s = (Err e, s)"
  | (accepted) t k where "ctx_transaction_hash c = Some t" "key_of a = Ok k" "lookup s k = None"
proof (cases "ctx_transaction_hash c")
  case None
  then show thesis by (rule rejected [OF write_unauthorized])
next
  case (Some t)
  show thesis
  proof (cases "key_of a")
    case (Err e)
    with Some show thesis by (intro rejected [OF write_bad_key])
  next
    case (Ok k)
    then show thesis
      using Some rejected [OF write_duplicate] accepted by (cases "lookup s k") auto
  qed
qed

lemma rejected_unchanged: "fst (write_tx c a s) = Err e \<Longrightarrow> snd (write_tx c a s) = s"
  by (rule write_cases [of c a s]) (auto simp: write_fresh)

lemma accepted_iff:
  "fst (write_tx c a s) = Ok () \<longleftrightarrow>
     ctx_transaction_hash c \<noteq> None \<and> (\<exists>k. key_of a = Ok k \<and> lookup s k = None)"
proof (cases "ctx_transaction_hash c")
  case None
  then show ?thesis by (simp add: write_unauthorized)
next
  case (Some t)
  show ?thesis
  proof (cases "key_of a")
    case (Err e)
    with Some show ?thesis by (simp add: write_bad_key)
  next
    case (Ok k)
    with Some show ?thesis
      by (cases "lookup s k") (auto simp: write_duplicate write_fresh)
  qed
qed

lemma wf_write:
  assumes wf: "anchor_wf lookup ordered s"
  shows "anchor_wf lookup ordered (snd (write_tx c a s))"
proof (rule write_cases [of c a s])
  fix e assume "write_tx c a s = (Err e, s)"
  with wf show ?thesis by simp
next
  fix t k assume h: "ctx_transaction_hash c = Some t" "key_of a = Ok k" "lookup s k = None"
  from h(2) have "length k = 32" by (rule key_length)
  with wf h show ?thesis
    by (auto simp: anchor_wf_def ordered_fresh lookup_fresh)
qed

lemma wf_run: "anchor_wf lookup ordered s \<Longrightarrow> anchor_wf lookup ordered (run_writes write_tx txs s)"
  by (induction txs arbitrary: s) (auto simp: wf_write)

text \<open>A stored record is never changed or removed, and the order only grows at its end.\<close>

lemma lookup_write: "lookup s k = Some r \<Longrightarrow> lookup (snd (write_tx c a s)) k = Some r"
  by (rule write_cases [of c a s]) (auto simp: lookup_fresh)

lemma lookup_run: "lookup s k = Some r \<Longrightarrow> lookup (run_writes write_tx txs s) k = Some r"
  by (induction txs arbitrary: s) (auto simp: lookup_write)

lemma ordered_write: "prefix (ordered s) (ordered (snd (write_tx c a s)))"
  by (rule write_cases [of c a s]) (auto simp: ordered_fresh)

lemma ordered_run: "prefix (ordered s) (ordered (run_writes write_tx txs s))"
proof (induction txs arbitrary: s)
  case (Cons tx txs)
  then show ?case
    by (cases tx) (auto intro: prefix_order.trans [OF ordered_write])
qed simp

lemma history_write: "prefix (history s b) (history (snd (write_tx c a s)) b)"
  by (rule write_cases [of c a s]) (auto simp: history_fresh)

lemma history_run: "prefix (history s b) (history (run_writes write_tx txs s) b)"
proof (induction txs arbitrary: s)
  case (Cons tx txs)
  then show ?case
    by (cases tx) (auto intro: prefix_order.trans [OF history_write])
qed simp

text \<open>The abstract ledger: one accepted write appends exactly its record.\<close>

lemma ledger_accepted:
  assumes wf: "anchor_wf lookup ordered s"
    and h: "ctx_transaction_hash c = Some t" "key_of a = Ok k" "lookup s k = None"
  shows "ledger_of lookup ordered (snd (write_tx c a s)) =
     ledger_of lookup ordered s @ [(k, new_record k a (history s (ctx_caller c) @ [t]) t)]"
proof -
  from wf h have "k \<notin> set (ordered s)" by (auto simp: anchor_wf_def)
  with h show ?thesis by (auto simp: ledger_of_def ordered_fresh lookup_fresh)
qed

lemma ledger_write:
  assumes wf: "anchor_wf lookup ordered s"
  shows "ledger_of lookup ordered (snd (write_tx c a s)) =
     (case fst (write_tx c a s) of
        Err _ \<Rightarrow> ledger_of lookup ordered s
      | Ok _ \<Rightarrow> ledger_of lookup ordered s @
          [(ok_value (key_of a), new_record (ok_value (key_of a)) a
              (history s (ctx_caller c) @ [the (ctx_transaction_hash c)]) (the (ctx_transaction_hash c)))])"
  by (rule write_cases [of c a s]) (auto simp: write_fresh ledger_accepted wf)

end

section \<open>Provenance of stored records\<close>

text \<open>
  The hashes of the transactions of one submitter that are accepted when the transactions are executed in order, read off
  the transactions and their outcomes alone.
\<close>

fun accepted_by ::
  "(call_context \<Rightarrow> 'a \<Rightarrow> 's \<Rightarrow> (unit, 'e exec_error) result \<times> 's) \<Rightarrow> address \<Rightarrow> (call_context \<times> 'a) list \<Rightarrow> 's \<Rightarrow> hash list"
  where
  "accepted_by write_tx b [] s = []"
| "accepted_by write_tx b ((c, a) # txs) s =
     (if fst (write_tx c a s) = Ok () \<and> ctx_caller c = b then [the (ctx_transaction_hash c)] else []) @
     accepted_by write_tx b txs (snd (write_tx c a s))"

lemma accepted_by_append:
  "accepted_by write_tx b (xs @ ys) s = accepted_by write_tx b xs s @ accepted_by write_tx b ys (run_writes write_tx xs s)"
  by (induction xs arbitrary: s) auto

text \<open>
  A record under a key is vouched for when one of the transactions, which was accepted and carries this key, wrote it: the record
  names that key, that transaction, and by length and object hash the list of all transactions of the same submitter that were
  accepted up to and including this one.
\<close>

definition vouched ::
  "crypto_env \<Rightarrow> (call_context \<Rightarrow> 'a \<Rightarrow> 's \<Rightarrow> (unit, 'e exec_error) result \<times> 's) \<Rightarrow> ('a \<Rightarrow> (hash, 'e) result) \<Rightarrow>
   ('r \<Rightarrow> rstring) \<Rightarrow> ('r \<Rightarrow> u64) \<Rightarrow> ('r \<Rightarrow> hash) \<Rightarrow> ('r \<Rightarrow> rstring) \<Rightarrow> (call_context \<times> 'a) list \<Rightarrow> 's \<Rightarrow> hash \<Rightarrow> 'r \<Rightarrow> bool"
  where
  "vouched env write_tx key_of rec_key rec_len rec_hash rec_tx txs s k r \<longleftrightarrow>
     (\<exists>earlier c a later t.
        txs = earlier @ (c, a) # later \<and> ctx_transaction_hash c = Some t \<and> key_of a = Ok k \<and>
        fst (write_tx c a (run_writes write_tx earlier s)) = Ok () \<and>
        rec_key r = hex_encode env k \<and> rec_tx r = hex_encode env t \<and>
        (let h = accepted_by write_tx (ctx_caller c) (earlier @ [(c, a)]) s
         in rec_len r = of_nat (length h) \<and> rec_hash r = list_object_hash env h))"

lemma vouched_append:
  "vouched env w key rk rl rh rt txs s k r \<Longrightarrow> vouched env w key rk rl rh rt (txs @ later) s k r"
  unfolding vouched_def by fastforce

locale anchor_provenance = anchor_service +
  fixes env :: crypto_env
    and rec_len :: "'r \<Rightarrow> u64" and rec_hash :: "'r \<Rightarrow> hash" and rec_tx :: "'r \<Rightarrow> rstring"
    and rec_key :: "'r \<Rightarrow> rstring"
  assumes new_record_len: "rec_len (new_record k a h t) = of_nat (length h)"
    and new_record_hash: "rec_hash (new_record k a h t) = list_object_hash env h"
    and new_record_tx: "rec_tx (new_record k a h t) = hex_encode env t"
    and new_record_key: "rec_key (new_record k a h t) = hex_encode env k"
begin

text \<open>The histories are exactly the accepted transactions of each submitter.\<close>

lemma history_accepted: "history (run_writes write_tx txs s) b = history s b @ accepted_by write_tx b txs s"
proof (induction txs arbitrary: s)
  case (Cons tx txs)
  obtain c a where tx: "tx = (c, a)" by (cases tx)
  have "history (snd (write_tx c a s)) b =
      history s b @ (if fst (write_tx c a s) = Ok () \<and> ctx_caller c = b then [the (ctx_transaction_hash c)] else [])"
    by (rule write_cases [of c a s]) (auto simp: history_fresh write_fresh)
  with Cons.IH show ?case by (simp add: tx)
qed simp

lemma vouched_run:
  assumes "\<And>k. lookup s k = None" and "\<And>b. history s b = []" and "lookup (run_writes write_tx txs s) k = Some r"
  shows "vouched env write_tx key_of rec_key rec_len rec_hash rec_tx txs s k r"
  using assms(3)
proof (induction txs rule: rev_induct)
  case Nil
  with assms(1) show ?case by simp
next
  case (snoc tx txs)
  obtain c a where tx: "tx = (c, a)" by (cases tx)
  let ?s = "run_writes write_tx txs s"
  have run: "run_writes write_tx (txs @ [tx]) s = snd (write_tx c a ?s)" by (simp add: run_writes_append tx)
  show ?case
  proof (cases "lookup ?s k = Some r")
    case True
    from vouched_append [OF snoc.IH [OF this]] show ?thesis .
  next
    case False
    show ?thesis
    proof (rule write_cases [of c a ?s])
      fix e assume "write_tx c a ?s = (Err e, ?s)"
      with snoc.prems run False show ?thesis by simp
    next
      fix t k' assume h: "ctx_transaction_hash c = Some t" "key_of a = Ok k'" "lookup ?s k' = None"
      from snoc.prems run False h have k: "k = k'" and r: "r = new_record k' a (history ?s (ctx_caller c) @ [t]) t"
        by (auto simp: lookup_fresh split: if_splits)
      have "fst (write_tx c a ?s) = Ok ()" using h by (rule write_fresh)
      moreover have "history ?s (ctx_caller c) @ [t] = accepted_by write_tx (ctx_caller c) (txs @ [(c, a)]) s"
        using \<open>fst (write_tx c a ?s) = Ok ()\<close> h(1) assms(2) by (simp add: history_accepted accepted_by_append)
      ultimately show ?thesis unfolding vouched_def tx k r
        using h by (intro exI [of _ txs] exI [of _ c] exI [of _ a] exI [of _ "[]"] exI [of _ t])
          (simp add: new_record_len new_record_hash new_record_tx new_record_key)
    qed
  qed
qed

end

section \<open>Paging\<close>

text \<open>
  The list endpoints: offset 0 is the newest record, the limit is capped at 200, and the
  saturating subtractions make every page well defined.
\<close>

locale anchor_pages = anchor_service +
  fixes page :: "'s \<Rightarrow> u64 \<Rightarrow> u64 \<Rightarrow> 'r list"
  assumes page_bounds:
    "page s off lim =
       (let fin = sat_sub (of_nat (length (ordered s))) off
        in page_items (lookup s) (ordered s) (sat_sub fin (min lim 200)) fin)"
begin

lemma page_newest_first:
  assumes wf: "anchor_wf lookup ordered s" and small: "length (ordered s) < 2 ^ 64"
  shows "page s off lim =
     take (min (unat lim) 200) (drop (unat off) (rev (map snd (ledger_of lookup ordered s))))"
proof -
  let ?n = "length (ordered s)"
  define fin where "fin = sat_sub (of_nat ?n :: u64) off"
  have n: "unat (of_nat ?n :: u64) = ?n"
    using small by (simp add: unat_of_nat)
  then have fin: "unat fin = ?n - unat off" by (simp add: fin_def)
  have "page s off lim = page_items (lookup s) (ordered s) (sat_sub fin (min lim 200)) fin"
    by (simp add: page_bounds fin_def Let_def)
  also have "\<dots> = take (unat fin - (unat fin - min (unat lim) 200))
      (drop (?n - unat fin) (rev (map (the \<circ> lookup s) (ordered s))))"
    using wf fin by (subst page_items_eq) (auto simp: anchor_wf_def)
  also have "map (the \<circ> lookup s) (ordered s) = map snd (ledger_of lookup ordered s)"
    by (simp add: ledger_of_def)
  also have "take (unat fin - (unat fin - min (unat lim) 200))
      (drop (?n - unat fin) (rev (map snd (ledger_of lookup ordered s)))) =
    take (min (unat lim) 200) (drop (unat off) (rev (map snd (ledger_of lookup ordered s))))"
    using page_saturated [of "rev (map snd (ledger_of lookup ordered s))" "unat off" "min (unat lim) 200"]
    by (simp add: fin ledger_of_def)
  finally show ?thesis .
qed

text \<open>Walking the pages of a fixed size from offset 0 visits every record once, newest first.\<close>

lemma pages_cover:
  assumes wf: "anchor_wf lookup ordered s" and n: "length (ordered s) \<le> m * l"
    and ml: "m * l < 2 ^ 64" and l: "l \<le> 200"
  shows "concat (map (\<lambda>i. page s (of_nat (i * l)) (of_nat l)) [0..<m]) =
     rev (map snd (ledger_of lookup ordered s))"
proof -
  let ?L = "rev (map snd (ledger_of lookup ordered s))"
  have small: "length (ordered s) < 2 ^ 64" using n ml by simp
  have "page s (of_nat (i * l)) (of_nat l) = take l (drop (i * l) ?L)" if i: "i < m" for i
  proof -
    have "i * l < 2 ^ 64" using i ml by (meson le_less_trans less_imp_le_nat mult_le_mono1)
    then have off: "unat (of_nat (i * l) :: u64) = i * l" by (simp add: unat_of_nat del: of_nat_mult)
    have lim: "unat (of_nat l :: u64) = l" using l by (simp add: unat_of_nat)
    show ?thesis
      unfolding page_newest_first [OF wf small] off lim using l by (simp add: min_def)
  qed
  then have "concat (map (\<lambda>i. page s (of_nat (i * l)) (of_nat l)) [0..<m]) =
      concat (map (\<lambda>i. take l (drop (i * l) ?L)) [0..<m])"
    by (intro arg_cong [where f = concat] map_cong) auto
  also have "\<dots> = take (m * l) ?L" by (rule concat_pages)
  also have "\<dots> = ?L" using n by (simp add: ledger_of_def)
  finally show ?thesis .
qed

end

section \<open>A concrete environment\<close>

text \<open>
  An instance of the external functions for evaluating the services on concrete input: a
  "hexadecimal" string is read byte for byte.
\<close>

definition demo_env :: crypto_env where
  "demo_env = \<lparr>hex_decode = (\<lambda>s. Some (map of_nat s)), hex_encode = map unat,
               list_object_hash = concat\<rparr>"

definition demo_ctx :: call_context where
  "demo_ctx = \<lparr>ctx_transaction_hash = Some [1], ctx_caller = [2]\<rparr>"

end
