(* ===== verification/Log_Service.thy ===== *)
theory Log_Service
  imports Anchor_Interface
begin

text \<open>
  The log service (\<open>exonum-logstore/backend/src/log_service\<close>): its schema, its one
  transaction, and the two endpoints of its public API. It stores the whole log entry on
  chain. The functions keep the names of the source behind the prefix \<open>log_\<close>, because the
  three services have functions of the same names.
\<close>

section \<open>Data (transactions.rs, schema.rs)\<close>

datatype log_error = LogInvalidHash | LogDuplicateRecord

fun log_error_code :: "log_error \<Rightarrow> byte" where
  "log_error_code LogInvalidHash = 0"
| "log_error_code LogDuplicateRecord = 1"

record write_log =
  wl_content_hash :: rstring
  wl_level :: rstring
  wl_source :: rstring
  wl_message_preview :: rstring
  wl_seed :: u64
  wl_message :: rstring
  wl_metadata_json :: rstring

record log_record =
  lr_content_hash :: rstring
  lr_level :: rstring
  lr_source :: rstring
  lr_message_preview :: rstring
  lr_history_len :: u64
  lr_history_hash :: hash
  lr_message :: rstring
  lr_metadata_json :: rstring
  lr_tx_hash :: rstring

record log_schema =
  logs :: "hash \<Rightarrow> log_record option"
  log_submitter_history :: "address \<Rightarrow> hash list"
  logs_ordered :: "hash list"

text \<open>\<open>SchemaImpl::new\<close> on a fresh instance (\<open>Service::initialize\<close>): every index is empty.\<close>

definition log_initialize :: log_schema where
  "log_initialize = \<lparr>logs = (\<lambda>_. None), log_submitter_history = (\<lambda>_. []), logs_ordered = []\<rparr>"

definition log_instance_id :: u32 where
  "log_instance_id = 100"

definition log_instance_name :: string where
  "log_instance_name = ''log-service''"

section \<open>Operations\<close>

definition log_lookup :: "log_schema \<Rightarrow> hash \<Rightarrow> log_record option" where
  "log_lookup s content_hash = logs s content_hash"

definition store_log ::
  "crypto_env \<Rightarrow> hash \<Rightarrow> rstring \<Rightarrow> rstring \<Rightarrow> rstring \<Rightarrow> rstring \<Rightarrow> rstring \<Rightarrow> address \<Rightarrow> hash \<Rightarrow>
   log_schema \<Rightarrow> log_schema" where
  "store_log env content_hash level src preview message metadata submitter tx s =
     (let history = log_submitter_history s submitter @ [tx];
          history_hash = list_object_hash env history;
          rec = \<lparr>lr_content_hash = hex_encode env content_hash,
                 lr_level = level,
                 lr_source = src,
                 lr_message_preview = preview,
                 lr_history_len = of_nat (length history),
                 lr_history_hash = history_hash,
                 lr_message = message,
                 lr_metadata_json = metadata,
                 lr_tx_hash = hex_encode env tx\<rparr>
      in s\<lparr>log_submitter_history := (log_submitter_history s)(submitter := history),
           logs := (logs s)(content_hash \<mapsto> rec),
           logs_ordered := logs_ordered s @ [content_hash]\<rparr>)"

definition log_parse_hash :: "crypto_env \<Rightarrow> rstring \<Rightarrow> (hash, log_error) result" where
  "log_parse_hash env hex_str =
     (case hex_decode env hex_str of
        None \<Rightarrow> Err LogInvalidHash
      | Some bs \<Rightarrow> if length bs \<noteq> 32 then Err LogInvalidHash else Ok bs)"

definition log_extract_info :: "call_context \<Rightarrow> (address \<times> hash, log_error exec_error) result" where
  "log_extract_info ctx =
     (case ctx_transaction_hash ctx of
        None \<Rightarrow> Err UnauthorizedCaller
      | Some tx_hash \<Rightarrow> Ok (ctx_caller ctx, tx_hash))"

definition log_write ::
  "crypto_env \<Rightarrow> call_context \<Rightarrow> write_log \<Rightarrow> log_schema \<Rightarrow>
   (unit, log_error exec_error) result \<times> log_schema" where
  "log_write env ctx arg s =
     (case log_extract_info ctx of
        Err e \<Rightarrow> (Err e, s)
      | Ok (from_addr, tx_hash) \<Rightarrow>
        (case log_parse_hash env (wl_content_hash arg) of
           Err e \<Rightarrow> (Err (ServiceError e), s)
         | Ok content_hash \<Rightarrow>
             if log_lookup s content_hash \<noteq> None
             then (Err (ServiceError LogDuplicateRecord), s)
             else
               (let preview = take 256 (wl_message_preview arg)
                in (Ok (), store_log env content_hash (wl_level arg) (wl_source arg) preview
                             (wl_message arg) (wl_metadata_json arg) from_addr tx_hash s))))"

section \<open>Public API (api.rs)\<close>

record log_list_query =
  llq_offset :: u64
  llq_limit :: u64

definition log_default_limit :: u64 where
  "log_default_limit = 20"

text \<open>Deserialising a query: a missing field takes its serde default.\<close>

definition log_list_query_of :: "u64 option \<Rightarrow> u64 option \<Rightarrow> log_list_query" where
  "log_list_query_of off lim =
     \<lparr>llq_offset = (case off of None \<Rightarrow> 0 | Some x \<Rightarrow> x),
      llq_limit = (case lim of None \<Rightarrow> log_default_limit | Some x \<Rightarrow> x)\<rparr>"

record logs_list =
  ll_total :: u64
  ll_offset :: u64
  ll_limit :: u64
  ll_items :: "log_record list"

record ('bp, 'mp, 'rp) log_info =
  li_block_proof :: 'bp
  li_to_table :: 'mp
  li_to_record :: 'rp
  li_record :: "log_record option"

text \<open>
  What the endpoints read of \<open>ServiceApiState\<close>: the node's proof for an index of the
  service (absent before the first block commits the index), MerkleDB's proof of a key in
  the record map, and the service data.
\<close>

record ('bp, 'mp, 'rp) log_api_state =
  la_index_proof :: "string \<Rightarrow> ('bp \<times> 'mp) option"
  la_get_proof :: "(hash \<Rightarrow> log_record option) \<Rightarrow> hash \<Rightarrow> 'rp"
  la_data :: log_schema

definition log_decode_hash :: "crypto_env \<Rightarrow> rstring \<Rightarrow> (hash, api_error) result" where
  "log_decode_hash env hex_str =
     (case hex_decode env hex_str of
        None \<Rightarrow> Err (BadRequest ''Invalid hex hash'')
      | Some bs \<Rightarrow> if length bs \<noteq> 32 then Err (BadRequest ''Hash must be 32 bytes'') else Ok bs)"

definition log_info ::
  "crypto_env \<Rightarrow> ('bp, 'mp, 'rp) log_api_state \<Rightarrow> rstring \<Rightarrow>
   (('bp, 'mp, 'rp) log_info, api_error) result exec" where
  "log_info env st query_hash =
     (case la_index_proof st ''logs'' of
        None \<Rightarrow> Panic
      | Some (block_proof, index_proof) \<Rightarrow>
        (case log_decode_hash env query_hash of
           Err e \<Rightarrow> Return (Err e)
         | Ok content_hash \<Rightarrow>
             (let schema = la_data st
              in Return (Ok \<lparr>li_block_proof = block_proof,
                             li_to_table = index_proof,
                             li_to_record = la_get_proof st (logs schema) content_hash,
                             li_record = log_lookup schema content_hash\<rparr>))))"

definition log_list :: "log_schema \<Rightarrow> log_list_query \<Rightarrow> logs_list" where
  "log_list schema query =
     (let limit = min (llq_limit query) 200;
          lst = logs_ordered schema;
          total = of_nat (length lst);
          fin = sat_sub total (llq_offset query);
          start = sat_sub fin limit;
          items = List.map_filter (log_lookup schema)
                    (List.map_filter (nth_opt lst) (rev [unat start..<unat fin]))
      in \<lparr>ll_total = total, ll_offset = llq_offset query, ll_limit = limit, ll_items = items\<rparr>)"

definition log_endpoints :: "string list" where
  "log_endpoints = [''v1/logs/info'', ''v1/logs/list'']"

section \<open>The service meets the anchoring contract\<close>

definition log_new_record ::
  "crypto_env \<Rightarrow> hash \<Rightarrow> write_log \<Rightarrow> hash list \<Rightarrow> hash \<Rightarrow> log_record" where
  "log_new_record env k arg history tx =
     \<lparr>lr_content_hash = hex_encode env k, lr_level = wl_level arg, lr_source = wl_source arg,
      lr_message_preview = take 256 (wl_message_preview arg),
      lr_history_len = of_nat (length history), lr_history_hash = list_object_hash env history,
      lr_message = wl_message arg, lr_metadata_json = wl_metadata_json arg,
      lr_tx_hash = hex_encode env tx\<rparr>"

lemma log_lookup_eq: "log_lookup s = logs s"
  by (simp add: log_lookup_def fun_eq_iff)

lemmas log_defs = log_write_def log_extract_info_def store_log_def log_lookup_eq
  log_new_record_def

lemma log_parse_hash_Ok: "log_parse_hash env s = Ok k \<longleftrightarrow> hex_decode env s = Some k \<and> length k = 32"
  by (auto simp: log_parse_hash_def split: option.splits)

interpretation log: anchor_pages
  "log_write env" "\<lambda>a. log_parse_hash env (wl_content_hash a)" log_lookup logs_ordered
  log_submitter_history "log_new_record env" LogDuplicateRecord
  "\<lambda>s off lim. ll_items (log_list s \<lparr>llq_offset = off, llq_limit = lim\<rparr>)"
  for env
  by unfold_locales
     (auto simp: log_defs Let_def log_list_def page_items_def dest: log_parse_hash_Ok [THEN iffD1])

interpretation log: anchor_provenance
  "log_write env" "\<lambda>a. log_parse_hash env (wl_content_hash a)" log_lookup logs_ordered
  log_submitter_history "log_new_record env" LogDuplicateRecord env
  lr_history_len lr_history_hash lr_tx_hash lr_content_hash
  for env
  by unfold_locales (auto simp: log_new_record_def)

abbreviation log_wf :: "log_schema \<Rightarrow> bool" where
  "log_wf \<equiv> anchor_wf log_lookup logs_ordered"

abbreviation log_ledger :: "log_schema \<Rightarrow> (hash \<times> log_record) list" where
  "log_ledger \<equiv> ledger_of log_lookup logs_ordered"

lemma log_wf_initialize: "log_wf log_initialize"
  by (simp add: anchor_wf_def log_initialize_def log_lookup_eq)

lemma log_lookup_initialize [simp]: "log_lookup log_initialize k = None"
  by (simp add: log_initialize_def log_lookup_def)

lemma log_wf_reachable: "log_wf (run_writes (log_write env) txs log_initialize)"
  by (rule log.wf_run) (rule log_wf_initialize)

section \<open>Properties\<close>

definition demo_log :: write_log where
  "demo_log = \<lparr>wl_content_hash = replicate 32 7, wl_level = [1], wl_source = [2],
               wl_message_preview = [3], wl_seed = 0, wl_message = [4], wl_metadata_json = [5]\<rparr>"

text \<open>
  Property C1. The outcome of a log transaction, on every branch: it is rejected as
  unauthorised when it has no transaction hash, then as invalid when the content hash is not
  the hexadecimal form of 32 bytes, then as a duplicate when a record is stored under that
  hash, and accepted otherwise; a rejected transaction changes nothing.
\<close>

theorem log_write_outcome:
  "fst (log_write env ctx arg s) =
     (if ctx_transaction_hash ctx = None then Err UnauthorizedCaller
      else case hex_decode env (wl_content_hash arg) of
             None \<Rightarrow> Err (ServiceError LogInvalidHash)
           | Some k \<Rightarrow> if length k \<noteq> 32 then Err (ServiceError LogInvalidHash)
                      else if log_lookup s k \<noteq> None then Err (ServiceError LogDuplicateRecord)
                      else Ok ()) \<and>
   (fst (log_write env ctx arg s) = Ok () \<or> snd (log_write env ctx arg s) = s)"
  by (auto simp: log_write_def log_extract_info_def log_parse_hash_def Let_def split: option.split)

text \<open>
  Property C2. In every state that a sequence of log transactions reaches, the order lists
  each stored key once and nothing else, every key has 32 bytes, the history of every address is the list of its own
  transactions that were accepted, in order, and every record was written by an accepted transaction: it carries the key and the
  hash of that transaction, and the length and object hash of its submitter's history up to and including it.
\<close>

theorem log_reachable_ledger:
  assumes "s = run_writes (log_write env) txs log_initialize"
  shows "log_wf s \<and>
    (\<forall>b. log_submitter_history s b = accepted_by (log_write env) b txs log_initialize) \<and>
    (\<forall>k r. log_lookup s k = Some r \<longrightarrow> k \<in> set (logs_ordered s) \<and>
       vouched env (log_write env) (\<lambda>a. log_parse_hash env (wl_content_hash a))
         lr_content_hash lr_history_len lr_history_hash lr_tx_hash txs log_initialize k r)"
proof (intro conjI allI impI)
  show wf: "log_wf s" using assms by (simp add: log_wf_reachable)
  have empty: "log_submitter_history log_initialize b = []" for b by (simp add: log_initialize_def)
  show "log_submitter_history s b = accepted_by (log_write env) b txs log_initialize" for b
    unfolding assms log.history_accepted empty by simp
  fix k r
  assume r: "log_lookup s k = Some r"
  then show "k \<in> set (logs_ordered s)" using wf by (auto simp: anchor_wf_def)
  show "vouched env (log_write env) (\<lambda>a. log_parse_hash env (wl_content_hash a))
      lr_content_hash lr_history_len lr_history_hash lr_tx_hash txs log_initialize k r"
    using assms r by (intro log.vouched_run) (simp_all add: empty)
qed

lemma demo_log_stored:
  "log_lookup (run_writes (log_write demo_env) [(demo_ctx, demo_log)] log_initialize)
     (map of_nat (replicate 32 7)) =
   Some (log_new_record demo_env (map of_nat (replicate 32 7)) demo_log [[1]] [1])"
  by (simp add: log_defs log_parse_hash_def demo_env_def demo_ctx_def demo_log_def
      log_initialize_def Let_def)

theorem log_reachable_ledger_witness:
  "log_submitter_history (run_writes (log_write demo_env) [(demo_ctx, demo_log)] log_initialize) [2] =
     accepted_by (log_write demo_env) [2] [(demo_ctx, demo_log)] log_initialize \<and>
   vouched demo_env (log_write demo_env) (\<lambda>a. log_parse_hash demo_env (wl_content_hash a))
     lr_content_hash lr_history_len lr_history_hash lr_tx_hash [(demo_ctx, demo_log)] log_initialize
     (map of_nat (replicate 32 7)) (log_new_record demo_env (map of_nat (replicate 32 7)) demo_log [[1]] [1])"
  using log_reachable_ledger [OF refl, of demo_env "[(demo_ctx, demo_log)]"] demo_log_stored by blast

text \<open>
  Property C3. A stored log record is permanent: whatever transactions follow, the record
  stays under its key unchanged, and the order and every history only grow at their end.
\<close>

theorem log_records_permanent:
  assumes "log_lookup s k = Some r" and "s' = run_writes (log_write env) txs s"
  shows "log_lookup s' k = Some r \<and> prefix (logs_ordered s) (logs_ordered s') \<and>
    (\<forall>a. prefix (log_submitter_history s a) (log_submitter_history s' a))"
  using assms log.lookup_run [of s k r] log.ordered_run log.history_run by blast

theorem log_records_permanent_witness:
  "log_lookup (run_writes (log_write demo_env) [(demo_ctx, demo_log)]
     (run_writes (log_write demo_env) [(demo_ctx, demo_log)] log_initialize))
     (map of_nat (replicate 32 7)) =
   Some (log_new_record demo_env (map of_nat (replicate 32 7)) demo_log [[1]] [1])"
  using log_records_permanent [OF demo_log_stored refl] by blast

text \<open>
  Property C4. A log transaction refines the abstract ledger: accepted, it appends exactly
  one entry, the key with the record made of the submitted fields (the preview cut to 256
  characters) and the submitter's extended history; rejected, it leaves the ledger alone.
\<close>

theorem log_write_refines:
  assumes "log_wf s"
  shows "log_ledger (snd (log_write env ctx arg s)) = log_ledger s @
    (case log_write env ctx arg s of
       (Err _, _) \<Rightarrow> []
     | (Ok _, _) \<Rightarrow>
         (let k = the (hex_decode env (wl_content_hash arg));
              tx = the (ctx_transaction_hash ctx);
              history = log_submitter_history s (ctx_caller ctx) @ [tx]
          in [(k, \<lparr>lr_content_hash = hex_encode env k, lr_level = wl_level arg,
                  lr_source = wl_source arg,
                  lr_message_preview = take 256 (wl_message_preview arg),
                  lr_history_len = of_nat (length history),
                  lr_history_hash = list_object_hash env history,
                  lr_message = wl_message arg, lr_metadata_json = wl_metadata_json arg,
                  lr_tx_hash = hex_encode env tx\<rparr>)]))"
proof (rule log.write_cases [of env ctx arg s])
  fix e assume "log_write env ctx arg s = (Err e, s)"
  then show ?thesis by simp
next
  fix t k
  assume h: "ctx_transaction_hash ctx = Some t"
    "log_parse_hash env (wl_content_hash arg) = Ok k" "log_lookup s k = None"
  have "fst (log_write env ctx arg s) = Ok ()" using h by (rule log.write_fresh)
  moreover have "hex_decode env (wl_content_hash arg) = Some k"
    using h(2) by (simp add: log_parse_hash_Ok)
  ultimately show ?thesis
    using log.ledger_accepted [OF assms h] h(1)
    by (simp add: log_new_record_def case_prod_beta Let_def)
qed

theorem log_write_refines_witness:
  "length (log_ledger (snd (log_write demo_env demo_ctx demo_log log_initialize))) = 1"
  unfolding log_write_refines [OF log_wf_initialize]
  by (simp add: log_defs log_parse_hash_def demo_env_def demo_ctx_def demo_log_def
      log_initialize_def Let_def ledger_of_def)

text \<open>
  Property C5. The list endpoint returns the records newest first: at most 200, at most
  \<open>limit\<close>, after skipping the \<open>offset\<close> newest ones, whatever offset and limit are asked for;
  the total it reports is the number of stored records.
\<close>

theorem log_list_newest_first:
  assumes "log_wf s" and "length (logs_ordered s) < 2 ^ 64"
  shows "ll_items (log_list s q) =
      take (min (unat (llq_limit q)) 200)
        (drop (unat (llq_offset q)) (rev (map snd (log_ledger s)))) \<and>
    unat (ll_total (log_list s q)) = length (log_ledger s)"
proof -
  have "ll_items (log_list s q) = take (min (unat (llq_limit q)) 200)
      (drop (unat (llq_offset q)) (rev (map snd (log_ledger s))))"
    using log.page_newest_first [OF assms, of "llq_offset q" "llq_limit q"]
    by (simp add: log_list_def Let_def)
  then show ?thesis using assms(2) by (simp add: log_list_def Let_def ledger_of_def unat_of_nat)
qed

theorem log_list_newest_first_witness:
  "ll_items (log_list log_initialize (log_list_query_of None None)) = []"
  using log_list_newest_first [OF log_wf_initialize, of "log_list_query_of None None"]
  by (simp add: log_initialize_def ledger_of_def)

text \<open>
  Walking the list endpoint page by page, with any page size from 1 to 200 and
  enough pages, returns every stored record exactly once, newest first.
\<close>

theorem log_pages_cover:
  assumes "log_wf s" and "length (logs_ordered s) \<le> m * l" and "m * l < 2 ^ 64" and "l \<le> 200"
  shows "concat (map (\<lambda>i. ll_items (log_list s
      \<lparr>llq_offset = of_nat (i * l), llq_limit = of_nat l\<rparr>)) [0..<m]) = rev (map snd (log_ledger s))"
  using assms by (rule log.pages_cover)

theorem log_pages_cover_witness:
  "concat (map (\<lambda>i. ll_items (log_list log_initialize
      \<lparr>llq_offset = of_nat (i * 3), llq_limit = of_nat 3\<rparr>)) [0..<2]) = []"
  using log_pages_cover [OF log_wf_initialize, of 2 3]
  by (simp add: log_initialize_def ledger_of_def)

text \<open>
  After an accepted log transaction, and whatever transactions follow, the info
  endpoint asked for the submitted content hash returns the record with the submitted level,
  source, message and metadata; it panics only while the node has no proof for the index.
\<close>

theorem log_info_after_write:
  assumes "log_write env ctx arg s = (Ok (), s1)"
    and "la_data st = run_writes (log_write env) txs s1"
    and "la_index_proof st ''logs'' = Some (bp, ip)"
  shows "\<exists>i r. log_info env st (wl_content_hash arg) = Return (Ok i) \<and> li_record i = Some r \<and>
    lr_level r = wl_level arg \<and> lr_source r = wl_source arg \<and> lr_message r = wl_message arg \<and>
    lr_metadata_json r = wl_metadata_json arg \<and>
    lr_message_preview r = take 256 (wl_message_preview arg)"
proof -
  from assms(1) obtain k t where h: "ctx_transaction_hash ctx = Some t"
    "log_parse_hash env (wl_content_hash arg) = Ok k" "log_lookup s k = None"
    using log.accepted_iff [of env ctx arg s] by auto
  let ?r = "log_new_record env k arg (log_submitter_history s (ctx_caller ctx) @ [t]) t"
  have "log_lookup s1 k = Some ?r" using log.lookup_fresh [OF h] assms(1) by simp
  then have "log_lookup (la_data st) k = Some ?r" unfolding assms(2) by (rule log.lookup_run)
  moreover have "log_decode_hash env (wl_content_hash arg) = Ok k"
    using h(2) by (simp add: log_parse_hash_Ok log_decode_hash_def)
  ultimately show ?thesis using assms(3) by (simp add: log_info_def log_new_record_def)
qed

theorem log_info_after_write_witness:
  "\<exists>i r. log_info demo_env
     \<lparr>la_index_proof = (\<lambda>_. Some ((), ())), la_get_proof = (\<lambda>_ _. ()),
      la_data = snd (log_write demo_env demo_ctx demo_log log_initialize)\<rparr> (replicate 32 7) =
       Return (Ok i) \<and> li_record i = Some r \<and> lr_message r = [4]"
proof -
  have "fst (log_write demo_env demo_ctx demo_log log_initialize) = Ok ()"
    by (simp add: log_defs log_parse_hash_def demo_env_def demo_ctx_def demo_log_def
        log_initialize_def Let_def)
  then have "log_write demo_env demo_ctx demo_log log_initialize =
      (Ok (), snd (log_write demo_env demo_ctx demo_log log_initialize))" by (simp add: prod_eq_iff)
  from log_info_after_write [OF this, of
      "\<lparr>la_index_proof = (\<lambda>_. Some ((), ())), la_get_proof = (\<lambda>_ _. ()),
       la_data = snd (log_write demo_env demo_ctx demo_log log_initialize)\<rparr>" "[]" "()" "()"]
  show ?thesis by (auto simp: demo_log_def)
qed

end
