(* ===== verification/Hash_Service.thy ===== *)
theory Hash_Service
  imports Anchor_Interface
begin

text \<open>
  The hash service (\<open>exonum-logstore/backend/src/hash_service\<close>): like the log service, but
  only the content hash, the level and a preview of the message go on chain.
\<close>

section \<open>Data (transactions.rs, schema.rs)\<close>

datatype hash_error = HashInvalidHash | HashDuplicateRecord

fun hash_error_code :: "hash_error \<Rightarrow> byte" where
  "hash_error_code HashInvalidHash = 0"
| "hash_error_code HashDuplicateRecord = 1"

record write_hash =
  wh_content_hash :: rstring
  wh_level :: rstring
  wh_message_preview :: rstring
  wh_seed :: u64

record hash_record =
  hr_content_hash :: rstring
  hr_level :: rstring
  hr_message_preview :: rstring
  hr_history_len :: u64
  hr_history_hash :: hash
  hr_tx_hash :: rstring

record hash_schema =
  hashes :: "hash \<Rightarrow> hash_record option"
  hash_submitter_history :: "address \<Rightarrow> hash list"
  hashes_ordered :: "hash list"

text \<open>\<open>SchemaImpl::new\<close> on a fresh instance (\<open>Service::initialize\<close>): every index is empty.\<close>

definition hash_initialize :: hash_schema where
  "hash_initialize = \<lparr>hashes = (\<lambda>_. None), hash_submitter_history = (\<lambda>_. []), hashes_ordered = []\<rparr>"

definition hash_instance_id :: u32 where
  "hash_instance_id = 101"

definition hash_instance_name :: string where
  "hash_instance_name = ''hash-service''"

section \<open>Operations\<close>

definition hash_lookup :: "hash_schema \<Rightarrow> hash \<Rightarrow> hash_record option" where
  "hash_lookup s content_hash = hashes s content_hash"

definition store_hash ::
  "crypto_env \<Rightarrow> hash \<Rightarrow> rstring \<Rightarrow> rstring \<Rightarrow> address \<Rightarrow> hash \<Rightarrow> hash_schema \<Rightarrow> hash_schema" where
  "store_hash env content_hash level preview submitter tx s =
     (let history = hash_submitter_history s submitter @ [tx];
          history_hash = list_object_hash env history;
          rec = \<lparr>hr_content_hash = hex_encode env content_hash,
                 hr_level = level,
                 hr_message_preview = preview,
                 hr_history_len = of_nat (length history),
                 hr_history_hash = history_hash,
                 hr_tx_hash = hex_encode env tx\<rparr>
      in s\<lparr>hash_submitter_history := (hash_submitter_history s)(submitter := history),
           hashes := (hashes s)(content_hash \<mapsto> rec),
           hashes_ordered := hashes_ordered s @ [content_hash]\<rparr>)"

definition hash_parse_hash :: "crypto_env \<Rightarrow> rstring \<Rightarrow> (hash, hash_error) result" where
  "hash_parse_hash env hex_str =
     (case hex_decode env hex_str of
        None \<Rightarrow> Err HashInvalidHash
      | Some bs \<Rightarrow> if length bs \<noteq> 32 then Err HashInvalidHash else Ok bs)"

definition hash_extract_info :: "call_context \<Rightarrow> (address \<times> hash, hash_error exec_error) result" where
  "hash_extract_info ctx =
     (case ctx_transaction_hash ctx of
        None \<Rightarrow> Err UnauthorizedCaller
      | Some tx_hash \<Rightarrow> Ok (ctx_caller ctx, tx_hash))"

definition hash_write ::
  "crypto_env \<Rightarrow> call_context \<Rightarrow> write_hash \<Rightarrow> hash_schema \<Rightarrow>
   (unit, hash_error exec_error) result \<times> hash_schema" where
  "hash_write env ctx arg s =
     (case hash_extract_info ctx of
        Err e \<Rightarrow> (Err e, s)
      | Ok (from_addr, tx_hash) \<Rightarrow>
        (case hash_parse_hash env (wh_content_hash arg) of
           Err e \<Rightarrow> (Err (ServiceError e), s)
         | Ok content_hash \<Rightarrow>
             if hash_lookup s content_hash \<noteq> None
             then (Err (ServiceError HashDuplicateRecord), s)
             else
               (let preview = take 256 (wh_message_preview arg)
                in (Ok (), store_hash env content_hash (wh_level arg) preview from_addr tx_hash s))))"

section \<open>Public API (api.rs)\<close>

record hash_list_query =
  hlq_offset :: u64
  hlq_limit :: u64

definition hash_default_limit :: u64 where
  "hash_default_limit = 20"

text \<open>Deserialising a query: a missing field takes its serde default.\<close>

definition hash_list_query_of :: "u64 option \<Rightarrow> u64 option \<Rightarrow> hash_list_query" where
  "hash_list_query_of off lim =
     \<lparr>hlq_offset = (case off of None \<Rightarrow> 0 | Some x \<Rightarrow> x),
      hlq_limit = (case lim of None \<Rightarrow> hash_default_limit | Some x \<Rightarrow> x)\<rparr>"

record hashes_list =
  hl_total :: u64
  hl_offset :: u64
  hl_limit :: u64
  hl_items :: "hash_record list"

record ('bp, 'mp, 'rp) hash_info =
  hi_block_proof :: 'bp
  hi_to_table :: 'mp
  hi_to_record :: 'rp
  hi_record :: "hash_record option"

text \<open>
  What the endpoints read of \<open>ServiceApiState\<close>: the node's proof for an index of the
  service (absent before the first block commits the index), MerkleDB's proof of a key in
  the record map, and the service data.
\<close>

record ('bp, 'mp, 'rp) hash_api_state =
  ha_index_proof :: "string \<Rightarrow> ('bp \<times> 'mp) option"
  ha_get_proof :: "(hash \<Rightarrow> hash_record option) \<Rightarrow> hash \<Rightarrow> 'rp"
  ha_data :: hash_schema

definition hash_decode_hash :: "crypto_env \<Rightarrow> rstring \<Rightarrow> (hash, api_error) result" where
  "hash_decode_hash env hex_str =
     (case hex_decode env hex_str of
        None \<Rightarrow> Err (BadRequest ''Invalid hex hash'')
      | Some bs \<Rightarrow> if length bs \<noteq> 32 then Err (BadRequest ''Hash must be 32 bytes'') else Ok bs)"

definition hash_info ::
  "crypto_env \<Rightarrow> ('bp, 'mp, 'rp) hash_api_state \<Rightarrow> rstring \<Rightarrow>
   (('bp, 'mp, 'rp) hash_info, api_error) result exec" where
  "hash_info env st query_hash =
     (case ha_index_proof st ''hashes'' of
        None \<Rightarrow> Panic
      | Some (block_proof, index_proof) \<Rightarrow>
        (case hash_decode_hash env query_hash of
           Err e \<Rightarrow> Return (Err e)
         | Ok content_hash \<Rightarrow>
             (let schema = ha_data st
              in Return (Ok \<lparr>hi_block_proof = block_proof,
                             hi_to_table = index_proof,
                             hi_to_record = ha_get_proof st (hashes schema) content_hash,
                             hi_record = hash_lookup schema content_hash\<rparr>))))"

definition hash_list :: "hash_schema \<Rightarrow> hash_list_query \<Rightarrow> hashes_list" where
  "hash_list schema query =
     (let limit = min (hlq_limit query) 200;
          lst = hashes_ordered schema;
          total = of_nat (length lst);
          fin = sat_sub total (hlq_offset query);
          start = sat_sub fin limit;
          items = List.map_filter (hash_lookup schema)
                    (List.map_filter (nth_opt lst) (rev [unat start..<unat fin]))
      in \<lparr>hl_total = total, hl_offset = hlq_offset query, hl_limit = limit, hl_items = items\<rparr>)"

definition hash_endpoints :: "string list" where
  "hash_endpoints = [''v1/hashes/info'', ''v1/hashes/list'']"

section \<open>The service meets the anchoring contract\<close>

definition hash_new_record ::
  "crypto_env \<Rightarrow> hash \<Rightarrow> write_hash \<Rightarrow> hash list \<Rightarrow> hash \<Rightarrow> hash_record" where
  "hash_new_record env k arg history tx =
     \<lparr>hr_content_hash = hex_encode env k, hr_level = wh_level arg,
      hr_message_preview = take 256 (wh_message_preview arg),
      hr_history_len = of_nat (length history), hr_history_hash = list_object_hash env history,
      hr_tx_hash = hex_encode env tx\<rparr>"

lemma hash_lookup_eq: "hash_lookup s = hashes s"
  by (simp add: hash_lookup_def fun_eq_iff)

lemmas hash_defs = hash_write_def hash_extract_info_def store_hash_def hash_lookup_eq
  hash_new_record_def

lemma hash_parse_hash_Ok: "hash_parse_hash env s = Ok k \<longleftrightarrow> hex_decode env s = Some k \<and> length k = 32"
  by (auto simp: hash_parse_hash_def split: option.splits)

interpretation hash: anchor_pages
  "hash_write env" "\<lambda>a. hash_parse_hash env (wh_content_hash a)" hash_lookup hashes_ordered
  hash_submitter_history "hash_new_record env" HashDuplicateRecord
  "\<lambda>s off lim. hl_items (hash_list s \<lparr>hlq_offset = off, hlq_limit = lim\<rparr>)"
  for env
  by unfold_locales
     (auto simp: hash_defs Let_def hash_list_def page_items_def dest: hash_parse_hash_Ok [THEN iffD1])

interpretation hash: anchor_provenance
  "hash_write env" "\<lambda>a. hash_parse_hash env (wh_content_hash a)" hash_lookup hashes_ordered
  hash_submitter_history "hash_new_record env" HashDuplicateRecord env
  hr_history_len hr_history_hash hr_tx_hash hr_content_hash
  for env
  by unfold_locales (auto simp: hash_new_record_def)

abbreviation hash_wf :: "hash_schema \<Rightarrow> bool" where
  "hash_wf \<equiv> anchor_wf hash_lookup hashes_ordered"

abbreviation hash_ledger :: "hash_schema \<Rightarrow> (hash \<times> hash_record) list" where
  "hash_ledger \<equiv> ledger_of hash_lookup hashes_ordered"

lemma hash_wf_initialize: "hash_wf hash_initialize"
  by (simp add: anchor_wf_def hash_initialize_def hash_lookup_eq)

lemma hash_lookup_initialize [simp]: "hash_lookup hash_initialize k = None"
  by (simp add: hash_initialize_def hash_lookup_def)

lemma hash_wf_reachable: "hash_wf (run_writes (hash_write env) txs hash_initialize)"
  by (rule hash.wf_run) (rule hash_wf_initialize)

section \<open>Properties\<close>

definition demo_hash :: write_hash where
  "demo_hash = \<lparr>wh_content_hash = replicate 32 7, wh_level = [1],
               wh_message_preview = [3], wh_seed = 0\<rparr>"

text \<open>
  In every state that a sequence of hash transactions reaches, the order lists
  each stored key once and nothing else, every key has 32 bytes, the history of every address is the list of its own
  transactions that were accepted, in order, and every record was written by an accepted transaction: it carries the key and the
  hash of that transaction, and the length and object hash of its submitter's history up to and including it.
\<close>

theorem hash_reachable_ledger:
  assumes "s = run_writes (hash_write env) txs hash_initialize" and "hash_lookup s k = Some r"
  shows "hash_wf s \<and> k \<in> set (hashes_ordered s) \<and>
    (\<forall>b. hash_submitter_history s b = accepted_by (hash_write env) b txs hash_initialize) \<and>
    vouched env (hash_write env) (\<lambda>a. hash_parse_hash env (wh_content_hash a))
      hr_content_hash hr_history_len hr_history_hash hr_tx_hash txs hash_initialize k r"
proof -
  have wf: "hash_wf s" using assms(1) by (simp add: hash_wf_reachable)
  then have "k \<in> set (hashes_ordered s)" using assms(2) by (auto simp: anchor_wf_def)
  moreover have empty: "hash_submitter_history hash_initialize b = []" for b by (simp add: hash_initialize_def)
  moreover have "hash_submitter_history s b = accepted_by (hash_write env) b txs hash_initialize" for b
    unfolding assms(1) hash.history_accepted empty by simp
  moreover have "vouched env (hash_write env) (\<lambda>a. hash_parse_hash env (wh_content_hash a))
      hr_content_hash hr_history_len hr_history_hash hr_tx_hash txs hash_initialize k r"
    using assms by (intro hash.vouched_run) (simp_all add: empty)
  ultimately show ?thesis using wf by blast
qed

lemma demo_hash_stored:
  "hash_lookup (run_writes (hash_write demo_env) [(demo_ctx, demo_hash)] hash_initialize)
     (map of_nat (replicate 32 7)) =
   Some (hash_new_record demo_env (map of_nat (replicate 32 7)) demo_hash [[1]] [1])"
  by (simp add: hash_defs hash_parse_hash_def demo_env_def demo_ctx_def demo_hash_def
      hash_initialize_def Let_def)

theorem hash_reachable_ledger_witness:
  "hash_submitter_history (run_writes (hash_write demo_env) [(demo_ctx, demo_hash)] hash_initialize) [2] =
     accepted_by (hash_write demo_env) [2] [(demo_ctx, demo_hash)] hash_initialize \<and>
   hash_submitter_history (run_writes (hash_write demo_env) [(demo_ctx, demo_hash)] hash_initialize) [3] =
     accepted_by (hash_write demo_env) [3] [(demo_ctx, demo_hash)] hash_initialize"
  using hash_reachable_ledger [OF refl demo_hash_stored] by blast

text \<open>
  A hash transaction refines the abstract ledger: accepted, it appends exactly
  one entry, the key with the record made of the submitted fields (the preview cut to 256
  characters) and the submitter's extended history; rejected, it leaves the ledger alone.
\<close>

theorem hash_write_refines:
  assumes "hash_wf s"
  shows "hash_ledger (snd (hash_write env ctx arg s)) = hash_ledger s @
    (case hash_write env ctx arg s of
       (Err _, _) \<Rightarrow> []
     | (Ok _, _) \<Rightarrow>
         (let k = the (hex_decode env (wh_content_hash arg));
              tx = the (ctx_transaction_hash ctx);
              history = hash_submitter_history s (ctx_caller ctx) @ [tx]
          in [(k, \<lparr>hr_content_hash = hex_encode env k, hr_level = wh_level arg,
                  hr_message_preview = take 256 (wh_message_preview arg),
                  hr_history_len = of_nat (length history),
                  hr_history_hash = list_object_hash env history,
                  hr_tx_hash = hex_encode env tx\<rparr>)]))"
proof (rule hash.write_cases [of env ctx arg s])
  fix e assume "hash_write env ctx arg s = (Err e, s)"
  then show ?thesis by simp
next
  fix t k
  assume h: "ctx_transaction_hash ctx = Some t"
    "hash_parse_hash env (wh_content_hash arg) = Ok k" "hash_lookup s k = None"
  have "fst (hash_write env ctx arg s) = Ok ()" using h by (rule hash.write_fresh)
  moreover have "hex_decode env (wh_content_hash arg) = Some k"
    using h(2) by (simp add: hash_parse_hash_Ok)
  ultimately show ?thesis
    using hash.ledger_accepted [OF assms h] h(1)
    by (simp add: hash_new_record_def case_prod_beta Let_def)
qed

theorem hash_write_refines_witness:
  "length (hash_ledger (snd (hash_write demo_env demo_ctx demo_hash hash_initialize))) = 1"
  unfolding hash_write_refines [OF hash_wf_initialize]
  by (simp add: hash_defs hash_parse_hash_def demo_env_def demo_ctx_def demo_hash_def
      hash_initialize_def Let_def ledger_of_def)

text \<open>
  The list endpoint returns the records newest first: at most 200, at most
  \<open>limit\<close>, after skipping the \<open>offset\<close> newest ones, whatever offset and limit are asked for;
  the total it reports is the number of stored records.
\<close>

theorem hash_list_newest_first:
  assumes "hash_wf s" and "length (hashes_ordered s) < 2 ^ 64"
  shows "hl_items (hash_list s q) =
      take (min (unat (hlq_limit q)) 200)
        (drop (unat (hlq_offset q)) (rev (map snd (hash_ledger s)))) \<and>
    unat (hl_total (hash_list s q)) = length (hash_ledger s)"
proof -
  have "hl_items (hash_list s q) = take (min (unat (hlq_limit q)) 200)
      (drop (unat (hlq_offset q)) (rev (map snd (hash_ledger s))))"
    using hash.page_newest_first [OF assms, of "hlq_offset q" "hlq_limit q"]
    by (simp add: hash_list_def Let_def)
  then show ?thesis using assms(2) by (simp add: hash_list_def Let_def ledger_of_def unat_of_nat)
qed

theorem hash_list_newest_first_witness:
  "hl_items (hash_list hash_initialize (hash_list_query_of None None)) = []"
  using hash_list_newest_first [OF hash_wf_initialize, of "hash_list_query_of None None"]
  by (simp add: hash_initialize_def ledger_of_def)

end
