(* ===== verification/Batch_Service.thy ===== *)
theory Batch_Service
  imports Anchor_Interface
begin

text \<open>
  The batch service (\<open>exonum-logstore/backend/src/batch_service\<close>): it anchors the Merkle
  root of a batch of log entries with the range of their identifiers and the counts by
  severity. The counts are stored as the submitter sent them.
\<close>

section \<open>Data (transactions.rs, schema.rs)\<close>

datatype batch_error = BatchInvalidHash | BatchDuplicateRecord

fun batch_error_code :: "batch_error \<Rightarrow> byte" where
  "batch_error_code BatchInvalidHash = 0"
| "batch_error_code BatchDuplicateRecord = 1"

record write_batch =
  wb_content_hash :: rstring
  wb_seed :: u64
  wb_start_id :: rstring
  wb_end_id :: rstring
  wb_count :: u32
  wb_debug_count :: u32
  wb_info_count :: u32
  wb_warn_count :: u32
  wb_error_count :: u32
  wb_critical_count :: u32
  wb_max_severity :: rstring

record batch_record =
  br_content_hash :: rstring
  br_history_len :: u64
  br_history_hash :: hash
  br_tx_hash :: rstring
  br_start_id :: rstring
  br_end_id :: rstring
  br_count :: u32
  br_debug_count :: u32
  br_info_count :: u32
  br_warn_count :: u32
  br_error_count :: u32
  br_critical_count :: u32
  br_max_severity :: rstring

record batch_schema =
  batches :: "hash \<Rightarrow> batch_record option"
  batch_submitter_history :: "address \<Rightarrow> hash list"
  batches_ordered :: "hash list"

text \<open>\<open>SchemaImpl::new\<close> on a fresh instance (\<open>Service::initialize\<close>): every index is empty.\<close>

definition batch_initialize :: batch_schema where
  "batch_initialize = \<lparr>batches = (\<lambda>_. None), batch_submitter_history = (\<lambda>_. []), batches_ordered = []\<rparr>"

definition batch_instance_id :: u32 where
  "batch_instance_id = 102"

definition batch_instance_name :: string where
  "batch_instance_name = ''batch-service''"

section \<open>Operations\<close>

definition batch_lookup :: "batch_schema \<Rightarrow> hash \<Rightarrow> batch_record option" where
  "batch_lookup s content_hash = batches s content_hash"

definition store_batch ::
  "crypto_env \<Rightarrow> hash \<Rightarrow> rstring \<Rightarrow> rstring \<Rightarrow> u32 \<Rightarrow> u32 \<Rightarrow> u32 \<Rightarrow> u32 \<Rightarrow> u32 \<Rightarrow> u32 \<Rightarrow> rstring \<Rightarrow>
   address \<Rightarrow> hash \<Rightarrow> batch_schema \<Rightarrow> batch_schema" where
  "store_batch env content_hash start_id end_id count debug_count info_count warn_count
     error_count critical_count max_severity submitter tx s =
     (let history = batch_submitter_history s submitter @ [tx];
          history_hash = list_object_hash env history;
          rec = \<lparr>br_content_hash = hex_encode env content_hash,
                 br_history_len = of_nat (length history),
                 br_history_hash = history_hash,
                 br_tx_hash = hex_encode env tx,
                 br_start_id = start_id,
                 br_end_id = end_id,
                 br_count = count,
                 br_debug_count = debug_count,
                 br_info_count = info_count,
                 br_warn_count = warn_count,
                 br_error_count = error_count,
                 br_critical_count = critical_count,
                 br_max_severity = max_severity\<rparr>
      in s\<lparr>batch_submitter_history := (batch_submitter_history s)(submitter := history),
           batches := (batches s)(content_hash \<mapsto> rec),
           batches_ordered := batches_ordered s @ [content_hash]\<rparr>)"

definition batch_parse_hash :: "crypto_env \<Rightarrow> rstring \<Rightarrow> (hash, batch_error) result" where
  "batch_parse_hash env hex_str =
     (case hex_decode env hex_str of
        None \<Rightarrow> Err BatchInvalidHash
      | Some bs \<Rightarrow> if length bs \<noteq> 32 then Err BatchInvalidHash else Ok bs)"

definition batch_extract_info :: "call_context \<Rightarrow> (address \<times> hash, batch_error exec_error) result" where
  "batch_extract_info ctx =
     (case ctx_transaction_hash ctx of
        None \<Rightarrow> Err UnauthorizedCaller
      | Some tx_hash \<Rightarrow> Ok (ctx_caller ctx, tx_hash))"

definition batch_write ::
  "crypto_env \<Rightarrow> call_context \<Rightarrow> write_batch \<Rightarrow> batch_schema \<Rightarrow>
   (unit, batch_error exec_error) result \<times> batch_schema" where
  "batch_write env ctx arg s =
     (case batch_extract_info ctx of
        Err e \<Rightarrow> (Err e, s)
      | Ok (from_addr, tx_hash) \<Rightarrow>
        (case batch_parse_hash env (wb_content_hash arg) of
           Err e \<Rightarrow> (Err (ServiceError e), s)
         | Ok content_hash \<Rightarrow>
             if batch_lookup s content_hash \<noteq> None
             then (Err (ServiceError BatchDuplicateRecord), s)
             else
               (Ok (), store_batch env content_hash (wb_start_id arg) (wb_end_id arg) (wb_count arg)
                         (wb_debug_count arg) (wb_info_count arg) (wb_warn_count arg)
                         (wb_error_count arg) (wb_critical_count arg) (wb_max_severity arg)
                         from_addr tx_hash s)))"

section \<open>Public API (api.rs)\<close>

record batch_list_query =
  blq_offset :: u64
  blq_limit :: u64

definition batch_default_limit :: u64 where
  "batch_default_limit = 20"

text \<open>Deserialising a query: a missing field takes its serde default.\<close>

definition batch_list_query_of :: "u64 option \<Rightarrow> u64 option \<Rightarrow> batch_list_query" where
  "batch_list_query_of off lim =
     \<lparr>blq_offset = (case off of None \<Rightarrow> 0 | Some x \<Rightarrow> x),
      blq_limit = (case lim of None \<Rightarrow> batch_default_limit | Some x \<Rightarrow> x)\<rparr>"

record batches_list =
  bl_total :: u64
  bl_offset :: u64
  bl_limit :: u64
  bl_items :: "batch_record list"

record ('bp, 'mp, 'rp) batch_info =
  bi_block_proof :: 'bp
  bi_to_table :: 'mp
  bi_to_record :: 'rp
  bi_record :: "batch_record option"

text \<open>
  What the endpoints read of \<open>ServiceApiState\<close>: the node's proof for an index of the
  service (absent before the first block commits the index), MerkleDB's proof of a key in
  the record map, and the service data.
\<close>

record ('bp, 'mp, 'rp) batch_api_state =
  ba_index_proof :: "string \<Rightarrow> ('bp \<times> 'mp) option"
  ba_get_proof :: "(hash \<Rightarrow> batch_record option) \<Rightarrow> hash \<Rightarrow> 'rp"
  ba_data :: batch_schema

definition batch_decode_hash :: "crypto_env \<Rightarrow> rstring \<Rightarrow> (hash, api_error) result" where
  "batch_decode_hash env hex_str =
     (case hex_decode env hex_str of
        None \<Rightarrow> Err (BadRequest ''Invalid hex hash'')
      | Some bs \<Rightarrow> if length bs \<noteq> 32 then Err (BadRequest ''Hash must be 32 bytes'') else Ok bs)"

definition batch_info ::
  "crypto_env \<Rightarrow> ('bp, 'mp, 'rp) batch_api_state \<Rightarrow> rstring \<Rightarrow>
   (('bp, 'mp, 'rp) batch_info, api_error) result exec" where
  "batch_info env st query_hash =
     (case ba_index_proof st ''batches'' of
        None \<Rightarrow> Panic
      | Some (block_proof, index_proof) \<Rightarrow>
        (case batch_decode_hash env query_hash of
           Err e \<Rightarrow> Return (Err e)
         | Ok content_hash \<Rightarrow>
             (let schema = ba_data st
              in Return (Ok \<lparr>bi_block_proof = block_proof,
                             bi_to_table = index_proof,
                             bi_to_record = ba_get_proof st (batches schema) content_hash,
                             bi_record = batch_lookup schema content_hash\<rparr>))))"

definition batch_list :: "batch_schema \<Rightarrow> batch_list_query \<Rightarrow> batches_list" where
  "batch_list schema query =
     (let limit = min (blq_limit query) 200;
          lst = batches_ordered schema;
          total = of_nat (length lst);
          fin = sat_sub total (blq_offset query);
          start = sat_sub fin limit;
          items = List.map_filter (batch_lookup schema)
                    (List.map_filter (nth_opt lst) (rev [unat start..<unat fin]))
      in \<lparr>bl_total = total, bl_offset = blq_offset query, bl_limit = limit, bl_items = items\<rparr>)"

definition batch_endpoints :: "string list" where
  "batch_endpoints = [''v1/batches/info'', ''v1/batches/list'']"

section \<open>The service meets the anchoring contract\<close>

definition batch_new_record ::
  "crypto_env \<Rightarrow> hash \<Rightarrow> write_batch \<Rightarrow> hash list \<Rightarrow> hash \<Rightarrow> batch_record" where
  "batch_new_record env k arg history tx =
     \<lparr>br_content_hash = hex_encode env k, br_history_len = of_nat (length history),
      br_history_hash = list_object_hash env history, br_tx_hash = hex_encode env tx,
      br_start_id = wb_start_id arg, br_end_id = wb_end_id arg, br_count = wb_count arg,
      br_debug_count = wb_debug_count arg, br_info_count = wb_info_count arg,
      br_warn_count = wb_warn_count arg, br_error_count = wb_error_count arg,
      br_critical_count = wb_critical_count arg, br_max_severity = wb_max_severity arg\<rparr>"

lemma batch_lookup_eq: "batch_lookup s = batches s"
  by (simp add: batch_lookup_def fun_eq_iff)

lemmas batch_defs = batch_write_def batch_extract_info_def store_batch_def batch_lookup_eq
  batch_new_record_def

lemma batch_parse_hash_Ok: "batch_parse_hash env s = Ok k \<longleftrightarrow> hex_decode env s = Some k \<and> length k = 32"
  by (auto simp: batch_parse_hash_def split: option.splits)

interpretation batch: anchor_pages
  "batch_write env" "\<lambda>a. batch_parse_hash env (wb_content_hash a)" batch_lookup batches_ordered
  batch_submitter_history "batch_new_record env" BatchDuplicateRecord
  "\<lambda>s off lim. bl_items (batch_list s \<lparr>blq_offset = off, blq_limit = lim\<rparr>)"
  for env
  by unfold_locales
     (auto simp: batch_defs Let_def batch_list_def page_items_def dest: batch_parse_hash_Ok [THEN iffD1])

interpretation batch: anchor_provenance
  "batch_write env" "\<lambda>a. batch_parse_hash env (wb_content_hash a)" batch_lookup batches_ordered
  batch_submitter_history "batch_new_record env" BatchDuplicateRecord env
  br_history_len br_history_hash br_tx_hash br_content_hash
  for env
  by unfold_locales (auto simp: batch_new_record_def)

abbreviation batch_wf :: "batch_schema \<Rightarrow> bool" where
  "batch_wf \<equiv> anchor_wf batch_lookup batches_ordered"

abbreviation batch_ledger :: "batch_schema \<Rightarrow> (hash \<times> batch_record) list" where
  "batch_ledger \<equiv> ledger_of batch_lookup batches_ordered"

lemma batch_wf_initialize: "batch_wf batch_initialize"
  by (simp add: anchor_wf_def batch_initialize_def batch_lookup_eq)

lemma batch_lookup_initialize [simp]: "batch_lookup batch_initialize k = None"
  by (simp add: batch_initialize_def batch_lookup_def)

lemma batch_wf_reachable: "batch_wf (run_writes (batch_write env) txs batch_initialize)"
  by (rule batch.wf_run) (rule batch_wf_initialize)

section \<open>Properties\<close>

definition demo_batch :: write_batch where
  "demo_batch = \<lparr>wb_content_hash = replicate 32 7, wb_seed = 0, wb_start_id = [1],
               wb_end_id = [2], wb_count = 3, wb_debug_count = 0, wb_info_count = 1,
               wb_warn_count = 1, wb_error_count = 1, wb_critical_count = 0, wb_max_severity = [3]\<rparr>"

text \<open>
  In every state that a sequence of batch transactions reaches, the order lists
  each stored key once and nothing else, every key has 32 bytes, the history of every address is the list of its own
  transactions that were accepted, in order, and every record was written by an accepted transaction: it carries the key and the
  hash of that transaction, and the length and object hash of its submitter's history up to and including it.
\<close>

theorem batch_reachable_ledger:
  assumes "s = run_writes (batch_write env) txs batch_initialize" and "batch_lookup s k = Some r"
  shows "batch_wf s \<and> k \<in> set (batches_ordered s) \<and>
    (\<forall>b. batch_submitter_history s b = accepted_by (batch_write env) b txs batch_initialize) \<and>
    vouched env (batch_write env) (\<lambda>a. batch_parse_hash env (wb_content_hash a))
      br_content_hash br_history_len br_history_hash br_tx_hash txs batch_initialize k r"
proof -
  have wf: "batch_wf s" using assms(1) by (simp add: batch_wf_reachable)
  then have "k \<in> set (batches_ordered s)" using assms(2) by (auto simp: anchor_wf_def)
  moreover have empty: "batch_submitter_history batch_initialize b = []" for b by (simp add: batch_initialize_def)
  moreover have "batch_submitter_history s b = accepted_by (batch_write env) b txs batch_initialize" for b
    unfolding assms(1) batch.history_accepted empty by simp
  moreover have "vouched env (batch_write env) (\<lambda>a. batch_parse_hash env (wb_content_hash a))
      br_content_hash br_history_len br_history_hash br_tx_hash txs batch_initialize k r"
    using assms by (intro batch.vouched_run) (simp_all add: empty)
  ultimately show ?thesis using wf by blast
qed

lemma demo_batch_stored:
  "batch_lookup (run_writes (batch_write demo_env) [(demo_ctx, demo_batch)] batch_initialize)
     (map of_nat (replicate 32 7)) =
   Some (batch_new_record demo_env (map of_nat (replicate 32 7)) demo_batch [[1]] [1])"
  by (simp add: batch_defs batch_parse_hash_def demo_env_def demo_ctx_def demo_batch_def
      batch_initialize_def Let_def)

theorem batch_reachable_ledger_witness:
  "batch_submitter_history (run_writes (batch_write demo_env) [(demo_ctx, demo_batch)] batch_initialize) [2] =
     accepted_by (batch_write demo_env) [2] [(demo_ctx, demo_batch)] batch_initialize \<and>
   batch_submitter_history (run_writes (batch_write demo_env) [(demo_ctx, demo_batch)] batch_initialize) [3] =
     accepted_by (batch_write demo_env) [3] [(demo_ctx, demo_batch)] batch_initialize"
  using batch_reachable_ledger [OF refl demo_batch_stored] by blast

text \<open>
  A batch transaction refines the abstract ledger: accepted, it appends exactly
  one entry, the key with the record made of the submitted fields (the counts as submitted, unchecked) and the submitter's extended history; rejected, it leaves the ledger alone.
\<close>

theorem batch_write_refines:
  assumes "batch_wf s"
  shows "batch_ledger (snd (batch_write env ctx arg s)) = batch_ledger s @
    (case batch_write env ctx arg s of
       (Err _, _) \<Rightarrow> []
     | (Ok _, _) \<Rightarrow>
         (let k = the (hex_decode env (wb_content_hash arg));
              tx = the (ctx_transaction_hash ctx);
              history = batch_submitter_history s (ctx_caller ctx) @ [tx]
          in [(k, \<lparr>br_content_hash = hex_encode env k,
                  br_history_len = of_nat (length history),
                  br_history_hash = list_object_hash env history,
                  br_tx_hash = hex_encode env tx,
                  br_start_id = wb_start_id arg, br_end_id = wb_end_id arg,
                  br_count = wb_count arg, br_debug_count = wb_debug_count arg,
                  br_info_count = wb_info_count arg, br_warn_count = wb_warn_count arg,
                  br_error_count = wb_error_count arg,
                  br_critical_count = wb_critical_count arg,
                  br_max_severity = wb_max_severity arg\<rparr>)]))"
proof (rule batch.write_cases [of env ctx arg s])
  fix e assume "batch_write env ctx arg s = (Err e, s)"
  then show ?thesis by simp
next
  fix t k
  assume h: "ctx_transaction_hash ctx = Some t"
    "batch_parse_hash env (wb_content_hash arg) = Ok k" "batch_lookup s k = None"
  have "fst (batch_write env ctx arg s) = Ok ()" using h by (rule batch.write_fresh)
  moreover have "hex_decode env (wb_content_hash arg) = Some k"
    using h(2) by (simp add: batch_parse_hash_Ok)
  ultimately show ?thesis
    using batch.ledger_accepted [OF assms h] h(1)
    by (simp add: batch_new_record_def case_prod_beta Let_def)
qed

theorem batch_write_refines_witness:
  "length (batch_ledger (snd (batch_write demo_env demo_ctx demo_batch batch_initialize))) = 1"
  unfolding batch_write_refines [OF batch_wf_initialize]
  by (simp add: batch_defs batch_parse_hash_def demo_env_def demo_ctx_def demo_batch_def
      batch_initialize_def Let_def ledger_of_def)

text \<open>
  The list endpoint returns the records newest first: at most 200, at most
  \<open>limit\<close>, after skipping the \<open>offset\<close> newest ones, whatever offset and limit are asked for;
  the total it reports is the number of stored records.
\<close>

theorem batch_list_newest_first:
  assumes "batch_wf s" and "length (batches_ordered s) < 2 ^ 64"
  shows "bl_items (batch_list s q) =
      take (min (unat (blq_limit q)) 200)
        (drop (unat (blq_offset q)) (rev (map snd (batch_ledger s)))) \<and>
    unat (bl_total (batch_list s q)) = length (batch_ledger s)"
proof -
  have "bl_items (batch_list s q) = take (min (unat (blq_limit q)) 200)
      (drop (unat (blq_offset q)) (rev (map snd (batch_ledger s))))"
    using batch.page_newest_first [OF assms, of "blq_offset q" "blq_limit q"]
    by (simp add: batch_list_def Let_def)
  then show ?thesis using assms(2) by (simp add: batch_list_def Let_def ledger_of_def unat_of_nat)
qed

theorem batch_list_newest_first_witness:
  "bl_items (batch_list batch_initialize (batch_list_query_of None None)) = []"
  using batch_list_newest_first [OF batch_wf_initialize, of "batch_list_query_of None None"]
  by (simp add: batch_initialize_def ledger_of_def)

end
