(* ===== verification/Utf8.thy ===== *)
theory Utf8
  imports Rust_Prelude
begin

text \<open>
  \<open>String::from_utf8_lossy\<close> of the Rust standard library, which the WebSocket close-frame
  parser calls. A string is here the list of its UTF-8 bytes. Decoding goes from sequence to
  sequence; a byte that starts no sequence, or a sequence that breaks off, is replaced by
  U+FFFD, the broken part being the longest prefix of a sequence that could have been valid.
\<close>

definition utf8_cont :: "byte \<Rightarrow> bool" where
  "utf8_cont b \<longleftrightarrow> 0x80 \<le> b \<and> b \<le> 0xBF"

text \<open>Which second bytes a lead byte of a three- or four-byte sequence admits.\<close>

definition utf8_second :: "byte \<Rightarrow> byte \<Rightarrow> bool" where
  "utf8_second b0 b1 \<longleftrightarrow>
     (if b0 = 0xE0 then 0xA0 \<le> b1 \<and> b1 \<le> 0xBF
      else if b0 = 0xED then 0x80 \<le> b1 \<and> b1 \<le> 0x9F
      else if b0 = 0xF0 then 0x90 \<le> b1 \<and> b1 \<le> 0xBF
      else if b0 = 0xF4 then 0x80 \<le> b1 \<and> b1 \<le> 0x8F
      else utf8_cont b1)"

text \<open>The length of the sequence at the front, and whether it is complete and valid.\<close>

fun utf8_tail :: "nat \<Rightarrow> nat \<Rightarrow> bytes \<Rightarrow> nat \<times> bool" where
  "utf8_tail got 0 bs = (got, True)"
| "utf8_tail got (Suc n) [] = (got, False)"
| "utf8_tail got (Suc n) (b # bs) =
     (if utf8_cont b then utf8_tail (Suc got) n bs else (got, False))"

definition utf8_wide :: "byte \<Rightarrow> nat \<Rightarrow> bytes \<Rightarrow> nat \<times> bool" where
  "utf8_wide b0 n bs =
     (case bs of
        [] \<Rightarrow> (1, False)
      | b1 # bs' \<Rightarrow> if utf8_second b0 b1 then utf8_tail 2 n bs' else (1, False))"

fun utf8_seq :: "bytes \<Rightarrow> nat \<times> bool" where
  "utf8_seq [] = (0, True)"
| "utf8_seq (b0 # bs) =
     (if b0 < 0x80 then (1, True)
      else if 0xC2 \<le> b0 \<and> b0 \<le> 0xDF then utf8_tail 1 1 bs
      else if 0xE0 \<le> b0 \<and> b0 \<le> 0xEF then utf8_wide b0 1 bs
      else if 0xF0 \<le> b0 \<and> b0 \<le> 0xF4 then utf8_wide b0 2 bs
      else (1, False))"

lemma utf8_tail_ge: "got \<le> fst (utf8_tail got n bs)"
  by (induction got n bs rule: utf8_tail.induct) auto

lemma utf8_tail_pos: "0 < got \<Longrightarrow> 0 < fst (utf8_tail got n bs)"
  using utf8_tail_ge [of got n bs] by simp

lemma utf8_wide_pos: "0 < fst (utf8_wide b0 n bs)"
  by (auto simp: utf8_wide_def utf8_tail_pos split: list.split)

lemma utf8_seq_pos: "bs \<noteq> [] \<Longrightarrow> 0 < fst (utf8_seq bs)"
  by (cases bs) (simp_all add: utf8_tail_pos utf8_wide_pos del: utf8_tail.simps)

definition utf8_replacement :: bytes where
  "utf8_replacement = [0xEF, 0xBF, 0xBD]"

function from_utf8_lossy :: "bytes \<Rightarrow> bytes" where
  "from_utf8_lossy bs =
     (if bs = [] then []
      else (if snd (utf8_seq bs) then take (fst (utf8_seq bs)) bs else utf8_replacement)
           @ from_utf8_lossy (drop (fst (utf8_seq bs)) bs))"
  by pat_completeness auto
termination
  by (relation "measure length") (auto intro: diff_less simp: utf8_seq_pos)

declare from_utf8_lossy.simps [simp del]

function valid_utf8 :: "bytes \<Rightarrow> bool" where
  "valid_utf8 bs =
     (if bs = [] then True
      else if snd (utf8_seq bs) then valid_utf8 (drop (fst (utf8_seq bs)) bs) else False)"
  by pat_completeness auto
termination
  by (relation "measure length") (auto intro: diff_less simp: utf8_seq_pos)

declare valid_utf8.simps [simp del]

lemma from_utf8_lossy_Nil [simp]: "from_utf8_lossy [] = []"
  by (simp add: from_utf8_lossy.simps)

lemma valid_utf8_Nil [simp]: "valid_utf8 []"
  by (simp add: valid_utf8.simps)

text \<open>Valid UTF-8 is unchanged.\<close>

lemma from_utf8_lossy_valid: "valid_utf8 bs \<Longrightarrow> from_utf8_lossy bs = bs"
proof (induction bs rule: from_utf8_lossy.induct)
  case (1 bs)
  then show ?case
    by (cases "bs = []") (auto simp: from_utf8_lossy.simps [of bs] valid_utf8.simps [of bs])
qed

text \<open>The result is always valid UTF-8.\<close>

lemma utf8_tail_append:
  "utf8_tail got n bs = (k, True) \<Longrightarrow> utf8_tail got n (take (k - got) bs @ ys) = (k, True)"
proof (induction got n bs arbitrary: k rule: utf8_tail.induct)
  case (3 got n b bs)
  then have "utf8_cont b" and t: "utf8_tail (Suc got) n bs = (k, True)" by (auto split: if_splits)
  moreover have "Suc got \<le> k" using utf8_tail_ge [of "Suc got" n bs] t by simp
  ultimately show ?case using "3.IH" by (auto simp: Suc_diff_le [symmetric] take_Cons')
qed auto

lemma utf8_wide_append:
  "utf8_wide b0 n bs = (k, True) \<Longrightarrow> utf8_wide b0 n (take (k - 1) bs @ ys) = (k, True)"
proof (cases bs)
  case (Cons b1 bs')
  assume "utf8_wide b0 n bs = (k, True)"
  with Cons have "utf8_second b0 b1" and t: "utf8_tail 2 n bs' = (k, True)"
    by (auto simp: utf8_wide_def split: if_splits)
  moreover have "2 \<le> k" using utf8_tail_ge [of 2 n bs'] t by simp
  moreover have "utf8_tail 2 n (take (k - 2) bs' @ ys) = (k, True)"
    using t by (rule utf8_tail_append)
  ultimately show ?thesis using Cons by (simp add: utf8_wide_def take_Cons' numeral_2_eq_2)
qed (simp add: utf8_wide_def)

lemma utf8_seq_append:
  assumes "bs \<noteq> []" and "utf8_seq bs = (k, True)"
  shows "utf8_seq (take k bs @ ys) = (k, True)"
proof -
  obtain b0 bs' where bs: "bs = b0 # bs'" using assms(1) by (cases bs) auto
  have k: "0 < k" using utf8_seq_pos [of bs] assms by simp
  then have "take k bs @ ys = b0 # take (k - 1) bs' @ ys" by (simp add: bs take_Cons')
  then show ?thesis
    using assms(2) utf8_tail_append [of 1 1 bs' k ys] utf8_wide_append [of b0 _ bs' k ys]
    by (auto simp: bs split: if_splits)
qed

lemma utf8_tail_le: "utf8_tail got n bs = (k, True) \<Longrightarrow> k \<le> got + length bs"
  by (induction got n bs arbitrary: k rule: utf8_tail.induct) (auto split: if_splits)

lemma utf8_seq_le: "utf8_seq bs = (k, True) \<Longrightarrow> k \<le> length bs"
  using utf8_tail_le [of 1 1 "tl bs" k] utf8_tail_le [of 2 _ "tl (tl bs)" k]
  by (cases bs) (auto simp: utf8_wide_def split: if_splits list.splits)

lemma utf8_seq_replacement: "utf8_seq (utf8_replacement @ ys) = (3, True)"
  by (simp add: utf8_replacement_def utf8_wide_def utf8_second_def utf8_cont_def)

lemma valid_from_utf8_lossy: "valid_utf8 (from_utf8_lossy bs)"
proof (induction bs rule: from_utf8_lossy.induct)
  case (1 bs)
  show ?case
  proof (cases "bs = []")
    case False
    let ?rest = "from_utf8_lossy (drop (fst (utf8_seq bs)) bs)"
    from "1.IH" [OF False] have rest: "valid_utf8 ?rest" .
    obtain k ok where seq: "utf8_seq bs = (k, ok)" by (cases "utf8_seq bs")
    show ?thesis
    proof (cases ok)
      case True
      have len: "length (take k bs) = k" using utf8_seq_le [of bs k] seq True by simp
      have "utf8_seq (take k bs @ ?rest) = (k, True)"
        using False seq True by (intro utf8_seq_append) auto
      with rest show ?thesis
        using False seq True len
        by (subst from_utf8_lossy.simps) (simp add: valid_utf8.simps [of "take k bs @ _"])
    next
      case f: False
      have "length utf8_replacement = 3" by (simp add: utf8_replacement_def)
      with rest utf8_seq_replacement [of ?rest] show ?thesis
        using False seq f
        by (subst from_utf8_lossy.simps)
           (simp add: valid_utf8.simps [of "utf8_replacement @ _"])
    qed
  qed simp
qed

end
