(* ===== verification/Ws_Proto.thy ===== *)
theory Ws_Proto
  imports Utf8
begin

text \<open>
  WebSocket protocol constants (\<open>ws/proto.rs\<close> of the patched actix-http): operation codes,
  close codes with their conversions to and from integers, close reasons, and the accept key
  of the handshake. SHA-1 and Base64 come from other crates and are arguments.
  The constructors carry a prefix, since the source's names clash across its enums.
\<close>

section \<open>Operation codes\<close>

datatype op_code = OpContinue | OpText | OpBinary | OpClose | OpPing | OpPong | OpBad

fun op_display :: "op_code \<Rightarrow> string" where
  "op_display OpContinue = ''CONTINUE''"
| "op_display OpText = ''TEXT''"
| "op_display OpBinary = ''BINARY''"
| "op_display OpClose = ''CLOSE''"
| "op_display OpPing = ''PING''"
| "op_display OpPong = ''PONG''"
| "op_display OpBad = ''BAD''"

fun op_into_u8 :: "op_code \<Rightarrow> byte" where
  "op_into_u8 OpContinue = 0"
| "op_into_u8 OpText = 1"
| "op_into_u8 OpBinary = 2"
| "op_into_u8 OpClose = 8"
| "op_into_u8 OpPing = 9"
| "op_into_u8 OpPong = 10"
| "op_into_u8 OpBad = 8"

definition op_from_u8 :: "byte \<Rightarrow> op_code" where
  "op_from_u8 b =
     (if b = 0 then OpContinue
      else if b = 1 then OpText
      else if b = 2 then OpBinary
      else if b = 8 then OpClose
      else if b = 9 then OpPing
      else if b = 10 then OpPong
      else OpBad)"

lemma op_from_into [simp]: "op \<noteq> OpBad \<Longrightarrow> op_from_u8 (op_into_u8 op) = op"
  by (cases op) (auto simp: op_from_u8_def)

lemma op_into_from [simp]: "op_from_u8 b \<noteq> OpBad \<Longrightarrow> op_into_u8 (op_from_u8 b) = b"
  by (auto simp: op_from_u8_def split: if_splits)

lemma op_into_bound: "op_into_u8 op \<le> 10"
  by (cases op) auto

section \<open>Close codes\<close>

datatype close_code =
    CloseNormal | CloseAway | CloseProtocol | CloseUnsupported | CloseAbnormal | CloseInvalid
  | ClosePolicy | CloseSize | CloseExtension | CloseError | CloseRestart | CloseAgain | CloseTls
  | CloseOther u16

fun close_into_u16 :: "close_code \<Rightarrow> u16" where
  "close_into_u16 CloseNormal = 1000"
| "close_into_u16 CloseAway = 1001"
| "close_into_u16 CloseProtocol = 1002"
| "close_into_u16 CloseUnsupported = 1003"
| "close_into_u16 CloseAbnormal = 1006"
| "close_into_u16 CloseInvalid = 1007"
| "close_into_u16 ClosePolicy = 1008"
| "close_into_u16 CloseSize = 1009"
| "close_into_u16 CloseExtension = 1010"
| "close_into_u16 CloseError = 1011"
| "close_into_u16 CloseRestart = 1012"
| "close_into_u16 CloseAgain = 1013"
| "close_into_u16 CloseTls = 1015"
| "close_into_u16 (CloseOther code) = code"

definition close_from_u16 :: "u16 \<Rightarrow> close_code" where
  "close_from_u16 code =
     (if code = 1000 then CloseNormal
      else if code = 1001 then CloseAway
      else if code = 1002 then CloseProtocol
      else if code = 1003 then CloseUnsupported
      else if code = 1006 then CloseAbnormal
      else if code = 1007 then CloseInvalid
      else if code = 1008 then ClosePolicy
      else if code = 1009 then CloseSize
      else if code = 1010 then CloseExtension
      else if code = 1011 then CloseError
      else if code = 1012 then CloseRestart
      else if code = 1013 then CloseAgain
      else if code = 1015 then CloseTls
      else CloseOther code)"

lemma close_into_from [simp]: "close_into_u16 (close_from_u16 code) = code"
  by (simp add: close_from_u16_def)

text \<open>A close code is canonical when it is not \<open>Other\<close> of a number that has a name.\<close>

definition close_canonical :: "close_code \<Rightarrow> bool" where
  "close_canonical c \<longleftrightarrow>
     (case c of CloseOther code \<Rightarrow>
        code \<notin> {1000, 1001, 1002, 1003, 1006, 1007, 1008, 1009, 1010, 1011, 1012, 1013, 1015}
      | _ \<Rightarrow> True)"

lemma close_from_into: "close_from_u16 (close_into_u16 c) = c \<longleftrightarrow> close_canonical c"
  by (cases c) (auto simp: close_from_u16_def close_canonical_def)

section \<open>Close reasons\<close>

record close_reason =
  cr_code :: close_code
  cr_description :: "bytes option"

definition close_reason_from_code :: "close_code \<Rightarrow> close_reason" where
  "close_reason_from_code code = \<lparr>cr_code = code, cr_description = None\<rparr>"

definition close_reason_from_pair :: "close_code \<times> bytes \<Rightarrow> close_reason" where
  "close_reason_from_pair info = \<lparr>cr_code = fst info, cr_description = Some (snd info)\<rparr>"

section \<open>The accept key\<close>

definition ws_guid :: bytes where
  "ws_guid = bstr ''258EAFA5-E914-47DA-95CA-C5AB0DC85B11''"

definition hash_key :: "(bytes \<Rightarrow> bytes) \<Rightarrow> (bytes \<Rightarrow> bytes) \<Rightarrow> bytes \<Rightarrow> bytes" where
  "hash_key sha1 base64 key = base64 (sha1 (key @ ws_guid))"

section \<open>Properties\<close>

text \<open>
  The integer codes round-trip: every 16-bit close code is read into a value
  that is written back as the same code, a close code survives being written and read exactly
  when it is not \<open>Other\<close> of a number that has a name, and an operation code survives exactly
  when it is not \<open>Bad\<close>, which is sent as a close.
\<close>

theorem ws_codes_roundtrip:
  "close_into_u16 (close_from_u16 code) = code \<and>
   (close_from_u16 (close_into_u16 c) = c \<longleftrightarrow> close_canonical c) \<and>
   (op_from_u8 (op_into_u8 op) = op \<longleftrightarrow> op \<noteq> OpBad)"
  by (cases op) (auto simp: close_from_into, auto simp: op_from_u8_def)

end
