(* ===== verification/Ws_Mask.thy ===== *)
theory Ws_Mask
  imports Rust_Prelude
begin

text \<open>
  WebSocket masking (\<open>ws/mask.rs\<close>): the XOR of a buffer with a repeated 4-byte mask, done on
  aligned 8-byte words with short unaligned ends. The address of the buffer decides where
  the aligned part starts, and the byte order of the machine decides how a word is laid out
  in memory, so both are arguments. The main result is that on a little-endian machine the
  word-wise routine is the byte-wise one at every address.
\<close>

section \<open>The code\<close>

text \<open>A 64-bit word in memory, and back.\<close>

definition mem_bytes :: "bool \<Rightarrow> u64 \<Rightarrow> bytes" where
  "mem_bytes big w = (if big then be_bytes 8 w else le_bytes 8 w)"

definition mem_word :: "bool \<Rightarrow> bytes \<Rightarrow> u64" where
  "mem_word big bs = (if big then from_be 0 bs else from_le bs)"

text \<open>\<open>cast_slice\<close>: the aligned middle part read as 64-bit words.\<close>

fun cast_slice :: "bool \<Rightarrow> bytes \<Rightarrow> u64 list" where
  "cast_slice big bs =
     (if length bs < 8 then [] else mem_word big (take 8 bs) # cast_slice big (drop 8 bs))"

declare cast_slice.simps [simp del]

definition align_buf :: "bool \<Rightarrow> nat \<Rightarrow> bytes \<Rightarrow> bytes \<times> u64 list \<times> bytes" where
  "align_buf big start_ptr buf =
     (let end_ptr = start_ptr + length buf;
          start_aligned = (start_ptr + 7) - (start_ptr + 7) mod 8;
          end_aligned = end_ptr - end_ptr mod 8
      in if start_aligned \<le> end_aligned
         then (let tmp = take (end_aligned - start_ptr) buf;
                   tail = drop (end_aligned - start_ptr) buf;
                   head = take (start_aligned - start_ptr) tmp;
                   mid = drop (start_aligned - start_ptr) tmp
               in (head, cast_slice big mid, tail))
         else (buf, [], []))"

text \<open>\<open>xor_short\<close>: the short slice is copied into a zeroed word, XORed, and copied back.\<close>

definition xor_short :: "bool \<Rightarrow> bytes \<Rightarrow> u64 \<Rightarrow> bytes" where
  "xor_short big buf msk =
     (let b = mem_word big (buf @ replicate (8 - length buf) 0)
      in take (length buf) (mem_bytes big (b XOR msk)))"

definition apply_mask :: "bool \<Rightarrow> nat \<Rightarrow> u32 \<Rightarrow> bytes \<Rightarrow> bytes" where
  "apply_mask big start_ptr mask_u32 buf =
     (let mask_u64 = push_bit 32 (ucast mask_u32) OR ucast mask_u32;
          (head, mid, tail) = align_buf big start_ptr buf;
          head_len = length head;
          head' = (if head_len > 0 then xor_short big head mask_u64 else head);
          mask_u64 = (if head_len > 0
                      then (if big then word_rotl (8 * head_len) mask_u64
                            else word_rotr (8 * head_len) mask_u64)
                      else mask_u64);
          mid' = map (\<lambda>v. v XOR mask_u64) mid;
          tail' = (if length tail > 0 then xor_short big tail mask_u64 else tail)
      in head' @ concat (map (mem_bytes big) mid') @ tail')"

text \<open>The byte-wise routine: \<open>apply_mask_fallback\<close> of the source's tests.\<close>

definition apply_mask_fallback :: "bytes \<Rightarrow> bytes \<Rightarrow> bytes" where
  "apply_mask_fallback buf msk = map (\<lambda>(i, b). b XOR msk ! (i mod 4)) (enumerate 0 buf)"

section \<open>Bytes of a word\<close>

lemma nth_le_bytes: "i < n \<Longrightarrow> le_bytes n w ! i = ucast (drop_bit (8 * i) w)"
proof (induction n arbitrary: w i)
  case (Suc n)
  then show ?case by (cases i) (auto simp: drop_bit_drop_bit add.commute)
qed simp

lemma bit_nth_le_bytes:
  "i < n \<Longrightarrow> bit (le_bytes n (w :: 'a::len word) ! i) j \<longleftrightarrow> j < 8 \<and> bit w (8 * i + j)"
  by (simp add: nth_le_bytes bit_simps)

lemma bit_from_le:
  "length bs * 8 \<le> LENGTH('a) \<Longrightarrow>
   bit (from_le bs :: 'a::len word) n \<longleftrightarrow> n < length bs * 8 \<and> bit (bs ! (n div 8)) (n mod 8)"
proof (induction bs arbitrary: n)
  case (Cons b bs)
  have bound: "\<not> bit b m" if "8 \<le> m" for m
    using that by (auto dest: bit_imp_le_length)
  show ?case
  proof (cases "n < 8")
    case True
    with Cons.prems show ?thesis by (auto simp: bit_simps)
  next
    case False
    then obtain m where m: "n = m + 8" by (metis add.commute le_add_diff_inverse not_less)
    then have "n div 8 = Suc (m div 8)" "n mod 8 = m mod 8" by auto
    with Cons.prems m show ?thesis
      by (auto simp: bit_simps Cons.IH bound)
  qed
qed simp

lemma le_bytes_from_le: "length bs = 8 \<Longrightarrow> le_bytes 8 (from_le bs :: u64) = bs"
proof (rule nth_equalityI)
  fix i assume len: "length bs = 8" and i: "i < length (le_bytes 8 (from_le bs :: u64))"
  have "bit (le_bytes 8 (from_le bs :: u64) ! i) j = bit (bs ! i) j" for j
    using len i bit_imp_le_length [of "bs ! i" j]
    by (auto simp: bit_nth_le_bytes bit_from_le)
  then show "le_bytes 8 (from_le bs :: u64) ! i = bs ! i" by (auto intro: bit_eqI)
qed simp

lemma le_bytes_xor: "le_bytes n (v XOR w) = map2 (XOR) (le_bytes n v) (le_bytes n w)"
  by (induction n arbitrary: v w) (auto simp: unsigned_xor_eq)

lemma word_rotr_zero [simp]: "word_rotr 0 (w :: 'a::len word) = w"
  by (rule bit_word_eqI) (simp add: bit_word_rotr_iff)

section \<open>Equivalence with the byte-wise routine\<close>

text \<open>The reference with a phase: the byte \<open>i\<close> of the buffer meets the mask byte \<open>k + i\<close>.\<close>

definition xor_phase :: "u32 \<Rightarrow> nat \<Rightarrow> bytes \<Rightarrow> bytes" where
  "xor_phase msk k buf = map (\<lambda>i. buf ! i XOR le_bytes 4 msk ! ((k + i) mod 4)) [0..<length buf]"

lemma length_xor_phase [simp]: "length (xor_phase msk k buf) = length buf"
  by (simp add: xor_phase_def)

lemma nth_xor_phase [simp]:
  "i < length buf \<Longrightarrow> xor_phase msk k buf ! i = buf ! i XOR le_bytes 4 msk ! ((k + i) mod 4)"
  by (simp add: xor_phase_def)

lemma xor_phase_append:
  "xor_phase msk k (a @ b) = xor_phase msk k a @ xor_phase msk (k + length a) b"
  by (rule nth_equalityI) (auto simp: nth_append add.assoc)

lemma xor_phase_mod: "xor_phase msk (k + 8 * n) buf = xor_phase msk k buf"
proof -
  have "k + 8 * n + i = (k + i) + 4 * (2 * n)" for i by simp
  then have "(k + 8 * n + i) mod 4 = (k + i) mod 4" for i by (metis mod_mult_self2)
  then show ?thesis by (simp add: xor_phase_def)
qed

lemma xor_phase_Nil [simp]: "xor_phase msk k [] = []"
  by (simp add: xor_phase_def)

lemma apply_mask_fallback_eq: "apply_mask_fallback buf (le_bytes 4 msk) = xor_phase msk 0 buf"
  by (rule nth_equalityI) (auto simp: apply_mask_fallback_def nth_enumerate_eq)

text \<open>The 64-bit mask rotated by \<open>k\<close> bytes.\<close>

definition mask64 :: "u32 \<Rightarrow> nat \<Rightarrow> u64" where
  "mask64 msk k = word_rotr (8 * k) (push_bit 32 (ucast msk) OR ucast msk)"

lemma bit_mask64:
  "bit (mask64 msk k) n \<longleftrightarrow> n < 64 \<and> bit msk ((8 * k + n) mod 32)"
proof -
  have *: "(8 * k + n) mod 64 mod 32 = (8 * k + n) mod 32" for n by (simp add: mod_mod_cancel)
  have "bit (push_bit 32 (ucast msk) OR ucast msk :: u64) m \<longleftrightarrow> bit msk (m mod 32)"
    if "m < 64" for m
  proof (cases "m < 32")
    case True
    then show ?thesis by (simp add: bit_simps)
  next
    case False
    then have "m mod 32 = m - 32" using that by (simp add: mod_if)
    with False that bit_imp_le_length [of msk m] show ?thesis by (auto simp: bit_simps)
  qed
  then show ?thesis
    by (simp add: mask64_def bit_word_rotr_iff * add.commute [of n])
qed

lemma nth_mask64:
  assumes "i < 8"
  shows "le_bytes 8 (mask64 msk k) ! i = le_bytes 4 msk ! ((k + i) mod 4)"
proof (rule bit_eqI)
  fix j
  have "(8 * k + (8 * i + j)) mod 32 = 8 * ((k + i) mod 4) + j" if j: "j < 8"
  proof -
    have "8 * k + (8 * i + j) = (8 * ((k + i) mod 4) + j) + 32 * ((k + i) div 4)"
      using mult_div_mod_eq [of 4 "k + i"] by linarith
    moreover have "8 * ((k + i) mod 4) + j < 32" using j mod_less_divisor [of 4 "k + i"] by linarith
    ultimately show ?thesis by (metis mod_less mod_mult_self2)
  qed
  with assms show "bit (le_bytes 8 (mask64 msk k) ! i) j = bit (le_bytes 4 msk ! ((k + i) mod 4)) j"
    by (auto simp: bit_nth_le_bytes bit_mask64)
qed

lemma xor_word:
  assumes "length bs = 8"
  shows "le_bytes 8 (from_le bs XOR mask64 msk k) = xor_phase msk k bs"
proof (rule nth_equalityI)
  fix i assume i: "i < length (le_bytes 8 (from_le bs XOR mask64 msk k))"
  with assms show "le_bytes 8 (from_le bs XOR mask64 msk k) ! i = xor_phase msk k bs ! i"
    by (simp add: le_bytes_xor le_bytes_from_le nth_mask64)
qed (simp add: assms)

lemma xor_short_eq:
  assumes "length buf \<le> 8"
  shows "xor_short False buf (mask64 msk k) = xor_phase msk k buf"
proof -
  let ?z = "replicate (8 - length buf) (0 :: byte)"
  have "le_bytes 8 (from_le (buf @ ?z) XOR mask64 msk k) = xor_phase msk k (buf @ ?z)"
    using assms by (intro xor_word) simp
  then show ?thesis
    by (simp add: xor_short_def mem_word_def mem_bytes_def xor_phase_append)
qed

lemma cast_slice_eq:
  "8 dvd length bs \<Longrightarrow>
   concat (map (\<lambda>v. mem_bytes False (v XOR mask64 msk k)) (cast_slice False bs)) =
     xor_phase msk k bs"
proof (induction bs rule: length_induct)
  case (1 bs)
  show ?case
  proof (cases "length bs < 8")
    case True
    with "1.prems" have "bs = []" by (auto dest: dvd_imp_le)
    then show ?thesis by (simp add: cast_slice.simps)
  next
    case False
    then have len: "length (take 8 bs) = 8" and smaller: "length (drop 8 bs) < length bs" by auto
    have "8 dvd length (drop 8 bs)" using "1.prems" False by (simp add: dvd_diff_nat)
    with "1.IH" smaller have IH: "concat (map (\<lambda>v. mem_bytes False (v XOR mask64 msk k))
        (cast_slice False (drop 8 bs))) = xor_phase msk k (drop 8 bs)" by blast
    have "xor_phase msk k bs = xor_phase msk k (take 8 bs @ drop 8 bs)" by simp
    also have "\<dots> = xor_phase msk k (take 8 bs) @ xor_phase msk k (drop 8 bs)"
      using xor_phase_mod [of msk k 1 "drop 8 bs"] len by (simp only: xor_phase_append) simp
    finally show ?thesis
      using False IH len
      by (simp add: cast_slice.simps [of False bs] mem_bytes_def mem_word_def xor_word)
  qed
qed

lemma round_down8:
  fixes x :: nat
  shows "x - x mod 8 \<le> x" "x < (x - x mod 8) + 8" "8 dvd x - x mod 8"
proof -
  have "x mod 8 < 8" "x mod 8 \<le> x" by simp_all
  then show "x - x mod 8 \<le> x" "x < (x - x mod 8) + 8" by linarith+
  show "8 dvd x - x mod 8" by (rule dvd_minus_mod)
qed

lemma align_buf_split:
  obtains h m t where "align_buf big p buf = (h, cast_slice big m, t)" "buf = h @ m @ t"
    "length h < 8" "length t < 8" "8 dvd length m"
proof -
  let ?e = "p + length buf"
  define sa ea where "sa = (p + 7) - (p + 7) mod 8" and "ea = ?e - ?e mod 8"
  have sa: "p \<le> sa" "sa < p + 8" "8 dvd sa"
    using round_down8 [of "p + 7"] unfolding sa_def by linarith+
  have ea: "ea \<le> ?e" "?e < ea + 8" "8 dvd ea" using round_down8 [of ?e] unfolding ea_def by linarith+
  show thesis
  proof (cases "sa \<le> ea")
    case True
    let ?tmp = "take (ea - p) buf"
    show thesis
    proof (rule that)
      show "align_buf big p buf =
          (take (sa - p) ?tmp, cast_slice big (drop (sa - p) ?tmp), drop (ea - p) buf)"
        using True by (simp add: align_buf_def Let_def sa_def [symmetric] ea_def [symmetric])
      show "buf = take (sa - p) ?tmp @ drop (sa - p) ?tmp @ drop (ea - p) buf"
        by (metis append_assoc append_take_drop_id)
      show "length (take (sa - p) ?tmp) < 8" using sa by simp
      show "length (drop (ea - p) buf) < 8" using sa ea True by simp
      have "length (drop (sa - p) ?tmp) = ea - sa" using sa ea True by simp
      then show "8 dvd length (drop (sa - p) ?tmp)" using sa ea by (simp add: dvd_diff_nat)
    qed
  next
    case False
    show thesis
    proof (rule that)
      show "align_buf big p buf = (buf, cast_slice big [], [])"
        using False
        by (simp add: align_buf_def Let_def sa_def [symmetric] ea_def [symmetric] cast_slice.simps)
      show "length buf < 8"
      proof (rule ccontr)
        assume "\<not> length buf < 8"
        with sa ea False have "ea < sa" "sa < ea + 8" by linarith+
        moreover from sa ea obtain i j where "sa = 8 * i" "ea = 8 * j" by (auto elim!: dvdE)
        ultimately show False by presburger
      qed
    qed simp_all
  qed
qed

lemma apply_mask_phase: "apply_mask False p msk buf = xor_phase msk 0 buf"
proof -
  obtain h m t where al: "align_buf False p buf = (h, cast_slice False m, t)"
    and buf: "buf = h @ m @ t" and len: "length h < 8" "length t < 8" "8 dvd length m"
    by (rule align_buf_split)
  let ?m0 = "push_bit 32 (ucast msk) OR ucast msk :: u64"
  have m0: "?m0 = mask64 msk 0" by (simp add: mask64_def)
  have mk: "(if length h > 0 then word_rotr (8 * length h) ?m0 else ?m0) = mask64 msk (length h)"
    by (simp add: mask64_def)
  have head: "(if length h > 0 then xor_short False h ?m0 else h) = xor_phase msk 0 h"
    using len(1) by (simp add: m0 xor_short_eq)
  have mid: "concat (map (mem_bytes False) (map (\<lambda>v. v XOR mask64 msk (length h)) (cast_slice False m)))
      = xor_phase msk (length h) m"
    using cast_slice_eq [OF len(3), of msk "length h"] by (simp add: comp_def)
  have tail: "(if length t > 0 then xor_short False t (mask64 msk (length h)) else t) =
      xor_phase msk (length h) t"
    using len(2) by (simp add: xor_short_eq)
  obtain n where n: "length m = 8 * n" using len(3) by (auto elim: dvdE)
  have "xor_phase msk 0 buf =
      xor_phase msk 0 h @ xor_phase msk (length h) m @ xor_phase msk (length h) t"
    using xor_phase_mod [of msk "length h" n t] by (simp add: buf xor_phase_append n)
  also have "\<dots> = apply_mask False p msk buf"
    unfolding apply_mask_def al Let_def prod.case if_False
    unfolding mk head mid tail ..
  finally show ?thesis by simp
qed

text \<open>Masking is an involution that keeps the length.\<close>

lemma length_apply_mask [simp]: "length (apply_mask False p msk buf) = length buf"
  by (simp add: apply_mask_phase)

lemma apply_mask_Nil_iff [simp]: "apply_mask False p msk buf = [] \<longleftrightarrow> buf = []"
  using length_apply_mask [of p msk buf] by (metis length_0_conv)

lemma xor_phase_twice [simp]: "xor_phase msk k (xor_phase msk k buf) = buf"
  by (rule nth_equalityI) (auto simp: xor.assoc)

lemma apply_mask_twice [simp]: "apply_mask False p msk (apply_mask False q msk buf) = buf"
  by (simp add: apply_mask_phase)

section \<open>Properties\<close>

text \<open>
  Property C23. On a little-endian machine the word-wise masking routine computes the
  byte-wise one for every buffer at every address: each byte is XORed with the byte of the
  mask at its index modulo 4.
\<close>

theorem apply_mask_is_bytewise:
  "apply_mask False start_ptr msk buf = apply_mask_fallback buf (le_bytes 4 msk)"
  by (simp add: apply_mask_phase apply_mask_fallback_eq)

text \<open>
  On a big-endian machine it does not, although the routine has a branch for
  such machines: the mask, read from the wire as a little-endian number, is laid out in
  memory most significant byte first, and a buffer of one byte meets the wrong mask byte.
\<close>

theorem apply_mask_big_endian_differs:
  "apply_mask True 0 1 [0] \<noteq> apply_mask_fallback [0] (le_bytes 4 1)"
  by code_simp

end
