(* ===== verification/Ws_Frame.thy ===== *)
theory Ws_Frame
  imports Ws_Proto Ws_Mask
begin

text \<open>
  The WebSocket frame parser and writer (\<open>ws/frame.rs\<close>, with the errors of \<open>ws/mod.rs\<close>).
  The parser takes the receive buffer and returns its result with the buffer it leaves; the
  writer appends to the send buffer. Addresses of buffers are arguments because unmasking
  works on aligned words; the masking key that \<open>rand::random\<close> draws is an argument. The
  target is little-endian. Lengths are \<open>nat\<close>: the sum \<open>idx + length\<close> of the source stays
  within \<open>usize\<close> for every \<open>max_size\<close> below \<open>2 ^ 64 - 14\<close>.
\<close>

datatype protocol_error =
    UnmaskedFrame
  | MaskedFrame
  | InvalidOpcode byte
  | InvalidLength nat
  | BadOpCode
  | Overflow
  | ContinuationNotStarted
  | ContinuationStarted
  | ContinuationFragment op_code
  | WsIo string

section \<open>Parsing\<close>

text \<open>
  The payload length: 7 bits, or 16 or 64 bits that follow, with the index after it.
  \<open>Ok None\<close> asks for more data.
\<close>

definition parse_length :: "bytes \<Rightarrow> byte \<Rightarrow> nat \<Rightarrow> ((nat \<times> nat) option, protocol_error) result" where
  "parse_length src len max_size =
     (let chunk_len = length src; idx = 2
      in if len = 126 then
           (if chunk_len < 4 then Ok None
            else Ok (Some (idx + 2, unat (from_be 0 (take 2 (drop idx src)) :: u16))))
         else if len = 127 then
           (if chunk_len < 10 then Ok None
            else let len = (from_be 0 (take 8 (drop idx src)) :: u64)
                 in if unat len > max_size then Err Overflow
                    else Ok (Some (idx + 8, unat len)))
         else Ok (Some (idx, unat len)))"

definition parse_metadata ::
  "bytes \<Rightarrow> bool \<Rightarrow> nat \<Rightarrow>
   ((nat \<times> bool \<times> op_code \<times> nat \<times> u32 option) option, protocol_error) result" where
  "parse_metadata src server max_size =
     (let chunk_len = length src
      in if chunk_len < 2 then Ok None
         else
           (let first = src ! 0; second = src ! 1;
                finished = (first AND 0x80 \<noteq> 0);
                masked = (second AND 0x80 \<noteq> 0)
            in if \<not> masked \<and> server then Err UnmaskedFrame
               else if masked \<and> \<not> server then Err MaskedFrame
               else
                 (let opcode = op_from_u8 (first AND 0x0F)
                  in if opcode = OpBad then Err (InvalidOpcode (first AND 0x0F))
                     else
                       (case parse_length src (second AND 0x7F) max_size of
                          Err e \<Rightarrow> Err e
                        | Ok None \<Rightarrow> Ok None
                        | Ok (Some (idx, len)) \<Rightarrow>
                            if len > max_size then Err Overflow
                            else if server then
                              (if chunk_len < idx + 4 then Ok None
                               else Ok (Some (idx + 4, finished, opcode, len,
                                              Some (from_le (take 4 (drop idx src))))))
                            else Ok (Some (idx, finished, opcode, len, None))))))"

definition ws_parse ::
  "nat \<Rightarrow> bytes \<Rightarrow> bool \<Rightarrow> nat \<Rightarrow>
   ((bool \<times> op_code \<times> bytes option) option, protocol_error) result \<times> bytes" where
  "ws_parse addr src server max_size =
     (case parse_metadata src server max_size of
        Err e \<Rightarrow> (Err e, src)
      | Ok None \<Rightarrow> (Ok None, src)
      | Ok (Some (idx, finished, opcode, len, msk)) \<Rightarrow>
          if length src < idx + len then (Ok None, src)
          else
            (let src = drop idx src
             in if len = 0 then (Ok (Some (finished, opcode, None)), src)
                else
                  (let data = take len src; src = drop len src
                   in if (opcode = OpPing \<or> opcode = OpPong) \<and> len > 125
                      then (Err (InvalidLength len), src)
                      else if opcode = OpClose \<and> len > 125
                      then (Ok (Some (True, OpClose, None)), src)
                      else
                        (let data = (case msk of
                                       Some m \<Rightarrow> apply_mask False (addr + idx) m data
                                     | None \<Rightarrow> data)
                         in (Ok (Some (finished, opcode, Some data)), src)))))"

definition parse_close_payload :: "bytes \<Rightarrow> close_reason option" where
  "parse_close_payload payload =
     (if length payload \<ge> 2
      then (let raw_code = (from_be 0 (take 2 payload) :: u16);
                code = close_from_u16 raw_code;
                description = (if length payload > 2
                               then Some (from_utf8_lossy (drop 2 payload)) else None)
            in Some \<lparr>cr_code = code, cr_description = description\<rparr>)
      else None)"

section \<open>Writing\<close>

definition write_message :: "nat \<Rightarrow> u32 \<Rightarrow> bytes \<Rightarrow> bytes \<Rightarrow> op_code \<Rightarrow> bool \<Rightarrow> bool \<Rightarrow> bytes" where
  "write_message addr rnd dst payload op fin masked =
     (let one = (if fin then 0x80 OR op_into_u8 op else op_into_u8 op);
          payload_len = length payload;
          two = (if masked then 0x80 else 0 :: byte);
          dst = dst @
            (if payload_len < 126 then [one, two OR of_nat payload_len]
             else if payload_len \<le> 65535
             then [one, two OR 126] @ be_bytes 2 (of_nat payload_len :: u16)
             else [one, two OR 127] @ be_bytes 8 (of_nat payload_len :: u64))
      in if masked
         then (let dst = dst @ le_bytes 4 rnd @ payload;
                   pos = length dst - payload_len
               in take pos dst @ apply_mask False (addr + pos) rnd (drop pos dst))
         else dst @ payload)"

definition write_close :: "nat \<Rightarrow> u32 \<Rightarrow> bytes \<Rightarrow> close_reason option \<Rightarrow> bool \<Rightarrow> bytes" where
  "write_close addr rnd dst reason masked =
     (let payload =
        (case reason of
           None \<Rightarrow> []
         | Some reason \<Rightarrow>
             (let payload = be_bytes 2 (close_into_u16 (cr_code reason))
              in case cr_description reason of
                   Some description \<Rightarrow> payload @ description
                 | None \<Rightarrow> payload))
      in write_message addr rnd dst payload OpClose True masked)"

section \<open>Byte-level facts\<close>

lemma from_be_snoc: "from_be acc (bs @ [b]) = push_bit 8 (from_be acc bs) OR ucast b"
  by (induction bs arbitrary: acc) auto

lemma from_be_rev: "from_be 0 (rev bs) = from_le bs"
  by (induction bs) (auto simp: from_be_snoc or.commute)

lemma be_bytes_rev: "be_bytes n w = rev (le_bytes n w)"
  by (induction n arbitrary: w) auto

lemma from_le_le_bytes: "n * 8 = LENGTH('a) \<Longrightarrow> from_le (le_bytes n w) = (w :: 'a::len word)"
proof (rule bit_word_eqI)
  fix j assume n: "n * 8 = LENGTH('a)" and "j < LENGTH('a)"
  then have "j div 8 < n" by (simp add: less_mult_imp_div_less)
  with n show "bit (from_le (le_bytes n w) :: 'a word) j = bit w j"
    using \<open>j < LENGTH('a)\<close> by (simp add: bit_from_le bit_nth_le_bytes)
qed

lemma from_be_be_bytes: "n * 8 = LENGTH('a) \<Longrightarrow> from_be 0 (be_bytes n w) = (w :: 'a::len word)"
  by (simp add: be_bytes_rev from_be_rev from_le_le_bytes)

lemma top_bit: "(x :: byte) AND 0x80 \<noteq> 0 \<longleftrightarrow> bit x 7"
  using and_exp_eq_0_iff_not_bit [of x 7] by simp

lemma low7: "(x :: byte) AND 0x7F = take_bit 7 x"
  by (simp add: take_bit_eq_mask mask_eq_exp_minus_1)

lemma bit7_small: "n < 128 \<Longrightarrow> \<not> bit (of_nat n :: byte) 7"
proof -
  assume "n < 128"
  then have "\<not> bit n 7" by (simp add: bit_iff_odd)
  then show ?thesis by (simp add: bit_of_nat_iff)
qed

lemma low7_second:
  "n < 128 \<Longrightarrow> two = 0 \<or> two = 0x80 \<Longrightarrow> (two OR of_nat n) AND 0x7F = (of_nat n :: byte)"
  by (auto simp: low7 take_bit_or take_bit_of_nat take_bit_nat_eq_self)

lemma first_byte:
  "(if fin then 0x80 OR op_into_u8 op else op_into_u8 op) AND 0x80 \<noteq> 0 \<longleftrightarrow> fin"
  "(if fin then 0x80 OR op_into_u8 op else op_into_u8 op) AND 0x0F = op_into_u8 op"
  by (cases op; simp)+

section \<open>A written frame parses back\<close>

text \<open>The header that \<open>write_message\<close> puts before the payload.\<close>

definition frame_header :: "u32 \<Rightarrow> nat \<Rightarrow> op_code \<Rightarrow> bool \<Rightarrow> bool \<Rightarrow> bytes" where
  "frame_header rnd n op fin masked =
     (let one = (if fin then 0x80 OR op_into_u8 op else op_into_u8 op);
          two = (if masked then 0x80 else 0 :: byte)
      in (if n < 126 then [one, two OR of_nat n]
          else if n \<le> 65535 then [one, two OR 126] @ be_bytes 2 (of_nat n :: u16)
          else [one, two OR 127] @ be_bytes 8 (of_nat n :: u64))
         @ (if masked then le_bytes 4 rnd else []))"

lemma write_message_frame:
  "write_message addr rnd dst payload op fin masked =
     dst @ frame_header rnd (length payload) op fin masked @
       (if masked then xor_phase rnd 0 payload else payload)"
  by (simp add: write_message_def frame_header_def Let_def apply_mask_phase)

text \<open>Bytes of the header before the masking key.\<close>

definition len_size :: "nat \<Rightarrow> nat" where
  "len_size n = (if n < 126 then 2 else if n \<le> 65535 then 4 else 10)"

lemma length_frame_header:
  "length (frame_header rnd n op fin masked) = len_size n + (if masked then 4 else 0)"
  by (simp add: frame_header_def len_size_def Let_def)

lemma frame_header_nth:
  "frame_header rnd n op fin masked ! 0 = (if fin then 0x80 OR op_into_u8 op else op_into_u8 op)"
  "frame_header rnd n op fin masked ! 1 =
     (if masked then 0x80 else 0) OR (if n < 126 then of_nat n else if n \<le> 65535 then 126 else 127)"
  by (simp_all add: frame_header_def Let_def)

lemma length_field:
  "126 \<le> n \<Longrightarrow> n \<le> 65535 \<Longrightarrow>
     take 2 (drop 2 (frame_header rnd n op fin masked @ rest)) = be_bytes 2 (of_nat n :: u16)"
  "65535 < n \<Longrightarrow>
     take 8 (drop 2 (frame_header rnd n op fin masked @ rest)) = be_bytes 8 (of_nat n :: u64)"
  by (simp_all add: frame_header_def Let_def del: be_bytes.simps)

lemma parse_length_header:
  assumes n: "n \<le> max_size" "n < 2 ^ 64"
  shows "parse_length (take k (frame_header rnd n op fin masked @ rest))
           (if n < 126 then of_nat n else if n \<le> 65535 then 126 else 127) max_size =
     (if length (take k (frame_header rnd n op fin masked @ rest)) < len_size n \<and> 126 \<le> n
      then Ok None else Ok (Some (len_size n, n)))"
proof -
  let ?src = "take k (frame_header rnd n op fin masked @ rest)"
  consider "n < 126" | "126 \<le> n" "n \<le> 65535" | "65535 < n" by linarith
  then show ?thesis
  proof cases
    case 1
    then have "(of_nat n :: byte) \<noteq> 126" "(of_nat n :: byte) \<noteq> 127" "unat (of_nat n :: byte) = n"
      by (auto simp: unat_of_nat word_unat_eq_iff)
    with 1 show ?thesis by (simp add: parse_length_def len_size_def)
  next
    case 2
    then have "unat (of_nat n :: u16) = n" by (simp add: unat_of_nat)
    moreover have "take 2 (drop 2 ?src) = be_bytes 2 (of_nat n :: u16)" if "4 \<le> length ?src"
      using that 2 by (subst take_drop_within) (simp_all only: length_field)
    moreover have "len_size n = 4" using 2 by (simp add: len_size_def)
    ultimately show ?thesis
      using 2 by (simp add: parse_length_def Let_def from_be_be_bytes del: length_take length_append)
  next
    case 3
    then have "unat (of_nat n :: u64) = n" using n by (simp add: unat_of_nat)
    moreover have "take 8 (drop 2 ?src) = be_bytes 8 (of_nat n :: u64)" if "10 \<le> length ?src"
      using that 3 by (subst take_drop_within) (simp_all only: length_field)
    moreover have "len_size n = 10" using 3 by (simp add: len_size_def)
    ultimately show ?thesis
      using 3 n by (simp add: parse_length_def Let_def from_be_be_bytes del: length_take length_append)
  qed
qed

lemma key_field:
  "take 4 (drop (len_size n) (frame_header rnd n op fin True @ rest)) = le_bytes 4 rnd"
proof -
  obtain pre where "frame_header rnd n op fin True = pre @ le_bytes 4 rnd" "length pre = len_size n"
    by (auto simp: frame_header_def len_size_def Let_def simp del: le_bytes.simps be_bytes.simps)
  then show ?thesis by (simp del: le_bytes.simps)
qed

lemma parse_metadata_accepted:
  assumes "\<not> length src < 2" and "(src ! 0 AND 0x80 \<noteq> 0) = fin"
    and "op_from_u8 (src ! 0 AND 0x0F) = op" and "op \<noteq> OpBad"
    and "(src ! 1 AND 0x80 \<noteq> 0) = masked"
  shows "parse_metadata src masked max_size =
     (case parse_length src (src ! 1 AND 0x7F) max_size of
        Err e \<Rightarrow> Err e
      | Ok None \<Rightarrow> Ok None
      | Ok (Some (idx, len)) \<Rightarrow>
          if len > max_size then Err Overflow
          else if masked then
            (if length src < idx + 4 then Ok None
             else Ok (Some (idx + 4, fin, op, len, Some (from_le (take 4 (drop idx src))))))
          else Ok (Some (idx, fin, op, len, None)))"
  using assms unfolding parse_metadata_def Let_def by (simp only: if_False simp_thms)

text \<open>
  The metadata of any cut of a written frame: the frame's own metadata once the header is
  complete, a request for more data before.
\<close>

lemma parse_metadata_header:
  assumes n: "n \<le> max_size" "n < 2 ^ 64" and op: "op \<noteq> OpBad"
  shows "parse_metadata (take k (frame_header rnd n op fin masked @ rest)) masked max_size =
     (if length (take k (frame_header rnd n op fin masked @ rest)) < len_size n + (if masked then 4 else 0)
      then Ok None
      else Ok (Some (len_size n + (if masked then 4 else 0), fin, op, n,
                     if masked then Some rnd else None)))"
proof (cases "length (take k (frame_header rnd n op fin masked @ rest)) < 2")
  case True
  moreover have "2 \<le> len_size n" by (simp add: len_size_def)
  ultimately show ?thesis by (simp add: parse_metadata_def Let_def)
next
  case False
  let ?hdr = "frame_header rnd n op fin masked"
  let ?src = "take k (?hdr @ rest)"
  let ?l = "if n < 126 then of_nat n else if n \<le> 65535 then 126 else 127 :: byte"
  have hlen: "2 \<le> length ?hdr" by (simp add: length_frame_header len_size_def)
  have src0: "?src ! 0 = (if fin then 0x80 OR op_into_u8 op else op_into_u8 op)"
    and src1: "?src ! 1 = (if masked then 0x80 else 0) OR ?l"
    using False hlen frame_header_nth [of rnd n op fin masked] by (auto simp: nth_append)
  have "\<not> bit ?l 7" by (auto simp: bit7_small)
  then have m: "?src ! 1 AND 0x80 \<noteq> 0 \<longleftrightarrow> masked"
    unfolding src1 top_bit by (simp add: bit_or_iff)
  have l: "?src ! 1 AND 0x7F = ?l"
    unfolding src1 using low7_second [of n] by auto
  have key: "take 4 (drop (len_size n) ?src) = le_bytes 4 rnd"
    if "masked" "len_size n + 4 \<le> length ?src"
  proof -
    have "take 4 (drop (len_size n) ?src) = take 4 (drop (len_size n) (?hdr @ rest))"
      using that(2) by (intro take_drop_within) simp
    also have "\<dots> = le_bytes 4 rnd" by (simp only: that(1) key_field)
    finally show ?thesis .
  qed
  have pl: "parse_length ?src ?l max_size =
      (if length ?src < len_size n \<and> 126 \<le> n then Ok None else Ok (Some (len_size n, n)))"
    using n by (rule parse_length_header)
  have key4: "from_le (le_bytes 4 rnd) = rnd" by (rule from_le_le_bytes) simp
  have size: "len_size n = 2 \<or> 126 \<le> n" by (simp add: len_size_def)
  have op': "op_from_u8 (?src ! 0 AND 0x0F) = op" using op unfolding src0 by (simp only: first_byte) simp
  have fin: "(?src ! 0 AND 0x80 \<noteq> 0) = fin" unfolding src0 by (simp only: first_byte)
  define src where "src = ?src"
  show ?thesis
    unfolding parse_metadata_accepted [OF False fin op' op m] l pl
    using n size key4 False key unfolding src_def [symmetric]
    by (cases masked) auto
qed

section \<open>Whole frames\<close>

lemma length_write_message:
  "length (write_message addr rnd [] payload op fin masked) =
     len_size (length payload) + (if masked then 4 else 0) + length payload"
  by (simp add: write_message_frame length_frame_header)

lemma ws_parse_cut:
  assumes frame_def: "frame = write_message a rnd [] payload op fin masked"
    and n: "length payload \<le> max_size" "length payload < 2 ^ 64" and op: "op \<noteq> OpBad"
    and k: "k < length frame"
  shows "ws_parse addr (take k frame) masked max_size = (Ok None, take k frame)"
proof -
  let ?hdr = "frame_header rnd (length payload) op fin masked"
  let ?body = "if masked then xor_phase rnd 0 payload else payload"
  have frame: "frame = ?hdr @ ?body" by (simp add: frame_def write_message_frame)
  have len: "length frame = len_size (length payload) + (if masked then 4 else 0) + length payload"
    by (simp add: frame_def length_write_message)
  show ?thesis
    using k len unfolding ws_parse_def frame parse_metadata_header [OF n op]
    by (auto simp: frame [symmetric])
qed

lemma ws_parse_whole:
  assumes n: "length payload \<le> max_size" "length payload < 2 ^ 64" and op: "op \<noteq> OpBad"
    and control: "op \<in> {OpClose, OpPing, OpPong} \<Longrightarrow> length payload \<le> 125"
  shows "ws_parse addr (write_message a rnd [] payload op fin masked @ rest) masked max_size =
     (Ok (Some (fin, op, if payload = [] then None else Some payload)), rest)"
proof -
  let ?hdr = "frame_header rnd (length payload) op fin masked"
  let ?body = "if masked then xor_phase rnd 0 payload else payload"
  let ?idx = "len_size (length payload) + (if masked then 4 else 0)"
  let ?src = "?hdr @ ?body @ rest"
  have hlen: "length ?hdr = ?idx" by (rule length_frame_header)
  have meta: "parse_metadata ?src masked max_size =
      Ok (Some (?idx, fin, op, length payload, if masked then Some rnd else None))"
    using parse_metadata_header [OF n op, of "length ?src" rnd fin masked "?body @ rest"] hlen by simp
  have "drop ?idx ?src = ?body @ rest" using hlen by simp
  then have parts: "take (length payload) (drop ?idx ?src) = ?body"
    "drop (length payload) (drop ?idx ?src) = rest" by auto
  have "length ?src = ?idx + length payload + length rest" using hlen by simp
  then have enough: "\<not> length ?src < ?idx + length payload" by linarith
  have "op = OpClose \<Longrightarrow> \<not> 125 < length payload" "op = OpPing \<or> op = OpPong \<Longrightarrow> \<not> 125 < length payload"
    using control by auto
  then have "ws_parse addr ?src masked max_size =
     (Ok (Some (fin, op, if payload = [] then None else Some payload)), rest)"
    unfolding ws_parse_def meta result.case option.case prod.case Let_def
    by (simp only: enough if_False parts) (auto simp: apply_mask_phase length_frame_header)
  then show ?thesis by (simp add: write_message_frame)
qed

section \<open>What the parser accepts\<close>

lemma ws_parse_addr: "ws_parse addr src server max_size = ws_parse 0 src server max_size"
  by (auto simp: ws_parse_def Let_def apply_mask_phase split: result.split option.split)

lemma ws_parse_None: "ws_parse addr src server max_size = (Ok None, src') \<Longrightarrow> src' = src"
  by (auto simp: ws_parse_def Let_def split: result.splits option.splits if_splits)

lemma ws_parse_suffix: "ws_parse addr src server max_size = (r, src') \<Longrightarrow> suffix src' src"
  by (auto simp: ws_parse_def Let_def suffix_drop drop_drop
      split: result.splits option.splits if_splits)

lemma parse_length_bound:
  "parse_length src len max_size = Ok (Some (idx, n)) \<Longrightarrow> idx \<le> 10 \<and> 2 \<le> idx"
  by (auto simp: parse_length_def Let_def split: if_splits)

lemma parse_metadata_bound:
  "parse_metadata src server max_size = Ok (Some (idx, fin, op, n, msk)) \<Longrightarrow>
     n \<le> max_size \<and> op \<noteq> OpBad \<and> idx \<le> 14 \<and> 2 \<le> idx \<and> (msk \<noteq> None) = server"
  by (auto simp: parse_metadata_def Let_def dest: parse_length_bound
      split: if_splits result.splits option.splits)

lemma ws_parse_frame_bound:
  assumes "ws_parse addr src server max_size = (Ok (Some (fin, op, payload)), src')"
  shows "op \<noteq> OpBad \<and> (\<forall>pl. payload = Some pl \<longrightarrow> pl \<noteq> [] \<and> length pl \<le> max_size \<and>
     (op \<in> {OpClose, OpPing, OpPong} \<longrightarrow> length pl \<le> 125)) \<and> length src' + 2 \<le> length src"
proof -
  obtain idx f o' n msk where m: "parse_metadata src server max_size = Ok (Some (idx, f, o', n, msk))"
    using assms by (auto simp: ws_parse_def split: result.splits option.splits)
  from parse_metadata_bound [OF m] have "n \<le> max_size" "o' \<noteq> OpBad" "2 \<le> idx" by auto
  with assms show ?thesis
    unfolding ws_parse_def m by (auto simp: Let_def split: if_splits option.splits)
qed

section \<open>Properties\<close>

text \<open>
  Property C24. A frame that one peer writes is parsed by the other: for every payload within
  the receiver's limit (125 bytes for a control frame), every operation code, every masking
  key and whatever bytes follow, the parser returns the final flag, the operation code and
  the payload, and leaves exactly what follows. The client masks, the server unmasks.
\<close>

theorem ws_frame_roundtrip:
  assumes "length payload \<le> max_size" and "length payload < 2 ^ 64" and "op \<noteq> OpBad"
    and "op \<in> {OpClose, OpPing, OpPong} \<Longrightarrow> length payload \<le> 125"
  shows "ws_parse addr (write_message a rnd [] payload op fin masked @ rest) masked max_size =
     (Ok (Some (fin, op, if payload = [] then None else Some payload)), rest)"
  using assms by (rule ws_parse_whole)

theorem ws_frame_roundtrip_witness:
  "ws_parse 3 (write_message 5 0x1234 [] [104, 105] OpText True True @ [9]) True 1024 =
     (Ok (Some (True, OpText, Some [104, 105])), [9])"
  using ws_frame_roundtrip [of "[104, 105]" 1024 OpText 3 5 "0x1234" True True "[9]"] by simp

text \<open>
  The parser waits for the whole frame: on any proper prefix of a written frame
  it asks for more data and leaves the buffer as it was.
\<close>

theorem ws_frame_incomplete:
  assumes "length payload \<le> max_size" and "length payload < 2 ^ 64" and "op \<noteq> OpBad"
    and "k < length (write_message a rnd [] payload op fin masked)"
  shows "ws_parse addr (take k (write_message a rnd [] payload op fin masked)) masked max_size =
     (Ok None, take k (write_message a rnd [] payload op fin masked))"
  by (rule ws_parse_cut [OF refl assms])

theorem ws_frame_incomplete_witness:
  "ws_parse 0 (take 1 (write_message 0 0 [] [7] OpBinary True False)) False 16 =
     (Ok None, take 1 (write_message 0 0 [] [7] OpBinary True False))"
  by (rule ws_frame_incomplete) (simp_all add: length_write_message len_size_def)

text \<open>
  What the parser lets through: never a reserved operation code, never an empty
  payload in place of none, never a payload beyond the limit, never a control payload beyond
  125 bytes; and each frame consumes at least its two header bytes.
\<close>

theorem ws_parse_accepts:
  assumes "ws_parse addr src server max_size = (Ok (Some (fin, op, payload)), src')"
  shows "op \<noteq> OpBad \<and> (\<forall>pl. payload = Some pl \<longrightarrow> pl \<noteq> [] \<and> length pl \<le> max_size \<and>
     (op \<in> {OpClose, OpPing, OpPong} \<longrightarrow> length pl \<le> 125)) \<and>
     suffix src' src \<and> length src' + 2 \<le> length src"
  using ws_parse_frame_bound [OF assms] ws_parse_suffix [OF assms] by simp

theorem ws_parse_accepts_witness:
  "ws_parse 0 (write_message 0 0 [] [104] OpPing True False @ []) False 1024 =
     (Ok (Some (True, OpPing, Some [104])), []) \<and> length [104 :: byte] \<le> 125 \<and>
   suffix [] (write_message 0 0 [] [104] OpPing True False)"
proof -
  have p: "ws_parse 0 (write_message 0 0 [] [104] OpPing True False @ []) False 1024 =
      (Ok (Some (True, OpPing, Some [104])), [])"
    by (subst ws_parse_whole) auto
  from ws_parse_accepts [OF p] p show ?thesis by auto
qed

end
