(* ===== verification/Codec_Interface.thy ===== *)
theory Codec_Interface
  imports Rust_Prelude
begin

text \<open>
  The contract of a streaming decoder (\<open>actix_codec::Decoder\<close> as the repository uses it).
  \<open>decode\<close> works on a receive buffer: it returns an item, an error, or a request for more
  data, together with its own new state and the buffer it leaves. The transport appends
  what arrives and calls it again. Two laws make that sound: a decoder only removes bytes
  from the front of its buffer, and a decoder that asked for more data continues, when the
  data is there, exactly as if it had been there from the start.
\<close>

text \<open>
  The transport's loop: call \<open>decode\<close>, and while it asks for more append the next piece of
  input. The result is the decoder's, with the pieces that were not needed.
\<close>

fun await ::
  "('st \<Rightarrow> bytes \<Rightarrow> ('item option, 'err) result \<times> 'st \<times> bytes) \<Rightarrow> 'st \<Rightarrow> bytes \<Rightarrow> bytes list \<Rightarrow>
   (('item option, 'err) result \<times> 'st \<times> bytes) \<times> bytes list" where
  "await dec st buf [] = (dec st buf, [])"
| "await dec st buf (p # ps) =
     (if fst (dec st buf) = Ok None
      then await dec (fst (snd (dec st buf))) (snd (snd (dec st buf)) @ p) ps
      else (dec st buf, p # ps))"

locale stream_decoder =
  fixes decode :: "'st \<Rightarrow> bytes \<Rightarrow> ('item option, 'err) result \<times> 'st \<times> bytes"
  assumes consumes: "decode st src = (r, st', src') \<Longrightarrow> suffix src' src"
    and resume: "decode st src = (Ok None, st', src') \<Longrightarrow>
      decode st' (src' @ more) = decode st (src @ more)"
begin

text \<open>
  How the input is cut into pieces does not matter: the loop returns what one call on the
  pieces it used, joined, returns.
\<close>

lemma await_eq:
  "\<exists>k \<le> length ps. await decode st buf ps = (decode st (buf @ concat (take k ps)), drop k ps)"
proof (induction ps arbitrary: st buf)
  case Nil
  then show ?case by simp
next
  case (Cons p ps)
  obtain r st' buf' where d: "decode st buf = (r, st', buf')" by (cases "decode st buf")
  show ?case
  proof (cases "r = Ok None")
    case True
    from Cons.IH [of st' "buf' @ p"] obtain k where k: "k \<le> length ps"
      "await decode st' (buf' @ p) ps = (decode st' (buf' @ p @ concat (take k ps)), drop k ps)"
      by auto
    have "decode st' (buf' @ p @ concat (take k ps)) = decode st (buf @ p @ concat (take k ps))"
      using d True by (intro resume) simp
    with k d True show ?thesis by (intro exI [of _ "Suc k"]) simp
  next
    case False
    with d show ?thesis by (intro exI [of _ 0]) simp
  qed
qed

lemma await_split:
  assumes "fst (decode st whole) \<noteq> Ok None" and "buf @ concat ps = whole"
    and "\<forall>k < length ps. fst (decode st (buf @ concat (take k ps))) = Ok None"
  shows "await decode st buf ps = (decode st whole, [])"
proof -
  obtain k where k: "k \<le> length ps"
    and eq: "await decode st buf ps = (decode st (buf @ concat (take k ps)), drop k ps)"
    using await_eq by blast
  have "\<not> (fst (fst (await decode st buf ps)) = Ok None \<and> snd (await decode st buf ps) \<noteq> [])"
    for st buf
    by (induction ps arbitrary: st buf) auto
  then have "k = length ps" using k assms(3) eq by (metis drop_eq_Nil fst_conv le_neq_implies_less not_le snd_conv)
  with eq assms(2) show ?thesis by simp
qed

text \<open>The decoder never invents bytes: what it leaves is a suffix of all that arrived.\<close>

lemma await_consumes:
  "await decode st buf ps = ((r, st', buf'), rest) \<Longrightarrow> suffix (buf' @ concat rest) (buf @ concat ps)"
proof -
  assume a: "await decode st buf ps = ((r, st', buf'), rest)"
  obtain k where "await decode st buf ps = (decode st (buf @ concat (take k ps)), drop k ps)"
    using await_eq by blast
  with a have d: "decode st (buf @ concat (take k ps)) = (r, st', buf')" and "rest = drop k ps"
    by auto
  from consumes [OF d] have "suffix (buf' @ concat (drop k ps)) ((buf @ concat (take k ps)) @ concat (drop k ps))"
    by (auto simp: suffix_def)
  then show ?thesis using \<open>rest = drop k ps\<close>
    by (metis append_assoc append_take_drop_id concat_append)
qed

end

end
