(* ===== verification/Ws_Codec.thy ===== *)
theory Ws_Codec
  imports Ws_Frame Codec_Interface
begin

text \<open>
  The WebSocket codec (\<open>ws/codec.rs\<close>): messages to frames and back, with the two flags that
  track a fragmented message on the receiving and on the sending side. The bitflags of
  \<open>Codec\<close> are three booleans. An encoder call takes the address of the send buffer and the
  masking key it draws.
\<close>

section \<open>Data\<close>

datatype ws_item = FirstText bytes | FirstBinary bytes | Continue bytes | Last bytes

datatype ws_message =
    MsgText bytes
  | MsgBinary bytes
  | MsgContinuation ws_item
  | MsgPing bytes
  | MsgPong bytes
  | MsgClose "close_reason option"
  | MsgNop

datatype ws_frame =
    FrText bytes
  | FrBinary bytes
  | FrContinuation ws_item
  | FrPing bytes
  | FrPong bytes
  | FrClose "close_reason option"

record ws_codec =
  wc_server :: bool
  wc_continuation :: bool
  wc_w_continuation :: bool
  wc_max_size :: nat

definition ws_codec_new :: ws_codec where
  "ws_codec_new = \<lparr>wc_server = True, wc_continuation = False, wc_w_continuation = False,
                   wc_max_size = 65536\<rparr>"

definition ws_set_max_size :: "nat \<Rightarrow> ws_codec \<Rightarrow> ws_codec" where
  "ws_set_max_size sz c = c\<lparr>wc_max_size := sz\<rparr>"

definition ws_client_mode :: "ws_codec \<Rightarrow> ws_codec" where
  "ws_client_mode c = c\<lparr>wc_server := False\<rparr>"

section \<open>Encoding\<close>

definition ws_encode ::
  "nat \<Rightarrow> u32 \<Rightarrow> ws_codec \<Rightarrow> ws_message \<Rightarrow> bytes \<Rightarrow> (unit, protocol_error) result \<times> ws_codec \<times> bytes" where
  "ws_encode addr rnd c msg dst =
     (let masked = \<not> wc_server c;
          put = (\<lambda>data op fin. write_message addr rnd dst data op fin masked)
      in case msg of
           MsgText txt \<Rightarrow> (Ok (), c, put txt OpText True)
         | MsgBinary bin \<Rightarrow> (Ok (), c, put bin OpBinary True)
         | MsgPing txt \<Rightarrow> (Ok (), c, put txt OpPing True)
         | MsgPong txt \<Rightarrow> (Ok (), c, put txt OpPong True)
         | MsgClose reason \<Rightarrow> (Ok (), c, write_close addr rnd dst reason masked)
         | MsgContinuation cont \<Rightarrow>
             (case cont of
                FirstText data \<Rightarrow>
                  if wc_w_continuation c then (Err ContinuationStarted, c, dst)
                  else (Ok (), c\<lparr>wc_w_continuation := True\<rparr>, put data OpBinary False)
              | FirstBinary data \<Rightarrow>
                  if wc_w_continuation c then (Err ContinuationStarted, c, dst)
                  else (Ok (), c\<lparr>wc_w_continuation := True\<rparr>, put data OpText False)
              | Continue data \<Rightarrow>
                  if wc_w_continuation c then (Ok (), c, put data OpContinue False)
                  else (Err ContinuationNotStarted, c, dst)
              | Last data \<Rightarrow>
                  if wc_w_continuation c
                  then (Ok (), c\<lparr>wc_w_continuation := False\<rparr>, put data OpContinue True)
                  else (Err ContinuationNotStarted, c, dst))
         | MsgNop \<Rightarrow> (Ok (), c, dst))"

section \<open>Decoding\<close>

definition or_empty :: "bytes option \<Rightarrow> bytes" where
  "or_empty payload = (case payload of None \<Rightarrow> [] | Some pl \<Rightarrow> pl)"

text \<open>The frames of a fragmented message that are not its last.\<close>

definition ws_unfinished ::
  "ws_codec \<Rightarrow> op_code \<Rightarrow> bytes option \<Rightarrow> (ws_frame option, protocol_error) result \<times> ws_codec" where
  "ws_unfinished c opcode payload =
     (case opcode of
        OpContinue \<Rightarrow>
          if wc_continuation c then (Ok (Some (FrContinuation (Continue (or_empty payload)))), c)
          else (Err ContinuationNotStarted, c)
      | OpBinary \<Rightarrow>
          if \<not> wc_continuation c
          then (Ok (Some (FrContinuation (FirstBinary (or_empty payload)))), c\<lparr>wc_continuation := True\<rparr>)
          else (Err ContinuationStarted, c)
      | OpText \<Rightarrow>
          if \<not> wc_continuation c
          then (Ok (Some (FrContinuation (FirstText (or_empty payload)))), c\<lparr>wc_continuation := True\<rparr>)
          else (Err ContinuationStarted, c)
      | _ \<Rightarrow> (Err (ContinuationFragment opcode), c))"

definition ws_finished ::
  "ws_codec \<Rightarrow> op_code \<Rightarrow> bytes option \<Rightarrow> (ws_frame option, protocol_error) result \<times> ws_codec" where
  "ws_finished c opcode payload =
     (case opcode of
        OpContinue \<Rightarrow>
          if wc_continuation c
          then (Ok (Some (FrContinuation (Last (or_empty payload)))), c\<lparr>wc_continuation := False\<rparr>)
          else (Err ContinuationNotStarted, c)
      | OpBad \<Rightarrow> (Err BadOpCode, c)
      | OpClose \<Rightarrow>
          (case payload of
             Some pl \<Rightarrow> (Ok (Some (FrClose (parse_close_payload pl))), c)
           | None \<Rightarrow> (Ok (Some (FrClose None)), c))
      | OpPing \<Rightarrow> (Ok (Some (FrPing (or_empty payload))), c)
      | OpPong \<Rightarrow> (Ok (Some (FrPong (or_empty payload))), c)
      | OpBinary \<Rightarrow> (Ok (Some (FrBinary (or_empty payload))), c)
      | OpText \<Rightarrow> (Ok (Some (FrText (or_empty payload))), c))"

definition ws_decode ::
  "nat \<Rightarrow> ws_codec \<Rightarrow> bytes \<Rightarrow> (ws_frame option, protocol_error) result \<times> ws_codec \<times> bytes" where
  "ws_decode addr c src =
     (case ws_parse addr src (wc_server c) (wc_max_size c) of
        (Ok (Some (finished, opcode, payload)), src') \<Rightarrow>
          (let (r, c') = (if \<not> finished then ws_unfinished c opcode payload
                          else ws_finished c opcode payload)
           in (r, c', src'))
      | (Ok None, src') \<Rightarrow> (Ok None, c, src')
      | (Err e, src') \<Rightarrow> (Err e, c, src'))"

section \<open>The codec is a streaming decoder\<close>

lemma ws_unfinished_some: "fst (ws_unfinished c op pl) \<noteq> Ok None"
  by (cases op) (auto simp: ws_unfinished_def)

lemma ws_finished_some: "fst (ws_finished c op pl) \<noteq> Ok None"
  by (cases op) (auto simp: ws_finished_def split: option.splits)

lemma ws_decode_None: "ws_decode addr c src = (Ok None, c', src') \<Longrightarrow> c' = c \<and> src' = src"
proof -
  assume d: "ws_decode addr c src = (Ok None, c', src')"
  obtain r s where p: "ws_parse addr src (wc_server c) (wc_max_size c) = (r, s)"
    by (cases "ws_parse addr src (wc_server c) (wc_max_size c)")
  show ?thesis
  proof (cases "r = Ok None")
    case True
    with p d show ?thesis by (auto simp: ws_decode_def dest: ws_parse_None)
  next
    case False
    with p d ws_unfinished_some [of c] ws_finished_some [of c] show ?thesis
      by (auto simp: ws_decode_def Let_def case_prod_beta split: result.splits option.splits if_splits)
  qed
qed

lemma ws_decode_src:
  "snd (snd (ws_decode addr c src)) = snd (ws_parse addr src (wc_server c) (wc_max_size c))"
  by (auto simp: ws_decode_def split: prod.split result.split option.split)

lemma ws_decode_suffix: "ws_decode addr c src = (r, c', src') \<Longrightarrow> suffix src' src"
  by (metis prod.collapse snd_conv ws_decode_src ws_parse_suffix)

interpretation ws: stream_decoder "ws_decode addr" for addr
  by unfold_locales (auto dest: ws_decode_None ws_decode_suffix)

section \<open>Fragmentation\<close>

text \<open>
  The protocol's fragmentation discipline as a transition relation: the boolean says that a
  fragmented message is open. A frame that is whole in itself changes nothing.
\<close>

inductive frame_step :: "bool \<Rightarrow> ws_frame \<Rightarrow> bool \<Rightarrow> bool" where
  first_text: "frame_step False (FrContinuation (FirstText d)) True"
| first_binary: "frame_step False (FrContinuation (FirstBinary d)) True"
| continue: "frame_step True (FrContinuation (Continue d)) True"
| last: "frame_step True (FrContinuation (Last d)) False"
| text_frame: "frame_step b (FrText d) b"
| binary_frame: "frame_step b (FrBinary d) b"
| ping_frame: "frame_step b (FrPing d) b"
| pong_frame: "frame_step b (FrPong d) b"
| close_frame: "frame_step b (FrClose r) b"

inductive_cases frame_step_contE: "frame_step b (FrContinuation i) b'"

inductive frames_run :: "bool \<Rightarrow> ws_frame list \<Rightarrow> bool \<Rightarrow> bool" where
  run_nil: "frames_run b [] b"
| run_step: "frame_step b f b' \<Longrightarrow> frames_run b' fs b'' \<Longrightarrow> frames_run b (f # fs) b''"

inductive_simps frames_run_simps [simp]: "frames_run b [] b'" "frames_run b (f # fs) b'"

lemma ws_unfinished_step:
  "ws_unfinished c op pl = (Ok (Some f), c') \<Longrightarrow> frame_step (wc_continuation c) f (wc_continuation c')"
  by (cases op) (auto simp: ws_unfinished_def intro: frame_step.intros split: if_splits)

lemma ws_finished_step:
  "ws_finished c op pl = (Ok (Some f), c') \<Longrightarrow> frame_step (wc_continuation c) f (wc_continuation c')"
  by (cases op) (auto simp: ws_finished_def intro: frame_step.intros split: if_splits option.splits)

lemma ws_decode_step:
  "ws_decode addr c src = (Ok (Some f), c', src') \<Longrightarrow>
     frame_step (wc_continuation c) f (wc_continuation c')"
  by (auto simp: ws_decode_def Let_def case_prod_beta prod_eq_iff
      split: prod.splits result.splits option.splits if_splits
      intro: ws_unfinished_step ws_finished_step)

lemma ws_decode_progress:
  assumes "ws_decode addr c src = (Ok (Some f), c', src')"
  shows "length src' < length src"
proof -
  obtain fin op pl where "fst (ws_parse addr src (wc_server c) (wc_max_size c)) = Ok (Some (fin, op, pl))"
    using assms by (auto simp: ws_decode_def split: prod.splits result.splits option.splits)
  moreover have "snd (ws_parse addr src (wc_server c) (wc_max_size c)) = src'"
    using ws_decode_src [of addr c src] assms by simp
  ultimately have "ws_parse addr src (wc_server c) (wc_max_size c) = (Ok (Some (fin, op, pl)), src')"
    by (simp add: prod_eq_iff)
  then show ?thesis using ws_parse_frame_bound by fastforce
qed

text \<open>The read loop: decode frames until the decoder asks for data or fails.\<close>

function ws_decode_all :: "nat \<Rightarrow> ws_codec \<Rightarrow> bytes \<Rightarrow> ws_frame list \<times> (unit, protocol_error) result \<times> ws_codec \<times> bytes"
  where
  "ws_decode_all addr c src =
     (case ws_decode addr c src of
        (Ok (Some f), c', src') \<Rightarrow>
          (let (fs, r) = ws_decode_all addr c' src' in (f # fs, r))
      | (Ok None, c', src') \<Rightarrow> ([], Ok (), c', src')
      | (Err e, c', src') \<Rightarrow> ([], Err e, c', src'))"
  by pat_completeness auto
termination
  by (relation "measure (\<lambda>(addr, c, src). length src)") (auto dest: ws_decode_progress [OF sym])

declare ws_decode_all.simps [simp del]

lemma ws_decode_all_run:
  "ws_decode_all addr c src = (fs, r, c', src') \<Longrightarrow>
     frames_run (wc_continuation c) fs (wc_continuation c')"
proof (induction addr c src arbitrary: fs r c' src' rule: ws_decode_all.induct)
  case (1 addr c src)
  obtain x c1 src1 where d: "ws_decode addr c src = (x, c1, src1)" by (cases "ws_decode addr c src")
  show ?case
  proof (cases "\<exists>f. x = Ok (Some f)")
    case True
    then obtain f where x: "x = Ok (Some f)" by blast
    obtain gs q where rest: "ws_decode_all addr c1 src1 = (gs, q)" by (cases "ws_decode_all addr c1 src1")
    from "1.prems" d x rest have *: "fs = f # gs" "q = (r, c', src')"
      by (auto simp: ws_decode_all.simps [of addr c src])
    from "1.IH" [OF d [symmetric] x refl refl, of gs r c' src'] rest *
    have "frames_run (wc_continuation c1) gs (wc_continuation c')" by auto
    with ws_decode_step [of addr c src f c1 src1] d x * show ?thesis by auto
  next
    case False
    with "1.prems" d have "fs = []" "c' = c1"
      by (auto simp: ws_decode_all.simps [of addr c src] split: result.splits option.splits)
    moreover have "wc_continuation c1 = wc_continuation c" if "x = Ok None"
      using that d by (auto dest: ws_decode_None)
    moreover have "wc_continuation c1 = wc_continuation c" if "x = Err e" for e
      using that d
      by (auto simp: ws_decode_def ws_unfinished_def ws_finished_def Let_def
          split: prod.splits result.splits option.splits if_splits op_code.splits)
    ultimately show ?thesis using False by (cases x; cases "ok_value x") auto
  qed
qed

section \<open>From one peer to the other\<close>

text \<open>
  What the receiver sees of a message, as the code has it: the two kinds of first fragment
  arrive exchanged, a close reason arrives with its canonical code, and an empty description
  arrives as none.
\<close>

fun item_arrives :: "ws_item \<Rightarrow> ws_item" where
  "item_arrives (FirstText d) = FirstBinary d"
| "item_arrives (FirstBinary d) = FirstText d"
| "item_arrives (Continue d) = Continue d"
| "item_arrives (Last d) = Last d"

definition close_arrives :: "close_reason \<Rightarrow> close_reason" where
  "close_arrives r =
     \<lparr>cr_code = close_from_u16 (close_into_u16 (cr_code r)),
      cr_description = (case cr_description r of
          None \<Rightarrow> None
        | Some d \<Rightarrow> if d = [] then None else Some (from_utf8_lossy d))\<rparr>"

fun msg_arrives :: "ws_message \<Rightarrow> ws_frame option" where
  "msg_arrives (MsgText d) = Some (FrText d)"
| "msg_arrives (MsgBinary d) = Some (FrBinary d)"
| "msg_arrives (MsgContinuation i) = Some (FrContinuation (item_arrives i))"
| "msg_arrives (MsgPing d) = Some (FrPing d)"
| "msg_arrives (MsgPong d) = Some (FrPong d)"
| "msg_arrives (MsgClose r) = Some (FrClose (map_option close_arrives r))"
| "msg_arrives MsgNop = None"

text \<open>A message within the receiver's limits.\<close>

fun item_data :: "ws_item \<Rightarrow> bytes" where
  "item_data (FirstText d) = d"
| "item_data (FirstBinary d) = d"
| "item_data (Continue d) = d"
| "item_data (Last d) = d"

definition data_fits :: "nat \<Rightarrow> bytes \<Rightarrow> bool" where
  "data_fits max_size d \<longleftrightarrow> length d \<le> max_size \<and> length d < 2 ^ 64"

fun msg_fits :: "nat \<Rightarrow> ws_message \<Rightarrow> bool" where
  "msg_fits max_size (MsgText d) \<longleftrightarrow> data_fits max_size d"
| "msg_fits max_size (MsgBinary d) \<longleftrightarrow> data_fits max_size d"
| "msg_fits max_size (MsgContinuation i) \<longleftrightarrow> data_fits max_size (item_data i)"
| "msg_fits max_size (MsgPing d) \<longleftrightarrow> data_fits max_size d \<and> length d \<le> 125"
| "msg_fits max_size (MsgPong d) \<longleftrightarrow> data_fits max_size d \<and> length d \<le> 125"
| "msg_fits max_size (MsgClose r) \<longleftrightarrow>
     (case r of None \<Rightarrow> True
      | Some cr \<Rightarrow> (let n = 2 + length (case cr_description cr of None \<Rightarrow> [] | Some d \<Rightarrow> d)
                    in n \<le> max_size \<and> n \<le> 125))"
| "msg_fits max_size MsgNop \<longleftrightarrow> True"

lemma or_empty_if [simp]: "or_empty (if d = [] then None else Some d) = d"
  by (simp add: or_empty_def)

text \<open>The payload of a close frame, written and read back.\<close>

definition close_payload :: "close_reason option \<Rightarrow> bytes" where
  "close_payload reason =
     (case reason of
        None \<Rightarrow> []
      | Some r \<Rightarrow> be_bytes 2 (close_into_u16 (cr_code r)) @
          (case cr_description r of None \<Rightarrow> [] | Some d \<Rightarrow> d))"

lemma write_close_message:
  "write_close addr rnd dst reason masked =
     write_message addr rnd dst (close_payload reason) OpClose True masked"
  by (auto simp: write_close_def close_payload_def Let_def split: option.split)

lemma parse_close_payload_close:
  "parse_close_payload (close_payload (Some r)) = Some (close_arrives r)"
proof -
  have "from_be 0 (be_bytes 2 (close_into_u16 (cr_code r))) = close_into_u16 (cr_code r)"
    by (rule from_be_be_bytes) simp
  then show ?thesis
    by (auto simp: parse_close_payload_def close_payload_def close_arrives_def Let_def
        simp del: be_bytes.simps split: option.split)
qed

lemma length_close_payload:
  "length (close_payload (Some r)) = 2 + length (case cr_description r of None \<Rightarrow> [] | Some d \<Rightarrow> d)"
  by (simp add: close_payload_def del: be_bytes.simps split: option.split)

text \<open>One frame, written by one peer and decoded by the other.\<close>

lemma ws_decode_message:
  assumes "length payload \<le> wc_max_size d" "length payload < 2 ^ 64" "op \<noteq> OpBad"
    and "op \<in> {OpClose, OpPing, OpPong} \<longrightarrow> length payload \<le> 125" and "masked = wc_server d"
  shows "ws_decode addr d (write_message a rnd [] payload op fin masked @ rest) =
     (let (r, d') = (if \<not> fin then ws_unfinished d op (if payload = [] then None else Some payload)
                     else ws_finished d op (if payload = [] then None else Some payload))
      in (r, d', rest))"
proof -
  have "ws_parse addr (write_message a rnd [] payload op fin masked @ rest) (wc_server d) (wc_max_size d) =
      (Ok (Some (fin, op, if payload = [] then None else Some payload)), rest)"
    using assms unfolding assms(5) [symmetric] by (intro ws_parse_whole) auto
  then show ?thesis by (simp add: ws_decode_def)
qed

lemma ws_encode_dst:
  "ws_encode addr rnd c m dst =
     (let (r, c', out) = ws_encode addr rnd c m [] in (r, c', dst @ out))"
  by (cases m) (auto simp: ws_encode_def Let_def write_message_frame write_close_message
      split: ws_item.split)

text \<open>
  Simulation: when the encoder accepts a message, the receiving codec, whose fragmentation
  flag agrees with the sender's, decodes exactly the frame that \<open>msg_arrives\<close> names, leaves
  the rest of the buffer, and agrees again.
\<close>

lemma ws_simulation_step:
  assumes enc: "ws_encode a rnd c m [] = (Ok (), c', out)" and arr: "msg_arrives m = Some f"
    and fits: "msg_fits (wc_max_size d) m" and peer: "wc_server d = (\<not> wc_server c)"
    and agree: "wc_continuation d = wc_w_continuation c"
  shows "\<exists>d'. ws_decode addr d (out @ rest) = (Ok (Some f), d', rest) \<and>
     wc_continuation d' = wc_w_continuation c' \<and> wc_server d' = (\<not> wc_server c') \<and>
     wc_max_size d' = wc_max_size d"
proof (cases m)
  case (MsgClose r)
  have "wc_server c' = wc_server c" "wc_w_continuation c' = wc_w_continuation c"
    "out = write_message a rnd [] (close_payload r) OpClose True (wc_server d)"
    using enc MsgClose peer by (auto simp: ws_encode_def write_close_message)
  moreover have "length (close_payload r) \<le> wc_max_size d" "length (close_payload r) \<le> 125"
    using fits MsgClose
    by (cases r; simp add: length_close_payload Let_def; simp add: close_payload_def)+
  moreover have "close_payload (Some cr) \<noteq> []" for cr
    using length_close_payload [of cr] by (cases "close_payload (Some cr)") auto
  moreover have "close_payload None = []" by (simp add: close_payload_def)
  ultimately show ?thesis
    using MsgClose arr agree peer
    by (cases r) (auto simp: ws_decode_message ws_finished_def parse_close_payload_close)
next
  case (MsgContinuation i)
  with enc arr fits peer agree show ?thesis
    by (cases i) (auto simp: ws_encode_def Let_def ws_decode_message ws_finished_def
        ws_unfinished_def data_fits_def split: if_splits)
qed (use enc arr fits peer agree in
      \<open>auto simp: ws_encode_def Let_def ws_decode_message ws_finished_def data_fits_def\<close>)

text \<open>A session: the messages of the sender in order, each with the masking key it drew.\<close>

fun ws_encode_all ::
  "nat \<Rightarrow> ws_codec \<Rightarrow> (u32 \<times> ws_message) list \<Rightarrow> bytes \<Rightarrow> (unit, protocol_error) result \<times> ws_codec \<times> bytes" where
  "ws_encode_all addr c [] dst = (Ok (), c, dst)"
| "ws_encode_all addr c ((rnd, m) # ms) dst =
     (case ws_encode addr rnd c m dst of
        (Ok _, c', dst') \<Rightarrow> ws_encode_all addr c' ms dst'
      | (Err e, c', dst') \<Rightarrow> (Err e, c', dst'))"

lemma ws_encode_all_dst:
  "ws_encode_all addr c ms dst =
     (let (r, c', out) = ws_encode_all addr c ms [] in (r, c', dst @ out))"
proof (induction ms arbitrary: c dst)
  case (Cons m ms)
  obtain rnd m' where m: "m = (rnd, m')" by (cases m)
  obtain r c1 out where e: "ws_encode addr rnd c m' [] = (r, c1, out)"
    by (cases "ws_encode addr rnd c m' []")
  show ?case
    using Cons.IH [of c1 "dst @ out"] Cons.IH [of c1 out]
    by (cases r) (auto simp: m e ws_encode_dst [of addr rnd c m' dst] split: prod.splits)
qed simp

lemma ws_session:
  assumes "ws_encode_all a c ms [] = (Ok (), c', out)"
    and "\<forall>(rnd, m) \<in> set ms. msg_fits (wc_max_size d) m"
    and "wc_server d = (\<not> wc_server c)" and "wc_continuation d = wc_w_continuation c"
  shows "\<exists>d'. ws_decode_all addr d out = (List.map_filter (\<lambda>x. msg_arrives (snd x)) ms, Ok (), d', []) \<and>
     wc_continuation d' = wc_w_continuation c'"
  using assms
proof (induction ms arbitrary: c d out)
  case Nil
  then show ?case
    by (simp add: ws_decode_all.simps [of addr d "[]"] ws_decode_def ws_parse_def
        parse_metadata_def List.map_filter_simps)
next
  case (Cons m ms)
  obtain rnd m' where m: "m = (rnd, m')" by (cases m)
  obtain r c1 out1 where e: "ws_encode a rnd c m' [] = (r, c1, out1)"
    by (cases "ws_encode a rnd c m' []")
  obtain r2 c2 out2 where e2: "ws_encode_all a c1 ms [] = (r2, c2, out2)"
    by (cases "ws_encode_all a c1 ms []")
  from Cons.prems(1) have r: "r = Ok ()" and r2: "r2 = Ok ()" "c2 = c'" and out: "out = out1 @ out2"
    by (cases r; auto simp: m e e2 ws_encode_all_dst [of a c1 ms out1])+
  have fits: "msg_fits (wc_max_size d) m'" "\<forall>(rnd, m) \<in> set ms. msg_fits (wc_max_size d) m"
    using Cons.prems(2) m by auto
  show ?case
  proof (cases "msg_arrives m'")
    case None
    then have "m' = MsgNop" by (cases m') auto
    with e have "c1 = c" "out1 = []" by (auto simp: ws_encode_def)
    with Cons.IH [of c out2 d] e2 r2 fits Cons.prems(3,4) out m None show ?thesis
      by (simp add: List.map_filter_simps)
  next
    case (Some f)
    obtain d1 where d1: "ws_decode addr d (out1 @ out2) = (Ok (Some f), d1, out2)"
      "wc_continuation d1 = wc_w_continuation c1" "wc_server d1 = (\<not> wc_server c1)"
      "wc_max_size d1 = wc_max_size d"
      using ws_simulation_step [OF e [unfolded r] Some fits(1) Cons.prems(3,4)] by blast
    obtain d' where "ws_decode_all addr d1 out2 =
        (List.map_filter (\<lambda>x. msg_arrives (snd x)) ms, Ok (), d', [])"
      "wc_continuation d' = wc_w_continuation c'"
      using Cons.IH [of c1 out2 d1] e2 r2 fits d1 by auto
    with d1 out Some m show ?thesis
      by (simp add: ws_decode_all.simps [of addr d "out1 @ out2"] List.map_filter_simps)
  qed
qed

section \<open>Properties\<close>

text \<open>
  Property C25. A whole session crosses the wire: when a codec has encoded a list of messages,
  each within the receiver's limits, the codec of the other peer decodes the bytes into
  exactly the frames that \<open>msg_arrives\<close> gives for these messages, in order, with nothing left
  over, no error, and its fragmentation flag in step with the sender's.
\<close>

theorem ws_session_decoded:
  assumes "ws_encode_all a c ms [] = (Ok (), c', out)"
    and "\<forall>(rnd, m) \<in> set ms. msg_fits (wc_max_size d) m"
    and "wc_server d = (\<not> wc_server c)" and "wc_continuation d = wc_w_continuation c"
  shows "\<exists>d'. ws_decode_all addr d out =
       (List.map_filter (\<lambda>x. msg_arrives (snd x)) ms, Ok (), d', []) \<and>
     wc_continuation d' = wc_w_continuation c'"
  using assms by (rule ws_session)

theorem ws_session_decoded_witness:
  "\<exists>d'. ws_decode_all 0 ws_codec_new
       (snd (snd (ws_encode_all 0 (ws_client_mode ws_codec_new)
          [(5, MsgText [104]), (6, MsgNop), (7, MsgContinuation (FirstBinary [1])),
           (8, MsgPing []), (9, MsgContinuation (Last [2]))] []))) =
     ([FrText [104], FrContinuation (FirstText [1]), FrPing [], FrContinuation (Last [2])],
      Ok (), d', [])"
proof -
  let ?ms = "[(5, MsgText [104]), (6, MsgNop), (7, MsgContinuation (FirstBinary [1])),
    (8, MsgPing []), (9, MsgContinuation (Last [2]))]"
  let ?e = "ws_encode_all 0 (ws_client_mode ws_codec_new) ?ms []"
  have "fst ?e = Ok ()" by (simp add: ws_encode_def ws_codec_new_def ws_client_mode_def)
  then have "?e = (Ok (), fst (snd ?e), snd (snd ?e))" by (simp add: prod_eq_iff)
  from ws_session_decoded [OF this, of ws_codec_new 0]
  show ?thesis
    by (auto simp: ws_codec_new_def ws_client_mode_def data_fits_def List.map_filter_simps)
qed

text \<open>
  The two kinds of first fragment are exchanged by the encoder: a message sent
  as the first fragment of a text arrives as the first fragment of a binary message, and the
  other way round, for every payload within the limits.
\<close>

theorem ws_first_fragment_exchanged:
  assumes "data_fits (wc_max_size d) data" and "wc_server d = (\<not> wc_server c)"
    and "\<not> wc_continuation d" and "\<not> wc_w_continuation c"
  shows "fst (ws_decode addr d (snd (snd (ws_encode a rnd c (MsgContinuation (FirstText data)) [])))) =
       Ok (Some (FrContinuation (FirstBinary data))) \<and>
    fst (ws_decode addr d (snd (snd (ws_encode a rnd c (MsgContinuation (FirstBinary data)) [])))) =
       Ok (Some (FrContinuation (FirstText data)))"
proof -
  have "\<exists>d'. ws_decode addr d (snd (snd (ws_encode a rnd c (MsgContinuation i) [])) @ []) =
      (Ok (Some (FrContinuation (item_arrives i))), d', [])"
    if "i = FirstText data \<or> i = FirstBinary data" for i
  proof -
    have e: "ws_encode a rnd c (MsgContinuation i) [] =
        (Ok (), c\<lparr>wc_w_continuation := True\<rparr>, snd (snd (ws_encode a rnd c (MsgContinuation i) [])))"
      using that assms(4) by (auto simp: ws_encode_def)
    have "msg_fits (wc_max_size d) (MsgContinuation i)" using that assms(1) by auto
    with ws_simulation_step [OF e] assms(2-4) show ?thesis by (metis msg_arrives.simps(3))
  qed
  from this [of "FirstText data"] this [of "FirstBinary data"] show ?thesis by auto
qed

theorem ws_first_fragment_exchanged_witness:
  "fst (ws_decode 0 ws_codec_new (snd (snd (ws_encode 0 77 (ws_client_mode ws_codec_new)
     (MsgContinuation (FirstText [104])) [])))) = Ok (Some (FrContinuation (FirstBinary [104])))"
  using ws_first_fragment_exchanged [of ws_codec_new "[104]" "ws_client_mode ws_codec_new" 0 0 77]
  by (simp add: ws_codec_new_def ws_client_mode_def data_fits_def)

text \<open>
  Property C26. Whatever bytes a peer sends, the frames the read loop delivers obey the
  fragmentation discipline: continuation frames occur only inside an open message, a first
  fragment only outside one, and the codec's flag says at the end whether one is open.
\<close>

theorem ws_received_frames_disciplined:
  assumes "ws_decode_all addr c src = (fs, r, c', src')"
  shows "frames_run (wc_continuation c) fs (wc_continuation c')"
  using assms by (rule ws_decode_all_run)

theorem ws_received_frames_disciplined_witness:
  "frames_run False (fst (ws_decode_all 0 ws_codec_new [0x81]))
     (wc_continuation (fst (snd (snd (ws_decode_all 0 ws_codec_new [0x81])))))"
proof -
  have "ws_decode_all 0 ws_codec_new [0x81] =
      (fst (ws_decode_all 0 ws_codec_new [0x81]), fst (snd (ws_decode_all 0 ws_codec_new [0x81])),
       fst (snd (snd (ws_decode_all 0 ws_codec_new [0x81]))),
       snd (snd (snd (ws_decode_all 0 ws_codec_new [0x81]))))" by simp
  from ws_received_frames_disciplined [OF this] show ?thesis by (simp add: ws_codec_new_def)
qed

text \<open>
  How the transport cuts a WebSocket stream into pieces does not matter: feeding
  the pieces one by one until a frame or an error comes gives what decoding the pieces used,
  joined, gives at once, with the same codec state and the same bytes left.
\<close>

theorem ws_segmentation_irrelevant:
  "\<exists>k \<le> length ps. await (ws_decode addr) c buf ps =
     (ws_decode addr c (buf @ concat (take k ps)), drop k ps)"
  by (rule ws.await_eq)

end
