(* ===== verification/Ascii.thy ===== *)
theory Ascii
  imports Rust_Prelude
begin

text \<open>
  The operations of Rust's standard library on ASCII strings that the HTTP code uses: letter
  case, trimming, substring search, the decimal and hexadecimal formats of integers and
  \<open>str::parse::<u64>\<close>. A string that comes from a header value is the list of its bytes
  (\<open>HeaderValue::to_str\<close> answers only for ASCII).
\<close>

section \<open>Letter case\<close>

definition to_lower :: "byte \<Rightarrow> byte" where
  "to_lower b = (if 0x41 \<le> b \<and> b \<le> 0x5A then b + 32 else b)"

definition to_ascii_lowercase :: "bytes \<Rightarrow> bytes" where
  "to_ascii_lowercase s = map to_lower s"

definition eq_ignore_ascii_case :: "bytes \<Rightarrow> bytes \<Rightarrow> bool" where
  "eq_ignore_ascii_case s t \<longleftrightarrow> to_ascii_lowercase s = to_ascii_lowercase t"

lemma to_lower_idem [simp]: "to_lower (to_lower b) = to_lower b"
proof (cases "0x41 \<le> b \<and> b \<le> 0x5A")
  case True
  have "unat (b + 32) = unat b + 32"
    using True by (subst unat_plus_simple [THEN iffD1]) (simp_all add: word_le_nat_alt unat_word_ariths)
  with True have "\<not> b + 32 \<le> 0x5A" by (simp add: word_le_nat_alt)
  with True show ?thesis by (simp add: to_lower_def)
qed (auto simp: to_lower_def)

lemma eq_ignore_ascii_case_refl [simp]: "eq_ignore_ascii_case s s"
  by (simp add: eq_ignore_ascii_case_def)

section \<open>Trimming and searching\<close>

definition is_ws :: "byte \<Rightarrow> bool" where
  "is_ws b \<longleftrightarrow> b = 0x20 \<or> 0x09 \<le> b \<and> b \<le> 0x0D"

definition trim :: "bytes \<Rightarrow> bytes" where
  "trim s = rev (dropWhile is_ws (rev (dropWhile is_ws s)))"

fun contains_str :: "bytes \<Rightarrow> bytes \<Rightarrow> bool" where
  "contains_str [] pat \<longleftrightarrow> pat = []"
| "contains_str (b # s) pat \<longleftrightarrow> take (length pat) (b # s) = pat \<or> contains_str s pat"

lemma contains_str_iff: "contains_str s pat \<longleftrightarrow> (\<exists>a b. s = a @ pat @ b)"
proof (induction s)
  case (Cons c s)
  have "take (length pat) (c # s) = pat \<longleftrightarrow> (\<exists>b. c # s = pat @ b)"
    by (metis append_eq_conv_conj append_take_drop_id)
  with Cons show ?case
    by (simp only: contains_str.simps) (metis append_Cons append_Nil list.sel(3) neq_Nil_conv)
qed auto

section \<open>Decimal numbers\<close>

definition digit :: "nat \<Rightarrow> byte" where
  "digit d = of_nat d + 0x30"

fun dec :: "nat \<Rightarrow> bytes" where
  "dec n = (if n < 10 then [digit n] else dec (n div 10) @ [digit (n mod 10)])"

declare dec.simps [simp del]

definition digit_val :: "byte \<Rightarrow> nat option" where
  "digit_val b = (if 0x30 \<le> b \<and> b \<le> 0x39 then Some (unat b - 48) else None)"

text \<open>\<open>u64::from_str\<close>: digits with an optional plus sign, an error when empty or too large.\<close>

fun parse_digits :: "nat \<Rightarrow> bytes \<Rightarrow> nat option" where
  "parse_digits n [] = Some n"
| "parse_digits n (b # bs) =
     (case digit_val b of
        None \<Rightarrow> None
      | Some d \<Rightarrow> (let n' = n * 10 + d in if n' < 2 ^ 64 then parse_digits n' bs else None))"

definition parse_u64 :: "bytes \<Rightarrow> u64 option" where
  "parse_u64 s =
     (let ds = (case s of b # rest \<Rightarrow> if b = 0x2B \<and> rest \<noteq> [] then rest else s | [] \<Rightarrow> s)
      in if ds = [] then None else map_option of_nat (parse_digits 0 ds))"

lemma unat_digit: "d < 10 \<Longrightarrow> unat (digit d) = d + 48"
  by (simp add: digit_def unat_word_ariths unat_of_nat)

lemma digit_val_digit: "d < 10 \<Longrightarrow> digit_val (digit d) = Some d"
  by (simp add: digit_val_def word_le_nat_alt unat_digit)

lemma dec_not_Nil [simp]: "dec n \<noteq> []"
  by (subst dec.simps) simp

lemma dec_digits: "b \<in> set (dec n) \<Longrightarrow> \<exists>d < 10. b = digit d"
proof (induction n rule: dec.induct)
  case (1 n)
  show ?case
  proof (cases "n < 10 \<or> b \<notin> set (dec (n div 10))")
    case True
    with "1.prems" show ?thesis
      by (auto simp: dec.simps [of n] split: if_splits intro: exI [of _ n] exI [of _ "n mod 10"])
  next
    case False
    with "1.IH" show ?thesis by simp
  qed
qed

lemma parse_digits_append:
  "parse_digits n (xs @ ys) = Option.bind (parse_digits n xs) (\<lambda>m. parse_digits m ys)"
  by (induction xs arbitrary: n) (auto simp: Let_def split: option.split)

lemma parse_digits_dec: "n < 2 ^ 64 \<Longrightarrow> parse_digits 0 (dec n) = Some n"
proof (induction n rule: dec.induct)
  case (1 n)
  show ?case
  proof (cases "n < 10")
    case True
    then show ?thesis using "1.prems" by (simp add: dec.simps [of n] digit_val_digit)
  next
    case False
    with 1 have "parse_digits 0 (dec (n div 10)) = Some (n div 10)" by auto
    with False "1.prems" show ?thesis
      by (simp add: dec.simps [of n] parse_digits_append digit_val_digit)
  qed
qed

lemma parse_u64_dec: "n < 2 ^ 64 \<Longrightarrow> parse_u64 (dec n) = Some (of_nat n)"
proof -
  assume n: "n < 2 ^ 64"
  obtain b bs where d: "dec n = b # bs" by (cases "dec n") auto
  then obtain k where "k < 10" "b = digit k" using dec_digits [of b n] by auto
  then have "b \<noteq> 0x2B" using unat_digit [of k] by (auto dest: arg_cong [of _ _ unat])
  with d n parse_digits_dec [OF n] show ?thesis by (simp add: parse_u64_def)
qed

lemma length_dec: "n < 10 ^ k \<Longrightarrow> 0 < k \<Longrightarrow> length (dec n) \<le> k"
proof (induction k arbitrary: n)
  case (Suc k)
  show ?case
  proof (cases "n < 10")
    case False
    with Suc.prems have "n div 10 < 10 ^ k" by (simp add: less_mult_imp_div_less mult.commute)
    moreover from this False have "0 < k" by (cases k) auto
    ultimately show ?thesis using Suc.IH [of "n div 10"] False by (simp add: dec.simps [of n])
  qed (simp add: dec.simps [of n])
qed simp

text \<open>Numbers of a fixed number of digits.\<close>

fun pad_dec :: "nat \<Rightarrow> nat \<Rightarrow> bytes" where
  "pad_dec 0 n = []"
| "pad_dec (Suc k) n = pad_dec k (n div 10) @ [digit (n mod 10)]"

lemma dec_pad: "10 ^ k \<le> n \<Longrightarrow> dec n = dec (n div 10 ^ k) @ pad_dec k (n mod 10 ^ k)"
proof (induction k arbitrary: n)
  case (Suc k)
  have "10 * 10 ^ k \<le> n" using Suc.prems by simp
  then have ge: "\<not> n < 10" "10 ^ k \<le> n div 10"
    by (auto simp: less_eq_div_iff_mult_less_eq mult.commute intro: order_less_le_trans)
       (metis One_nat_def less_le_trans linorder_not_le mult.right_neutral mult_le_mono2 one_le_numeral one_le_power)
  have m: "n mod (10 * 10 ^ k) = 10 * (n div 10 mod 10 ^ k) + n mod 10"
    by (simp add: mod_mult2_eq)
  have "n mod (10 * 10 ^ k) div 10 = n div 10 mod 10 ^ k" "n mod (10 * 10 ^ k) mod 10 = n mod 10"
    unfolding m by simp_all
  then show ?case using Suc.IH [OF ge(2)] ge(1)
    by (simp add: dec.simps [of n] div_mult2_eq)
qed simp

section \<open>Hexadecimal numbers\<close>

definition hex_digit_upper :: "nat \<Rightarrow> byte" where
  "hex_digit_upper d = (if d < 10 then of_nat d + 0x30 else of_nat d + 55)"

text \<open>\<open>{:X}\<close>\<close>

fun hex_upper :: "nat \<Rightarrow> bytes" where
  "hex_upper n =
     (if n < 16 then [hex_digit_upper n] else hex_upper (n div 16) @ [hex_digit_upper (n mod 16)])"

declare hex_upper.simps [simp del]

end
