(* ===== verification/Http_Types.thy ===== *)
theory Http_Types
  imports Ascii
begin

text \<open>
  The vocabulary the HTTP components share: protocol versions with their order, status codes,
  header names and values, body sizes (\<open>body.rs\<close>) and connection types (\<open>message.rs\<close>), and the interface to the
  crates \<open>http\<close> and \<open>httparse\<close>, whose code is not part of the repository. A \<open>HeaderName\<close> is
  the bytes of its canonical spelling (two names are equal exactly when these are), a
  \<open>HeaderValue\<close> its bytes, a \<open>StatusCode\<close> its number, a \<open>Method\<close> its bytes.
\<close>

section \<open>Versions\<close>

datatype http_version = HTTP_09 | HTTP_10 | HTTP_11 | HTTP_2 | HTTP_3

fun version_rank :: "http_version \<Rightarrow> nat" where
  "version_rank HTTP_09 = 0"
| "version_rank HTTP_10 = 1"
| "version_rank HTTP_11 = 2"
| "version_rank HTTP_2 = 3"
| "version_rank HTTP_3 = 4"

instantiation http_version :: linorder
begin

definition less_eq_http_version :: "http_version \<Rightarrow> http_version \<Rightarrow> bool" where
  "less_eq_http_version a b \<longleftrightarrow> version_rank a \<le> version_rank b"

definition less_http_version :: "http_version \<Rightarrow> http_version \<Rightarrow> bool" where
  "less_http_version a b \<longleftrightarrow> version_rank a < version_rank b"

lemmas http_version_order_defs = less_eq_http_version_def less_http_version_def

lemma version_rank_inj: "version_rank a = version_rank b \<Longrightarrow> a = b"
  by (cases a; cases b) simp_all

instance
proof
  fix a b c :: http_version
  show "a < b \<longleftrightarrow> a \<le> b \<and> \<not> b \<le> a" by (auto simp: http_version_order_defs)
  show "a \<le> a" by (simp add: http_version_order_defs)
  show "a \<le> b \<Longrightarrow> b \<le> c \<Longrightarrow> a \<le> c" by (simp add: http_version_order_defs)
  show "a \<le> b \<Longrightarrow> b \<le> a \<Longrightarrow> a = b" by (simp add: http_version_order_defs version_rank_inj)
  show "a \<le> b \<or> b \<le> a" by (auto simp: http_version_order_defs)
qed

end

section \<open>Names and codes\<close>

type_synonym header_name = bytes
type_synonym header_value = bytes
type_synonym http_method = bytes
type_synonym status_code = u16

abbreviation CONTINUE :: status_code where "CONTINUE \<equiv> 100"
abbreviation SWITCHING_PROTOCOLS :: status_code where "SWITCHING_PROTOCOLS \<equiv> 101"
abbreviation PROCESSING :: status_code where "PROCESSING \<equiv> 102"
abbreviation NO_CONTENT :: status_code where "NO_CONTENT \<equiv> 204"
abbreviation BAD_REQUEST :: status_code where "BAD_REQUEST \<equiv> 400"
abbreviation METHOD_NOT_ALLOWED :: status_code where "METHOD_NOT_ALLOWED \<equiv> 405"

definition CONNECTION :: header_name where "CONNECTION = bstr ''connection''"
definition CONTENT_LENGTH :: header_name where "CONTENT_LENGTH = bstr ''content-length''"
definition TRANSFER_ENCODING :: header_name where "TRANSFER_ENCODING = bstr ''transfer-encoding''"
definition UPGRADE :: header_name where "UPGRADE = bstr ''upgrade''"
definition EXPECT :: header_name where "EXPECT = bstr ''expect''"
definition DATE :: header_name where "DATE = bstr ''date''"
definition ALLOW :: header_name where "ALLOW = bstr ''allow''"
definition SEC_WEBSOCKET_VERSION :: header_name where
  "SEC_WEBSOCKET_VERSION = bstr ''sec-websocket-version''"
definition SEC_WEBSOCKET_KEY :: header_name where
  "SEC_WEBSOCKET_KEY = bstr ''sec-websocket-key''"
definition SEC_WEBSOCKET_ACCEPT :: header_name where
  "SEC_WEBSOCKET_ACCEPT = bstr ''sec-websocket-accept''"

lemmas header_name_defs =
  CONNECTION_def CONTENT_LENGTH_def TRANSFER_ENCODING_def UPGRADE_def EXPECT_def DATE_def ALLOW_def
  SEC_WEBSOCKET_VERSION_def SEC_WEBSOCKET_KEY_def SEC_WEBSOCKET_ACCEPT_def

definition METHOD_CONNECT :: http_method where "METHOD_CONNECT = bstr ''CONNECT''"
definition METHOD_HEAD :: http_method where "METHOD_HEAD = bstr ''HEAD''"
definition METHOD_GET :: http_method where "METHOD_GET = bstr ''GET''"

section \<open>Bodies and connections\<close>

datatype body_size = SzNone | SzEmpty | SzSized nat | SzSized64 u64 | SzStream

fun size_is_eof :: "body_size \<Rightarrow> bool" where
  "size_is_eof SzNone = True"
| "size_is_eof SzEmpty = True"
| "size_is_eof (SzSized n) = (n = 0)"
| "size_is_eof (SzSized64 n) = (n = 0)"
| "size_is_eof SzStream = False"

datatype connection_type = CtClose | CtKeepAlive | CtUpgrade

section \<open>The crates http and httparse\<close>

text \<open>
  \<open>httparse\<close> yields, for a complete head, its length in bytes and the offsets of what it
  found, as slices of the buffer.
\<close>

datatype 'a parse_status = Complete nat 'a | Partial

record parsed_request =
  pr_method :: bytes
  pr_path :: bytes
  pr_version :: nat
  pr_headers :: "((nat \<times> nat) \<times> (nat \<times> nat)) list"

record parsed_response =
  ps_version :: nat
  ps_code :: u16
  ps_headers :: "((nat \<times> nat) \<times> (nat \<times> nat)) list"

datatype httparse_error =
    HpHeaderName | HpHeaderValue | HpNewLine | HpStatus | HpToken | HpTooManyHeaders | HpVersion

record http_lib =
  hl_name_from_str :: "bytes \<Rightarrow> header_name option"
  hl_name_from_bytes :: "bytes \<Rightarrow> header_name option"
  hl_to_str :: "header_value \<Rightarrow> bytes option"
  hl_method_from_bytes :: "bytes \<Rightarrow> http_method option"
  hl_uri_from_str :: "bytes \<Rightarrow> bytes option"
  hl_path_and_query :: "bytes \<Rightarrow> bytes option"
  hl_status_from_u16 :: "u16 \<Rightarrow> status_code option"
  hl_canonical_reason :: "status_code \<Rightarrow> bytes option"
  hl_parse_request :: "bytes \<Rightarrow> (parsed_request parse_status, httparse_error) result"
  hl_parse_response :: "bytes \<Rightarrow> (parsed_response parse_status, httparse_error) result"

section \<open>Parse errors\<close>

text \<open>\<open>ParseError\<close> of \<open>error.rs\<close>, without the payloads that foreign error types carry.\<close>

datatype parse_error =
    PeMethod | PeUri | PeVersion | PeHeader | PeTooLarge | PeIncomplete | PeStatus | PeTimeout
  | PeIo io_error | PeUtf8

fun from_httparse :: "httparse_error \<Rightarrow> parse_error" where
  "from_httparse HpHeaderName = PeHeader"
| "from_httparse HpHeaderValue = PeHeader"
| "from_httparse HpNewLine = PeHeader"
| "from_httparse HpToken = PeHeader"
| "from_httparse HpStatus = PeStatus"
| "from_httparse HpTooManyHeaders = PeTooLarge"
| "from_httparse HpVersion = PeVersion"

definition parse_error_status :: "parse_error \<Rightarrow> status_code" where
  "parse_error_status e = BAD_REQUEST"

end
