(* ===== verification/Multimap_Interface.thy ===== *)
theory Multimap_Interface
  imports Rust_Prelude "HOL-Library.Multiset"
begin

text \<open>
  What the HTTP code relies on when it collects the headers of a message: a map from names to
  any number of values, to which values are appended one at a time. The order in which the
  values of one name come back is not part of the contract.
\<close>

locale multimap =
  fixes wf :: "'m \<Rightarrow> bool" and empty :: "'m" and "values" :: "'m \<Rightarrow> 'k \<Rightarrow> 'v list"
    and append :: "'m \<Rightarrow> 'k \<Rightarrow> 'v \<Rightarrow> 'm"
  assumes wf_empty: "wf empty"
    and wf_append: "wf m \<Longrightarrow> wf (append m k v)"
    and values_empty: "values empty k = []"
    and values_append: "wf m \<Longrightarrow> mset (values (append m k v) k) = add_mset v (mset (values m k))"
    and values_append_other: "wf m \<Longrightarrow> k' \<noteq> k \<Longrightarrow> values (append m k v) k' = values m k'"
begin

definition append_all :: "'m \<Rightarrow> ('k \<times> 'v) list \<Rightarrow> 'm" where
  "append_all = foldl (\<lambda>m (k, v). append m k v)"

lemma append_all_Nil [simp]: "append_all m [] = m"
  by (simp add: append_all_def)

lemma append_all_Cons [simp]: "append_all m ((k, v) # kvs) = append_all (append m k v) kvs"
  by (simp add: append_all_def)

lemma wf_append_all: "wf m \<Longrightarrow> wf (append_all m kvs)"
  by (induction kvs arbitrary: m) (auto simp: wf_append)

text \<open>Nothing is lost, added or mixed up between names.\<close>

lemma values_append_all:
  "wf m \<Longrightarrow> mset (values (append_all m kvs) k) =
     mset (values m k) + mset (map snd (filter (\<lambda>kv. fst kv = k) kvs))"
proof (induction kvs arbitrary: m)
  case (Cons kv kvs)
  then show ?case
    by (cases kv; cases "fst kv = k") (auto simp: wf_append values_append values_append_other)
qed simp

lemma values_collected:
  "mset (values (append_all empty kvs) k) = mset (map snd (filter (\<lambda>kv. fst kv = k) kvs))"
  by (simp add: values_append_all wf_empty values_empty)

lemma value_unique:
  assumes "filter (\<lambda>kv. fst kv = k) kvs = [(k, v)]"
  shows "values (append_all empty kvs) k = [v]"
  using values_collected [of kvs k] assms by simp

lemma value_absent:
  assumes "k \<notin> fst ` set kvs"
  shows "values (append_all empty kvs) k = []"
proof -
  have "filter (\<lambda>kv. fst kv = k) kvs = []" using assms by (auto simp: filter_empty_conv)
  with values_collected [of kvs k] show ?thesis by simp
qed

end

end
