(* ===== verification/Header_Map.thy ===== *)
theory Header_Map
  imports Http_Types Multimap_Interface "HOL-Library.AList"
begin

text \<open>
  The header map of \<open>header/map.rs\<close>: a hash map from names to one value or a vector of values.
  The hash map is an association list with distinct keys; its iteration order is arbitrary,
  so an iteration takes the entries in the order in which they are visited, any permutation
  of the list.
\<close>

section \<open>Data\<close>

datatype hvalue = One header_value | Multi "header_value list"

type_synonym header_map = "(header_name \<times> hvalue) list"

text \<open>\<open>AsName\<close>: a key given as a name or as a string, which is parsed.\<close>

datatype as_name = ByName header_name | ByStr bytes

section \<open>Values of one name\<close>

fun value_get :: "hvalue \<Rightarrow> header_value exec" where
  "value_get (One v) = Return v"
| "value_get (Multi (v # vs)) = Return v"
| "value_get (Multi []) = Panic"

text \<open>Writing \<open>x\<close> through the reference that \<open>get_mut\<close> returns.\<close>

fun value_set :: "header_value \<Rightarrow> hvalue \<Rightarrow> hvalue exec" where
  "value_set x (One v) = Return (One x)"
| "value_set x (Multi (v # vs)) = Return (Multi (x # vs))"
| "value_set x (Multi []) = Panic"

text \<open>
  A second value turns \<open>One\<close> into \<open>Multi\<close>: the vector is made of the new value, and the old
  one is then appended to it.
\<close>

fun value_append :: "header_value \<Rightarrow> hvalue \<Rightarrow> hvalue" where
  "value_append v (One old) = Multi ([v] @ [old])"
| "value_append v (Multi vs) = Multi (vs @ [v])"

fun value_list :: "hvalue \<Rightarrow> header_value list" where
  "value_list (One v) = [v]"
| "value_list (Multi vs) = vs"

section \<open>Operations of the map\<close>

definition as_name :: "http_lib \<Rightarrow> as_name \<Rightarrow> header_name option" where
  "as_name lib key = (case key of ByName n \<Rightarrow> Some n | ByStr s \<Rightarrow> hl_name_from_str lib s)"

definition hm_new :: header_map where
  "hm_new = []"

definition hm_len :: "header_map \<Rightarrow> nat" where
  "hm_len m = length m"

definition hm_is_empty :: "header_map \<Rightarrow> bool" where
  "hm_is_empty m \<longleftrightarrow> length m = 0"

definition hm_clear :: "header_map \<Rightarrow> header_map" where
  "hm_clear m = []"

definition hm_get2 :: "http_lib \<Rightarrow> header_map \<Rightarrow> as_name \<Rightarrow> hvalue option" where
  "hm_get2 lib m key = Option.bind (as_name lib key) (map_of m)"

definition hm_get :: "http_lib \<Rightarrow> header_map \<Rightarrow> as_name \<Rightarrow> header_value option exec" where
  "hm_get lib m key =
     (case hm_get2 lib m key of
        None \<Rightarrow> Return None
      | Some v \<Rightarrow> (case value_get v of Return x \<Rightarrow> Return (Some x) | Panic \<Rightarrow> Panic))"

definition hm_set_first :: "http_lib \<Rightarrow> header_map \<Rightarrow> as_name \<Rightarrow> header_value \<Rightarrow> header_map exec" where
  "hm_set_first lib m key x =
     (case as_name lib key of
        None \<Rightarrow> Return m
      | Some n \<Rightarrow>
          (case map_of m n of
             None \<Rightarrow> Return m
           | Some v \<Rightarrow> (case value_set x v of Return v' \<Rightarrow> Return (AList.update n v' m) | Panic \<Rightarrow> Panic)))"

definition hm_contains_key :: "http_lib \<Rightarrow> header_map \<Rightarrow> as_name \<Rightarrow> bool" where
  "hm_contains_key lib m key =
     (case as_name lib key of None \<Rightarrow> False | Some n \<Rightarrow> map_of m n \<noteq> None)"

definition hm_insert :: "header_map \<Rightarrow> header_name \<Rightarrow> header_value \<Rightarrow> header_map" where
  "hm_insert m key val = AList.update key (One val) m"

definition hm_append :: "header_map \<Rightarrow> header_name \<Rightarrow> header_value \<Rightarrow> header_map" where
  "hm_append m key val =
     (case map_of m key of
        Some v \<Rightarrow> AList.update key (value_append val v) m
      | None \<Rightarrow> AList.update key (One val) m)"

definition hm_remove :: "http_lib \<Rightarrow> header_map \<Rightarrow> as_name \<Rightarrow> header_map" where
  "hm_remove lib m key = (case as_name lib key of None \<Rightarrow> m | Some n \<Rightarrow> AList.delete n m)"

section \<open>Iterators\<close>

record get_all_iter =
  ga_idx :: nat
  ga_item :: "hvalue option"

definition hm_get_all :: "http_lib \<Rightarrow> header_map \<Rightarrow> as_name \<Rightarrow> get_all_iter" where
  "hm_get_all lib m key = \<lparr>ga_idx = 0, ga_item = hm_get2 lib m key\<rparr>"

definition get_all_next :: "get_all_iter \<Rightarrow> header_value option \<times> get_all_iter" where
  "get_all_next it =
     (case ga_item it of
        Some (One v) \<Rightarrow> (Some v, it\<lparr>ga_item := None\<rparr>)
      | Some (Multi vs) \<Rightarrow>
          if ga_idx it < length vs then (Some (vs ! ga_idx it), it\<lparr>ga_idx := ga_idx it + 1\<rparr>)
          else (None, it\<lparr>ga_item := None\<rparr>)
      | None \<Rightarrow> (None, it))"

record header_iter =
  it_idx :: nat
  it_current :: "(header_name \<times> header_value list) option"
  it_iter :: "(header_name \<times> hvalue) list"

definition iter_new :: "(header_name \<times> hvalue) list \<Rightarrow> header_iter" where
  "iter_new entries = \<lparr>it_idx = 0, it_current = None, it_iter = entries\<rparr>"

function iter_next :: "header_iter \<Rightarrow> (header_name \<times> header_value) option \<times> header_iter" where
  "iter_next it =
     (case it_current it of
        Some (n, vs) \<Rightarrow>
          if it_idx it < length vs then (Some (n, vs ! it_idx it), it\<lparr>it_idx := it_idx it + 1\<rparr>)
          else iter_next (it\<lparr>it_idx := 0, it_current := None\<rparr>)
      | None \<Rightarrow>
          (case it_iter it of
             [] \<Rightarrow> (None, it)
           | (n, One v) # rest \<Rightarrow> (Some (n, v), it\<lparr>it_iter := rest\<rparr>)
           | (n, Multi vs) # rest \<Rightarrow> iter_next (it\<lparr>it_iter := rest, it_current := Some (n, vs)\<rparr>)))"
  by pat_completeness auto
termination
  by (relation "measure (\<lambda>it. 2 * length (it_iter it) + (if it_current it = None then 0 else 1))") auto

declare iter_next.simps [simp del]

section \<open>The invariant\<close>

text \<open>Keys are distinct, and a vector always has at least two values.\<close>

definition value_wf :: "hvalue \<Rightarrow> bool" where
  "value_wf v \<longleftrightarrow> (case v of One _ \<Rightarrow> True | Multi vs \<Rightarrow> 2 \<le> length vs)"

definition hm_wf :: "header_map \<Rightarrow> bool" where
  "hm_wf m \<longleftrightarrow> distinct (map fst m) \<and> (\<forall>v \<in> snd ` set m. value_wf v)"

definition hm_values :: "header_map \<Rightarrow> header_name \<Rightarrow> header_value list" where
  "hm_values m n = (case map_of m n of None \<Rightarrow> [] | Some v \<Rightarrow> value_list v)"

lemma snd_update_subset: "snd ` set (AList.update k v m) \<subseteq> insert v (snd ` set m)"
  by (induction m) auto

lemma hm_wf_update: "hm_wf m \<Longrightarrow> value_wf v \<Longrightarrow> hm_wf (AList.update k v m)"
proof -
  assume wf: "hm_wf m" "value_wf v"
  have "value_wf w" if "w \<in> snd ` set (AList.update k v m)" for w
    using that snd_update_subset [of k v m] wf unfolding hm_wf_def by blast
  then show ?thesis using wf by (simp add: hm_wf_def distinct_update)
qed

lemma hm_wf_delete: "hm_wf m \<Longrightarrow> hm_wf (AList.delete k m)"
  by (auto simp: hm_wf_def distinct_delete) (auto simp: AList.delete_eq)

lemma hm_wf_map_of: "hm_wf m \<Longrightarrow> map_of m k = Some v \<Longrightarrow> value_wf v"
  by (force simp: hm_wf_def dest: map_of_SomeD)

lemma value_wf_append [simp]: "value_wf v \<Longrightarrow> value_wf (value_append x v)"
  by (cases v) (auto simp: value_wf_def)

lemma value_wf_One [simp]: "value_wf (One v)"
  by (simp add: value_wf_def)

lemma hm_wf_new: "hm_wf hm_new"
  by (simp add: hm_wf_def hm_new_def)

lemma hm_wf_insert: "hm_wf m \<Longrightarrow> hm_wf (hm_insert m k v)"
  by (simp add: hm_insert_def hm_wf_update)

lemma hm_wf_append: "hm_wf m \<Longrightarrow> hm_wf (hm_append m k v)"
  by (auto simp: hm_append_def intro: hm_wf_update value_wf_append hm_wf_map_of split: option.split)

lemma hm_wf_remove: "hm_wf m \<Longrightarrow> hm_wf (hm_remove lib m k)"
  by (auto simp: hm_remove_def hm_wf_delete split: option.split)

lemma value_set_wf: "value_wf v \<Longrightarrow> \<exists>v'. value_set x v = Return v' \<and> value_wf v'"
  by (cases "(x, v)" rule: value_set.cases) (auto simp: value_wf_def)

lemma value_get_wf: "value_wf v \<Longrightarrow> value_get v = Return (hd (value_list v))"
  by (cases v rule: value_get.cases) (auto simp: value_wf_def)

lemma mset_value_append: "mset (value_list (value_append x v)) = add_mset x (mset (value_list v))"
  by (cases v) auto

lemma hm_values_append:
  "mset (hm_values (hm_append m k v) k) = add_mset v (mset (hm_values m k))"
  by (auto simp: hm_values_def hm_append_def update_conv mset_value_append split: option.split)

lemma hm_values_append_other: "k' \<noteq> k \<Longrightarrow> hm_values (hm_append m k v) k' = hm_values m k'"
  by (auto simp: hm_values_def hm_append_def update_conv split: option.split)

interpretation headers: multimap hm_wf hm_new hm_values hm_append
  by unfold_locales
    (auto simp: hm_wf_new hm_wf_append hm_values_append hm_values_append_other, simp add: hm_values_def hm_new_def)

section \<open>What the iterators visit\<close>

definition ga_items :: "get_all_iter \<Rightarrow> header_value list" where
  "ga_items it =
     (case ga_item it of None \<Rightarrow> [] | Some (One v) \<Rightarrow> [v] | Some (Multi vs) \<Rightarrow> drop (ga_idx it) vs)"

lemma get_all_next_items:
  "fst (get_all_next it) = (if ga_items it = [] then None else Some (hd (ga_items it)))"
  "ga_items (snd (get_all_next it)) = tl (ga_items it)"
  by (auto simp: get_all_next_def ga_items_def hd_drop_conv_nth tl_drop drop_Suc
      split: option.split hvalue.split)

function ga_list :: "get_all_iter \<Rightarrow> header_value list" where
  "ga_list it = (case fst (get_all_next it) of None \<Rightarrow> [] | Some v \<Rightarrow> v # ga_list (snd (get_all_next it)))"
  by pat_completeness auto
termination
  by (relation "measure (\<lambda>it. length (ga_items it))")
     (auto simp: get_all_next_items split: if_splits)

declare ga_list.simps [simp del]

lemma ga_list_items: "ga_list it = ga_items it"
proof (induction it rule: ga_list.induct)
  case (1 it)
  then show ?case
    by (cases "ga_items it") (auto simp: ga_list.simps [of it] get_all_next_items)
qed

definition entry_items :: "header_name \<times> hvalue \<Rightarrow> (header_name \<times> header_value) list" where
  "entry_items e = map (Pair (fst e)) (value_list (snd e))"

definition iter_items :: "header_iter \<Rightarrow> (header_name \<times> header_value) list" where
  "iter_items it =
     (case it_current it of None \<Rightarrow> [] | Some (n, vs) \<Rightarrow> map (Pair n) (drop (it_idx it) vs)) @
     concat (map entry_items (it_iter it))"

text \<open>The index is reset whenever a vector has been visited.\<close>

definition iter_wf :: "header_iter \<Rightarrow> bool" where
  "iter_wf it \<longleftrightarrow> it_current it = None \<longrightarrow> it_idx it = 0"

lemma iter_next_items:
  "iter_wf it \<Longrightarrow>
     fst (iter_next it) = (if iter_items it = [] then None else Some (hd (iter_items it))) \<and>
     iter_items (snd (iter_next it)) = tl (iter_items it) \<and> iter_wf (snd (iter_next it))"
proof (induction it rule: iter_next.induct)
  case (1 it)
  show ?case
  proof (cases "it_current it")
    case None
    show ?thesis
    proof (cases "it_iter it")
      case Nil
      with None "1.prems" show ?thesis by (simp add: iter_next.simps [of it] iter_items_def)
    next
      case (Cons e rest)
      obtain n v where e: "e = (n, v)" by (cases e)
      show ?thesis
      proof (cases v)
        case (One x)
        with Cons None e "1.prems" show ?thesis
          by (simp add: iter_next.simps [of it] iter_items_def entry_items_def iter_wf_def)
      next
        case (Multi vs)
        have "iter_items (it\<lparr>it_iter := rest, it_current := Some (n, vs)\<rparr>) = iter_items it"
          using Cons None e Multi "1.prems" by (simp add: iter_items_def entry_items_def iter_wf_def)
        with Multi Cons None e "1.prems" "1.IH"(1) [OF None Cons e [symmetric] Multi] show ?thesis
          by (simp add: iter_next.simps [of it] iter_wf_def)
      qed
    qed
  next
    case (Some c)
    obtain n vs where c: "c = (n, vs)" by (cases c)
    show ?thesis
    proof (cases "it_idx it < length vs")
      case True
      then have "drop (it_idx it) vs = vs ! it_idx it # drop (Suc (it_idx it)) vs"
        by (simp add: Cons_nth_drop_Suc)
      with True Some c show ?thesis
        by (simp add: iter_next.simps [of it] iter_items_def iter_wf_def)
    next
      case False
      have "iter_items (it\<lparr>it_idx := 0, it_current := None\<rparr>) = iter_items it"
        using False Some c by (simp add: iter_items_def)
      with Some c False "1.IH"(2) [OF Some c [symmetric] False] show ?thesis
        by (simp add: iter_next.simps [of it] iter_wf_def)
    qed
  qed
qed

fun take_items :: "nat \<Rightarrow> header_iter \<Rightarrow> (header_name \<times> header_value) list" where
  "take_items 0 it = []"
| "take_items (Suc k) it =
     (case iter_next it of (None, it') \<Rightarrow> [] | (Some x, it') \<Rightarrow> x # take_items k it')"

lemma take_items_eq: "iter_wf it \<Longrightarrow> take_items k it = take k (iter_items it)"
proof (induction k arbitrary: it)
  case (Suc k)
  obtain x it' where n: "iter_next it = (x, it')" by (cases "iter_next it")
  with iter_next_items [OF Suc.prems] Suc.IH [of it'] show ?case
    by (cases "iter_items it") auto
qed simp

section \<open>Properties\<close>

lemma foldl_append_Multi:
  "map_of m n = Some (Multi vs) \<Longrightarrow>
     hm_values (foldl (\<lambda>m v. hm_append m n v) m ws) n = vs @ ws"
proof (induction ws arbitrary: m vs)
  case (Cons w ws)
  have "map_of (hm_append m n w) n = Some (Multi (vs @ [w]))"
    using Cons.prems by (simp add: hm_append_def update_conv)
  from Cons.IH [OF this] show ?case by simp
qed (simp add: hm_values_def)

text \<open>
  Property C28. Every operation of the header map keeps its keys distinct and its vectors at two
  values or more, so \<open>get\<close> and \<open>get_mut\<close>, which index the vector, never panic.
\<close>

theorem header_map_never_panics:
  assumes "hm_wf m"
  shows "hm_get lib m key \<noteq> Panic \<and> (\<exists>m'. hm_set_first lib m key x = Return m' \<and> hm_wf m') \<and>
    hm_wf (hm_insert m n v) \<and> hm_wf (hm_append m n v) \<and> hm_wf (hm_remove lib m key) \<and> hm_wf (hm_clear m)"
proof -
  have "hm_get lib m key \<noteq> Panic"
    using assms by (auto simp: hm_get_def hm_get2_def value_get_wf dest!: hm_wf_map_of
        split: option.split Option.bind_splits)
  moreover have "\<exists>m'. hm_set_first lib m key x = Return m' \<and> hm_wf m'"
  proof (cases "\<exists>k v. as_name lib key = Some k \<and> map_of m k = Some v")
    case True
    then obtain k v where k: "as_name lib key = Some k" "map_of m k = Some v" by blast
    obtain v' where "value_set x v = Return v'" "value_wf v'"
      using value_set_wf [OF hm_wf_map_of [OF assms k(2)]] by blast
    with k assms show ?thesis by (simp add: hm_set_first_def hm_wf_update)
  qed (use assms in \<open>auto simp: hm_set_first_def split: option.split\<close>)
  moreover have "hm_wf (hm_clear m)" by (simp add: hm_wf_def hm_clear_def)
  ultimately show ?thesis using assms by (simp add: hm_wf_insert hm_wf_append hm_wf_remove)
qed

text \<open>A library for examples: names are lower-cased, every value is readable.\<close>

definition demo_http :: http_lib where
  "demo_http = \<lparr>
     hl_name_from_str = (\<lambda>s. if s = [] then None else Some (to_ascii_lowercase s)),
     hl_name_from_bytes = (\<lambda>s. if s = [] then None else Some (to_ascii_lowercase s)),
     hl_to_str = Some, hl_method_from_bytes = Some, hl_uri_from_str = Some, hl_path_and_query = Some,
     hl_status_from_u16 = (\<lambda>n. if 100 \<le> n \<and> n \<le> 999 then Some n else None),
     hl_canonical_reason = (\<lambda>n. if n = 101 then Some (bstr ''Switching Protocols'') else None),
     hl_parse_request = (\<lambda>_. Ok Partial), hl_parse_response = (\<lambda>_. Ok Partial) \<rparr>"

lemma header_map_never_panics_witness:
  "hm_get demo_http [([1], Multi [[2], [3]])] (ByStr [1]) \<noteq> Panic"
  using header_map_never_panics [of "[([1], Multi [[2], [3]])]" demo_http "ByStr [1]"]
  by (simp add: hm_wf_def value_wf_def)

text \<open>
  Appending headers one after the other loses nothing: for every name the map holds
  exactly the values that were appended under it, with their multiplicities.
\<close>

theorem header_map_collects:
  "mset (hm_values (headers.append_all hm_new kvs) n) = mset (map snd (filter (\<lambda>kv. fst kv = n) kvs))"
  by (rule headers.values_collected)

text \<open>
  The values of one name do not come back in the order in which they were appended:
  the second is in front of the first, the others follow. \<open>get\<close> returns the second.
\<close>

theorem header_append_swaps_first_two:
  "hm_values (foldl (\<lambda>m v. hm_append m n v) hm_new (a # b # cs)) n = b # a # cs \<and>
   hm_get lib (foldl (\<lambda>m v. hm_append m n v) hm_new [a, b]) (ByName n) = Return (Some b)"
proof -
  have "map_of (hm_append (hm_append hm_new n a) n b) n = Some (Multi [b, a])"
    by (simp add: hm_append_def hm_new_def)
  from foldl_append_Multi [OF this, of cs] show ?thesis
    by (simp add: hm_append_def hm_new_def hm_get_def hm_get2_def as_name_def)
qed

text \<open>
  The iterator over all headers yields, for the entries in the order in which the
  hash map visits them, every value of every entry with its name and then stops; an empty
  vector would not end it.
\<close>

theorem header_iter_complete:
  "take_items k (iter_new entries) = take k [(n, v). (n, hv) \<leftarrow> entries, v \<leftarrow> value_list hv]"
proof -
  have "concat (map entry_items entries) = [(n, v). (n, hv) \<leftarrow> entries, v \<leftarrow> value_list hv]"
    by (induction entries) (auto simp: entry_items_def)
  then show ?thesis
    by (simp add: take_items_eq iter_wf_def iter_new_def iter_items_def)
qed

text \<open>
  \<open>get_all\<close> yields all values of the name, in the order of the map, and nothing for a
  name that is absent or a string that is no header name.
\<close>

theorem header_get_all_complete:
  "ga_list (hm_get_all lib m key) = (case as_name lib key of None \<Rightarrow> [] | Some n \<Rightarrow> hm_values m n)"
  by (auto simp: ga_list_items hm_get_all_def ga_items_def hm_get2_def hm_values_def
      split: option.split hvalue.split Option.bind_splits)

end
