(* ===== verification/Message_Head.thy ===== *)
theory Message_Head
  imports Header_Map
begin

text \<open>
  Request and response heads (\<open>message.rs\<close>): their flags, the connection type they stand for, and the
  thread-local pools from which heads are taken and to which they return. A set of bitflags is
  the set of the flags. \<open>Extensions\<close> (\<open>extensions.rs\<close>) is a map from types, named by numbers,
  to the values stored under them.
\<close>

section \<open>Extensions\<close>

type_synonym extensions = "(nat \<times> nat) list"

definition ext_new :: extensions where
  "ext_new = []"

definition ext_insert :: "nat \<Rightarrow> nat \<Rightarrow> extensions \<Rightarrow> extensions" where
  "ext_insert ty val ext = AList.update ty val ext"

definition ext_contains :: "nat \<Rightarrow> extensions \<Rightarrow> bool" where
  "ext_contains ty ext \<longleftrightarrow> map_of ext ty \<noteq> None"

definition ext_get :: "nat \<Rightarrow> extensions \<Rightarrow> nat option" where
  "ext_get ty ext = map_of ext ty"

definition ext_remove :: "nat \<Rightarrow> extensions \<Rightarrow> nat option \<times> extensions" where
  "ext_remove ty ext = (map_of ext ty, AList.delete ty ext)"

definition ext_clear :: "extensions \<Rightarrow> extensions" where
  "ext_clear ext = []"

section \<open>Heads\<close>

datatype head_flag = FlClose | FlKeepAlive | FlUpgrade | FlExpect | FlNoChunking | FlCamelCase

record request_head =
  rq_uri :: bytes
  rq_method :: http_method
  rq_version :: http_version
  rq_headers :: header_map
  rq_extensions :: extensions
  rq_peer_addr :: "nat option"
  rq_flags :: "head_flag set"

record response_head =
  rs_version :: http_version
  rs_status :: status_code
  rs_headers :: header_map
  rs_reason :: "bytes option"
  rs_extensions :: extensions
  rs_flags :: "head_flag set"

definition request_head_default :: request_head where
  "request_head_default = \<lparr>rq_uri = bstr ''/'', rq_method = METHOD_GET, rq_version = HTTP_11,
     rq_headers = hm_new, rq_extensions = ext_new, rq_peer_addr = None, rq_flags = {}\<rparr>"

definition request_head_clear :: "request_head \<Rightarrow> request_head" where
  "request_head_clear h = h\<lparr>rq_flags := {}, rq_headers := hm_clear (rq_headers h),
     rq_extensions := ext_clear (rq_extensions h)\<rparr>"

definition response_head_new :: "status_code \<Rightarrow> response_head" where
  "response_head_new status = \<lparr>rs_version = HTTP_11, rs_status = status, rs_headers = hm_new,
     rs_reason = None, rs_extensions = ext_new, rs_flags = {}\<rparr>"

section \<open>Flags and connection types\<close>

fun ctype_flag :: "connection_type \<Rightarrow> head_flag" where
  "ctype_flag CtClose = FlClose"
| "ctype_flag CtKeepAlive = FlKeepAlive"
| "ctype_flag CtUpgrade = FlUpgrade"

definition rq_set_connection_type :: "connection_type \<Rightarrow> request_head \<Rightarrow> request_head" where
  "rq_set_connection_type ct h = h\<lparr>rq_flags := insert (ctype_flag ct) (rq_flags h)\<rparr>"

definition rq_connection_type :: "request_head \<Rightarrow> connection_type" where
  "rq_connection_type h =
     (if FlClose \<in> rq_flags h then CtClose
      else if FlKeepAlive \<in> rq_flags h then CtKeepAlive
      else if FlUpgrade \<in> rq_flags h then CtUpgrade
      else if rq_version h < HTTP_11 then CtClose
      else CtKeepAlive)"

definition rq_camel_case_headers :: "request_head \<Rightarrow> bool" where
  "rq_camel_case_headers h \<longleftrightarrow> FlCamelCase \<in> rq_flags h"

definition rq_set_camel_case_headers :: "bool \<Rightarrow> request_head \<Rightarrow> request_head" where
  "rq_set_camel_case_headers v h =
     h\<lparr>rq_flags := if v then insert FlCamelCase (rq_flags h) else rq_flags h - {FlCamelCase}\<rparr>"

definition rq_upgrade :: "http_lib \<Rightarrow> request_head \<Rightarrow> bool exec" where
  "rq_upgrade lib h =
     (case hm_get lib (rq_headers h) (ByName CONNECTION) of
        Panic \<Rightarrow> Panic
      | Return None \<Rightarrow> Return False
      | Return (Some hdr) \<Rightarrow>
          (case hl_to_str lib hdr of
             Some s \<Rightarrow> Return (contains_str (to_ascii_lowercase s) (bstr ''upgrade''))
           | None \<Rightarrow> Return False))"

definition rq_chunked :: "request_head \<Rightarrow> bool" where
  "rq_chunked h \<longleftrightarrow> FlNoChunking \<notin> rq_flags h"

definition rq_no_chunking :: "bool \<Rightarrow> request_head \<Rightarrow> request_head" where
  "rq_no_chunking v h =
     h\<lparr>rq_flags := if v then insert FlNoChunking (rq_flags h) else rq_flags h - {FlNoChunking}\<rparr>"

definition rq_expect :: "request_head \<Rightarrow> bool" where
  "rq_expect h \<longleftrightarrow> FlExpect \<in> rq_flags h"

definition rq_set_expect :: "request_head \<Rightarrow> request_head" where
  "rq_set_expect h = h\<lparr>rq_flags := insert FlExpect (rq_flags h)\<rparr>"

text \<open>A request head to send, owned or shared with extra headers (\<open>RequestHeadType\<close>).\<close>

datatype request_head_type = Owned request_head | Shared request_head "header_map option"

fun rht_extra_headers :: "request_head_type \<Rightarrow> header_map option" where
  "rht_extra_headers (Owned h) = None"
| "rht_extra_headers (Shared h headers) = headers"

fun rht_head :: "request_head_type \<Rightarrow> request_head" where
  "rht_head (Owned h) = h"
| "rht_head (Shared h _) = h"

definition rs_set_connection_type :: "connection_type \<Rightarrow> response_head \<Rightarrow> response_head" where
  "rs_set_connection_type ct h = h\<lparr>rs_flags := insert (ctype_flag ct) (rs_flags h)\<rparr>"

definition rs_connection_type :: "response_head \<Rightarrow> connection_type" where
  "rs_connection_type h =
     (if FlClose \<in> rs_flags h then CtClose
      else if FlKeepAlive \<in> rs_flags h then CtKeepAlive
      else if FlUpgrade \<in> rs_flags h then CtUpgrade
      else if rs_version h < HTTP_11 then CtClose
      else CtKeepAlive)"

definition rs_keep_alive :: "response_head \<Rightarrow> bool" where
  "rs_keep_alive h \<longleftrightarrow> rs_connection_type h = CtKeepAlive"

definition rs_upgrade :: "response_head \<Rightarrow> bool" where
  "rs_upgrade h \<longleftrightarrow> rs_connection_type h = CtUpgrade"

definition rs_reason_str :: "http_lib \<Rightarrow> response_head \<Rightarrow> bytes" where
  "rs_reason_str lib h =
     (case rs_reason h of
        Some reason \<Rightarrow> reason
      | None \<Rightarrow>
          (case hl_canonical_reason lib (rs_status h) of
             Some r \<Rightarrow> r | None \<Rightarrow> bstr ''<unknown status code>''))"

definition rs_ctype :: "response_head \<Rightarrow> connection_type option" where
  "rs_ctype h =
     (if FlClose \<in> rs_flags h then Some CtClose
      else if FlKeepAlive \<in> rs_flags h then Some CtKeepAlive
      else if FlUpgrade \<in> rs_flags h then Some CtUpgrade
      else None)"

definition rs_chunked :: "response_head \<Rightarrow> bool" where
  "rs_chunked h \<longleftrightarrow> FlNoChunking \<notin> rs_flags h"

definition rs_no_chunking :: "bool \<Rightarrow> response_head \<Rightarrow> response_head" where
  "rs_no_chunking v h =
     h\<lparr>rs_flags := if v then insert FlNoChunking (rs_flags h) else rs_flags h - {FlNoChunking}\<rparr>"

section \<open>The pools\<close>

text \<open>
  A pool holds at most 128 heads. A head is released when its last owner drops it, so a pooled
  head has no other owner and \<open>Rc::get_mut\<close> succeeds on it.
\<close>

definition POOL_LIMIT :: nat where
  "POOL_LIMIT = 128"

type_synonym request_pool = "request_head list"
type_synonym response_pool = "response_head list"

definition pool_get_message :: "request_pool \<Rightarrow> request_head \<times> request_pool" where
  "pool_get_message pool =
     (if pool = [] then (request_head_default, pool)
      else (request_head_clear (last pool), butlast pool))"

definition pool_release :: "request_head \<Rightarrow> request_pool \<Rightarrow> request_pool" where
  "pool_release msg pool = (if length pool < POOL_LIMIT then pool @ [msg] else pool)"

definition rpool_get_message :: "status_code \<Rightarrow> response_pool \<Rightarrow> response_head \<times> response_pool" where
  "rpool_get_message status pool =
     (if pool = [] then (response_head_new status, pool)
      else ((last pool)\<lparr>rs_reason := None, rs_status := status,
              rs_headers := hm_clear (rs_headers (last pool)), rs_flags := {}\<rparr>, butlast pool))"

definition rpool_release :: "response_head \<Rightarrow> response_pool \<Rightarrow> response_pool" where
  "rpool_release msg pool =
     (if length pool < POOL_LIMIT
      then pool @ [msg\<lparr>rs_extensions := ext_clear (rs_extensions msg)\<rparr>] else pool)"

section \<open>What a pooled head still knows\<close>

text \<open>The pools that occur: built by releases and emptied by requests for heads.\<close>

inductive rpool_reachable :: "response_pool \<Rightarrow> bool" where
  start: "rpool_reachable []"
| get: "rpool_reachable pool \<Longrightarrow> rpool_reachable (snd (rpool_get_message status pool))"
| release: "rpool_reachable pool \<Longrightarrow> rpool_reachable (rpool_release msg pool)"

lemma rpool_reachable_inv:
  "rpool_reachable pool \<Longrightarrow> length pool \<le> POOL_LIMIT \<and> (\<forall>h \<in> set pool. rs_extensions h = ext_new)"
proof (induction rule: rpool_reachable.induct)
  case (get pool status)
  then show ?case by (auto simp: rpool_get_message_def dest: in_set_butlastD)
next
  case (release pool msg)
  then show ?case by (auto simp: rpool_release_def ext_clear_def ext_new_def)
qed auto

text \<open>
  No data of an earlier response reaches a new one through the pool: whatever was
  released before, a response head that is requested carries the requested status and no
  header, reason, flag or extension of its predecessor. Only the version is inherited.
\<close>

theorem response_pool_clean:
  assumes "rpool_reachable pool"
  shows "(fst (rpool_get_message status pool))\<lparr>rs_version := HTTP_11\<rparr> = response_head_new status \<and>
    length (snd (rpool_get_message status pool)) \<le> 128"
proof (cases "pool = []")
  case False
  then have "last pool \<in> set pool" by simp
  with rpool_reachable_inv [OF assms] False show ?thesis
    by (cases "last pool") (auto simp: rpool_get_message_def response_head_new_def hm_clear_def hm_new_def POOL_LIMIT_def)
qed (simp add: rpool_get_message_def response_head_new_def)

lemma response_pool_clean_witness:
  "(fst (rpool_get_message 200 (rpool_release ((response_head_new 500)\<lparr>rs_headers := [([1], One [2])], rs_version := HTTP_10\<rparr>) [])))
     \<lparr>rs_version := HTTP_11\<rparr> = response_head_new 200"
  using response_pool_clean [OF rpool_reachable.release [OF rpool_reachable.start]] by blast

text \<open>
  A request head from the pool has no header, flag or extension of the request that
  used it before; method, target, version and peer address are those of that request until
  the decoder and the dispatcher write them.
\<close>

theorem request_pool_clean:
  "(fst (pool_get_message pool))\<lparr>rq_uri := u, rq_method := m, rq_version := v, rq_peer_addr := a\<rparr> =
     request_head_default\<lparr>rq_uri := u, rq_method := m, rq_version := v, rq_peer_addr := a\<rparr>"
  by (cases "last pool")
     (auto simp: pool_get_message_def request_head_clear_def request_head_default_def hm_clear_def hm_new_def
        ext_clear_def ext_new_def)

text \<open>
  Setting the connection type only ever adds a flag, and closing has priority: once
  a response was set to close, no later setting makes it keep the connection open, and a
  response set to upgrade after keep-alive stays keep-alive.
\<close>

theorem connection_type_sticky:
  "rs_connection_type (foldl (\<lambda>h ct. rs_set_connection_type ct h) (rs_set_connection_type CtClose h) cts) = CtClose \<and>
   rs_connection_type (rs_set_connection_type CtUpgrade (rs_set_connection_type CtKeepAlive (response_head_new s))) =
     CtKeepAlive"
proof -
  have "FlClose \<in> rs_flags h \<Longrightarrow> FlClose \<in> rs_flags (foldl (\<lambda>h ct. rs_set_connection_type ct h) h cts)" for h
    by (induction cts arbitrary: h) (auto simp: rs_set_connection_type_def)
  then show ?thesis
    by (simp add: rs_connection_type_def rs_set_connection_type_def response_head_new_def)
qed

end
