(* ===== verification/H1_Payload_Decoder.thy ===== *)
theory H1_Payload_Decoder
  imports Codec_Interface
begin

text \<open>
  The body decoders of HTTP/1 (\<open>h1/decoder.rs\<close>, from \<open>PayloadItem\<close> on): a body of known
  length, a chunked body, and a body that ends with the connection. The chunked decoder is a
  state machine that reads bytes one at a time and body data in slices. Its size counter is
  a 64-bit word with the arithmetic of a release build, which wraps.
\<close>

section \<open>Data\<close>

datatype payload_item = ItemChunk bytes | ItemEof

datatype chunked_state =
    ChSize | ChSizeLws | ChExtension | ChSizeLf | ChBody | ChBodyCr | ChBodyLf | ChEndCr | ChEndLf | ChEnd

datatype payload_kind = KLength u64 | KChunked chunked_state u64 | KEof

record payload_decoder =
  pd_kind :: payload_kind

definition pd_length :: "u64 \<Rightarrow> payload_decoder" where
  "pd_length x = \<lparr>pd_kind = KLength x\<rparr>"

definition pd_chunked :: payload_decoder where
  "pd_chunked = \<lparr>pd_kind = KChunked ChSize 0\<rparr>"

definition pd_eof :: payload_decoder where
  "pd_eof = \<lparr>pd_kind = KEof\<rparr>"

section \<open>The chunked state machine\<close>

text \<open>
  Each reader returns the poll result and the buffer; \<open>Pending\<close> when the buffer is empty (the
  macro \<open>byte!\<close>).
\<close>

type_synonym chunked_poll = "(chunked_state, io_error) result poll"

definition invalid :: "string \<Rightarrow> chunked_poll" where
  "invalid msg = Ready (Err (IoError InvalidInput msg))"

fun read_size :: "bytes \<Rightarrow> u64 \<Rightarrow> chunked_poll \<times> bytes \<times> u64" where
  "read_size [] sz = (Pending, [], sz)"
| "read_size (b # rdr) sz =
     (if 0x30 \<le> b \<and> b \<le> 0x39 then (Ready (Ok ChSize), rdr, sz * 16 + ucast (b - 0x30))
      else if 0x61 \<le> b \<and> b \<le> 0x66 then (Ready (Ok ChSize), rdr, sz * 16 + ucast (b + 10 - 0x61))
      else if 0x41 \<le> b \<and> b \<le> 0x46 then (Ready (Ok ChSize), rdr, sz * 16 + ucast (b + 10 - 0x41))
      else if b = 0x09 \<or> b = 0x20 then (Ready (Ok ChSizeLws), rdr, sz)
      else if b = 0x3B then (Ready (Ok ChExtension), rdr, sz)
      else if b = 0x0D then (Ready (Ok ChSizeLf), rdr, sz)
      else (invalid ''Invalid chunk size line: Invalid Size'', rdr, sz))"

fun read_size_lws :: "bytes \<Rightarrow> chunked_poll \<times> bytes" where
  "read_size_lws [] = (Pending, [])"
| "read_size_lws (b # rdr) =
     (if b = 0x09 \<or> b = 0x20 then (Ready (Ok ChSizeLws), rdr)
      else if b = 0x3B then (Ready (Ok ChExtension), rdr)
      else if b = 0x0D then (Ready (Ok ChSizeLf), rdr)
      else (invalid ''Invalid chunk size linear white space'', rdr))"

fun read_extension :: "bytes \<Rightarrow> chunked_poll \<times> bytes" where
  "read_extension [] = (Pending, [])"
| "read_extension (b # rdr) =
     (if b = 0x0D then (Ready (Ok ChSizeLf), rdr) else (Ready (Ok ChExtension), rdr))"

fun read_size_lf :: "bytes \<Rightarrow> u64 \<Rightarrow> chunked_poll \<times> bytes" where
  "read_size_lf [] sz = (Pending, [])"
| "read_size_lf (b # rdr) sz =
     (if b = 0x0A \<and> sz > 0 then (Ready (Ok ChBody), rdr)
      else if b = 0x0A \<and> sz = 0 then (Ready (Ok ChEndCr), rdr)
      else (invalid ''Invalid chunk size LF'', rdr))"

definition read_body :: "bytes \<Rightarrow> u64 \<Rightarrow> chunked_poll \<times> bytes \<times> u64 \<times> bytes option" where
  "read_body rdr rem =
     (let len = length rdr
      in if len = 0 then (Ready (Ok ChBody), rdr, rem, None)
         else
           (let (slice, rdr', rem') =
              (if unat rem > len then (rdr, [], rem - of_nat len)
               else (take (unat rem) rdr, drop (unat rem) rdr, 0))
            in if rem' > 0 then (Ready (Ok ChBody), rdr', rem', Some slice)
               else (Ready (Ok ChBodyCr), rdr', rem', Some slice)))"

fun read_body_cr :: "bytes \<Rightarrow> chunked_poll \<times> bytes" where
  "read_body_cr [] = (Pending, [])"
| "read_body_cr (b # rdr) =
     (if b = 0x0D then (Ready (Ok ChBodyLf), rdr) else (invalid ''Invalid chunk body CR'', rdr))"

fun read_body_lf :: "bytes \<Rightarrow> chunked_poll \<times> bytes" where
  "read_body_lf [] = (Pending, [])"
| "read_body_lf (b # rdr) =
     (if b = 0x0A then (Ready (Ok ChSize), rdr) else (invalid ''Invalid chunk body LF'', rdr))"

fun read_end_cr :: "bytes \<Rightarrow> chunked_poll \<times> bytes" where
  "read_end_cr [] = (Pending, [])"
| "read_end_cr (b # rdr) =
     (if b = 0x0D then (Ready (Ok ChEndLf), rdr) else (invalid ''Invalid chunk end CR'', rdr))"

fun read_end_lf :: "bytes \<Rightarrow> chunked_poll \<times> bytes" where
  "read_end_lf [] = (Pending, [])"
| "read_end_lf (b # rdr) =
     (if b = 0x0A then (Ready (Ok ChEnd), rdr) else (invalid ''Invalid chunk end LF'', rdr))"

definition chunked_step ::
  "chunked_state \<Rightarrow> bytes \<Rightarrow> u64 \<Rightarrow> chunked_poll \<times> bytes \<times> u64 \<times> bytes option" where
  "chunked_step st body sz =
     (let keep = (\<lambda>(r, rdr). (r, rdr, sz, None))
      in case st of
           ChSize \<Rightarrow> (let (r, rdr, sz') = read_size body sz in (r, rdr, sz', None))
         | ChSizeLws \<Rightarrow> keep (read_size_lws body)
         | ChExtension \<Rightarrow> keep (read_extension body)
         | ChSizeLf \<Rightarrow> keep (read_size_lf body sz)
         | ChBody \<Rightarrow> read_body body sz
         | ChBodyCr \<Rightarrow> keep (read_body_cr body)
         | ChBodyLf \<Rightarrow> keep (read_body_lf body)
         | ChEndCr \<Rightarrow> keep (read_end_cr body)
         | ChEndLf \<Rightarrow> keep (read_end_lf body)
         | ChEnd \<Rightarrow> (Ready (Ok ChEnd), body, sz, None))"

lemma chunked_step_length:
  assumes "chunked_step st src sz = (Ready (Ok st'), src', sz', None)" and "src' \<noteq> []" and "st' \<noteq> ChEnd"
  shows "length src' < length src"
  using assms
  by (cases st; cases src)
     (auto simp: chunked_step_def read_body_def invalid_def Let_def split: if_splits prod.splits)

function decode_chunked ::
  "chunked_state \<Rightarrow> u64 \<Rightarrow> bytes \<Rightarrow>
   (payload_item option, io_error) result \<times> (chunked_state \<times> u64) \<times> bytes" where
  "decode_chunked st sz src =
     (case chunked_step st src sz of
        (Pending, src', sz', buf) \<Rightarrow> (Ok None, (st, sz'), src')
      | (Ready (Err e), src', sz', buf) \<Rightarrow> (Err e, (st, sz'), src')
      | (Ready (Ok st'), src', sz', buf) \<Rightarrow>
          if st' = ChEnd then (Ok (Some ItemEof), (st', sz'), src')
          else (case buf of
                  Some b \<Rightarrow> (Ok (Some (ItemChunk b)), (st', sz'), src')
                | None \<Rightarrow> if src' = [] then (Ok None, (st', sz'), src')
                          else decode_chunked st' sz' src'))"
  by pat_completeness auto
termination
  by (relation "measure (\<lambda>(st, sz, src). length src)") (auto dest: chunked_step_length [OF sym])

declare decode_chunked.simps [simp del]

definition payload_decode ::
  "payload_decoder \<Rightarrow> bytes \<Rightarrow> (payload_item option, io_error) result \<times> payload_decoder \<times> bytes" where
  "payload_decode dec src =
     (case pd_kind dec of
        KLength remaining \<Rightarrow>
          if remaining = 0 then (Ok (Some ItemEof), dec, src)
          else if src = [] then (Ok None, dec, src)
          else
            (let len = length src
             in if unat remaining > len
                then (Ok (Some (ItemChunk src)), \<lparr>pd_kind = KLength (remaining - of_nat len)\<rparr>, [])
                else (Ok (Some (ItemChunk (take (unat remaining) src))),
                      \<lparr>pd_kind = KLength 0\<rparr>, drop (unat remaining) src))
      | KChunked st sz \<Rightarrow>
          (let (r, (st', sz'), src') = decode_chunked st sz src
           in (r, \<lparr>pd_kind = KChunked st' sz'\<rparr>, src'))
      | KEof \<Rightarrow>
          if src = [] then (Ok None, dec, src)
          else (Ok (Some (ItemChunk src)), dec, []))"

section \<open>The decoder contract\<close>

lemma chunked_step_suffix: "chunked_step st src sz = (r, src', sz', buf) \<Longrightarrow> suffix src' src"
  by (cases st; cases src)
     (auto simp: chunked_step_def read_body_def Let_def suffix_drop suffix_ConsI
           simp del: drop_Cons' split: if_splits prod.splits)

lemma chunked_step_None:
  assumes "chunked_step st src sz = (Ready (Ok st'), src', sz', None)" and "st' \<noteq> ChEnd"
    and "src \<noteq> []"
  shows "chunked_step st (src @ rest) sz = (Ready (Ok st'), src' @ rest, sz', None)"
  using assms
  by (cases st; cases src)
     (auto simp: chunked_step_def read_body_def invalid_def Let_def split: if_splits prod.splits)

lemma chunked_step_Pending:
  "chunked_step st src sz = (Pending, src', sz', buf) \<Longrightarrow> src = [] \<and> src' = [] \<and> sz' = sz"
  by (cases st; cases src)
     (auto simp: chunked_step_def read_body_def invalid_def Let_def split: if_splits prod.splits)

lemma chunked_step_Nil:
  "chunked_step st [] sz = (Pending, [], sz, None) \<or>
   (st = ChBody \<or> st = ChEnd) \<and> chunked_step st [] sz = (Ready (Ok st), [], sz, None)"
  by (cases st) (auto simp: chunked_step_def read_body_def)

lemma decode_chunked_Nil:
  "st \<noteq> ChEnd \<Longrightarrow> decode_chunked st sz [] = (Ok None, (st, sz), [])"
  using chunked_step_Nil [of st sz] by (auto simp: decode_chunked.simps [of st sz "[]"])

lemma decode_chunked_suffix: "decode_chunked st sz src = (r, q, src') \<Longrightarrow> suffix src' src"
proof (induction st sz src rule: decode_chunked.induct)
  case (1 st sz src)
  obtain p src1 sz1 buf where s: "chunked_step st src sz = (p, src1, sz1, buf)"
    by (cases "chunked_step st src sz")
  from s have suf: "suffix src1 src" by (rule chunked_step_suffix)
  show ?case
  proof (cases "\<exists>st1. p = Ready (Ok st1) \<and> st1 \<noteq> ChEnd \<and> buf = None \<and> src1 \<noteq> []")
    case True
    with "1.prems" "1.IH" s have "suffix src' src1"
      by (auto simp: decode_chunked.simps [of st sz src])
    with suf show ?thesis by (rule suffix_order.trans [rotated])
  next
    case False
    with "1.prems" s suf show ?thesis
      by (auto simp: decode_chunked.simps [of st sz src]
          split: poll.splits result.splits option.splits if_splits)
  qed
qed

lemma decode_chunked_resume:
  "decode_chunked st sz src = (Ok None, (st', sz'), src') \<Longrightarrow>
     decode_chunked st' sz' (src' @ rest) = decode_chunked st sz (src @ rest)"
proof (induction st sz src rule: decode_chunked.induct)
  case (1 st sz src)
  obtain p src1 sz1 buf where s: "chunked_step st src sz = (p, src1, sz1, buf)"
    by (cases "chunked_step st src sz")
  show ?case
  proof (cases p)
    case Pending
    with "1.prems" s chunked_step_Pending [OF s [unfolded Pending]] show ?thesis
      by (auto simp: decode_chunked.simps [of st sz "[]"])
  next
    case (Ready r)
    with "1.prems" s obtain st1 where r: "r = Ok st1" "st1 \<noteq> ChEnd" "buf = None"
      by (auto simp: decode_chunked.simps [of st sz src] split: result.splits if_splits option.splits)
    show ?thesis
    proof (cases "src = []")
      case True
      with s Ready r have "st1 = st" "src1 = []" "sz1 = sz" using chunked_step_Nil [of st sz] by auto
      with "1.prems" s Ready r True show ?thesis by (auto simp: decode_chunked.simps [of st sz "[]"])
    next
      case False
      have step: "chunked_step st (src @ rest) sz = (Ready (Ok st1), src1 @ rest, sz1, None)"
        using s Ready r False by (intro chunked_step_None) auto
      have go: "decode_chunked st sz (src @ rest) = decode_chunked st1 sz1 (src1 @ rest)"
        using r(2) decode_chunked_Nil [of st1 sz1]
        by (auto simp: decode_chunked.simps [of st sz "src @ rest"] step)
      show ?thesis
      proof (cases "src1 = []")
        case True
        with "1.prems" s Ready r go show ?thesis by (auto simp: decode_chunked.simps [of st sz src])
      next
        case nonempty: False
        with "1.prems" s Ready r have "decode_chunked st1 sz1 src1 = (Ok None, (st', sz'), src')"
          by (auto simp: decode_chunked.simps [of st sz src])
        with "1.IH" s Ready r nonempty go show ?thesis by auto
      qed
    qed
  qed
qed

lemma payload_decode_resume:
  "payload_decode dec src = (Ok None, dec', src') \<Longrightarrow>
     payload_decode dec' (src' @ rest) = payload_decode dec (src @ rest)"
proof (cases "pd_kind dec")
  case (KChunked st sz)
  assume d: "payload_decode dec src = (Ok None, dec', src')"
  with KChunked obtain st' sz' where "decode_chunked st sz src = (Ok None, (st', sz'), src')"
    "dec' = \<lparr>pd_kind = KChunked st' sz'\<rparr>"
    by (auto simp: payload_decode_def split: prod.splits)
  moreover from this(1) have "decode_chunked st' sz' (src' @ rest) = decode_chunked st sz (src @ rest)"
    by (rule decode_chunked_resume)
  ultimately show ?thesis using KChunked by (simp add: payload_decode_def)
qed (auto simp: payload_decode_def Let_def split: if_splits)

lemma payload_decode_suffix: "payload_decode dec src = (r, dec', src') \<Longrightarrow> suffix src' src"
  by (cases "pd_kind dec")
     (auto simp: payload_decode_def Let_def suffix_drop split: if_splits prod.splits
        dest: decode_chunked_suffix)

interpretation payload: stream_decoder payload_decode
  by unfold_locales (auto dest: payload_decode_resume payload_decode_suffix)

section \<open>One byte at a time\<close>

text \<open>
  The steps of the decoder on single bytes: the next state and size with the data the byte contributes, the end of the body, or an
  error. Runs over them have no buffers and no slices of data, so the lemmas below are about them; what the format is, is the grammar at the end.
\<close>

datatype byte_result = Go chunked_state u64 bytes | Finished | Failed io_error

fun byte_step :: "chunked_state \<Rightarrow> u64 \<Rightarrow> byte \<Rightarrow> byte_result" where
  "byte_step ChBody sz b =
     (if sz = 1 then Go ChBodyCr 0 [b] else Go ChBody (sz - 1) [b])"
| "byte_step st sz b =
     (case chunked_step st [b] sz of
        (Ready (Ok st'), _, sz', _) \<Rightarrow> if st' = ChEnd then Finished else Go st' sz' []
      | (Ready (Err e), _, _, _) \<Rightarrow> Failed e
      | (Pending, _, _, _) \<Rightarrow> Go st sz [])"

datatype body_end = NeedMore chunked_state u64 | AtEnd bytes | Broken io_error bytes

fun body_run :: "chunked_state \<Rightarrow> u64 \<Rightarrow> bytes \<Rightarrow> bytes \<times> body_end" where
  "body_run st sz [] = ([], NeedMore st sz)"
| "body_run st sz (b # bs) =
     (case byte_step st sz b of
        Failed e \<Rightarrow> ([], Broken e bs)
      | Finished \<Rightarrow> ([], AtEnd bs)
      | Go st' sz' out \<Rightarrow> (let (d, r) = body_run st' sz' bs in (out @ d, r)))"

lemma body_run_append:
  "body_run st sz xs = (d, NeedMore st' sz') \<Longrightarrow>
   body_run st sz (xs @ ys) = (let (d', r) = body_run st' sz' ys in (d @ d', r))"
proof (induction xs arbitrary: st sz d)
  case (Cons b bs)
  then show ?case by (cases "byte_step st sz b") (auto split: prod.splits)
qed simp

text \<open>In the body state the size is positive, which the decoder maintains.\<close>

definition chunk_inv :: "chunked_state \<Rightarrow> u64 \<Rightarrow> bool" where
  "chunk_inv st sz \<longleftrightarrow> st \<noteq> ChEnd \<and> (st \<noteq> ChBody \<or> sz \<noteq> 0)"

lemma byte_step_inv: "chunk_inv st sz \<Longrightarrow> byte_step st sz b = Go st' sz' out \<Longrightarrow> chunk_inv st' sz'"
  by (cases st) (auto simp: chunk_inv_def chunked_step_def invalid_def word_neq_0_conv [symmetric] split: if_splits)

lemma unat_eq_zero: "unat (w :: u64) = 0 \<longleftrightarrow> w = 0"
  by (simp add: word_unat_eq_iff)

lemma unat_eq_one: "unat (w :: u64) = Suc 0 \<longleftrightarrow> w = 1" "Suc 0 = unat w \<longleftrightarrow> w = 1"
  by (auto simp: word_unat_eq_iff)

text \<open>Body data taken in one slice.\<close>

lemma body_run_slice:
  assumes "n \<le> unat sz" and "n \<le> length src" and "n \<noteq> 0"
  shows "body_run ChBody sz src =
     (let (d, r) = body_run (if n = unat sz then ChBodyCr else ChBody) (sz - of_nat n) (drop n src)
      in (take n src @ d, r))"
  using assms
proof (induction n arbitrary: sz src)
  case (Suc n)
  obtain b bs where src: "src = b # bs" using Suc.prems by (cases src) auto
  have pos: "sz \<noteq> 0" using Suc.prems by auto
  then have dec: "unat (sz - 1) = unat sz - 1" by (simp add: unat_minus_one)
  show ?case
  proof (cases "n = 0")
    case True
    then show ?thesis
      by (cases "sz = 1") (auto simp: src unat_eq_one Let_def split: prod.split)
  next
    case False
    with Suc.prems have "sz \<noteq> 1" by auto
    moreover have "body_run ChBody (sz - 1) bs =
        (let (d, r) = body_run (if n = unat (sz - 1) then ChBodyCr else ChBody)
            (sz - 1 - of_nat n) (drop n bs) in (take n bs @ d, r))"
      using Suc.prems dec src False by (intro Suc.IH) auto
    moreover have "n = unat (sz - 1) \<longleftrightarrow> Suc n = unat sz" using dec pos Suc.prems by auto
    ultimately show ?thesis by (simp add: src algebra_simps Let_def split: prod.splits)
  qed
qed simp

section \<open>Draining a buffer\<close>

text \<open>
  What the caller does with a decoder: take items until the body ends, an error occurs or more
  input is needed (\<open>poll_request\<close> of the dispatcher, \<open>PlStream\<close> of the client). The result is the
  data with the way it ended.
\<close>

datatype drain_end = DrainMore payload_decoder bytes | DrainEof bytes | DrainErr io_error bytes

definition pd_rank :: "payload_decoder \<Rightarrow> nat" where
  "pd_rank dec = (case pd_kind dec of KChunked st sz \<Rightarrow> if st = ChBody then 1 else 0 | _ \<Rightarrow> 0)"

lemma chunked_step_Some:
  assumes "chunked_step st src sz = (Ready (Ok st'), src', sz', Some b)"
  shows "st = ChBody \<and> src \<noteq> [] \<and>
    (let n = min (unat sz) (length src)
     in b = take n src \<and> src' = drop n src \<and> sz' = sz - of_nat n \<and>
        st' = (if n = unat sz then ChBodyCr else ChBody))"
proof -
  have st: "st = ChBody"
    using assms by (cases st; cases src)
      (auto simp: chunked_step_def invalid_def Let_def split: if_splits prod.splits)
  have "sz = of_nat (length src) \<Longrightarrow> unat sz \<le> length src"
    by (simp add: unat_of_nat)
  then have len: "\<not> unat sz \<le> length src \<Longrightarrow> 0 < sz - of_nat (length src)"
    by (auto simp: word_neq_0_conv [symmetric])
  show ?thesis
    using assms st len
    by (auto simp: chunked_step_def read_body_def Let_def min_def split: if_splits)
qed

lemma decode_chunked_measure:
  "decode_chunked st sz src = (Ok (Some (ItemChunk b)), (st', sz'), src') \<Longrightarrow>
     2 * length src' + (if st' = ChBody then 1 else 0) < 2 * length src + (if st = ChBody then 1 else 0)"
proof (induction st sz src rule: decode_chunked.induct)
  case (1 st sz src)
  obtain p src1 sz1 buf where s: "chunked_step st src sz = (p, src1, sz1, buf)"
    by (cases "chunked_step st src sz")
  from "1.prems" s obtain st1 where p: "p = Ready (Ok st1)" "st1 \<noteq> ChEnd"
    by (auto simp: decode_chunked.simps [of st sz src] split: poll.splits result.splits if_splits)
  show ?case
  proof (cases buf)
    case None
    with "1.prems" s p have ne: "src1 \<noteq> []"
      by (auto simp: decode_chunked.simps [of st sz src] split: if_splits)
    with "1.prems" "1.IH" s p None
    have "2 * length src' + (if st' = ChBody then 1 else 0) < 2 * length src1 + (if st1 = ChBody then 1 else 0)"
      by (auto simp: decode_chunked.simps [of st sz src])
    moreover have "length src1 < length src" using chunked_step_length s p None ne by blast
    ultimately show ?thesis by (auto split: if_splits)
  next
    case (Some d)
    then have out: "st' = st1" "src' = src1" "d = b"
      using "1.prems" s p by (auto simp: decode_chunked.simps [of st sz src])
    from chunked_step_Some [of st src sz st1 src1 sz1 d] s p Some show ?thesis
      by (cases src) (auto simp: out Let_def min_def split: if_splits)
  qed
qed

lemma payload_decode_measure:
  "payload_decode dec src = (Ok (Some (ItemChunk b)), dec', src') \<Longrightarrow>
     2 * length src' + pd_rank dec' < 2 * length src + pd_rank dec"
  by (cases "pd_kind dec")
     (auto simp: payload_decode_def pd_rank_def Let_def split: if_splits prod.splits
        intro!: diff_less dest: decode_chunked_measure simp flip: unat_gt_0)

function drain :: "payload_decoder \<Rightarrow> bytes \<Rightarrow> bytes \<times> drain_end" where
  "drain dec src =
     (case payload_decode dec src of
        (Ok None, dec', src') \<Rightarrow> ([], DrainMore dec' src')
      | (Ok (Some ItemEof), dec', src') \<Rightarrow> ([], DrainEof src')
      | (Ok (Some (ItemChunk b)), dec', src') \<Rightarrow> (let (d, e) = drain dec' src' in (b @ d, e))
      | (Err e, dec', src') \<Rightarrow> ([], DrainErr e src'))"
  by pat_completeness auto
termination
  by (relation "measure (\<lambda>(dec, src). 2 * length src + pd_rank dec)")
     (auto dest: payload_decode_measure [OF sym])

declare drain.simps [simp del]

text \<open>One call of the decoder against the reading of one byte at a time.\<close>

fun refines_call ::
  "(payload_item option, io_error) result \<Rightarrow> chunked_state \<Rightarrow> u64 \<Rightarrow> bytes \<Rightarrow> bytes \<times> body_end \<Rightarrow> bool" where
  "refines_call (Ok None) st' sz' src' run \<longleftrightarrow> src' = [] \<and> chunk_inv st' sz' \<and> run = ([], NeedMore st' sz')"
| "refines_call (Ok (Some ItemEof)) st' sz' src' run \<longleftrightarrow> run = ([], AtEnd src')"
| "refines_call (Ok (Some (ItemChunk b))) st' sz' src' run \<longleftrightarrow>
     chunk_inv st' sz' \<and> run = (let (d, r) = body_run st' sz' src' in (b @ d, r))"
| "refines_call (Err e) st' sz' src' run \<longleftrightarrow> run = ([], Broken e src')"

lemma chunked_step_body:
  "src \<noteq> [] \<Longrightarrow> \<exists>st1 src1 sz1 d. chunked_step ChBody src sz = (Ready (Ok st1), src1, sz1, Some d)"
  by (simp add: chunked_step_def read_body_def Let_def)

lemma chunked_step_single:
  assumes "st \<noteq> ChBody" and "st \<noteq> ChEnd"
  shows "\<exists>p sz1. chunked_step st (b # bs) sz = (p, bs, sz1, None) \<and>
           chunked_step st [b] sz = (p, [], sz1, None) \<and> p \<noteq> Pending"
  using assms by (cases st) (simp_all add: chunked_step_def invalid_def)

lemma byte_step_single:
  "st \<noteq> ChBody \<Longrightarrow> byte_step st sz b =
     (case chunked_step st [b] sz of
        (Ready (Ok st'), _, sz', _) \<Rightarrow> if st' = ChEnd then Finished else Go st' sz' []
      | (Ready (Err e), _, _, _) \<Rightarrow> Failed e
      | (Pending, _, _, _) \<Rightarrow> Go st sz [])"
  by (cases st) auto

lemma decode_chunked_body:
  assumes inv: "chunk_inv ChBody sz" and src: "src \<noteq> []"
    and d: "decode_chunked ChBody sz src = (r, (st', sz'), src')"
  shows "refines_call r st' sz' src' (body_run ChBody sz src)"
proof -
  let ?n = "min (unat sz) (length src)"
  have n: "?n \<noteq> 0" using inv src by (auto simp: chunk_inv_def simp flip: unat_eq_0)
  obtain st1 src1 sz1 d where s: "chunked_step ChBody src sz = (Ready (Ok st1), src1, sz1, Some d)"
    using chunked_step_body [of src sz] src by blast
  from chunked_step_Some [OF s]
  have o: "d = take ?n src" "src1 = drop ?n src" "sz1 = sz - of_nat ?n"
    "st1 = (if ?n = unat sz then ChBodyCr else ChBody)" by (auto simp: Let_def)
  then have "st1 \<noteq> ChEnd" by simp
  with d s have res: "r = Ok (Some (ItemChunk d))" "st' = st1" "sz' = sz1" "src' = src1"
    by (auto simp: decode_chunked.simps [of ChBody sz src])
  have "sz = of_nat ?n \<Longrightarrow> unat sz \<le> ?n" by (metis mod_less_eq_dividend unat_of_nat)
  then have "chunk_inv st1 sz1" using o by (auto simp: chunk_inv_def split: if_splits)
  moreover have "body_run ChBody sz src = (let (d, r) = body_run st1 sz1 src1 in (take ?n src @ d, r))"
    unfolding o by (rule body_run_slice) (use n in auto)
  ultimately show ?thesis using res o(1) by simp
qed

lemma decode_chunked_refines:
  "chunk_inv st sz \<Longrightarrow> decode_chunked st sz src = (r, (st', sz'), src') \<Longrightarrow>
     refines_call r st' sz' src' (body_run st sz src)"
proof (induction st sz src rule: decode_chunked.induct)
  case (1 st sz src)
  show ?case
  proof (cases src)
    case Nil
    with "1.prems" show ?thesis by (auto simp: decode_chunked_Nil chunk_inv_def)
  next
    case (Cons b bs)
    show ?thesis
    proof (cases "st = ChBody")
      case True
      with "1.prems" Cons show ?thesis using decode_chunked_body by blast
    next
      case False
      have "st \<noteq> ChEnd" using "1.prems"(1) by (simp add: chunk_inv_def)
      with False obtain p sz1 where s: "chunked_step st src sz = (p, bs, sz1, None)"
        "chunked_step st [b] sz = (p, [], sz1, None)" "p \<noteq> Pending"
        using chunked_step_single [of st b bs sz] Cons by blast
      then obtain q where p: "p = Ready q" by (cases p) auto
      show ?thesis
      proof (cases q)
        case (Err e)
        with "1.prems"(2) s p False Cons show ?thesis
          by (auto simp: decode_chunked.simps [of st sz "b # bs"] byte_step_single)
      next
        case (Ok st1)
        show ?thesis
        proof (cases "st1 = ChEnd")
          case True
          with "1.prems"(2) s p Ok False Cons show ?thesis
            by (auto simp: decode_chunked.simps [of st sz "b # bs"] byte_step_single)
        next
          case go: False
          then have bs: "byte_step st sz b = Go st1 sz1 []"
            using s p Ok False by (simp add: byte_step_single)
          with "1.prems"(1) have inv: "chunk_inv st1 sz1" by (rule byte_step_inv)
          show ?thesis
          proof (cases "bs = []")
            case True
            with "1.prems"(2) s p Ok go bs inv Cons show ?thesis
              by (auto simp: decode_chunked.simps [of st sz "[b]"])
          next
            case ne: False
            with "1.prems"(2) s p Ok go have d: "decode_chunked st1 sz1 bs = (r, (st', sz'), src')"
              using Cons by (auto simp: decode_chunked.simps [of st sz "b # bs"])
            have "refines_call r st' sz' src' (body_run st1 sz1 bs)"
              using "1.IH" [OF s(1) [symmetric] p Ok refl refl go refl ne inv d] .
            then show ?thesis using bs Cons by simp
          qed
        qed
      qed
    qed
  qed
qed

text \<open>What draining has to leave, given what the reading of one byte at a time says.\<close>

fun drain_of :: "bytes \<times> body_end \<Rightarrow> bytes \<times> drain_end" where
  "drain_of (d, NeedMore st sz) = (d, DrainMore \<lparr>pd_kind = KChunked st sz\<rparr> [])"
| "drain_of (d, AtEnd rest) = (d, DrainEof rest)"
| "drain_of (d, Broken e rest) = (d, DrainErr e rest)"

lemma drain_of_append: "drain_of (a @ d, r) = (let (d', e) = drain_of (d, r) in (a @ d', e))"
  by (cases r) auto

lemma drain_chunked:
  "chunk_inv st sz \<Longrightarrow> drain \<lparr>pd_kind = KChunked st sz\<rparr> src = drain_of (body_run st sz src)"
proof (induction "\<lparr>pd_kind = KChunked st sz\<rparr>" src arbitrary: st sz rule: drain.induct)
  case (1 src)
  obtain r st' sz' src' where d: "decode_chunked st sz src = (r, (st', sz'), src')"
    by (cases "decode_chunked st sz src") auto
  then have pd: "payload_decode \<lparr>pd_kind = KChunked st sz\<rparr> src = (r, \<lparr>pd_kind = KChunked st' sz'\<rparr>, src')"
    by (simp add: payload_decode_def)
  have ref: "refines_call r st' sz' src' (body_run st sz src)"
    using "1.prems" d by (rule decode_chunked_refines)
  show ?case
  proof (cases "\<exists>b. r = Ok (Some (ItemChunk b))")
    case True
    then obtain b where b: "r = Ok (Some (ItemChunk b))" by blast
    have "drain \<lparr>pd_kind = KChunked st' sz'\<rparr> src' = drain_of (body_run st' sz' src')"
      using ref b by (intro "1.hyps" [OF pd [symmetric]]) auto
    with ref b pd show ?thesis
      by (auto simp: drain.simps [of "\<lparr>pd_kind = KChunked st sz\<rparr>"] drain_of_append split: prod.splits)
  next
    case False
    then show ?thesis using ref pd
      by (cases "(r, st', sz', src', body_run st sz src)" rule: refines_call.cases)
         (auto simp: drain.simps [of "\<lparr>pd_kind = KChunked st sz\<rparr>"])
  qed
qed

lemma drain_length:
  "drain \<lparr>pd_kind = KLength n\<rparr> src =
     (if unat n \<le> length src then (take (unat n) src, DrainEof (drop (unat n) src))
      else (src, DrainMore \<lparr>pd_kind = KLength (n - of_nat (length src))\<rparr> []))"
proof -
  have z: "drain \<lparr>pd_kind = KLength 0\<rparr> xs = ([], DrainEof xs)" for xs
    by (simp add: drain.simps [of "\<lparr>pd_kind = KLength 0\<rparr>"] payload_decode_def)
  have e: "m \<noteq> 0 \<Longrightarrow> drain \<lparr>pd_kind = KLength m\<rparr> [] = ([], DrainMore \<lparr>pd_kind = KLength m\<rparr> [])" for m
    by (simp add: drain.simps [of "\<lparr>pd_kind = KLength m\<rparr>"] payload_decode_def)
  have ne: "n \<noteq> of_nat (length src)" if "\<not> unat n \<le> length src"
    using that by (metis mod_less_eq_dividend unat_of_nat)
  show ?thesis
  proof (cases "n = 0 \<or> src = []")
    case True
    then show ?thesis using z e [of n] by (cases "n = 0") (auto simp: unat_eq_zero)
  next
    case False
    then show ?thesis using z e ne
      by (auto simp: drain.simps [of "\<lparr>pd_kind = KLength n\<rparr>" src] payload_decode_def Let_def)
  qed
qed

lemma drain_eof: "drain \<lparr>pd_kind = KEof\<rparr> src = (src, DrainMore \<lparr>pd_kind = KEof\<rparr> [])"
proof -
  have "drain \<lparr>pd_kind = KEof\<rparr> [] = ([], DrainMore \<lparr>pd_kind = KEof\<rparr> [])"
    by (simp add: drain.simps [of "\<lparr>pd_kind = KEof\<rparr>"] payload_decode_def)
  then show ?thesis
    by (cases "src = []")
       (simp_all add: drain.simps [of "\<lparr>pd_kind = KEof\<rparr>" src] payload_decode_def)
qed

section \<open>Segmentation\<close>

text \<open>The transport delivers the body in pieces; after each, the caller drains the decoder.\<close>

fun feed :: "payload_decoder \<Rightarrow> bytes \<Rightarrow> bytes list \<Rightarrow> bytes \<times> drain_end" where
  "feed dec buf [] = ([], DrainMore dec buf)"
| "feed dec buf (p # ps) =
     (case drain dec (buf @ p) of
        (d, DrainMore dec' buf') \<Rightarrow> (let (d', e) = feed dec' buf' ps in (d @ d', e))
      | (d, DrainEof rest) \<Rightarrow> (d, DrainEof (rest @ concat ps))
      | (d, DrainErr e rest) \<Rightarrow> (d, DrainErr e (rest @ concat ps)))"

text \<open>The decoders that occur: what the constructors make and decoding preserves.\<close>

definition pd_wf :: "payload_decoder \<Rightarrow> bool" where
  "pd_wf dec \<longleftrightarrow> (case pd_kind dec of KLength n \<Rightarrow> n \<noteq> 0 | KChunked st sz \<Rightarrow> chunk_inv st sz | KEof \<Rightarrow> True)"

lemma body_run_ended:
  "body_run st sz xs = (d, AtEnd r) \<Longrightarrow> body_run st sz (xs @ ys) = (d, AtEnd (r @ ys))"
  "body_run st sz xs = (d, Broken e r) \<Longrightarrow> body_run st sz (xs @ ys) = (d, Broken e (r @ ys))"
  by (induction xs arbitrary: st sz d) (auto split: byte_result.splits prod.splits)

lemma body_run_inv:
  "chunk_inv st sz \<Longrightarrow> body_run st sz xs = (d, NeedMore st' sz') \<Longrightarrow> chunk_inv st' sz'"
proof (induction xs arbitrary: st sz d)
  case (Cons b bs)
  then show ?case
    by (cases "byte_step st sz b") (auto dest: byte_step_inv split: prod.splits)
qed simp

lemma drain_append:
  assumes "pd_wf dec"
  shows "drain dec (xs @ ys) =
     (case drain dec xs of
        (d, DrainMore dec' r) \<Rightarrow> (let (d', e) = drain dec' (r @ ys) in (d @ d', e))
      | (d, DrainEof r) \<Rightarrow> (d, DrainEof (r @ ys))
      | (d, DrainErr e r) \<Rightarrow> (d, DrainErr e (r @ ys)))"
proof (cases "pd_kind dec")
  case (KLength n)
  then have dec: "dec = \<lparr>pd_kind = KLength n\<rparr>" by (cases dec) simp
  have u: "unat (n - of_nat (length xs)) = unat n - length xs" if "\<not> unat n \<le> length xs"
  proof -
    have "unat n < 2 ^ 64" using unsigned_less [of n] by simp
    then have "unat (of_nat (length xs) :: u64) = length xs"
      using that by (simp add: unat_of_nat)
    then show ?thesis using that by (simp add: unat_sub word_le_nat_alt)
  qed
  show ?thesis by (auto simp: dec drain_length u)
next
  case (KChunked st sz)
  then have dec: "dec = \<lparr>pd_kind = KChunked st sz\<rparr>" by (cases dec) simp
  have inv: "chunk_inv st sz" using assms KChunked by (simp add: pd_wf_def)
  obtain d r where b: "body_run st sz xs = (d, r)" by (cases "body_run st sz xs")
  show ?thesis
  proof (cases r)
    case (NeedMore st' sz')
    with body_run_inv [OF inv] b have "chunk_inv st' sz'" by blast
    then show ?thesis using inv b NeedMore
      by (simp add: dec drain_chunked body_run_append drain_of_append split: prod.splits)
  qed (use inv b in \<open>simp_all add: dec drain_chunked body_run_ended\<close>)
next
  case KEof
  then have dec: "dec = \<lparr>pd_kind = KEof\<rparr>" by (cases dec) simp
  show ?thesis by (simp add: dec drain_eof)
qed

lemma drain_More:
  "pd_wf dec \<Longrightarrow> drain dec xs = (d, DrainMore dec' r) \<Longrightarrow> pd_wf dec' \<and> r = []"
proof (cases "pd_kind dec")
  case (KLength n)
  assume d: "drain dec xs = (d, DrainMore dec' r)"
  from KLength have "dec = \<lparr>pd_kind = KLength n\<rparr>" by (cases dec) simp
  moreover have "n \<noteq> of_nat (length xs)" if "\<not> unat n \<le> length xs"
    using that by (metis mod_less_eq_dividend unat_of_nat)
  ultimately show ?thesis using d by (auto simp: drain_length pd_wf_def split: if_splits)
next
  case (KChunked st sz)
  assume wf: "pd_wf dec" and d: "drain dec xs = (d, DrainMore dec' r)"
  from KChunked have dec: "dec = \<lparr>pd_kind = KChunked st sz\<rparr>" by (cases dec) simp
  from wf KChunked have inv: "chunk_inv st sz" by (simp add: pd_wf_def)
  obtain x y where b: "body_run st sz xs = (x, y)" by (cases "body_run st sz xs")
  with inv d dec body_run_inv [OF inv] show ?thesis
    by (cases y) (auto simp: drain_chunked pd_wf_def)
next
  case KEof
  assume d: "drain dec xs = (d, DrainMore dec' r)"
  from KEof have "dec = \<lparr>pd_kind = KEof\<rparr>" by (cases dec) simp
  with d show ?thesis by (auto simp: drain_eof pd_wf_def)
qed

lemma drain_Nil: "pd_wf dec \<Longrightarrow> drain dec [] = ([], DrainMore dec [])"
proof -
  assume wf: "pd_wf dec"
  obtain k where "dec = \<lparr>pd_kind = k\<rparr>" by (cases dec)
  with wf show ?thesis
    by (cases k) (auto simp: pd_wf_def drain_length unat_eq_zero drain_chunked drain_eof)
qed

lemma feed_drain:
  assumes "pd_wf dec"
  shows "feed dec [] ps = drain dec (concat ps)"
  using assms
proof (induction ps arbitrary: dec)
  case Nil
  then show ?case by (simp add: drain_Nil)
next
  case (Cons p ps)
  obtain d e where d: "drain dec p = (d, e)" by (cases "drain dec p")
  show ?case
  proof (cases e)
    case (DrainMore dec' r)
    with drain_More [OF Cons.prems] d have "pd_wf dec'" "r = []" by auto
    with Cons.IH [of dec'] d DrainMore show ?thesis
      by (simp add: drain_append [OF Cons.prems])
  qed (simp_all add: drain_append [OF Cons.prems] d)
qed

text \<open>
  Property C8. A body decoder that is fed its input in pieces, and drained after each, yields
  the same data and ends the same way as one that gets the input at once: how TCP cuts the
  body has no influence, for a body of known length, a chunked one and one that ends with the
  connection.
\<close>

theorem body_segmentation_irrelevant:
  assumes "pd_wf dec"
  shows "feed dec [] ps = drain dec (concat ps)"
  using assms by (rule feed_drain)

lemma body_segmentation_irrelevant_witness:
  "feed \<lparr>pd_kind = KChunked ChSize 0\<rparr> [] [[0x32, 0x0D], [0x0A, 65], [66, 0x0D, 0x0A, 0x30], [0x0D, 0x0A, 0x0D, 0x0A]] =
     drain \<lparr>pd_kind = KChunked ChSize 0\<rparr> [0x32, 0x0D, 0x0A, 65, 66, 0x0D, 0x0A, 0x30, 0x0D, 0x0A, 0x0D, 0x0A]"
  using body_segmentation_irrelevant
    [of "\<lparr>pd_kind = KChunked ChSize 0\<rparr>" "[[0x32, 0x0D], [0x0A, 65], [66, 0x0D, 0x0A, 0x30], [0x0D, 0x0A, 0x0D, 0x0A]]"]
  by (simp add: pd_wf_def chunk_inv_def)

section \<open>The wire format of a chunk\<close>

definition hex_val :: "byte \<Rightarrow> nat option" where
  "hex_val b =
     (if 0x30 \<le> b \<and> b \<le> 0x39 then Some (unat b - 48)
      else if 0x61 \<le> b \<and> b \<le> 0x66 then Some (unat b - 87)
      else if 0x41 \<le> b \<and> b \<le> 0x46 then Some (unat b - 55)
      else None)"

definition hex_nat :: "bytes \<Rightarrow> nat" where
  "hex_nat ds = foldl (\<lambda>n b. n * 16 + the (hex_val b)) 0 ds"

lemma byte_step_digit:
  assumes "hex_val b = Some v"
  shows "byte_step ChSize sz b = Go ChSize (sz * 16 + of_nat v) []"
proof -
  have u: "(ucast x :: u64) = of_nat (unat x)" for x :: byte by (simp add: unsigned_ucast_eq)
  have "unat (b - 48) = unat b - 48" if "48 \<le> b" using that by (simp add: unat_sub)
  moreover have "unat (b + 10 - 97) = unat b - 87" if "97 \<le> b" "b \<le> 102"
  proof -
    have "b + 10 - 97 = b - 87" by simp
    then show ?thesis using that by (simp add: unat_sub word_le_nat_alt)
  qed
  moreover have "unat (b + 10 - 65) = unat b - 55" if "65 \<le> b" "b \<le> 70"
  proof -
    have "b + 10 - 65 = b - 55" by simp
    then show ?thesis using that by (simp add: unat_sub word_le_nat_alt)
  qed
  ultimately show ?thesis using assms
    by (auto simp: hex_val_def chunked_step_def u split: if_splits)
qed

lemma body_run_digits:
  assumes "\<forall>b \<in> set ds. hex_val b \<noteq> None"
  shows "body_run ChSize (of_nat n) (ds @ rest) =
     body_run ChSize (of_nat (foldl (\<lambda>n b. n * 16 + the (hex_val b)) n ds)) rest"
  using assms
proof (induction ds arbitrary: n)
  case (Cons b ds)
  then obtain v where v: "hex_val b = Some v" by auto
  with Cons.IH [of "n * 16 + v"] Cons.prems show ?case
    by (simp add: byte_step_digit del: byte_step.simps split: prod.splits)
qed simp

text \<open>A chunk extension, which the decoder skips.\<close>

definition chunk_ext :: "bytes \<Rightarrow> bool" where
  "chunk_ext ext \<longleftrightarrow> ext = [] \<or> hd ext = 0x3B \<and> 0x0D \<notin> set ext"

lemma body_run_skip:
  "0x0D \<notin> set ext \<Longrightarrow> body_run ChExtension sz (ext @ rest) = body_run ChExtension sz rest"
  by (induction ext) (auto simp: chunked_step_def split: prod.splits)

lemma body_run_line:
  assumes "\<forall>b \<in> set ds. hex_val b \<noteq> None" and "chunk_ext ext"
  shows "body_run ChSize 0 (ds @ ext @ 0x0D # rest) = body_run ChSizeLf (of_nat (hex_nat ds)) rest"
proof -
  have "body_run ChSize sz (ext @ 0x0D # rest) = body_run ChSizeLf sz rest" for sz
    using assms(2) body_run_skip [of "tl ext" sz "0x0D # rest"]
    by (cases ext) (auto simp: chunk_ext_def chunked_step_def split: prod.splits)
  with body_run_digits [OF assms(1), of 0] show ?thesis by (simp add: hex_nat_def)
qed

lemma body_run_data:
  assumes "length data = unat sz" and "sz \<noteq> 0"
  shows "body_run ChBody sz (data @ 0x0D # 0x0A # rest) = (let (d, r) = body_run ChSize 0 rest in (data @ d, r))"
proof -
  have "unat sz \<noteq> 0" using assms(2) by (simp add: unat_eq_zero)
  with body_run_slice [of "unat sz" sz "data @ 0x0D # 0x0A # rest"] assms show ?thesis
    by (simp add: chunked_step_def split: prod.splits)
qed

lemma body_run_chunk:
  assumes "\<forall>b \<in> set ds. hex_val b \<noteq> None" and "chunk_ext ext"
    and "hex_nat ds mod 2 ^ 64 = length data" and "data \<noteq> []"
  shows "body_run ChSize 0 (ds @ ext @ [0x0D, 0x0A] @ data @ [0x0D, 0x0A] @ rest) =
     (let (d, r) = body_run ChSize 0 rest in (data @ d, r))"
proof -
  let ?sz = "of_nat (hex_nat ds) :: u64"
  have len: "length data = unat ?sz" using assms(3) by (simp add: unat_of_nat)
  with assms(4) have "?sz \<noteq> 0" by (metis length_0_conv unat_eq_zero)
  then show ?thesis
    using body_run_line [OF assms(1,2), of "0x0A # data @ 0x0D # 0x0A # rest"] body_run_data [OF len]
    by (simp add: chunked_step_def word_neq_0_conv split: prod.splits)
qed

lemma body_run_last:
  assumes "\<forall>b \<in> set ds. hex_val b \<noteq> None" and "chunk_ext ext" and "hex_nat ds mod 2 ^ 64 = 0"
  shows "body_run ChSize 0 (ds @ ext @ [0x0D, 0x0A, 0x0D, 0x0A] @ rest) = ([], AtEnd rest)"
proof -
  have "unat (of_nat (hex_nat ds) :: u64) = 0" using assms(3) by (simp add: unat_of_nat)
  then have "(of_nat (hex_nat ds) :: u64) = 0" by (simp only: unat_eq_zero)
  then show ?thesis
    using body_run_line [OF assms(1,2), of "[0x0A, 0x0D, 0x0A] @ rest"]
    by (simp add: chunked_step_def)
qed

lemma chunk_inv_start [simp]: "chunk_inv ChSize 0"
  by (simp add: chunk_inv_def)

text \<open>
  The chunked decoder reads a chunk exactly: whatever follows it, the data comes
  out as it is and decoding goes on with what follows. The size is written in hexadecimal
  digits of either case and may carry an extension. The number of digits is not limited, and
  the size counts modulo \<open>2 ^ 64\<close> (the accumulator of \<open>read_size\<close> wraps).
\<close>

theorem chunk_decoded:
  assumes "\<forall>b \<in> set ds. hex_val b \<noteq> None" and "chunk_ext ext"
    and "hex_nat ds mod 2 ^ 64 = length data" and "data \<noteq> []"
  shows "drain pd_chunked (ds @ ext @ [0x0D, 0x0A] @ data @ [0x0D, 0x0A] @ rest) =
     (let (d, e) = drain pd_chunked rest in (data @ d, e))"
  using body_run_chunk [OF assms, of rest]
  by (simp add: pd_chunked_def drain_chunked drain_of_append split: prod.splits)

lemma chunk_decoded_witness:
  "drain pd_chunked ([0x30, 0x35] @ [0x3B, 0x78] @ [0x0D, 0x0A] @ [104, 101, 108, 108, 111] @ [0x0D, 0x0A] @ [0x37]) =
     (let (d, e) = drain pd_chunked [0x37] in ([104, 101, 108, 108, 111] @ d, e))"
  by (rule chunk_decoded) (simp_all add: hex_val_def chunk_ext_def hex_nat_def)

text \<open>
  A last chunk (size zero modulo \<open>2 ^ 64\<close>, with any number of digits, none
  included) ends the body, and what follows it in the buffer is left for the next message.
\<close>

theorem last_chunk_decoded:
  assumes "\<forall>b \<in> set ds. hex_val b \<noteq> None" and "chunk_ext ext" and "hex_nat ds mod 2 ^ 64 = 0"
  shows "drain pd_chunked (ds @ ext @ [0x0D, 0x0A, 0x0D, 0x0A] @ rest) = ([], DrainEof rest)"
  using body_run_last [OF assms, of rest] by (simp add: pd_chunked_def drain_chunked)

lemma last_chunk_decoded_witness:
  "drain pd_chunked ([0x30, 0x30] @ [] @ [0x0D, 0x0A, 0x0D, 0x0A] @ [71, 69, 84]) = ([], DrainEof [71, 69, 84])"
  by (rule last_chunk_decoded) (simp_all add: hex_val_def chunk_ext_def hex_nat_def)

text \<open>
  The size of a chunk is not checked for overflow: a size line of seventeen digits
  that denotes \<open>2 ^ 64 + 1\<close> frames a chunk of one byte, and an empty size line ends the body. A
  peer that rejects such lines, or reads them as the numbers they are, delimits the messages
  of the connection differently.
\<close>

theorem chunk_size_overflow_accepted:
  "drain pd_chunked (bstr ''10000000000000001'' @ [0x0D, 0x0A] @ [65] @ [0x0D, 0x0A] @
      [0x0D, 0x0A, 0x0D, 0x0A] @ rest) = ([65], DrainEof rest)"
proof -
  let ?line = "bstr ''10000000000000001''" and ?last = "[0x0D, 0x0A, 0x0D, 0x0A] @ rest"
  have "hex_nat ?line = 2 ^ 64 + 1" and "\<forall>b \<in> set ?line. hex_val b \<noteq> None"
    by (simp_all add: hex_val_def hex_nat_def)
  then have "body_run ChSize 0 (?line @ [] @ [0x0D, 0x0A] @ [65] @ [0x0D, 0x0A] @ ?last) =
      (let (d, r) = body_run ChSize 0 ?last in ([65] @ d, r))"
    by (intro body_run_chunk) (simp_all add: chunk_ext_def)
  moreover have "body_run ChSize 0 ?last = ([], AtEnd rest)"
    using body_run_last [of "[]" "[]" rest] by (simp add: hex_nat_def chunk_ext_def del: body_run.simps)
  ultimately show ?thesis by (simp add: pd_chunked_def drain_chunked del: body_run.simps)
qed

text \<open>
  A body of known length is exactly its first \<open>n\<close> bytes; the decoder never takes
  a byte of the next message, and asks for more exactly while bytes are missing.
\<close>

theorem length_body_exact:
  "drain (pd_length n) src =
     (if unat n \<le> length src then (take (unat n) src, DrainEof (drop (unat n) src))
      else (src, DrainMore \<lparr>pd_kind = KLength (n - of_nat (length src))\<rparr> []))"
  by (simp add: pd_length_def drain_length)

section \<open>The grammar of chunked bodies\<close>

text \<open>
  The format that is accepted, as a grammar that knows nothing of states and buffers: a chunk is a number in hexadecimal digits of
  either case, white space and an extension up to a carriage return, a line break, as much data as the number says, and a line
  break; the body ends with a chunk of size zero and an empty line. Numbers count modulo \<open>2 ^ 64\<close>, and zero may have no digits.
\<close>

definition chunk_tail :: "bytes \<Rightarrow> bool" where
  "chunk_tail t \<longleftrightarrow> chunk_ext (dropWhile (\<lambda>b. b = 0x09 \<or> b = 0x20) t)"

lemma chunk_tail_simps [simp]:
  "chunk_tail []" "chunk_tail (0x3B # ext) \<longleftrightarrow> 0x0D \<notin> set ext"
  "b = 0x09 \<or> b = 0x20 \<Longrightarrow> chunk_tail (b # t) \<longleftrightarrow> chunk_tail t"
  by (auto simp: chunk_tail_def chunk_ext_def)

lemma chunk_tail_cases:
  assumes "chunk_tail t"
  obtains "t = []" | b u where "t = b # u" "b = 0x09 \<or> b = 0x20" "chunk_tail u" | ext where "t = 0x3B # ext" "0x0D \<notin> set ext"
proof (cases t)
  case (Cons b u)
  with assms that show thesis by (cases "b = 0x09 \<or> b = 0x20") (auto simp: chunk_tail_def chunk_ext_def)
qed (use that in simp)

inductive chunked_body :: "bytes \<Rightarrow> bytes \<Rightarrow> bool" where
  last_chunk: "\<forall>b \<in> set ds. hex_val b \<noteq> None \<Longrightarrow> chunk_tail t \<Longrightarrow> hex_nat ds mod 2 ^ 64 = 0 \<Longrightarrow>
    chunked_body (ds @ t @ [0x0D, 0x0A, 0x0D, 0x0A]) []"
| chunk: "\<forall>b \<in> set ds. hex_val b \<noteq> None \<Longrightarrow> chunk_tail t \<Longrightarrow> hex_nat ds mod 2 ^ 64 = length data \<Longrightarrow> data \<noteq> [] \<Longrightarrow>
    chunked_body wire body \<Longrightarrow> chunked_body (ds @ t @ [0x0D, 0x0A] @ data @ [0x0D, 0x0A] @ wire) (data @ body)"

lemma body_run_tail:
  "chunk_tail t \<Longrightarrow> st = ChSize \<or> st = ChSizeLws \<Longrightarrow> body_run st sz (t @ 0x0D # rest) = body_run ChSizeLf sz rest"
proof (induction t arbitrary: st)
  case (Cons b t)
  from Cons.prems(1) show ?case
  proof (cases rule: chunk_tail_cases)
    case 2
    with Cons show ?thesis by (auto simp: chunked_step_def split: prod.splits)
  next
    case (3 ext)
    with Cons.prems(2) body_run_skip [of ext sz "0x0D # rest"] show ?thesis
      by (auto simp: chunked_step_def split: prod.splits)
  qed simp
qed (auto simp: chunked_step_def split: prod.splits)

lemma body_run_wire: "chunked_body wire body \<Longrightarrow> body_run ChSize 0 (wire @ rest) = (body, AtEnd rest)"
proof (induction rule: chunked_body.induct)
  case (last_chunk ds t)
  have "unat (of_nat (hex_nat ds) :: u64) = 0" using last_chunk(3) by (simp add: unat_of_nat)
  then have "(of_nat (hex_nat ds) :: u64) = 0" by (simp only: unat_eq_zero)
  moreover have "body_run ChSize 0 (ds @ t @ 0x0D # 0x0A # 0x0D # 0x0A # rest) =
      body_run ChSizeLf (of_nat (hex_nat ds)) (0x0A # 0x0D # 0x0A # rest)"
    using body_run_digits [OF last_chunk(1), of 0] last_chunk(2) by (simp add: hex_nat_def body_run_tail)
  ultimately show ?case by (simp add: chunked_step_def)
next
  case (chunk ds t data wire body)
  let ?sz = "of_nat (hex_nat ds) :: u64"
  have len: "length data = unat ?sz" using chunk(3) by (simp add: unat_of_nat)
  with chunk(4) have nz: "?sz \<noteq> 0" by (metis length_0_conv unat_eq_zero)
  have "body_run ChSize 0 (ds @ t @ 0x0D # 0x0A # data @ 0x0D # 0x0A # wire @ rest) =
      body_run ChSizeLf ?sz (0x0A # data @ 0x0D # 0x0A # wire @ rest)"
    using body_run_digits [OF chunk(1), of 0] chunk(2) by (simp add: hex_nat_def body_run_tail)
  then show ?case using body_run_data [OF len nz, of "wire @ rest"] chunk.IH nz
    by (simp add: chunked_step_def word_neq_0_conv)
qed

text \<open>The reverse direction: what a run that ends has read.\<close>

lemma ran_extension:
  "body_run ChExtension sz xs = (d, AtEnd r) \<Longrightarrow>
     \<exists>ext ys. xs = ext @ 0x0D # ys \<and> 0x0D \<notin> set ext \<and> body_run ChSizeLf sz ys = (d, AtEnd r)"
proof (induction xs)
  case (Cons b xs)
  show ?case
  proof (cases "b = 0x0D")
    case True
    with Cons.prems show ?thesis by (intro exI [of _ "[]"] exI [of _ xs]) (simp add: chunked_step_def)
  next
    case False
    with Cons obtain ext ys where "xs = ext @ 0x0D # ys" "0x0D \<notin> set ext" "body_run ChSizeLf sz ys = (d, AtEnd r)"
      by (auto simp: chunked_step_def split: prod.splits)
    with False show ?thesis by (intro exI [of _ "b # ext"] exI [of _ ys]) simp
  qed
qed simp

lemma ran_tail:
  assumes "b = 0x09 \<or> b = 0x20 \<or> b = 0x3B \<or> b = 0x0D"
    and run: "body_run (if b = 0x09 \<or> b = 0x20 then ChSizeLws else if b = 0x3B then ChExtension else ChSizeLf) sz xs = (d, AtEnd r)"
    and lws: "b = 0x09 \<or> b = 0x20 \<Longrightarrow> body_run ChSizeLws sz xs = (d, AtEnd r) \<Longrightarrow>
      \<exists>t ys. xs = t @ 0x0D # ys \<and> chunk_tail t \<and> body_run ChSizeLf sz ys = (d, AtEnd r)"
  shows "\<exists>t ys. b # xs = t @ 0x0D # ys \<and> chunk_tail t \<and> body_run ChSizeLf sz ys = (d, AtEnd r)"
proof -
  consider "b = 0x09 \<or> b = 0x20" | "b = 0x3B" | "b = 0x0D" using assms(1) by blast
  then show ?thesis
  proof cases
    case 1
    with lws run obtain t ys where "xs = t @ 0x0D # ys" "chunk_tail t" "body_run ChSizeLf sz ys = (d, AtEnd r)" by auto
    with 1 show ?thesis by (intro exI [of _ "b # t"] exI [of _ ys]) simp
  next
    case 2
    with run obtain ext ys where "xs = ext @ 0x0D # ys" "0x0D \<notin> set ext" "body_run ChSizeLf sz ys = (d, AtEnd r)"
      using ran_extension [of sz xs d r] by auto
    with 2 show ?thesis by (intro exI [of _ "0x3B # ext"] exI [of _ ys]) simp
  next
    case 3
    with run show ?thesis by (intro exI [of _ "[]"] exI [of _ xs]) simp
  qed
qed

lemma ran_lws:
  "body_run ChSizeLws sz xs = (d, AtEnd r) \<Longrightarrow>
     \<exists>t ys. xs = t @ 0x0D # ys \<and> chunk_tail t \<and> body_run ChSizeLf sz ys = (d, AtEnd r)"
proof (induction xs)
  case (Cons b xs)
  have "b = 0x09 \<or> b = 0x20 \<or> b = 0x3B \<or> b = 0x0D"
    and "body_run (if b = 0x09 \<or> b = 0x20 then ChSizeLws else if b = 0x3B then ChExtension else ChSizeLf) sz xs = (d, AtEnd r)"
    using Cons.prems by (auto simp: chunked_step_def invalid_def split: if_splits prod.splits)
  then show ?case using Cons.IH by (rule ran_tail)
qed simp

lemma ran_size:
  "body_run ChSize (of_nat n) xs = (d, AtEnd r) \<Longrightarrow>
     \<exists>ds t ys. xs = ds @ t @ 0x0D # ys \<and> (\<forall>b \<in> set ds. hex_val b \<noteq> None) \<and> chunk_tail t \<and>
       body_run ChSizeLf (of_nat (foldl (\<lambda>n b. n * 16 + the (hex_val b)) n ds)) ys = (d, AtEnd r)"
proof (induction xs arbitrary: n)
  case (Cons b xs)
  show ?case
  proof (cases "hex_val b")
    case (Some v)
    from byte_step_digit [OF this] Cons.prems have "body_run ChSize (of_nat (n * 16 + v)) xs = (d, AtEnd r)"
      by (auto split: prod.splits simp del: byte_step.simps)
    from Cons.IH [OF this] obtain ds t ys where "xs = ds @ t @ 0x0D # ys" "\<forall>b \<in> set ds. hex_val b \<noteq> None" "chunk_tail t"
      "body_run ChSizeLf (of_nat (foldl (\<lambda>n b. n * 16 + the (hex_val b)) (n * 16 + v) ds)) ys = (d, AtEnd r)" by blast
    with Some show ?thesis by (intro exI [of _ "b # ds"] exI [of _ t] exI [of _ ys]) simp
  next
    case None
    then have "b = 0x09 \<or> b = 0x20 \<or> b = 0x3B \<or> b = 0x0D"
      and "body_run (if b = 0x09 \<or> b = 0x20 then ChSizeLws else if b = 0x3B then ChExtension else ChSizeLf) (of_nat n) xs = (d, AtEnd r)"
      using Cons.prems by (auto simp: chunked_step_def invalid_def hex_val_def split: if_splits prod.splits)
    from ran_tail [OF this ran_lws] obtain t ys where "b # xs = t @ 0x0D # ys" "chunk_tail t"
      "body_run ChSizeLf (of_nat n) ys = (d, AtEnd r)" by blast
    then show ?thesis by (intro exI [of _ "[]"] exI [of _ t] exI [of _ ys]) simp
  qed
qed simp

lemma ran_end: "body_run ChEndCr sz xs = (d, AtEnd r) \<Longrightarrow> xs = [0x0D, 0x0A] @ r \<and> d = []"
  by (cases xs; cases "tl xs")
     (auto simp: chunked_step_def invalid_def split: if_splits prod.splits)

lemma ran_data:
  assumes "body_run ChBody sz xs = (d, AtEnd r)" and "sz \<noteq> 0"
  obtains data ys d' where "xs = data @ [0x0D, 0x0A] @ ys" "length data = unat sz" "d = data @ d'" "body_run ChSize 0 ys = (d', AtEnd r)"
proof -
  have n: "unat sz \<noteq> 0" using assms(2) by (simp add: unat_eq_zero)
  have "xs \<noteq> []" using assms(1) by auto
  have len: "unat sz \<le> length xs"
  proof (rule ccontr)
    assume "\<not> unat sz \<le> length xs"
    with body_run_slice [of "length xs" sz xs] \<open>xs \<noteq> []\<close> assms(1) show False by simp
  qed
  from body_run_slice [OF order_refl len n] assms(1) obtain d1 where
    d1: "d = take (unat sz) xs @ d1" "body_run ChBodyCr 0 (drop (unat sz) xs) = (d1, AtEnd r)"
    by (auto split: prod.splits)
  then obtain ys where "drop (unat sz) xs = 0x0D # 0x0A # ys" "body_run ChSize 0 ys = (d1, AtEnd r)"
    by (cases "drop (unat sz) xs"; cases "tl (drop (unat sz) xs)")
       (auto simp: chunked_step_def invalid_def split: if_splits prod.splits)
  with d1(1) len that [of "take (unat sz) xs" ys d1] show thesis
    by (metis append_Cons append_Nil append_take_drop_id length_take min.absorb2)
qed

lemma ran_wire: "body_run ChSize 0 src = (body, AtEnd rest) \<Longrightarrow> \<exists>wire. src = wire @ rest \<and> chunked_body wire body"
proof (induction src arbitrary: body rule: length_induct)
  case (1 src)
  from ran_size [of 0 src body rest] "1.prems" obtain ds t ys where
    src: "src = ds @ t @ 0x0D # ys" and ds: "\<forall>b \<in> set ds. hex_val b \<noteq> None" and t: "chunk_tail t"
    and run: "body_run ChSizeLf (of_nat (hex_nat ds)) ys = (body, AtEnd rest)" by (auto simp: hex_nat_def)
  let ?sz = "of_nat (hex_nat ds) :: u64"
  have u: "unat ?sz = hex_nat ds mod 2 ^ 64" by (simp add: unat_of_nat)
  from run obtain zs where ys: "ys = 0x0A # zs"
    and "?sz = 0 \<and> body_run ChEndCr ?sz zs = (body, AtEnd rest) \<or> ?sz \<noteq> 0 \<and> body_run ChBody ?sz zs = (body, AtEnd rest)"
    by (cases ys) (auto simp: chunked_step_def invalid_def word_neq_0_conv split: if_splits prod.splits)
  then consider (over) "?sz = 0" "body_run ChEndCr ?sz zs = (body, AtEnd rest)"
    | (on) "?sz \<noteq> 0" "body_run ChBody ?sz zs = (body, AtEnd rest)" by blast
  then show ?case
  proof cases
    case over
    with ran_end [OF over(2)] u have "src = (ds @ t @ [0x0D, 0x0A, 0x0D, 0x0A]) @ rest" "body = []" "hex_nat ds mod 2 ^ 64 = 0"
      by (simp_all add: src ys)
    with last_chunk [OF ds t] show ?thesis by blast
  next
    case on
    from ran_data [OF on(2,1)] obtain data vs d' where v: "zs = data @ [0x0D, 0x0A] @ vs" "length data = unat ?sz"
      "body = data @ d'" "body_run ChSize 0 vs = (d', AtEnd rest)" .
    have "length vs < length src" by (simp add: src ys v(1))
    with "1.IH" v(4) obtain wire where w: "vs = wire @ rest" "chunked_body wire d'" by blast
    have "data \<noteq> []" using on(1) v(2) unat_eq_zero [of ?sz] by auto
    from chunk [OF ds t _ this w(2)] v(2) u have "chunked_body (ds @ t @ [0x0D, 0x0A] @ data @ [0x0D, 0x0A] @ wire) (data @ d')" by simp
    then show ?thesis by (intro exI [of _ "ds @ t @ [0x0D, 0x0A] @ data @ [0x0D, 0x0A] @ wire"]) (simp add: src ys v(1,3) w(1))
  qed
qed

text \<open>
  Property C9. The chunked decoder accepts exactly the grammar: it comes to the end of a body, with some data and some bytes left over,
  if and only if the input is a body of the grammar with that data, followed by those bytes.
\<close>

theorem chunked_accepts_grammar:
  "drain pd_chunked src = (body, DrainEof rest) \<longleftrightarrow> (\<exists>wire. src = wire @ rest \<and> chunked_body wire body)"
proof -
  have "drain pd_chunked src = drain_of (body_run ChSize 0 src)" by (simp add: pd_chunked_def drain_chunked)
  moreover have "drain_of p = (body, DrainEof rest) \<longleftrightarrow> p = (body, AtEnd rest)" for p
    by (cases p; cases "snd p") auto
  ultimately show ?thesis using body_run_wire ran_wire by metis
qed

text \<open>
  A decoder that asked for more input resumes without loss: called on pieces as
  they arrive, it returns what one call on all the pieces it used returns, and the pieces it
  did not need are untouched.
\<close>

theorem payload_call_segmentation:
  "\<exists>k \<le> length ps. await payload_decode dec buf ps =
     (payload_decode dec (buf @ concat (take k ps)), drop k ps)"
  by (rule payload.await_eq)

end
