(* ===== verification/H1_Message_Decoder.thy ===== *)
theory H1_Message_Decoder
  imports Message_Head H1_Payload_Decoder
begin

text \<open>
  The decoder of HTTP/1 message heads (\<open>h1/decoder.rs\<close>, up to \<open>HeaderIndex\<close>). The grammar is
  parsed by the crate \<open>httparse\<close>, which is a parameter; the code here turns its result
  into a head, collects the headers, and decides how the body is delimited. A panic (an
  \<open>unwrap\<close>, a slice out of range) is an error value of its own.
\<close>

section \<open>Data\<close>

datatype 'e failure = Fails 'e | Panics

definition MAX_BUFFER_SIZE :: nat where "MAX_BUFFER_SIZE = 131072"
definition MAX_HEADERS :: nat where "MAX_HEADERS = 96"

datatype payload_type = PtNone | PtPayload payload_decoder | PtStream payload_decoder

datatype payload_length = PlPayload payload_type | PlUpgrade | PlNone

type_synonym header_index = "(nat \<times> nat) \<times> (nat \<times> nat)"

text \<open>
  The indices are recorded into an array of \<open>MAX_HEADERS\<close> entries, of which the first \<open>h_len\<close> are then used.
\<close>

definition header_index_record :: "header_index list \<Rightarrow> header_index list" where
  "header_index_record headers = take MAX_HEADERS headers"

definition subslice :: "bytes \<Rightarrow> nat \<times> nat \<Rightarrow> bytes exec" where
  "subslice s r = (if fst r \<le> snd r \<and> snd r \<le> length s then Return (take (snd r - fst r) (drop (fst r) s)) else Panic)"

section \<open>Headers\<close>

text \<open>The local variables of \<open>set_headers\<close>, with the header map it fills.\<close>

record scan =
  sc_ka :: "connection_type option"
  sc_has_upgrade :: bool
  sc_expect :: bool
  sc_chunked :: bool
  sc_content_length :: "u64 option"
  sc_headers :: header_map

definition scan_init :: "header_map \<Rightarrow> scan" where
  "scan_init headers = \<lparr>sc_ka = None, sc_has_upgrade = False, sc_expect = False, sc_chunked = False,
     sc_content_length = None, sc_headers = headers\<rparr>"

definition conn_of :: "bytes \<Rightarrow> connection_type option" where
  "conn_of conn =
     (if eq_ignore_ascii_case conn (bstr ''keep-alive'') then Some CtKeepAlive
      else if eq_ignore_ascii_case conn (bstr ''close'') then Some CtClose
      else if eq_ignore_ascii_case conn (bstr ''upgrade'') then Some CtUpgrade
      else None)"

text \<open>The \<open>match\<close> on the name of a header: what it means for the connection and the body.\<close>

definition scan_match :: "http_lib \<Rightarrow> header_name \<Rightarrow> header_value \<Rightarrow> scan \<Rightarrow> (scan, parse_error) result" where
  "scan_match lib name value sc =
     (if name = CONTENT_LENGTH then
        (case hl_to_str lib value of
           None \<Rightarrow> Err PeHeader
         | Some s \<Rightarrow>
             (case parse_u64 s of
                None \<Rightarrow> Err PeHeader
              | Some len \<Rightarrow> Ok (if len \<noteq> 0 then sc\<lparr>sc_content_length := Some len\<rparr> else sc)))
      else if name = TRANSFER_ENCODING then
        (case hl_to_str lib value of
           None \<Rightarrow> Err PeHeader
         | Some s \<Rightarrow> Ok (sc\<lparr>sc_chunked := eq_ignore_ascii_case (trim s) (bstr ''chunked'')\<rparr>))
      else if name = CONNECTION then
        Ok (sc\<lparr>sc_ka := (case hl_to_str lib value of Some s \<Rightarrow> conn_of (trim s) | None \<Rightarrow> None)\<rparr>)
      else if name = UPGRADE then
        Ok (sc\<lparr>sc_has_upgrade := True,
               sc_content_length :=
                 (case hl_to_str lib value of
                    Some s \<Rightarrow> if eq_ignore_ascii_case (trim s) (bstr ''websocket'') then None else sc_content_length sc
                  | None \<Rightarrow> sc_content_length sc)\<rparr>)
      else if name = EXPECT then
        Ok (if 4 \<le> length value \<and> take 4 value = bstr ''100-'' then sc\<lparr>sc_expect := True\<rparr> else sc)
      else Ok sc)"

definition scan_append :: "header_name \<Rightarrow> header_value \<Rightarrow> scan \<Rightarrow> scan" where
  "scan_append name value sc = sc\<lparr>sc_headers := hm_append (sc_headers sc) name value\<rparr>"

fun scan_headers :: "http_lib \<Rightarrow> bytes \<Rightarrow> header_index list \<Rightarrow> scan \<Rightarrow> (unit, parse_error failure) result \<times> scan" where
  "scan_headers lib s [] sc = (Ok (), sc)"
| "scan_headers lib s (idx # idxs) sc =
     (case (subslice s (fst idx), subslice s (snd idx)) of
        (Return nm, Return value) \<Rightarrow>
          (case hl_name_from_bytes lib nm of
             None \<Rightarrow> (Err Panics, sc)
           | Some name \<Rightarrow>
               (case scan_match lib name value sc of
                  Err e \<Rightarrow> (Err (Fails e), sc)
                | Ok sc' \<Rightarrow> scan_headers lib s idxs (scan_append name value sc')))
      | _ \<Rightarrow> (Err Panics, sc))"

definition payload_length_of :: "scan \<Rightarrow> payload_length" where
  "payload_length_of sc =
     (if sc_chunked sc then PlPayload (PtPayload pd_chunked)
      else
        (case sc_content_length sc of
           Some len \<Rightarrow> PlPayload (PtPayload (pd_length len))
         | None \<Rightarrow> if sc_has_upgrade sc then PlUpgrade else PlNone))"

text \<open>\<open>set_headers\<close> for a request and for a response, which ignores \<open>expect\<close>.\<close>

definition rq_apply :: "scan \<Rightarrow> request_head \<Rightarrow> request_head" where
  "rq_apply sc msg =
     (let msg = msg\<lparr>rq_headers := sc_headers sc\<rparr>;
          msg = (case sc_ka sc of Some ct \<Rightarrow> rq_set_connection_type ct msg | None \<Rightarrow> msg)
      in if sc_expect sc then rq_set_expect msg else msg)"

definition rs_apply :: "scan \<Rightarrow> response_head \<Rightarrow> response_head" where
  "rs_apply sc msg =
     (let msg = msg\<lparr>rs_headers := sc_headers sc\<rparr>
      in (case sc_ka sc of Some ct \<Rightarrow> rs_set_connection_type ct msg | None \<Rightarrow> msg))"

definition rq_set_headers ::
  "http_lib \<Rightarrow> bytes \<Rightarrow> header_index list \<Rightarrow> request_head \<Rightarrow> (payload_length, parse_error failure) result \<times> request_head" where
  "rq_set_headers lib s idxs msg =
     (case scan_headers lib s idxs (scan_init (rq_headers msg)) of
        (Err e, sc) \<Rightarrow> (Err e, msg\<lparr>rq_headers := sc_headers sc\<rparr>)
      | (Ok _, sc) \<Rightarrow> (Ok (payload_length_of sc), rq_apply sc msg))"

definition rs_set_headers ::
  "http_lib \<Rightarrow> bytes \<Rightarrow> header_index list \<Rightarrow> response_head \<Rightarrow> (payload_length, parse_error failure) result \<times> response_head" where
  "rs_set_headers lib s idxs msg =
     (case scan_headers lib s idxs (scan_init (rs_headers msg)) of
        (Err e, sc) \<Rightarrow> (Err e, msg\<lparr>rs_headers := sc_headers sc\<rparr>)
      | (Ok _, sc) \<Rightarrow> (Ok (payload_length_of sc), rs_apply sc msg))"

section \<open>Decoding a head\<close>

definition version_of :: "nat \<Rightarrow> http_version" where
  "version_of v = (if v = 1 then HTTP_11 else HTTP_10)"

type_synonym 'a decoded = "('a option, parse_error failure) result"

definition request_payload_type :: "http_method \<Rightarrow> bytes \<Rightarrow> payload_length \<Rightarrow> (payload_type, parse_error) result" where
  "request_payload_type method src len =
     (case len of
        PlPayload pl \<Rightarrow> Ok pl
      | PlUpgrade \<Rightarrow> Ok (PtStream pd_eof)
      | PlNone \<Rightarrow>
          if method = METHOD_CONNECT then Ok (PtStream pd_eof)
          else if length src \<ge> MAX_BUFFER_SIZE then Err PeTooLarge
          else Ok PtNone)"

text \<open>The part after the grammar was parsed, and the whole.\<close>

definition request_finish ::
  "http_lib \<Rightarrow> http_method \<Rightarrow> bytes \<Rightarrow> http_version \<Rightarrow> nat \<Rightarrow> header_index list \<Rightarrow> request_pool \<Rightarrow> bytes \<Rightarrow>
   (request_head \<times> payload_type) decoded \<times> request_pool \<times> bytes" where
  "request_finish lib method uri version len headers pool src =
     (let indices = header_index_record headers;
          h_len = length headers;
          (msg, pool1) = pool_get_message pool
      in if len > length src \<or> h_len > MAX_HEADERS then (Err Panics, pool1, src)
         else
           (let src' = drop len src;
                (r, msg) = rq_set_headers lib (take len src) (take h_len indices) msg
            in case r of
                 Err e \<Rightarrow> (Err e, pool_release msg pool1, src')
               | Ok plen \<Rightarrow>
                   (case request_payload_type method src' plen of
                      Err e \<Rightarrow> (Err (Fails e), pool_release msg pool1, src')
                    | Ok pt \<Rightarrow>
                        (Ok (Some (msg\<lparr>rq_uri := uri, rq_method := method, rq_version := version\<rparr>, pt)),
                         pool1, src'))))"

definition request_decode ::
  "http_lib \<Rightarrow> request_pool \<Rightarrow> bytes \<Rightarrow> (request_head \<times> payload_type) decoded \<times> request_pool \<times> bytes" where
  "request_decode lib pool src =
     (case hl_parse_request lib src of
        Err e \<Rightarrow> (Err (Fails (from_httparse e)), pool, src)
      | Ok Partial \<Rightarrow> (Ok None, pool, src)
      | Ok (Complete len req) \<Rightarrow>
          (case hl_method_from_bytes lib (pr_method req) of
             None \<Rightarrow> (Err (Fails PeMethod), pool, src)
           | Some method \<Rightarrow>
               (case hl_uri_from_str lib (pr_path req) of
                  None \<Rightarrow> (Err (Fails PeUri), pool, src)
                | Some uri \<Rightarrow>
                    request_finish lib method uri (version_of (pr_version req)) len (pr_headers req) pool src)))"

definition response_payload_type ::
  "response_head \<Rightarrow> bytes \<Rightarrow> payload_length \<Rightarrow> (response_head \<times> payload_type, parse_error) result" where
  "response_payload_type msg src len =
     (case len of
        PlPayload pl \<Rightarrow> Ok (msg, pl)
      | _ \<Rightarrow>
          if rs_status msg = SWITCHING_PROTOCOLS then Ok (msg, PtStream pd_eof)
          else if length src \<ge> MAX_BUFFER_SIZE then Err PeTooLarge
          else if rs_version msg = HTTP_10 then Ok (rs_set_connection_type CtClose msg, PtPayload pd_eof)
          else Ok (msg, PtNone))"

definition response_decode ::
  "http_lib \<Rightarrow> bytes \<Rightarrow> (response_head \<times> payload_type) decoded \<times> bytes" where
  "response_decode lib src =
     (case hl_parse_response lib src of
        Err e \<Rightarrow> (Err (Fails (from_httparse e)), src)
      | Ok Partial \<Rightarrow> (Ok None, src)
      | Ok (Complete len res) \<Rightarrow>
          (case hl_status_from_u16 lib (ps_code res) of
             None \<Rightarrow> (Err (Fails PeStatus), src)
           | Some status \<Rightarrow>
               (let indices = header_index_record (ps_headers res);
                    h_len = length (ps_headers res);
                    msg = (response_head_new status)\<lparr>rs_version := version_of (ps_version res)\<rparr>
                in if len > length src \<or> h_len > MAX_HEADERS then (Err Panics, src)
                   else
                     (let src' = drop len src;
                          (r, msg) = rs_set_headers lib (take len src) (take h_len indices) msg
                      in case r of
                           Err e \<Rightarrow> (Err e, src')
                         | Ok plen \<Rightarrow>
                             (case response_payload_type msg src' plen of
                                Err e \<Rightarrow> (Err (Fails e), src')
                              | Ok item \<Rightarrow> (Ok (Some item), src'))))))"

section \<open>The decoder contract\<close>

lemma request_finish_suffix:
  "request_finish lib m u v len hs pool src = (r, pool', src') \<Longrightarrow> r \<noteq> Ok None \<and> suffix src' src"
  by (cases "rq_set_headers lib (take len src) (take (length hs) (header_index_record hs)) (fst (pool_get_message pool))")
     (auto simp: request_finish_def Let_def suffix_drop split: result.splits prod.splits if_splits)

lemma request_decode_None:
  "request_decode lib pool src = (Ok None, pool', src') \<Longrightarrow> pool' = pool \<and> src' = src"
  by (auto simp: request_decode_def dest: request_finish_suffix
      split: result.splits option.splits parse_status.splits)

lemma request_decode_suffix: "request_decode lib pool src = (r, pool', src') \<Longrightarrow> suffix src' src"
  by (auto simp: request_decode_def dest: request_finish_suffix
      split: result.splits option.splits parse_status.splits)

interpretation request_head: stream_decoder "request_decode lib" for lib
  by unfold_locales (auto dest: request_decode_None request_decode_suffix)

section \<open>The headers of a message\<close>

fun header_pairs :: "http_lib \<Rightarrow> bytes \<Rightarrow> header_index list \<Rightarrow> (header_name \<times> header_value) list option" where
  "header_pairs lib s [] = Some []"
| "header_pairs lib s (idx # idxs) =
     (case (subslice s (fst idx), subslice s (snd idx)) of
        (Return nm, Return value) \<Rightarrow>
          (case hl_name_from_bytes lib nm of
             None \<Rightarrow> None
           | Some name \<Rightarrow> map_option (Cons (name, value)) (header_pairs lib s idxs))
      | _ \<Rightarrow> None)"

fun scan_list :: "http_lib \<Rightarrow> (header_name \<times> header_value) list \<Rightarrow> scan \<Rightarrow> (scan, parse_error) result" where
  "scan_list lib [] sc = Ok sc"
| "scan_list lib (kv # kvs) sc =
     (case scan_match lib (fst kv) (snd kv) sc of
        Err e \<Rightarrow> Err e
      | Ok sc' \<Rightarrow> scan_list lib kvs (scan_append (fst kv) (snd kv) sc'))"

lemma scan_headers_Ok:
  "header_pairs lib s idxs = Some kvs \<Longrightarrow> scan_list lib kvs sc = Ok sc' \<Longrightarrow>
     scan_headers lib s idxs sc = (Ok (), sc')"
  by (induction idxs arbitrary: kvs sc) (auto split: exec.splits option.splits result.splits)

lemma scan_headers_Err:
  "header_pairs lib s idxs = Some kvs \<Longrightarrow> scan_list lib kvs sc = Err e \<Longrightarrow>
     fst (scan_headers lib s idxs sc) = Err (Fails e)"
  by (induction idxs arbitrary: kvs sc) (auto split: exec.splits option.splits result.splits)

lemma scan_match_append:
  "scan_match lib n v sc = Ok sc' \<Longrightarrow> sc_headers sc' = sc_headers sc"
  by (auto simp: scan_match_def split: option.splits if_splits)

lemma scan_list_headers:
  "scan_list lib kvs sc = Ok sc' \<Longrightarrow> sc_headers sc' = headers.append_all (sc_headers sc) kvs"
proof (induction kvs arbitrary: sc)
  case (Cons kv kvs)
  then show ?case
    by (cases kv) (auto simp: scan_append_def dest: scan_match_append split: result.splits)
qed simp

section \<open>Where the body ends\<close>

text \<open>A declarative account of what the headers say.\<close>

definition te_chunked :: "http_lib \<Rightarrow> header_value \<Rightarrow> bool" where
  "te_chunked lib v \<longleftrightarrow>
     (case hl_to_str lib v of None \<Rightarrow> False | Some s \<Rightarrow> eq_ignore_ascii_case (trim s) (bstr ''chunked''))"

definition ws_upgrade :: "http_lib \<Rightarrow> header_name \<times> header_value \<Rightarrow> bool" where
  "ws_upgrade lib kv \<longleftrightarrow> fst kv = UPGRADE \<and>
     (case hl_to_str lib (snd kv) of None \<Rightarrow> False | Some s \<Rightarrow> eq_ignore_ascii_case (trim s) (bstr ''websocket''))"

definition cl_value :: "http_lib \<Rightarrow> header_value \<Rightarrow> u64 option" where
  "cl_value lib v = Option.bind (hl_to_str lib v) parse_u64"

text \<open>The non-zero lengths announced after the last WebSocket upgrade.\<close>

definition cl_values :: "http_lib \<Rightarrow> (header_name \<times> header_value) list \<Rightarrow> u64 list" where
  "cl_values lib kvs =
     [n. kv \<leftarrow> rev (takeWhile (\<lambda>kv. \<not> ws_upgrade lib kv) (rev kvs)), fst kv = CONTENT_LENGTH,
         n \<leftarrow> (case cl_value lib (snd kv) of Some n \<Rightarrow> if n = 0 then [] else [n] | None \<Rightarrow> [])]"

definition last_opt :: "'a list \<Rightarrow> 'a option" where
  "last_opt xs = (if xs = [] then None else Some (last xs))"

definition body_framing :: "http_lib \<Rightarrow> (header_name \<times> header_value) list \<Rightarrow> payload_length" where
  "body_framing lib kvs =
     (if \<exists>v. last_opt (filter (\<lambda>kv. fst kv = TRANSFER_ENCODING) kvs) = Some (TRANSFER_ENCODING, v) \<and> te_chunked lib v
      then PlPayload (PtPayload pd_chunked)
      else
        (case last_opt (cl_values lib kvs) of
           Some n \<Rightarrow> PlPayload (PtPayload (pd_length n))
         | None \<Rightarrow> if UPGRADE \<in> fst ` set kvs then PlUpgrade else PlNone))"

lemma scan_list_snoc:
  "scan_list lib (kvs @ [kv]) sc =
     (case scan_list lib kvs sc of
        Err e \<Rightarrow> Err e
      | Ok sc1 \<Rightarrow>
          (case scan_match lib (fst kv) (snd kv) sc1 of
             Err e \<Rightarrow> Err e
           | Ok sc2 \<Rightarrow> Ok (scan_append (fst kv) (snd kv) sc2)))"
  by (induction kvs arbitrary: sc) (auto split: result.split)

lemma header_names_distinct:
  "CONTENT_LENGTH \<noteq> TRANSFER_ENCODING" "CONTENT_LENGTH \<noteq> CONNECTION" "CONTENT_LENGTH \<noteq> UPGRADE"
  "CONTENT_LENGTH \<noteq> EXPECT" "TRANSFER_ENCODING \<noteq> CONNECTION" "TRANSFER_ENCODING \<noteq> UPGRADE"
  "TRANSFER_ENCODING \<noteq> EXPECT" "CONNECTION \<noteq> UPGRADE" "CONNECTION \<noteq> EXPECT" "UPGRADE \<noteq> EXPECT"
  by (simp_all add: header_name_defs)

lemma last_opt_snoc [simp]: "last_opt (xs @ [x]) = Some x"
  by (simp add: last_opt_def)

lemma last_opt_Nil [simp]: "last_opt [] = None"
  by (simp add: last_opt_def)

lemma cl_values_snoc:
  "cl_values lib (kvs @ [kv]) =
     (if ws_upgrade lib kv then []
      else cl_values lib kvs @
        (if fst kv = CONTENT_LENGTH
         then (case cl_value lib (snd kv) of Some n \<Rightarrow> if n = 0 then [] else [n] | None \<Rightarrow> []) else []))"
  by (simp add: cl_values_def)

text \<open>What the loop knows after any number of headers.\<close>

lemma scan_list_framing:
  "scan_list lib kvs (scan_init hm) = Ok sc \<Longrightarrow>
     (sc_chunked sc \<longleftrightarrow>
        (\<exists>v. last_opt (filter (\<lambda>kv. fst kv = TRANSFER_ENCODING) kvs) = Some (TRANSFER_ENCODING, v) \<and> te_chunked lib v)) \<and>
     sc_content_length sc = last_opt (cl_values lib kvs) \<and>
     (sc_has_upgrade sc \<longleftrightarrow> UPGRADE \<in> fst ` set kvs)"
proof (induction kvs arbitrary: sc rule: rev_induct)
  case Nil
  then show ?case by (auto simp: scan_init_def cl_values_def)
next
  case (snoc kv kvs)
  then obtain sc1 sc2 where s: "scan_list lib kvs (scan_init hm) = Ok sc1"
    "scan_match lib (fst kv) (snd kv) sc1 = Ok sc2" "sc = scan_append (fst kv) (snd kv) sc2"
    by (auto simp: scan_list_snoc split: result.splits)
  note ih = snoc.IH [OF s(1)]
  obtain n v where kv: "kv = (n, v)" by (cases kv)
  consider "n = CONTENT_LENGTH" | "n = TRANSFER_ENCODING" | "n = UPGRADE"
    | "n \<noteq> CONTENT_LENGTH" "n \<noteq> TRANSFER_ENCODING" "n \<noteq> UPGRADE" by blast
  then show ?case
  proof cases
    case 1
    with s kv ih header_names_distinct show ?thesis
      by (auto simp: scan_match_def scan_append_def cl_values_snoc cl_value_def ws_upgrade_def
          split: option.splits if_splits)
  next
    case 2
    with s kv ih header_names_distinct show ?thesis
      by (auto simp: scan_match_def scan_append_def cl_values_snoc ws_upgrade_def te_chunked_def
          split: option.splits if_splits)
  next
    case 3
    with s kv ih header_names_distinct show ?thesis
      by (auto simp: scan_match_def scan_append_def cl_values_snoc ws_upgrade_def
          split: option.splits if_splits)
  next
    case 4
    with s kv ih show ?thesis
      by (auto simp: scan_match_def scan_append_def cl_values_snoc ws_upgrade_def
          split: option.splits if_splits)
  qed
qed

section \<open>Properties\<close>

lemma scan_headers_pairs:
  "scan_headers lib s idxs sc = (Ok (), sc') \<Longrightarrow>
     \<exists>kvs. header_pairs lib s idxs = Some kvs \<and> scan_list lib kvs sc = Ok sc'"
  by (induction idxs arbitrary: sc) (fastforce split: exec.splits option.splits result.splits)+

lemma pool_get_headers [simp]: "rq_headers (fst (pool_get_message pool)) = hm_new"
  by (simp add: pool_get_message_def request_head_clear_def request_head_default_def hm_clear_def hm_new_def)

lemma request_decode_Some:
  assumes "request_decode lib pool src = (Ok (Some (head, pt)), pool', src')"
    and "hl_parse_request lib src = Ok (Complete len req)"
  obtains sc kvs where "header_pairs lib (take len src) (pr_headers req) = Some kvs"
    and "scan_list lib kvs (scan_init hm_new) = Ok sc"
    and "request_payload_type (rq_method head) src' (payload_length_of sc) = Ok pt"
    and "rq_headers head = sc_headers sc" and "src' = drop len src" and "len \<le> length src"
proof -
  define msg where "msg = fst (pool_get_message pool)"
  have m: "rq_headers msg = hm_new" by (simp add: msg_def)
  obtain meth uri where fin: "request_finish lib meth uri (version_of (pr_version req)) len (pr_headers req) pool src =
      (Ok (Some (head, pt)), pool', src')"
    using assms by (auto simp: request_decode_def split: option.splits)
  obtain r sc where h: "scan_headers lib (take len src) (pr_headers req) (scan_init hm_new) = (r, sc)"
    by (cases "scan_headers lib (take len src) (pr_headers req) (scan_init hm_new)")
  have idx: "take (length (pr_headers req)) (header_index_record (pr_headers req)) = pr_headers req"
    if "length (pr_headers req) \<le> MAX_HEADERS"
    using that by (simp add: header_index_record_def)
  have rest: "r = Ok ()" "request_payload_type meth src' (payload_length_of sc) = Ok pt" "src' = drop len src"
    "len \<le> length src"
    "head = (rq_apply sc msg)\<lparr>rq_uri := uri, rq_method := meth, rq_version := version_of (pr_version req)\<rparr>"
    using fin h m idx
    by (auto simp: request_finish_def rq_set_headers_def Let_def msg_def split_beta not_less
        split: result.splits if_splits)
  with scan_headers_pairs h obtain kvs where
    "header_pairs lib (take len src) (pr_headers req) = Some kvs" "scan_list lib kvs (scan_init hm_new) = Ok sc"
    by blast
  moreover have "rq_headers head = sc_headers sc" "rq_method head = meth"
    using rest(5) by (auto simp: rq_apply_def rq_set_connection_type_def rq_set_expect_def Let_def split: option.split)
  ultimately show thesis using that rest by blast
qed

text \<open>
  Property C6. A decoded request has exactly the headers of the message, with their
  multiplicities, leaves exactly the bytes after the head, and its body is delimited by its
  headers in this order: a last transfer coding of \<open>chunked\<close>; else the last non-zero content
  length after any WebSocket upgrade; else, for an upgrade or \<open>CONNECT\<close>, the end of the
  connection; else there is no body.
\<close>

theorem request_framing:
  assumes "request_decode lib pool src = (Ok (Some (head, pt)), pool', src')"
    and "hl_parse_request lib src = Ok (Complete len req)"
  shows "\<exists>kvs. header_pairs lib (take len src) (pr_headers req) = Some kvs \<and> src' = drop len src \<and>
    mset (hm_values (rq_headers head) n) = mset (map snd (filter (\<lambda>kv. fst kv = n) kvs)) \<and>
    pt = (case body_framing lib kvs of
            PlPayload pl \<Rightarrow> pl
          | PlUpgrade \<Rightarrow> PtStream pd_eof
          | PlNone \<Rightarrow> if rq_method head = METHOD_CONNECT then PtStream pd_eof else PtNone)"
proof -
  obtain sc kvs where k: "header_pairs lib (take len src) (pr_headers req) = Some kvs"
    and sl: "scan_list lib kvs (scan_init hm_new) = Ok sc"
    and pt: "request_payload_type (rq_method head) src' (payload_length_of sc) = Ok pt"
    and hd: "rq_headers head = sc_headers sc" and src': "src' = drop len src"
    using request_decode_Some [OF assms] by blast
  have "payload_length_of sc = body_framing lib kvs"
    using scan_list_framing [OF sl] by (auto simp: payload_length_of_def body_framing_def)
  moreover have "rq_headers head = headers.append_all hm_new kvs"
    using scan_list_headers [OF sl] hd by (simp add: scan_init_def)
  ultimately show ?thesis
    using k pt src' headers.values_collected [of kvs n]
    by (auto simp: request_payload_type_def split: payload_length.splits if_splits)
qed

text \<open>An example: a request with a body of three bytes.\<close>

definition demo_request :: bytes where
  "demo_request = bstr ''POST / HTTP/1.1'' @ [0x0D, 0x0A] @ bstr ''Content-Length: 3'' @ [0x0D, 0x0A, 0x0D, 0x0A] @ bstr ''abc''"

definition demo_lib :: http_lib where
  "demo_lib = demo_http\<lparr>hl_parse_request := (\<lambda>src. Ok (Complete 38
     \<lparr>pr_method = bstr ''POST'', pr_path = bstr ''/'', pr_version = 1, pr_headers = [((17, 31), (33, 34))]\<rparr>))\<rparr>"

lemma demo_request_decodes:
  "request_decode demo_lib [] demo_request =
     (Ok (Some (request_head_default\<lparr>rq_method := bstr ''POST'', rq_headers := [(CONTENT_LENGTH, One (bstr ''3''))]\<rparr>,
        PtPayload (pd_length 3))), [], bstr ''abc'')"
  by (simp add: demo_lib_def demo_request_def demo_http_def request_decode_def request_finish_def pool_get_message_def
      request_head_default_def rq_set_headers_def header_index_record_def MAX_HEADERS_def subslice_def
      to_ascii_lowercase_def to_lower_def scan_match_def header_name_defs parse_u64_def digit_val_def
      scan_append_def hm_append_def hm_new_def scan_init_def payload_length_of_def request_payload_type_def
      rq_apply_def version_of_def)

lemma request_framing_witness:
  "\<exists>kvs. header_pairs demo_lib (take 38 demo_request) [((17, 31), (33, 34))] = Some kvs \<and>
     PtPayload (pd_length 3) = (case body_framing demo_lib kvs of
            PlPayload pl \<Rightarrow> pl
          | PlUpgrade \<Rightarrow> PtStream pd_eof
          | PlNone \<Rightarrow> if bstr ''POST'' = METHOD_CONNECT then PtStream pd_eof else PtNone)"
  using request_framing [OF demo_request_decodes] by (force simp: demo_lib_def request_head_default_def)

text \<open>
  What the crates promise of a complete head: its length is within the input, at most as many
  headers as there is room for are reported, as slices of the head, and their names are
  header names.
\<close>

definition parse_ok :: "http_lib \<Rightarrow> bytes \<Rightarrow> nat \<Rightarrow> header_index list \<Rightarrow> bool" where
  "parse_ok lib src len headers \<longleftrightarrow>
     len \<le> length src \<and> length headers \<le> MAX_HEADERS \<and> header_pairs lib (take len src) headers \<noteq> None"

lemma scan_headers_no_panic:
  "header_pairs lib s idxs \<noteq> None \<Longrightarrow> fst (scan_headers lib s idxs sc) \<noteq> Err Panics"
  using scan_headers_Ok [of lib s idxs _ sc] scan_headers_Err [of lib s idxs _ sc]
  by (metis failure.distinct(1) fst_conv not_None_eq result.distinct(1) result.exhaust result.inject(2))

text \<open>
  With a parser that keeps its contract the decoder of requests never panics: every
  input is answered with a request, a request for more, or a parse error, and a request for
  more leaves the buffer and the pool as they are.
\<close>

theorem request_decode_total:
  assumes "\<And>len req. hl_parse_request lib src = Ok (Complete len req) \<Longrightarrow> parse_ok lib src len (pr_headers req)"
  shows "fst (request_decode lib pool src) \<noteq> Err Panics \<and>
    (fst (request_decode lib pool src) = Ok None \<longrightarrow> request_decode lib pool src = (Ok None, pool, src))"
proof -
  have "fst (request_finish lib m u v len (pr_headers req) pool src) \<noteq> Err Panics"
    if "hl_parse_request lib src = Ok (Complete len req)" for m u v len req
  proof -
    note ok = assms [OF that, unfolded parse_ok_def]
    have "fst (scan_headers lib (take len src) (pr_headers req) (scan_init hm_new)) \<noteq> Err Panics"
      using ok by (intro scan_headers_no_panic) simp
    moreover have "rq_set_headers lib (take len src) (pr_headers req) (fst (pool_get_message pool)) = (Err Panics, msg) \<Longrightarrow>
        fst (scan_headers lib (take len src) (pr_headers req) (scan_init hm_new)) = Err Panics" for msg
      by (auto simp: rq_set_headers_def split: prod.splits result.splits)
    ultimately have "fst (rq_set_headers lib (take len src) (pr_headers req) (fst (pool_get_message pool))) \<noteq> Err Panics"
      by (metis prod.collapse)
    then show ?thesis using ok
      by (auto simp: request_finish_def header_index_record_def Let_def split_beta not_less split: result.split)
  qed
  then have "fst (request_decode lib pool src) \<noteq> Err Panics"
    by (auto simp: request_decode_def split: result.split parse_status.split option.split)
  moreover have "fst (request_decode lib pool src) = Ok None \<Longrightarrow> request_decode lib pool src = (Ok None, pool, src)"
    using request_decode_None by (metis prod.collapse)
  ultimately show ?thesis by blast
qed

lemma request_decode_total_witness: "fst (request_decode demo_lib [] demo_request) \<noteq> Err Panics"
proof -
  have "parse_ok demo_lib demo_request len (pr_headers req)"
    if "hl_parse_request demo_lib demo_request = Ok (Complete len req)" for len req
    using that by (auto simp: demo_lib_def demo_http_def demo_request_def parse_ok_def MAX_HEADERS_def subslice_def
        to_ascii_lowercase_def)
  from request_decode_total [OF this] show ?thesis by blast
qed

text \<open>Heads up to the peer address, which the dispatcher sets.\<close>

fun forget_peer :: "(request_head \<times> payload_type) decoded \<Rightarrow> (request_head \<times> payload_type) decoded" where
  "forget_peer (Ok (Some (h, pt))) = Ok (Some (h\<lparr>rq_peer_addr := None\<rparr>, pt))"
| "forget_peer r = r"

text \<open>
  Requests do not influence each other through the pool of heads: what is decoded
  does not depend on which heads earlier requests left in the pool, the peer address apart.
\<close>

theorem request_decode_pool_independent:
  "forget_peer (fst (request_decode lib pool src)) = forget_peer (fst (request_decode lib [] src)) \<and>
   snd (snd (request_decode lib pool src)) = snd (snd (request_decode lib [] src))"
proof -
  have same: "\<exists>u m v a. fst (pool_get_message pool) =
      request_head_default\<lparr>rq_uri := u, rq_method := m, rq_version := v, rq_peer_addr := a\<rparr>"
    by (cases "last pool")
       (auto simp: pool_get_message_def request_head_clear_def request_head_default_def hm_clear_def hm_new_def
          ext_clear_def ext_new_def)
  then obtain u m v a where g: "fst (pool_get_message pool) =
      request_head_default\<lparr>rq_uri := u, rq_method := m, rq_version := v, rq_peer_addr := a\<rparr>" by blast
  have set: "rq_set_headers lib s idxs (request_head_default\<lparr>rq_uri := u, rq_method := m, rq_version := v, rq_peer_addr := a\<rparr>) =
      (let (r, m') = rq_set_headers lib s idxs request_head_default
       in (r, m'\<lparr>rq_uri := u, rq_method := m, rq_version := v, rq_peer_addr := a\<rparr>))" for s idxs
    by (auto simp: rq_set_headers_def rq_apply_def rq_set_connection_type_def rq_set_expect_def Let_def
        request_head_default_def split: prod.split result.split option.split)
  have "forget_peer (fst (request_finish lib m u v len hs pool src)) = forget_peer (fst (request_finish lib m u v len hs [] src)) \<and>
      snd (snd (request_finish lib m u v len hs pool src)) = snd (snd (request_finish lib m u v len hs [] src))"
    for m u v len hs
    using g set [of "take len src" "take (length hs) (header_index_record hs)"]
    by (cases "rq_set_headers lib (take len src) (take (length hs) (header_index_record hs)) request_head_default")
       (auto simp: request_finish_def Let_def split_beta pool_get_message_def [of "[]"] split: result.split)
  then show ?thesis
    by (simp add: request_decode_def split: result.split parse_status.split option.split)
qed

text \<open>
  Contradictory framing is accepted: of several different content lengths the last
  non-zero one counts, a content length of zero does not take back an earlier one, and a
  content length next to a chunked transfer coding is ignored.
\<close>

theorem conflicting_framing_accepted:
  assumes "hl_to_str lib = Some" and "0 < a" and "a < 2 ^ 64" and "0 < b" and "b < 2 ^ 64"
  shows "map (\<lambda>kvs. case scan_list lib kvs (scan_init hm_new) of Ok sc \<Rightarrow> Some (payload_length_of sc) | Err e \<Rightarrow> None)
      [[(CONTENT_LENGTH, dec a), (CONTENT_LENGTH, dec b)],
       [(CONTENT_LENGTH, dec a), (CONTENT_LENGTH, dec 0)],
       [(TRANSFER_ENCODING, bstr ''chunked''), (CONTENT_LENGTH, dec b)]] =
    map (\<lambda>d. Some (PlPayload (PtPayload d))) [pd_length (of_nat b), pd_length (of_nat a), pd_chunked]"
proof -
  have nz: "(of_nat n :: u64) \<noteq> 0" if "0 < n" "n < 2 ^ 64" for n
  proof -
    have "unat (of_nat n :: u64) = n" using that by (simp add: unat_of_nat)
    then show ?thesis using that by (metis less_irrefl unat_eq_zero)
  qed
  have ne: "TRANSFER_ENCODING \<noteq> CONTENT_LENGTH" using header_names_distinct by metis
  show ?thesis
    using assms nz ne parse_u64_dec [of a] parse_u64_dec [of b] parse_u64_dec [of 0]
    by (simp add: scan_match_def scan_append_def scan_init_def payload_length_of_def trim_def is_ws_def)
qed

lemma conflicting_framing_accepted_witness:
  "map (\<lambda>kvs. case scan_list demo_http kvs (scan_init hm_new) of Ok sc \<Rightarrow> Some (payload_length_of sc) | Err e \<Rightarrow> None)
      [[(CONTENT_LENGTH, dec 5), (CONTENT_LENGTH, dec 7)],
       [(CONTENT_LENGTH, dec 5), (CONTENT_LENGTH, dec 0)],
       [(TRANSFER_ENCODING, bstr ''chunked''), (CONTENT_LENGTH, dec 7)]] =
    map (\<lambda>d. Some (PlPayload (PtPayload d))) [pd_length (of_nat 7), pd_length (of_nat 5), pd_chunked]"
  by (rule conflicting_framing_accepted) (simp_all add: demo_http_def)

end
