(* ===== verification/Http_Helpers.thy ===== *)
theory Http_Helpers
  imports Http_Types "HOL-Library.Monad_Syntax"
begin

text \<open>
  The number formatting of \<open>helpers.rs\<close>: the status line and the content length are written
  through raw pointers into fixed arrays with a table of two-digit numbers. An access outside
  an array is \<open>None\<close>, so that memory safety is a theorem; the lemmas show that the routines
  are safe and write the decimal numbers.
\<close>

section \<open>Arrays\<close>

definition DEC_DIGITS_LUT :: bytes where
  "DEC_DIGITS_LUT = bstr (
     ''0001020304050607080910111213141516171819'' @
     ''2021222324252627282930313233343536373839'' @
     ''4041424344454647484950515253545556575859'' @
     ''6061626364656667686970717273747576777879'' @
     ''8081828384858687888990919293949596979899'')"

text \<open>\<open>copy_nonoverlapping(lut_ptr.offset(d), buf_ptr.offset(i), 2)\<close> and \<open>*buf_ptr.offset(i) = b\<close>.\<close>

definition copy2 :: "nat \<Rightarrow> int \<Rightarrow> bytes \<Rightarrow> bytes option" where
  "copy2 d i buf =
     (if d + 2 \<le> length DEC_DIGITS_LUT \<and> 0 \<le> i \<and> nat i + 2 \<le> length buf
      then Some (buf[nat i := DEC_DIGITS_LUT ! d, Suc (nat i) := DEC_DIGITS_LUT ! Suc d])
      else None)"

definition put1 :: "byte \<Rightarrow> int \<Rightarrow> bytes \<Rightarrow> bytes option" where
  "put1 b i buf = (if 0 \<le> i \<and> nat i < length buf then Some (buf[nat i := b]) else None)"

section \<open>The status line\<close>

definition write_status_line :: "http_version \<Rightarrow> u16 \<Rightarrow> bytes \<Rightarrow> bytes option" where
  "write_status_line version n bs =
     (let buf = bstr ''HTTP/1.1     '';
          buf = (case version of
                   HTTP_2 \<Rightarrow> buf[5 := 0x32]
                 | HTTP_10 \<Rightarrow> buf[7 := 0x30]
                 | HTTP_09 \<Rightarrow> buf[5 := 0x30, 7 := 0x39]
                 | _ \<Rightarrow> buf);
          four = n > 999;
          d1 = unat (n mod 100) * 2;
          n = n div 100
      in do {
           buf \<leftarrow> copy2 d1 10 buf;
           buf \<leftarrow> (if n < 10 then put1 (ucast n + 0x30) 9 buf else copy2 (unat n * 2) 8 buf);
           Some (bs @ buf @ (if four then [0x20] else []))
         })"

section \<open>The content length\<close>

text \<open>The loop that decodes four digits at a time, on the array \<open>buf\<close> and the cursor \<open>cur\<close>.\<close>

fun convert_loop :: "nat \<Rightarrow> int \<Rightarrow> bytes \<Rightarrow> (nat \<times> int \<times> bytes) option" where
  "convert_loop n cur buf =
     (if n \<ge> 10000 then
        (let rem = n mod 10000
         in do {
              buf \<leftarrow> copy2 ((rem div 100) * 2) (cur - 4) buf;
              buf \<leftarrow> copy2 ((rem mod 100) * 2) (cur - 4 + 2) buf;
              convert_loop (n div 10000) (cur - 4) buf
            })
      else Some (n, cur, buf))"

declare convert_loop.simps [simp del]

text \<open>The array is not initialised: \<open>mem\<close> is what it holds.\<close>

definition convert_usize :: "bytes \<Rightarrow> nat \<Rightarrow> bytes \<Rightarrow> bytes option" where
  "convert_usize mem n bs =
     (let buf = mem[39 := 0x0D, 40 := 0x0A]
      in do {
           (n, cur, buf) \<leftarrow> convert_loop n 39 buf;
           (n, cur, buf) \<leftarrow>
             (if n \<ge> 100
              then do { buf \<leftarrow> copy2 ((n mod 100) * 2) (cur - 2) buf; Some (n div 100, cur - 2, buf) }
              else Some (n, cur, buf));
           (cur, buf) \<leftarrow>
             (if n < 10
              then do { buf \<leftarrow> put1 (of_nat n + 0x30) (cur - 1) buf; Some (cur - 1, buf) }
              else do { buf \<leftarrow> copy2 (n * 2) (cur - 2) buf; Some (cur - 2, buf) });
           if 0 \<le> cur then Some (bs @ drop (nat cur) buf) else None
         })"

definition write_content_length :: "bytes \<Rightarrow> nat \<Rightarrow> bytes \<Rightarrow> bytes option" where
  "write_content_length mem n bs =
     (if n < 10 then
        (let buf = [0x0D, 0x0A] @ bstr ''content-length: 0'' @ [0x0D, 0x0A]
         in Some (bs @ buf[18 := of_nat n + 0x30]))
      else if n < 100 then
        (let buf = [0x0D, 0x0A] @ bstr ''content-length: 00'' @ [0x0D, 0x0A]
         in do { buf \<leftarrow> copy2 (n * 2) 18 buf; Some (bs @ buf) })
      else if n < 1000 then
        (let buf = [0x0D, 0x0A] @ bstr ''content-length: 000'' @ [0x0D, 0x0A]
         in do {
              buf \<leftarrow> copy2 ((n mod 100) * 2) 19 buf;
              Some (bs @ buf[18 := of_nat (n div 100) + 0x30])
            })
      else convert_usize mem n (bs @ [0x0D, 0x0A] @ bstr ''content-length: ''))"

section \<open>Correctness\<close>

lemma length_lut: "length DEC_DIGITS_LUT = 200"
  by (simp add: DEC_DIGITS_LUT_def)

lemma lut_table: "DEC_DIGITS_LUT = concat (map (\<lambda>k. [digit (k div 10), digit (k mod 10)]) [0..<100])"
  by (simp add: DEC_DIGITS_LUT_def digit_def upt_rec)

lemma nth_concat_pairs:
  "k < n \<Longrightarrow> concat (map (\<lambda>k. [f k, g k]) [0..<n]) ! (k * 2) = f k"
  "k < n \<Longrightarrow> concat (map (\<lambda>k. [f k, g k]) [0..<n]) ! Suc (k * 2) = g k"
proof (induction n)
  case (Suc n)
  have len: "length (concat (map (\<lambda>k. [f k, g k]) [0..<n])) = n * 2" by (induction n) auto
  { case 1 with Suc len show ?case by (auto simp: nth_append less_Suc_eq) }
  { case 2 with Suc len show ?case by (auto simp: nth_append less_Suc_eq) }
qed auto

lemma lut_digits:
  assumes "k < 100"
  shows "DEC_DIGITS_LUT ! (k * 2) = digit (k div 10)" and "DEC_DIGITS_LUT ! Suc (k * 2) = digit (k mod 10)"
  using nth_concat_pairs [OF assms] by (simp_all only: lut_table)

lemma copy2_eq:
  "k < 100 \<Longrightarrow> i + 2 \<le> length buf \<Longrightarrow>
     copy2 (k * 2) (int i) buf = Some (buf[i := digit (k div 10), Suc i := digit (k mod 10)])"
  by (simp add: copy2_def length_lut lut_digits)

lemma drop_put1: "i < length buf \<Longrightarrow> drop i (buf[i := a]) = a # drop (Suc i) buf"
  using Cons_nth_drop_Suc [of i "buf[i := a]"] by simp

lemma drop_put2: "i + 2 \<le> length buf \<Longrightarrow> drop i (buf[i := a, Suc i := b]) = [a, b] @ drop (i + 2) buf"
  using Cons_nth_drop_Suc [of i "buf[i := a, Suc i := b]"]
    Cons_nth_drop_Suc [of "Suc i" "buf[i := a, Suc i := b]"] by simp

lemma drop_put4:
  assumes "i + 4 \<le> length buf"
  shows "drop i (buf[i := a, Suc i := b, i + 2 := c, i + 3 := d]) = [a, b, c, d] @ drop (i + 4) buf"
proof -
  let ?b = "buf[i := a, Suc i := b, i + 2 := c, i + 3 := d]"
  have "drop i ?b = ?b ! i # ?b ! Suc i # ?b ! (i + 2) # ?b ! (i + 3) # drop (i + 4) ?b"
    using assms Cons_nth_drop_Suc [of i ?b] Cons_nth_drop_Suc [of "Suc i" ?b]
      Cons_nth_drop_Suc [of "i + 2" ?b] Cons_nth_drop_Suc [of "i + 3" ?b]
    by (simp add: numeral_eq_Suc)
  then show ?thesis using assms by simp
qed

lemma pad_dec_2: "r < 100 \<Longrightarrow> pad_dec 2 r = [digit (r div 10), digit (r mod 10)]"
proof -
  have "2 = Suc (Suc 0)" by simp
  then show "r < 100 \<Longrightarrow> ?thesis" by (simp only: pad_dec.simps append.simps) simp
qed

lemma pad_dec_4:
  assumes "r < 10000"
  shows "pad_dec 4 r = [digit (r div 100 div 10), digit (r div 100 mod 10),
    digit (r mod 100 div 10), digit (r mod 100 mod 10)]"
proof -
  have four: "4 = Suc (Suc (Suc (Suc 0)))" by simp
  have d: "r div 10 div 10 = r div 100" by (simp add: div_mult2_eq [symmetric])
  have q: "r div 100 div 10 mod 10 = r div 100 div 10"
    using assms by (intro mod_less) (simp add: div_mult2_eq [symmetric] less_mult_imp_div_less)
  have "r mod (10 * 10) = 10 * (r div 10 mod 10) + r mod 10" by (rule mod_mult2_eq)
  then have m: "r mod 100 div 10 = r div 10 mod 10" "r mod 100 mod 10 = r mod 10" by simp_all
  show ?thesis unfolding four by (simp only: pad_dec.simps append.simps d q m)
qed

text \<open>
  The loop keeps the decimal digits: what is left of the number, in front of what the array
  holds from the cursor on. The cursor is where the digits of the rest still fit.
\<close>

lemma convert_loop_ok:
  "n < 10 ^ c \<Longrightarrow> c \<le> length buf \<Longrightarrow>
     \<exists>n' c' buf'. convert_loop n (int c) buf = Some (n', int c', buf') \<and> length buf' = length buf \<and>
       n' < 10000 \<and> n' < 10 ^ c' \<and> c' \<le> c \<and> dec n' @ drop c' buf' = dec n @ drop c buf"
proof (induction n "int c" buf arbitrary: c rule: convert_loop.induct)
  case (1 n buf)
  show ?case
  proof (cases "n \<ge> 10000")
    case False
    with 1 show ?thesis by (auto simp: convert_loop.simps [of n])
  next
    case True
    have c4: "4 \<le> c"
    proof (rule ccontr)
      assume "\<not> 4 \<le> c"
      then have "(10::nat) ^ c \<le> 10 ^ 3" by (intro power_increasing) auto
      with True "1.prems" show False by simp
    qed
    then obtain i where c: "c = i + 4" by (metis add.commute le_Suc_ex)
    let ?r = "n mod 10000"
    let ?b = "buf[i := digit (?r div 100 div 10), Suc i := digit (?r div 100 mod 10),
                  i + 2 := digit (?r mod 100 div 10), i + 3 := digit (?r mod 100 mod 10)]"
    have r: "?r div 100 < 100" "?r mod 100 < 100" by (auto simp: less_mult_imp_div_less)
    have c1: "copy2 (?r div 100 * 2) (int c - 4) buf =
        Some (buf[i := digit (?r div 100 div 10), Suc i := digit (?r div 100 mod 10)])"
      using copy2_eq [OF r(1), of i buf] "1.prems" c by simp
    have e: "int c - 4 + 2 = int (i + 2)" "Suc (i + 2) = i + 3" using c by simp_all
    have c2: "copy2 (?r mod 100 * 2) (int c - 4 + 2)
        (buf[i := digit (?r div 100 div 10), Suc i := digit (?r div 100 mod 10)]) = Some ?b"
      unfolding e(1) by (subst copy2_eq [OF r(2)]) (use "1.prems" c in \<open>simp_all only: e(2), simp\<close>)
    have step: "convert_loop n (int c) buf = convert_loop (n div 10000) (int c - 4) ?b"
      using True by (subst convert_loop.simps) (simp only: Let_def c1 c2 bind.bind_lunit if_True)
    have i: "int c - 4 = int i" using c by simp
    have small: "n div 10000 < 10 ^ i"
      using "1.prems" c by (simp add: power_add less_mult_imp_div_less mult.commute)
    obtain n' c' buf' where ih: "convert_loop (n div 10000) (int c - 4) ?b = Some (n', int c', buf')"
      "length buf' = length buf" "n' < 10000" "n' < 10 ^ c'" "c' \<le> i"
      "dec n' @ drop c' buf' = dec (n div 10000) @ drop i ?b"
    proof -
      have "i \<le> length ?b" using "1.prems" c by simp
      from "1.hyps" [OF True refl c1 c2 i small this] show thesis
        unfolding i [symmetric] length_list_update using that by blast
    qed
    have "dec n = dec (n div 10000) @ pad_dec 4 ?r" using dec_pad [of 4 n] True by simp
    moreover have "pad_dec 4 ?r = [digit (?r div 100 div 10), digit (?r div 100 mod 10),
        digit (?r mod 100 div 10), digit (?r mod 100 mod 10)]"
      by (rule pad_dec_4) simp
    moreover have "drop i ?b = [digit (?r div 100 div 10), digit (?r div 100 mod 10),
        digit (?r mod 100 div 10), digit (?r mod 100 mod 10)] @ drop c buf"
      using drop_put4 [of i buf] "1.prems" c by simp
    ultimately show ?thesis using ih step c by (intro exI [of _ n'] exI [of _ c'] exI [of _ buf']) simp
  qed
qed

lemma copy2_dec:
  assumes "k < 100" and "10 \<le> k" and "k < 10 ^ c" and "c \<le> length buf"
  shows "\<exists>i buf'. int c - 2 = int i \<and> copy2 (k * 2) (int i) buf = Some buf' \<and> length buf' = length buf \<and>
    drop i buf' = dec k @ drop c buf"
proof -
  have "2 \<le> c"
  proof (rule ccontr)
    assume "\<not> 2 \<le> c"
    then have "(10::nat) ^ c \<le> 10 ^ 1" by (intro power_increasing) auto
    with assms show False by simp
  qed
  then obtain i where c: "c = i + 2" by (metis add.commute le_Suc_ex)
  have "dec k = [digit (k div 10), digit (k mod 10)]"
    using assms by (simp add: dec.simps [of k] dec.simps [of "k div 10"] less_mult_imp_div_less)
  with c assms copy2_eq [OF assms(1), of i buf] drop_put2 [of i buf] show ?thesis
    by (intro exI [of _ i]) simp
qed

lemma convert_usize_ok:
  assumes "length mem = 41" and "n < 10 ^ 39"
  shows "convert_usize mem n bs = Some (bs @ dec n @ [0x0D, 0x0A])"
proof -
  let ?buf = "mem[39 := 0x0D, 40 := 0x0A]"
  have tail: "drop 39 ?buf = [0x0D, 0x0A]"
    using drop_put2 [of 39 mem "0x0D" "0x0A"] assms(1) by simp
  obtain n1 c1 b1 where l: "convert_loop n 39 ?buf = Some (n1, int c1, b1)" "length b1 = 41"
    "n1 < 10000" "n1 < 10 ^ c1" "c1 \<le> 39" "dec n1 @ drop c1 b1 = dec n @ [0x0D, 0x0A]"
    using convert_loop_ok [of n 39 ?buf] assms tail by auto
  define mid where "mid = (if n1 \<ge> 100
    then do { buf \<leftarrow> copy2 ((n1 mod 100) * 2) (int c1 - 2) b1; Some (n1 div 100, int c1 - 2, buf) }
    else Some (n1, int c1, b1))"
  have "\<exists>n2 c2 b2. mid = Some (n2, int c2, b2) \<and> length b2 = 41 \<and> n2 < 100 \<and> n2 < 10 ^ c2 \<and>
      c2 \<le> 39 \<and> dec n2 @ drop c2 b2 = dec n @ [0x0D, 0x0A]"
  proof (cases "n1 \<ge> 100")
    case False
    then show ?thesis using l by (auto simp: mid_def)
  next
    case True
    have "2 < c1"
    proof (rule ccontr)
      assume "\<not> 2 < c1"
      then have "(10::nat) ^ c1 \<le> 10 ^ 2" by (intro power_increasing) auto
      with True l show False by simp
    qed
    then obtain i where c: "c1 = i + 2" by (metis add.commute le_Suc_ex less_imp_le)
    have "dec n1 = dec (n1 div 100) @ [digit (n1 mod 100 div 10), digit (n1 mod 100 mod 10)]"
      using dec_pad [of 2 n1] pad_dec_2 [of "n1 mod 100"] True by simp
    moreover have "copy2 ((n1 mod 100) * 2) (int c1 - 2) b1 =
        Some (b1[i := digit (n1 mod 100 div 10), Suc i := digit (n1 mod 100 mod 10)])"
      using copy2_eq [of "n1 mod 100" i b1] l c by simp
    moreover have "n1 div 100 < 10 ^ i"
      using l(4) c by (simp add: power_add less_mult_imp_div_less mult.commute)
    ultimately show ?thesis using l c drop_put2 [of i b1] True
      by (intro exI [of _ "n1 div 100"] exI [of _ i] exI) (auto simp: mid_def less_mult_imp_div_less)
  qed
  then obtain n2 c2 b2 where m: "mid = Some (n2, int c2, b2)" "length b2 = 41" "n2 < 100"
    "n2 < 10 ^ c2" "c2 \<le> 39" "dec n2 @ drop c2 b2 = dec n @ [0x0D, 0x0A]" by blast
  have un: "convert_usize mem n bs = do {
       (n, cur, buf) \<leftarrow> mid;
       (cur, buf) \<leftarrow>
         (if n < 10 then do { buf \<leftarrow> put1 (of_nat n + 0x30) (cur - 1) buf; Some (cur - 1, buf) }
          else do { buf \<leftarrow> copy2 (n * 2) (cur - 2) buf; Some (cur - 2, buf) });
       if 0 \<le> cur then Some (bs @ drop (nat cur) buf) else None }"
    using l(1) by (simp add: convert_usize_def mid_def)
  show ?thesis
  proof (cases "n2 < 10")
    case True
    have one: "dec n2 = [digit n2]" using True by (simp add: dec.simps [of n2])
    have "length (dec n) \<le> 39" using assms(2) by (intro length_dec) auto
    moreover have "length (dec n2 @ drop c2 b2) = length (dec n) + 2" by (simp add: m(6))
    ultimately have "c2 \<noteq> 0" using m(2) one by (intro notI) simp
    then obtain i where c: "c2 = Suc i" by (cases c2) auto
    with un m one True drop_put1 [of i b2] c show ?thesis by (simp add: put1_def digit_def)
  next
    case False
    with copy2_dec [of n2 c2 b2] m obtain i b3 where "int c2 - 2 = int i"
      "copy2 (n2 * 2) (int i) b2 = Some b3" "drop i b3 = dec n2 @ drop c2 b2" by auto
    with un m False show ?thesis by simp
  qed
qed

lemma dec_1: "n < 10 \<Longrightarrow> dec n = [of_nat n + 0x30]"
  by (simp add: dec.simps [of n] digit_def)

lemma dec_2: "10 \<le> n \<Longrightarrow> n < 100 \<Longrightarrow> dec n = [digit (n div 10), digit (n mod 10)]"
  by (simp add: dec.simps [of n] dec.simps [of "n div 10"] less_mult_imp_div_less)

lemma dec_3: "100 \<le> n \<Longrightarrow> n < 1000 \<Longrightarrow>
    dec n = [digit (n div 100), digit (n mod 100 div 10), digit (n mod 100 mod 10)]"
  using dec_pad [of 2 n] pad_dec_2 [of "n mod 100"]
  by (simp add: dec.simps [of "n div 100"] less_mult_imp_div_less)

lemma write_content_length_eq:
  assumes "length mem = 41" and "n < 2 ^ 64"
  shows "write_content_length mem n bs =
    Some (bs @ [0x0D, 0x0A] @ bstr ''content-length: '' @ dec n @ [0x0D, 0x0A])"
proof -
  consider "n < 10" | "10 \<le> n" "n < 100" | "100 \<le> n" "n < 1000" | "1000 \<le> n" by linarith
  then show ?thesis
  proof cases
    case 1
    then show ?thesis by (simp add: write_content_length_def dec_1)
  next
    case 2
    with copy2_eq [of n 18] show ?thesis by (simp add: write_content_length_def dec_2)
  next
    case 3
    then have "\<not> n < 10" "\<not> n < 100" by simp_all
    with 3 copy2_eq [of "n mod 100" 19] show ?thesis
      by (simp add: write_content_length_def dec_3 digit_def)
  next
    case 4
    have "n < 10 ^ 39" using assms(2) by (rule order.strict_trans) simp
    with 4 assms(1) show ?thesis by (simp add: write_content_length_def convert_usize_ok)
  qed
qed

text \<open>
  The content length header is written in decimal: for every length that a
  64-bit \<open>usize\<close> can hold, the pointer arithmetic of \<open>write_content_length\<close> and
  \<open>convert_usize\<close> stays inside its arrays and the output is the header line with the decimal
  digits of the length, whatever the uninitialised array holds.
\<close>

theorem write_content_length_decimal:
  assumes "length mem = 41" and "n < 2 ^ 64"
  shows "write_content_length mem n bs =
    Some (bs @ [0x0D, 0x0A] @ bstr ''content-length: '' @ dec n @ [0x0D, 0x0A])"
  using assms by (rule write_content_length_eq)

lemma write_content_length_decimal_witness:
  "write_content_length (replicate 41 0xAA) 1234567 [] =
     Some ([] @ [0x0D, 0x0A] @ bstr ''content-length: '' @ dec 1234567 @ [0x0D, 0x0A])"
  by (rule write_content_length_decimal) simp_all

text \<open>
  The status line of every three-digit status code is written within the array
  and is the version, a space, the three digits of the code and a space.
\<close>

theorem write_status_line_ok:
  assumes "100 \<le> n" and "n \<le> 999"
  shows "write_status_line version n bs =
    Some (bs @ (case version of HTTP_09 \<Rightarrow> bstr ''HTTP/0.9'' | HTTP_10 \<Rightarrow> bstr ''HTTP/1.0''
                 | HTTP_2 \<Rightarrow> bstr ''HTTP/2.1'' | _ \<Rightarrow> bstr ''HTTP/1.1'') @ [0x20] @ dec (unat n) @ [0x20])"
proof -
  have n: "100 \<le> unat n" "unat n < 1000" using assms by (simp_all add: word_le_nat_alt)
  have d: "unat (n div 100) = unat n div 100" "unat (n mod 100) = unat n mod 100"
    by (simp_all add: unat_div unat_mod)
  have lt: "n div 100 < 10" using n d by (simp add: word_less_nat_alt less_mult_imp_div_less)
  have u: "ucast (n div 100) + 0x30 = digit (unat n div 100)"
    by (simp add: digit_def d [symmetric])
  have four: "\<not> n > 999" using assms(2) by simp
  show ?thesis
    using copy2_eq [of "unat n mod 100" 10] n
    by (cases version)
      (simp_all add: write_status_line_def Let_def d lt u four put1_def dec_3)
qed

lemma write_status_line_ok_witness:
  "write_status_line HTTP_11 404 [] =
     Some ([] @ (case HTTP_11 of HTTP_09 \<Rightarrow> bstr ''HTTP/0.9'' | HTTP_10 \<Rightarrow> bstr ''HTTP/1.0''
                 | HTTP_2 \<Rightarrow> bstr ''HTTP/2.1'' | _ \<Rightarrow> bstr ''HTTP/1.1'') @ [0x20] @ dec (unat (404 :: u16)) @ [0x20])"
  by (rule write_status_line_ok) simp_all

end
