(* ===== verification/H1_Transfer_Encoding.thy ===== *)
theory H1_Transfer_Encoding
  imports H1_Payload_Decoder Ascii
begin

text \<open>
  The encoders of HTTP/1 bodies (\<open>TransferEncoding\<close> in \<open>h1/encoder.rs\<close>) and, against the
  decoders, the round trip: what one side encodes the other decodes, and the decoder stops
  exactly at the end of the body.
\<close>

section \<open>Encoding\<close>

datatype te_kind = TeChunked bool | TeLength u64 | TeEof

record transfer_encoding =
  te_kind :: te_kind

definition te_empty :: transfer_encoding where "te_empty = \<lparr>te_kind = TeLength 0\<rparr>"
definition te_eof :: transfer_encoding where "te_eof = \<lparr>te_kind = TeEof\<rparr>"
definition te_chunked :: transfer_encoding where "te_chunked = \<lparr>te_kind = TeChunked False\<rparr>"
definition te_length :: "u64 \<Rightarrow> transfer_encoding" where "te_length len = \<lparr>te_kind = TeLength len\<rparr>"

definition te_encode ::
  "transfer_encoding \<Rightarrow> bytes \<Rightarrow> bytes \<Rightarrow> (bool, io_error) result \<times> transfer_encoding \<times> bytes" where
  "te_encode te msg buf =
     (case te_kind te of
        TeEof \<Rightarrow> (Ok (msg = []), te, buf @ msg)
      | TeChunked eof \<Rightarrow>
          if eof then (Ok True, te, buf)
          else if msg = [] then (Ok True, \<lparr>te_kind = TeChunked True\<rparr>, buf @ bstr ''0'' @ [0x0D, 0x0A, 0x0D, 0x0A])
          else (Ok False, te, buf @ hex_upper (length msg) @ [0x0D, 0x0A] @ msg @ [0x0D, 0x0A])
      | TeLength remaining \<Rightarrow>
          if remaining > 0 then
            (if msg = [] then (Ok (remaining = 0), te, buf)
             else
               (let len = min remaining (of_nat (length msg))
                in (Ok (remaining - len = 0), \<lparr>te_kind = TeLength (remaining - len)\<rparr>, buf @ take (unat len) msg)))
          else (Ok True, te, buf))"

definition te_encode_eof ::
  "transfer_encoding \<Rightarrow> bytes \<Rightarrow> (unit, io_error) result \<times> transfer_encoding \<times> bytes" where
  "te_encode_eof te buf =
     (case te_kind te of
        TeEof \<Rightarrow> (Ok (), te, buf)
      | TeLength rem \<Rightarrow> if rem \<noteq> 0 then (Err (IoError UnexpectedEof ''''), te, buf) else (Ok (), te, buf)
      | TeChunked eof \<Rightarrow>
          if \<not> eof then (Ok (), \<lparr>te_kind = TeChunked True\<rparr>, buf @ bstr ''0'' @ [0x0D, 0x0A, 0x0D, 0x0A])
          else (Ok (), te, buf))"

text \<open>A whole body: its pieces and the end, as the dispatcher passes them.\<close>

fun te_body :: "transfer_encoding \<Rightarrow> bytes list \<Rightarrow> bytes \<Rightarrow> (unit, io_error) result \<times> transfer_encoding \<times> bytes" where
  "te_body te [] buf = te_encode_eof te buf"
| "te_body te (m # ms) buf = (let (_, te', buf') = te_encode te m buf in te_body te' ms buf')"

section \<open>The size line\<close>

lemma hex_digit_val:
  assumes "d < 16"
  shows "hex_val (hex_digit_upper d) = Some d"
proof -
  have u: "unat (of_nat d + (0x30 :: byte)) = d + 48" "unat (of_nat d + (55 :: byte)) = d + 55"
    using assms by (simp_all add: unat_word_ariths unat_of_nat)
  show ?thesis using assms by (auto simp: hex_digit_upper_def hex_val_def word_le_nat_alt u)
qed

lemma hex_upper_digits: "b \<in> set (hex_upper n) \<Longrightarrow> hex_val b \<noteq> None"
proof (induction n rule: hex_upper.induct)
  case (1 n)
  show ?case
  proof (cases "n < 16")
    case True
    with "1.prems" show ?thesis by (simp add: hex_upper.simps [of n] hex_digit_val)
  next
    case False
    have "n mod 16 < 16" by simp
    from hex_digit_val [OF this] False "1.prems" "1.IH" show ?thesis
      by (auto simp: hex_upper.simps [of n])
  qed
qed

lemma hex_nat_upper: "hex_nat (hex_upper n) = n"
proof (induction n rule: hex_upper.induct)
  case (1 n)
  have "n mod 16 < 16" by simp
  from hex_digit_val [OF this] 1 show ?case
    by (cases "n < 16") (auto simp: hex_upper.simps [of n] hex_nat_def hex_digit_val)
qed

section \<open>Chunked bodies\<close>

definition chunk_wire :: "bytes \<Rightarrow> bytes" where
  "chunk_wire m = hex_upper (length m) @ [0x0D, 0x0A] @ m @ [0x0D, 0x0A]"

lemma te_body_done: "te_body \<lparr>te_kind = TeChunked True\<rparr> ms buf = (Ok (), \<lparr>te_kind = TeChunked True\<rparr>, buf)"
  by (induction ms) (auto simp: te_encode_def te_encode_eof_def)

lemma te_body_chunked:
  "te_body te_chunked ms buf = (Ok (), \<lparr>te_kind = TeChunked True\<rparr>,
     buf @ concat (map chunk_wire (takeWhile (\<lambda>m. m \<noteq> []) ms)) @ [0x30, 0x0D, 0x0A, 0x0D, 0x0A])"
proof (induction ms arbitrary: buf)
  case (Cons m ms)
  then show ?case
    by (cases "m = []") (auto simp: te_encode_def te_chunked_def te_body_done chunk_wire_def)
qed (simp add: te_chunked_def te_encode_eof_def)

lemma body_run_chunk_wire:
  assumes "m \<noteq> []" and "length m < 2 ^ 64"
  shows "body_run ChSize 0 (chunk_wire m @ rest) = (let (d, r) = body_run ChSize 0 rest in (m @ d, r))"
  using body_run_chunk [of "hex_upper (length m)" "[]" m rest] assms hex_upper_digits hex_nat_upper
  by (simp add: chunk_wire_def chunk_ext_def)

lemma body_run_chunks:
  "\<forall>m \<in> set ms. m \<noteq> [] \<and> length m < 2 ^ 64 \<Longrightarrow>
     body_run ChSize 0 (concat (map chunk_wire ms) @ rest) = (let (d, r) = body_run ChSize 0 rest in (concat ms @ d, r))"
proof (induction ms)
  case (Cons m ms)
  then have "body_run ChSize 0 (chunk_wire m @ concat (map chunk_wire ms) @ rest) =
      (let (d, r) = body_run ChSize 0 (concat (map chunk_wire ms) @ rest) in (m @ d, r))"
    by (intro body_run_chunk_wire) auto
  with Cons show ?case by (simp split: prod.splits)
qed (simp split: prod.split)

lemma body_run_zero: "body_run ChSize 0 ([0x30, 0x0D, 0x0A, 0x0D, 0x0A] @ rest) = ([], AtEnd rest)"
  using body_run_last [of "[0x30]" "[]" rest]
  by (simp add: chunk_ext_def hex_nat_def hex_val_def del: body_run.simps)

text \<open>
  Property C7. A chunked body survives the wire: for any pieces, what the encoder writes is
  decoded to their concatenation, up to the first empty piece (which ends the body), and the
  decoder stops at its end, whatever follows in the buffer and however the transport cuts the
  stream.
\<close>

theorem chunked_roundtrip:
  assumes "\<forall>m \<in> set ms. length m < 2 ^ 64"
    and "concat ps = snd (snd (te_body te_chunked ms [])) @ rest"
  shows "fst (te_body te_chunked ms []) = Ok () \<and>
    feed pd_chunked [] ps = (concat (takeWhile (\<lambda>m. m \<noteq> []) ms), DrainEof rest)"
proof -
  let ?ms = "takeWhile (\<lambda>m. m \<noteq> []) ms"
  have "\<forall>m \<in> set ?ms. m \<noteq> [] \<and> length m < 2 ^ 64"
    using assms(1) by (auto dest: set_takeWhileD)
  from body_run_chunks [OF this, of "[0x30, 0x0D, 0x0A, 0x0D, 0x0A] @ rest"] body_run_zero [of rest]
  have "body_run ChSize 0 (concat ps) = (concat ?ms, AtEnd rest)"
    using assms(2) by (simp add: te_body_chunked del: body_run.simps)
  then show ?thesis
    by (simp add: te_body_chunked feed_drain pd_chunked_def pd_wf_def drain_chunked)
qed

lemma chunked_roundtrip_witness:
  "feed pd_chunked [] [[0x32, 0x0D, 0x0A, 104], [105, 0x0D, 0x0A, 0x30, 0x0D, 0x0A, 0x0D, 0x0A], [71]] =
     ([104, 105], DrainEof [71])"
proof -
  have "concat [[0x32, 0x0D, 0x0A, 104], [105, 0x0D, 0x0A, 0x30, 0x0D, 0x0A, 0x0D, 0x0A], [71]] =
      snd (snd (te_body te_chunked [[104, 105]] [])) @ [71]"
    by (simp add: te_body_chunked chunk_wire_def hex_upper.simps hex_digit_upper_def del: te_body.simps)
  from chunked_roundtrip [OF _ this] show ?thesis
    by (simp del: feed.simps te_body.simps)
qed

section \<open>Bodies of known length\<close>

definition length_end :: "u64 \<Rightarrow> (unit, io_error) result" where
  "length_end left = (if left = 0 then Ok () else Err (IoError UnexpectedEof ''''))"

lemma te_body_length:
  assumes "\<forall>m \<in> set ms. length m < 2 ^ 64"
  shows "te_body (te_length n) ms buf =
    (let left = n - of_nat (min (unat n) (length (concat ms)))
     in (length_end left, te_length left, buf @ take (unat n) (concat ms)))"
  using assms
proof (induction ms arbitrary: n buf)
  case Nil
  then show ?case by (simp add: te_length_def te_encode_eof_def length_end_def)
next
  case (Cons m ms)
  let ?k = "min n (of_nat (length m))"
  have k: "unat ?k = min (unat n) (length m)" using Cons.prems by (simp add: unat_of_nat)
  have left: "unat (n - ?k) = unat n - min (unat n) (length m)"
    using k by (simp add: unat_sub min.cobounded1)
  have step: "te_encode (te_length n) m buf =
      (Ok (n - ?k = 0), te_length (n - ?k), buf @ take (min (unat n) (length m)) m)"
    using k by (auto simp: te_encode_def te_length_def Let_def word_neq_0_conv [symmetric])
  have eq1: "n - ?k - of_nat (min (unat (n - ?k)) (length (concat ms))) =
      n - of_nat (min (unat n) (length m + length (concat ms)))"
  proof -
    have "?k = of_nat (min (unat n) (length m))" by (metis k of_nat_unat ucast_id)
    then show ?thesis unfolding left
      by (cases "unat n \<le> length m") (auto simp: min_def of_nat_diff algebra_simps)
  qed
  have eq2: "take (min (unat n) (length m)) m @ take (unat (n - ?k)) (concat ms) = take (unat n) (m @ concat ms)"
    unfolding left by (cases "unat n \<le> length m") auto
  have "\<forall>m \<in> set ms. length m < 2 ^ 64" using Cons.prems by simp
  note ih = Cons.IH [OF this, unfolded Let_def]
  show ?case
    by (simp only: te_body.simps step Let_def prod.case ih concat.simps length_append eq1 append_assoc eq2)
qed

text \<open>
  A body of announced length \<open>n\<close> is never longer on the wire: the encoder writes the
  first \<open>n\<close> bytes of its pieces, reports an unexpected end exactly when they are fewer, and what
  it writes is decoded to those bytes, with the decoder stopping where the next message
  begins.
\<close>

theorem length_roundtrip:
  assumes "\<forall>m \<in> set ms. length m < 2 ^ 64" and "n \<noteq> 0"
    and "concat ps = snd (snd (te_body (te_length n) ms [])) @ rest"
  shows "snd (snd (te_body (te_length n) ms [])) = take (unat n) (concat ms) \<and>
    (fst (te_body (te_length n) ms []) = Ok () \<longleftrightarrow> unat n \<le> length (concat ms)) \<and>
    (unat n \<le> length (concat ms) \<longrightarrow> feed (pd_length n) [] ps = (take (unat n) (concat ms), DrainEof rest))"
proof -
  let ?len = "length (concat ms)"
  have out: "snd (snd (te_body (te_length n) ms [])) = take (unat n) (concat ms)"
    using te_body_length [OF assms(1), of n "[]"] by (simp add: Let_def)
  have "n - of_nat (min (unat n) ?len) = 0 \<longleftrightarrow> unat n \<le> ?len"
  proof (cases "unat n \<le> ?len")
    case False
    then have "n \<noteq> of_nat ?len" by (metis mod_less_eq_dividend unat_of_nat)
    with False show ?thesis by simp
  qed (simp add: min_absorb1)
  then have "fst (te_body (te_length n) ms []) = Ok () \<longleftrightarrow> unat n \<le> ?len"
    using te_body_length [OF assms(1), of n "[]"] by (simp add: Let_def length_end_def)
  moreover have "feed (pd_length n) [] ps = (take (unat n) (concat ms), DrainEof rest)" if "unat n \<le> ?len"
    using assms(2,3) out that
    by (simp add: feed_drain pd_wf_def pd_length_def drain_length del: length_concat)
  ultimately show ?thesis using out by blast
qed

lemma length_roundtrip_witness:
  "feed (pd_length 3) [] [[104, 105], [33, 71]] = ([104, 105, 33], DrainEof [71])"
proof -
  have "\<forall>m \<in> set [[104, 105], [33 :: byte]]. length m < 2 ^ 64" by simp
  note l = te_body_length [OF this, of 3 "[]"]
  have "concat [[104, 105], [33, 71]] = snd (snd (te_body (te_length 3) [[104, 105], [33]] [])) @ [71]"
    unfolding l by (simp add: Let_def length_end_def)
  from length_roundtrip [OF _ _ this] show ?thesis by (simp del: feed.simps te_body.simps)
qed

end
