(* ===== verification/H1_Encoder.thy ===== *)
theory H1_Encoder
  imports Message_Head Http_Helpers H1_Transfer_Encoding
begin

text \<open>
  The encoder of HTTP/1 message heads (\<open>MessageType\<close> and \<open>MessageEncoder\<close> in \<open>h1/encoder.rs\<close>). The
  headers are written through a raw pointer into the spare capacity of the output buffer, so
  the model keeps that memory: a buffer is the bytes it holds and the bytes of its spare
  capacity, which are not initialised. A write past the capacity is \<open>None\<close>.
\<close>

section \<open>The output buffer\<close>

record out_buf =
  ob_data :: bytes
  ob_spare :: bytes

text \<open>
  What the encoder takes from its surroundings: how the allocator grows a buffer (the new
  spare memory for a request of so many bytes), the uninitialised array of \<open>convert_usize\<close>, the
  order in which a hash map is visited, and the 29 bytes of the current date.
\<close>

record encode_env =
  ee_grow :: "nat \<Rightarrow> out_buf \<Rightarrow> bytes"
  ee_uninit :: bytes
  ee_visit :: "header_map \<Rightarrow> header_map"
  ee_date :: bytes

definition reserve :: "encode_env \<Rightarrow> nat \<Rightarrow> out_buf \<Rightarrow> out_buf" where
  "reserve env n dst = (if n \<le> length (ob_spare dst) then dst else dst\<lparr>ob_spare := ee_grow env n dst\<rparr>)"

definition put_slice :: "encode_env \<Rightarrow> bytes \<Rightarrow> out_buf \<Rightarrow> out_buf" where
  "put_slice env bs dst =
     (let dst = reserve env (length bs) dst
      in \<lparr>ob_data = ob_data dst @ bs, ob_spare = drop (length bs) (ob_spare dst)\<rparr>)"

text \<open>\<open>BytesMut::advance_mut\<close> and a write of \<open>bs\<close> at offset \<open>off\<close> of the spare memory.\<close>

definition advance_mut :: "nat \<Rightarrow> out_buf \<Rightarrow> out_buf option" where
  "advance_mut n dst =
     (if n \<le> length (ob_spare dst)
      then Some \<lparr>ob_data = ob_data dst @ take n (ob_spare dst), ob_spare = drop n (ob_spare dst)\<rparr>
      else None)"

definition write_data :: "bytes \<Rightarrow> nat \<Rightarrow> out_buf \<Rightarrow> out_buf option" where
  "write_data bs off dst =
     (if off + length bs \<le> length (ob_spare dst)
      then Some (dst\<lparr>ob_spare := take off (ob_spare dst) @ bs @ drop (off + length bs) (ob_spare dst)\<rparr>)
      else None)"

section \<open>Camel case\<close>

definition is_lower :: "byte \<Rightarrow> bool" where
  "is_lower c \<longleftrightarrow> 0x61 \<le> c \<and> c \<le> 0x7A"

definition put_index :: "byte \<Rightarrow> nat \<Rightarrow> bytes \<Rightarrow> bytes option" where
  "put_index c i buf = (if i < length buf then Some (buf[i := c]) else None)"

fun camel_loop :: "bytes \<Rightarrow> nat \<Rightarrow> bytes \<Rightarrow> bytes option" where
  "camel_loop [] i buf = Some buf"
| "camel_loop (c # key) i buf = do {
     buf \<leftarrow> put_index c i buf;
     if c = 0x2D then
       (case key of
          [] \<Rightarrow> camel_loop [] (i + 1) buf
        | d # key' \<Rightarrow>
            if is_lower d then do {
              buf \<leftarrow> put_index (d XOR 0x20) (i + 1) buf;
              camel_loop key' (i + 2) buf
            } else camel_loop key' (i + 1) buf)
     else camel_loop key (i + 1) buf }"

definition write_camel_case :: "bytes \<Rightarrow> bytes \<Rightarrow> bytes option" where
  "write_camel_case key buf =
     (case key of
        [] \<Rightarrow> Some buf
      | c # key' \<Rightarrow>
          if is_lower c then do { buf \<leftarrow> put_index (c XOR 0x20) 0 buf; camel_loop key' 1 buf }
          else camel_loop key' 0 buf)"

text \<open>The camel-case writer gets the memory at the pointer as a slice of the key's length.\<close>

definition write_camel :: "bytes \<Rightarrow> nat \<Rightarrow> out_buf \<Rightarrow> out_buf option" where
  "write_camel key off dst =
     (if off + length key \<le> length (ob_spare dst)
      then do {
        mem \<leftarrow> write_camel_case key (take (length key) (drop off (ob_spare dst)));
        write_data mem off dst
      } else None)"

section \<open>Writing the headers\<close>

text \<open>The state of the loop: \<open>buf\<close> is the start of the spare memory plus an offset.\<close>

record writer =
  wr_dst :: out_buf
  wr_pos :: nat
  wr_remaining :: nat
  wr_off :: nat

definition writer_start :: "out_buf \<Rightarrow> writer" where
  "writer_start dst = \<lparr>wr_dst = dst, wr_pos = 0, wr_remaining = length (ob_spare dst), wr_off = 0\<rparr>"

definition write_header :: "encode_env \<Rightarrow> bool \<Rightarrow> bytes \<Rightarrow> bytes \<Rightarrow> writer \<Rightarrow> writer option" where
  "write_header env camel_case k v w =
     (let len = length k + length v + 4
      in do {
           w \<leftarrow> (if len > wr_remaining w then do {
                    dst \<leftarrow> advance_mut (wr_pos w) (wr_dst w);
                    Some (writer_start (reserve env (len * 2) dst))
                  } else Some w);
           dst \<leftarrow> (if camel_case then write_camel k (wr_off w) (wr_dst w) else write_data k (wr_off w) (wr_dst w));
           dst \<leftarrow> write_data [0x3A, 0x20] (wr_off w + length k) dst;
           dst \<leftarrow> write_data v (wr_off w + length k + 2) dst;
           dst \<leftarrow> write_data [0x0D, 0x0A] (wr_off w + length k + 2 + length v) dst;
           Some \<lparr>wr_dst = dst, wr_pos = wr_pos w + len, wr_remaining = wr_remaining w - len,
                 wr_off = wr_off w + length k + 2 + length v + 2\<rparr>
         })"

fun write_values :: "encode_env \<Rightarrow> bool \<Rightarrow> bytes \<Rightarrow> header_value list \<Rightarrow> writer \<Rightarrow> writer option" where
  "write_values env camel_case k [] w = Some w"
| "write_values env camel_case k (v # vs) w = do {
     w \<leftarrow> write_header env camel_case k v w;
     write_values env camel_case k vs w }"

fun write_headers ::
  "encode_env \<Rightarrow> bool \<Rightarrow> bool \<Rightarrow> header_map \<Rightarrow> bool \<Rightarrow> writer \<Rightarrow> (writer \<times> bool) option" where
  "write_headers env camel_case skip_len [] has_date w = Some (w, has_date)"
| "write_headers env camel_case skip_len ((k, hv) # hs) has_date w =
     (if k = CONNECTION then write_headers env camel_case skip_len hs has_date w
      else if (k = TRANSFER_ENCODING \<or> k = CONTENT_LENGTH) \<and> skip_len
      then write_headers env camel_case skip_len hs has_date w
      else do {
        w \<leftarrow> (case hv of
               One v \<Rightarrow> write_header env camel_case k v w
             | Multi vs \<Rightarrow> write_values env camel_case k vs w);
        write_headers env camel_case skip_len hs (has_date \<or> k = DATE) w
      })"

section \<open>The head of a message\<close>

text \<open>What the trait \<open>MessageType\<close> asks of a message.\<close>

record message_view =
  mv_status :: "status_code option"
  mv_headers :: header_map
  mv_extra :: "header_map option"
  mv_camel_case :: bool
  mv_chunked :: bool

definition response_view :: "response_head \<Rightarrow> message_view" where
  "response_view h = \<lparr>mv_status = Some (rs_status h), mv_headers = rs_headers h, mv_extra = None,
     mv_camel_case = False, mv_chunked = rs_chunked h\<rparr>"

definition request_view :: "request_head_type \<Rightarrow> message_view" where
  "request_view r = \<lparr>mv_status = None, mv_headers = rq_headers (rht_head r), mv_extra = rht_extra_headers r,
     mv_camel_case = rq_camel_case_headers (rht_head r), mv_chunked = rq_chunked (rht_head r)\<rparr>"

definition crlf :: bytes where "crlf = [0x0D, 0x0A]"

text \<open>The status decides about the length first.\<close>

definition adjust_length :: "status_code option \<Rightarrow> body_size \<Rightarrow> body_size \<times> bool" where
  "adjust_length st sz =
     (let skip_len = (sz \<noteq> SzStream)
      in case st of
           None \<Rightarrow> (sz, skip_len)
         | Some status \<Rightarrow>
             if status = NO_CONTENT \<or> status = CONTINUE \<or> status = PROCESSING then (SzNone, skip_len)
             else if status = SWITCHING_PROTOCOLS then (SzStream, True)
             else (sz, skip_len))"

definition write_length ::
  "encode_env \<Rightarrow> bool \<Rightarrow> bool \<Rightarrow> body_size \<Rightarrow> bool \<Rightarrow> out_buf \<Rightarrow> (bool \<times> out_buf) option" where
  "write_length env camel_case chunked sz skip_len dst =
     (case sz of
        SzStream \<Rightarrow>
          if chunked then
            Some (skip_len, put_slice env (crlf @
              (if camel_case then bstr ''Transfer-Encoding: chunked'' else bstr ''transfer-encoding: chunked'') @ crlf) dst)
          else Some (False, put_slice env crlf dst)
      | SzEmpty \<Rightarrow>
          Some (skip_len, put_slice env (crlf @
            (if camel_case then bstr ''Content-Length: 0'' else bstr ''content-length: 0'') @ crlf) dst)
      | SzSized len \<Rightarrow>
          map_option (\<lambda>out. (skip_len, put_slice env out dst)) (write_content_length (ee_uninit env) len [])
      | SzSized64 len \<Rightarrow>
          Some (skip_len, put_slice env (dec (unat len) @ crlf) (put_slice env (crlf @
            (if camel_case then bstr ''Content-Length: '' else bstr ''content-length: '')) dst))
      | SzNone \<Rightarrow> Some (skip_len, put_slice env crlf dst))"

definition write_connection ::
  "encode_env \<Rightarrow> bool \<Rightarrow> connection_type \<Rightarrow> http_version \<Rightarrow> out_buf \<Rightarrow> out_buf" where
  "write_connection env camel_case ctype version dst =
     (case ctype of
        CtUpgrade \<Rightarrow> put_slice env (bstr ''connection: upgrade'' @ crlf) dst
      | CtKeepAlive \<Rightarrow>
          if version < HTTP_11 then
            put_slice env ((if camel_case then bstr ''Connection: keep-alive'' else bstr ''connection: keep-alive'') @ crlf) dst
          else dst
      | CtClose \<Rightarrow>
          if version \<ge> HTTP_11 then
            put_slice env ((if camel_case then bstr ''Connection: close'' else bstr ''connection: close'') @ crlf) dst
          else dst)"

definition set_date :: "encode_env \<Rightarrow> out_buf \<Rightarrow> out_buf" where
  "set_date env dst = put_slice env (bstr ''date: '' @ ee_date env @ crlf @ crlf) dst"

text \<open>The headers of the head that the extra headers do not replace, then the extra headers.\<close>

definition merged_headers :: "encode_env \<Rightarrow> message_view \<Rightarrow> header_map" where
  "merged_headers env m =
     (let extra = (case mv_extra m of Some e \<Rightarrow> e | None \<Rightarrow> hm_new)
      in filter (\<lambda>e. map_of extra (fst e) = None) (ee_visit env (mv_headers m)) @ ee_visit env extra)"

definition encode_headers ::
  "encode_env \<Rightarrow> message_view \<Rightarrow> out_buf \<Rightarrow> http_version \<Rightarrow> body_size \<Rightarrow> connection_type \<Rightarrow> out_buf option" where
  "encode_headers env m dst version sz ctype =
     (let (sz, skip_len) = adjust_length (mv_status m) sz
      in do {
           (skip_len, dst) \<leftarrow> write_length env (mv_camel_case m) (mv_chunked m) sz skip_len dst;
           let dst = write_connection env (mv_camel_case m) ctype version dst in do {
             (w, has_date) \<leftarrow>
               write_headers env (mv_camel_case m) skip_len (merged_headers env m) False (writer_start dst);
             dst \<leftarrow> advance_mut (wr_pos w) (wr_dst w);
             Some (if \<not> has_date then set_date env dst else put_slice env crlf dst)
           }
         })"

section \<open>The start line and the whole head\<close>

definition encode_status_response :: "encode_env \<Rightarrow> http_lib \<Rightarrow> response_head \<Rightarrow> out_buf \<Rightarrow> out_buf option" where
  "encode_status_response env lib h dst =
     (let reason = rs_reason_str lib h;
          dst = reserve env (256 + hm_len (rs_headers h) * 30 + length reason) dst
      in do {
           line \<leftarrow> write_status_line (rs_version h) (rs_status h) [];
           Some (put_slice env reason (put_slice env line dst))
         })"

definition version_text :: "http_version \<Rightarrow> bytes" where
  "version_text v = (case v of HTTP_09 \<Rightarrow> bstr ''HTTP/0.9'' | HTTP_10 \<Rightarrow> bstr ''HTTP/1.0'' | HTTP_11 \<Rightarrow> bstr ''HTTP/1.1''
     | HTTP_2 \<Rightarrow> bstr ''HTTP/2.0'' | HTTP_3 \<Rightarrow> bstr ''HTTP/3.0'')"

definition encode_status_request :: "encode_env \<Rightarrow> http_lib \<Rightarrow> request_head_type \<Rightarrow> out_buf \<Rightarrow> out_buf" where
  "encode_status_request env lib r dst =
     (let head = rht_head r;
          dst = reserve env (256 + hm_len (rq_headers head) * 30) dst;
          target = (case hl_path_and_query lib (rq_uri head) of Some u \<Rightarrow> u | None \<Rightarrow> bstr ''/'')
      in put_slice env (rq_method head @ [0x20] @ target @ [0x20] @ version_text (rq_version head)) dst)"

record message_encoder =
  me_length :: body_size
  me_te :: transfer_encoding

definition message_encoder_default :: message_encoder where
  "message_encoder_default = \<lparr>me_length = SzNone, me_te = te_empty\<rparr>"

definition choose_te :: "bool \<Rightarrow> bool \<Rightarrow> bool \<Rightarrow> body_size \<Rightarrow> transfer_encoding" where
  "choose_te chunked head stream sz =
     (if \<not> head then
        (case sz of
           SzEmpty \<Rightarrow> te_empty
         | SzSized len \<Rightarrow> te_length (of_nat len)
         | SzSized64 len \<Rightarrow> te_length len
         | SzStream \<Rightarrow> if chunked \<and> \<not> stream then te_chunked else te_eof
         | SzNone \<Rightarrow> te_empty)
      else te_empty)"

definition encode_response ::
  "encode_env \<Rightarrow> http_lib \<Rightarrow> message_encoder \<Rightarrow> response_head \<Rightarrow> bool \<Rightarrow> bool \<Rightarrow> http_version \<Rightarrow> body_size \<Rightarrow>
   connection_type \<Rightarrow> out_buf \<Rightarrow> (message_encoder \<times> out_buf) option" where
  "encode_response env lib enc h head stream version sz ctype dst = do {
     let enc = enc\<lparr>me_te := choose_te (rs_chunked h) head stream sz\<rparr> in do {
       dst \<leftarrow> encode_status_response env lib h dst;
       dst \<leftarrow> encode_headers env (response_view h) dst version sz ctype;
       Some (enc, dst)
     } }"

definition encode_request ::
  "encode_env \<Rightarrow> http_lib \<Rightarrow> message_encoder \<Rightarrow> request_head_type \<Rightarrow> bool \<Rightarrow> bool \<Rightarrow> http_version \<Rightarrow> body_size \<Rightarrow>
   connection_type \<Rightarrow> out_buf \<Rightarrow> (message_encoder \<times> out_buf) option" where
  "encode_request env lib enc r head stream version sz ctype dst = do {
     let enc = enc\<lparr>me_te := choose_te (rq_chunked (rht_head r)) head stream sz\<rparr>;
         dst = encode_status_request env lib r dst in do {
       dst \<leftarrow> encode_headers env (request_view r) dst version sz ctype;
       Some (enc, dst)
     } }"

definition encode_chunk :: "message_encoder \<Rightarrow> bytes \<Rightarrow> bytes \<Rightarrow> (bool, io_error) result \<times> message_encoder \<times> bytes" where
  "encode_chunk enc msg buf = (let (r, te, buf) = te_encode (me_te enc) msg buf in (r, enc\<lparr>me_te := te\<rparr>, buf))"

definition encode_eof :: "message_encoder \<Rightarrow> bytes \<Rightarrow> (unit, io_error) result \<times> message_encoder \<times> bytes" where
  "encode_eof enc buf = (let (r, te, buf) = te_encode_eof (me_te enc) buf in (r, enc\<lparr>me_te := te\<rparr>, buf))"

section \<open>Camel case, what is written\<close>

fun camel_out :: "bytes \<Rightarrow> bytes" where
  "camel_out [] = []"
| "camel_out (c # key) =
     c # (if c = 0x2D then
            (case key of [] \<Rightarrow> [] | d # key' \<Rightarrow> if is_lower d then (d XOR 0x20) # camel_out key' else camel_out key')
          else camel_out key)"

definition camel_name :: "bytes \<Rightarrow> bytes" where
  "camel_name key =
     (case key of [] \<Rightarrow> [] | c # key' \<Rightarrow> if is_lower c then (c XOR 0x20) # camel_out key' else camel_out key')"

lemma length_camel_out: "length (camel_out key) \<le> length key"
  by (induction key rule: camel_out.induct) (auto split: list.split)

lemma length_camel_name: "length (camel_name key) \<le> length key"
  using length_camel_out [of "tl key"] by (cases key) (auto simp: camel_name_def)

lemma put_index_split:
  "i < length buf \<Longrightarrow> put_index c i buf = Some (take i buf @ c # drop (Suc i) buf)"
  by (simp add: put_index_def upd_conv_take_nth_drop)

lemma camel_loop_ok:
  "i + length key \<le> length buf \<Longrightarrow>
     camel_loop key i buf = Some (take i buf @ camel_out key @ drop (i + length (camel_out key)) buf)"
proof (induction key i buf rule: camel_loop.induct)
  case (2 c key i buf)
  let ?b1 = "take i buf @ c # drop (Suc i) buf"
  have p1: "put_index c i buf = Some ?b1" using "2.prems" by (intro put_index_split) simp
  show ?case
  proof (cases "c = 0x2D")
    case False
    have "camel_loop key (i + 1) ?b1 =
        Some (take (i + 1) ?b1 @ camel_out key @ drop (i + 1 + length (camel_out key)) ?b1)"
      by (rule "2.IH"(4)) (use p1 False "2.prems" in auto)
    with p1 False "2.prems" show ?thesis by (simp add: ac_simps)
  next
    case dash: True
    show ?thesis
    proof (cases key)
      case Nil
      with p1 dash "2.prems" show ?thesis by simp
    next
      case (Cons d key')
      show ?thesis
      proof (cases "is_lower d")
        case True
        let ?b2 = "take (i + 1) ?b1 @ (d XOR 0x20) # drop (Suc (i + 1)) ?b1"
        have p2: "put_index (d XOR 0x20) (i + 1) ?b1 = Some ?b2"
          using "2.prems" Cons by (intro put_index_split) simp
        have "camel_loop key' (i + 2) ?b2 =
            Some (take (i + 2) ?b2 @ camel_out key' @ drop (i + 2 + length (camel_out key')) ?b2)"
          by (rule "2.IH"(2)) (use p1 p2 dash Cons True "2.prems" in auto)
        with p1 p2 dash Cons True "2.prems" show ?thesis by (simp add: min_def ac_simps)
      next
        case False
        have "camel_loop key' (i + 1) ?b1 =
            Some (take (i + 1) ?b1 @ camel_out key' @ drop (i + 1 + length (camel_out key')) ?b1)"
          by (rule "2.IH"(3)) (use p1 dash Cons False "2.prems" in auto)
        with p1 dash Cons False "2.prems" show ?thesis by (simp add: ac_simps)
      qed
    qed
  qed
qed simp

lemma write_camel_case_eq:
  assumes "length mem = length key"
  shows "write_camel_case key mem = Some (camel_name key @ drop (length (camel_name key)) mem)"
proof (cases key)
  case (Cons c key')
  show ?thesis
  proof (cases "is_lower c")
    case True
    have "put_index (c XOR 0x20) 0 mem = Some ((c XOR 0x20) # drop 1 mem)"
      using assms Cons by (simp add: put_index_split)
    with True Cons assms camel_loop_ok [of 1 key' "(c XOR 0x20) # drop 1 mem"] show ?thesis
      by (simp add: write_camel_case_def camel_name_def)
  next
    case False
    with Cons assms camel_loop_ok [of 0 key' mem] show ?thesis
      by (simp add: write_camel_case_def camel_name_def)
  qed
qed (use assms in \<open>simp add: write_camel_case_def camel_name_def\<close>)

text \<open>Names whose words all begin with a letter.\<close>

fun camel_words :: "bytes \<Rightarrow> bool" where
  "camel_words [] = True"
| "camel_words (c # key) =
     (if c = 0x2D then (case key of [] \<Rightarrow> True | d # key' \<Rightarrow> is_lower d \<and> camel_words key') else camel_words key)"

definition camel_ok :: "bytes \<Rightarrow> bool" where
  "camel_ok key \<longleftrightarrow> (case key of [] \<Rightarrow> True | c # key' \<Rightarrow> is_lower c \<and> camel_words key')"

lemma lower_xor: "is_lower c \<Longrightarrow> to_lower (c XOR 0x20) = c"
proof -
  have all: "\<forall>n \<in> set [97..<123]. to_lower ((of_nat n :: byte) XOR 0x20) = of_nat n"
    by (simp add: upt_rec to_lower_def)
  assume "is_lower c"
  then have "unat c \<in> set [97..<123]" unfolding set_upt by (simp add: is_lower_def word_le_nat_alt)
  with all have "to_lower ((of_nat (unat c) :: byte) XOR 0x20) = of_nat (unat c)" by (rule bspec)
  moreover have "(of_nat (unat c) :: byte) = c" by simp
  ultimately show ?thesis by (simp only:)
qed

lemma lower_id: "is_lower c \<Longrightarrow> to_lower c = c"
  by (auto simp: is_lower_def to_lower_def word_le_nat_alt)

lemma camel_out_ok: "camel_words key \<Longrightarrow> length (camel_out key) = length key"
  by (induction key rule: camel_out.induct) (auto split: list.splits if_splits)

lemma camel_out_lower:
  "camel_words key \<Longrightarrow> to_ascii_lowercase (camel_out key) = to_ascii_lowercase key"
  by (induction key rule: camel_out.induct)
     (auto simp: to_ascii_lowercase_def lower_xor lower_id split: list.splits if_splits)

lemma camel_name_ok:
  "camel_ok key \<Longrightarrow> length (camel_name key) = length key \<and> eq_ignore_ascii_case (camel_name key) key"
  using camel_out_ok [of "tl key"] camel_out_lower [of "tl key"]
  by (cases key)
     (auto simp: camel_ok_def camel_name_def eq_ignore_ascii_case_def to_ascii_lowercase_def lower_xor lower_id)

section \<open>Memory\<close>

text \<open>The allocator makes room for what is asked, and the uninitialised array has its 41 bytes.\<close>

definition env_ok :: "encode_env \<Rightarrow> bool" where
  "env_ok env \<longleftrightarrow> (\<forall>n dst. n \<le> length (ee_grow env n dst)) \<and> length (ee_uninit env) = 41"

lemma reserve_ok:
  "env_ok env \<Longrightarrow> n \<le> length (ob_spare (reserve env n dst)) \<and> ob_data (reserve env n dst) = ob_data dst"
  by (auto simp: reserve_def env_ok_def)

lemma put_slice_data [simp]: "ob_data (put_slice env bs dst) = ob_data dst @ bs"
  by (simp add: put_slice_def reserve_def Let_def)

text \<open>The pointer is where the bytes written since the last \<open>advance_mut\<close> end.\<close>

definition wr_ok :: "writer \<Rightarrow> bool" where
  "wr_ok w \<longleftrightarrow> wr_off w = wr_pos w \<and> wr_pos w + wr_remaining w = length (ob_spare (wr_dst w))"

definition wr_bytes :: "writer \<Rightarrow> bytes" where
  "wr_bytes w = ob_data (wr_dst w) @ take (wr_pos w) (ob_spare (wr_dst w))"

lemma wr_start_ok: "wr_ok (writer_start dst) \<and> wr_bytes (writer_start dst) = ob_data dst"
  by (simp add: wr_ok_def wr_bytes_def writer_start_def)

lemma write_data_ok:
  assumes "off + length bs \<le> length (ob_spare dst)"
  shows "\<exists>dst'. write_data bs off dst = Some dst' \<and> ob_data dst' = ob_data dst \<and>
    length (ob_spare dst') = length (ob_spare dst) \<and>
    take (off + length bs) (ob_spare dst') = take off (ob_spare dst) @ bs"
  using assms by (simp add: write_data_def)

text \<open>The name of a header as it is written.\<close>

definition written_name :: "bool \<Rightarrow> bytes \<Rightarrow> bytes" where
  "written_name camel_case k = (if camel_case then camel_name k else k)"

definition name_ok :: "bool \<Rightarrow> bytes \<Rightarrow> bool" where
  "name_ok camel_case k \<longleftrightarrow> (camel_case \<longrightarrow> camel_ok k)"

lemma length_written_name: "name_ok camel_case k \<Longrightarrow> length (written_name camel_case k) = length k"
  by (auto simp: name_ok_def written_name_def camel_name_ok)

text \<open>
  A name in the place reserved for it: the name as it is written, and behind it, when that is shorter, what the memory held.
\<close>

definition placed_name :: "bool \<Rightarrow> bytes \<Rightarrow> bytes \<Rightarrow> bool" where
  "placed_name camel_case k nm \<longleftrightarrow> length nm = length k \<and> prefix (written_name camel_case k) nm"

lemma placed_name_ok: "placed_name camel_case k nm \<Longrightarrow> name_ok camel_case k \<Longrightarrow> nm = written_name camel_case k"
  using length_written_name [of camel_case k] by (auto simp: placed_name_def prefix_def)

lemma write_name_placed:
  assumes "off + length k \<le> length (ob_spare dst)"
  shows "\<exists>nm. placed_name camel_case k nm \<and>
    (if camel_case then write_camel k off dst else write_data k off dst) = write_data nm off dst"
proof (cases camel_case)
  case True
  let ?mem = "take (length k) (drop off (ob_spare dst))"
  let ?nm = "camel_name k @ drop (length (camel_name k)) ?mem"
  have "length ?mem = length k" using assms by simp
  then have "write_camel_case k ?mem = Some ?nm" by (rule write_camel_case_eq)
  with assms True have "write_camel k off dst = write_data ?nm off dst" by (simp add: write_camel_def)
  moreover have "placed_name camel_case k ?nm"
    using assms length_camel_name [of k] True by (simp add: placed_name_def written_name_def)
  ultimately show ?thesis using True by auto
qed (auto simp: placed_name_def written_name_def intro!: exI [of _ k])

text \<open>The line of a header in general, and the one of a name that is written in full.\<close>

definition line_of :: "bool \<Rightarrow> bytes \<Rightarrow> bytes \<Rightarrow> bytes \<Rightarrow> bool" where
  "line_of camel_case k v line \<longleftrightarrow> (\<exists>nm. placed_name camel_case k nm \<and> line = nm @ [0x3A, 0x20] @ v @ [0x0D, 0x0A])"

definition header_line :: "bool \<Rightarrow> bytes \<Rightarrow> bytes \<Rightarrow> bytes" where
  "header_line camel_case k v = written_name camel_case k @ [0x3A, 0x20] @ v @ [0x0D, 0x0A]"

lemma line_of_ok: "line_of camel_case k v line \<Longrightarrow> name_ok camel_case k \<Longrightarrow> line = header_line camel_case k v"
  by (auto simp: line_of_def header_line_def dest: placed_name_ok)

lemma write_line_ok:
  assumes ok: "wr_ok w" and fits: "length k + length v + 4 \<le> wr_remaining w"
  shows "\<exists>dst line. (do {
      dst \<leftarrow> (if camel_case then write_camel k (wr_off w) (wr_dst w) else write_data k (wr_off w) (wr_dst w));
      dst \<leftarrow> write_data [0x3A, 0x20] (wr_off w + length k) dst;
      dst \<leftarrow> write_data v (wr_off w + length k + 2) dst;
      write_data [0x0D, 0x0A] (wr_off w + length k + 2 + length v) dst }) = Some dst \<and>
    ob_data dst = ob_data (wr_dst w) \<and> length (ob_spare dst) = length (ob_spare (wr_dst w)) \<and> line_of camel_case k v line \<and>
    take (wr_pos w + (length k + length v + 4)) (ob_spare dst) = take (wr_pos w) (ob_spare (wr_dst w)) @ line"
proof -
  let ?o = "wr_off w" and ?d = "wr_dst w"
  have room: "?o + (length k + length v + 4) \<le> length (ob_spare ?d)" and pos: "?o = wr_pos w"
    using ok fits by (simp_all add: wr_ok_def)
  then have "?o + length k \<le> length (ob_spare ?d)" by simp
  then obtain nm where nm: "placed_name camel_case k nm"
    "(if camel_case then write_camel k ?o ?d else write_data k ?o ?d) = write_data nm ?o ?d"
    using write_name_placed by blast
  then have len: "length nm = length k" by (simp add: placed_name_def)
  obtain d1 where d1: "write_data nm ?o ?d = Some d1" "ob_data d1 = ob_data ?d"
    "length (ob_spare d1) = length (ob_spare ?d)" "take (?o + length k) (ob_spare d1) = take ?o (ob_spare ?d) @ nm"
    using write_data_ok [of ?o nm ?d] room len by auto
  obtain d2 where d2: "write_data [0x3A, 0x20] (?o + length k) d1 = Some d2" "ob_data d2 = ob_data d1"
    "length (ob_spare d2) = length (ob_spare d1)"
    "take (?o + length k + 2) (ob_spare d2) = take (?o + length k) (ob_spare d1) @ [0x3A, 0x20]"
    using write_data_ok [of "?o + length k" "[0x3A, 0x20]" d1] room d1 by auto
  obtain d3 where d3: "write_data v (?o + length k + 2) d2 = Some d3" "ob_data d3 = ob_data d2"
    "length (ob_spare d3) = length (ob_spare d2)"
    "take (?o + length k + 2 + length v) (ob_spare d3) = take (?o + length k + 2) (ob_spare d2) @ v"
    using write_data_ok [of "?o + length k + 2" v d2] room d1 d2 by auto
  obtain d4 where d4: "write_data [0x0D, 0x0A] (?o + length k + 2 + length v) d3 = Some d4" "ob_data d4 = ob_data d3"
    "length (ob_spare d4) = length (ob_spare d3)"
    "take (?o + length k + 2 + length v + 2) (ob_spare d4) = take (?o + length k + 2 + length v) (ob_spare d3) @ [0x0D, 0x0A]"
    using write_data_ok [of "?o + length k + 2 + length v" "[0x0D, 0x0A]" d3] room d1 d2 d3 by auto
  let ?line = "nm @ [0x3A, 0x20] @ v @ [0x0D, 0x0A]"
  have "?o + length k + 2 + length v + 2 = wr_pos w + (length k + length v + 4)" using pos by simp
  then have "take (wr_pos w + (length k + length v + 4)) (ob_spare d4) = take (wr_pos w) (ob_spare ?d) @ ?line"
    using d1(4) d2(4) d3(4) d4(4) pos by (simp only: append_assoc)
  moreover have "line_of camel_case k v ?line" using nm(1) by (auto simp: line_of_def)
  ultimately show ?thesis using d1(1-3) d2(1-3) d3(1-3) d4(1-3) nm(2)
    by (intro exI [of _ d4] exI [of _ ?line]) simp
qed

lemma write_header_ok:
  assumes env: "env_ok env" and ok: "wr_ok w"
  shows "\<exists>w' line. write_header env camel_case k v w = Some w' \<and> wr_ok w' \<and> line_of camel_case k v line \<and>
    wr_bytes w' = wr_bytes w @ line"
proof -
  let ?len = "length k + length v + 4"
  obtain w1 where w1: "(if ?len > wr_remaining w then do {
        dst \<leftarrow> advance_mut (wr_pos w) (wr_dst w);
        Some (writer_start (reserve env (?len * 2) dst)) } else Some w) = Some w1"
    "wr_ok w1" "wr_bytes w1 = wr_bytes w" "?len \<le> wr_remaining w1"
  proof (cases "?len > wr_remaining w")
    case True
    let ?adv = "\<lparr>ob_data = wr_bytes w, ob_spare = drop (wr_pos w) (ob_spare (wr_dst w))\<rparr>"
    have adv: "advance_mut (wr_pos w) (wr_dst w) = Some ?adv"
      using ok by (simp add: advance_mut_def wr_ok_def wr_bytes_def)
    from reserve_ok [OF env, of "?len * 2" ?adv] have
      "?len \<le> length (ob_spare (reserve env (?len * 2) ?adv))" "ob_data (reserve env (?len * 2) ?adv) = wr_bytes w"
      by simp_all
    with True adv wr_start_ok [of "reserve env (?len * 2) ?adv"] that show thesis
      by (simp add: writer_start_def)
  qed (use ok that in auto)
  obtain dst line where dst: "(do {
      dst \<leftarrow> (if camel_case then write_camel k (wr_off w1) (wr_dst w1) else write_data k (wr_off w1) (wr_dst w1));
      dst \<leftarrow> write_data [0x3A, 0x20] (wr_off w1 + length k) dst;
      dst \<leftarrow> write_data v (wr_off w1 + length k + 2) dst;
      write_data [0x0D, 0x0A] (wr_off w1 + length k + 2 + length v) dst }) = Some dst"
    "ob_data dst = ob_data (wr_dst w1)" "length (ob_spare dst) = length (ob_spare (wr_dst w1))" "line_of camel_case k v line"
    "take (wr_pos w1 + ?len) (ob_spare dst) = take (wr_pos w1) (ob_spare (wr_dst w1)) @ line"
    using write_line_ok [OF w1(2,4)] by blast
  from dst(1) obtain d1 d2 d3 where steps:
    "(if camel_case then write_camel k (wr_off w1) (wr_dst w1) else write_data k (wr_off w1) (wr_dst w1)) = Some d1"
    "write_data [0x3A, 0x20] (wr_off w1 + length k) d1 = Some d2"
    "write_data v (wr_off w1 + length k + 2) d2 = Some d3"
    "write_data [0x0D, 0x0A] (wr_off w1 + length k + 2 + length v) d3 = Some dst"
    unfolding bind_eq_Some_conv by blast
  let ?w = "\<lparr>wr_dst = dst, wr_pos = wr_pos w1 + ?len,
      wr_remaining = wr_remaining w1 - ?len, wr_off = wr_off w1 + length k + 2 + length v + 2\<rparr>"
  have "write_header env camel_case k v w = Some ?w"
    unfolding write_header_def Let_def w1(1) bind.bind_lunit steps ..
  moreover have "wr_ok ?w" using w1(2,4) dst(3) by (simp add: wr_ok_def)
  moreover have "wr_bytes ?w = wr_bytes w @ line" using w1(3) dst(2,5) by (simp add: wr_bytes_def)
  ultimately show ?thesis using dst(4) by blast
qed

section \<open>What a head looks like on the wire\<close>

definition header_kept :: "bool \<Rightarrow> header_name \<times> hvalue \<Rightarrow> bool" where
  "header_kept skip_len e \<longleftrightarrow>
     fst e \<noteq> CONNECTION \<and> \<not> ((fst e = TRANSFER_ENCODING \<or> fst e = CONTENT_LENGTH) \<and> skip_len)"

definition entry_text :: "bool \<Rightarrow> header_name \<times> hvalue \<Rightarrow> bytes" where
  "entry_text camel_case e = concat (map (header_line camel_case (fst e)) (value_list (snd e)))"

definition length_text :: "bool \<Rightarrow> bool \<Rightarrow> body_size \<Rightarrow> bytes" where
  "length_text camel_case chunked sz =
     (case sz of
        SzStream \<Rightarrow>
          if chunked then crlf @ (if camel_case then bstr ''Transfer-Encoding: chunked'' else bstr ''transfer-encoding: chunked'') @ crlf
          else crlf
      | SzEmpty \<Rightarrow> crlf @ (if camel_case then bstr ''Content-Length: 0'' else bstr ''content-length: 0'') @ crlf
      | SzSized len \<Rightarrow> crlf @ bstr ''content-length: '' @ dec len @ crlf
      | SzSized64 len \<Rightarrow>
          crlf @ (if camel_case then bstr ''Content-Length: '' else bstr ''content-length: '') @ dec (unat len) @ crlf
      | SzNone \<Rightarrow> crlf)"

definition connection_text :: "bool \<Rightarrow> connection_type \<Rightarrow> http_version \<Rightarrow> bytes" where
  "connection_text camel_case ctype version =
     (case ctype of
        CtUpgrade \<Rightarrow> bstr ''connection: upgrade'' @ crlf
      | CtKeepAlive \<Rightarrow>
          if version < HTTP_11 then (if camel_case then bstr ''Connection: keep-alive'' else bstr ''connection: keep-alive'') @ crlf
          else []
      | CtClose \<Rightarrow>
          if version \<ge> HTTP_11 then (if camel_case then bstr ''Connection: close'' else bstr ''connection: close'') @ crlf
          else [])"

definition size_ok :: "body_size \<Rightarrow> bool" where
  "size_ok sz = (case sz of SzSized n \<Rightarrow> n < 2 ^ 64 | _ \<Rightarrow> True)"

lemma write_values_ok:
  "env_ok env \<Longrightarrow> wr_ok w \<Longrightarrow>
     \<exists>w' lines. write_values env camel_case k vs w = Some w' \<and> wr_ok w' \<and> list_all2 (line_of camel_case k) vs lines \<and>
       wr_bytes w' = wr_bytes w @ concat lines"
proof (induction vs arbitrary: w)
  case (Cons v vs)
  obtain w1 line where w1: "write_header env camel_case k v w = Some w1" "wr_ok w1" "line_of camel_case k v line"
    "wr_bytes w1 = wr_bytes w @ line"
    using write_header_ok [OF Cons.prems] by blast
  from Cons.IH [OF Cons.prems(1) w1(2)] obtain w2 lines where w2: "write_values env camel_case k vs w1 = Some w2" "wr_ok w2"
    "list_all2 (line_of camel_case k) vs lines" "wr_bytes w2 = wr_bytes w1 @ concat lines" by blast
  with w1 show ?case by (intro exI [of _ w2] exI [of _ "line # lines"]) simp
qed simp

text \<open>A line for every value of an entry, for all entries.\<close>

definition entry_lines :: "bool \<Rightarrow> header_name \<times> hvalue \<Rightarrow> bytes list \<Rightarrow> bool" where
  "entry_lines camel_case e lines \<longleftrightarrow> list_all2 (line_of camel_case (fst e)) (value_list (snd e)) lines"

lemma write_headers_ok:
  "env_ok env \<Longrightarrow> wr_ok w \<Longrightarrow>
     \<exists>w' liness. write_headers env camel_case skip_len hs has_date w = Some (w', has_date \<or> DATE \<in> fst ` set hs) \<and> wr_ok w' \<and>
       list_all2 (entry_lines camel_case) (filter (header_kept skip_len) hs) liness \<and>
       wr_bytes w' = wr_bytes w @ concat (concat liness)"
proof (induction hs arbitrary: w has_date)
  case (Cons e hs)
  obtain k hv where e: "e = (k, hv)" by (cases e)
  have nd: "DATE \<noteq> CONNECTION" "DATE \<noteq> TRANSFER_ENCODING" "DATE \<noteq> CONTENT_LENGTH"
    by (simp_all add: header_name_defs)
  show ?case
  proof (cases "header_kept skip_len e")
    case False
    then have "k \<noteq> DATE" using nd e by (auto simp: header_kept_def)
    with False Cons.IH [of w has_date] Cons.prems e show ?thesis by (auto simp: header_kept_def)
  next
    case True
    have "\<exists>w1 lines. (case hv of One v \<Rightarrow> write_header env camel_case k v w
          | Multi vs \<Rightarrow> write_values env camel_case k vs w) = Some w1 \<and> wr_ok w1 \<and> entry_lines camel_case e lines \<and>
        wr_bytes w1 = wr_bytes w @ concat lines"
    proof (cases hv)
      case (One v)
      obtain w1 line where "write_header env camel_case k v w = Some w1" "wr_ok w1" "line_of camel_case k v line"
        "wr_bytes w1 = wr_bytes w @ line" using write_header_ok [OF Cons.prems] by blast
      then show ?thesis using e One by (intro exI [of _ w1] exI [of _ "[line]"]) (simp add: entry_lines_def)
    next
      case (Multi vs)
      with write_values_ok [OF Cons.prems, of camel_case k vs] e show ?thesis by (simp add: entry_lines_def)
    qed
    then obtain w1 lines where w1: "(case hv of One v \<Rightarrow> write_header env camel_case k v w
          | Multi vs \<Rightarrow> write_values env camel_case k vs w) = Some w1" "wr_ok w1" "entry_lines camel_case e lines"
        "wr_bytes w1 = wr_bytes w @ concat lines" by blast
    have "write_headers env camel_case skip_len (e # hs) has_date w =
        write_headers env camel_case skip_len hs (has_date \<or> k = DATE) w1"
      using True w1(1) by (auto simp: e header_kept_def)
    moreover obtain w2 liness where
      "write_headers env camel_case skip_len hs (has_date \<or> k = DATE) w1 =
        Some (w2, (has_date \<or> k = DATE) \<or> DATE \<in> fst ` set hs)" "wr_ok w2"
      "list_all2 (entry_lines camel_case) (filter (header_kept skip_len) hs) liness"
      "wr_bytes w2 = wr_bytes w1 @ concat (concat liness)"
      using Cons.IH [OF Cons.prems(1) w1(2), of "has_date \<or> k = DATE"] by auto
    ultimately show ?thesis using True w1(3,4) e
      by (intro exI [of _ w2] exI [of _ "lines # liness"]) auto
  qed
qed simp

text \<open>Names that are written in full leave no choice.\<close>

lemma entry_lines_ok: "entry_lines camel_case e lines \<Longrightarrow> name_ok camel_case (fst e) \<Longrightarrow> concat lines = entry_text camel_case e"
proof -
  assume "entry_lines camel_case e lines" and n: "name_ok camel_case (fst e)"
  then have "list_all2 (line_of camel_case (fst e)) (value_list (snd e)) lines" by (simp add: entry_lines_def)
  then have "lines = map (header_line camel_case (fst e)) (value_list (snd e))"
    by (induction rule: list_all2_induct) (use n in \<open>auto dest: line_of_ok\<close>)
  then show ?thesis by (simp add: entry_text_def)
qed

lemma all_lines_ok:
  "list_all2 (entry_lines camel_case) hs liness \<Longrightarrow> \<forall>e \<in> set hs. name_ok camel_case (fst e) \<Longrightarrow>
     concat (concat liness) = concat (map (entry_text camel_case) hs)"
  by (induction rule: list_all2_induct) (auto dest: entry_lines_ok)

lemma write_length_ok:
  assumes "env_ok env" and "size_ok sz"
  shows "\<exists>dst'. write_length env camel_case chunked sz skip_len dst =
      Some (skip_len \<and> (sz = SzStream \<longrightarrow> chunked), dst') \<and> ob_data dst' = ob_data dst @ length_text camel_case chunked sz"
  using assms
  by (cases sz) (auto simp: write_length_def length_text_def write_content_length_eq env_ok_def size_ok_def crlf_def)

lemma write_connection_text:
  "ob_data (write_connection env camel_case ctype version dst) = ob_data dst @ connection_text camel_case ctype version"
  by (auto simp: write_connection_def connection_text_def split: connection_type.split)

lemma encode_headers_lines:
  assumes "env_ok env" and "adjust_length (mv_status m) sz = (sz', skip)" and "size_ok sz'"
  shows "\<exists>dst' liness. encode_headers env m dst version sz ctype = Some dst' \<and>
    list_all2 (entry_lines (mv_camel_case m))
      (filter (header_kept (skip \<and> (sz' = SzStream \<longrightarrow> mv_chunked m))) (merged_headers env m)) liness \<and>
    ob_data dst' = ob_data dst @ length_text (mv_camel_case m) (mv_chunked m) sz' @
      connection_text (mv_camel_case m) ctype version @ concat (concat liness) @
      (if DATE \<in> fst ` set (merged_headers env m) then crlf
       else bstr ''date: '' @ ee_date env @ crlf @ crlf)"
proof -
  let ?c = "mv_camel_case m" and ?hs = "merged_headers env m"
  let ?skip = "skip \<and> (sz' = SzStream \<longrightarrow> mv_chunked m)"
  obtain d1 where d1: "write_length env ?c (mv_chunked m) sz' skip dst = Some (?skip, d1)"
    "ob_data d1 = ob_data dst @ length_text ?c (mv_chunked m) sz'"
    using write_length_ok [OF assms(1,3)] by blast
  define d2 where "d2 = write_connection env ?c ctype version d1"
  obtain w liness where w: "write_headers env ?c ?skip ?hs False (writer_start d2) = Some (w, DATE \<in> fst ` set ?hs)"
    "wr_ok w" "list_all2 (entry_lines ?c) (filter (header_kept ?skip) ?hs) liness" "wr_bytes w = ob_data d2 @ concat (concat liness)"
    using write_headers_ok [of env "writer_start d2" ?c ?skip ?hs False] wr_start_ok [of d2] assms(1) by auto
  obtain d3 where d3: "advance_mut (wr_pos w) (wr_dst w) = Some d3" "ob_data d3 = wr_bytes w"
    using w(2) by (auto simp: advance_mut_def wr_ok_def wr_bytes_def)
  have "encode_headers env m dst version sz ctype =
      Some (if \<not> DATE \<in> fst ` set ?hs then set_date env d3 else put_slice env crlf d3)"
    using assms(2) d1(1) w(1) d3(1) by (simp add: encode_headers_def d2_def Let_def)
  then show ?thesis using d3(2) w(3,4) d1(2)
    by (simp add: d2_def write_connection_text set_date_def) blast
qed

lemma encode_headers_eq:
  assumes "env_ok env" and "\<forall>e \<in> set (merged_headers env m). name_ok (mv_camel_case m) (fst e)"
    and "adjust_length (mv_status m) sz = (sz', skip)" and "size_ok sz'"
  shows "\<exists>dst'. encode_headers env m dst version sz ctype = Some dst' \<and>
    ob_data dst' = ob_data dst @ length_text (mv_camel_case m) (mv_chunked m) sz' @
      connection_text (mv_camel_case m) ctype version @
      concat (map (entry_text (mv_camel_case m))
        (filter (header_kept (skip \<and> (sz' = SzStream \<longrightarrow> mv_chunked m))) (merged_headers env m))) @
      (if DATE \<in> fst ` set (merged_headers env m) then crlf
       else bstr ''date: '' @ ee_date env @ crlf @ crlf)"
  using encode_headers_lines [OF assms(1,3,4), of dst version ctype] assms(2)
  by (auto dest!: all_lines_ok)

text \<open>
  What a message says, without the way it is written. The values sent under a name are those of the extra headers if they have any,
  else those of the head; the connection, and the lengths given by the application when they are dropped, are left out.
\<close>

definition sent_values :: "message_view \<Rightarrow> bool \<Rightarrow> header_name \<Rightarrow> header_value list" where
  "sent_values m dropped n =
     (if n = CONNECTION \<or> dropped \<and> (n = TRANSFER_ENCODING \<or> n = CONTENT_LENGTH) then []
      else
        (let extra = (case mv_extra m of Some e \<Rightarrow> hm_values e n | None \<Rightarrow> [])
         in if extra \<noteq> [] then extra else hm_values (mv_headers m) n))"

text \<open>The line that frames the body, by status and size, and when the lengths of the application are dropped.\<close>

definition framing_text :: "message_view \<Rightarrow> body_size \<Rightarrow> bytes" where
  "framing_text m sz =
     (if mv_status m = Some 100 \<or> mv_status m = Some 102 \<or> mv_status m = Some 204 then crlf
      else if mv_status m = Some 101 \<or> sz = SzStream then
        (if mv_chunked m then
           crlf @ (if mv_camel_case m then bstr ''Transfer-Encoding: chunked'' else bstr ''transfer-encoding: chunked'') @ crlf
         else crlf)
      else case sz of
        SzSized n \<Rightarrow> crlf @ bstr ''content-length: '' @ dec n @ crlf
      | SzSized64 n \<Rightarrow> crlf @ (if mv_camel_case m then bstr ''Content-Length: '' else bstr ''content-length: '') @ dec (unat n) @ crlf
      | SzEmpty \<Rightarrow> crlf @ (if mv_camel_case m then bstr ''Content-Length: 0'' else bstr ''content-length: 0'') @ crlf
      | _ \<Rightarrow> crlf)"

definition lengths_dropped :: "message_view \<Rightarrow> body_size \<Rightarrow> bool" where
  "lengths_dropped m sz \<longleftrightarrow> (if mv_status m = Some 101 then mv_chunked m else sz \<noteq> SzStream)"

lemma framing_adjusted:
  assumes "adjust_length (mv_status m) sz = (sz', skip)"
  shows "length_text (mv_camel_case m) (mv_chunked m) sz' = framing_text m sz"
    and "(skip \<and> (sz' = SzStream \<longrightarrow> mv_chunked m)) = lengths_dropped m sz"
  using assms
  by (auto simp: adjust_length_def length_text_def framing_text_def lengths_dropped_def Let_def
      split: option.splits if_splits body_size.splits)

lemma hm_values_entry: "hm_wf h \<Longrightarrow> (n, hv) \<in> set h \<Longrightarrow> hm_values h n = value_list hv"
  by (simp add: hm_values_def hm_wf_def)

lemma hm_values_none: "hm_wf h \<Longrightarrow> hm_values h n = [] \<longleftrightarrow> map_of h n = None"
proof (cases "map_of h n")
  case (Some hv)
  assume "hm_wf h"
  with Some have "value_wf hv" by (force simp: hm_wf_def dest!: map_of_SomeD)
  with Some show ?thesis by (cases hv) (auto simp: hm_values_def value_wf_def)
qed (simp add: hm_values_def)

lemma merged_headers_values:
  assumes "\<And>h. mset (ee_visit env h) = mset h" and "hm_wf (mv_headers m)" and "pred_option hm_wf (mv_extra m)"
  shows "distinct (map fst (merged_headers env m))"
    and "e \<in> set (filter (header_kept skip) (merged_headers env m)) \<Longrightarrow> value_list (snd e) = sent_values m skip (fst e)"
    and "fst ` set (filter (header_kept skip) (merged_headers env m)) = {n. sent_values m skip n \<noteq> []}"
proof -
  define extra where "extra = (case mv_extra m of Some e \<Rightarrow> e | None \<Rightarrow> hm_new)"
  have wf: "hm_wf extra" using assms(3) by (cases "mv_extra m") (simp_all add: extra_def hm_wf_def hm_new_def)
  have vals: "(case mv_extra m of Some e \<Rightarrow> hm_values e n | None \<Rightarrow> []) = hm_values extra n" for n
    by (simp add: extra_def hm_values_def hm_new_def split: option.split)
  have set: "set (ee_visit env h) = set h" for h using assms(1) by (rule mset_eq_setD)
  have dist: "distinct (map fst (ee_visit env h))" if "hm_wf h" for h
    using that assms(1) [of h] by (metis hm_wf_def mset_eq_imp_distinct_iff mset_map)
  have merged: "merged_headers env m = filter (\<lambda>e. map_of extra (fst e) = None) (ee_visit env (mv_headers m)) @ ee_visit env extra"
    by (simp add: merged_headers_def extra_def Let_def)
  show "distinct (map fst (merged_headers env m))"
    unfolding merged using dist [OF assms(2)] dist [OF wf]
    by (auto simp: distinct_map_filter set map_of_eq_None_iff)
  show "value_list (snd e) = sent_values m skip (fst e)" if e: "e \<in> set (filter (header_kept skip) (merged_headers env m))"
  proof -
    have kept: "\<not> (fst e = CONNECTION \<or> skip \<and> (fst e = TRANSFER_ENCODING \<or> fst e = CONTENT_LENGTH))"
      using e by (auto simp: header_kept_def)
    consider "e \<in> set extra" | "e \<in> set (mv_headers m)" "map_of extra (fst e) = None"
      using e by (auto simp: merged set)
    then show ?thesis
    proof cases
      case 1
      then have "map_of extra (fst e) \<noteq> None" by (simp add: map_of_eq_None_iff)
      with 1 show ?thesis
        using hm_values_entry [OF wf, of "fst e" "snd e"] hm_values_none [OF wf, of "fst e"]
        by (simp only: sent_values_def vals kept Let_def if_False) simp
    next
      case 2
      then show ?thesis
        using hm_values_entry [OF assms(2), of "fst e" "snd e"] hm_values_none [OF wf, of "fst e"]
        by (simp only: sent_values_def vals kept Let_def if_False) simp
    qed
  qed
  show "fst ` set (filter (header_kept skip) (merged_headers env m)) = {n. sent_values m skip n \<noteq> []}"
  proof (rule set_eqI)
    fix n
    let ?drop = "n = CONNECTION \<or> skip \<and> (n = TRANSFER_ENCODING \<or> n = CONTENT_LENGTH)"
    have kept: "header_kept skip e \<longleftrightarrow> \<not> ?drop" if "fst e = n" for e using that by (auto simp: header_kept_def)
    have "n \<in> fst ` set (filter (header_kept skip) (merged_headers env m)) \<longleftrightarrow>
        \<not> ?drop \<and> n \<in> fst ` set (merged_headers env m)"
      using kept by fastforce
    also have "n \<in> fst ` set (merged_headers env m) \<longleftrightarrow> map_of extra n \<noteq> None \<or> map_of (mv_headers m) n \<noteq> None"
    proof -
      have "n \<in> fst ` set (filter (\<lambda>e. map_of extra (fst e) = None) (ee_visit env (mv_headers m))) \<longleftrightarrow>
          n \<in> fst ` set (mv_headers m) \<and> map_of extra n = None"
        unfolding set_filter set image_iff by force
      then show ?thesis unfolding merged set_append image_Un Un_iff set map_of_eq_None_iff by blast
    qed
    also have "\<not> ?drop \<and> (map_of extra n \<noteq> None \<or> map_of (mv_headers m) n \<noteq> None) \<longleftrightarrow> n \<in> {n. sent_values m skip n \<noteq> []}"
      using hm_values_none [OF wf, of n] hm_values_none [OF assms(2), of n]
      by (simp only: sent_values_def vals mem_Collect_eq Let_def split: if_split) blast
    finally show "n \<in> fst ` set (filter (header_kept skip) (merged_headers env m)) \<longleftrightarrow> n \<in> {n. sent_values m skip n \<noteq> []}" .
  qed
qed

text \<open>
  Property C10. Writing the headers of a message is memory safe and complete. Whatever the names, no write leaves the
  spare capacity however the buffer grows; and the output is the framing line, the connection
  line, for every name that is sent, in some order, one line for each of its values, and the date when the message
  has none. A line has its name in full, up to the letter case asked for, except that in camel case a name with a word that does
  not begin with a letter is too short for its place, which is filled up with what the memory held.
\<close>

theorem encode_headers_output:
  assumes "env_ok env" and "\<And>h. mset (ee_visit env h) = mset h" and "hm_wf (mv_headers m)" and "pred_option hm_wf (mv_extra m)"
    and "size_ok sz"
  shows "\<exists>dst' names liness. encode_headers env m dst version sz ctype = Some dst' \<and>
    distinct names \<and> set names = {n. sent_values m (lengths_dropped m sz) n \<noteq> []} \<and>
    list_all2 (\<lambda>n. list_all2 (line_of (mv_camel_case m) n) (sent_values m (lengths_dropped m sz) n)) names liness \<and>
    ob_data dst' = ob_data dst @ framing_text m sz @ connection_text (mv_camel_case m) ctype version @ concat (concat liness) @
      (if sent_values m (lengths_dropped m sz) DATE \<noteq> [] then crlf else bstr ''date: '' @ ee_date env @ crlf @ crlf)"
proof -
  obtain sz' skip where a: "adjust_length (mv_status m) sz = (sz', skip)" by (metis surj_pair)
  have "size_ok sz'" using assms(5) a by (auto simp: adjust_length_def size_ok_def Let_def split: option.splits if_splits)
  let ?drop = "lengths_dropped m sz" and ?c = "mv_camel_case m"
  let ?kept = "filter (header_kept ?drop) (merged_headers env m)"
  note merged = merged_headers_values [OF assms(2-4)]
  obtain dst' liness where out: "encode_headers env m dst version sz ctype = Some dst'" "list_all2 (entry_lines ?c) ?kept liness"
    "ob_data dst' = ob_data dst @ framing_text m sz @ connection_text ?c ctype version @ concat (concat liness) @
      (if DATE \<in> fst ` set (merged_headers env m) then crlf else bstr ''date: '' @ ee_date env @ crlf @ crlf)"
    using encode_headers_lines [OF assms(1) a \<open>size_ok sz'\<close>, of dst version ctype] unfolding framing_adjusted [OF a] by blast
  have "DATE \<in> fst ` set (merged_headers env m) \<longleftrightarrow> DATE \<in> fst ` set ?kept"
    by (force simp: header_kept_def header_name_defs)
  also have "\<dots> \<longleftrightarrow> sent_values m ?drop DATE \<noteq> []" unfolding merged(3) by simp
  finally have date: "DATE \<in> fst ` set (merged_headers env m) \<longleftrightarrow> sent_values m ?drop DATE \<noteq> []" .
  have "list_all2 (\<lambda>n. list_all2 (line_of ?c n) (sent_values m ?drop n)) (map fst ?kept) liness"
    unfolding list_all2_map1 using out(2)
    by (rule list.rel_mono_strong) (metis merged(2) entry_lines_def)
  moreover have "distinct (map fst ?kept)" using merged(1) by (rule distinct_map_filter)
  moreover have "set (map fst ?kept) = {n. sent_values m ?drop n \<noteq> []}" using merged(3) by simp
  ultimately show ?thesis using out(1,3) unfolding date by blast
qed

text \<open>A whole response head, from the status line to the empty line.\<close>

definition headers_text :: "encode_env \<Rightarrow> message_view \<Rightarrow> http_version \<Rightarrow> body_size \<Rightarrow> connection_type \<Rightarrow> bytes" where
  "headers_text env m version sz ctype =
     (let (sz', skip) = adjust_length (mv_status m) sz
      in length_text (mv_camel_case m) (mv_chunked m) sz' @ connection_text (mv_camel_case m) ctype version @
         concat (map (entry_text (mv_camel_case m))
           (filter (header_kept (skip \<and> (sz' = SzStream \<longrightarrow> mv_chunked m))) (merged_headers env m))) @
         (if DATE \<in> fst ` set (merged_headers env m) then crlf else bstr ''date: '' @ ee_date env @ crlf @ crlf))"

definition response_text ::
  "encode_env \<Rightarrow> http_lib \<Rightarrow> response_head \<Rightarrow> http_version \<Rightarrow> body_size \<Rightarrow> connection_type \<Rightarrow> bytes" where
  "response_text env lib h version sz ctype =
     (case rs_version h of HTTP_09 \<Rightarrow> bstr ''HTTP/0.9'' | HTTP_10 \<Rightarrow> bstr ''HTTP/1.0''
        | HTTP_2 \<Rightarrow> bstr ''HTTP/2.1'' | _ \<Rightarrow> bstr ''HTTP/1.1'') @ [0x20] @ dec (unat (rs_status h)) @ [0x20] @
     rs_reason_str lib h @ headers_text env (response_view h) version sz ctype"

lemma adjust_length_size: "size_ok sz \<Longrightarrow> adjust_length st sz = (sz', skip) \<Longrightarrow> size_ok sz'"
  by (auto simp: adjust_length_def size_ok_def Let_def split: option.splits if_splits)

lemma encode_response_ok:
  assumes "env_ok env" and "100 \<le> rs_status h" and "rs_status h \<le> 999" and "size_ok sz"
  shows "\<exists>dst'. encode_response env lib enc h head stream version sz ctype dst =
      Some (enc\<lparr>me_te := choose_te (rs_chunked h) head stream sz\<rparr>, dst') \<and>
    ob_data dst' = ob_data dst @ response_text env lib h version sz ctype"
proof -
  obtain d1 where d1: "encode_status_response env lib h dst = Some d1"
    "ob_data d1 = ob_data dst @ (case rs_version h of HTTP_09 \<Rightarrow> bstr ''HTTP/0.9'' | HTTP_10 \<Rightarrow> bstr ''HTTP/1.0''
        | HTTP_2 \<Rightarrow> bstr ''HTTP/2.1'' | _ \<Rightarrow> bstr ''HTTP/1.1'') @ [0x20] @ dec (unat (rs_status h)) @ [0x20] @ rs_reason_str lib h"
    using write_status_line_ok [OF assms(2,3), of "rs_version h" "[]"] reserve_ok [OF assms(1)]
    by (simp add: encode_status_response_def Let_def)
  obtain sz' skip where a: "adjust_length (mv_status (response_view h)) sz = (sz', skip)" by (metis surj_pair)
  have "\<forall>e \<in> set (merged_headers env (response_view h)). name_ok (mv_camel_case (response_view h)) (fst e)"
    by (simp add: name_ok_def response_view_def)
  from encode_headers_eq [OF assms(1) this a adjust_length_size [OF assms(4) a], of d1 version ctype] d1 a
  show ?thesis by (auto simp: encode_response_def response_text_def headers_text_def)
qed

definition demo_encode_env :: encode_env where
  "demo_encode_env = \<lparr>ee_grow = (\<lambda>n dst. replicate n 0xAA), ee_uninit = replicate 41 0xAA, ee_visit = id,
     ee_date = bstr ''Sun, 06 Nov 1994 08:49:37 GMT''\<rparr>"

lemma demo_encode_env_ok: "env_ok demo_encode_env"
  by (simp add: env_ok_def demo_encode_env_def)

definition demo_message :: message_view where
  "demo_message = \<lparr>mv_status = Some 200, mv_headers = [(bstr ''x-a'', Multi [[1], [2]]), (bstr ''x-1'', One [3])], mv_extra = None,
     mv_camel_case = True, mv_chunked = True\<rparr>"

lemma encode_headers_output_witness:
  "\<exists>dst' names liness. encode_headers demo_encode_env demo_message \<lparr>ob_data = [], ob_spare = [7]\<rparr> HTTP_11 SzEmpty CtClose = Some dst' \<and>
    distinct names \<and> set names = {n. sent_values demo_message (lengths_dropped demo_message SzEmpty) n \<noteq> []} \<and>
    list_all2 (\<lambda>n. list_all2 (line_of True n) (sent_values demo_message (lengths_dropped demo_message SzEmpty) n)) names liness \<and>
    ob_data dst' = framing_text demo_message SzEmpty @ bstr ''Connection: close'' @ crlf @ concat (concat liness) @
      bstr ''date: '' @ ee_date demo_encode_env @ crlf @ crlf"
proof -
  let ?date = "sent_values demo_message (lengths_dropped demo_message SzEmpty) DATE"
  have wf: "hm_wf (mv_headers demo_message)" "pred_option hm_wf (mv_extra demo_message)" "size_ok SzEmpty"
    by (simp_all add: demo_message_def hm_wf_def value_wf_def size_ok_def)
  have visit: "mset (ee_visit demo_encode_env h) = mset h" for h by (simp add: demo_encode_env_def)
  have date: "?date = []"
    by (simp add: sent_values_def demo_message_def hm_values_def header_name_defs Let_def)
  have conn: "connection_text True CtClose HTTP_11 = bstr ''Connection: close'' @ crlf"
    by (simp add: connection_text_def)
  have camel: "mv_camel_case demo_message = True" by (simp add: demo_message_def)
  show ?thesis
    using encode_headers_output [OF demo_encode_env_ok visit wf, of "\<lparr>ob_data = [], ob_spare = [7]\<rparr>" HTTP_11 CtClose]
    by (simp only: date conn camel out_buf.select_convs append_Nil append_assoc simp_thms if_False)
qed

text \<open>
  In camel case a name with a word that does not begin with a letter is written one
  byte short per such word, and the rest of the place reserved for it is whatever the
  uninitialised memory held: that memory is sent to the peer.
\<close>

theorem camel_case_leaks_memory:
  "write_camel_case (bstr ''x-1'') [a, b, c] = Some [0x58, 0x2D, c] \<and>
   write_camel_case (bstr ''3d-a'') [a, b, c, d] = Some [0x64, 0x2D, 0x41, d]"
  by (simp add: write_camel_case_def is_lower_def put_index_def)

text \<open>
  A name whose words all begin with a letter is written in full, and as the same
  name up to letter case, over whatever the memory held.
\<close>

theorem camel_case_same_name:
  assumes "camel_ok key" and "length mem = length key"
  shows "\<exists>out. write_camel_case key mem = Some out \<and> length out = length key \<and> eq_ignore_ascii_case out key"
  using camel_name_ok [OF assms(1)] write_camel_case_eq [OF assms(2)] assms(2) by simp

lemma camel_case_same_name_witness:
  "\<exists>out. write_camel_case (bstr ''content-type'') (replicate 12 0) = Some out \<and>
     length out = length (bstr ''content-type'') \<and> eq_ignore_ascii_case out (bstr ''content-type'')"
proof -
  have "camel_ok (bstr ''content-type'')" by (simp add: camel_ok_def is_lower_def)
  from camel_case_same_name [OF this, of "replicate 12 0"] show ?thesis by (simp del: bstr_Cons)
qed

text \<open>
  A response whose status forbids a body is announced without one, but its body
  encoder still has the length of the body: the body is written after the head, and the peer
  reads it as the start of the next response.
\<close>

theorem no_content_body_written:
  "fst (adjust_length (Some NO_CONTENT) (SzSized n)) = SzNone \<and>
   length_text camel_case chunked SzNone = crlf \<and>
   choose_te chunked False False (SzSized n) = te_length (of_nat n)"
  by (simp add: adjust_length_def length_text_def choose_te_def)

end
