(* ===== verification/H1_Codec.thy ===== *)
theory H1_Codec
  imports H1_Message_Decoder H1_Encoder
begin

text \<open>
  The HTTP/1 codec of the server (\<open>h1/codec.rs\<close>): it switches between the decoder of heads and
  the decoder of the current body, remembers what a request says about the connection, and
  encodes the responses accordingly.
\<close>

section \<open>Data\<close>

datatype 'a message = Item 'a | Chunk "bytes option"

datatype message_type = MtNone | MtPayload | MtStream

record h1_codec =
  hc_payload :: "payload_decoder option"
  hc_version :: http_version
  hc_ctype :: connection_type
  hc_head :: bool
  hc_keepalive_enabled :: bool
  hc_stream :: bool
  hc_encoder :: message_encoder

definition codec_new :: "bool \<Rightarrow> h1_codec" where
  "codec_new keep_alive_enabled = \<lparr>hc_payload = None, hc_version = HTTP_11, hc_ctype = CtClose,
     hc_head = False, hc_keepalive_enabled = keep_alive_enabled, hc_stream = False,
     hc_encoder = message_encoder_default\<rparr>"

definition codec_upgrade :: "h1_codec \<Rightarrow> bool" where
  "codec_upgrade c \<longleftrightarrow> hc_ctype c = CtUpgrade"

definition codec_keepalive :: "h1_codec \<Rightarrow> bool" where
  "codec_keepalive c \<longleftrightarrow> hc_ctype c = CtKeepAlive"

definition codec_message_type :: "h1_codec \<Rightarrow> message_type" where
  "codec_message_type c =
     (if hc_stream c then MtStream else if hc_payload c = None then MtNone else MtPayload)"

section \<open>Decoding\<close>

text \<open>The codec with the thread's pool of heads is the state of the decoder.\<close>

type_synonym h1_state = "h1_codec \<times> request_pool"

definition codec_on_request :: "request_head \<Rightarrow> payload_type \<Rightarrow> h1_codec \<Rightarrow> h1_codec" where
  "codec_on_request req payload c =
     (let c = c\<lparr>hc_head := (rq_method req = METHOD_HEAD), hc_version := rq_version req,
                hc_ctype := rq_connection_type req\<rparr>;
          c = (if hc_ctype c = CtKeepAlive \<and> \<not> hc_keepalive_enabled c then c\<lparr>hc_ctype := CtClose\<rparr> else c)
      in case payload of
           PtNone \<Rightarrow> c\<lparr>hc_payload := None\<rparr>
         | PtPayload pl \<Rightarrow> c\<lparr>hc_payload := Some pl\<rparr>
         | PtStream pl \<Rightarrow> c\<lparr>hc_payload := Some pl, hc_stream := True\<rparr>)"

definition codec_decode ::
  "http_lib \<Rightarrow> h1_state \<Rightarrow> bytes \<Rightarrow> request_head message decoded \<times> h1_state \<times> bytes" where
  "codec_decode lib st src =
     (let (c, pool) = st
      in case hc_payload c of
           Some pl \<Rightarrow>
             (case payload_decode pl src of
                (Err e, pl', src') \<Rightarrow> (Err (Fails (PeIo e)), (c\<lparr>hc_payload := Some pl'\<rparr>, pool), src')
              | (Ok (Some (ItemChunk chunk)), pl', src') \<Rightarrow>
                  (Ok (Some (Chunk (Some chunk))), (c\<lparr>hc_payload := Some pl'\<rparr>, pool), src')
              | (Ok (Some ItemEof), pl', src') \<Rightarrow> (Ok (Some (Chunk None)), (c\<lparr>hc_payload := None\<rparr>, pool), src')
              | (Ok None, pl', src') \<Rightarrow> (Ok None, (c\<lparr>hc_payload := Some pl'\<rparr>, pool), src'))
         | None \<Rightarrow>
             (case request_decode lib pool src of
                (Err e, pool', src') \<Rightarrow> (Err e, (c, pool'), src')
              | (Ok None, pool', src') \<Rightarrow> (Ok None, (c, pool'), src')
              | (Ok (Some (req, payload)), pool', src') \<Rightarrow>
                  (Ok (Some (Item req)), (codec_on_request req payload c, pool'), src')))"

section \<open>Encoding\<close>

text \<open>The connection status that a response leaves: it may close or upgrade, not revive.\<close>

definition response_ctype :: "response_head \<Rightarrow> connection_type \<Rightarrow> connection_type" where
  "response_ctype res ctype =
     (case rs_ctype res of
        Some ct \<Rightarrow> if ct = CtKeepAlive then ctype else ct
      | None \<Rightarrow> ctype)"

fun codec_encode ::
  "encode_env \<Rightarrow> http_lib \<Rightarrow> (response_head \<times> body_size) message \<Rightarrow> h1_codec \<Rightarrow> out_buf \<Rightarrow>
   ((unit, io_error) result \<times> h1_codec \<times> out_buf) option" where
  "codec_encode env lib (Item (res, sz)) c dst =
     (let res = res\<lparr>rs_version := hc_version c\<rparr>;
          c = c\<lparr>hc_ctype := response_ctype res (hc_ctype c)\<rparr>
      in do {
           (enc, dst) \<leftarrow> encode_response env lib (hc_encoder c) res (hc_head c) (hc_stream c) (hc_version c) sz (hc_ctype c) dst;
           Some (Ok (), c\<lparr>hc_encoder := enc\<rparr>, dst)
         })"
| "codec_encode env lib (Chunk (Some bs)) c dst =
     (let (r, enc, out) = encode_chunk (hc_encoder c) bs []
      in Some ((case r of Ok _ \<Rightarrow> Ok () | Err e \<Rightarrow> Err e), c\<lparr>hc_encoder := enc\<rparr>, put_slice env out dst))"
| "codec_encode env lib (Chunk None) c dst =
     (let (r, enc, out) = encode_eof (hc_encoder c) []
      in Some (r, c\<lparr>hc_encoder := enc\<rparr>, put_slice env out dst))"

section \<open>The decoder contract\<close>

lemma codec_decode_resume:
  "codec_decode lib st src = (Ok None, st', src') \<Longrightarrow>
     codec_decode lib st' (src' @ rest) = codec_decode lib st (src @ rest)"
proof -
  obtain c pool where st: "st = (c, pool)" by (cases st)
  assume d: "codec_decode lib st src = (Ok None, st', src')"
  show ?thesis
  proof (cases "hc_payload c")
    case None
    with d st show ?thesis
      by (auto simp: codec_decode_def dest: request_decode_None split: result.splits option.splits prod.splits)
  next
    case (Some pl)
    with d st obtain pl' where p: "payload_decode pl src = (Ok None, pl', src')"
      "st' = (c\<lparr>hc_payload := Some pl'\<rparr>, pool)"
      by (auto simp: codec_decode_def split: result.splits option.splits prod.splits payload_item.splits)
    from payload_decode_resume [OF p(1), of rest] Some st p(2) show ?thesis
      by (simp add: codec_decode_def split: prod.split result.split option.split payload_item.split)
  qed
qed

lemma codec_decode_suffix: "codec_decode lib st src = (r, st', src') \<Longrightarrow> suffix src' src"
  by (auto simp: codec_decode_def Let_def dest: payload_decode_suffix request_decode_suffix
      split: prod.splits option.splits result.splits payload_item.splits)

interpretation codec: stream_decoder "codec_decode lib" for lib
  by unfold_locales (auto dest: codec_decode_resume codec_decode_suffix)

text \<open>
  The server's codec gives the same requests and body pieces however the connection
  delivers its bytes: called on pieces as they arrive it answers as if all the pieces it used
  had been there at once, and the others are untouched.
\<close>

theorem codec_segmentation:
  "\<exists>k \<le> length ps. await (codec_decode lib) st buf ps =
     (codec_decode lib st (buf @ concat (take k ps)), drop k ps)"
  by (rule codec.await_eq)

section \<open>A body through the codec\<close>

definition codec_rank :: "h1_state \<Rightarrow> nat" where
  "codec_rank st = (case hc_payload (fst st) of None \<Rightarrow> 0 | Some pl \<Rightarrow> pd_rank pl)"

lemma codec_decode_measure:
  "codec_decode lib st src = (Ok (Some (Chunk (Some b))), st', src') \<Longrightarrow>
     2 * length src' + codec_rank st' < 2 * length src + codec_rank st"
  by (cases st) (auto simp: codec_decode_def codec_rank_def dest: payload_decode_measure
      split: prod.splits result.splits option.splits payload_item.splits)

text \<open>The body pieces that repeated decoding yields while a body is being received.\<close>

function codec_body :: "http_lib \<Rightarrow> h1_state \<Rightarrow> bytes \<Rightarrow> bytes \<times> h1_state \<times> bytes \<times> bool" where
  "codec_body lib st src =
     (if hc_payload (fst st) = None then ([], st, src, False)
      else
        (case codec_decode lib st src of
           (Ok (Some (Chunk (Some b))), st', src') \<Rightarrow>
             (let (d, rest) = codec_body lib st' src' in (b @ d, rest))
         | (Ok (Some (Chunk None)), st', src') \<Rightarrow> ([], st', src', True)
         | (_, st', src') \<Rightarrow> ([], st', src', False)))"
  by pat_completeness auto
termination
  by (relation "measure (\<lambda>(lib, st, src). 2 * length src + codec_rank st)") (auto dest: codec_decode_measure [OF sym])

declare codec_body.simps [simp del]

text \<open>
  Property C11. While a request has a body, the codec yields exactly the data that the body decoder
  finds, ends it exactly where the decoder does, and is then ready for the next request on the
  bytes that follow, with everything else it knows about the connection unchanged.
\<close>

theorem codec_body_exact:
  assumes "drain pl src = (d, DrainEof rest)"
  shows "codec_body lib (c\<lparr>hc_payload := Some pl\<rparr>, pool) src = (d, (c\<lparr>hc_payload := None\<rparr>, pool), rest, True)"
  using assms
proof (induction pl src arbitrary: d rule: drain.induct)
  case (1 pl src)
  obtain r pl' src' where p: "payload_decode pl src = (r, pl', src')" by (cases "payload_decode pl src")
  note un = codec_body.simps [of lib "(c\<lparr>hc_payload := Some pl\<rparr>, pool)" src]
  from "1.prems" p consider (chunk) b d' where "r = Ok (Some (ItemChunk b))" "drain pl' src' = (d', DrainEof rest)" "d = b @ d'"
    | (eof) "r = Ok (Some ItemEof)" "d = []" "src' = rest"
    by (auto simp: drain.simps [of pl src] split: result.splits option.splits payload_item.splits prod.splits)
  then show ?case
  proof cases
    case chunk
    from "1.IH" [OF p [symmetric] chunk(1) refl refl refl chunk(2)] p chunk show ?thesis
      by (simp add: un codec_decode_def)
  next
    case eof
    with p show ?thesis by (simp add: un codec_decode_def)
  qed
qed

lemma codec_body_exact_witness:
  "codec_body demo_lib ((codec_new True)\<lparr>hc_payload := Some \<lparr>pd_kind = KLength 2\<rparr>\<rparr>, []) [104, 105, 71] =
     ([104, 105], ((codec_new True)\<lparr>hc_payload := None\<rparr>, []), [71], True)"
proof -
  have "drain \<lparr>pd_kind = KLength 2\<rparr> [104, 105, 71] = ([104, 105], DrainEof [71])"
    by (simp add: drain_length)
  from codec_body_exact [OF this] show ?thesis .
qed

section \<open>The connection after a response\<close>

text \<open>
  The connection is kept open after a response exactly when the server's
  configuration, the request and the response all agree to it: keep-alive is enabled, the
  request's connection type is keep-alive, and the response neither closes nor upgrades.
\<close>

theorem keepalive_decision:
  "response_ctype res (hc_ctype (codec_on_request req payload c)) = CtKeepAlive \<longleftrightarrow>
     hc_keepalive_enabled c \<and> rq_connection_type req = CtKeepAlive \<and>
     FlClose \<notin> rs_flags res \<and> (FlUpgrade \<in> rs_flags res \<longrightarrow> FlKeepAlive \<in> rs_flags res)"
  by (auto simp: response_ctype_def codec_on_request_def Let_def rs_ctype_def
      split: payload_type.split if_splits)

lemma keepalive_decision_witness:
  "response_ctype (response_head_new 200)
     (hc_ctype (codec_on_request request_head_default PtNone (codec_new True))) = CtKeepAlive"
  using keepalive_decision [of "response_head_new 200" request_head_default PtNone "codec_new True"]
  by (simp add: codec_new_def response_head_new_def request_head_default_def rq_connection_type_def
      less_http_version_def)

text \<open>
  A response to a \<open>HEAD\<close> request has no body on the wire: whatever is passed to the
  encoder, no byte is written and the end is no error.
\<close>

theorem head_response_no_body:
  "te_body (choose_te chunked True stream sz) ms buf = (Ok (), te_empty, buf)"
  by (induction ms) (simp_all add: choose_te_def te_empty_def te_encode_def te_encode_eof_def)

end
