(* ===== verification/H1_Payload.thy ===== *)
theory H1_Payload
  imports Rust_Prelude
begin

text \<open>
  The channel between the connection and the handler of a request (\<open>h1/payload.rs\<close>): a queue of
  body pieces with an end mark, an error, and back-pressure. The sender holds a weak
  reference, so its operations have no effect once the receiver is gone. A task that is
  woken is recorded as such.
\<close>

section \<open>State and operations\<close>

definition MAX_PAYLOAD :: nat where "MAX_PAYLOAD = 32768"

datatype payload_status = StRead | StPause | StDropped

text \<open>\<open>LocalWaker\<close>: whether a task is registered, and the wake-ups that happened.\<close>

record waker =
  wk_registered :: bool
  wk_woken :: nat

definition waker_new :: waker where
  "waker_new = \<lparr>wk_registered = False, wk_woken = 0\<rparr>"

definition waker_register :: "waker \<Rightarrow> waker" where
  "waker_register w = w\<lparr>wk_registered := True\<rparr>"

text \<open>\<open>wake\<close>, and \<open>take\<close> followed by \<open>wake\<close>: the registered task, if any, is woken once.\<close>

definition waker_wake :: "waker \<Rightarrow> waker" where
  "waker_wake w = (if wk_registered w then \<lparr>wk_registered = False, wk_woken = wk_woken w + 1\<rparr> else w)"

record 'e inner =
  in_len :: nat
  in_eof :: bool
  in_err :: "'e option"
  in_need_read :: bool
  in_items :: "bytes list"
  in_task :: waker
  in_io_task :: waker

definition inner_new :: "bool \<Rightarrow> 'e inner" where
  "inner_new eof = \<lparr>in_len = 0, in_eof = eof, in_err = None, in_need_read = True, in_items = [],
     in_task = waker_new, in_io_task = waker_new\<rparr>"

definition inner_set_error :: "'e \<Rightarrow> 'e inner \<Rightarrow> 'e inner" where
  "inner_set_error e s = s\<lparr>in_err := Some e\<rparr>"

definition inner_feed_eof :: "'e inner \<Rightarrow> 'e inner" where
  "inner_feed_eof s = s\<lparr>in_eof := True\<rparr>"

definition inner_feed_data :: "bytes \<Rightarrow> 'e inner \<Rightarrow> 'e inner" where
  "inner_feed_data d s =
     (let s = s\<lparr>in_len := in_len s + length d, in_items := in_items s @ [d]\<rparr>;
          s = s\<lparr>in_need_read := in_len s < MAX_PAYLOAD\<rparr>
      in s\<lparr>in_task := waker_wake (in_task s)\<rparr>)"

text \<open>\<open>self.len -= data.len()\<close> underflows, which is a panic of a debug build, when the length is short.\<close>

definition inner_readany :: "'e inner \<Rightarrow> ((bytes, 'e) result option poll \<times> 'e inner) exec" where
  "inner_readany s =
     (case in_items s of
        d # items \<Rightarrow>
          if in_len s < length d then Panic
          else
            (let s = s\<lparr>in_items := items, in_len := in_len s - length d\<rparr>;
                 s = s\<lparr>in_need_read := in_len s < MAX_PAYLOAD\<rparr>;
                 s = (if in_need_read s \<and> \<not> in_eof s then s\<lparr>in_task := waker_register (in_task s)\<rparr> else s)
             in Return (Ready (Some (Ok d)), s\<lparr>in_io_task := waker_wake (in_io_task s)\<rparr>))
      | [] \<Rightarrow>
          (case in_err s of
             Some e \<Rightarrow> Return (Ready (Some (Err e)), s\<lparr>in_err := None\<rparr>)
           | None \<Rightarrow>
               if in_eof s then Return (Ready None, s)
               else
                 (let s = s\<lparr>in_need_read := True, in_task := waker_register (in_task s)\<rparr>
                  in Return (Pending, s\<lparr>in_io_task := waker_wake (in_io_task s)\<rparr>))))"

definition inner_unread_data :: "bytes \<Rightarrow> 'e inner \<Rightarrow> 'e inner" where
  "inner_unread_data d s = s\<lparr>in_len := in_len s + length d, in_items := d # in_items s\<rparr>"

text \<open>The pair of sender and receiver; \<open>None\<close> when the receiver has been dropped.\<close>

type_synonym 'e channel = "'e inner option"

definition payload_create :: "bool \<Rightarrow> 'e channel" where
  "payload_create eof = Some (inner_new eof)"

definition sender_set_error :: "'e \<Rightarrow> 'e channel \<Rightarrow> 'e channel" where
  "sender_set_error e ch = map_option (inner_set_error e) ch"

definition sender_feed_eof :: "'e channel \<Rightarrow> 'e channel" where
  "sender_feed_eof ch = map_option inner_feed_eof ch"

definition sender_feed_data :: "bytes \<Rightarrow> 'e channel \<Rightarrow> 'e channel" where
  "sender_feed_data d ch = map_option (inner_feed_data d) ch"

definition sender_need_read :: "'e channel \<Rightarrow> payload_status \<times> 'e channel" where
  "sender_need_read ch =
     (case ch of
        Some s \<Rightarrow>
          if in_need_read s then (StRead, ch)
          else (StPause, Some (s\<lparr>in_io_task := waker_register (in_io_task s)\<rparr>))
      | None \<Rightarrow> (StDropped, None))"

section \<open>Sessions\<close>

text \<open>What sender and receiver do, in any order; \<open>Unread\<close> puts data back.\<close>

datatype 'e act = Feed bytes | FeedEof | SetError 'e | NeedRead | ReadAny | Unread bytes

definition act_step :: "'e act \<Rightarrow> 'e inner \<Rightarrow> ((bytes, 'e) result option poll option \<times> 'e inner) exec" where
  "act_step a s =
     (case a of
        Feed d \<Rightarrow> Return (None, inner_feed_data d s)
      | FeedEof \<Rightarrow> Return (None, inner_feed_eof s)
      | SetError e \<Rightarrow> Return (None, inner_set_error e s)
      | NeedRead \<Rightarrow> Return (None, the (snd (sender_need_read (Some s))))
      | ReadAny \<Rightarrow>
          (case inner_readany s of Panic \<Rightarrow> Panic | Return (p, s') \<Rightarrow> Return (Some p, s'))
      | Unread d \<Rightarrow> Return (None, inner_unread_data d s))"

inductive pl_steps :: "'e inner \<Rightarrow> 'e act list \<Rightarrow> (bytes, 'e) result option poll list \<Rightarrow> 'e inner \<Rightarrow> bool" where
  stop: "pl_steps s [] [] s"
| quiet: "act_step a s = Return (None, s1) \<Longrightarrow> pl_steps s1 as out s2 \<Longrightarrow> pl_steps s (a # as) out s2"
| answer: "act_step a s = Return (Some p, s1) \<Longrightarrow> pl_steps s1 as out s2 \<Longrightarrow> pl_steps s (a # as) (p # out) s2"

inductive_cases pl_steps_NilE: "pl_steps s [] out s'"
inductive_cases pl_steps_ConsE: "pl_steps s (a # as) out s'"

text \<open>The length counter is the number of buffered bytes.\<close>

definition inner_wf :: "'e inner \<Rightarrow> bool" where
  "inner_wf s \<longleftrightarrow> in_len s = length (concat (in_items s))"

lemma inner_wf_step: "inner_wf s \<Longrightarrow> \<exists>p s'. act_step a s = Return (p, s') \<and> inner_wf s'"
  by (cases a)
     (auto simp: act_step_def inner_wf_def inner_feed_data_def inner_feed_eof_def inner_set_error_def
        inner_unread_data_def inner_readany_def sender_need_read_def Let_def split: list.split option.split)

lemma pl_steps_wf: "pl_steps s as out s' \<Longrightarrow> inner_wf s \<Longrightarrow> inner_wf s'"
proof (induction rule: pl_steps.induct)
  case (quiet a s s1 as out s2)
  with inner_wf_step [of s a] show ?case by auto
next
  case (answer a s p s1 as out s2)
  with inner_wf_step [of s a] show ?case by auto
qed

text \<open>The bytes that were fed, and those the receiver got.\<close>

definition fed :: "'e act list \<Rightarrow> bytes" where
  "fed as = concat (map (\<lambda>a. case a of Feed d \<Rightarrow> d | _ \<Rightarrow> []) as)"

definition received :: "(bytes, 'e) result option poll list \<Rightarrow> bytes" where
  "received out = concat (map (\<lambda>p. case p of Ready (Some (Ok d)) \<Rightarrow> d | _ \<Rightarrow> []) out)"

lemma pl_steps_conserve:
  "pl_steps s as out s' \<Longrightarrow> \<forall>d. Unread d \<notin> set as \<Longrightarrow>
     concat (in_items s) @ fed as = received out @ concat (in_items s')"
proof (induction rule: pl_steps.induct)
  case (quiet a s s1 as out s2)
  then show ?case
    by (cases a) (auto simp: act_step_def inner_feed_data_def inner_feed_eof_def inner_set_error_def
        sender_need_read_def Let_def fed_def split: exec.splits prod.splits if_splits)
next
  case (answer a s p s1 as out s2)
  then show ?case
    by (cases a) (auto simp: act_step_def inner_readany_def Let_def fed_def received_def
        split: exec.splits prod.splits list.splits option.splits if_splits)
qed (simp add: fed_def received_def)

text \<open>Back-pressure: the sender is told to read exactly while the buffer is below its limit.\<close>

definition inner_bp :: "'e inner \<Rightarrow> bool" where
  "inner_bp s \<longleftrightarrow> inner_wf s \<and> (in_need_read s \<longleftrightarrow> in_len s < MAX_PAYLOAD)"

lemma inner_bp_step:
  "inner_bp s \<Longrightarrow> \<forall>d. a \<noteq> Unread d \<Longrightarrow> act_step a s = Return (p, s') \<Longrightarrow> inner_bp s'"
  by (cases a)
     (auto simp: act_step_def inner_bp_def inner_wf_def inner_feed_data_def inner_feed_eof_def inner_set_error_def
        inner_readany_def sender_need_read_def Let_def MAX_PAYLOAD_def
        split: list.splits option.splits exec.splits prod.splits if_splits)

lemma pl_steps_bp: "pl_steps s as out s' \<Longrightarrow> inner_bp s \<Longrightarrow> \<forall>d. Unread d \<notin> set as \<Longrightarrow> inner_bp s'"
proof (induction rule: pl_steps.induct)
  case (quiet a s s1 as out s2)
  then have "\<forall>d. a \<noteq> Unread d" by (metis list.set_intros(1))
  from inner_bp_step [OF quiet.prems(1) this quiet.hyps(1)] quiet.IH quiet.prems(2) show ?case by simp
next
  case (answer a s p s1 as out s2)
  then have "\<forall>d. a \<noteq> Unread d" by (metis list.set_intros(1))
  from inner_bp_step [OF answer.prems(1) this answer.hyps(1)] answer.IH answer.prems(2) show ?case by simp
qed

lemma inner_bp_new: "inner_bp (inner_new eof)"
  by (simp add: inner_bp_def inner_wf_def inner_new_def MAX_PAYLOAD_def)

text \<open>A sender is paused only while the limit is reached, also when data is put back.\<close>

definition pause_justified :: "'e inner \<Rightarrow> bool" where
  "pause_justified s \<longleftrightarrow> inner_wf s \<and> (in_need_read s \<or> in_len s \<ge> MAX_PAYLOAD)"

lemma pause_justified_step: "pause_justified s \<Longrightarrow> act_step a s = Return (p, s') \<Longrightarrow> pause_justified s'"
  by (cases a)
     (auto simp: act_step_def pause_justified_def inner_wf_def inner_feed_data_def inner_feed_eof_def inner_set_error_def
        inner_readany_def inner_unread_data_def sender_need_read_def Let_def MAX_PAYLOAD_def
        split: list.splits option.splits exec.splits prod.splits if_splits)

lemma pl_steps_justified: "pl_steps s as out s' \<Longrightarrow> pause_justified s \<Longrightarrow> pause_justified s'"
  by (induction rule: pl_steps.induct) (auto dest: pause_justified_step)

lemma pause_justified_new: "pause_justified (inner_new eof)"
  by (simp add: pause_justified_def inner_wf_def inner_new_def MAX_PAYLOAD_def)

text \<open>
  The channel as a queue of bytes, without pieces, flags and counters: what is fed goes to its end, what is put back to its front,
  what is read comes off its front, and a read that finds nothing to read, but the end or an error, finds it empty. The result is what
  the queue holds at last, or \<open>None\<close> when the answers are not those of a queue.
\<close>

fun queue_run :: "'e act list \<Rightarrow> (bytes, 'e) result option poll list \<Rightarrow> bytes \<Rightarrow> bytes option" where
  "queue_run [] out q = (if out = [] then Some q else None)"
| "queue_run (a # as) out q =
     (case a of
        Feed d \<Rightarrow> queue_run as out (q @ d)
      | Unread d \<Rightarrow> queue_run as out (d @ q)
      | ReadAny \<Rightarrow>
          (case out of
             [] \<Rightarrow> None
           | Ready (Some (Ok d)) # out \<Rightarrow> if prefix d q then queue_run as out (drop (length d) q) else None
           | _ # out \<Rightarrow> if q = [] then queue_run as out q else None)
      | _ \<Rightarrow> queue_run as out q)"

lemma pl_steps_queue: "pl_steps s as out s' \<Longrightarrow> queue_run as out (concat (in_items s)) = Some (concat (in_items s'))"
proof (induction rule: pl_steps.induct)
  case (quiet a s s1 as out s2)
  then show ?case
    by (cases a) (auto simp: act_step_def inner_feed_data_def inner_feed_eof_def inner_set_error_def inner_unread_data_def
        sender_need_read_def split: exec.splits prod.splits if_splits)
next
  case (answer a s p s1 as out s2)
  from answer.hyps(1) have a: "a = ReadAny" and r: "inner_readany s = Return (p, s1)"
    by (cases a; auto simp: act_step_def split: exec.splits prod.splits)+
  show ?case
  proof (cases "in_items s")
    case Nil
    with r answer.IH show ?thesis
      by (auto simp: a inner_readany_def Let_def split: option.splits if_splits)
  next
    case (Cons d items)
    with r answer.IH show ?thesis
      by (auto simp: a inner_readany_def Let_def split: if_splits)
  qed
qed simp

text \<open>
  Property C27. The body channel loses, reorders and invents nothing: whatever sender and receiver
  do and in whatever order, it behaves as a queue of bytes, into which data that is put back goes at the front. The length
  counter is the number of bytes in it, and the sender is told to read whenever they are below the limit. When nothing was put
  back, the bytes fed so far are the bytes received followed by those in the queue, and the sender is paused exactly when the limit is reached.
\<close>

theorem body_channel_lossless:
  assumes "pl_steps (inner_new eof) as out s"
  shows "queue_run as out [] = Some (concat (in_items s)) \<and> in_len s = length (concat (in_items s)) \<and>
    (length (concat (in_items s)) < 32768 \<longrightarrow> fst (sender_need_read (Some s)) = StRead) \<and>
    ((\<forall>d. Unread d \<notin> set as) \<longrightarrow>
       fed as = received out @ concat (in_items s) \<and>
       fst (sender_need_read (Some s)) = (if length (concat (in_items s)) < 32768 then StRead else StPause))"
proof -
  have "queue_run as out [] = Some (concat (in_items s))"
    using pl_steps_queue [OF assms] by (simp add: inner_new_def)
  moreover have j: "pause_justified s" by (rule pl_steps_justified [OF assms pause_justified_new])
  then have len: "in_len s = length (concat (in_items s))" by (simp add: pause_justified_def inner_wf_def)
  moreover have "length (concat (in_items s)) < 32768 \<longrightarrow> fst (sender_need_read (Some s)) = StRead"
    using j len by (auto simp: pause_justified_def sender_need_read_def MAX_PAYLOAD_def)
  moreover have "fed as = received out @ concat (in_items s) \<and>
      fst (sender_need_read (Some s)) = (if length (concat (in_items s)) < 32768 then StRead else StPause)"
    if plain: "\<forall>d. Unread d \<notin> set as"
  proof -
    have "inner_bp s" using pl_steps_bp [OF assms inner_bp_new plain] .
    moreover have "fed as = received out @ concat (in_items s)"
      using pl_steps_conserve [OF assms plain] by (simp add: inner_new_def)
    ultimately show ?thesis using len by (simp add: inner_bp_def sender_need_read_def MAX_PAYLOAD_def)
  qed
  ultimately show ?thesis by blast
qed

lemma body_channel_lossless_witness:
  "fed [Feed [1, 2], NeedRead, Feed [3], ReadAny :: unit act] = [1, 2, 3] \<and>
   fst (sender_need_read (Some ((inner_new False :: unit inner)\<lparr>in_items := [[3]], in_len := 1\<rparr>))) = StRead"
proof -
  let ?as = "[Feed [1, 2], NeedRead, Feed [3], ReadAny] :: unit act list"
  let ?s0 = "inner_new False :: unit inner"
  let ?s1 = "inner_feed_data [1, 2] ?s0"
  let ?s2 = "inner_feed_data [3] ?s1"
  let ?s3 = "?s2\<lparr>in_items := [[3]], in_len := 1, in_task := waker_register (in_task ?s2)\<rparr>"
  have "pl_steps ?s0 ?as [Ready (Some (Ok [1, 2]))] ?s3"
  proof (rule pl_steps.quiet)
    show "act_step (Feed [1, 2]) ?s0 = Return (None, ?s1)" by (simp add: act_step_def)
    show "pl_steps ?s1 [NeedRead, Feed [3], ReadAny] [Ready (Some (Ok [1, 2]))] ?s3"
    proof (rule pl_steps.quiet)
      show "act_step NeedRead ?s1 = Return (None, ?s1)"
        by (simp add: act_step_def sender_need_read_def inner_feed_data_def inner_new_def MAX_PAYLOAD_def)
      show "pl_steps ?s1 [Feed [3], ReadAny] [Ready (Some (Ok [1, 2]))] ?s3"
      proof (rule pl_steps.quiet)
        show "act_step (Feed [3]) ?s1 = Return (None, ?s2)" by (simp add: act_step_def)
        show "pl_steps ?s2 [ReadAny] [Ready (Some (Ok [1, 2]))] ?s3"
          by (rule pl_steps.answer [OF _ pl_steps.stop])
             (simp add: act_step_def inner_readany_def inner_feed_data_def inner_new_def MAX_PAYLOAD_def
                waker_wake_def waker_new_def waker_register_def)
      qed
    qed
  qed
  from body_channel_lossless [OF this] show ?thesis
    by (simp add: fed_def sender_need_read_def inner_new_def)
qed

text \<open>
  A paused sender is woken: after \<open>need_read\<close> answered \<open>Pause\<close>, the next read of the
  handler, which never panics, wakes the connection's task, and a handler that finds nothing
  to read reopens the channel for the sender.
\<close>

theorem paused_sender_woken:
  assumes "inner_wf s" and "sender_need_read (Some s) = (StPause, Some s1)"
  shows "\<exists>p s2. inner_readany s1 = Return (p, s2) \<and>
    (in_items s \<noteq> [] \<or> in_err s = None \<and> \<not> in_eof s \<longrightarrow> wk_woken (in_io_task s2) = wk_woken (in_io_task s1) + 1) \<and>
    (p = Pending \<longrightarrow> in_need_read s2)"
proof -
  have s1: "s1 = s\<lparr>in_io_task := waker_register (in_io_task s)\<rparr>"
    using assms(2) by (auto simp: sender_need_read_def split: if_splits)
  have len: "in_items s = d # ds \<Longrightarrow> \<not> in_len s < length d" for d ds
    using assms(1) by (simp add: inner_wf_def)
  show ?thesis
    by (cases "in_items s"; cases "in_err s"; cases "in_eof s")
       (use len in \<open>auto simp: s1 inner_readany_def Let_def waker_wake_def waker_register_def\<close>)
qed

lemma paused_sender_woken_witness:
  "\<exists>p s2. inner_readany (((inner_new False :: unit inner)\<lparr>in_need_read := False\<rparr>)\<lparr>in_io_task := waker_register waker_new\<rparr>) = Return (p, s2) \<and>
     wk_woken (in_io_task s2) = 1"
proof -
  let ?s = "(inner_new False :: unit inner)\<lparr>in_need_read := False\<rparr>"
  have "sender_need_read (Some ?s) = (StPause, Some (?s\<lparr>in_io_task := waker_register waker_new\<rparr>))"
    by (simp add: sender_need_read_def inner_new_def)
  from paused_sender_woken [OF _ this] show ?thesis
    by (auto simp: inner_wf_def inner_new_def waker_register_def waker_new_def)
qed

text \<open>
  Data that is put back is not counted against the limit: after \<open>unread_data\<close> the
  sender is still told to read although the buffer is full.
\<close>

theorem unread_ignores_limit:
  "fst (sender_need_read (Some (inner_unread_data (replicate 32768 b) (inner_new eof)))) = StRead \<and>
   in_len (inner_unread_data (replicate 32768 b) (inner_new eof)) = MAX_PAYLOAD"
  by (simp add: sender_need_read_def inner_unread_data_def inner_new_def MAX_PAYLOAD_def)

end
