(* ===== verification/Http_Error.thy ===== *)
theory Http_Error
  imports Http_Types
begin

text \<open>
  The errors of \<open>error.rs\<close> that the connection handling passes around, and the status each
  becomes when it is turned into a response (\<open>ResponseError::status_code\<close>). \<open>h2::Error\<close>, whose
  code is not in the repository, is a string.
\<close>

abbreviation NOT_FOUND :: status_code where "NOT_FOUND \<equiv> 404"
abbreviation FORBIDDEN :: status_code where "FORBIDDEN \<equiv> 403"
abbreviation REQUEST_TIMEOUT :: status_code where "REQUEST_TIMEOUT \<equiv> 408"
abbreviation PAYLOAD_TOO_LARGE :: status_code where "PAYLOAD_TOO_LARGE \<equiv> 413"
abbreviation INTERNAL_SERVER_ERROR :: status_code where "INTERNAL_SERVER_ERROR \<equiv> 500"
abbreviation GATEWAY_TIMEOUT :: status_code where "GATEWAY_TIMEOUT \<equiv> 504"

datatype payload_error =
    PlIncomplete "io_error option" | PlEncodingCorrupted | PlOverflow | PlUnknownLength
  | PlHttp2 string | PlIo io_error

datatype dispatch_error =
    DeService | DeUpgrade | DeIo io_error | DeParse parse_error | DeH2 string
  | DeSlowRequestTimeout | DeDisconnectTimeout | DePayloadIsNotConsumed | DeMalformedRequest
  | DeInternalError | DeUnknown

datatype content_type_error = CtParseError | CtUnknownEncoding

datatype 'e timeout_error = ToService 'e | ToTimeout

datatype 'e blocking_error = BlError 'e | BlCanceled

section \<open>Conversions\<close>

fun payload_error_from_io :: "io_error \<Rightarrow> payload_error" where
  "payload_error_from_io e = PlIncomplete (Some e)"

fun payload_error_from_blocking :: "io_error blocking_error \<Rightarrow> payload_error" where
  "payload_error_from_blocking (BlError e) = PlIo e"
| "payload_error_from_blocking BlCanceled = PlIo (IoError OtherKind ''Operation is canceled'')"

section \<open>Status codes\<close>

fun io_error_status :: "io_error \<Rightarrow> status_code" where
  "io_error_status (IoError kind msg) =
     (case kind of
        NotFound \<Rightarrow> NOT_FOUND
      | PermissionDenied \<Rightarrow> FORBIDDEN
      | _ \<Rightarrow> INTERNAL_SERVER_ERROR)"

fun payload_error_status :: "payload_error \<Rightarrow> status_code" where
  "payload_error_status PlOverflow = PAYLOAD_TOO_LARGE"
| "payload_error_status _ = BAD_REQUEST"

fun content_type_error_status :: "content_type_error \<Rightarrow> status_code" where
  "content_type_error_status e = BAD_REQUEST"

fun timeout_error_status :: "('e \<Rightarrow> status_code) \<Rightarrow> 'e timeout_error \<Rightarrow> status_code" where
  "timeout_error_status inner_status (ToService e) = inner_status e"
| "timeout_error_status inner_status ToTimeout = GATEWAY_TIMEOUT"

end
