(* ===== verification/Http_Body.thy ===== *)
theory Http_Body
  imports Http_Error
begin

text \<open>
  Message bodies (\<open>body.rs\<close>). The trait \<open>MessageBody\<close> is a record of its two methods; a
  poll may use and change the world \<open>'w\<close> the body lives in. The error of a body carries no data
  here, since no caller looks at it.
\<close>

type_synonym body_poll = "(bytes, unit) result option poll"

record ('b, 'w) message_body =
  mb_size :: "'b \<Rightarrow> body_size"
  mb_poll :: "'b \<Rightarrow> 'w \<Rightarrow> body_poll \<times> 'b \<times> 'w"

text \<open>\<open>Body\<close> holds a boxed body \<open>'m\<close> of a type that is not known.\<close>

datatype 'm body = BodyNone | BodyEmpty | BodyBytes bytes | BodyMessage 'm

datatype ('b, 'm) response_body = RbBody 'b | RbOther "'m body"

fun into_body :: "('m body, 'm) response_body \<Rightarrow> ('b, 'm) response_body" where
  "into_body (RbBody b) = RbOther b"
| "into_body (RbOther b) = RbOther b"

definition take_body :: "('b, 'm) response_body \<Rightarrow> ('b, 'm) response_body \<times> ('b, 'm) response_body" where
  "take_body b = (b, RbOther BodyNone)"

fun rb_as_ref :: "('b, 'm) response_body \<Rightarrow> 'b option" where
  "rb_as_ref (RbBody b) = Some b"
| "rb_as_ref (RbOther b) = None"

section \<open>Implementations of the trait\<close>

definition unit_body :: "(unit, 'w) message_body" where
  "unit_body = \<lparr>mb_size = (\<lambda>b. SzEmpty), mb_poll = (\<lambda>b w. (Ready None, b, w))\<rparr>"

definition bytes_body :: "(bytes, 'w) message_body" where
  "bytes_body = \<lparr>mb_size = (\<lambda>b. SzSized (length b)),
     mb_poll = (\<lambda>b w. if b = [] then (Ready None, b, w) else (Ready (Some (Ok b)), [], w))\<rparr>"

fun body_len :: "('m \<Rightarrow> body_size) \<Rightarrow> 'm body \<Rightarrow> body_size" where
  "body_len msz BodyNone = SzNone"
| "body_len msz BodyEmpty = SzEmpty"
| "body_len msz (BodyBytes b) = SzSized (length b)"
| "body_len msz (BodyMessage m) = msz m"

fun body_poll_next :: "('m, 'w) message_body \<Rightarrow> 'm body \<Rightarrow> 'w \<Rightarrow> body_poll \<times> 'm body \<times> 'w" where
  "body_poll_next mb BodyNone w = (Ready None, BodyNone, w)"
| "body_poll_next mb BodyEmpty w = (Ready None, BodyEmpty, w)"
| "body_poll_next mb (BodyBytes b) w =
     (if length b = 0 then (Ready None, BodyBytes b, w) else (Ready (Some (Ok b)), BodyBytes [], w))"
| "body_poll_next mb (BodyMessage m) w = (let (p, m, w) = mb_poll mb m w in (p, BodyMessage m, w))"

definition body_impl :: "('m, 'w) message_body \<Rightarrow> ('m body, 'w) message_body" where
  "body_impl mb = \<lparr>mb_size = body_len (mb_size mb), mb_poll = body_poll_next mb\<rparr>"

fun rb_size :: "('b, 'w) message_body \<Rightarrow> ('m, 'w) message_body \<Rightarrow> ('b, 'm) response_body \<Rightarrow> body_size" where
  "rb_size bb mb (RbBody b) = mb_size bb b"
| "rb_size bb mb (RbOther b) = body_len (mb_size mb) b"

fun rb_poll_next ::
  "('b, 'w) message_body \<Rightarrow> ('m, 'w) message_body \<Rightarrow> ('b, 'm) response_body \<Rightarrow> 'w \<Rightarrow>
   body_poll \<times> ('b, 'm) response_body \<times> 'w" where
  "rb_poll_next bb mb (RbBody b) w = (let (p, b, w) = mb_poll bb b w in (p, RbBody b, w))"
| "rb_poll_next bb mb (RbOther b) w = (let (p, b, w) = body_poll_next mb b w in (p, RbOther b, w))"

definition response_body_impl ::
  "('b, 'w) message_body \<Rightarrow> ('m, 'w) message_body \<Rightarrow> (('b, 'm) response_body, 'w) message_body" where
  "response_body_impl bb mb = \<lparr>mb_size = rb_size bb mb, mb_poll = rb_poll_next bb mb\<rparr>"

text \<open>
  A stream of pieces, of unknown length or with a length that is declared and not checked. The
  stream is the one of the caller: its \<open>poll_next\<close> is a parameter.
\<close>

type_synonym ('s, 'w, 'e) stream_poll = "'s \<Rightarrow> 'w \<Rightarrow> (bytes, 'e) result option poll \<times> 's \<times> 'w"

fun map_err :: "('e \<Rightarrow> 'f) \<Rightarrow> ('a, 'e) result \<Rightarrow> ('a, 'f) result" where
  "map_err f (Ok a) = Ok a"
| "map_err f (Err e) = Err (f e)"

fun map_poll :: "('a \<Rightarrow> 'c) \<Rightarrow> 'a poll \<Rightarrow> 'c poll" where
  "map_poll f Pending = Pending"
| "map_poll f (Ready a) = Ready (f a)"

definition body_stream :: "('e \<Rightarrow> unit) \<Rightarrow> ('s, 'w, 'e) stream_poll \<Rightarrow> ('s, 'w) message_body" where
  "body_stream into poll = \<lparr>mb_size = (\<lambda>s. SzStream),
     mb_poll = (\<lambda>s w. let (p, s, w) = poll s w in (map_poll (map_option (map_err into)) p, s, w))\<rparr>"

definition sized_stream :: "('s, 'w, unit) stream_poll \<Rightarrow> (u64 \<times> 's, 'w) message_body" where
  "sized_stream poll = \<lparr>mb_size = (\<lambda>(n, s). SzSized64 n),
     mb_poll = (\<lambda>(n, s) w. let (p, s, w) = poll s w in (p, (n, s), w))\<rparr>"

section \<open>The contract of a body\<close>

text \<open>
  What a body yields when it is polled until it ends, fails or is pending, for at most \<open>n\<close>
  polls: the pieces, and whether it ended.
\<close>

fun body_pieces :: "nat \<Rightarrow> ('b, 'w) message_body \<Rightarrow> 'b \<Rightarrow> 'w \<Rightarrow> bytes list \<times> bool" where
  "body_pieces 0 mb b w = ([], False)"
| "body_pieces (Suc n) mb b w =
     (case mb_poll mb b w of
        (Ready (Some (Ok d)), b, w) \<Rightarrow> (let (ds, fin) = body_pieces n mb b w in (d # ds, fin))
      | (Ready None, b, w) \<Rightarrow> ([], True)
      | (_, b, w) \<Rightarrow> ([], False))"

text \<open>
  A body of known bytes keeps its promise: it yields as many bytes as its size announces, in one
  piece, and ends, and none when the size is an end already; wrapped as a response body it
  does the same.
\<close>

theorem bytes_body_exact:
  "body_pieces 2 (response_body_impl bb mb) (RbOther (BodyBytes b)) w = (if b = [] then [] else [b], True) \<and>
   rb_size bb mb (RbOther (BodyBytes b)) = SzSized (length b) \<and>
   size_is_eof (rb_size bb mb (RbOther (BodyBytes b))) = (b = [])"
  by (simp add: response_body_impl_def numeral_2_eq_2)

text \<open>
  A stream with a declared length announces that length whatever the stream yields: the code
  does not compare them.
\<close>

theorem sized_stream_unchecked:
  "mb_size (sized_stream poll) (n, s) = SzSized64 n \<and>
   fst (mb_poll (sized_stream poll) (n, s) w) = fst (poll s w)"
  by (simp add: sized_stream_def split: prod.split)

end
