(* ===== verification/Service_Config.thy ===== *)
theory Service_Config
  imports Rust_Prelude
begin

text \<open>
  The service configuration (\<open>config.rs\<close>): keep-alive setting, client timeouts, and the date service
  that caches the clock. An \<open>Instant\<close> is a number of milliseconds; a \<open>Delay\<close> is the instant at which
  it is ready. The formatted date (29 bytes, from the crate \<open>time\<close>) is a parameter.
\<close>

section \<open>Data\<close>

type_synonym instant = nat

datatype keep_alive = KaTimeout nat | KaOs | KaDisabled

fun keep_alive_from_option :: "nat option \<Rightarrow> keep_alive" where
  "keep_alive_from_option (Some n) = KaTimeout n"
| "keep_alive_from_option None = KaDisabled"

record service_config =
  sc_keep_alive :: "nat option"
  sc_client_timeout :: nat
  sc_client_disconnect :: nat
  sc_ka_enabled :: bool
  sc_secure :: bool
  sc_local_addr :: "nat option"

definition service_config_new ::
  "keep_alive \<Rightarrow> nat \<Rightarrow> nat \<Rightarrow> bool \<Rightarrow> nat option \<Rightarrow> service_config" where
  "service_config_new ka client_timeout client_disconnect secure addr =
     (let (secs, enabled) = (case ka of KaTimeout n \<Rightarrow> (n, True) | KaOs \<Rightarrow> (0, True) | KaDisabled \<Rightarrow> (0, False))
      in \<lparr>sc_keep_alive = (if enabled \<and> secs > 0 then Some (secs * 1000) else None),
          sc_client_timeout = client_timeout, sc_client_disconnect = client_disconnect,
          sc_ka_enabled = enabled, sc_secure = secure, sc_local_addr = addr\<rparr>)"

definition service_config_default :: service_config where
  "service_config_default = service_config_new (KaTimeout 5) 0 0 False None"

section \<open>Timers\<close>

text \<open>Each takes the instant that the date service reports.\<close>

definition client_timer_expire :: "service_config \<Rightarrow> instant \<Rightarrow> instant option" where
  "client_timer_expire c now = (if sc_client_timeout c \<noteq> 0 then Some (now + sc_client_timeout c) else None)"

definition client_timer :: "service_config \<Rightarrow> instant \<Rightarrow> instant option" where
  "client_timer c now = (if sc_client_timeout c \<noteq> 0 then Some (now + sc_client_timeout c) else None)"

definition client_disconnect_timer :: "service_config \<Rightarrow> instant \<Rightarrow> instant option" where
  "client_disconnect_timer c now =
     (if sc_client_disconnect c \<noteq> 0 then Some (now + sc_client_disconnect c) else None)"

definition keep_alive_timer :: "service_config \<Rightarrow> instant \<Rightarrow> instant option" where
  "keep_alive_timer c now = (case sc_keep_alive c of Some ka \<Rightarrow> Some (now + ka) | None \<Rightarrow> None)"

definition keep_alive_expire :: "service_config \<Rightarrow> instant \<Rightarrow> instant option" where
  "keep_alive_expire c now = (case sc_keep_alive c of Some ka \<Rightarrow> Some (now + ka) | None \<Rightarrow> None)"

section \<open>The date service\<close>

text \<open>
  The cache holds the formatted date and the instant at which it was made. The first reader fills
  it and spawns a task that empties it after 500 milliseconds; \<open>ds_due\<close> is the instant at which
  that task is ready. The executor runs it some time after.
\<close>

record date_service =
  ds_current :: "(bytes \<times> instant) option"
  ds_due :: "instant list"

definition date_service_new :: date_service where
  "date_service_new = \<lparr>ds_current = None, ds_due = []\<rparr>"

definition check_date :: "(instant \<Rightarrow> bytes) \<Rightarrow> instant \<Rightarrow> date_service \<Rightarrow> date_service" where
  "check_date fmt clock s =
     (if ds_current s = None
      then \<lparr>ds_current = Some (fmt clock, clock), ds_due = ds_due s @ [clock + 500]\<rparr>
      else s)"

definition ds_now :: "(instant \<Rightarrow> bytes) \<Rightarrow> instant \<Rightarrow> date_service \<Rightarrow> instant \<times> date_service" where
  "ds_now fmt clock s = (let s = check_date fmt clock s in (snd (the (ds_current s)), s))"

definition ds_date :: "(instant \<Rightarrow> bytes) \<Rightarrow> instant \<Rightarrow> date_service \<Rightarrow> bytes \<times> date_service" where
  "ds_date fmt clock s = (let s = check_date fmt clock s in (fst (the (ds_current s)), s))"

definition ds_reset :: "date_service \<Rightarrow> date_service" where
  "ds_reset s = s\<lparr>ds_current := None\<rparr>"

text \<open>The header line that \<open>set_date\<close> appends to a head, of which it is the last.\<close>

definition set_date_line :: "bytes \<Rightarrow> bytes" where
  "set_date_line date = bstr ''date: '' @ date @ [0x0D, 0x0A, 0x0D, 0x0A]"

section \<open>The cache in use\<close>

text \<open>
  The runs of the service: the clock moves, but not past the reset that is due by more than the
  delay \<open>late\<close> of the executor; readers read; the executor runs the reset that is due.
\<close>

inductive ds_run :: "(instant \<Rightarrow> bytes) \<Rightarrow> nat \<Rightarrow> instant \<Rightarrow> date_service \<Rightarrow> bool" for fmt late where
  start: "ds_run fmt late clock date_service_new"
| tick: "ds_run fmt late clock s \<Longrightarrow> clock \<le> clock' \<Longrightarrow> \<forall>d \<in> set (ds_due s). clock' \<le> d + late \<Longrightarrow>
    ds_run fmt late clock' s"
| read: "ds_run fmt late clock s \<Longrightarrow> ds_run fmt late clock (check_date fmt clock s)"
| reset: "ds_run fmt late clock s \<Longrightarrow> ds_due s = d # ds \<Longrightarrow> d \<le> clock \<Longrightarrow>
    ds_run fmt late clock (ds_reset (s\<lparr>ds_due := ds\<rparr>))"

text \<open>
  A filled cache has exactly one reset under way, 500 milliseconds after it was filled, and an
  empty one has none.
\<close>

definition ds_inv :: "(instant \<Rightarrow> bytes) \<Rightarrow> nat \<Rightarrow> instant \<Rightarrow> date_service \<Rightarrow> bool" where
  "ds_inv fmt late clock s \<longleftrightarrow>
     (case ds_current s of
        None \<Rightarrow> ds_due s = []
      | Some (date, t) \<Rightarrow> ds_due s = [t + 500] \<and> t \<le> clock \<and> clock \<le> t + 500 + late \<and> date = fmt t)"

lemma ds_run_inv: "ds_run fmt late clock s \<Longrightarrow> ds_inv fmt late clock s"
proof (induction rule: ds_run.induct)
  case (start clock)
  then show ?case by (simp add: ds_inv_def date_service_new_def)
next
  case (tick clock s clock')
  then show ?case by (auto simp: ds_inv_def split: option.splits)
next
  case (read clock s)
  then show ?case by (auto simp: ds_inv_def check_date_def split: option.splits)
next
  case (reset clock s d ds)
  then show ?case by (auto simp: ds_inv_def ds_reset_def split: option.splits)
qed

text \<open>
  The instant and the date that the service reports are never ahead of the clock and never older
  than half a second plus the delay with which the executor runs a task that is due, and
  date and instant are of the same moment.
\<close>

theorem date_cache_fresh:
  assumes "ds_run fmt late clock s" and "ds_now fmt clock s = (t, s')"
  shows "t \<le> clock \<and> clock \<le> t + 500 + late \<and> fst (ds_date fmt clock s) = fmt t"
  using ds_run_inv [OF assms(1)] assms(2)
  by (auto simp: ds_inv_def ds_now_def ds_date_def check_date_def Let_def split: option.splits if_splits)

lemma date_cache_fresh_witness:
  "fst (ds_now (\<lambda>t. [of_nat t]) 1300 (check_date (\<lambda>t. [of_nat t]) 1000 date_service_new)) \<le> (1300 :: nat)"
proof -
  let ?f = "\<lambda>t. [of_nat t]" and ?s = "check_date (\<lambda>t. [of_nat t]) 1000 date_service_new"
  have run: "ds_run ?f 0 1300 ?s"
    by (rule ds_run.tick [OF ds_run.read [OF ds_run.start]]) (simp_all add: check_date_def date_service_new_def)
  obtain t s' where "ds_now ?f 1300 ?s = (t, s')" by (cases "ds_now ?f 1300 ?s")
  with date_cache_fresh [OF run this] show ?thesis by simp
qed

text \<open>
  What the keep-alive setting means: a connection is kept open unless the setting is disabled, and
  a timer runs exactly for a positive timeout.
\<close>

theorem keep_alive_setting:
  "sc_ka_enabled (service_config_new ka ct cd secure addr) = (ka \<noteq> KaDisabled) \<and>
   keep_alive_timer (service_config_new ka ct cd secure addr) now =
     (case ka of KaTimeout n \<Rightarrow> if n > 0 then Some (now + n * 1000) else None | _ \<Rightarrow> None)"
  by (cases ka) (auto simp: service_config_new_def keep_alive_timer_def)

end
