(* ===== verification/H1_Dispatcher.thy ===== *)
theory H1_Dispatcher
  imports H1_Codec H1_Payload Http_Body Service_Config
begin

text \<open>
  The HTTP/1 connection of the server (\<open>h1/dispatcher.rs\<close>). The dispatcher reads the
  socket, decodes requests and body pieces, calls the service for one request at a time, queues
  the others, writes the responses, and watches the keep-alive timer. One poll of it is a
  function: what the surroundings do (the socket, the clock, the service, the bodies of its
  responses) is a record of functions on a world. A loop of the code that might not end is
  a partial function, so that a poll which never returns is \<open>None\<close>.
\<close>

section \<open>The surroundings\<close>

text \<open>
  The body channels are shared: the dispatcher holds the sender, the service's future holds the receiver
  in its request. So they are in the world, in the order of their creation.
\<close>

record 'w world =
  wo_channels :: "payload_error channel list"
  wo_env :: 'w

datatype http_payload = PayNone | PayH1 nat

type_synonym request = "request_head \<times> http_payload"

record ('w, 'f, 'b, 'm) disp_env =
  de_lib :: http_lib
  de_encode :: encode_env
  de_config :: service_config
  de_peer_addr :: "nat option"
  de_on_connect :: "(extensions \<Rightarrow> extensions) option"
  de_upgrade :: bool
  de_clock :: "'w world \<Rightarrow> instant"
  de_now :: "'w world \<Rightarrow> instant"
  de_read :: "'w world \<Rightarrow> (bytes, io_error) result poll \<times> 'w world"
  de_write :: "bytes \<Rightarrow> 'w world \<Rightarrow> (nat, io_error) result poll \<times> 'w world"
  de_shutdown :: "'w world \<Rightarrow> (unit, io_error) result poll \<times> 'w world"
  de_service_call :: "request \<Rightarrow> 'w world \<Rightarrow> 'f \<times> 'w world"
  de_service_poll :: "'f \<Rightarrow> 'w world \<Rightarrow>
    (response_head \<times> ('b, 'm) response_body, response_head \<times> ('m body, 'm) response_body) result poll \<times> 'f \<times> 'w world"
  de_expect_call :: "request \<Rightarrow> 'w world \<Rightarrow> 'f \<times> 'w world"
  de_expect_poll :: "'f \<Rightarrow> 'w world \<Rightarrow>
    (request, response_head \<times> ('m body, 'm) response_body) result poll \<times> 'f \<times> 'w world"
  de_upgrade_call :: "request \<Rightarrow> h1_codec \<Rightarrow> bytes \<Rightarrow> out_buf \<Rightarrow> 'w world \<Rightarrow> 'f \<times> 'w world"
  de_upgrade_poll :: "'f \<Rightarrow> 'w world \<Rightarrow> (unit, unit) result poll \<times> 'f \<times> 'w world"
  de_body :: "('b, 'w world) message_body"
  de_boxed :: "('m, 'w world) message_body"

section \<open>State\<close>

definition LW_BUFFER_SIZE :: nat where "LW_BUFFER_SIZE = 4096"
definition HW_BUFFER_SIZE :: nat where "HW_BUFFER_SIZE = 32768"
definition MAX_PIPELINED_MESSAGES :: nat where "MAX_PIPELINED_MESSAGES = 16"

datatype disp_flag = DfStarted | DfKeepAlive | DfPolled | DfShutdown | DfReadDisconnect | DfWriteDisconnect | DfUpgrade

datatype disp_message = DmItem request | DmUpgrade request | DmError response_head

datatype ('f, 'b, 'm) call_state = CsNone | CsExpectCall 'f | CsServiceCall 'f | CsSendPayload "('b, 'm) response_body"

fun cs_is_empty :: "('f, 'b, 'm) call_state \<Rightarrow> bool" where
  "cs_is_empty CsNone = True"
| "cs_is_empty _ = False"

fun cs_is_call :: "('f, 'b, 'm) call_state \<Rightarrow> bool" where
  "cs_is_call (CsServiceCall f) = True"
| "cs_is_call _ = False"

datatype poll_answer = PrUpgrade request | PrDoNothing | PrDrainWriteBuf

text \<open>The comparison the code implements, in which an upgrade is not equal to itself.\<close>

fun poll_answer_eq :: "poll_answer \<Rightarrow> poll_answer \<Rightarrow> bool" where
  "poll_answer_eq PrDrainWriteBuf b = (b = PrDrainWriteBuf)"
| "poll_answer_eq PrDoNothing b = (b = PrDoNothing)"
| "poll_answer_eq (PrUpgrade r) b = False"

text \<open>The inner dispatcher; the thread's pool of request heads is kept with it.\<close>

record ('f, 'b, 'm) disp =
  di_flags :: "disp_flag set"
  di_error :: "dispatch_error option"
  di_state :: "('f, 'b, 'm) call_state"
  di_payload :: "nat option"
  di_messages :: "disp_message list"
  di_ka_expire :: instant
  di_ka_timer :: "instant option"
  di_read_buf :: bytes
  di_write_buf :: out_buf
  di_codec :: h1_codec
  di_pool :: request_pool

datatype ('f, 'b, 'm) dispatcher = DpNormal "('f, 'b, 'm) disp" | DpUpgrade 'f | DpNone

text \<open>Why a poll ends early: an error it returns, or a panic (or a write outside of memory).\<close>

datatype stop = Failed dispatch_error | Crashed

definition disp_with_timeout ::
  "service_config \<Rightarrow> instant \<Rightarrow> h1_codec \<Rightarrow> bytes \<Rightarrow> out_buf \<Rightarrow> instant option \<Rightarrow> request_pool \<Rightarrow>
   ('f, 'b, 'm) dispatcher" where
  "disp_with_timeout config now codec read_buf write_buf timeout pool =
     (let flags = (if sc_ka_enabled config then {DfKeepAlive} else {});
          (ka_expire, ka_timer) =
            (case timeout of
               Some delay \<Rightarrow> (delay, Some delay)
             | None \<Rightarrow> (case keep_alive_timer config now of Some delay \<Rightarrow> (delay, Some delay) | None \<Rightarrow> (now, None)))
      in DpNormal \<lparr>di_flags = flags, di_error = None, di_state = CsNone, di_payload = None, di_messages = [],
           di_ka_expire = ka_expire, di_ka_timer = ka_timer, di_read_buf = read_buf, di_write_buf = write_buf,
           di_codec = codec, di_pool = pool\<rparr>)"

definition disp_new :: "service_config \<Rightarrow> instant \<Rightarrow> out_buf \<Rightarrow> request_pool \<Rightarrow> ('f, 'b, 'm) dispatcher" where
  "disp_new config now write_buf pool =
     disp_with_timeout config now (codec_new (sc_ka_enabled config)) [] write_buf None pool"

section \<open>The body channel of the current request\<close>

definition chan_apply :: "nat \<Rightarrow> (payload_error channel \<Rightarrow> payload_error channel) \<Rightarrow> 'w world \<Rightarrow> 'w world" where
  "chan_apply i f w =
     (if i < length (wo_channels w) then w\<lparr>wo_channels := (wo_channels w)[i := f (wo_channels w ! i)]\<rparr> else w)"

definition chan_create :: "bool \<Rightarrow> 'w world \<Rightarrow> nat \<times> 'w world" where
  "chan_create eof w = (length (wo_channels w), w\<lparr>wo_channels := wo_channels w @ [payload_create eof]\<rparr>)"

text \<open>\<open>if let Some(payload) = self.payload.take()\<close>, followed by an operation of the sender.\<close>

definition take_payload ::
  "(payload_error channel \<Rightarrow> payload_error channel) \<Rightarrow> ('f, 'b, 'm) disp \<Rightarrow> 'w world \<Rightarrow> ('f, 'b, 'm) disp \<times> 'w world" where
  "take_payload f d w =
     (case di_payload d of
        Some i \<Rightarrow> (d\<lparr>di_payload := None\<rparr>, chan_apply i f w)
      | None \<Rightarrow> (d, w))"

definition can_read :: "('f, 'b, 'm) disp \<Rightarrow> 'w world \<Rightarrow> bool \<times> 'w world" where
  "can_read d w =
     (if di_flags d \<inter> {DfReadDisconnect, DfUpgrade} \<noteq> {} then (False, w)
      else
        (case di_payload d of
           Some i \<Rightarrow>
             (if i < length (wo_channels w) then
                (let (st, ch) = sender_need_read (wo_channels w ! i)
                 in (st = StRead, chan_apply i (\<lambda>_. ch) w))
              else (False, w))
         | None \<Rightarrow> (True, w)))"

definition client_disconnected :: "('f, 'b, 'm) disp \<Rightarrow> 'w world \<Rightarrow> ('f, 'b, 'm) disp \<times> 'w world" where
  "client_disconnected d w =
     take_payload (sender_set_error (PlIncomplete None))
       (d\<lparr>di_flags := di_flags d \<union> {DfReadDisconnect, DfWriteDisconnect}\<rparr>) w"

section \<open>Writing\<close>

text \<open>The socket takes what it can of the buffer; the loop ends since each write takes something.\<close>

datatype flush_end = FlAll nat | FlPending nat | FlFailed io_error

function flush_loop ::
  "(bytes \<Rightarrow> 'w \<Rightarrow> (nat, io_error) result poll \<times> 'w) \<Rightarrow> bytes \<Rightarrow> nat \<Rightarrow> 'w \<Rightarrow> flush_end \<times> 'w" where
  "flush_loop wr buf written w =
     (if written < length buf then
        (case wr (drop written buf) w of
           (Ready (Ok n), w) \<Rightarrow>
             if n = 0 then (FlFailed (IoError WriteZero ''''), w) else flush_loop wr buf (written + n) w
         | (Pending, w) \<Rightarrow> (FlPending written, w)
         | (Ready (Err e), w) \<Rightarrow> (FlFailed e, w))
      else (FlAll written, w))"
  by pat_completeness auto
termination by (relation "measure (\<lambda>(wr, buf, written, w). length buf - written)") auto

declare flush_loop.simps [simp del]

definition buf_advance :: "nat \<Rightarrow> out_buf \<Rightarrow> out_buf option" where
  "buf_advance n b = (if n \<le> length (ob_data b) then Some (b\<lparr>ob_data := drop n (ob_data b)\<rparr>) else None)"

definition buf_clear :: "out_buf \<Rightarrow> out_buf" where
  "buf_clear b = \<lparr>ob_data = [], ob_spare = ob_data b @ ob_spare b\<rparr>"

definition poll_flush ::
  "('w, 'f, 'b, 'm) disp_env \<Rightarrow> ('f, 'b, 'm) disp \<Rightarrow> 'w world \<Rightarrow> (bool, stop) result \<times> ('f, 'b, 'm) disp \<times> 'w world" where
  "poll_flush env d w =
     (let buf = di_write_buf d
      in if ob_data buf = [] then (Ok False, d, w)
         else
           (case flush_loop (de_write env) (ob_data buf) 0 w of
              (FlFailed e, w) \<Rightarrow> (Err (Failed (DeIo e)), d, w)
            | (FlPending written, w) \<Rightarrow>
                (if written > 0 then
                   (case buf_advance written buf of
                      Some buf \<Rightarrow> (Ok True, d\<lparr>di_write_buf := buf\<rparr>, w)
                    | None \<Rightarrow> (Err Crashed, d, w))
                 else (Ok True, d, w))
            | (FlAll written, w) \<Rightarrow>
                (if written = length (ob_data buf) then (Ok False, d\<lparr>di_write_buf := buf_clear buf\<rparr>, w)
                 else
                   (case buf_advance written buf of
                      Some buf \<Rightarrow> (Ok False, d\<lparr>di_write_buf := buf\<rparr>, w)
                    | None \<Rightarrow> (Err Crashed, d, w)))))"

text \<open>The encoder on the write buffer.\<close>

definition disp_encode ::
  "('w, 'f, 'b, 'm) disp_env \<Rightarrow> (response_head \<times> body_size) message \<Rightarrow> ('f, 'b, 'm) disp \<Rightarrow>
   (unit, stop) result \<times> ('f, 'b, 'm) disp" where
  "disp_encode env msg d =
     (case codec_encode (de_encode env) (de_lib env) msg (di_codec d) (di_write_buf d) of
        None \<Rightarrow> (Err Crashed, d)
      | Some (r, c, buf) \<Rightarrow>
          ((case r of Ok u \<Rightarrow> Ok u | Err e \<Rightarrow> Err (Failed (DeIo e))), d\<lparr>di_codec := c, di_write_buf := buf\<rparr>))"

definition env_body_size :: "('w, 'f, 'b, 'm) disp_env \<Rightarrow> ('b, 'm) response_body \<Rightarrow> body_size" where
  "env_body_size env body = rb_size (de_body env) (de_boxed env) body"

definition send_response ::
  "('w, 'f, 'b, 'm) disp_env \<Rightarrow> response_head \<Rightarrow> ('b, 'm) response_body \<Rightarrow> ('f, 'b, 'm) disp \<Rightarrow> 'w world \<Rightarrow>
   (('f, 'b, 'm) call_state, stop) result \<times> ('f, 'b, 'm) disp \<times> 'w world" where
  "send_response env message body d w =
     (case disp_encode env (Item (message, env_body_size env body)) d of
        (Err e, d) \<Rightarrow> (let (d, w) = take_payload (sender_set_error (PlIncomplete None)) d w in (Err e, d, w))
      | (Ok _, d) \<Rightarrow>
          (let d = d\<lparr>di_flags := (if codec_keepalive (di_codec d) then insert DfKeepAlive (di_flags d)
                                else di_flags d - {DfKeepAlive})\<rparr>
           in (case env_body_size env body of
                 SzNone \<Rightarrow> (Ok CsNone, d, w)
               | SzEmpty \<Rightarrow> (Ok CsNone, d, w)
               | _ \<Rightarrow> (Ok (CsSendPayload body), d, w))))"

definition send_continue :: "('w, 'f, 'b, 'm) disp_env \<Rightarrow> ('f, 'b, 'm) disp \<Rightarrow> ('f, 'b, 'm) disp" where
  "send_continue env d =
     d\<lparr>di_write_buf := put_slice (de_encode env) (bstr ''HTTP/1.1 100 Continue'' @ [0x0D, 0x0A, 0x0D, 0x0A]) (di_write_buf d)\<rparr>"

section \<open>Calling the service\<close>

definition call_service ::
  "('w, 'f, 'b, 'm) disp_env \<Rightarrow> request \<Rightarrow> ('f, 'b, 'm) disp \<Rightarrow> 'w world \<Rightarrow>
   (('f, 'b, 'm) call_state, stop) result \<times> ('f, 'b, 'm) disp \<times> 'w world" where
  "call_service env req d w =
     (let (task, w) = de_service_call env req w
      in case de_service_poll env task w of
           (Ready (Ok (res, body)), task, w) \<Rightarrow> send_response env res body d w
         | (Pending, task, w) \<Rightarrow> (Ok (CsServiceCall task), d, w)
         | (Ready (Err (res, body)), task, w) \<Rightarrow> send_response env res (into_body body) d w)"

definition handle_request ::
  "('w, 'f, 'b, 'm) disp_env \<Rightarrow> request \<Rightarrow> ('f, 'b, 'm) disp \<Rightarrow> 'w world \<Rightarrow>
   (('f, 'b, 'm) call_state, stop) result \<times> ('f, 'b, 'm) disp \<times> 'w world" where
  "handle_request env req d w =
     (if rq_expect (fst req) then
        (let (task, w) = de_expect_call env req w
         in case de_expect_poll env task w of
              (Ready (Ok req), task, w) \<Rightarrow> call_service env req (send_continue env d) w
            | (Pending, task, w) \<Rightarrow> (Ok (CsExpectCall task), d, w)
            | (Ready (Err (res, body)), task, w) \<Rightarrow> send_response env res (into_body body) d w)
      else call_service env req d w)"

section \<open>Reading\<close>

text \<open>What an iteration of a loop says: go on, or leave the loop with a result.\<close>

datatype 'a control = Again | Leave 'a

definition server_error :: "('f, 'b, 'm) disp \<Rightarrow> ('f, 'b, 'm) disp" where
  "server_error d =
     d\<lparr>di_flags := insert DfReadDisconnect (di_flags d),
       di_messages := di_messages d @ [DmError (response_head_new INTERNAL_SERVER_ERROR)],
       di_error := Some DeInternalError\<rparr>"

text \<open>A request is handled at once when nothing is being handled, else it is queued.\<close>

definition accept_item ::
  "('w, 'f, 'b, 'm) disp_env \<Rightarrow> request \<Rightarrow> ('f, 'b, 'm) disp \<Rightarrow> 'w world \<Rightarrow>
   (unit, stop) result control \<times> ('f, 'b, 'm) disp \<times> 'w world" where
  "accept_item env req d w =
     (if cs_is_empty (di_state d) then
        (case handle_request env req d w of
           (Ok st, d, w) \<Rightarrow> (Again, d\<lparr>di_state := st\<rparr>, w)
         | (Err e, d, w) \<Rightarrow> (Leave (Err e), d, w))
      else (Again, d\<lparr>di_messages := di_messages d @ [DmItem req]\<rparr>, w))"

definition fill_head :: "('w, 'f, 'b, 'm) disp_env \<Rightarrow> request_head \<Rightarrow> request_head" where
  "fill_head env head =
     (let head = head\<lparr>rq_peer_addr := de_peer_addr env\<rparr>
      in case de_on_connect env of
           Some f \<Rightarrow> head\<lparr>rq_extensions := f (rq_extensions head)\<rparr>
         | None \<Rightarrow> head)"

definition on_item ::
  "('w, 'f, 'b, 'm) disp_env \<Rightarrow> request_head \<Rightarrow> ('f, 'b, 'm) disp \<Rightarrow> 'w world \<Rightarrow>
   (unit, stop) result control \<times> ('f, 'b, 'm) disp \<times> 'w world" where
  "on_item env head d w =
     (let pl = codec_message_type (di_codec d); head = fill_head env head
      in if pl = MtStream \<and> de_upgrade env
         then (Leave (Ok ()), d\<lparr>di_messages := di_messages d @ [DmUpgrade (head, PayNone)]\<rparr>, w)
         else if pl = MtPayload \<or> pl = MtStream
         then (let (i, w) = chan_create False w in accept_item env (head, PayH1 i) (d\<lparr>di_payload := Some i\<rparr>) w)
         else accept_item env (head, PayNone) d w)"

definition on_chunk ::
  "bytes option \<Rightarrow> ('f, 'b, 'm) disp \<Rightarrow> 'w world \<Rightarrow> (unit, stop) result control \<times> ('f, 'b, 'm) disp \<times> 'w world" where
  "on_chunk chunk d w =
     (case (chunk, di_payload d) of
        (Some bs, Some i) \<Rightarrow> (Again, d, chan_apply i (sender_feed_data bs) w)
      | (None, Some i) \<Rightarrow> (Again, d\<lparr>di_payload := None\<rparr>, chan_apply i sender_feed_eof w)
      | (_, None) \<Rightarrow> (Leave (Ok ()), server_error d, w))"

definition on_parse_error ::
  "parse_error \<Rightarrow> ('f, 'b, 'm) disp \<Rightarrow> 'w world \<Rightarrow> ('f, 'b, 'm) disp \<times> 'w world" where
  "on_parse_error e d w =
     (case e of
        PeIo ioe \<Rightarrow> (let (d, w) = client_disconnected d w in (d\<lparr>di_error := Some (DeIo ioe)\<rparr>, w))
      | _ \<Rightarrow>
          (let (d, w) = take_payload (sender_set_error PlEncodingCorrupted) d w
           in (d\<lparr>di_messages := di_messages d @ [DmError (response_head_new BAD_REQUEST)],
                 di_flags := insert DfReadDisconnect (di_flags d),
                 di_error := Some (DeParse e)\<rparr>, w)))"

text \<open>One iteration; the flag \<open>updated\<close> is set by every decoded message.\<close>

definition request_step ::
  "('w, 'f, 'b, 'm) disp_env \<Rightarrow> bool \<Rightarrow> ('f, 'b, 'm) disp \<Rightarrow> 'w world \<Rightarrow>
   (unit, stop) result control \<times> bool \<times> ('f, 'b, 'm) disp \<times> 'w world" where
  "request_step env updated d w =
     (case codec_decode (de_lib env) (di_codec d, di_pool d) (di_read_buf d) of
        (r, (c, pool), src) \<Rightarrow>
          (let d = d\<lparr>di_codec := c, di_pool := pool, di_read_buf := src\<rparr>
           in case r of
                Ok (Some msg) \<Rightarrow>
                  (let d = d\<lparr>di_flags := insert DfStarted (di_flags d)\<rparr>;
                       (ctl, d, w) = (case msg of Item head \<Rightarrow> on_item env head d w | Chunk chunk \<Rightarrow> on_chunk chunk d w)
                   in (ctl, True, d, w))
              | Ok None \<Rightarrow> (Leave (Ok ()), updated, d, w)
              | Err (Fails e) \<Rightarrow> (let (d, w) = on_parse_error e d w in (Leave (Ok ()), updated, d, w))
              | Err Panics \<Rightarrow> (Leave (Err Crashed), updated, d, w)))"

partial_function (option) request_loop ::
  "('w, 'f, 'b, 'm) disp_env \<Rightarrow> bool \<Rightarrow> ('f, 'b, 'm) disp \<Rightarrow> 'w world \<Rightarrow>
   ((unit, stop) result \<times> bool \<times> ('f, 'b, 'm) disp \<times> 'w world) option" where
  "request_loop env updated d w =
     (case request_step env updated d w of
        (Again, updated, d, w) \<Rightarrow> request_loop env updated d w
      | (Leave r, updated, d, w) \<Rightarrow> Some (r, updated, d, w))"

definition poll_request ::
  "('w, 'f, 'b, 'm) disp_env \<Rightarrow> ('f, 'b, 'm) disp \<Rightarrow> 'w world \<Rightarrow>
   ((bool, stop) result \<times> ('f, 'b, 'm) disp \<times> 'w world) option" where
  "poll_request env d w =
     (if length (di_messages d) \<ge> MAX_PIPELINED_MESSAGES then Some (Ok False, d, w)
      else
        (let (ok, w) = can_read d w
         in if \<not> ok then Some (Ok False, d, w)
            else
              (case request_loop env False d w of
                 None \<Rightarrow> None
               | Some (Err e, updated, d, w) \<Rightarrow> Some (Err e, d, w)
               | Some (Ok _, updated, d, w) \<Rightarrow>
                   (let d = (if updated \<and> di_ka_timer d \<noteq> None then
                               (case keep_alive_expire (de_config env) (de_now env w) of
                                  Some expire \<Rightarrow> d\<lparr>di_ka_expire := expire\<rparr>
                                | None \<Rightarrow> d)
                             else d)
                    in Some (Ok updated, d, w)))))"

section \<open>Responding\<close>

text \<open>
  One iteration of the loop of \<open>poll_response\<close>. The inner loop that sends a body goes round with
  the state unchanged except for the body, so its iterations are iterations of the outer loop.
\<close>

definition send_payload_step ::
  "('w, 'f, 'b, 'm) disp_env \<Rightarrow> ('b, 'm) response_body \<Rightarrow> ('f, 'b, 'm) disp \<Rightarrow> 'w world \<Rightarrow>
   (poll_answer, stop) result control \<times> ('f, 'b, 'm) disp \<times> 'w world" where
  "send_payload_step env stream d w =
     (if length (ob_data (di_write_buf d)) < HW_BUFFER_SIZE then
        (case rb_poll_next (de_body env) (de_boxed env) stream w of
           (p, stream, w) \<Rightarrow>
             (let d = d\<lparr>di_state := CsSendPayload stream\<rparr>
              in case p of
                   Ready (Some (Ok item)) \<Rightarrow>
                     (case disp_encode env (Chunk (Some item)) d of
                        (Ok _, d) \<Rightarrow> (Again, d, w)
                      | (Err e, d) \<Rightarrow> (Leave (Err e), d, w))
                 | Ready None \<Rightarrow>
                     (case disp_encode env (Chunk None) d of
                        (Ok _, d) \<Rightarrow> (Again, d\<lparr>di_state := CsNone\<rparr>, w)
                      | (Err e, d) \<Rightarrow> (Leave (Err e), d, w))
                 | Ready (Some (Err _)) \<Rightarrow> (Leave (Err (Failed DeUnknown)), d, w)
                 | Pending \<Rightarrow> (Leave (Ok PrDoNothing), d, w)))
      else (Leave (Ok PrDrainWriteBuf), d, w))"

text \<open>The code after the match: \<open>Some\<close> state becomes the state, and without one the loop may go on.\<close>

definition set_new_state ::
  "(('f, 'b, 'm) call_state, stop) result \<times> ('f, 'b, 'm) disp \<times> 'w world \<Rightarrow>
   (poll_answer, stop) result control \<times> ('f, 'b, 'm) disp \<times> 'w world" where
  "set_new_state r =
     (case r of
        (Err e, d, w) \<Rightarrow> (Leave (Err e), d, w)
      | (Ok st, d, w) \<Rightarrow>
          (let d = d\<lparr>di_state := st\<rparr>
           in if \<not> cs_is_empty st then (Again, d, w) else (Leave (Ok PrDoNothing), d, w)))"

definition no_new_state ::
  "('w, 'f, 'b, 'm) disp_env \<Rightarrow> ('f, 'b, 'm) disp \<Rightarrow> 'w world \<Rightarrow>
   ((poll_answer, stop) result control \<times> ('f, 'b, 'm) disp \<times> 'w world) option" where
  "no_new_state env d w =
     (if cs_is_call (di_state d) then
        (case poll_request env d w of
           None \<Rightarrow> None
         | Some (Err e, d, w) \<Rightarrow> Some (Leave (Err e), d, w)
         | Some (Ok True, d, w) \<Rightarrow> Some (Again, d, w)
         | Some (Ok False, d, w) \<Rightarrow> Some (Leave (Ok PrDoNothing), d, w))
      else if di_messages d \<noteq> [] then Some (Again, d, w)
      else Some (Leave (Ok PrDoNothing), d, w))"

definition response_step ::
  "('w, 'f, 'b, 'm) disp_env \<Rightarrow> ('f, 'b, 'm) disp \<Rightarrow> 'w world \<Rightarrow>
   ((poll_answer, stop) result control \<times> ('f, 'b, 'm) disp \<times> 'w world) option" where
  "response_step env d w =
     (case di_state d of
        CsNone \<Rightarrow>
          (case di_messages d of
             DmItem req # ms \<Rightarrow> Some (set_new_state (handle_request env req (d\<lparr>di_messages := ms\<rparr>) w))
           | DmError res # ms \<Rightarrow> Some (set_new_state (send_response env res (RbOther BodyEmpty) (d\<lparr>di_messages := ms\<rparr>) w))
           | DmUpgrade req # ms \<Rightarrow> Some (Leave (Ok (PrUpgrade req)), d\<lparr>di_messages := ms\<rparr>, w)
           | [] \<Rightarrow> no_new_state env d w)
      | CsExpectCall fut \<Rightarrow>
          (case de_expect_poll env fut w of
             (Ready (Ok req), fut, w) \<Rightarrow>
               (let (task, w) = de_service_call env req w
                in Some (Again, (send_continue env d)\<lparr>di_state := CsServiceCall task\<rparr>, w))
           | (Ready (Err (res, body)), fut, w) \<Rightarrow> Some (set_new_state (send_response env res (into_body body) d w))
           | (Pending, fut, w) \<Rightarrow> no_new_state env (d\<lparr>di_state := CsExpectCall fut\<rparr>) w)
      | CsServiceCall fut \<Rightarrow>
          (case de_service_poll env fut w of
             (Ready (Ok (res, body)), fut, w) \<Rightarrow>
               (case send_response env res body d w of
                  (Ok st, d, w) \<Rightarrow> Some (Again, d\<lparr>di_state := st\<rparr>, w)
                | (Err e, d, w) \<Rightarrow> Some (Leave (Err e), d, w))
           | (Ready (Err (res, body)), fut, w) \<Rightarrow> Some (set_new_state (send_response env res (into_body body) d w))
           | (Pending, fut, w) \<Rightarrow> no_new_state env (d\<lparr>di_state := CsServiceCall fut\<rparr>) w)
      | CsSendPayload stream \<Rightarrow> Some (send_payload_step env stream d w))"

partial_function (option) poll_response ::
  "('w, 'f, 'b, 'm) disp_env \<Rightarrow> ('f, 'b, 'm) disp \<Rightarrow> 'w world \<Rightarrow>
   ((poll_answer, stop) result \<times> ('f, 'b, 'm) disp \<times> 'w world) option" where
  "poll_response env d w =
     (case response_step env d w of
        None \<Rightarrow> None
      | Some (Again, d, w) \<Rightarrow> poll_response env d w
      | Some (Leave r, d, w) \<Rightarrow> Some (r, d, w))"

section \<open>The keep-alive timer\<close>

text \<open>\<open>timer.reset(deadline)\<close> moves the deadline; polling it then only registers the task.\<close>

definition timer_elapsed ::
  "('w, 'f, 'b, 'm) disp_env \<Rightarrow> instant \<Rightarrow> ('f, 'b, 'm) disp \<Rightarrow> 'w world \<Rightarrow> (unit, stop) result \<times> ('f, 'b, 'm) disp \<times> 'w world" where
  "timer_elapsed env deadline d w =
     (if DfShutdown \<in> di_flags d then (Err (Failed DeDisconnectTimeout), d, w)
      else if deadline \<ge> di_ka_expire d then
        (if cs_is_empty (di_state d) \<and> ob_data (di_write_buf d) = [] then
           (if DfStarted \<in> di_flags d then
              (let d = d\<lparr>di_flags := insert DfShutdown (di_flags d)\<rparr>
               in case client_disconnect_timer (de_config env) (de_now env w) of
                    Some deadline \<Rightarrow> (Ok (), d\<lparr>di_ka_timer := Some deadline\<rparr>, w)
                  | None \<Rightarrow> (Ok (), d\<lparr>di_flags := insert DfWriteDisconnect (di_flags d)\<rparr>, w))
            else
              (let (r, d, w) = send_response env (response_head_new REQUEST_TIMEOUT) (RbOther BodyEmpty) d w
               in if r = Err Crashed then (Err Crashed, d, w)
                  else (Ok (), d\<lparr>di_flags := di_flags d \<union> {DfStarted, DfShutdown}, di_state := CsNone\<rparr>, w)))
         else
           (case keep_alive_expire (de_config env) (de_now env w) of
              Some deadline \<Rightarrow> (Ok (), d\<lparr>di_ka_timer := Some deadline\<rparr>, w)
            | None \<Rightarrow> (Ok (), d, w)))
      else (Ok (), d\<lparr>di_ka_timer := Some (di_ka_expire d)\<rparr>, w))"

definition poll_timer ::
  "('w, 'f, 'b, 'm) disp_env \<Rightarrow> ('f, 'b, 'm) disp \<Rightarrow> 'w world \<Rightarrow> (unit, stop) result \<times> ('f, 'b, 'm) disp \<times> 'w world" where
  "poll_timer env d w =
     (case di_ka_timer d of
        Some deadline \<Rightarrow> if deadline \<le> de_clock env w then timer_elapsed env deadline d w else (Ok (), d, w)
      | None \<Rightarrow> (Err Crashed, d, w))"

definition poll_keepalive ::
  "('w, 'f, 'b, 'm) disp_env \<Rightarrow> ('f, 'b, 'm) disp \<Rightarrow> 'w world \<Rightarrow> (unit, stop) result \<times> ('f, 'b, 'm) disp \<times> 'w world" where
  "poll_keepalive env d w =
     (if di_ka_timer d = None then
        (if DfShutdown \<in> di_flags d then
           (case client_disconnect_timer (de_config env) (de_now env w) of
              Some interval \<Rightarrow> poll_timer env (d\<lparr>di_ka_timer := Some interval\<rparr>) w
            | None \<Rightarrow>
                (let (d, w) = take_payload (sender_set_error (PlIncomplete None))
                   (d\<lparr>di_flags := insert DfReadDisconnect (di_flags d)\<rparr>) w
                 in (Ok (), d, w)))
         else (Ok (), d, w))
      else poll_timer env d w)"

section \<open>The socket\<close>

partial_function (option) read_available ::
  "('w \<Rightarrow> (bytes, io_error) result poll \<times> 'w) \<Rightarrow> bool \<Rightarrow> bytes \<Rightarrow> 'w \<Rightarrow>
   ((bool option, io_error) result \<times> bytes \<times> 'w) option" where
  "read_available rd read_some buf w =
     (case rd w of
        (Pending, w) \<Rightarrow> Some (Ok (if read_some then Some False else None), buf, w)
      | (Ready (Ok bs), w) \<Rightarrow>
          if bs = [] then Some (Ok (Some True), buf, w) else read_available rd True (buf @ bs) w
      | (Ready (Err (IoError kind msg)), w) \<Rightarrow>
          if kind = WouldBlock then Some (Ok (if read_some then Some False else None), buf, w)
          else if kind = ConnectionReset \<and> read_some then Some (Ok (Some True), buf, w)
          else Some (Err (IoError kind msg), buf, w))"

section \<open>One poll\<close>

text \<open>The loop that responds and flushes until the socket blocks or there is nothing more to send.\<close>

datatype write_end = WeBreak | WeUpgrade request | WeStop stop

definition make_room :: "encode_env \<Rightarrow> out_buf \<Rightarrow> out_buf" where
  "make_room env b =
     (let remaining = length (ob_spare b)
      in if remaining < LW_BUFFER_SIZE then reserve env (HW_BUFFER_SIZE - remaining) b else b)"

partial_function (option) write_loop ::
  "('w, 'f, 'b, 'm) disp_env \<Rightarrow> ('f, 'b, 'm) disp \<Rightarrow> 'w world \<Rightarrow> (write_end \<times> ('f, 'b, 'm) disp \<times> 'w world) option" where
  "write_loop env d w =
     (case poll_response env (d\<lparr>di_write_buf := make_room (de_encode env) (di_write_buf d)\<rparr>) w of
        None \<Rightarrow> None
      | Some (Err e, d, w) \<Rightarrow> Some (WeStop e, d, w)
      | Some (Ok (PrUpgrade req), d, w) \<Rightarrow> Some (WeUpgrade req, d, w)
      | Some (Ok result, d, w) \<Rightarrow>
          (case poll_flush env d w of
             (Err e, d, w) \<Rightarrow> Some (WeStop e, d, w)
           | (Ok blocked, d, w) \<Rightarrow>
               if blocked \<or> \<not> poll_answer_eq result PrDrainWriteBuf then Some (WeBreak, d, w)
               else write_loop env d w))"

definition poll_shut ::
  "('w, 'f, 'b, 'm) disp_env \<Rightarrow> ('f, 'b, 'm) disp \<Rightarrow> 'w world \<Rightarrow>
   (unit, stop) result poll \<times> ('f, 'b, 'm) dispatcher \<times> 'w world" where
  "poll_shut env d w =
     (if DfWriteDisconnect \<in> di_flags d then (Ready (Ok ()), DpNormal d, w)
      else
        (case poll_flush env d w of
           (Err e, d, w) \<Rightarrow> (Ready (Err e), DpNormal d, w)
         | (Ok _, d, w) \<Rightarrow>
             if ob_data (di_write_buf d) \<noteq> [] then (Pending, DpNormal d, w)
             else
               (case de_shutdown env w of
                  (Ready (Ok u), w) \<Rightarrow> (Ready (Ok u), DpNormal d, w)
                | (Ready (Err e), w) \<Rightarrow> (Ready (Err (Failed (DeIo e))), DpNormal d, w)
                | (Pending, w) \<Rightarrow> (Pending, DpNormal d, w))))"

text \<open>
  Reading: the socket is drained into the buffer, the buffer is decoded, and an end of the
  stream is noted.
\<close>

definition poll_read ::
  "('w, 'f, 'b, 'm) disp_env \<Rightarrow> ('f, 'b, 'm) disp \<Rightarrow> 'w world \<Rightarrow>
   ((unit, stop) result \<times> ('f, 'b, 'm) disp \<times> 'w world) option" where
  "poll_read env d w =
     (case (if DfReadDisconnect \<notin> di_flags d then read_available (de_read env) False (di_read_buf d) w
            else Some (Ok None, di_read_buf d, w)) of
        None \<Rightarrow> None
      | Some (Err e, buf, w) \<Rightarrow> Some (Err (Failed (DeIo e)), d\<lparr>di_read_buf := buf\<rparr>, w)
      | Some (Ok should_disconnect, buf, w) \<Rightarrow>
          (case poll_request env (d\<lparr>di_read_buf := buf\<rparr>) w of
             None \<Rightarrow> None
           | Some (Err e, d, w) \<Rightarrow> Some (Err e, d, w)
           | Some (Ok _, d, w) \<Rightarrow>
               if should_disconnect = Some True
               then (let (d, w) = take_payload sender_feed_eof (d\<lparr>di_flags := insert DfReadDisconnect (di_flags d)\<rparr>) w
                     in Some (Ok (), d, w))
               else Some (Ok (), d, w)))"

text \<open>After the loop: what the connection does next. \<open>Again\<close> polls once more.\<close>

definition poll_decide ::
  "('f, 'b, 'm) disp \<Rightarrow> (unit, stop) result poll control \<times> ('f, 'b, 'm) disp" where
  "poll_decide d =
     (if DfWriteDisconnect \<in> di_flags d then (Leave (Ready (Ok ())), d)
      else
        (let is_empty = cs_is_empty (di_state d);
             d = (if DfReadDisconnect \<in> di_flags d \<and> is_empty then d\<lparr>di_flags := insert DfShutdown (di_flags d)\<rparr> else d)
         in if is_empty \<and> ob_data (di_write_buf d) = [] then
              (case di_error d of
                 Some err \<Rightarrow> (Leave (Ready (Err (Failed err))), d\<lparr>di_error := None\<rparr>)
               | None \<Rightarrow>
                   if DfStarted \<in> di_flags d \<and> DfKeepAlive \<notin> di_flags d
                   then (Again, d\<lparr>di_flags := insert DfShutdown (di_flags d)\<rparr>)
                   else if DfShutdown \<in> di_flags d then (Again, d)
                   else (Leave Pending, d))
            else (Leave Pending, d)))"

partial_function (option) disp_poll ::
  "('w, 'f, 'b, 'm) disp_env \<Rightarrow> ('f, 'b, 'm) dispatcher \<Rightarrow> 'w world \<Rightarrow>
   ((unit, stop) result poll \<times> ('f, 'b, 'm) dispatcher \<times> 'w world) option" where
  "disp_poll env dp w =
     (case dp of
        DpNormal d \<Rightarrow>
          (case poll_keepalive env d w of
             (Err e, d, w) \<Rightarrow> Some (Ready (Err e), DpNormal d, w)
           | (Ok _, d, w) \<Rightarrow>
               if DfShutdown \<in> di_flags d then Some (poll_shut env d w)
               else
                 (case poll_read env d w of
                    None \<Rightarrow> None
                  | Some (Err e, d, w) \<Rightarrow> Some (Ready (Err e), DpNormal d, w)
                  | Some (Ok _, d, w) \<Rightarrow>
                      (case write_loop env d w of
                         None \<Rightarrow> None
                       | Some (WeStop e, d, w) \<Rightarrow> Some (Ready (Err e), DpNormal d, w)
                       | Some (WeUpgrade req, d, w) \<Rightarrow>
                           if de_upgrade env then
                             (let (fut, w) = de_upgrade_call env req (di_codec d) (di_read_buf d) (di_write_buf d) w
                              in disp_poll env (DpUpgrade fut) w)
                           else Some (Ready (Err Crashed), DpNone, w)
                       | Some (WeBreak, d, w) \<Rightarrow>
                           (case poll_decide d of
                              (Leave p, d) \<Rightarrow> Some (p, DpNormal d, w)
                            | (Again, d) \<Rightarrow> disp_poll env (DpNormal d) w))))
      | DpUpgrade fut \<Rightarrow>
          (case de_upgrade_poll env fut w of
             (Ready (Ok u), fut, w) \<Rightarrow> Some (Ready (Ok u), DpUpgrade fut, w)
           | (Ready (Err e), fut, w) \<Rightarrow> Some (Ready (Err (Failed DeUpgrade)), DpUpgrade fut, w)
           | (Pending, fut, w) \<Rightarrow> Some (Pending, DpUpgrade fut, w))
      | DpNone \<Rightarrow> Some (Ready (Err Crashed), DpNone, w))"

end
