(* ===== verification/Socket_Interface.thy ===== *)
theory Socket_Interface
  imports Rust_Prelude
begin

text \<open>
  The contract of a byte stream (\<open>AsyncRead\<close> and \<open>AsyncWrite\<close> as the connection uses them). \<open>rd\<close>
  returns some of the bytes that have arrived (none at the end of the stream), \<open>wr\<close>
  accepts some prefix of what it is given. \<open>incoming\<close> is what has arrived and was not read,
  \<open>sent\<close> all that was accepted.
\<close>

locale socket =
  fixes rd :: "'w \<Rightarrow> (bytes, io_error) result poll \<times> 'w"
    and wr :: "bytes \<Rightarrow> 'w \<Rightarrow> (nat, io_error) result poll \<times> 'w"
    and incoming :: "'w \<Rightarrow> bytes"
    and sent :: "'w \<Rightarrow> bytes"
  assumes reads: "rd w = (Ready (Ok bs), w') \<Longrightarrow> incoming w = bs @ incoming w' \<and> sent w' = sent w"
    and reads_not: "rd w = (p, w') \<Longrightarrow> (\<forall>bs. p \<noteq> Ready (Ok bs)) \<Longrightarrow> incoming w' = incoming w \<and> sent w' = sent w"
    and writes: "wr bs w = (Ready (Ok n), w') \<Longrightarrow> n \<le> length bs \<and> sent w' = sent w @ take n bs \<and> incoming w' = incoming w"
    and writes_not: "wr bs w = (q, w') \<Longrightarrow> (\<forall>n. q \<noteq> Ready (Ok n)) \<Longrightarrow> sent w' = sent w \<and> incoming w' = incoming w"

end
