(* ===== verification/Test_Buffer.thy ===== *)
theory Test_Buffer
  imports Socket_Interface
begin

text \<open>
  The in-memory stream of the repository's tests (\<open>TestBuffer\<close> in \<open>test.rs\<close>). The buffer that a
  reader offers has room for \<open>room\<close> bytes.
\<close>

record test_buffer =
  tb_read_buf :: bytes
  tb_write_buf :: bytes
  tb_err :: "io_error option"

definition test_buffer_new :: "bytes \<Rightarrow> test_buffer" where
  "test_buffer_new data = \<lparr>tb_read_buf = data, tb_write_buf = [], tb_err = None\<rparr>"

definition test_buffer_empty :: test_buffer where
  "test_buffer_empty = test_buffer_new []"

definition extend_read_buf :: "bytes \<Rightarrow> test_buffer \<Rightarrow> test_buffer" where
  "extend_read_buf data tb = tb\<lparr>tb_read_buf := tb_read_buf tb @ data\<rparr>"

definition tb_read :: "nat \<Rightarrow> test_buffer \<Rightarrow> (bytes, io_error) result \<times> test_buffer" where
  "tb_read room tb =
     (if tb_read_buf tb = [] then
        (case tb_err tb of
           Some e \<Rightarrow> (Err e, tb\<lparr>tb_err := None\<rparr>)
         | None \<Rightarrow> (Err (IoError WouldBlock ''''), tb))
      else
        (let n = min (length (tb_read_buf tb)) room
         in (Ok (take n (tb_read_buf tb)), tb\<lparr>tb_read_buf := drop n (tb_read_buf tb)\<rparr>)))"

definition tb_write :: "bytes \<Rightarrow> test_buffer \<Rightarrow> (nat, io_error) result \<times> test_buffer" where
  "tb_write buf tb = (Ok (length buf), tb\<lparr>tb_write_buf := tb_write_buf tb @ buf\<rparr>)"

definition tb_poll_read :: "nat \<Rightarrow> test_buffer \<Rightarrow> (bytes, io_error) result poll \<times> test_buffer" where
  "tb_poll_read room tb = (let (r, tb) = tb_read room tb in (Ready r, tb))"

definition tb_poll_write :: "bytes \<Rightarrow> test_buffer \<Rightarrow> (nat, io_error) result poll \<times> test_buffer" where
  "tb_poll_write buf tb = (let (r, tb) = tb_write buf tb in (Ready r, tb))"

definition tb_poll_shutdown :: "test_buffer \<Rightarrow> (unit, io_error) result poll \<times> test_buffer" where
  "tb_poll_shutdown tb = (Ready (Ok ()), tb)"

interpretation test_buffer: socket "tb_poll_read room" tb_poll_write tb_read_buf tb_write_buf for room
  by unfold_locales
     (auto simp: tb_poll_read_def tb_read_def tb_poll_write_def tb_write_def Let_def split: if_splits option.splits)

end
