(* ===== verification/H1_Connection.thy ===== *)
theory H1_Connection
  imports H1_Dispatcher Test_Buffer
begin

text \<open>
  Properties of the HTTP/1 connection: no byte is lost between buffer and socket, decoding the
  receive buffer ends, and a connection without an upgrade handler always has a receiver for
  the body pieces it decodes. The loops of the dispatcher are partial functions; each has a rule
  that carries an invariant of its iterations to its result.
\<close>

section \<open>Socket and buffers\<close>
context socket
begin

lemma flush_loop_sent:
  "flush_loop wr buf written w = (r, w') \<Longrightarrow> written \<le> length buf \<Longrightarrow> sent w = pre @ take written buf \<Longrightarrow>
     (case r of
        FlAll n \<Rightarrow> n = length buf \<and> sent w' = pre @ buf
      | FlPending n \<Rightarrow> n \<le> length buf \<and> sent w' = pre @ take n buf
      | FlFailed e \<Rightarrow> \<exists>n. sent w' = pre @ take n buf) \<and> incoming w' = incoming w"
proof (induction "length buf - written" arbitrary: written w rule: less_induct)
  case less
  show ?case
  proof (cases "written < length buf")
    case False
    with less.prems show ?thesis by (auto simp: flush_loop.simps [of _ buf written w])
  next
    case True
    obtain q w1 where q: "wr (drop written buf) w = (q, w1)" by (cases "wr (drop written buf) w")
    show ?thesis
    proof (cases "\<exists>n. q = Ready (Ok n)")
      case False
      with writes_not [OF q] less.prems True q show ?thesis
        by (auto simp: flush_loop.simps [of _ buf written w] split: poll.splits result.splits)
    next
      case ok: True
      then obtain n where n: "q = Ready (Ok n)" by blast
      from writes [OF q [unfolded n]] less.prems
      have w1: "n \<le> length buf - written" "sent w1 = pre @ take (written + n) buf" "incoming w1 = incoming w"
        by (auto simp: take_add)
      show ?thesis
      proof (cases "n = 0")
        case True
        with less.prems q n w1 \<open>written < length buf\<close> show ?thesis
          by (auto simp: flush_loop.simps [of _ buf written w])
      next
        case pos: False
        with less.prems(1) q n True have "flush_loop wr buf (written + n) w1 = (r, w')"
          by (simp add: flush_loop.simps [of _ buf written w])
        from less.hyps [OF _ this] pos True w1 show ?thesis by simp
      qed
    qed
  qed
qed

lemma read_available_total: "read_available rd some buf w \<noteq> None"
proof (induction "length (incoming w)" arbitrary: some buf w rule: less_induct)
  case less
  obtain q w1 where q: "rd w = (q, w1)" by (cases "rd w")
  show ?case
  proof (cases "\<exists>b bs. q = Ready (Ok (b # bs))")
    case True
    then obtain b bs where b: "q = Ready (Ok (b # bs))" by blast
    from less.hyps [of w1 True "buf @ b # bs"] reads [OF q [unfolded b]] q b show ?thesis
      by (simp add: read_available.simps [of _ _ buf w])
  next
    case False
    then show ?thesis using q
      by (auto simp: read_available.simps [of _ _ buf w] split: poll.split result.split io_error.split) (metis list.exhaust)
  qed
qed

lemma read_available_reads:
  "read_available rd some buf w = Some (r, buf', w') \<Longrightarrow> buf' @ incoming w' = buf @ incoming w \<and> sent w' = sent w"
proof (induction "length (incoming w)" arbitrary: some buf w rule: less_induct)
  case less
  obtain q w1 where q: "rd w = (q, w1)" by (cases "rd w")
  show ?case
  proof (cases "\<exists>b bs. q = Ready (Ok (b # bs))")
    case True
    then obtain b bs where b: "q = Ready (Ok (b # bs))" by blast
    from less.hyps [of w1 True "buf @ b # bs"] reads [OF q [unfolded b]] less.prems q b show ?thesis
      by (simp add: read_available.simps [of _ _ buf w])
  next
    case False
    note un = read_available.simps [of rd some buf w]
    show ?thesis
    proof (cases "q = Ready (Ok [])")
      case True
      with reads [OF q [unfolded True]] less.prems q show ?thesis by (simp add: un)
    next
      case False
      with \<open>\<nexists>b bs. q = Ready (Ok (b # bs))\<close> have "\<forall>bs. q \<noteq> Ready (Ok bs)" by (metis neq_Nil_conv)
      from reads_not [OF q this] this less.prems q show ?thesis
        by (cases q; cases "case q of Ready r \<Rightarrow> r"; auto simp: un split: result.splits io_error.splits if_splits)
    qed
  qed
qed
end

section \<open>What handling a request leaves alone\<close>

definition same_input :: "('f, 'b, 'm) disp \<Rightarrow> ('f, 'b, 'm) disp \<Rightarrow> bool" where
  "same_input d d' \<longleftrightarrow>
     di_read_buf d' = di_read_buf d \<and> hc_payload (di_codec d') = hc_payload (di_codec d) \<and>
     hc_stream (di_codec d') = hc_stream (di_codec d) \<and> di_pool d' = di_pool d \<and>
     di_messages d' = di_messages d \<and> di_error d' = di_error d \<and> di_state d' = di_state d \<and>
     di_ka_timer d' = di_ka_timer d \<and> di_ka_expire d' = di_ka_expire d \<and>
     di_flags d' - {DfKeepAlive} = di_flags d - {DfKeepAlive}"

lemma same_input_refl [simp]: "same_input d d"
  by (simp add: same_input_def)

lemma same_input_trans: "same_input d d' \<Longrightarrow> same_input d' d'' \<Longrightarrow> same_input d d''"
  by (simp add: same_input_def)

lemma same_input_flag: "same_input d d' \<Longrightarrow> f \<noteq> DfKeepAlive \<Longrightarrow> f \<in> di_flags d' \<longleftrightarrow> f \<in> di_flags d"
  by (auto simp: same_input_def)

lemma codec_encode_same:
  "codec_encode env lib msg c dst = Some (r, c', dst') \<Longrightarrow> hc_payload c' = hc_payload c \<and> hc_stream c' = hc_stream c"
  by (cases "(env, lib, msg, c, dst)" rule: codec_encode.cases)
     (auto simp: Let_def split: prod.splits Option.bind_splits)

lemma disp_encode_same:
  "disp_encode env msg d = (r, d') \<Longrightarrow> same_input d d' \<and> di_payload d' = di_payload d \<and> di_flags d' = di_flags d"
  by (auto simp: disp_encode_def same_input_def split: option.splits prod.splits result.splits dest: codec_encode_same)

lemma take_payload_same:
  "take_payload f d w = (d', w') \<Longrightarrow> same_input d d' \<and> di_flags d' = di_flags d \<and> di_write_buf d' = di_write_buf d"
  by (auto simp: take_payload_def same_input_def split: option.splits)

lemma send_response_same:
  "send_response env res body d w = (r, d', w') \<Longrightarrow> same_input d d' \<and> (\<forall>st. r = Ok st \<longrightarrow> di_payload d' = di_payload d)"
proof -
  assume s: "send_response env res body d w = (r, d', w')"
  obtain r1 d1 where e: "disp_encode env (Item (res, env_body_size env body)) d = (r1, d1)"
    by (cases "disp_encode env (Item (res, env_body_size env body)) d")
  have keep: "same_input d1 (d1\<lparr>di_flags := insert DfKeepAlive (di_flags d1)\<rparr>)"
    "same_input d1 (d1\<lparr>di_flags := di_flags d1 - {DfKeepAlive}\<rparr>)"
    by (auto simp: same_input_def)
  note d1 = disp_encode_same [OF e]
  show ?thesis
  proof (cases r1)
    case (Err x)
    with s e obtain d2 w2 where "take_payload (sender_set_error (PlIncomplete None)) d1 w = (d2, w2)" "r = Err x" "d' = d2"
      by (auto simp: send_response_def split: prod.splits)
    with take_payload_same [OF this(1)] d1 show ?thesis by (auto intro: same_input_trans)
  next
    case (Ok u)
    with s e d1 keep show ?thesis
      by (auto simp: send_response_def Let_def split: body_size.splits if_splits intro: same_input_trans)
  qed
qed

lemma call_service_same:
  "call_service env req d w = (r, d', w') \<Longrightarrow> same_input d d' \<and> (\<forall>st. r = Ok st \<longrightarrow> di_payload d' = di_payload d)"
  by (auto simp: call_service_def split: prod.splits poll.splits result.splits dest: send_response_same)

lemma send_continue_same: "same_input d (send_continue env d) \<and> di_payload (send_continue env d) = di_payload d"
  by (simp add: send_continue_def same_input_def)

lemma handle_request_same:
  assumes "handle_request env req d w = (r, d', w')"
  shows "same_input d d' \<and> (\<forall>st. r = Ok st \<longrightarrow> di_payload d' = di_payload d)"
proof (cases "rq_expect (fst req)")
  case False
  with assms show ?thesis by (simp add: handle_request_def call_service_same)
next
  case True
  obtain task w1 where 1: "de_expect_call env req w = (task, w1)" by (cases "de_expect_call env req w")
  obtain p task' w2 where 2: "de_expect_poll env task w1 = (p, task', w2)" by (cases "de_expect_poll env task w1")
  note un = handle_request_def [of env req d w]
  from 1 2 True assms consider "d' = d"
    | req' where "call_service env req' (send_continue env d) w2 = (r, d', w')"
    | res body where "send_response env res body d w2 = (r, d', w')"
    by (auto simp: un split: poll.splits result.splits prod.splits)
  then show ?thesis
  proof cases
    case 2
    with call_service_same [OF 2] send_continue_same [of d env] show ?thesis by (auto intro: same_input_trans)
  next
    case 3
    then show ?thesis by (rule send_response_same)
  qed (use assms True 1 2 in \<open>auto simp: un split: poll.splits\<close>)
qed


section \<open>Decoding ends\<close>

definition input_rank :: "h1_codec \<Rightarrow> bytes \<Rightarrow> nat" where
  "input_rank c src = 3 * length src + (case hc_payload c of None \<Rightarrow> 0 | Some pl \<Rightarrow> 1 + pd_rank pl)"

text \<open>The parser's promise that a complete head is not empty.\<close>

definition heads_nonempty :: "http_lib \<Rightarrow> bool" where
  "heads_nonempty lib \<longleftrightarrow> (\<forall>src len req. hl_parse_request lib src = Ok (Complete len req) \<longrightarrow> 0 < len)"

lemma pd_rank_le: "pd_rank pl \<le> 1"
  by (simp add: pd_rank_def split: payload_kind.split)

lemma input_rank_le: "input_rank c src \<le> 3 * length src + 2"
  using pd_rank_le by (auto simp: input_rank_def split: option.split)

lemma request_finish_shorter:
  "request_finish lib m u v len hs pool src = (Ok (Some x), pool', src') \<Longrightarrow> 0 < len \<Longrightarrow> length src' < length src"
  by (auto simp: request_finish_def Let_def split: prod.splits if_splits result.splits)

lemma request_decode_shorter:
  assumes "heads_nonempty lib" and "request_decode lib pool src = (Ok (Some x), pool', src')"
  shows "length src' < length src"
  using assms by (auto simp: request_decode_def heads_nonempty_def split: result.splits parse_status.splits option.splits
      dest!: request_finish_shorter)

lemma codec_on_request_payload:
  "hc_payload (codec_on_request req pt c) = (case pt of PtNone \<Rightarrow> None | PtPayload pl \<Rightarrow> Some pl | PtStream pl \<Rightarrow> Some pl)"
  by (simp add: codec_on_request_def Let_def split: payload_type.split)

lemma codec_decode_rank:
  assumes "heads_nonempty lib" and "codec_decode lib (c, pool) src = (Ok (Some msg), (c', pool'), src')"
  shows "input_rank c' src' < input_rank c src"
proof (cases "hc_payload c")
  case None
  with assms(2) obtain req pt where r: "request_decode lib pool src = (Ok (Some (req, pt)), pool', src')"
    and "c' = codec_on_request req pt c"
    by (auto simp: codec_decode_def split: prod.splits result.splits option.splits)
  with request_decode_shorter [OF assms(1) r] None input_rank_le [of c' src'] show ?thesis
    by (simp add: input_rank_def)
next
  case (Some pl)
  with assms(2) obtain item pl' where p: "payload_decode pl src = (Ok (Some item), pl', src')"
    and c': "c' = c\<lparr>hc_payload := (case item of ItemChunk _ \<Rightarrow> Some pl' | ItemEof \<Rightarrow> None)\<rparr>"
    by (auto simp: codec_decode_def split: prod.splits result.splits option.splits payload_item.splits)
  have len: "length src' \<le> length src" using payload_decode_suffix [OF p] by (rule suffix_length_le)
  show ?thesis
  proof (cases item)
    case (ItemChunk b)
    with payload_decode_measure [of pl src b pl' src'] p len Some c' show ?thesis
      by (simp add: input_rank_def)
  next
    case ItemEof
    with len Some c' show ?thesis by (simp add: input_rank_def)
  qed
qed

lemma accept_item_same:
  assumes "accept_item env req d w = (Again, d', w')"
  shows "hc_payload (di_codec d') = hc_payload (di_codec d) \<and> di_read_buf d' = di_read_buf d"
proof -
  obtain r d1 w1 where h: "handle_request env req d w = (r, d1, w1)" by (metis prod.collapse)
  have "hc_payload (di_codec d1) = hc_payload (di_codec d) \<and> di_read_buf d1 = di_read_buf d"
    using handle_request_same [OF h] by (simp add: same_input_def)
  with assms h show ?thesis by (cases "cs_is_empty (di_state d)"; cases r) (auto simp: accept_item_def)
qed

lemma on_item_same:
  "on_item env head d w = (Again, d', w') \<Longrightarrow>
     hc_payload (di_codec d') = hc_payload (di_codec d) \<and> di_read_buf d' = di_read_buf d"
  using accept_item_same [of env _ _ _ d' w']
  by (fastforce simp: on_item_def Let_def chan_create_def split: if_splits)

lemma on_chunk_same:
  "on_chunk chunk d w = (ctl, d', w') \<Longrightarrow> hc_payload (di_codec d') = hc_payload (di_codec d) \<and> di_read_buf d' = di_read_buf d"
  by (auto simp: on_chunk_def server_error_def split: option.splits)

lemma request_step_rank:
  assumes "heads_nonempty (de_lib env)" and "request_step env u d w = (Again, u', d', w')"
  shows "input_rank (di_codec d') (di_read_buf d') < input_rank (di_codec d) (di_read_buf d)"
proof -
  obtain r c pool src where dec: "codec_decode (de_lib env) (di_codec d, di_pool d) (di_read_buf d) = (r, (c, pool), src)"
    by (metis prod.collapse)
  let ?d = "d\<lparr>di_codec := c, di_pool := pool, di_read_buf := src\<rparr>"
  from assms(2) dec obtain msg where r: "r = Ok (Some msg)"
    and step: "(case msg of Item head \<Rightarrow> on_item env head (?d\<lparr>di_flags := insert DfStarted (di_flags d)\<rparr>) w
      | Chunk chunk \<Rightarrow> on_chunk chunk (?d\<lparr>di_flags := insert DfStarted (di_flags d)\<rparr>) w) = (Again, d', w')"
    by (auto simp: request_step_def Let_def split: result.splits option.splits failure.splits prod.splits)
  from step have "hc_payload (di_codec d') = hc_payload c \<and> di_read_buf d' = src"
    by (cases msg) (auto dest!: on_item_same on_chunk_same)
  then have "input_rank (di_codec d') (di_read_buf d') = input_rank c src" by (simp add: input_rank_def)
  with codec_decode_rank [OF assms(1) dec [unfolded r]] show ?thesis by simp
qed

lemma request_loop_returns:
  assumes "heads_nonempty (de_lib env)"
  shows "request_loop env u d w \<noteq> None"
proof (induction "input_rank (di_codec d) (di_read_buf d)" arbitrary: u d w rule: less_induct)
  case less
  obtain ctl u' d' w' where s: "request_step env u d w = (ctl, u', d', w')" by (metis prod.collapse)
  show ?case
  proof (cases ctl)
    case Again
    with less.hyps [OF request_step_rank [OF assms s [unfolded Again]]] s show ?thesis
      by (simp add: request_loop.simps [of env u d w])
  qed (use s in \<open>simp add: request_loop.simps [of env u d w]\<close>)
qed

section \<open>Body pieces always have a receiver\<close>

definition body_tracked :: "('f, 'b, 'm) disp \<Rightarrow> bool" where
  "body_tracked d \<longleftrightarrow>
     (hc_payload (di_codec d) \<noteq> None \<longrightarrow> di_payload d \<noteq> None \<or> DfReadDisconnect \<in> di_flags d) \<and>
     di_error d \<noteq> Some DeInternalError"

lemma body_tracked_same:
  "same_input d d' \<Longrightarrow> di_payload d' = di_payload d \<Longrightarrow> body_tracked d' = body_tracked d"
  using same_input_flag [of d d' DfReadDisconnect] by (simp add: body_tracked_def same_input_def)

text \<open>Fields that the invariant does not read.\<close>

lemma body_tracked_fields [simp]:
  "body_tracked (d\<lparr>di_state := st\<rparr>) = body_tracked d"
  "body_tracked (d\<lparr>di_messages := ms\<rparr>) = body_tracked d"
  "body_tracked (d\<lparr>di_write_buf := b\<rparr>) = body_tracked d"
  "body_tracked (d\<lparr>di_read_buf := s\<rparr>) = body_tracked d"
  "body_tracked (d\<lparr>di_ka_timer := t\<rparr>) = body_tracked d"
  "body_tracked (d\<lparr>di_ka_expire := x\<rparr>) = body_tracked d"
  by (simp_all add: body_tracked_def)

lemma body_tracked_error [simp]: "body_tracked d \<Longrightarrow> body_tracked (d\<lparr>di_error := None\<rparr>)"
  by (simp add: body_tracked_def)

lemma body_tracked_insert [simp]: "body_tracked d \<Longrightarrow> body_tracked (d\<lparr>di_flags := insert f (di_flags d)\<rparr>)"
  by (auto simp: body_tracked_def)

lemma body_tracked_take:
  "body_tracked d \<Longrightarrow> take_payload f (d\<lparr>di_flags := insert DfReadDisconnect (di_flags d)\<rparr>) w = (d', w') \<Longrightarrow> body_tracked d'"
  by (auto simp: take_payload_def body_tracked_def split: option.splits)

text \<open>Encoding a head either succeeds or leaves the buffer's memory.\<close>

lemma send_response_Err: "send_response env res body d w = (Err e, d', w') \<Longrightarrow> e = Crashed"
  by (auto simp: send_response_def disp_encode_def Let_def split: option.splits prod.splits result.splits body_size.splits
      Option.bind_splits)

lemma send_response_tracked:
  "send_response env res body d w = (Ok st, d', w') \<Longrightarrow> body_tracked d \<Longrightarrow> body_tracked d'"
  using send_response_same [of env res body d w] body_tracked_same by blast

lemma handle_request_tracked:
  "handle_request env req d w = (Ok st, d', w') \<Longrightarrow> body_tracked d \<Longrightarrow> body_tracked d'"
  using handle_request_same [of env req d w] body_tracked_same by blast

lemma send_continue_tracked [simp]: "body_tracked (send_continue env d) = body_tracked d"
  using send_continue_same [of d env] body_tracked_same by blast

lemma disp_encode_tracked: "disp_encode env msg d = (r, d') \<Longrightarrow> body_tracked d' = body_tracked d"
  using disp_encode_same [of env msg d] body_tracked_same by blast

lemma on_parse_error_tracked: "on_parse_error e d w = (d', w') \<Longrightarrow> body_tracked d'"
  by (auto simp: on_parse_error_def client_disconnected_def take_payload_def body_tracked_def Let_def
      split: parse_error.splits option.splits prod.splits)

text \<open>What one decoded message does while the connection is readable.\<close>

lemma accept_item_tracked:
  assumes "body_tracked d" and "DfReadDisconnect \<notin> di_flags d" and "accept_item env req d w = (ctl, d', w')"
  shows "ctl = Again \<and> body_tracked d' \<and> DfReadDisconnect \<notin> di_flags d' \<or> (\<exists>e. ctl = Leave (Err e))"
proof -
  obtain r d2 w2 where h: "handle_request env req d w = (r, d2, w2)" by (metis prod.collapse)
  have "DfReadDisconnect \<notin> di_flags d2"
    using handle_request_same [OF h] assms(2) same_input_flag [of d d2 DfReadDisconnect] by simp
  with assms h handle_request_tracked [of env req d w _ d2 w2] show ?thesis
    by (cases r) (auto simp: accept_item_def split: if_splits)
qed

lemma on_item_tracked:
  assumes "\<not> de_upgrade env" and "DfReadDisconnect \<notin> di_flags d" and "di_error d \<noteq> Some DeInternalError"
    and "on_item env head d w = (ctl, d', w')"
  shows "ctl = Again \<and> body_tracked d' \<and> DfReadDisconnect \<notin> di_flags d' \<or> (\<exists>e. ctl = Leave (Err e))"
proof -
  have "\<exists>req d1 w1. accept_item env req d1 w1 = (ctl, d', w') \<and> body_tracked d1 \<and> DfReadDisconnect \<notin> di_flags d1"
  proof (cases "codec_message_type (di_codec d) = MtNone")
    case True
    then have "hc_payload (di_codec d) = None" by (simp add: codec_message_type_def split: if_splits)
    with True assms show ?thesis
      by (intro exI [of _ "(fill_head env head, PayNone)"] exI [of _ d] exI [of _ w])
         (simp add: on_item_def Let_def body_tracked_def)
  next
    case False
    then have "codec_message_type (di_codec d) = MtPayload \<or> codec_message_type (di_codec d) = MtStream"
      by (cases "codec_message_type (di_codec d)") auto
    with assms show ?thesis
      by (intro exI [of _ "(fill_head env head, PayH1 (length (wo_channels w)))"] exI [of _ "d\<lparr>di_payload := Some (length (wo_channels w))\<rparr>"])
         (auto simp: on_item_def Let_def body_tracked_def chan_create_def)
  qed
  then show ?thesis using accept_item_tracked by blast
qed

lemma codec_decode_chunk: "codec_decode lib (c, pool) src = (Ok (Some (Chunk b)), st', src') \<Longrightarrow> hc_payload c \<noteq> None"
  by (auto simp: codec_decode_def split: option.splits prod.splits result.splits)

lemma codec_decode_wait:
  "codec_decode lib (c, pool) src = (Ok None, (c', pool'), src') \<Longrightarrow> (hc_payload c' = None) = (hc_payload c = None)"
  by (auto simp: codec_decode_def split: option.splits prod.splits result.splits payload_item.splits)

lemma request_step_tracked:
  assumes "\<not> de_upgrade env" and "body_tracked d" and "DfReadDisconnect \<notin> di_flags d"
    and "request_step env u d w = (ctl, u', d', w')"
  shows "(ctl = Again \<longrightarrow> body_tracked d' \<and> DfReadDisconnect \<notin> di_flags d') \<and> (ctl = Leave (Ok ()) \<longrightarrow> body_tracked d')"
proof -
  obtain r c pool src where dec: "codec_decode (de_lib env) (di_codec d, di_pool d) (di_read_buf d) = (r, (c, pool), src)"
    by (metis prod.collapse)
  let ?d = "d\<lparr>di_codec := c, di_pool := pool, di_read_buf := src\<rparr>"
  let ?s = "?d\<lparr>di_flags := insert DfStarted (di_flags d)\<rparr>"
  note un = request_step_def [of env u d w]
  consider (item) head where "r = Ok (Some (Item head))" | (chunk) chunk where "r = Ok (Some (Chunk chunk))"
    | (wait) "r = Ok None" | (fail) e where "r = Err (Fails e)" | (panic) "r = Err Panics"
    by (metis failure.exhaust message.exhaust not_Some_eq result.exhaust)
  then show ?thesis
  proof cases
    case item
    obtain ctl1 d1 w1 where o: "on_item env head ?s w = (ctl1, d1, w1)" by (metis prod.collapse)
    from on_item_tracked [OF assms(1) _ _ o] assms(2,3) have
      "ctl1 = Again \<and> body_tracked d1 \<and> DfReadDisconnect \<notin> di_flags d1 \<or> (\<exists>e. ctl1 = Leave (Err e))"
      by (simp add: body_tracked_def)
    with assms(4) dec item o show ?thesis by (auto simp: un)
  next
    case chunk
    with codec_decode_chunk dec assms(2,3) obtain i where "di_payload d = Some i"
      by (fastforce simp: body_tracked_def)
    with assms dec chunk show ?thesis
      by (cases chunk) (auto simp: un on_chunk_def body_tracked_def codec_decode_def
          split: option.splits prod.splits result.splits payload_item.splits)
  next
    case wait
    with codec_decode_wait dec assms show ?thesis by (fastforce simp: un body_tracked_def)
  next
    case fail
    obtain d1 w1 where "on_parse_error e ?d w = (d1, w1)" by (metis prod.collapse)
    with assms(4) dec fail on_parse_error_tracked [OF this] show ?thesis by (auto simp: un)
  next
    case panic
    with assms(4) dec show ?thesis by (auto simp: un)
  qed
qed

section \<open>Rules for the loops\<close>

text \<open>An invariant of the iterations and what the last one establishes.\<close>

lemma request_loop_rule:
  assumes "request_loop env u d w = Some (r, u', d', w')" and "I u d w"
    and again: "\<And>u d w u' d' w'. I u d w \<Longrightarrow> request_step env u d w = (Again, u', d', w') \<Longrightarrow> I u' d' w'"
    and leave: "\<And>u d w r u' d' w'. I u d w \<Longrightarrow> request_step env u d w = (Leave r, u', d', w') \<Longrightarrow> Q r u' d' w'"
  shows "Q r u' d' w'"
proof -
  have "env = env \<longrightarrow> I u d w \<longrightarrow> (case (r, u', d', w') of (r, u', d', w') \<Rightarrow> Q r u' d' w')"
    by (rule request_loop.raw_induct [OF _ assms(1), where P = "\<lambda>e u d w y. e = env \<longrightarrow> I u d w \<longrightarrow> (case y of (r, u', d', w') \<Rightarrow> Q r u' d' w')"])
       (auto split: prod.splits control.splits dest: again leave)
  with assms(2) show ?thesis by simp
qed

lemma poll_response_rule:
  assumes "poll_response env d w = Some (r, d', w')" and "I d w"
    and again: "\<And>d w d' w'. I d w \<Longrightarrow> response_step env d w = Some (Again, d', w') \<Longrightarrow> I d' w'"
    and leave: "\<And>d w r d' w'. I d w \<Longrightarrow> response_step env d w = Some (Leave r, d', w') \<Longrightarrow> Q r d' w'"
  shows "Q r d' w'"
proof -
  have "env = env \<longrightarrow> I d w \<longrightarrow> (case (r, d', w') of (r, d', w') \<Rightarrow> Q r d' w')"
    by (rule poll_response.raw_induct [OF _ assms(1), where P = "\<lambda>e d w y. e = env \<longrightarrow> I d w \<longrightarrow> (case y of (r, d', w') \<Rightarrow> Q r d' w')"])
       (auto split: prod.splits control.splits option.splits dest: again leave)
  with assms(2) show ?thesis by simp
qed

lemma request_loop_tracked:
  assumes "\<not> de_upgrade env" and "request_loop env u d w = Some (r, u', d', w')"
    and "body_tracked d" and "DfReadDisconnect \<notin> di_flags d"
  shows "r = Ok () \<longrightarrow> body_tracked d'"
  by (rule request_loop_rule [OF assms(2), of "\<lambda>u d w. body_tracked d \<and> DfReadDisconnect \<notin> di_flags d"])
     (use assms request_step_tracked [OF assms(1)] in blast)+

lemma can_read_flags: "can_read d w = (True, w') \<Longrightarrow> DfReadDisconnect \<notin> di_flags d"
  by (auto simp: can_read_def split: if_splits)

lemma poll_request_tracked:
  assumes "\<not> de_upgrade env" and "poll_request env d w = Some (Ok b, d', w')" and "body_tracked d"
  shows "body_tracked d'"
proof -
  obtain ok w1 where c: "can_read d w = (ok, w1)" by (cases "can_read d w")
  show ?thesis
  proof (cases "length (di_messages d) \<ge> MAX_PIPELINED_MESSAGES \<or> \<not> ok")
    case True
    with assms c show ?thesis by (auto simp: poll_request_def split: if_splits)
  next
    case False
    with assms(2) c obtain u d2 w2 where l: "request_loop env False d w1 = Some (Ok (), u, d2, w2)"
      and d': "d' = d2 \<or> (\<exists>x. d' = d2\<lparr>di_ka_expire := x\<rparr>)"
      by (auto simp: poll_request_def Let_def split: option.splits result.splits if_splits prod.splits)
    from request_loop_tracked [OF assms(1) l assms(3)] can_read_flags c False d' show ?thesis by auto
  qed
qed

lemma no_new_state_tracked:
  assumes "\<not> de_upgrade env" and "no_new_state env d w = Some (ctl, d', w')" and "body_tracked d"
  shows "(ctl = Again \<or> (\<exists>a. ctl = Leave (Ok a))) \<longrightarrow> body_tracked d'"
  using assms(2,3)
  by (auto simp: no_new_state_def split: if_splits option.splits result.splits bool.splits prod.splits
      dest: poll_request_tracked [OF assms(1)])

lemma set_new_state_tracked:
  "set_new_state (r, d, w) = (ctl, d', w') \<Longrightarrow> (\<forall>st. r = Ok st \<longrightarrow> body_tracked d) \<Longrightarrow>
     (ctl = Again \<or> (\<exists>a. ctl = Leave (Ok a))) \<longrightarrow> body_tracked d'"
  by (auto simp: set_new_state_def Let_def split: result.splits if_splits)

lemma send_payload_tracked:
  "send_payload_step env stream d w = (ctl, d', w') \<Longrightarrow> body_tracked d \<Longrightarrow> body_tracked d'"
  by (auto simp: send_payload_step_def Let_def disp_encode_tracked
      split: if_splits prod.splits poll.splits option.splits result.splits)

lemma response_step_tracked:
  assumes up: "\<not> de_upgrade env" and "response_step env d w = Some (ctl, d', w')" and b: "body_tracked d"
  shows "(ctl = Again \<or> (\<exists>a. ctl = Leave (Ok a))) \<longrightarrow> body_tracked d'"
proof (cases "di_state d")
  case CsNone
  show ?thesis
  proof (cases "di_messages d")
    case Nil
    with assms CsNone no_new_state_tracked [OF up] show ?thesis by (simp add: response_step_def)
  next
    case (Cons m ms)
    let ?d = "d\<lparr>di_messages := ms\<rparr>"
    show ?thesis
    proof (cases m)
      case (DmItem req)
      obtain r d1 w1 where h: "handle_request env req ?d w = (r, d1, w1)" by (metis prod.collapse)
      from assms h CsNone Cons DmItem handle_request_tracked [of env req ?d w] show ?thesis
        by (intro set_new_state_tracked [of r d1 w1 _ _ w']) (auto simp: response_step_def)
    next
      case (DmError res)
      obtain r d1 w1 where h: "send_response env res (RbOther BodyEmpty) ?d w = (r, d1, w1)" by (metis prod.collapse)
      from assms h CsNone Cons DmError send_response_tracked [of env res _ ?d w] show ?thesis
        by (intro set_new_state_tracked [of r d1 w1 _ _ w']) (auto simp: response_step_def)
    qed (use assms CsNone Cons in \<open>auto simp: response_step_def\<close>)
  qed
next
  case (CsExpectCall fut)
  obtain p fut' w1 where p: "de_expect_poll env fut w = (p, fut', w1)" by (metis prod.collapse)
  consider "p = Pending" | req where "p = Ready (Ok req)" | res body where "p = Ready (Err (res, body))"
    by (metis poll.exhaust result.exhaust surj_pair)
  then show ?thesis
  proof cases
    case 1
    with assms CsExpectCall p no_new_state_tracked [OF up, of "d\<lparr>di_state := CsExpectCall fut'\<rparr>"] show ?thesis
      by (simp add: response_step_def)
  next
    case 2
    with assms CsExpectCall p show ?thesis by (auto simp: response_step_def split: prod.splits)
  next
    case 3
    obtain r d1 w2 where h: "send_response env res (into_body body) d w1 = (r, d1, w2)" by (metis prod.collapse)
    from h 3 assms CsExpectCall p send_response_tracked [of env res _ d w1] show ?thesis
      by (intro set_new_state_tracked [of r d1 w2 _ _ w']) (auto simp: response_step_def)
  qed
next
  case (CsServiceCall fut)
  obtain p fut' w1 where p: "de_service_poll env fut w = (p, fut', w1)" by (metis prod.collapse)
  consider "p = Pending" | res body where "p = Ready (Ok (res, body))" | res body where "p = Ready (Err (res, body))"
    by (metis poll.exhaust result.exhaust surj_pair)
  then show ?thesis
  proof cases
    case 1
    with assms CsServiceCall p no_new_state_tracked [OF up, of "d\<lparr>di_state := CsServiceCall fut'\<rparr>"] show ?thesis
      by (simp add: response_step_def)
  next
    case 2
    with assms CsServiceCall p show ?thesis
      by (auto simp: response_step_def split: prod.splits result.splits dest: send_response_tracked)
  next
    case 3
    obtain r d1 w2 where h: "send_response env res (into_body body) d w1 = (r, d1, w2)" by (metis prod.collapse)
    from h 3 assms CsServiceCall p send_response_tracked [of env res _ d w1] show ?thesis
      by (intro set_new_state_tracked [of r d1 w2 _ _ w']) (auto simp: response_step_def)
  qed
next
  case (CsSendPayload stream)
  with assms send_payload_tracked [of env stream d w] show ?thesis by (auto simp: response_step_def)
qed

lemma poll_response_tracked:
  assumes "\<not> de_upgrade env" and "poll_response env d w = Some (r, d', w')" and "body_tracked d"
  shows "(\<exists>a. r = Ok a) \<longrightarrow> body_tracked d'"
  by (rule poll_response_rule [OF assms(2), of "\<lambda>d w. body_tracked d"])
     (use assms response_step_tracked [OF assms(1)] in blast)+

lemma poll_flush_fields:
  "poll_flush env d w = (r, d', w') \<Longrightarrow> \<exists>b. d' = d\<lparr>di_write_buf := b\<rparr>"
  by (auto simp: poll_flush_def Let_def split: if_splits prod.splits flush_end.splits option.splits)
     (rule exI [of _ "di_write_buf d"]; simp)+

lemma poll_flush_error: "poll_flush env d w = (Err e, d', w') \<Longrightarrow> e \<noteq> Failed DeInternalError"
  by (auto simp: poll_flush_def Let_def split: if_splits prod.splits flush_end.splits option.splits)

text \<open>What ends a poll with an error; the error of the connection itself is not among it.\<close>

lemma request_step_error: "request_step env u d w = (Leave (Err e), u', d', w') \<Longrightarrow> e = Crashed"
  by (auto simp: request_step_def Let_def on_item_def accept_item_def chan_create_def handle_request_def call_service_def on_chunk_def
      split: prod.splits result.splits option.splits failure.splits message.splits if_splits poll.splits
      dest: send_response_Err)

lemma poll_request_error: "poll_request env d w = Some (Err e, d', w') \<Longrightarrow> e = Crashed"
proof -
  assume "poll_request env d w = Some (Err e, d', w')"
  then obtain u w1 where l: "request_loop env False d w1 = Some (Err e, u, d', w')"
    by (auto simp: poll_request_def Let_def split: if_splits prod.splits option.splits result.splits)
  show ?thesis
    by (rule request_loop_rule [OF l, of "\<lambda>u d w. True" "\<lambda>r u d w. r = Err e \<longrightarrow> e = Crashed", THEN mp])
       (auto dest: request_step_error)
qed

lemma disp_encode_error: "disp_encode env msg d = (Err e, d') \<Longrightarrow> e \<noteq> Failed DeInternalError"
  by (auto simp: disp_encode_def split: option.splits prod.splits result.splits)

lemma set_new_state_error: "set_new_state (r, d, w) = (Leave (Err e), d', w') \<Longrightarrow> r = Err e"
  by (auto simp: set_new_state_def Let_def split: result.splits if_splits)

lemma handle_request_error: "handle_request env req d w = (Err e, d', w') \<Longrightarrow> e = Crashed"
  by (auto simp: handle_request_def call_service_def split: prod.splits result.splits if_splits poll.splits dest: send_response_Err)

lemma no_new_state_error: "no_new_state env d w = Some (Leave (Err e), d', w') \<Longrightarrow> e = Crashed"
  by (auto simp: no_new_state_def split: if_splits option.splits result.splits bool.splits dest: poll_request_error)

lemma send_payload_error: "send_payload_step env stream d w = (Leave (Err e), d', w') \<Longrightarrow> e \<noteq> Failed DeInternalError"
  by (auto simp: send_payload_step_def Let_def split: if_splits prod.splits poll.splits option.splits result.splits
      dest: disp_encode_error)

lemma response_step_error:
  assumes "response_step env d w = Some (Leave (Err e), d', w')"
  shows "e \<noteq> Failed DeInternalError"
proof (cases "di_state d")
  case CsNone
  show ?thesis
  proof (cases "di_messages d")
    case Nil
    with assms CsNone show ?thesis by (auto simp: response_step_def dest: no_new_state_error)
  next
    case (Cons m ms)
    with assms CsNone show ?thesis
      by (cases m; cases "handle_request env (case m of DmItem r \<Rightarrow> r | DmUpgrade r \<Rightarrow> r) (d\<lparr>di_messages := ms\<rparr>) w";
          cases "send_response env (case m of DmError r \<Rightarrow> r) (RbOther BodyEmpty) (d\<lparr>di_messages := ms\<rparr>) w")
         (auto simp: response_step_def dest!: set_new_state_error dest: handle_request_error send_response_Err)
  qed
next
  case (CsExpectCall fut)
  with assms show ?thesis
    by (auto simp: response_step_def split: prod.splits poll.splits result.splits dest: no_new_state_error)
       (metis prod.collapse send_response_Err set_new_state_error stop.distinct(1))
next
  case (CsServiceCall fut)
  with assms show ?thesis
    by (auto simp: response_step_def split: prod.splits poll.splits result.splits dest: no_new_state_error send_response_Err)
       (metis prod.collapse send_response_Err set_new_state_error stop.distinct(1))
next
  case (CsSendPayload stream)
  with assms show ?thesis by (auto simp: response_step_def dest: send_payload_error)
qed

lemma poll_response_error: "poll_response env d w = Some (Err e, d', w') \<Longrightarrow> e \<noteq> Failed DeInternalError"
  by (rule poll_response_rule [of env d w "Err e" d' w' "\<lambda>d w. True" "\<lambda>r d w. r = Err e \<longrightarrow> e \<noteq> Failed DeInternalError", THEN mp])
     (auto dest: response_step_error)

lemma write_loop_tracked:
  assumes "\<not> de_upgrade env" and "write_loop env d w = Some (x, d', w')" and "body_tracked d"
  shows "(x = WeBreak \<longrightarrow> body_tracked d') \<and> x \<noteq> WeStop (Failed DeInternalError)"
proof -
  let ?P = "\<lambda>e d w y. e = env \<longrightarrow> body_tracked d \<longrightarrow>
     (case y of (x, d', w') \<Rightarrow> (x = WeBreak \<longrightarrow> body_tracked d') \<and> x \<noteq> WeStop (Failed DeInternalError))"
  have "?P env d w (x, d', w')"
  proof (rule write_loop.raw_induct [OF _ assms(2), where P = ?P])
    fix loop e and d :: "('b, 'c, 'd) disp" and w y
    assume IH: "\<And>e d w y. loop e d w = Some y \<Longrightarrow> ?P e d w y"
      and body: "(case poll_response e (d\<lparr>di_write_buf := make_room (de_encode e) (di_write_buf d)\<rparr>) w of
        None \<Rightarrow> None
      | Some (Err e, d, w) \<Rightarrow> Some (WeStop e, d, w)
      | Some (Ok (PrUpgrade req), d, w) \<Rightarrow> Some (WeUpgrade req, d, w)
      | Some (Ok result, d, w) \<Rightarrow>
          (case poll_flush e d w of
             (Err e, d, w) \<Rightarrow> Some (WeStop e, d, w)
           | (Ok blocked, d, w) \<Rightarrow>
               if blocked \<or> \<not> poll_answer_eq result PrDrainWriteBuf then Some (WeBreak, d, w)
               else loop e d w)) = Some y"
    show "?P e d w y"
    proof (intro impI)
      assume e: "e = env" and t: "body_tracked d"
      obtain r d1 w1 where p: "poll_response env (d\<lparr>di_write_buf := make_room (de_encode env) (di_write_buf d)\<rparr>) w = Some (r, d1, w1)"
        using body e by (cases "poll_response e (d\<lparr>di_write_buf := make_room (de_encode e) (di_write_buf d)\<rparr>) w") auto
      have re: "r = Err x \<Longrightarrow> x \<noteq> Failed DeInternalError" for x using poll_response_error p by blast
      obtain f d2 w2 where fl: "poll_flush env d1 w1 = (f, d2, w2)" by (metis prod.collapse)
      have d1: "body_tracked d1" if "r = Ok a" for a
        using poll_response_tracked [OF assms(1) p] t that by simp
      then have d2: "body_tracked d2" if "r = Ok a" for a
        using poll_flush_fields [OF fl] that by auto
      show "case y of (x, d', w') \<Rightarrow> (x = WeBreak \<longrightarrow> body_tracked d') \<and> x \<noteq> WeStop (Failed DeInternalError)"
        using body e p fl d2 re IH [of env d2 w2] poll_flush_error [of env d1 w1 _ d2 w2]
        by (cases r; cases f) (auto split: poll_answer.splits if_splits)
    qed
  qed
  with assms(3) show ?thesis by simp
qed


lemma poll_read_tracked:
  assumes "\<not> de_upgrade env" and "poll_read env d w = Some (r, d', w')" and "body_tracked d"
  shows "(\<forall>u. r = Ok u \<longrightarrow> body_tracked d') \<and> r \<noteq> Err (Failed DeInternalError)"
proof -
  obtain q buf w1 where q: "(if DfReadDisconnect \<notin> di_flags d then read_available (de_read env) False (di_read_buf d) w
      else Some (Ok None, di_read_buf d, w)) = Some (q, buf, w1)"
    using assms(2) by (fastforce simp: poll_read_def split: option.splits)
  show ?thesis
  proof (cases q)
    case (Err e)
    with assms q show ?thesis by (auto simp: poll_read_def)
  next
    case (Ok sd)
    from assms(2) q Ok obtain r2 d2 w2 where p: "poll_request env (d\<lparr>di_read_buf := buf\<rparr>) w1 = Some (r2, d2, w2)"
      by (auto simp: poll_read_def split: option.splits)
    show ?thesis
    proof (cases r2)
      case (Err e)
      with poll_request_error [of env _ w1 e d2 w2] p assms q Ok show ?thesis by (auto simp: poll_read_def)
    next
      case (Ok b)
      with poll_request_tracked [OF assms(1), of _ w1 b d2 w2] p assms(3) have d2: "body_tracked d2" by simp
      obtain d3 w3 where t: "take_payload sender_feed_eof (d2\<lparr>di_flags := insert DfReadDisconnect (di_flags d2)\<rparr>) w2 = (d3, w3)"
        by (metis prod.collapse)
      from body_tracked_take [OF d2 t] d2 t p q assms(2) \<open>q = Ok sd\<close> Ok show ?thesis
        by (auto simp: poll_read_def split: if_splits)
    qed
  qed
qed

lemma timer_elapsed_tracked:
  assumes "timer_elapsed env t d w = (r, d', w')" and "body_tracked d"
  shows "(r = Ok () \<longrightarrow> body_tracked d') \<and> r \<noteq> Err (Failed DeInternalError)"
proof -
  obtain r1 d1 w1 where s: "send_response env (response_head_new REQUEST_TIMEOUT) (RbOther BodyEmpty) d w = (r1, d1, w1)"
    by (metis prod.collapse)
  have d1: "r1 \<noteq> Err Crashed \<Longrightarrow> body_tracked d1"
    using s send_response_Err [of env _ _ d w _ d1 w1] send_response_tracked [of env _ _ d w _ d1 w1] assms(2)
    by (cases r1) auto
  show ?thesis
    using assms s d1
    by (auto simp: timer_elapsed_def Let_def body_tracked_def split: if_splits option.splits)
qed

lemma poll_keepalive_tracked:
  assumes "poll_keepalive env d w = (r, d', w')" and "body_tracked d"
  shows "(r = Ok () \<longrightarrow> body_tracked d') \<and> r \<noteq> Err (Failed DeInternalError)"
  using assms timer_elapsed_tracked [of env _ "d\<lparr>di_ka_timer := _\<rparr>" w r d' w'] timer_elapsed_tracked [of env _ d w r d' w']
  by (auto simp: poll_keepalive_def poll_timer_def Let_def split: if_splits option.splits prod.splits dest: body_tracked_take)

lemma poll_decide_tracked:
  "poll_decide d = (ctl, d') \<Longrightarrow> body_tracked d \<Longrightarrow>
     (ctl = Again \<or> ctl = Leave Pending \<longrightarrow> body_tracked d') \<and> ctl \<noteq> Leave (Ready (Err (Failed DeInternalError)))"
  by (auto simp: poll_decide_def Let_def body_tracked_def split: if_splits option.splits)

lemma poll_shut_tracked:
  "poll_shut env d w = (r, dp, w') \<Longrightarrow> body_tracked d \<Longrightarrow>
     (\<exists>d'. dp = DpNormal d' \<and> body_tracked d') \<and> r \<noteq> Ready (Err (Failed DeInternalError))"
  using poll_flush_fields [of env d w] poll_flush_error [of env d w]
  by (fastforce simp: poll_shut_def split: if_splits prod.splits result.splits poll.splits)


lemma disp_poll_tracked:
  assumes "\<not> de_upgrade env" and "disp_poll env (DpNormal d) w = Some (r, dp, w')" and "body_tracked d"
  shows "r \<noteq> Ready (Err (Failed DeInternalError)) \<and> (r = Pending \<longrightarrow> (\<exists>d'. dp = DpNormal d' \<and> body_tracked d'))"
proof -
  let ?Q = "\<lambda>y. case y of (r, dp, w') \<Rightarrow>
     r \<noteq> Ready (Err (Failed DeInternalError)) \<and> (r = Pending \<longrightarrow> (\<exists>d'. dp = DpNormal d' \<and> body_tracked d'))"
  let ?P = "\<lambda>e dp w y. e = env \<longrightarrow> (\<forall>d. dp = DpNormal d \<longrightarrow> body_tracked d \<longrightarrow> ?Q y)"
  have "?P env (DpNormal d) w (r, dp, w')"
  proof (rule disp_poll.raw_induct [OF _ assms(2), where P = ?P], intro impI allI)
    fix poll e dp w y and d :: "('b, 'c, 'd) disp"
    assume IH: "\<And>e dp w y. poll e dp w = Some y \<Longrightarrow> ?P e dp w y" and e: "e = env" and dp: "dp = DpNormal d"
      and t: "body_tracked d"
      and body: "(case dp of
        DpNormal d \<Rightarrow>
          (case poll_keepalive e d w of
             (Err x, d, w) \<Rightarrow> Some (Ready (Err x), DpNormal d, w)
           | (Ok _, d, w) \<Rightarrow>
               if DfShutdown \<in> di_flags d then Some (poll_shut e d w)
               else
                 (case poll_read e d w of
                    None \<Rightarrow> None
                  | Some (Err x, d, w) \<Rightarrow> Some (Ready (Err x), DpNormal d, w)
                  | Some (Ok _, d, w) \<Rightarrow>
                      (case write_loop e d w of
                         None \<Rightarrow> None
                       | Some (WeStop x, d, w) \<Rightarrow> Some (Ready (Err x), DpNormal d, w)
                       | Some (WeUpgrade req, d, w) \<Rightarrow>
                           if de_upgrade e then
                             (let (fut, w) = de_upgrade_call e req (di_codec d) (di_read_buf d) (di_write_buf d) w
                              in poll e (DpUpgrade fut) w)
                           else Some (Ready (Err Crashed), DpNone, w)
                       | Some (WeBreak, d, w) \<Rightarrow>
                           (case poll_decide d of
                              (Leave p, d) \<Rightarrow> Some (p, DpNormal d, w)
                            | (Again, d) \<Rightarrow> poll e (DpNormal d) w))))
      | DpUpgrade fut \<Rightarrow>
          (case de_upgrade_poll e fut w of
             (Ready (Ok u), fut, w) \<Rightarrow> Some (Ready (Ok u), DpUpgrade fut, w)
           | (Ready (Err _), fut, w) \<Rightarrow> Some (Ready (Err (Failed DeUpgrade)), DpUpgrade fut, w)
           | (Pending, fut, w) \<Rightarrow> Some (Pending, DpUpgrade fut, w))
      | DpNone \<Rightarrow> Some (Ready (Err Crashed), DpNone, w)) = Some y"
    obtain k d1 w1 where k: "poll_keepalive env d w = (k, d1, w1)" by (metis prod.collapse)
    note t1 = poll_keepalive_tracked [OF k t]
    show "?Q y"
    proof (cases k)
      case (Err x)
      with body e dp k t1 show ?thesis by auto
    next
      case (Ok u)
      then have d1: "body_tracked d1" using t1 by simp
      show ?thesis
      proof (cases "DfShutdown \<in> di_flags d1")
        case True
        obtain r dp' w' where s: "poll_shut env d1 w1 = (r, dp', w')" by (metis prod.collapse)
        from poll_shut_tracked [OF s d1] s True Ok body e dp k show ?thesis by auto
      next
        case False
        with body e dp k Ok obtain q d2 w2 where q: "poll_read env d1 w1 = Some (q, d2, w2)"
          by (cases "poll_read env d1 w1") auto
        note t2 = poll_read_tracked [OF assms(1) q d1]
        show ?thesis
        proof (cases q)
          case (Err x)
          with False body e dp k \<open>k = Ok u\<close> q t2 show ?thesis by auto
        next
          case qok: (Ok u2)
          with False body e dp k \<open>k = Ok u\<close> q obtain x d3 w3 where l: "write_loop env d2 w2 = Some (x, d3, w3)"
            by (cases "write_loop env d2 w2") auto
          note t3 = write_loop_tracked [OF assms(1) l]
          obtain c d4 where dd: "poll_decide d3 = (c, d4)" by (metis prod.collapse)
          show ?thesis
            using False body e dp k \<open>k = Ok u\<close> q qok l dd t2 t3 assms(1) poll_decide_tracked [OF dd] IH [of env "DpNormal d4" w3 y]
            by (cases x; cases c) auto
        qed
      qed
    qed
  qed
  with assms(3) show ?thesis by simp
qed

section \<open>The life of a connection\<close>

text \<open>
  The states of a connection between polls: it starts with nothing decoded, and each poll that is
  not over finds the surroundings in any state.
\<close>

inductive conn_reach :: "('w, 'f, 'b, 'm) disp_env \<Rightarrow> ('f, 'b, 'm) dispatcher \<Rightarrow> bool" for env where
  start: "conn_reach env (disp_with_timeout (de_config env) now (codec_new ka) read_buf write_buf timeout pool)"
| poll: "conn_reach env dp \<Longrightarrow> disp_poll env dp w = Some (Pending, dp', w') \<Longrightarrow> conn_reach env dp'"

inductive_cases conn_reachE: "conn_reach env dp"

lemma conn_reach_tracked:
  assumes "conn_reach env dp" and "\<not> de_upgrade env"
  shows "\<exists>d. dp = DpNormal d \<and> body_tracked d"
  using assms(1)
proof (induction rule: conn_reach.induct)
  case (start now ka read_buf write_buf timeout pool)
  then show ?case
    by (cases timeout) (auto simp: disp_with_timeout_def Let_def body_tracked_def codec_new_def split: prod.split option.split)
next
  case (poll dp w dp' w')
  with disp_poll_tracked [OF assms(2)] show ?case by blast
qed

end
