(* ===== verification/H1_Connection_Runs.thy ===== *)
theory H1_Connection_Runs
  imports H1_Connection
begin

text \<open>
  What the HTTP/1 connection does from a given state: the bytes it writes, the bodies it delivers and
  sends, the order in which it handles pipelined requests, and the situations in which it
  hangs, stalls or mixes requests up. The last section has surroundings in which the
  hypotheses hold.
\<close>

section \<open>Every poll ends, and without internal errors\<close>

text \<open>
  Property C12. Decoding the receive buffer ends. Whatever has arrived and whatever the service does, one round of
  \<open>poll_request\<close> returns, since the decoder takes something from the buffer or steps its state with
  every message. It needs a head parser that never reports an empty head.
\<close>

theorem poll_request_terminates:
  assumes "heads_nonempty (de_lib env)"
  shows "\<exists>r d' w'. poll_request env d w = Some (r, d', w')"
  using request_loop_returns [OF assms, of False d "snd (can_read d w)"]
  by (auto simp: poll_request_def Let_def split: prod.splits option.splits result.splits)

text \<open>
  Property C13. A connection without an upgrade handler never fails with an internal error. In every state that
  polls can lead to, and whatever peer and service do in between, each body piece that is decoded has a
  request that waits for it, so the two branches that answer 500 for an unexpected piece are dead.
\<close>

theorem no_internal_error:
  assumes "conn_reach env dp" and "\<not> de_upgrade env" and "disp_poll env dp w = Some (r, dp', w')"
  shows "r \<noteq> Ready (Err (Failed DeInternalError))"
  using conn_reach_tracked [OF assms(1,2)] disp_poll_tracked [OF assms(2)] assms(3) by blast

section \<open>Writing to the socket\<close>

text \<open>
  Flushing loses and repeats no byte: over any byte stream that keeps its contract, what the
  socket has accepted followed by what is left in the buffer is what had been accepted followed by
  what was in the buffer, nothing is left unless the socket blocked, nothing else of the
  connection changes, and the only failures are those of the socket.
\<close>

theorem flush_conserves:
  assumes "socket (de_read env) (de_write env) incoming sent" and "poll_flush env d w = (r, d', w')"
  shows "case r of
      Ok blocked \<Rightarrow> sent w' @ ob_data (di_write_buf d') = sent w @ ob_data (di_write_buf d) \<and>
        (\<not> blocked \<longrightarrow> ob_data (di_write_buf d') = []) \<and> (\<exists>b. d' = d\<lparr>di_write_buf := b\<rparr>)
    | Err e \<Rightarrow> (\<exists>ioe. e = Failed (DeIo ioe)) \<and> (\<exists>n. sent w' = sent w @ take n (ob_data (di_write_buf d)))"
proof (cases "ob_data (di_write_buf d) = []")
  case True
  with assms(2) show ?thesis by (auto simp: poll_flush_def intro!: exI [of _ "di_write_buf d"])
next
  case False
  obtain q w1 where q: "flush_loop (de_write env) (ob_data (di_write_buf d)) 0 w = (q, w1)"
    by (metis surj_pair)
  have "case r of
      Ok blocked \<Rightarrow> sent w' @ ob_data (di_write_buf d') = sent w @ ob_data (di_write_buf d) \<and>
        (\<not> blocked \<longrightarrow> ob_data (di_write_buf d') = [])
    | Err e \<Rightarrow> (\<exists>ioe. e = Failed (DeIo ioe)) \<and> (\<exists>n. sent w' = sent w @ take n (ob_data (di_write_buf d)))"
    using socket.flush_loop_sent [OF assms(1) q, of "sent w"] False q assms(2)
    by (cases q) (auto simp: poll_flush_def Let_def buf_advance_def buf_clear_def split: if_splits)
  with poll_flush_fields [OF assms(2)] show ?thesis by (cases r) auto
qed

section \<open>A body on its way to the handler\<close>

lemma request_step_body:
  assumes "hc_payload (di_codec d) = Some pl"
  shows "request_step env u d w =
    (case payload_decode pl (di_read_buf d) of
       (Err e, pl', src') \<Rightarrow>
         (let d = d\<lparr>di_codec := (di_codec d)\<lparr>hc_payload := Some pl'\<rparr>, di_read_buf := src'\<rparr>;
              (d, w) = on_parse_error (PeIo e) d w
          in (Leave (Ok ()), u, d, w))
     | (Ok None, pl', src') \<Rightarrow>
         (Leave (Ok ()), u, d\<lparr>di_codec := (di_codec d)\<lparr>hc_payload := Some pl'\<rparr>, di_read_buf := src'\<rparr>, w)
     | (Ok (Some item), pl', src') \<Rightarrow>
         (let d = d\<lparr>di_codec := (di_codec d)\<lparr>hc_payload := (case item of ItemChunk _ \<Rightarrow> Some pl' | ItemEof \<Rightarrow> None)\<rparr>,
                    di_read_buf := src', di_flags := insert DfStarted (di_flags d)\<rparr>;
              (ctl, d, w) = on_chunk (case item of ItemChunk b \<Rightarrow> Some b | ItemEof \<Rightarrow> None) d w
          in (ctl, True, d, w)))"
  using assms
  by (auto simp: request_step_def codec_decode_def Let_def split: prod.split result.split option.split payload_item.split)

text \<open>The connection while its buffer is decoded: the codec, the buffer and the flag may differ.\<close>

definition decoding :: "('f, 'b, 'm) disp \<Rightarrow> payload_decoder \<Rightarrow> bytes \<Rightarrow> ('f, 'b, 'm) disp" where
  "decoding d pl src =
     d\<lparr>di_codec := (di_codec d)\<lparr>hc_payload := Some pl\<rparr>, di_read_buf := src, di_flags := insert DfStarted (di_flags d)\<rparr>"

definition feeding :: "nat \<Rightarrow> payload_error inner \<Rightarrow> 'w world \<Rightarrow> 'w world" where
  "feeding i inn w = w\<lparr>wo_channels := (wo_channels w)[i := Some inn]\<rparr>"

lemma feed_step:
  assumes "di_payload d = Some i" and "i < length (wo_channels w)"
    and "payload_decode pl src = (Ok (Some (ItemChunk b)), pl', src')"
  shows "request_step env u (decoding d pl src) (feeding i inn w) =
    (Again, True, decoding d pl' src', feeding i (inner_feed_data b inn) w)"
  using assms
  by (simp add: request_step_body [of _ pl] decoding_def feeding_def on_chunk_def chan_apply_def sender_feed_data_def)

lemma feed_data_items: "concat (in_items (inner_feed_data b inn)) = concat (in_items inn) @ b"
  by (simp add: inner_feed_data_def Let_def)

lemma feed_data_rest: "in_eof (inner_feed_data b inn) = in_eof inn \<and> in_err (inner_feed_data b inn) = in_err inn"
  by (simp add: inner_feed_data_def Let_def)

text \<open>What the loop makes of the pieces of a body before it comes to the end of the body.\<close>

lemma feed_loop:
  assumes "di_payload d = Some i" and "i < length (wo_channels w)" and "drain pl src = (bs, e)"
  shows "\<exists>inn' pl' src' u'. request_loop env u (decoding d pl src) (feeding i inn w) =
      request_loop env u' (decoding d pl' src') (feeding i inn' w) \<and>
    concat (in_items inn') = concat (in_items inn) @ bs \<and> in_eof inn' = in_eof inn \<and> in_err inn' = in_err inn \<and>
    (case e of
       DrainEof rest \<Rightarrow> \<exists>pl''. payload_decode pl' src' = (Ok (Some ItemEof), pl'', rest)
     | DrainErr x rest \<Rightarrow> \<exists>pl''. payload_decode pl' src' = (Err x, pl'', rest)
     | DrainMore plr rest \<Rightarrow> payload_decode pl' src' = (Ok None, plr, rest))"
  using assms(3)
proof (induction pl src arbitrary: bs u inn rule: drain.induct)
  case (1 pl src)
  obtain r pl1 src1 where p: "payload_decode pl src = (r, pl1, src1)" by (metis prod.collapse)
  show ?case
  proof (cases "\<exists>b. r = Ok (Some (ItemChunk b))")
    case False
    with "1.prems" p show ?thesis
      by (intro exI [of _ inn] exI [of _ pl] exI [of _ src] exI [of _ u])
         (auto simp: drain.simps [of pl src] split: result.splits option.splits payload_item.splits)
  next
    case True
    then obtain b where r: "r = Ok (Some (ItemChunk b))" by blast
    obtain bs1 where bs1: "drain pl1 src1 = (bs1, e)" "bs = b @ bs1"
      using "1.prems" p r by (auto simp: drain.simps [of pl src] split: prod.splits)
    from "1.IH" [OF p [symmetric] r refl refl refl bs1(1), where u = True and inn = "inner_feed_data b inn"] feed_data_rest [of b inn]
    have IH: "\<exists>inn' pl' src' u'. request_loop env True (decoding d pl1 src1) (feeding i (inner_feed_data b inn) w) =
        request_loop env u' (decoding d pl' src') (feeding i inn' w) \<and>
      concat (in_items inn') = concat (in_items inn) @ bs \<and> in_eof inn' = in_eof inn \<and> in_err inn' = in_err inn \<and>
      (case e of
         DrainEof rest \<Rightarrow> \<exists>pl''. payload_decode pl' src' = (Ok (Some ItemEof), pl'', rest)
       | DrainErr x rest \<Rightarrow> \<exists>pl''. payload_decode pl' src' = (Err x, pl'', rest)
       | DrainMore plr rest \<Rightarrow> payload_decode pl' src' = (Ok None, plr, rest))"
      by (simp add: bs1(2) feed_data_items)
    have "request_loop env u (decoding d pl src) (feeding i inn w) =
        request_loop env True (decoding d pl1 src1) (feeding i (inner_feed_data b inn) w)"
      using feed_step [OF assms(1,2) p [unfolded r], of env u inn]
      by (simp add: request_loop.simps [of env u "decoding d pl src"])
    with IH show ?thesis by simp
  qed
qed

text \<open>
  Property C15. The body of a request reaches its handler. While a request has a body, one run of the decoding
  loop puts exactly the bytes that the body decoder finds into the channel of that request, in
  order, ends it exactly where the decoder does, and goes on with the bytes that follow.
\<close>

theorem body_delivered:
  assumes "di_payload d = Some i" and "i < length (wo_channels w)" and "drain pl src = (bs, DrainEof rest)"
  shows "\<exists>inn'. request_loop env u (decoding d pl src) (feeding i inn w) =
      request_loop env True (d\<lparr>di_codec := (di_codec d)\<lparr>hc_payload := None\<rparr>, di_read_buf := rest,
        di_flags := insert DfStarted (di_flags d), di_payload := None\<rparr>) (feeding i inn' w) \<and>
    concat (in_items inn') = concat (in_items inn) @ bs \<and> in_eof inn' \<and> in_err inn' = in_err inn"
proof -
  obtain inn1 pl1 src1 u1 pl2 where l: "request_loop env u (decoding d pl src) (feeding i inn w) =
      request_loop env u1 (decoding d pl1 src1) (feeding i inn1 w)"
    and inn1: "concat (in_items inn1) = concat (in_items inn) @ bs" "in_err inn1 = in_err inn"
    and p: "payload_decode pl1 src1 = (Ok (Some ItemEof), pl2, rest)"
    using feed_loop [OF assms, of env u inn] by auto
  have "request_step env u1 (decoding d pl1 src1) (feeding i inn1 w) =
      (Again, True, d\<lparr>di_codec := (di_codec d)\<lparr>hc_payload := None\<rparr>, di_read_buf := rest,
        di_flags := insert DfStarted (di_flags d), di_payload := None\<rparr>, feeding i (inner_feed_eof inn1) w)"
    using assms(1,2) p
    by (simp add: request_step_body [of _ pl1] decoding_def feeding_def on_chunk_def chan_apply_def sender_feed_eof_def)
  with l inn1 show ?thesis
    by (intro exI [of _ "inner_feed_eof inn1"])
       (simp add: request_loop.simps [of env u1 "decoding d pl1 src1"] inner_feed_eof_def)
qed

text \<open>
  A malformed body is not answered. When the body decoder fails the bytes before the error are
  delivered, the channel gets the error \<open>Incomplete\<close>, no response is queued or written, and the
  next decision of the connection is to end, without an error.
\<close>

theorem malformed_body_disconnects:
  assumes "di_payload d = Some i" and "i < length (wo_channels w)" and "drain pl src = (bs, DrainErr e rest)"
  shows "\<exists>inn' u' d'. request_loop env u (decoding d pl src) (feeding i inn w) = Some (Ok (), u', d', feeding i inn' w) \<and>
    concat (in_items inn') = concat (in_items inn) @ bs \<and> in_err inn' = Some (PlIncomplete None) \<and>
    di_messages d' = di_messages d \<and> di_write_buf d' = di_write_buf d \<and> di_error d' = Some (DeIo e) \<and>
    fst (poll_decide d') = Leave (Ready (Ok ()))"
proof -
  obtain inn1 pl1 src1 u1 pl2 where l: "request_loop env u (decoding d pl src) (feeding i inn w) =
      request_loop env u1 (decoding d pl1 src1) (feeding i inn1 w)"
    and inn1: "concat (in_items inn1) = concat (in_items inn) @ bs"
    and p: "payload_decode pl1 src1 = (Err e, pl2, rest)"
    using feed_loop [OF assms, of env u inn] by auto
  let ?d = "d\<lparr>di_codec := (di_codec d)\<lparr>hc_payload := Some pl2\<rparr>, di_read_buf := rest,
    di_flags := insert DfStarted (di_flags d) \<union> {DfReadDisconnect, DfWriteDisconnect}, di_payload := None,
    di_error := Some (DeIo e)\<rparr>"
  have "request_step env u1 (decoding d pl1 src1) (feeding i inn1 w) =
      (Leave (Ok ()), u1, ?d, feeding i (inner_set_error (PlIncomplete None) inn1) w)"
    using assms(1,2) p
    by (simp add: request_step_body [of _ pl1] decoding_def feeding_def on_parse_error_def client_disconnected_def
        take_payload_def chan_apply_def sender_set_error_def)
  with l inn1 show ?thesis
    by (intro exI [of _ "inner_set_error (PlIncomplete None) inn1"] exI [of _ u1] exI [of _ ?d])
       (simp add: request_loop.simps [of env u1 "decoding d pl1 src1"] inner_set_error_def poll_decide_def)
qed

section \<open>A poll that does not return\<close>

text \<open>
  A pipelined request makes the connection spin. When the handler of \<open>Expect: 100-continue\<close> is
  pending and another request is queued, \<open>poll_response\<close> never returns: its loop polls the
  pending handler again and again.
\<close>

theorem expect_queue_hangs:
  fixes d :: "('f, 'b, 'm) disp"
  assumes "di_state d = CsExpectCall fut" and "di_messages d \<noteq> []"
    and "\<And>w. \<exists>w'. de_expect_poll env fut w = (Pending, fut, w')"
  shows "poll_response env d w = None"
proof (rule ccontr)
  assume "poll_response env d w \<noteq> None"
  then obtain r d' w' where p: "poll_response env d w = Some (r, d', w')" by auto
  show False
  proof (rule poll_response_rule [OF p, of "\<lambda>d w. di_state d = CsExpectCall fut \<and> di_messages d \<noteq> []" "\<lambda>r d w. False"])
    fix d :: "('f, 'b, 'm) disp" and w ctl d' w'
    assume d: "di_state d = CsExpectCall fut \<and> di_messages d \<noteq> []"
    obtain w1 where w1: "de_expect_poll env fut w = (Pending, fut, w1)" using assms(3) by blast
    have step: "response_step env d w = Some (Again, d\<lparr>di_state := CsExpectCall fut\<rparr>, w1)"
      using d w1 by (simp add: response_step_def no_new_state_def)
    show "response_step env d w = Some (Again, d', w') \<Longrightarrow> di_state d' = CsExpectCall fut \<and> di_messages d' \<noteq> []"
      using d step by auto
    show "response_step env d w = Some (Leave r, d', w') \<Longrightarrow> False" for r
      using step by simp
  qed (use assms(1,2) in simp)
qed


section \<open>Pipelined requests\<close>

text \<open>A service that answers at once, with an empty body.\<close>

definition answers_empty :: "('w, 'f, 'b, 'm) disp_env \<Rightarrow> request \<Rightarrow> 'w world \<Rightarrow> response_head \<Rightarrow> 'w world \<Rightarrow> bool" where
  "answers_empty env req w res w' \<longleftrightarrow>
     \<not> rq_expect (fst req) \<and> 100 \<le> rs_status res \<and> rs_status res \<le> 999 \<and>
     (\<exists>f w1 f'. de_service_call env req w = (f, w1) \<and>
        de_service_poll env f w1 = (Ready (Ok (res, RbOther BodyEmpty)), f', w'))"

text \<open>Sending a response with an empty body leaves the connection idle and its text in the buffer.\<close>

lemma send_empty:
  assumes "env_ok (de_encode env)" and "100 \<le> rs_status res" and "rs_status res \<le> 999"
  shows "\<exists>d'. send_response env res (RbOther BodyEmpty) d w = (Ok CsNone, d', w) \<and> same_input d d' \<and>
    di_payload d' = di_payload d \<and>
    ob_data (di_write_buf d') = ob_data (di_write_buf d) @
      response_text (de_encode env) (de_lib env) (res\<lparr>rs_version := hc_version (di_codec d)\<rparr>) (hc_version (di_codec d))
        SzEmpty (response_ctype (res\<lparr>rs_version := hc_version (di_codec d)\<rparr>) (hc_ctype (di_codec d)))"
proof -
  let ?c = "di_codec d"
  let ?res = "res\<lparr>rs_version := hc_version ?c\<rparr>"
  obtain dst' where e: "encode_response (de_encode env) (de_lib env) (hc_encoder ?c) ?res (hc_head ?c) (hc_stream ?c)
      (hc_version ?c) SzEmpty (response_ctype ?res (hc_ctype ?c)) (di_write_buf d) =
      Some ((hc_encoder ?c)\<lparr>me_te := choose_te (rs_chunked ?res) (hc_head ?c) (hc_stream ?c) SzEmpty\<rparr>, dst')"
    and dst': "ob_data dst' = ob_data (di_write_buf d) @ response_text (de_encode env) (de_lib env) ?res (hc_version ?c)
        SzEmpty (response_ctype ?res (hc_ctype ?c))"
    using encode_response_ok [OF assms(1), of ?res SzEmpty] assms(2,3) by (fastforce simp: size_ok_def)
  obtain d' where s: "send_response env res (RbOther BodyEmpty) d w = (Ok CsNone, d', w)" and b: "di_write_buf d' = dst'"
    using e by (simp add: send_response_def disp_encode_def env_body_size_def Let_def)
  from send_response_same [OF s] s b dst' show ?thesis by auto
qed

lemma handle_empty:
  assumes "env_ok (de_encode env)" and "answers_empty env req w res w'"
  shows "\<exists>d'. handle_request env req d w = (Ok CsNone, d', w') \<and> same_input d d' \<and> di_payload d' = di_payload d"
proof -
  from assms(2) obtain f w1 f' where c: "de_service_call env req w = (f, w1)"
    "de_service_poll env f w1 = (Ready (Ok (res, RbOther BodyEmpty)), f', w')"
    and r: "\<not> rq_expect (fst req)" "100 \<le> rs_status res" "rs_status res \<le> 999"
    by (auto simp: answers_empty_def)
  from send_empty [OF assms(1) r(2,3), of d w'] c r(1) show ?thesis
    by (auto simp: handle_request_def call_service_def)
qed

text \<open>
  Queued requests can be left behind. When a queued request is answered at once with an empty
  body, the loop stops although the next request is queued and nothing is being handled,
  and no wake-up is arranged.
\<close>

theorem queued_request_stalls:
  assumes "env_ok (de_encode env)" and "di_state d = CsNone" and "di_messages d = DmItem req # queue"
    and "answers_empty env req w res w'"
  shows "\<exists>d'. poll_response env d w = Some (Ok PrDoNothing, d', w') \<and> di_state d' = CsNone \<and> di_messages d' = queue"
proof -
  obtain d1 where h: "handle_request env req (d\<lparr>di_messages := queue\<rparr>) w = (Ok CsNone, d1, w')"
    and s: "same_input (d\<lparr>di_messages := queue\<rparr>) d1"
    using handle_empty [OF assms(1,4)] by blast
  have "response_step env d w = Some (Leave (Ok PrDoNothing), d1\<lparr>di_state := CsNone\<rparr>, w')"
    using assms(2,3) h by (simp add: response_step_def set_new_state_def)
  with s show ?thesis by (simp add: poll_response.simps [of env d w] same_input_def)
qed

text \<open>
  Pipelined requests can be answered out of order. After such a stop, a request that arrives is
  handed to the service before the ones that are queued, so its response precedes theirs.
\<close>

theorem queued_request_overtaken:
  assumes "env_ok (de_encode env)" and "di_state d = CsNone" and "di_messages d = DmItem req # queue"
    and "answers_empty env req w res w'"
    and "hc_payload (di_codec d) = None" and "\<not> hc_stream (di_codec d)"
    and "request_decode (de_lib env) (di_pool d) src = (Ok (Some (head, PtNone)), pool', src')"
    and "answers_empty env (fill_head env head, PayNone) w' res2 w''"
  shows "\<exists>d1 d2. poll_response env d w = Some (Ok PrDoNothing, d1, w') \<and> di_messages d1 = queue \<and>
    request_step env u (d1\<lparr>di_read_buf := src\<rparr>) w' = (Again, True, d2, w'') \<and> di_messages d2 = queue"
proof -
  obtain d0 where h: "handle_request env req (d\<lparr>di_messages := queue\<rparr>) w = (Ok CsNone, d0, w')"
    and s: "same_input (d\<lparr>di_messages := queue\<rparr>) d0"
    using handle_empty [OF assms(1,4)] by blast
  define d1 where "d1 = d0\<lparr>di_state := CsNone\<rparr>"
  have "response_step env d w = Some (Leave (Ok PrDoNothing), d1, w')"
    using assms(2,3) h by (simp add: response_step_def set_new_state_def d1_def)
  then have p: "poll_response env d w = Some (Ok PrDoNothing, d1, w')" by (simp add: poll_response.simps [of env d w])
  have d1: "di_messages d1 = queue" "hc_payload (di_codec d1) = None" "\<not> hc_stream (di_codec d1)"
    "di_pool d1 = di_pool d" "di_state d1 = CsNone"
    using s assms(5,6) by (simp_all add: d1_def same_input_def)
  let ?c = "codec_on_request head PtNone (di_codec d1)"
  let ?d = "d1\<lparr>di_codec := ?c, di_pool := pool', di_read_buf := src', di_flags := insert DfStarted (di_flags d1)\<rparr>"
  obtain d2 where h2: "handle_request env (fill_head env head, PayNone) ?d w' = (Ok CsNone, d2, w'')" and s2: "same_input ?d d2"
    using handle_empty [OF assms(1,8)] by blast
  have mt: "codec_message_type ?c = MtNone"
    using d1(3) by (simp add: codec_message_type_def codec_on_request_payload) (simp add: codec_on_request_def Let_def)
  have "request_step env u (d1\<lparr>di_read_buf := src\<rparr>) w' = (Again, True, d2\<lparr>di_state := CsNone\<rparr>, w'')"
    using d1 assms(7) h2 mt
    by (simp add: request_step_def codec_decode_def on_item_def accept_item_def Let_def)
  with p d1(1) s2 show ?thesis
    by (intro exI [of _ d1] exI [of _ "d2\<lparr>di_state := CsNone\<rparr>"]) (simp add: same_input_def)
qed

section \<open>Upgrades\<close>

text \<open>
  An upgrade behind another request loses data. With an upgrade handler, after an upgrade request was
  queued the connection may still be read, and the bytes that follow it are taken for an unexpected
  body piece: they are dropped, and an internal error is queued behind the upgrade.
\<close>

theorem pipelined_upgrade_corrupted:
  assumes "de_upgrade env" and "hc_payload (di_codec d) = None" and "di_payload d = None"
    and "request_decode (de_lib env) (di_pool d) src = (Ok (Some (head, PtStream pl)), pool', src')"
    and "payload_decode pl src' = (Ok (Some (ItemChunk b)), pl', src'')"
    and "DfReadDisconnect \<notin> di_flags d" and "DfUpgrade \<notin> di_flags d"
  shows "\<exists>d1 d2. request_loop env u (d\<lparr>di_read_buf := src\<rparr>) w = Some (Ok (), True, d1, w) \<and>
    di_messages d1 = di_messages d @ [DmUpgrade (fill_head env head, PayNone)] \<and> can_read d1 w = (True, w) \<and>
    request_loop env u d1 w = Some (Ok (), True, d2, w) \<and>
    di_messages d2 = di_messages d1 @ [DmError (response_head_new INTERNAL_SERVER_ERROR)] \<and>
    di_error d2 = Some DeInternalError \<and> di_read_buf d2 = src''"
proof -
  let ?c = "codec_on_request head (PtStream pl) (di_codec d)"
  let ?d1 = "d\<lparr>di_codec := ?c, di_pool := pool', di_read_buf := src', di_flags := insert DfStarted (di_flags d),
    di_messages := di_messages d @ [DmUpgrade (fill_head env head, PayNone)]\<rparr>"
  have mt: "codec_message_type ?c = MtStream" and pl: "hc_payload ?c = Some pl"
    by (simp_all add: codec_message_type_def codec_on_request_payload) (simp add: codec_on_request_def Let_def)
  have s1: "request_step env u (d\<lparr>di_read_buf := src\<rparr>) w = (Leave (Ok ()), True, ?d1, w)"
    using assms(1,2,4) mt by (simp add: request_step_def codec_decode_def on_item_def Let_def)
  have s2: "request_step env u ?d1 w = (Leave (Ok ()), True, server_error (?d1\<lparr>di_codec := ?c\<lparr>hc_payload := Some pl'\<rparr>, di_read_buf := src'', di_flags := insert DfStarted (di_flags d)\<rparr>), w)"
    using assms(3,5) pl by (simp add: request_step_body [of _ pl] on_chunk_def)
  show ?thesis
    using s1 s2 assms(3,6,7)
    by (intro exI [of _ ?d1] exI [of _ "server_error (?d1\<lparr>di_codec := ?c\<lparr>hc_payload := Some pl'\<rparr>, di_read_buf := src'', di_flags := insert DfStarted (di_flags d)\<rparr>)"])
       (simp add: request_loop.simps [of env u] can_read_def server_error_def)
qed

section \<open>Requests behind one that is being handled\<close>

text \<open>The complete requests at the front of a buffer, with no body.\<close>

inductive heads_in :: "http_lib \<Rightarrow> request_pool \<Rightarrow> bytes \<Rightarrow> request_head list \<Rightarrow> request_pool \<Rightarrow> bytes \<Rightarrow> bool" for lib where
  stop: "request_decode lib pool src = (Ok None, pool', src') \<Longrightarrow> heads_in lib pool src [] pool' src'"
| more: "request_decode lib pool src = (Ok (Some (h, PtNone)), pool1, src1) \<Longrightarrow> heads_in lib pool1 src1 hs pool' src' \<Longrightarrow>
    heads_in lib pool src (h # hs) pool' src'"

lemma queue_step:
  assumes "\<not> cs_is_empty (di_state d)" and "hc_payload (di_codec d) = None" and "\<not> hc_stream (di_codec d)"
    and "request_decode (de_lib env) (di_pool d) (di_read_buf d) = (Ok (Some (h, PtNone)), pool1, src1)"
  shows "\<exists>c'. request_step env u d w = (Again, True, d\<lparr>di_codec := c', di_pool := pool1, di_read_buf := src1,
      di_flags := insert DfStarted (di_flags d), di_messages := di_messages d @ [DmItem (fill_head env h, PayNone)]\<rparr>, w) \<and>
    hc_payload c' = None \<and> \<not> hc_stream c'"
proof (intro exI conjI)
  let ?c = "codec_on_request h PtNone (di_codec d)"
  show p: "hc_payload ?c = None" by (simp add: codec_on_request_payload)
  show st: "\<not> hc_stream ?c" using assms(3) by (simp add: codec_on_request_def Let_def)
  have "codec_message_type ?c = MtNone" using p st by (simp add: codec_message_type_def)
  with assms show "request_step env u d w = (Again, True, d\<lparr>di_codec := ?c, di_pool := pool1, di_read_buf := src1,
      di_flags := insert DfStarted (di_flags d), di_messages := di_messages d @ [DmItem (fill_head env h, PayNone)]\<rparr>, w)"
    by (simp add: request_step_def codec_decode_def on_item_def accept_item_def Let_def)
qed

text \<open>
  While a request is being handled, the complete requests in the buffer are queued in the order of
  their arrival and none is handled, dropped or duplicated. All of them are queued, however
  many: the limit of sixteen is only looked at before the buffer is decoded.
\<close>

theorem requests_queued_in_order:
  assumes "heads_in (de_lib env) (di_pool d) (di_read_buf d) hs pool' src'"
    and "\<not> cs_is_empty (di_state d)" and "hc_payload (di_codec d) = None" and "\<not> hc_stream (di_codec d)"
  shows "\<exists>u' d'. request_loop env u d w = Some (Ok (), u', d', w) \<and> di_read_buf d' = src' \<and> di_state d' = di_state d \<and>
    di_messages d' = di_messages d @ map (\<lambda>h. DmItem (fill_head env h, PayNone)) hs"
proof -
  have "\<exists>u' d'. request_loop env u d w = Some (Ok (), u', d', w) \<and> di_read_buf d' = src' \<and> di_state d' = st \<and>
      di_messages d' = di_messages d @ map (\<lambda>h. DmItem (fill_head env h, PayNone)) hs"
    if "heads_in (de_lib env) pool src hs pool' src'" "di_pool d = pool" "di_read_buf d = src" "di_state d = st"
      "\<not> cs_is_empty st" "hc_payload (di_codec d) = None" "\<not> hc_stream (di_codec d)"
    for pool src st u and d :: "('b, 'c, 'd) disp" and hs
    using that
  proof (induction arbitrary: d u rule: heads_in.induct)
    case (stop pool src pool' src')
    then have "request_step env u d w = (Leave (Ok ()), u, d\<lparr>di_codec := di_codec d, di_pool := pool', di_read_buf := src'\<rparr>, w)"
      by (simp add: request_step_def codec_decode_def)
    with stop.prems show ?case by (simp add: request_loop.simps [of env u d])
  next
    case (more pool src h pool1 src1 hs pool' src')
    let ?d = "\<lambda>c'. d\<lparr>di_codec := c', di_pool := pool1, di_read_buf := src1,
      di_flags := insert DfStarted (di_flags d), di_messages := di_messages d @ [DmItem (fill_head env h, PayNone)]\<rparr>"
    from queue_step [of d env h pool1 src1 u w] more.hyps(1) more.prems obtain c' where
      s: "request_step env u d w = (Again, True, ?d c', w)" and c': "hc_payload c' = None" "\<not> hc_stream c'" by auto
    from more.IH [of "?d c'" True] more.prems c' s show ?case
      by (simp add: request_loop.simps [of env u d])
  qed
  from this [OF assms(1) refl refl refl assms(2-4)] show ?thesis by blast
qed

section \<open>A malformed request\<close>

text \<open>A socket that takes all it is given, and records it.\<close>

definition takes_all :: "(bytes \<Rightarrow> 'w \<Rightarrow> (nat, io_error) result poll \<times> 'w) \<Rightarrow> ('w \<Rightarrow> bytes) \<Rightarrow> bool" where
  "takes_all wr sent \<longleftrightarrow> (\<forall>bs w. \<exists>w'. wr bs w = (Ready (Ok (length bs)), w') \<and> sent w' = sent w @ bs)"

lemma poll_flush_takes_all:
  assumes "takes_all (de_write env) sent"
  shows "\<exists>b w'. poll_flush env d w = (Ok False, d\<lparr>di_write_buf := b\<rparr>, w') \<and> ob_data b = [] \<and>
    sent w' = sent w @ ob_data (di_write_buf d)"
proof (cases "ob_data (di_write_buf d) = []")
  case True
  then show ?thesis by (intro exI [of _ "di_write_buf d"] exI [of _ w]) (simp add: poll_flush_def)
next
  case False
  from assms obtain w' where w': "de_write env (ob_data (di_write_buf d)) w = (Ready (Ok (length (ob_data (di_write_buf d)))), w')"
    "sent w' = sent w @ ob_data (di_write_buf d)"
    unfolding takes_all_def by blast
  with False have "flush_loop (de_write env) (ob_data (di_write_buf d)) 0 w = (FlAll (length (ob_data (di_write_buf d))), w')"
    by (simp add: flush_loop.simps [of _ "ob_data (di_write_buf d)"])
  with False w' show ?thesis
    by (intro exI [of _ "buf_clear (di_write_buf d)"] exI [of _ w']) (simp add: poll_flush_def buf_clear_def Let_def)
qed

lemma make_room_data [simp]: "ob_data (make_room env b) = ob_data b"
  by (simp add: make_room_def reserve_def Let_def)

text \<open>A head that cannot be parsed is never reported as a failure of the socket.\<close>

lemma scan_match_not_io: "scan_match lib name value sc \<noteq> Err (PeIo x)"
  by (auto simp: scan_match_def split: option.splits)

lemma scan_error_not_io: "scan_headers lib s idxs sc \<noteq> (Err (Fails (PeIo x)), sc')"
  by (induction idxs arbitrary: sc)
     (auto simp: scan_match_not_io split: exec.splits option.splits result.splits dest!: scan_match_not_io [THEN notE])

lemma head_error_not_io: "request_decode lib pool src = (Err (Fails e), pool', src') \<Longrightarrow> e \<noteq> PeIo x"
proof -
  have hp: "from_httparse h \<noteq> PeIo x" for h by (cases h) simp_all
  have fin: "request_finish lib meth uri version len hs pool src = (Err (Fails e), pool', src') \<Longrightarrow> e \<noteq> PeIo x"
    for meth uri version len hs
    by (auto simp: request_finish_def rq_set_headers_def request_payload_type_def scan_error_not_io Let_def
        split: prod.splits result.splits payload_length.splits if_splits)
  show "request_decode lib pool src = (Err (Fails e), pool', src') \<Longrightarrow> e \<noteq> PeIo x"
    using hp fin by (auto simp: request_decode_def split: result.splits option.splits parse_status.splits)
qed

text \<open>Such a head is noted: it queues the answer, ends reading and keeps the error.\<close>

definition bad_request_noted :: "parse_error \<Rightarrow> request_pool \<Rightarrow> bytes \<Rightarrow> ('f, 'b, 'm) disp \<Rightarrow> ('f, 'b, 'm) disp" where
  "bad_request_noted e pool src d = d\<lparr>di_pool := pool, di_read_buf := src, di_messages := [DmError (response_head_new 400)],
     di_flags := insert DfReadDisconnect (di_flags d), di_error := Some (DeParse e)\<rparr>"

lemma bad_request_read:
  assumes idle: "di_state d = CsNone" "di_messages d = []" "di_payload d = None" "hc_payload (di_codec d) = None"
      "di_flags d \<inter> {DfShutdown, DfReadDisconnect, DfWriteDisconnect, DfUpgrade} = {}"
    and rd: "read_available (de_read env) False (di_read_buf d) w = Some (Ok sd, src, w1)"
    and bad: "request_decode (de_lib env) (di_pool d) src = (Err (Fails e), pool', src')"
  shows "poll_read env d w = Some (Ok (), bad_request_noted e pool' src' d, w1)"
proof -
  have fl: "DfReadDisconnect \<notin> di_flags d" "DfUpgrade \<notin> di_flags d" using idle(5) by auto
  have io: "\<forall>x. e \<noteq> PeIo x" using head_error_not_io [OF bad] by blast
  have "request_step env False (d\<lparr>di_read_buf := src\<rparr>) w1 = (Leave (Ok ()), False, bad_request_noted e pool' src' d, w1)"
    using idle bad io
    by (cases e) (simp_all add: request_step_def codec_decode_def on_parse_error_def take_payload_def bad_request_noted_def)
  then have "request_loop env False (d\<lparr>di_read_buf := src\<rparr>) w1 = Some (Ok (), False, bad_request_noted e pool' src' d, w1)"
    by (simp add: request_loop.simps)
  then have "poll_request env (d\<lparr>di_read_buf := src\<rparr>) w1 = Some (Ok False, bad_request_noted e pool' src' d, w1)"
    using idle fl by (simp add: poll_request_def can_read_def MAX_PIPELINED_MESSAGES_def)
  then show ?thesis using fl rd idle by (auto simp: poll_read_def take_payload_def bad_request_noted_def insert_commute)
qed

text \<open>Then the answer is encoded behind the output, and flushed.\<close>

lemma bad_request_written:
  fixes d :: "('f, 'b, 'm) disp"
  assumes env: "env_ok (de_encode env)" and idle: "di_state d = CsNone" "DfWriteDisconnect \<notin> di_flags d"
  shows "\<exists>d3. write_loop env (bad_request_noted e pool src d) w =
      (case poll_flush env d3 w of (Err e, d4, w2) \<Rightarrow> Some (WeStop e, d4, w2) | (Ok _, d4, w2) \<Rightarrow> Some (WeBreak, d4, w2)) \<and>
    di_state d3 = CsNone \<and> di_messages d3 = [] \<and> di_error d3 = Some (DeParse e) \<and>
    DfWriteDisconnect \<notin> di_flags d3 \<and> DfReadDisconnect \<in> di_flags d3 \<and>
    ob_data (di_write_buf d3) = ob_data (di_write_buf d) @ response_text (de_encode env) (de_lib env)
      ((response_head_new 400)\<lparr>rs_version := hc_version (di_codec d)\<rparr>) (hc_version (di_codec d)) SzEmpty (hc_ctype (di_codec d))"
proof -
  let ?d1 = "bad_request_noted e pool src d"
  let ?room = "?d1\<lparr>di_write_buf := make_room (de_encode env) (di_write_buf ?d1)\<rparr>"
  let ?d2 = "?room\<lparr>di_messages := []\<rparr>"
  obtain d3 where d3: "send_response env (response_head_new 400) (RbOther BodyEmpty) ?d2 w = (Ok CsNone, d3, w)" "same_input ?d2 d3"
    and out: "ob_data (di_write_buf d3) = ob_data (di_write_buf d) @ response_text (de_encode env) (de_lib env)
      ((response_head_new 400)\<lparr>rs_version := hc_version (di_codec d)\<rparr>) (hc_version (di_codec d)) SzEmpty (hc_ctype (di_codec d))"
    using send_empty [OF env, of "response_head_new 400" ?d2 w]
    by (auto simp: bad_request_noted_def response_head_new_def response_ctype_def rs_ctype_def)
  have "response_step env ?room w = Some (Leave (Ok PrDoNothing), d3\<lparr>di_state := CsNone\<rparr>, w)"
    using idle d3 by (simp add: bad_request_noted_def response_step_def set_new_state_def Let_def)
  then have "poll_response env ?room w = Some (Ok PrDoNothing, d3\<lparr>di_state := CsNone\<rparr>, w)" by (simp add: poll_response.simps)
  then have "write_loop env ?d1 w = (case poll_flush env (d3\<lparr>di_state := CsNone\<rparr>) w of
      (Err e, d4, w2) \<Rightarrow> Some (WeStop e, d4, w2) | (Ok _, d4, w2) \<Rightarrow> Some (WeBreak, d4, w2))"
    by (simp add: write_loop.simps [of env ?d1] split: prod.split result.split)
  moreover have "di_error d3 = Some (DeParse e)" "di_messages d3 = []"
    using d3(2) by (simp_all add: same_input_def bad_request_noted_def)
  moreover have "DfWriteDisconnect \<notin> di_flags d3" "DfReadDisconnect \<in> di_flags d3"
    using same_input_flag [OF d3(2), of DfWriteDisconnect] same_input_flag [OF d3(2), of DfReadDisconnect] idle(2)
    by (simp_all add: bad_request_noted_def)
  ultimately show ?thesis using out by (intro exI [of _ "d3\<lparr>di_state := CsNone\<rparr>"]) simp
qed

text \<open>
  Property C18. A malformed request is answered and ends the connection. When a connection that is idle, with its keep-alive
  timer not elapsed, receives a head that cannot be parsed, one poll puts exactly a 400 response with an empty body behind
  the output. If the socket takes it all, the poll returns the parse error; if the socket blocks, the rest stays in the
  buffer of a connection that reads no more and shuts down; otherwise the socket failed.
\<close>

theorem bad_request_answered:
  fixes d :: "('f, 'b, 'm) disp"
  assumes env: "env_ok (de_encode env)" and socket: "socket (de_read env) (de_write env) incoming sent"
    and idle: "di_state d = CsNone" "di_messages d = []" "di_payload d = None" "hc_payload (di_codec d) = None"
      "di_flags d \<inter> {DfShutdown, DfReadDisconnect, DfWriteDisconnect, DfUpgrade} = {}"
      "\<forall>t. di_ka_timer d = Some t \<longrightarrow> de_clock env w < t"
    and rd: "read_available (de_read env) False (di_read_buf d) w = Some (Ok sd, src, w1)"
    and bad: "request_decode (de_lib env) (di_pool d) src = (Err (Fails e), pool', src')"
  defines "output \<equiv> ob_data (di_write_buf d) @ response_text (de_encode env) (de_lib env)
    ((response_head_new 400)\<lparr>rs_version := hc_version (di_codec d)\<rparr>) (hc_version (di_codec d)) SzEmpty (hc_ctype (di_codec d))"
  shows "\<exists>p d' w'. disp_poll env (DpNormal d) w = Some (p, DpNormal d', w') \<and>
    (case p of
       Ready (Err (Failed (DeParse e'))) \<Rightarrow> e' = e \<and> sent w' = sent w1 @ output
     | Pending \<Rightarrow> sent w' @ ob_data (di_write_buf d') = sent w1 @ output \<and> ob_data (di_write_buf d') \<noteq> [] \<and>
         {DfReadDisconnect, DfShutdown} \<subseteq> di_flags d' \<and> di_messages d' = []
     | Ready (Err (Failed (DeIo _))) \<Rightarrow> \<exists>n. sent w' = sent w1 @ take n output
     | _ \<Rightarrow> False) \<and>
    (takes_all (de_write env) sent \<longrightarrow> p = Ready (Err (Failed (DeParse e))))"
proof -
  have fl: "DfShutdown \<notin> di_flags d" "DfWriteDisconnect \<notin> di_flags d" using idle(5) by auto
  have k: "poll_keepalive env d w = (Ok (), d, w)"
    using idle(6) fl by (cases "di_ka_timer d") (auto simp: poll_keepalive_def poll_timer_def)
  note r = bad_request_read [OF idle(1-5) rd bad]
  obtain d3 where wl: "write_loop env (bad_request_noted e pool' src' d) w1 =
      (case poll_flush env d3 w1 of (Err e, d4, w2) \<Rightarrow> Some (WeStop e, d4, w2) | (Ok _, d4, w2) \<Rightarrow> Some (WeBreak, d4, w2))"
    and d3: "di_state d3 = CsNone" "di_messages d3 = []" "di_error d3 = Some (DeParse e)"
      "DfWriteDisconnect \<notin> di_flags d3" "DfReadDisconnect \<in> di_flags d3" "ob_data (di_write_buf d3) = output"
    using bad_request_written [OF env idle(1) fl(2)] unfolding output_def by blast
  obtain q d4 w2 where f: "poll_flush env d3 w1 = (q, d4, w2)" by (metis prod_cases3)
  note flush = flush_conserves [OF socket f]
  have all: "takes_all (de_write env) sent \<Longrightarrow> q = Ok False \<and> ob_data (di_write_buf d4) = []"
    using poll_flush_takes_all [of env sent d3 w1] f by auto
  show ?thesis
  proof (cases q)
    case (Err x)
    then obtain ioe n where "x = Failed (DeIo ioe)" "sent w2 = sent w1 @ take n output" using flush d3(6) by auto
    moreover have "disp_poll env (DpNormal d) w = Some (Ready (Err x), DpNormal d4, w2)"
      using k r wl fl f Err by (simp add: disp_poll.simps [of env "DpNormal d"])
    ultimately show ?thesis using all Err by auto
  next
    case (Ok blocked)
    then obtain b where b: "d4 = d3\<lparr>di_write_buf := b\<rparr>" using flush by auto
    have dp: "disp_poll env (DpNormal d) w = (case poll_decide d4 of
        (Leave p, d5) \<Rightarrow> Some (p, DpNormal d5, w2) | (Again, d5) \<Rightarrow> disp_poll env (DpNormal d5) w2)"
      using k r wl fl f Ok by (simp add: disp_poll.simps [of env "DpNormal d"])
    have out: "sent w2 @ ob_data b = sent w1 @ output" using flush Ok d3(6) b by simp
    show ?thesis
    proof (cases "ob_data b = []")
      case True
      then have "\<exists>d5. poll_decide d4 = (Leave (Ready (Err (Failed (DeParse e)))), d5)"
        using b d3 by (simp add: poll_decide_def Let_def)
      with dp out True show ?thesis by auto
    next
      case False
      then have "poll_decide d4 = (Leave Pending, d4\<lparr>di_flags := insert DfShutdown (di_flags d4)\<rparr>)"
        using b d3 by (simp add: poll_decide_def Let_def)
      then show ?thesis using dp b out d3 False all by auto
    qed
  qed
qed

section \<open>Sending a body\<close>

text \<open>
  A body that has the pieces \<open>ms\<close> left, given as \<open>holds b ms\<close>, and then ends or fails: a poll may be pending as often as it likes,
  and gives the next piece, or the end or the error behind the last one. Nothing is asked of a body that has ended or failed.
\<close>

definition body_gives ::
  "('w, 'f, 'b, 'm) disp_env \<Rightarrow> bool \<Rightarrow> (('b, 'm) response_body \<Rightarrow> bytes list \<Rightarrow> bool) \<Rightarrow> bool" where
  "body_gives env ends holds \<longleftrightarrow>
     (\<forall>b ms w. holds b ms \<longrightarrow>
        (case rb_poll_next (de_body env) (de_boxed env) b w of
           (Pending, b', _) \<Rightarrow> holds b' ms
         | (Ready None, _, _) \<Rightarrow> ms = [] \<and> ends
         | (Ready (Some (Ok m)), b', _) \<Rightarrow> (\<exists>ms'. ms = m # ms' \<and> holds b' ms')
         | (Ready (Some (Err _)), _, _) \<Rightarrow> ms = [] \<and> \<not> ends))"

text \<open>What the transfer encoding makes of pieces before the end.\<close>

fun te_pieces :: "transfer_encoding \<Rightarrow> bytes list \<Rightarrow> transfer_encoding \<times> bytes" where
  "te_pieces te [] = (te, [])"
| "te_pieces te (m # ms) =
     (let (_, te1, o1) = te_encode te m []; (te2, o2) = te_pieces te1 ms in (te2, o1 @ o2))"

text \<open>
  A connection in the middle of sending the body \<open>whole\<close>: of the output \<open>gone\<close> has been flushed, the rest is in the buffer,
  and all of it is what was there \<open>before\<close> and the encoding of the pieces that have been taken; the others are left in the body.
\<close>

definition sends_body ::
  "(('b, 'm) response_body \<Rightarrow> bytes list \<Rightarrow> bool) \<Rightarrow> bytes list \<Rightarrow> bytes \<Rightarrow> transfer_encoding \<Rightarrow> ('f, 'b, 'm) disp \<Rightarrow> bytes \<Rightarrow> bool" where
  "sends_body holds whole before te d gone \<longleftrightarrow>
     (\<exists>b ms1 ms2 enc. di_state d = CsSendPayload b \<and> holds b ms2 \<and> whole = ms1 @ ms2 \<and>
        te_pieces te ms1 = (me_te (hc_encoder (di_codec d)), enc) \<and> gone @ ob_data (di_write_buf d) = before @ enc)"

lemma sends_body_starts:
  "di_state d = CsSendPayload b \<Longrightarrow> holds b whole \<Longrightarrow>
     sends_body holds whole (ob_data (di_write_buf d)) (me_te (hc_encoder (di_codec d))) d []"
  unfolding sends_body_def by (intro exI [of _ b] exI [of _ "[]"] exI [of _ whole]) simp

text \<open>Between two calls the buffer is flushed and the rest of the connection goes on; neither touches the body.\<close>

lemma sends_body_flushed:
  "sends_body holds whole before te d gone \<Longrightarrow> di_state d' = di_state d \<Longrightarrow> hc_encoder (di_codec d') = hc_encoder (di_codec d) \<Longrightarrow>
     ob_data (di_write_buf d) = x @ ob_data (di_write_buf d') \<Longrightarrow> sends_body holds whole before te d' (gone @ x)"
  unfolding sends_body_def by simp

lemma te_encode_append: "te_encode te m buf = (let (r, te', out) = te_encode te m [] in (r, te', buf @ out))"
  by (auto simp: te_encode_def Let_def split: te_kind.split)

lemma te_encode_eof_append: "te_encode_eof te buf = (let (r, te', out) = te_encode_eof te [] in (r, te', buf @ out))"
  by (auto simp: te_encode_eof_def split: te_kind.split)

lemma te_pieces_snoc:
  "te_pieces te (ms @ [m]) =
     (let (te1, o1) = te_pieces te ms; (_, te2, o2) = te_encode te1 m [] in (te2, o1 @ o2))"
  by (induction ms arbitrary: te) (simp_all add: Let_def split: prod.split)

lemma te_body_pieces:
  "te_body te ms buf = (let (te1, o1) = te_pieces te ms; (r, te2, o2) = te_encode_eof te1 [] in (r, te2, buf @ o1 @ o2))"
proof (induction ms arbitrary: te buf)
  case Nil
  show ?case using te_encode_eof_append [of te buf] by simp
next
  case (Cons m ms)
  obtain r te1 o1 where e: "te_encode te m [] = (r, te1, o1)" by (metis prod.collapse)
  show ?case using e Cons [of te1 "buf @ o1"] te_encode_append [of te m buf] by (simp split: prod.split)
qed

lemma te_encode_Ok: "\<exists>b. fst (te_encode te m buf) = Ok b"
  by (auto simp: te_encode_def Let_def split: te_kind.split)


definition with_te :: "transfer_encoding \<Rightarrow> h1_codec \<Rightarrow> h1_codec" where
  "with_te te c = c\<lparr>hc_encoder := (hc_encoder c)\<lparr>me_te := te\<rparr>\<rparr>"

lemma disp_encode_piece:
  assumes "te_encode (me_te (hc_encoder (di_codec d))) m [] = (r, te, out)"
  shows "disp_encode env (Chunk (Some m)) d =
    (Ok (), d\<lparr>di_codec := with_te te (di_codec d), di_write_buf := put_slice (de_encode env) out (di_write_buf d)\<rparr>)"
proof -
  obtain b where "r = Ok b" using te_encode_Ok [of "me_te (hc_encoder (di_codec d))" m "[]"] assms by auto
  with assms show ?thesis by (simp add: disp_encode_def encode_chunk_def with_te_def)
qed

lemma disp_encode_end:
  assumes "te_encode_eof (me_te (hc_encoder (di_codec d))) [] = (r, te, out)"
  shows "disp_encode env (Chunk None) d =
    ((case r of Ok u \<Rightarrow> Ok u | Err e \<Rightarrow> Err (Failed (DeIo e))),
     d\<lparr>di_codec := with_te te (di_codec d), di_write_buf := put_slice (de_encode env) out (di_write_buf d)\<rparr>)"
  using assms by (simp add: disp_encode_def encode_eof_def with_te_def)

lemma body_poll:
  assumes "di_state d = CsSendPayload b" and "length (ob_data (di_write_buf d)) < HW_BUFFER_SIZE"
    and "rb_poll_next (de_body env) (de_boxed env) b w = (p, b', w')"
  shows "poll_response env d w =
    (let d = d\<lparr>di_state := CsSendPayload b'\<rparr>
     in case p of
          Pending \<Rightarrow> Some (Ok PrDoNothing, d, w')
        | Ready (Some (Err _)) \<Rightarrow> Some (Err (Failed DeUnknown), d, w')
        | Ready (Some (Ok m)) \<Rightarrow>
            (let (_, te, out) = te_encode (me_te (hc_encoder (di_codec d))) m []
             in poll_response env
               (d\<lparr>di_codec := with_te te (di_codec d), di_write_buf := put_slice (de_encode env) out (di_write_buf d)\<rparr>) w')
        | Ready None \<Rightarrow>
            (let (r, te, out) = te_encode_eof (me_te (hc_encoder (di_codec d))) [];
                 d = d\<lparr>di_codec := with_te te (di_codec d), di_write_buf := put_slice (de_encode env) out (di_write_buf d)\<rparr>
             in case r of
                  Ok _ \<Rightarrow> poll_response env (d\<lparr>di_state := CsNone\<rparr>) w'
                | Err e \<Rightarrow> Some (Err (Failed (DeIo e)), d, w')))"
  using assms
  by (subst poll_response.simps)
     (auto simp: response_step_def send_payload_step_def Let_def disp_encode_piece disp_encode_end
      split: poll.split option.split result.split prod.split)

lemma body_full:
  "di_state d = CsSendPayload b \<Longrightarrow> \<not> length (ob_data (di_write_buf d)) < HW_BUFFER_SIZE \<Longrightarrow>
     poll_response env d w = Some (Ok PrDrainWriteBuf, d, w)"
  by (simp add: poll_response.simps [of env d] response_step_def send_payload_step_def)

text \<open>What one call of the loop makes of a body, as in the property below.\<close>

definition body_call ::
  "('w, 'f, 'b, 'm) disp_env \<Rightarrow> bool \<Rightarrow> (('b, 'm) response_body \<Rightarrow> bytes list \<Rightarrow> bool) \<Rightarrow> bytes list \<Rightarrow> bytes \<Rightarrow> transfer_encoding \<Rightarrow> bytes \<Rightarrow>
   ('f, 'b, 'm) disp \<Rightarrow> 'w world \<Rightarrow> ('f, 'b, 'm) disp \<Rightarrow> 'w world \<Rightarrow> bool" where
  "body_call env ends holds whole before te gone d w d' w' \<longleftrightarrow>
     sends_body holds whole before te d' gone \<and>
       (poll_response env d w = Some (Ok PrDrainWriteBuf, d', w') \<and> HW_BUFFER_SIZE \<le> length (ob_data (di_write_buf d')) \<or>
        poll_response env d w = Some (Ok PrDoNothing, d', w') \<and>
          (\<exists>b w1 b'. rb_poll_next (de_body env) (de_boxed env) b w1 = (Pending, b', w') \<and> di_state d' = CsSendPayload b')) \<or>
     ends \<and>
       (case te_body te whole [] of
          (Ok _, te', out) \<Rightarrow> gone @ ob_data (di_write_buf d') = before @ out \<and> di_state d' = CsNone \<and>
            poll_response env d w = poll_response env d' w'
        | (Err e, te', out) \<Rightarrow> gone @ ob_data (di_write_buf d') = before @ out \<and>
            poll_response env d w = Some (Err (Failed (DeIo e)), d', w')) \<or>
     ends = False \<and> gone @ ob_data (di_write_buf d') = before @ snd (te_pieces te whole) \<and>
       poll_response env d w = Some (Err (Failed DeUnknown), d', w')"

lemma body_call_waits:
  assumes "holds b ms" "whole = ms1 @ ms" "te_pieces te ms1 = (me_te (hc_encoder (di_codec d)), enc)"
    and "gone @ ob_data (di_write_buf d) = before @ enc" and st: "di_state d = CsSendPayload b0"
  shows "b0 = b \<Longrightarrow> \<not> length (ob_data (di_write_buf d)) < HW_BUFFER_SIZE \<Longrightarrow> body_call env ends holds whole before te gone d w d w"
    and "length (ob_data (di_write_buf d)) < HW_BUFFER_SIZE \<Longrightarrow>
      rb_poll_next (de_body env) (de_boxed env) b0 w = (Pending, b, w') \<Longrightarrow>
      body_call env ends holds whole before te gone d w (d\<lparr>di_state := CsSendPayload b\<rparr>) w'"
proof -
  have s: "sends_body holds whole before te (d\<lparr>di_state := CsSendPayload b\<rparr>) gone"
    unfolding sends_body_def using assms(1-4) by (intro exI [of _ b] exI [of _ ms1] exI [of _ ms] exI [of _ enc]) simp
  moreover have "d\<lparr>di_state := CsSendPayload b\<rparr> = d" if "b0 = b" using st that by (cases d) simp
  ultimately show "b0 = b \<Longrightarrow> \<not> length (ob_data (di_write_buf d)) < HW_BUFFER_SIZE \<Longrightarrow> body_call env ends holds whole before te gone d w d w"
    using body_full [OF st, of env w] by (simp add: body_call_def)
  show "body_call env ends holds whole before te gone d w (d\<lparr>di_state := CsSendPayload b\<rparr>) w'"
    if "length (ob_data (di_write_buf d)) < HW_BUFFER_SIZE" "rb_poll_next (de_body env) (de_boxed env) b0 w = (Pending, b, w')"
    using s body_poll [OF st that] that(2) unfolding body_call_def by auto
qed

lemma body_call_ends:
  assumes "di_state d = CsSendPayload b" and "length (ob_data (di_write_buf d)) < HW_BUFFER_SIZE" and ends
    and "te_pieces te whole = (me_te (hc_encoder (di_codec d)), enc)" and "gone @ ob_data (di_write_buf d) = before @ enc"
    and "rb_poll_next (de_body env) (de_boxed env) b w = (Ready None, b', w')"
  shows "\<exists>d'. di_messages d' = di_messages d \<and> body_call env ends holds whole before te gone d w d' w'"
proof -
  let ?d = "d\<lparr>di_state := CsSendPayload b'\<rparr>"
  obtain r te2 o2 where e: "te_encode_eof (me_te (hc_encoder (di_codec d))) [] = (r, te2, o2)" by (metis prod_cases3)
  let ?d2 = "?d\<lparr>di_codec := with_te te2 (di_codec d), di_write_buf := put_slice (de_encode env) o2 (di_write_buf d)\<rparr>"
  have body: "te_body te whole [] = (r, te2, enc @ o2)" using assms(4) e by (simp add: te_body_pieces)
  have out: "gone @ ob_data (di_write_buf ?d2) = before @ enc @ o2" using assms(5) by simp
  note poll = body_poll [OF assms(1,2,6)]
  show ?thesis
  proof (cases r)
    case (Ok u)
    with e have "poll_response env d w = poll_response env (?d2\<lparr>di_state := CsNone\<rparr>) w'" by (simp add: poll)
    then have "body_call env ends holds whole before te gone d w (?d2\<lparr>di_state := CsNone\<rparr>) w'"
      using assms(3) body out Ok by (simp add: body_call_def)
    then show ?thesis by (intro exI [of _ "?d2\<lparr>di_state := CsNone\<rparr>"]) simp
  next
    case (Err x)
    with e have "poll_response env d w = Some (Err (Failed (DeIo x)), ?d2, w')" by (simp add: poll)
    then have "body_call env ends holds whole before te gone d w ?d2 w'" using assms(3) body out Err by (simp add: body_call_def)
    then show ?thesis by (intro exI [of _ ?d2]) simp
  qed
qed

lemma body_called:
  assumes "body_gives env ends holds"
  shows "di_state d = CsSendPayload b \<Longrightarrow> holds b ms2 \<Longrightarrow> whole = ms1 @ ms2 \<Longrightarrow>
    te_pieces te ms1 = (me_te (hc_encoder (di_codec d)), enc) \<Longrightarrow> gone @ ob_data (di_write_buf d) = before @ enc \<Longrightarrow>
    \<exists>d' w'. di_messages d' = di_messages d \<and> body_call env ends holds whole before te gone d w d' w'"
proof (induction "length ms2" arbitrary: b ms1 ms2 enc d w rule: less_induct)
  case st: less
  obtain p b' w1 where p: "rb_poll_next (de_body env) (de_boxed env) b w = (p, b', w1)" by (metis prod_cases3)
  note gives = assms [unfolded body_gives_def, rule_format, OF st.prems(2), of w, unfolded p prod.case]
  consider (full) "\<not> length (ob_data (di_write_buf d)) < HW_BUFFER_SIZE"
    | (wait) "length (ob_data (di_write_buf d)) < HW_BUFFER_SIZE" "p = Pending"
    | (piece) m where "length (ob_data (di_write_buf d)) < HW_BUFFER_SIZE" "p = Ready (Some (Ok m))"
    | (fail) e where "length (ob_data (di_write_buf d)) < HW_BUFFER_SIZE" "p = Ready (Some (Err e))"
    | (over) "length (ob_data (di_write_buf d)) < HW_BUFFER_SIZE" "p = Ready None"
    by (metis poll.exhaust option.exhaust result.exhaust)
  then show ?case
  proof cases
    case full
    with body_call_waits(1) [where holds = holds and b = b and ms = ms2, OF st.prems(2-5) st.prems(1) refl] show ?thesis by blast
  next
    case wait
    then have "holds b' ms2" using gives by simp
    from body_call_waits(2) [where holds = holds and b = b' and ms = ms2, OF this st.prems(3-5) st.prems(1) wait(1)] p wait(2)
    show ?thesis by (intro exI [of _ "d\<lparr>di_state := CsSendPayload b'\<rparr>"] exI [of _ w1]) simp
  next
    case (piece m)
    then obtain ms' where ms: "ms2 = m # ms'" "holds b' ms'" using gives by auto
    obtain q te1 o1 where q: "te_encode (me_te (hc_encoder (di_codec d))) m [] = (q, te1, o1)" by (metis prod_cases3)
    let ?d2 = "d\<lparr>di_state := CsSendPayload b', di_codec := with_te te1 (di_codec d),
      di_write_buf := put_slice (de_encode env) o1 (di_write_buf d)\<rparr>"
    have pr: "poll_response env d w = poll_response env ?d2 w1"
      using body_poll [OF st.prems(1) piece(1) p] piece(2) q by simp
    have "\<exists>d' w'. di_messages d' = di_messages ?d2 \<and> body_call env ends holds whole before te gone ?d2 w1 d' w'"
      by (rule st.hyps [of ms' ?d2 b' "ms1 @ [m]" "enc @ o1" w1])
         (use st.prems ms q in \<open>simp_all add: te_pieces_snoc with_te_def\<close>)
    then show ?thesis unfolding body_call_def pr by simp
  next
    case (fail e)
    then have "body_call env ends holds whole before te gone d w (d\<lparr>di_state := CsSendPayload b'\<rparr>) w1"
      using gives st.prems body_poll [OF st.prems(1) fail(1) p] by (simp add: body_call_def)
    then show ?thesis by (intro exI [of _ "d\<lparr>di_state := CsSendPayload b'\<rparr>"] exI [of _ w1]) simp
  next
    case over
    then have "ms2 = []" ends using gives by simp_all
    with body_call_ends [OF st.prems(1) over(1), of ends te whole enc gone before env w b' w1 holds] st.prems p over(2)
    show ?thesis by auto
  qed
qed

text \<open>
  Property C16. A response body is written completely and in order, at any pace and of any length. A call of the loop takes
  pieces from the body and appends exactly their encoding to the output, until the buffer is full or the body is
  pending, and then it is still sending what is left. When the body ends, the
  output is the encoding of the whole body with its end, over all calls, and the loop turns to the next request; a body shorter than
  announced ends the connection with the encoder's error, and a failed one with an error behind its last piece.
\<close>

theorem body_sent:
  assumes "body_gives env ends holds" and "sends_body holds whole before te d gone"
  shows "\<exists>d' w'. di_messages d' = di_messages d \<and>
    (sends_body holds whole before te d' gone \<and>
       (poll_response env d w = Some (Ok PrDrainWriteBuf, d', w') \<and> HW_BUFFER_SIZE \<le> length (ob_data (di_write_buf d')) \<or>
        poll_response env d w = Some (Ok PrDoNothing, d', w') \<and>
          (\<exists>b w1 b'. rb_poll_next (de_body env) (de_boxed env) b w1 = (Pending, b', w') \<and> di_state d' = CsSendPayload b')) \<or>
     ends \<and>
       (case te_body te whole [] of
          (Ok _, te', out) \<Rightarrow> gone @ ob_data (di_write_buf d') = before @ out \<and> di_state d' = CsNone \<and>
            poll_response env d w = poll_response env d' w'
        | (Err e, te', out) \<Rightarrow> gone @ ob_data (di_write_buf d') = before @ out \<and>
            poll_response env d w = Some (Err (Failed (DeIo e)), d', w')) \<or>
     ends = False \<and> gone @ ob_data (di_write_buf d') = before @ snd (te_pieces te whole) \<and>
       poll_response env d w = Some (Err (Failed DeUnknown), d', w'))"
proof -
  obtain b ms1 ms2 enc where "di_state d = CsSendPayload b" "holds b ms2" "whole = ms1 @ ms2"
    "te_pieces te ms1 = (me_te (hc_encoder (di_codec d)), enc)" "gone @ ob_data (di_write_buf d) = before @ enc"
    using assms(2) unfolding sends_body_def by blast
  from body_called [OF assms(1) this] show ?thesis unfolding body_call_def .
qed

section \<open>The timer\<close>

text \<open>
  A client that sends nothing is timed out. When the timer elapses before the first request, one poll
  writes exactly a 408 response with an empty body and shuts the socket down.
\<close>

theorem slow_request_timed_out:
  assumes env: "env_ok (de_encode env)" and all: "takes_all (de_write env) sent"
    and d: "di_state d = CsNone" "ob_data (di_write_buf d) = []" "DfStarted \<notin> di_flags d" "DfShutdown \<notin> di_flags d"
      "DfWriteDisconnect \<notin> di_flags d" "di_ka_timer d = Some t"
    and t: "t \<le> de_clock env w" "di_ka_expire d \<le> t"
  shows "\<exists>d' w1. disp_poll env (DpNormal d) w =
      Some (case de_shutdown env w1 of (Ready (Ok u), w2) \<Rightarrow> (Ready (Ok u), DpNormal d', w2)
         | (Ready (Err e), w2) \<Rightarrow> (Ready (Err (Failed (DeIo e))), DpNormal d', w2)
         | (Pending, w2) \<Rightarrow> (Pending, DpNormal d', w2)) \<and>
    DfShutdown \<in> di_flags d' \<and> di_messages d' = di_messages d \<and>
    sent w1 = sent w @ response_text (de_encode env) (de_lib env) ((response_head_new 408)\<lparr>rs_version := hc_version (di_codec d)\<rparr>)
        (hc_version (di_codec d)) SzEmpty (hc_ctype (di_codec d))"
proof -
  obtain d1 where s: "send_response env (response_head_new 408) (RbOther BodyEmpty) d w = (Ok CsNone, d1, w)"
    and same: "same_input d d1"
    and out: "ob_data (di_write_buf d1) = response_text (de_encode env) (de_lib env)
      ((response_head_new 408)\<lparr>rs_version := hc_version (di_codec d)\<rparr>) (hc_version (di_codec d)) SzEmpty (hc_ctype (di_codec d))"
    using send_empty [OF env, of "response_head_new 408" d w] d(2) by (auto simp: response_head_new_def response_ctype_def rs_ctype_def)
  let ?d2 = "d1\<lparr>di_flags := di_flags d1 \<union> {DfStarted, DfShutdown}, di_state := CsNone\<rparr>"
  have k: "poll_keepalive env d w = (Ok (), ?d2, w)"
    using d t s by (simp add: poll_keepalive_def poll_timer_def timer_elapsed_def)
  obtain b w1 where f: "poll_flush env ?d2 w = (Ok False, ?d2\<lparr>di_write_buf := b\<rparr>, w1)" and b: "ob_data b = []"
    and w1: "sent w1 = sent w @ ob_data (di_write_buf d1)"
    using poll_flush_takes_all [OF all, of ?d2 w] by auto
  have wd: "DfWriteDisconnect \<notin> di_flags d1" using same_input_flag [OF same, of DfWriteDisconnect] d(5) by simp
  have "disp_poll env (DpNormal d) w = Some (poll_shut env ?d2 w)"
    using k by (simp add: disp_poll.simps [of env "DpNormal d"])
  also have "poll_shut env ?d2 w = (case de_shutdown env w1 of (Ready (Ok u), w2) \<Rightarrow> (Ready (Ok u), DpNormal (?d2\<lparr>di_write_buf := b\<rparr>), w2)
         | (Ready (Err e), w2) \<Rightarrow> (Ready (Err (Failed (DeIo e))), DpNormal (?d2\<lparr>di_write_buf := b\<rparr>), w2)
         | (Pending, w2) \<Rightarrow> (Pending, DpNormal (?d2\<lparr>di_write_buf := b\<rparr>), w2))"
    using wd f b by (simp add: poll_shut_def split: prod.split poll.split result.split)
  finally show ?thesis
    using w1 out same
    by (intro exI [of _ "?d2\<lparr>di_write_buf := b\<rparr>"] exI [of _ w1]) (simp add: same_input_def)
qed

section \<open>A scene\<close>

text \<open>
  Surroundings in which the hypotheses above hold: requests of one letter, whose target is that letter
  (\<open>C\<close> connects a tunnel, \<open>!\<close> is no request), the stream of the tests, and a service that keeps
  a log, answers the first request after one poll and all others at once.
\<close>

record scene =
  sn_io :: test_buffer
  sn_log :: "bytes list"
  sn_time :: nat

definition letter_lib :: http_lib where
  "letter_lib = demo_http\<lparr>hl_parse_request := (\<lambda>src. case src of
      [] \<Rightarrow> Ok Partial
    | b # _ \<Rightarrow>
        if b = 0x21 then Err HpToken
        else Ok (Complete 1 \<lparr>pr_method = (if b = 0x43 then METHOD_CONNECT else METHOD_GET), pr_path = [b], pr_version = 1,
          pr_headers = []\<rparr>))\<rparr>"

definition on_io :: "(test_buffer \<Rightarrow> 'a \<times> test_buffer) \<Rightarrow> scene world \<Rightarrow> 'a \<times> scene world" where
  "on_io f w = (let (r, io) = f (sn_io (wo_env w)) in (r, w\<lparr>wo_env := (wo_env w)\<lparr>sn_io := io\<rparr>\<rparr>))"

definition scene_env :: "bool \<Rightarrow> (scene, nat, unit, unit) disp_env" where
  "scene_env upgrade = \<lparr>
     de_lib = letter_lib, de_encode = demo_encode_env, de_config = service_config_new KaOs 0 0 False None,
     de_peer_addr = None, de_on_connect = None, de_upgrade = upgrade,
     de_clock = (\<lambda>w. sn_time (wo_env w)), de_now = (\<lambda>w. sn_time (wo_env w)),
     de_read = on_io (tb_poll_read 4096), de_write = (\<lambda>bs. on_io (tb_poll_write bs)), de_shutdown = on_io tb_poll_shutdown,
     de_service_call = (\<lambda>req w. (if rq_uri (fst req) = [0x61] then 1 else 0,
        w\<lparr>wo_env := (wo_env w)\<lparr>sn_log := sn_log (wo_env w) @ [rq_uri (fst req)]\<rparr>\<rparr>)),
     de_service_poll = (\<lambda>f w. if f > 0 then (Pending, f - 1, w) else (Ready (Ok (response_head_new 200, RbOther BodyEmpty)), 0, w)),
     de_expect_call = (\<lambda>req w. (0, w)), de_expect_poll = (\<lambda>f w. (Pending, f, w)),
     de_upgrade_call = (\<lambda>req c rb wb w. (0, w)), de_upgrade_poll = (\<lambda>f w. (Pending, f, w)),
     de_body = unit_body, de_boxed = unit_body \<rparr>"

definition scene_world :: "bytes \<Rightarrow> scene world" where
  "scene_world input = \<lparr>wo_channels = [], wo_env = \<lparr>sn_io = test_buffer_new input, sn_log = [], sn_time = 0\<rparr>\<rparr>"

definition idle :: "(nat, unit, unit) disp" where
  "idle = \<lparr>di_flags = {DfKeepAlive}, di_error = None, di_state = CsNone, di_payload = None, di_messages = [],
     di_ka_expire = 0, di_ka_timer = None, di_read_buf = [], di_write_buf = \<lparr>ob_data = [], ob_spare = []\<rparr>,
     di_codec = codec_new True, di_pool = []\<rparr>"

lemmas scene_defs = scene_env_def scene_world_def idle_def codec_new_def

lemma idle_fields [simp]:
  "di_flags idle = {DfKeepAlive}" "di_error idle = None" "di_state idle = CsNone" "di_payload idle = None"
  "di_messages idle = []" "di_ka_timer idle = None" "di_read_buf idle = []"
  "di_write_buf idle = \<lparr>ob_data = [], ob_spare = []\<rparr>" "di_codec idle = codec_new True" "di_pool idle = []"
  "hc_payload (codec_new ka) = None" "\<not> hc_stream (codec_new ka)"
  by (simp_all add: idle_def codec_new_def)

lemma idle_decoded [simp]: "idle\<lparr>di_codec := codec_new True, di_pool := [], di_read_buf := []\<rparr> = idle"
  "idle\<lparr>di_read_buf := []\<rparr> = idle"
  by (simp_all add: idle_def)

lemma idle_is_new: "disp_new (de_config (scene_env up)) 0 \<lparr>ob_data = [], ob_spare = []\<rparr> [] = DpNormal idle"
  by (simp add: disp_new_def disp_with_timeout_def idle_def scene_env_def service_config_new_def keep_alive_timer_def)

lemma scene_socket:
  "socket (de_read (scene_env up)) (de_write (scene_env up)) (\<lambda>w. tb_read_buf (sn_io (wo_env w))) (\<lambda>w. tb_write_buf (sn_io (wo_env w)))"
  by unfold_locales
     (auto simp: scene_env_def on_io_def split: prod.splits
        dest: test_buffer.reads test_buffer.reads_not test_buffer.writes test_buffer.writes_not)

lemma scene_takes_all: "takes_all (de_write (scene_env up)) (\<lambda>w. tb_write_buf (sn_io (wo_env w)))"
  by (simp add: takes_all_def scene_env_def on_io_def tb_poll_write_def tb_write_def)

lemma letter_heads: "heads_nonempty letter_lib"
  by (auto simp: heads_nonempty_def letter_lib_def split: list.splits if_splits)

text \<open>The head of a one-letter request, taken from an empty pool.\<close>

definition letter_head :: "byte \<Rightarrow> request_head" where
  "letter_head b = request_head_default\<lparr>rq_method := (if b = 0x43 then METHOD_CONNECT else METHOD_GET), rq_uri := [b]\<rparr>"

lemma letter_decode:
  "b \<noteq> 0x21 \<Longrightarrow> length src < 1000 \<Longrightarrow> request_decode letter_lib [] (b # src) =
     (Ok (Some (letter_head b, if b = 0x43 then PtStream pd_eof else PtNone)), [], src)"
  by (simp add: request_decode_def letter_lib_def demo_http_def request_finish_def pool_get_message_def
      request_head_default_def rq_set_headers_def header_index_record_def MAX_HEADERS_def scan_init_def payload_length_of_def
      request_payload_type_def rq_apply_def version_of_def letter_head_def METHOD_CONNECT_def METHOD_GET_def
      MAX_BUFFER_SIZE_def)

lemma letter_wait: "request_decode letter_lib [] [] = (Ok None, [], [])"
  by (simp add: request_decode_def letter_lib_def)

lemma letter_bad: "request_decode letter_lib [] (0x21 # src) = (Err (Fails PeHeader), [], 0x21 # src)"
  by (simp add: request_decode_def letter_lib_def)

lemma letter_fill: "fill_head (scene_env up) (letter_head b) = letter_head b"
  by (simp add: fill_head_def scene_env_def letter_head_def request_head_default_def)

lemma letter_answered:
  "b \<noteq> 0x61 \<Longrightarrow> answers_empty (scene_env up) (letter_head b, p) w (response_head_new 200)
     (w\<lparr>wo_env := (wo_env w)\<lparr>sn_log := sn_log (wo_env w) @ [[b]]\<rparr>\<rparr>)"
  by (simp add: answers_empty_def scene_env_def letter_head_def request_head_default_def rq_expect_def response_head_new_def)

lemma poll_request_terminates_witness:
  "\<exists>r d' w'. poll_request (scene_env False) (idle\<lparr>di_read_buf := [0x61, 0x62]\<rparr>) (scene_world []) = Some (r, d', w')"
  by (rule poll_request_terminates) (simp add: scene_env_def letter_heads)

lemma no_internal_error_witness:
  "\<exists>r dp' w'. disp_poll (scene_env False) (DpNormal idle) (scene_world []) = Some (r, dp', w') \<and>
     r \<noteq> Ready (Err (Failed DeInternalError))"
proof -
  let ?e = "scene_env False" and ?w = "scene_world []"
  have k: "poll_keepalive ?e idle ?w = (Ok (), idle, ?w)" by (simp add: poll_keepalive_def)
  have lib: "de_lib ?e = letter_lib" by (simp add: scene_env_def)
  have s: "request_step ?e False idle ?w = (Leave (Ok ()), False, idle, ?w)"
    using letter_wait lib by (simp add: request_step_def codec_decode_def)
  have q: "poll_request ?e idle ?w = Some (Ok False, idle, ?w)"
    using s by (simp add: poll_request_def can_read_def request_loop.simps [of _ _ idle] MAX_PIPELINED_MESSAGES_def)
  have "read_available (de_read ?e) False [] ?w = Some (Ok None, [], ?w)"
    by (simp add: read_available.simps scene_env_def scene_world_def on_io_def tb_poll_read_def tb_read_def test_buffer_new_def)
  then have r: "poll_read ?e idle ?w = Some (Ok (), idle, ?w)"
    using q by (simp add: poll_read_def)
  let ?d = "idle\<lparr>di_write_buf := make_room (de_encode ?e) (di_write_buf idle)\<rparr>"
  have "poll_response ?e ?d ?w = Some (Ok PrDoNothing, ?d, ?w)"
    by (simp add: poll_response.simps response_step_def no_new_state_def)
  then have l: "write_loop ?e idle ?w = Some (WeBreak, ?d, ?w)"
    by (simp add: write_loop.simps [of _ idle] poll_flush_def)
  have "poll_decide ?d = (Leave Pending, ?d)" by (simp add: poll_decide_def)
  with k r l have p: "disp_poll ?e (DpNormal idle) ?w = Some (Pending, DpNormal ?d, ?w)"
    by (simp add: disp_poll.simps [of _ "DpNormal idle"])
  have "conn_reach ?e (DpNormal idle)"
    using conn_reach.start [of ?e 0 True "[]" "\<lparr>ob_data = [], ob_spare = []\<rparr>" None "[]"] idle_is_new [of False]
    by (simp add: disp_new_def scene_env_def service_config_new_def)
  from no_internal_error [OF this _ p] p show ?thesis by (auto simp: scene_env_def)
qed


lemma flush_conserves_witness:
  "\<exists>d' w'. poll_flush (scene_env False) (idle\<lparr>di_write_buf := \<lparr>ob_data = [1, 2], ob_spare = []\<rparr>\<rparr>) (scene_world []) = (Ok False, d', w') \<and>
     tb_write_buf (sn_io (wo_env w')) = [1, 2]"
proof -
  let ?d = "idle\<lparr>di_write_buf := \<lparr>ob_data = [1, 2], ob_spare = []\<rparr>\<rparr>"
  obtain b w' where f: "poll_flush (scene_env False) ?d (scene_world []) = (Ok False, ?d\<lparr>di_write_buf := b\<rparr>, w')"
    using poll_flush_takes_all [OF scene_takes_all] by blast
  from flush_conserves [OF scene_socket f] f show ?thesis by (auto simp: scene_world_def test_buffer_new_def)
qed

abbreviation one_channel :: "scene world" where
  "one_channel \<equiv> (scene_world [])\<lparr>wo_channels := [None]\<rparr>"

lemma body_delivered_witness:
  "\<exists>inn'. request_loop (scene_env False) False (decoding (idle\<lparr>di_payload := Some 0\<rparr>) \<lparr>pd_kind = KLength 2\<rparr> [104, 105, 71])
       (feeding 0 (inner_new False) one_channel) =
     request_loop (scene_env False) True (idle\<lparr>di_codec := (codec_new True)\<lparr>hc_payload := None\<rparr>, di_read_buf := [71],
       di_flags := {DfStarted, DfKeepAlive}, di_payload := None\<rparr>) (feeding 0 inn' one_channel) \<and> concat (in_items inn') = [104, 105] \<and> in_eof inn'"
proof -
  have "drain \<lparr>pd_kind = KLength 2\<rparr> [104, 105, 71] = ([104, 105], DrainEof [71])" by (simp add: drain_length)
  from body_delivered [of "idle\<lparr>di_payload := Some 0\<rparr>" 0 one_channel, OF _ _ this, of "scene_env False" False "inner_new False"]
  show ?thesis by (auto simp: inner_new_def)
qed

lemma malformed_body_disconnects_witness:
  "\<exists>inn' u' d'. request_loop (scene_env False) False (decoding (idle\<lparr>di_payload := Some 0\<rparr>) pd_chunked [0x78])
       (feeding 0 (inner_new False) one_channel) = Some (Ok (), u', d', feeding 0 inn' one_channel) \<and>
     di_messages d' = [] \<and> in_err inn' = Some (PlIncomplete None)"
proof -
  have "\<exists>e rest. drain pd_chunked [0x78] = ([], DrainErr e rest)"
    by (simp add: pd_chunked_def drain.simps [of "\<lparr>pd_kind = KChunked ChSize 0\<rparr>"] payload_decode_def decode_chunked.simps chunked_step_def invalid_def)
  then obtain e rest where "drain pd_chunked [0x78] = ([], DrainErr e rest)" by blast
  from malformed_body_disconnects [of "idle\<lparr>di_payload := Some 0\<rparr>" 0 one_channel, OF _ _ this, of "scene_env False" False "inner_new False"]
  show ?thesis by fastforce
qed

lemma expect_queue_hangs_witness:
  "poll_response (scene_env False) (idle\<lparr>di_state := CsExpectCall 0, di_messages := [DmItem (letter_head 0x62, PayNone)]\<rparr>) (scene_world []) = None"
  by (rule expect_queue_hangs [where fut = 0]) (simp_all add: scene_env_def)

lemma queued_request_stalls_witness:
  "\<exists>d' w'. poll_response (scene_env False) (idle\<lparr>di_messages := [DmItem (letter_head 0x62, PayNone), DmItem (letter_head 0x63, PayNone)]\<rparr>)
     (scene_world []) = Some (Ok PrDoNothing, d', w') \<and> di_messages d' = [DmItem (letter_head 0x63, PayNone)]"
proof -
  have env: "env_ok (de_encode (scene_env False))" by (simp add: scene_env_def demo_encode_env_ok)
  from queued_request_stalls [OF env _ _ letter_answered [where b = "0x62" and up = False and p = PayNone and w = "scene_world []"],
      of "idle\<lparr>di_messages := [DmItem (letter_head 0x62, PayNone), DmItem (letter_head 0x63, PayNone)]\<rparr>"
         "[DmItem (letter_head 0x63, PayNone)]"]
  show ?thesis by auto
qed

lemma queued_request_overtaken_witness:
  "\<exists>d1 d2 w1 w2. poll_response (scene_env False)
       (idle\<lparr>di_messages := [DmItem (letter_head 0x62, PayNone), DmItem (letter_head 0x63, PayNone)]\<rparr>) (scene_world []) = Some (Ok PrDoNothing, d1, w1) \<and>
     request_step (scene_env False) False (d1\<lparr>di_read_buf := [0x64]\<rparr>) w1 = (Again, True, d2, w2) \<and>
     di_messages d2 = [DmItem (letter_head 0x63, PayNone)] \<and> sn_log (wo_env w2) = [[0x62], [0x64]]"
proof -
  have env: "env_ok (de_encode (scene_env False))" by (simp add: scene_env_def demo_encode_env_ok)
  let ?d = "idle\<lparr>di_messages := [DmItem (letter_head 0x62, PayNone), DmItem (letter_head 0x63, PayNone)]\<rparr>"
  let ?w1 = "(scene_world [])\<lparr>wo_env := (wo_env (scene_world []))\<lparr>sn_log := [[0x62]]\<rparr>\<rparr>"
  have a: "answers_empty (scene_env False) (letter_head 0x62, PayNone) (scene_world []) (response_head_new 200) ?w1"
    using letter_answered [where b = "0x62" and up = False and p = PayNone and w = "scene_world []"] by (simp add: scene_world_def)
  have dec: "request_decode (de_lib (scene_env False)) (di_pool ?d) [0x64] = (Ok (Some (letter_head 0x64, PtNone)), [], [])"
    using letter_decode [where b = "0x64" and src = "[]"] by (simp add: scene_env_def)
  have b: "answers_empty (scene_env False) (fill_head (scene_env False) (letter_head 0x64), PayNone) ?w1 (response_head_new 200)
      (?w1\<lparr>wo_env := (wo_env ?w1)\<lparr>sn_log := [[0x62], [0x64]]\<rparr>\<rparr>)"
    using letter_answered [where b = "0x64" and up = False and p = PayNone and w = ?w1] by (simp add: letter_fill)
  from queued_request_overtaken [OF env _ _ a _ _ dec b, of "[DmItem (letter_head 0x63, PayNone)]" False]
  show ?thesis by fastforce
qed

lemma pipelined_upgrade_corrupted_witness:
  "\<exists>d1 d2. request_loop (scene_env True) False (idle\<lparr>di_read_buf := [0x43, 7, 8]\<rparr>) (scene_world []) = Some (Ok (), True, d1, scene_world []) \<and>
     request_loop (scene_env True) False d1 (scene_world []) = Some (Ok (), True, d2, scene_world []) \<and>
     di_messages d2 = [DmUpgrade (letter_head 0x43, PayNone), DmError (response_head_new 500)] \<and> di_read_buf d2 = []"
proof -
  have dec: "request_decode (de_lib (scene_env True)) (di_pool idle) [0x43, 7, 8] = (Ok (Some (letter_head 0x43, PtStream pd_eof)), [], [7, 8])"
    using letter_decode [where b = "0x43" and src = "[7, 8]"] by (simp add: scene_env_def)
  have body: "payload_decode pd_eof [7, 8] = (Ok (Some (ItemChunk [7, 8])), pd_eof, [])"
    by (simp add: payload_decode_def pd_eof_def)
  have up: "de_upgrade (scene_env True)" by (simp add: scene_env_def)
  from pipelined_upgrade_corrupted [OF up _ _ dec body, of False "scene_world []"] obtain d1 d2 where
    "request_loop (scene_env True) False (idle\<lparr>di_read_buf := [0x43, 7, 8]\<rparr>) (scene_world []) = Some (Ok (), True, d1, scene_world [])"
    "request_loop (scene_env True) False d1 (scene_world []) = Some (Ok (), True, d2, scene_world [])"
    "di_messages d2 = [DmUpgrade (letter_head 0x43, PayNone), DmError (response_head_new 500)]" "di_read_buf d2 = []"
    by (auto simp: letter_fill)
  then show ?thesis by blast
qed

lemma requests_queued_in_order_witness:
  "\<exists>u' d'. request_loop (scene_env False) False (idle\<lparr>di_state := CsServiceCall 1, di_read_buf := replicate 20 0x62\<rparr>) (scene_world []) =
       Some (Ok (), u', d', scene_world []) \<and> length (di_messages d') = 20"
proof -
  have "heads_in letter_lib [] (replicate n 0x62) (replicate n (letter_head 0x62)) [] []"
    if "n < 1000" for n using that
  proof (induction n)
    case (Suc n)
    with letter_decode [where b = "0x62" and src = "replicate n 0x62"] show ?case by (auto intro: heads_in.more)
  qed (simp add: heads_in.stop letter_wait)
  from this [of 20] requests_queued_in_order [of "scene_env False" "idle\<lparr>di_state := CsServiceCall 1, di_read_buf := replicate 20 0x62\<rparr>"
      "replicate 20 (letter_head 0x62)" "[]" "[]" False "scene_world []"]
  show ?thesis by (fastforce simp: scene_env_def)
qed

lemma bad_request_answered_witness:
  "\<exists>d' w'. disp_poll (scene_env False) (DpNormal (idle\<lparr>di_ka_timer := Some 5\<rparr>)) (scene_world [0x21]) =
       Some (Ready (Err (Failed (DeParse PeHeader))), DpNormal d', w') \<and>
     take 13 (tb_write_buf (sn_io (wo_env w'))) = bstr ''HTTP/1.1 400 ''"
proof -
  let ?e = "scene_env False" and ?d = "idle\<lparr>di_ka_timer := Some 5\<rparr>"
  let ?w = "\<lparr>wo_channels = [], wo_env = \<lparr>sn_io = \<lparr>tb_read_buf = [], tb_write_buf = [], tb_err = None\<rparr>, sn_log = [], sn_time = 0\<rparr>\<rparr>"
  let ?out = "response_text (de_encode ?e) (de_lib ?e) ((response_head_new 400)\<lparr>rs_version := HTTP_11\<rparr>) HTTP_11 SzEmpty CtClose"
  have env: "env_ok (de_encode ?e)" by (simp add: scene_env_def demo_encode_env_ok)
  have rd: "read_available (de_read ?e) False (di_read_buf ?d) (scene_world [0x21]) = Some (Ok (Some False), [0x21], ?w)"
    by (simp add: read_available.simps scene_env_def scene_world_def on_io_def tb_poll_read_def tb_read_def test_buffer_new_def)
  have bad: "request_decode (de_lib ?e) (di_pool ?d) [0x21] = (Err (Fails PeHeader), [], [0x21])"
    using letter_bad [of "[]"] by (simp add: scene_env_def)
  have clock: "\<forall>t. di_ka_timer ?d = Some t \<longrightarrow> de_clock ?e (scene_world [0x21]) < t"
    by (simp add: scene_env_def scene_world_def)
  from bad_request_answered [OF env scene_socket, of ?d, OF _ _ _ _ _ clock rd bad] scene_takes_all [of False] obtain d' w' where
    p: "disp_poll ?e (DpNormal ?d) (scene_world [0x21]) = Some (Ready (Err (Failed (DeParse PeHeader))), DpNormal d', w')"
    and out: "tb_write_buf (sn_io (wo_env w')) = ?out"
    by (fastforce simp: codec_new_def)
  from out have "take 13 (tb_write_buf (sn_io (wo_env w'))) = bstr ''HTTP/1.1 400 ''"
    by (simp add: response_text_def response_head_new_def dec.simps digit_def)
  with p show ?thesis by blast
qed

text \<open>A body of bytes gives them in one piece.\<close>

definition bytes_left :: "('b, 'm) response_body \<Rightarrow> bytes list \<Rightarrow> bool" where
  "bytes_left b ms \<longleftrightarrow> (\<exists>bs. b = RbOther (BodyBytes bs) \<and> ms = (if bs = [] then [] else [bs]))"

lemma bytes_left_gives: "body_gives env True bytes_left"
  by (auto simp: body_gives_def bytes_left_def)

text \<open>The first byte of the output has been flushed before the body, two bytes, is polled.\<close>

definition mid_body :: "(nat, unit, unit) disp" where
  "mid_body = idle\<lparr>di_state := CsSendPayload (RbOther (BodyBytes [104, 105])), di_codec := with_te (te_length 2) (codec_new True)\<rparr>"

lemma body_sent_witness:
  "\<exists>d' w'. di_messages d' = [] \<and>
    (sends_body bytes_left [[104, 105]] [103] (te_length 2) d' [103] \<and>
       (poll_response (scene_env False) mid_body (scene_world []) = Some (Ok PrDrainWriteBuf, d', w') \<and>
          HW_BUFFER_SIZE \<le> length (ob_data (di_write_buf d')) \<or>
        poll_response (scene_env False) mid_body (scene_world []) = Some (Ok PrDoNothing, d', w')) \<or>
     ob_data (di_write_buf d') = [104, 105] \<and> di_state d' = CsNone \<and>
       poll_response (scene_env False) mid_body (scene_world []) = poll_response (scene_env False) d' w')"
proof -
  let ?d0 = "mid_body\<lparr>di_write_buf := \<lparr>ob_data = [103], ob_spare = []\<rparr>\<rparr>"
  have "sends_body bytes_left [[104, 105]] [103] (te_length 2) ?d0 []"
    using sends_body_starts [of ?d0 "RbOther (BodyBytes [104, 105])" bytes_left "[[104, 105]]"]
    by (simp add: mid_body_def bytes_left_def with_te_def)
  then have "sends_body bytes_left [[104, 105]] [103] (te_length 2) mid_body ([] @ [103])"
    by (rule sends_body_flushed) (simp_all add: mid_body_def idle_def)
  then have s: "sends_body bytes_left [[104, 105]] [103] (te_length 2) mid_body [103]" by simp
  have body: "te_body (te_length 2) [[104, 105]] [] = (Ok (), \<lparr>te_kind = TeLength 0\<rparr>, [104, 105])"
    by (simp add: te_length_def te_encode_def te_encode_eof_def Let_def)
  have "di_messages mid_body = []" by (simp add: mid_body_def idle_def)
  with body_sent [OF bytes_left_gives s, of "scene_env False" "scene_world []"] show ?thesis
    unfolding body prod.case result.case by auto
qed

lemma slow_request_timed_out_witness:
  "\<exists>d' w'. disp_poll (scene_env False) (DpNormal (idle\<lparr>di_ka_timer := Some 0\<rparr>)) (scene_world []) = Some (Ready (Ok ()), DpNormal d', w') \<and>
     DfShutdown \<in> di_flags d'"
proof -
  have env: "env_ok (de_encode (scene_env False))" by (simp add: scene_env_def demo_encode_env_ok)
  from slow_request_timed_out [OF env scene_takes_all, of "idle\<lparr>di_ka_timer := Some 0\<rparr>" 0 "scene_world []"]
  show ?thesis by (auto simp: idle_def scene_env_def on_io_def tb_poll_shutdown_def)
qed

end
