(* ===== verification/Client_Pool.thy ===== *)
theory Client_Pool
  imports H1_Payload "HOL-Library.Multiset" "HOL-Library.AList"
begin

text \<open>
  The connection pool of the HTTP client (\<open>client/pool.rs\<close>): a limit on the connections that are in use, the idle
  connections by authority, and the requests that wait for a connection. The futures of the pool
  (a request that connects, a request that waits, a connection opened for a waiter, a connection
  lent to a request) are tasks; dropping one runs the code of its guard.
\<close>

section \<open>Data\<close>

type_synonym key = string
type_synonym token = nat

datatype protocol = Http1 | Http2

datatype 'io connection = ConnH1 'io | ConnH2 'io

record 'io available_connection =
  ac_io :: "'io connection"
  ac_used :: nat
  ac_created :: nat

datatype 'io acquire = AcAcquired "'io connection" nat | AcAvailable | AcNotAvailable

text \<open>
  \<open>Slab\<close> is a map from tokens that are in use; which free token it chooses is a parameter. \<open>IndexSet\<close>
  is the list of its elements in their order. A waiter is stored with the identity of the channel
  through which it is answered, and \<open>None\<close> once that was taken. Connections handed to
  \<open>CloseConnection\<close> are recorded.
\<close>

record 'io pool =
  po_lifetime :: nat
  po_keep_alive :: nat
  po_disconnect :: "nat option"
  po_limit :: nat
  po_acquired :: nat
  po_available :: "(key \<times> 'io available_connection list) list"
  po_waiters :: "(token \<times> nat option) list"
  po_queue :: "(key \<times> token) list"
  po_waker :: waker
  po_closing :: "'io list"

definition pool_new :: "nat \<Rightarrow> nat \<Rightarrow> nat option \<Rightarrow> nat \<Rightarrow> 'io pool" where
  "pool_new lifetime keep_alive disconnect limit =
     \<lparr>po_lifetime = lifetime, po_keep_alive = keep_alive, po_disconnect = disconnect, po_limit = limit,
      po_acquired = 0, po_available = [], po_waiters = [], po_queue = [], po_waker = waker_new, po_closing = []\<rparr>"

section \<open>Operations\<close>

definition pool_reserve :: "'io pool \<Rightarrow> 'io pool" where
  "pool_reserve p = p\<lparr>po_acquired := po_acquired p + 1\<rparr>"

text \<open>\<open>self.acquired -= 1\<close> panics in a debug build when nothing is acquired.\<close>

definition conn_release :: "'io pool \<Rightarrow> 'io pool exec" where
  "conn_release p = (if po_acquired p = 0 then Panic else Return (p\<lparr>po_acquired := po_acquired p - 1\<rparr>))"

text \<open>\<open>Slab::remove\<close> panics on a token that is not in use; the set keeps its order.\<close>

definition pool_release_waiter :: "key \<Rightarrow> token \<Rightarrow> 'io pool \<Rightarrow> 'io pool exec" where
  "pool_release_waiter key t p =
     (if map_of (po_waiters p) t = None then Panic
      else Return (p\<lparr>po_waiters := AList.delete t (po_waiters p), po_queue := remove1 (key, t) (po_queue p)\<rparr>))"

definition pool_check :: "'io pool \<Rightarrow> 'io pool" where
  "pool_check p =
     (if po_queue p \<noteq> [] \<and> po_acquired p < po_limit p then p\<lparr>po_waker := waker_wake (po_waker p)\<rparr> else p)"

text \<open>The waiter's channel is \<open>ch\<close>; inserting it in the set asserts that it is not there.\<close>

definition pool_wait_for :: "token \<Rightarrow> nat \<Rightarrow> key \<Rightarrow> 'io pool \<Rightarrow> 'io pool exec" where
  "pool_wait_for t ch key p =
     (if (key, t) \<in> set (po_queue p) then Panic
      else Return (p\<lparr>po_waiters := (t, Some ch) # po_waiters p, po_queue := po_queue p @ [(key, t)]\<rparr>))"

text \<open>
  What a read of two bytes says of an idle connection: nothing is there (it is usable), bytes are
  there, or it ended or failed.
\<close>

datatype probe = PbPending | PbData | PbGone

definition close_conn :: "nat option \<Rightarrow> 'io connection \<Rightarrow> 'io list" where
  "close_conn timeout io = (case (timeout, io) of (Some t, ConnH1 s) \<Rightarrow> [s] | _ \<Rightarrow> [])"

text \<open>The loop over the idle connections, the last one first: what was found, what is left, what is closed.\<close>

fun scan_conns ::
  "nat \<Rightarrow> nat \<Rightarrow> nat option \<Rightarrow> nat \<Rightarrow> ('io \<Rightarrow> probe) \<Rightarrow> 'io available_connection list \<Rightarrow>
   ('io connection \<times> nat) option \<times> 'io available_connection list \<times> 'io list" where
  "scan_conns lifetime keep_alive timeout now probe [] = (None, [], [])"
| "scan_conns lifetime keep_alive timeout now probe (c # cs) =
     (if now - ac_used c > keep_alive \<or> now - ac_created c > lifetime then
        (let (found, rest, closing) = scan_conns lifetime keep_alive timeout now probe cs
         in (found, rest, close_conn timeout (ac_io c) @ closing))
      else
        (case ac_io c of
           ConnH2 s \<Rightarrow> (Some (ConnH2 s, ac_created c), cs, [])
         | ConnH1 s \<Rightarrow>
             (case probe s of
                PbPending \<Rightarrow> (Some (ConnH1 s, ac_created c), cs, [])
              | PbData \<Rightarrow>
                  (let (found, rest, closing) = scan_conns lifetime keep_alive timeout now probe cs
                   in (found, rest, close_conn timeout (ConnH1 s) @ closing))
              | PbGone \<Rightarrow> scan_conns lifetime keep_alive timeout now probe cs)))"

definition pool_acquire :: "nat \<Rightarrow> ('io \<Rightarrow> probe) \<Rightarrow> key \<Rightarrow> 'io pool \<Rightarrow> 'io acquire \<times> 'io pool" where
  "pool_acquire now probe key p =
     (if po_limit p > 0 \<and> po_acquired p \<ge> po_limit p then (AcNotAvailable, p)
      else
        (let p = pool_reserve p
         in case map_of (po_available p) key of
              None \<Rightarrow> (AcAvailable, p)
            | Some conns \<Rightarrow>
                (let (found, rest, closing) =
                   scan_conns (po_lifetime p) (po_keep_alive p) (po_disconnect p) now probe (rev conns);
                     p = p\<lparr>po_available := AList.update key (rev rest) (po_available p), po_closing := po_closing p @ closing\<rparr>
                 in case found of
                      Some (io, created) \<Rightarrow> (AcAcquired io created, p)
                    | None \<Rightarrow> (AcAvailable, p))))"

definition pool_release_conn :: "nat \<Rightarrow> key \<Rightarrow> 'io connection \<Rightarrow> nat \<Rightarrow> 'io pool \<Rightarrow> 'io pool exec" where
  "pool_release_conn now key io created p =
     (case conn_release p of
        Panic \<Rightarrow> Panic
      | Return p \<Rightarrow>
          (let conns = (case map_of (po_available p) key of Some cs \<Rightarrow> cs | None \<Rightarrow> []);
               conn = \<lparr>ac_io = io, ac_used = now, ac_created = created\<rparr>
           in Return (pool_check (p\<lparr>po_available := AList.update key (conns @ [conn]) (po_available p)\<rparr>))))"

definition pool_release_close :: "'io connection \<Rightarrow> 'io pool \<Rightarrow> 'io pool exec" where
  "pool_release_close io p =
     (case conn_release p of
        Panic \<Rightarrow> Panic
      | Return p \<Rightarrow> Return (pool_check (p\<lparr>po_closing := po_closing p @ close_conn (po_disconnect p) io\<rparr>)))"

section \<open>The tasks\<close>

text \<open>
  \<open>TkConnect\<close>: a request whose slot is reserved and that waits for the connector, without a guard.
  \<open>TkHandshake\<close>: the same with an \<open>OpenGuard\<close>, during the HTTP/2 handshake. \<open>TkWait\<close>: a request with
  a \<open>WaiterGuard\<close> that waits for its channel; \<open>TkReady\<close> and \<open>TkFailed\<close>: the same when a connection or
  an error is in the channel. \<open>TkOpen\<close> and \<open>TkOpenH2\<close>: an \<open>OpenWaitingConnection\<close>, before and during
  the handshake; the token tells whose channel it has. \<open>TkLease\<close>: a connection with its \<open>Acquired\<close>
  guard in the hands of a request.
\<close>

datatype 'io task =
    TkConnect key
  | TkHandshake key 'io
  | TkWait key token nat
  | TkReady key token "'io connection" nat
  | TkFailed key token
  | TkOpen key token nat
  | TkOpenH2 key token nat 'io
  | TkLease key "'io connection" nat

text \<open>The tasks that hold one of the slots that \<open>acquired\<close> counts, and those that own a token.\<close>

fun holds_slot :: "'io task \<Rightarrow> bool" where
  "holds_slot (TkWait k t c) = False"
| "holds_slot (TkFailed k t) = False"
| "holds_slot _ = True"

fun token_of :: "'io task \<Rightarrow> token option" where
  "token_of (TkWait k t c) = Some t"
| "token_of (TkReady k t io n) = Some t"
| "token_of (TkFailed k t) = Some t"
| "token_of _ = None"

record 'io system =
  sy_pool :: "'io pool"
  sy_tasks :: "'io task multiset"
  sy_support :: nat
  sy_next :: nat

definition system_new :: "nat \<Rightarrow> nat \<Rightarrow> nat option \<Rightarrow> nat \<Rightarrow> 'io system" where
  "system_new lifetime keep_alive disconnect limit =
     \<lparr>sy_pool = pool_new lifetime keep_alive disconnect limit, sy_tasks = {#}, sy_support = 0, sy_next = 0\<rparr>"

definition add_task :: "'io task \<Rightarrow> 'io system \<Rightarrow> 'io system" where
  "add_task t s = s\<lparr>sy_tasks := add_mset t (sy_tasks s)\<rparr>"

definition end_task :: "'io task \<Rightarrow> 'io system \<Rightarrow> 'io system" where
  "end_task t s = s\<lparr>sy_tasks := sy_tasks s - {#t#}\<rparr>"

text \<open>An operation on the pool within the system.\<close>

definition on_pool :: "'io pool exec \<Rightarrow> 'io system \<Rightarrow> 'io system exec" where
  "on_pool r s = (case r of Panic \<Rightarrow> Panic | Return p \<Rightarrow> Return (s\<lparr>sy_pool := p\<rparr>))"

definition release_and_check :: "'io system \<Rightarrow> 'io system exec" where
  "release_and_check s =
     on_pool (case conn_release (sy_pool s) of Panic \<Rightarrow> Panic | Return p \<Rightarrow> Return (pool_check p)) s"

definition drop_waiter :: "key \<Rightarrow> token \<Rightarrow> 'io system \<Rightarrow> 'io system exec" where
  "drop_waiter k t s =
     on_pool (case pool_release_waiter k t (sy_pool s) of Panic \<Rightarrow> Panic | Return p \<Rightarrow> Return (pool_check p)) s"

text \<open>
  A request: it spawns a support future and acquires. \<open>t\<close> is the token that the slab chooses if the
  request has to wait.
\<close>

definition sys_call :: "nat \<Rightarrow> ('io \<Rightarrow> probe) \<Rightarrow> token \<Rightarrow> key option \<Rightarrow> 'io system \<Rightarrow> 'io system exec" where
  "sys_call now probe t authority s =
     (let s = s\<lparr>sy_support := sy_support s + 1\<rparr>
      in case authority of
           None \<Rightarrow> Return s
         | Some key \<Rightarrow>
             (case pool_acquire now probe key (sy_pool s) of
                (AcAcquired io created, p) \<Rightarrow> Return (add_task (TkLease key io created) (s\<lparr>sy_pool := p\<rparr>))
              | (AcAvailable, p) \<Rightarrow> Return (add_task (TkConnect key) (s\<lparr>sy_pool := p\<rparr>))
              | (AcNotAvailable, p) \<Rightarrow>
                  on_pool (pool_wait_for t (sy_next s) key p)
                    (add_task (TkWait key t (sy_next s)) (s\<lparr>sy_next := sy_next s + 1\<rparr>))))"

text \<open>\<open>IndexSet::swap_remove_index(0)\<close>: the last element takes the place of the first.\<close>

definition swap_remove_first :: "'a list \<Rightarrow> 'a list" where
  "swap_remove_first xs = (if length xs \<le> 1 then [] else last xs # butlast (tl xs))"

definition take_waiter :: "token \<Rightarrow> 'io pool \<Rightarrow> 'io pool" where
  "take_waiter t p = p\<lparr>po_waiters := AList.update t None (po_waiters p), po_queue := swap_remove_first (po_queue p)\<rparr>"

text \<open>
  One iteration of the loop of the support future. \<open>SuStop\<close> leaves the loop. A waiter whose channel
  was taken is passed over by \<open>continue\<close>, which then looks at the same waiter again. Sending to a
  waiter that is gone gives the connection back, and dropping its guard borrows the pool a second
  time, which panics.
\<close>

datatype 'io support = SuAgain "'io system" | SuStop "'io system" | SuPanic

definition support_step :: "nat \<Rightarrow> ('io \<Rightarrow> probe) \<Rightarrow> 'io system \<Rightarrow> 'io support" where
  "support_step now probe s =
     (case po_queue (sy_pool s) of
        [] \<Rightarrow> SuStop s
      | (key, t) # _ \<Rightarrow>
          (case map_of (po_waiters (sy_pool s)) t of
             None \<Rightarrow> SuPanic
           | Some None \<Rightarrow> SuAgain s
           | Some (Some ch) \<Rightarrow>
               (case pool_acquire now probe key (sy_pool s) of
                  (AcNotAvailable, p) \<Rightarrow> SuStop (s\<lparr>sy_pool := p\<rparr>)
                | (AcAcquired io created, p) \<Rightarrow>
                    if TkWait key t ch \<in># sy_tasks s
                    then SuAgain (add_task (TkReady key t io created) (end_task (TkWait key t ch) (s\<lparr>sy_pool := take_waiter t p\<rparr>)))
                    else SuPanic
                | (AcAvailable, p) \<Rightarrow> SuAgain (add_task (TkOpen key t ch) (s\<lparr>sy_pool := take_waiter t p\<rparr>)))))"

text \<open>A poll of the support future: it registers its waker; a loop that does not end is \<open>None\<close>.\<close>

partial_function (option) support_loop :: "nat \<Rightarrow> ('io \<Rightarrow> probe) \<Rightarrow> 'io system \<Rightarrow> 'io system exec option" where
  "support_loop now probe s =
     (case support_step now probe s of
        SuAgain s \<Rightarrow> support_loop now probe s
      | SuStop s \<Rightarrow> Some (Return s)
      | SuPanic \<Rightarrow> Some Panic)"

definition support_poll :: "nat \<Rightarrow> ('io \<Rightarrow> probe) \<Rightarrow> 'io system \<Rightarrow> 'io system exec option" where
  "support_poll now probe s =
     support_loop now probe (s\<lparr>sy_pool := (sy_pool s)\<lparr>po_waker := waker_register (po_waker (sy_pool s))\<rparr>\<rparr>)"

text \<open>A connection that was opened for a waiter is sent to it, or dropped when the waiter is gone.\<close>

definition answer_waiter :: "key \<Rightarrow> token \<Rightarrow> nat \<Rightarrow> 'io connection \<Rightarrow> nat \<Rightarrow> 'io system \<Rightarrow> 'io system exec" where
  "answer_waiter key t ch io created s =
     (if TkWait key t ch \<in># sy_tasks s
      then Return (add_task (TkReady key t io created) (end_task (TkWait key t ch) s))
      else on_pool (conn_release (sy_pool s)) s)"

definition fail_waiter :: "key \<Rightarrow> token \<Rightarrow> nat \<Rightarrow> 'io system \<Rightarrow> 'io system" where
  "fail_waiter key t ch s =
     (if TkWait key t ch \<in># sy_tasks s then add_task (TkFailed key t) (end_task (TkWait key t ch) s) else s)"

section \<open>Events\<close>

text \<open>
  What happens to the pool: a request is made; the support future is polled; the connector or the
  handshake of a request or of an opened connection succeeds or fails; a waiting request
  reads its channel; a future is dropped; a request gives its connection back, closes
  it, or drops it.
\<close>

datatype 'io event =
    EvCall token "key option"
  | EvSupport
  | EvConnected key protocol 'io
  | EvConnectFailed key
  | EvConnectDropped key
  | EvHandshaken key 'io
  | EvHandshakeFailed key 'io
  | EvReceived key token "'io connection" nat
  | EvReceivedError key token
  | EvWaitDropped key token nat
  | EvReadyDropped key token "'io connection" nat
  | EvFailedDropped key token
  | EvOpened key token nat protocol 'io
  | EvOpenedH2 key token nat 'io
  | EvOpenFailed key token nat
  | EvOpenH2Failed key token nat 'io
  | EvOpenDropped key token nat
  | EvOpenH2Dropped key token nat 'io
  | EvReleased key "'io connection" nat
  | EvClosed key "'io connection" nat
  | EvLeaseDropped key "'io connection" nat

text \<open>The task an event is about, if it is about one.\<close>

fun event_task :: "'io event \<Rightarrow> 'io task option" where
  "event_task (EvCall t a) = None"
| "event_task EvSupport = None"
| "event_task (EvConnected k p io) = Some (TkConnect k)"
| "event_task (EvConnectFailed k) = Some (TkConnect k)"
| "event_task (EvConnectDropped k) = Some (TkConnect k)"
| "event_task (EvHandshaken k io) = Some (TkHandshake k io)"
| "event_task (EvHandshakeFailed k io) = Some (TkHandshake k io)"
| "event_task (EvReceived k t io c) = Some (TkReady k t io c)"
| "event_task (EvReceivedError k t) = Some (TkFailed k t)"
| "event_task (EvWaitDropped k t ch) = Some (TkWait k t ch)"
| "event_task (EvReadyDropped k t io c) = Some (TkReady k t io c)"
| "event_task (EvFailedDropped k t) = Some (TkFailed k t)"
| "event_task (EvOpened k t ch p io) = Some (TkOpen k t ch)"
| "event_task (EvOpenedH2 k t ch io) = Some (TkOpenH2 k t ch io)"
| "event_task (EvOpenFailed k t ch) = Some (TkOpen k t ch)"
| "event_task (EvOpenH2Failed k t ch io) = Some (TkOpenH2 k t ch io)"
| "event_task (EvOpenDropped k t ch) = Some (TkOpen k t ch)"
| "event_task (EvOpenH2Dropped k t ch io) = Some (TkOpenH2 k t ch io)"
| "event_task (EvReleased k io c) = Some (TkLease k io c)"
| "event_task (EvClosed k io c) = Some (TkLease k io c)"
| "event_task (EvLeaseDropped k io c) = Some (TkLease k io c)"

text \<open>What the code does when the task is taken out of \<open>s\<close>.\<close>

fun event_run :: "nat \<Rightarrow> ('io \<Rightarrow> probe) \<Rightarrow> 'io event \<Rightarrow> 'io system \<Rightarrow> 'io system exec option" where
  "event_run now probe (EvCall t a) s = Some (sys_call now probe t a s)"
| "event_run now probe EvSupport s = support_poll now probe s"
| "event_run now probe (EvConnected k Http1 io) s = Some (Return (add_task (TkLease k (ConnH1 io) now) s))"
| "event_run now probe (EvConnected k Http2 io) s = Some (Return (add_task (TkHandshake k io) s))"
| "event_run now probe (EvConnectFailed k) s = Some (Return s)"
| "event_run now probe (EvConnectDropped k) s = Some (Return s)"
| "event_run now probe (EvHandshaken k io) s = Some (Return (add_task (TkLease k (ConnH2 io) now) s))"
| "event_run now probe (EvHandshakeFailed k io) s = Some (release_and_check s)"
| "event_run now probe (EvReceived k t io c) s = Some (Return (add_task (TkLease k io c) s))"
| "event_run now probe (EvReceivedError k t) s = Some (Return s)"
| "event_run now probe (EvWaitDropped k t ch) s = Some (drop_waiter k t s)"
| "event_run now probe (EvReadyDropped k t io c) s =
     Some (case on_pool (conn_release (sy_pool s)) s of Panic \<Rightarrow> Panic | Return s \<Rightarrow> drop_waiter k t s)"
| "event_run now probe (EvFailedDropped k t) s = Some (drop_waiter k t s)"
| "event_run now probe (EvOpened k t ch Http1 io) s = Some (answer_waiter k t ch (ConnH1 io) now s)"
| "event_run now probe (EvOpened k t ch Http2 io) s = Some (Return (add_task (TkOpenH2 k t ch io) s))"
| "event_run now probe (EvOpenedH2 k t ch io) s = Some (answer_waiter k t ch (ConnH2 io) now s)"
| "event_run now probe (EvOpenFailed k t ch) s = Some (Return (fail_waiter k t ch s))"
| "event_run now probe (EvOpenH2Failed k t ch io) s = Some (Return (fail_waiter k t ch s))"
| "event_run now probe (EvOpenDropped k t ch) s = Some (release_and_check (fail_waiter k t ch s))"
| "event_run now probe (EvOpenH2Dropped k t ch io) s = Some (release_and_check (fail_waiter k t ch s))"
| "event_run now probe (EvReleased k io c) s = Some (on_pool (pool_release_conn now k io c (sy_pool s)) s)"
| "event_run now probe (EvClosed k io c) s = Some (on_pool (pool_release_close io (sy_pool s)) s)"
| "event_run now probe (EvLeaseDropped k io c) s = Some (on_pool (conn_release (sy_pool s)) s)"

text \<open>
  An event can happen when its task exists, and the token that the slab chooses is free. Which
  connections are usable and what time it is differs from event to event.
\<close>

definition enabled :: "'io event \<Rightarrow> 'io system \<Rightarrow> bool" where
  "enabled e s \<longleftrightarrow>
     (case event_task e of Some t \<Rightarrow> t \<in># sy_tasks s | None \<Rightarrow> True) \<and>
     (case e of EvCall t a \<Rightarrow> map_of (po_waiters (sy_pool s)) t = None | _ \<Rightarrow> True)"

definition sys_exec :: "nat \<Rightarrow> ('io \<Rightarrow> probe) \<Rightarrow> 'io event \<Rightarrow> 'io system \<Rightarrow> 'io system exec option" where
  "sys_exec now probe e s =
     event_run now probe e (case event_task e of Some t \<Rightarrow> end_task t s | None \<Rightarrow> s)"

inductive pool_steps :: "'io system \<Rightarrow> 'io system \<Rightarrow> bool" where
  refl: "pool_steps s s"
| step: "pool_steps s s1 \<Longrightarrow> enabled e s1 \<Longrightarrow> sys_exec now probe e s1 = Some (Return s2) \<Longrightarrow> pool_steps s s2"

end
