(* ===== verification/Client_Pool_Invariant.thy ===== *)
theory Client_Pool_Invariant
  imports Client_Pool
begin

text \<open>
  The invariant of the connection pool and of the futures that use it, and that every event keeps it:
  no operation panics, and the loop of the support future ends.
\<close>

section \<open>The idle connections\<close>

definition usable :: "nat \<Rightarrow> nat \<Rightarrow> nat \<Rightarrow> ('io \<Rightarrow> probe) \<Rightarrow> 'io available_connection \<Rightarrow> bool" where
  "usable lifetime keep_alive now probe c \<longleftrightarrow>
     now - ac_used c \<le> keep_alive \<and> now - ac_created c \<le> lifetime \<and>
     (case ac_io c of ConnH1 s \<Rightarrow> probe s = PbPending | ConnH2 s \<Rightarrow> True)"

lemma scan_conns_usable:
  "scan_conns lifetime keep_alive timeout now probe cs = (found, rest, closing) \<Longrightarrow>
     (case found of
        Some (io, created) \<Rightarrow> \<exists>stale c. cs = stale @ c # rest \<and> ac_io c = io \<and> ac_created c = created \<and>
          usable lifetime keep_alive now probe c \<and> (\<forall>x \<in> set stale. \<not> usable lifetime keep_alive now probe x)
      | None \<Rightarrow> rest = [] \<and> (\<forall>x \<in> set cs. \<not> usable lifetime keep_alive now probe x))"
proof (induction cs arbitrary: found rest closing)
  case (Cons c cs)
  show ?case
  proof (cases "usable lifetime keep_alive now probe c")
    case True
    with Cons.prems show ?thesis
      by (auto simp: usable_def split: connection.splits probe.splits)
  next
    case False
    obtain f r cl where s: "scan_conns lifetime keep_alive timeout now probe cs = (f, r, cl)" by (metis prod.collapse)
    with Cons.prems False have fr: "found = f" "rest = r"
      by (auto simp: usable_def split: if_splits connection.splits probe.splits)
    from Cons.IH [OF s] fr False show ?thesis
      by (auto split: option.splits intro: exI [of _ "c # _"])
  qed
qed simp

section \<open>The invariant\<close>

text \<open>
  \<open>holders\<close> counts the tasks that hold a slot, \<open>owners t\<close> those that own the token \<open>t\<close>. At most \<open>limit\<close>
  slots are counted and every holder has one of them; a queued request is alive and has its
  channel; a token has at most one owner, and none while the slab can choose it.
\<close>

declare map_of_eq_Some_iff [simp del]

definition holders :: "'io system \<Rightarrow> nat" where
  "holders s = size (filter_mset holds_slot (sy_tasks s))"

definition owners :: "token \<Rightarrow> 'io system \<Rightarrow> nat" where
  "owners t s = size (filter_mset (\<lambda>x. token_of x = Some t) (sy_tasks s))"

definition waiting :: "'io system \<Rightarrow> key \<times> token \<Rightarrow> bool" where
  "waiting s q \<longleftrightarrow> (\<exists>ch. map_of (po_waiters (sy_pool s)) (snd q) = Some (Some ch) \<and> TkWait (fst q) (snd q) ch \<in># sy_tasks s)"

definition slots_inv :: "'io system \<Rightarrow> bool" where
  "slots_inv s \<longleftrightarrow> holders s \<le> po_acquired (sy_pool s) \<and>
     (po_limit (sy_pool s) > 0 \<longrightarrow> po_acquired (sy_pool s) \<le> po_limit (sy_pool s))"

definition queue_inv :: "'io system \<Rightarrow> bool" where
  "queue_inv s \<longleftrightarrow>
     distinct (map snd (po_queue (sy_pool s))) \<and> distinct (map fst (po_waiters (sy_pool s))) \<and>
     (\<forall>q \<in> set (po_queue (sy_pool s)). waiting s q) \<and>
     (\<forall>t. owners t s \<le> (if map_of (po_waiters (sy_pool s)) t = None then 0 else 1))"

lemma holders_add: "holders (add_task x s) = holders s + (if holds_slot x then 1 else 0)"
  by (simp add: holders_def add_task_def)

lemma holders_end: "x \<in># sy_tasks s \<Longrightarrow> holders s = holders (end_task x s) + (if holds_slot x then 1 else 0)"
  by (auto simp: holders_def end_task_def dest: multi_member_split)

lemma owners_add: "owners t (add_task x s) = owners t s + (if token_of x = Some t then 1 else 0)"
  by (simp add: owners_def add_task_def)

lemma owners_end: "x \<in># sy_tasks s \<Longrightarrow> owners t s = owners t (end_task x s) + (if token_of x = Some t then 1 else 0)"
  by (auto simp: owners_def end_task_def dest: multi_member_split)

lemma task_fields [simp]:
  "sy_pool (add_task x s) = sy_pool s" "sy_pool (end_task x s) = sy_pool s"
  "sy_next (add_task x s) = sy_next s" "sy_next (end_task x s) = sy_next s" "sy_support (add_task x s) = sy_support s"
  "sy_tasks (add_task x s) = add_mset x (sy_tasks s)" "sy_tasks (end_task x s) = sy_tasks s - {#x#}"
  by (simp_all add: add_task_def end_task_def)

lemma pool_update_tasks [simp]:
  "holders (s\<lparr>sy_pool := p\<rparr>) = holders s" "owners t (s\<lparr>sy_pool := p\<rparr>) = owners t s"
  "holders (s\<lparr>sy_next := n\<rparr>) = holders s" "owners t (s\<lparr>sy_next := n\<rparr>) = owners t s"
  "holders (s\<lparr>sy_support := n\<rparr>) = holders s" "owners t (s\<lparr>sy_support := n\<rparr>) = owners t s"
  by (simp_all add: holders_def owners_def)

lemma on_pool_Return: "on_pool r s = Return s' \<longleftrightarrow> (\<exists>p. r = Return p \<and> s' = s\<lparr>sy_pool := p\<rparr>)"
  by (auto simp: on_pool_def split: exec.splits)

lemma pool_check_fields [simp]:
  "po_acquired (pool_check p) = po_acquired p" "po_limit (pool_check p) = po_limit p"
  "po_waiters (pool_check p) = po_waiters p" "po_queue (pool_check p) = po_queue p" "po_available (pool_check p) = po_available p"
  by (simp_all add: pool_check_def)

lemma pool_acquire_fields:
  "pool_acquire now probe key p = (r, p') \<Longrightarrow>
     po_limit p' = po_limit p \<and> po_waiters p' = po_waiters p \<and> po_queue p' = po_queue p \<and>
     po_acquired p' = (if r = AcNotAvailable then po_acquired p else po_acquired p + 1) \<and>
     (po_limit p > 0 \<and> po_acquired p \<ge> po_limit p \<longleftrightarrow> r = AcNotAvailable)"
  by (auto simp: pool_acquire_def pool_reserve_def Let_def split: if_splits option.splits prod.splits)


lemma map_of_delete_ne: "t' \<noteq> t \<Longrightarrow> map_of (AList.delete t xs) t' = map_of xs t'"
  by (simp add: delete_conv')

lemma queue_inv_pool:
  "queue_inv s \<Longrightarrow> po_queue p = po_queue (sy_pool s) \<Longrightarrow> po_waiters p = po_waiters (sy_pool s) \<Longrightarrow> queue_inv (s\<lparr>sy_pool := p\<rparr>)"
  by (simp add: queue_inv_def waiting_def)

lemma queue_inv_more: "queue_inv (s\<lparr>sy_next := n\<rparr>) = queue_inv s" "queue_inv (s\<lparr>sy_support := m\<rparr>) = queue_inv s"
  by (simp_all add: queue_inv_def waiting_def)

lemma slots_inv_more: "slots_inv (s\<lparr>sy_next := n\<rparr>) = slots_inv s" "slots_inv (s\<lparr>sy_support := m\<rparr>) = slots_inv s"
  by (simp_all add: slots_inv_def)

lemma waiting_add: "waiting s q \<Longrightarrow> waiting (add_task x s) q"
  by (auto simp: waiting_def)

lemma queue_inv_add: "queue_inv s \<Longrightarrow> token_of x = None \<Longrightarrow> queue_inv (add_task x s)"
  by (auto simp: queue_inv_def owners_add waiting_add)

lemma in_end_task: "x \<noteq> y \<Longrightarrow> (y \<in># sy_tasks s - {#x#}) = (y \<in># sy_tasks s)"
  by (simp add: in_diff_count)

lemma queue_inv_owners: "queue_inv s \<Longrightarrow> owners t s \<le> (if map_of (po_waiters (sy_pool s)) t = None then 0 else 1)"
  by (simp add: queue_inv_def)

lemma queue_inv_end:
  assumes "queue_inv s" and "x \<in># sy_tasks s" and "\<forall>k t ch. x \<noteq> TkWait k t ch"
  shows "queue_inv (end_task x s)"
proof -
  have "owners t (end_task x s) \<le> owners t s" for t using owners_end [OF assms(2), of t] by simp
  then have "owners t (end_task x s) \<le> (if map_of (po_waiters (sy_pool s)) t = None then 0 else 1)" for t
    using queue_inv_owners [OF assms(1), of t] order_trans by blast
  moreover have "waiting (end_task x s) q" if "waiting s q" for q
    using that assms(3) in_end_task [of x _ s] by (auto simp: waiting_def)
  ultimately show ?thesis
    using assms(1) by (simp add: queue_inv_def)
qed


lemma owners_member: "x \<in># sy_tasks s \<Longrightarrow> token_of x = Some t \<Longrightarrow> 0 < owners t s"
  using owners_end [of x s t] by simp

lemma owner_unique:
  assumes "queue_inv s" and "x \<in># sy_tasks s" and "token_of x = Some t" and "y \<in># sy_tasks s" and "token_of y = Some t"
  shows "x = y"
proof (rule ccontr)
  assume "x \<noteq> y"
  then have "y \<in># sy_tasks (end_task x s)" using assms(4) by (simp add: in_end_task)
  from owners_member [OF this assms(5)] owners_end [OF assms(2), of t] assms(3) have "2 \<le> owners t s" by simp
  moreover have "owners t s \<le> 1"
    using queue_inv_owners [OF assms(1), of t] by (simp split: if_splits)
  ultimately show False by simp
qed

lemma owner_token:
  assumes "queue_inv s" and "x \<in># sy_tasks s" and "token_of x = Some t"
  shows "map_of (po_waiters (sy_pool s)) t \<noteq> None" and "owners t (end_task x s) = 0"
proof -
  note le = queue_inv_owners [OF assms(1), of t]
  show "map_of (po_waiters (sy_pool s)) t \<noteq> None"
    using le owners_member [OF assms(2,3)] by (auto split: if_splits)
  show "owners t (end_task x s) = 0"
    using le owners_end [OF assms(2), of t] assms(3) by (auto split: if_splits)
qed

lemma drop_waiter_ok:
  assumes inv: "queue_inv s" and x: "x \<in># sy_tasks s" "token_of x = Some t"
    and key: "\<forall>k' ch. x = TkWait k' t ch \<longrightarrow> k' = k"
  shows "\<exists>s'. drop_waiter k t (end_task x s) = Return s' \<and> queue_inv s' \<and> holders s' = holders (end_task x s) \<and>
    po_acquired (sy_pool s') = po_acquired (sy_pool s) \<and> po_limit (sy_pool s') = po_limit (sy_pool s) \<and>
    sy_tasks s' = sy_tasks (end_task x s)"
proof -
  let ?p = "sy_pool s"
  let ?p' = "?p\<lparr>po_waiters := AList.delete t (po_waiters ?p), po_queue := remove1 (k, t) (po_queue ?p)\<rparr>"
  let ?s = "(end_task x s)\<lparr>sy_pool := pool_check ?p'\<rparr>"
  have d: "drop_waiter k t (end_task x s) = Return ?s"
    using owner_token(1) [OF inv x] by (simp add: drop_waiter_def on_pool_def pool_release_waiter_def)
  have others: "snd q \<noteq> t" if "q \<in> set (remove1 (k, t) (po_queue ?p))" for q
  proof
    assume "snd q = t"
    have dq: "distinct (map snd (po_queue ?p))" using inv by (simp add: queue_inv_def)
    have qin: "q \<in> set (po_queue ?p)" using that notin_set_remove1 by fast
    then have "waiting s q" using inv by (simp add: queue_inv_def)
    then obtain ch where "TkWait (fst q) t ch \<in># sy_tasks s" using \<open>snd q = t\<close> by (auto simp: waiting_def)
    from owner_unique [OF inv x this] have "x = TkWait (fst q) t ch" by simp
    then have "q = (k, t)" using key \<open>snd q = t\<close> by (metis prod.collapse)
    then show False using that dq by (simp add: distinct_map set_remove1_eq)
  qed
  have "queue_inv ?s"
    unfolding queue_inv_def
  proof (intro conjI ballI allI)
    show "distinct (map snd (po_queue (sy_pool ?s)))"
      using inv by (auto simp: queue_inv_def distinct_map inj_on_def dest: notin_set_remove1)
    show "distinct (map fst (po_waiters (sy_pool ?s)))"
      using inv by (simp add: queue_inv_def distinct_delete)
    fix q assume "q \<in> set (po_queue (sy_pool ?s))"
    then have q: "q \<in> set (remove1 (k, t) (po_queue ?p))" by simp
    then have "waiting s q" using inv notin_set_remove1 unfolding queue_inv_def by fast
    then show "waiting ?s q"
      using others [OF q] x(2) by (auto simp: waiting_def map_of_delete_ne in_diff_count)
  next
    fix t'
    show "owners t' ?s \<le> (if map_of (po_waiters (sy_pool ?s)) t' = None then 0 else 1)"
    proof (cases "t' = t")
      case True
      with owner_token(2) [OF inv x] show ?thesis by simp
    next
      case False
      have "owners t' s \<le> (if map_of (po_waiters ?p) t' = None then 0 else 1)" using inv by (simp add: queue_inv_def)
      moreover have "owners t' (end_task x s) \<le> owners t' s" using owners_end [OF x(1), of t'] by simp
      ultimately show ?thesis using False by (simp add: map_of_delete_ne)
    qed
  qed
  with d show ?thesis by simp
qed


text \<open>
  The channels: a connection that is being opened for a waiter has a channel that no queued waiter
  has, every channel was made by the counter, and two waiters do not share one.
\<close>

fun chan_of :: "'io task \<Rightarrow> nat option" where
  "chan_of (TkOpen k t ch) = Some ch"
| "chan_of (TkOpenH2 k t ch io) = Some ch"
| "chan_of _ = None"

definition open_waiter :: "'io system \<Rightarrow> token \<Rightarrow> nat \<Rightarrow> bool" where
  "open_waiter s t ch \<longleftrightarrow> map_of (po_waiters (sy_pool s)) t = Some (Some ch)"

definition chan_inv :: "'io system \<Rightarrow> bool" where
  "chan_inv s \<longleftrightarrow>
     (\<forall>x \<in># sy_tasks s. \<forall>ch. chan_of x = Some ch \<longrightarrow> ch < sy_next s \<and> (\<forall>t. \<not> open_waiter s t ch)) \<and>
     (\<forall>t ch. open_waiter s t ch \<longrightarrow> ch < sy_next s) \<and>
     (\<forall>t t' ch. open_waiter s t ch \<longrightarrow> open_waiter s t' ch \<longrightarrow> t = t')"

definition sys_inv :: "'io system \<Rightarrow> bool" where
  "sys_inv s \<longleftrightarrow> slots_inv s \<and> queue_inv s \<and> chan_inv s"

lemma chan_inv_mono:
  assumes "chan_inv s" and "\<And>t ch. open_waiter s' t ch \<Longrightarrow> open_waiter s t ch" and "sy_next s' = sy_next s"
    and "\<And>x ch. x \<in># sy_tasks s' \<Longrightarrow> chan_of x = Some ch \<Longrightarrow> (\<exists>y. y \<in># sy_tasks s \<and> chan_of y = Some ch)"
  shows "chan_inv s'"
proof -
  have tasks: "ch < sy_next s \<and> \<not> open_waiter s' t ch" if "x \<in># sy_tasks s'" "chan_of x = Some ch" for x t ch
  proof -
    from assms(4) [OF that] obtain y where "y \<in># sy_tasks s" "chan_of y = Some ch" by blast
    with assms(1) have "ch < sy_next s" "\<not> open_waiter s t ch" by (auto simp: chan_inv_def)
    with assms(2) show ?thesis by blast
  qed
  moreover have "t = t'" if "open_waiter s' t ch" "open_waiter s' t' ch" for t t' ch
    using assms(1) assms(2) [OF that(1)] assms(2) [OF that(2)] by (simp add: chan_inv_def)
  moreover have "ch < sy_next s" if "open_waiter s' t ch" for t ch
    using assms(1) assms(2) [OF that] by (simp add: chan_inv_def)
  ultimately show ?thesis by (simp add: chan_inv_def assms(3))
qed

lemma open_waiter_tasks [simp]:
  "open_waiter (add_task x s) = open_waiter s" "open_waiter (end_task x s) = open_waiter s"
  by (simp_all add: open_waiter_def fun_eq_iff)

lemma sys_inv_pool:
  assumes "sys_inv s" and "po_queue p = po_queue (sy_pool s)" "po_waiters p = po_waiters (sy_pool s)" "po_limit p = po_limit (sy_pool s)"
    and "holders s \<le> po_acquired p" "po_limit p > 0 \<Longrightarrow> po_acquired p \<le> po_limit p"
  shows "sys_inv (s\<lparr>sy_pool := p\<rparr>)"
proof -
  have "chan_inv (s\<lparr>sy_pool := p\<rparr>)"
    by (rule chan_inv_mono [of s]) (use assms in \<open>auto simp: sys_inv_def open_waiter_def\<close>)
  then show ?thesis using assms queue_inv_pool [of s p] by (simp add: sys_inv_def slots_inv_def)
qed

lemma sys_inv_add:
  assumes "sys_inv s" and "token_of x = None" and "chan_of x = None \<or> (\<exists>y. y \<in># sy_tasks s \<and> chan_of y = chan_of x)"
    and "holds_slot x \<Longrightarrow> holders s < po_acquired (sy_pool s)"
  shows "sys_inv (add_task x s)"
proof -
  have "chan_inv (add_task x s)"
    by (rule chan_inv_mono [of s]) (use assms in \<open>auto simp: sys_inv_def\<close>)
  then show ?thesis using assms queue_inv_add [of s x] by (auto simp: sys_inv_def slots_inv_def holders_add)
qed

lemma sys_inv_end:
  assumes "sys_inv s" and "x \<in># sy_tasks s" and "\<forall>k t ch. x \<noteq> TkWait k t ch"
  shows "sys_inv (end_task x s)"
    and "holds_slot x \<Longrightarrow> holders (end_task x s) < po_acquired (sy_pool s)"
proof -
  have "chan_inv (end_task x s)"
    by (rule chan_inv_mono [of s]) (use assms in \<open>auto simp: sys_inv_def dest: in_diffD\<close>)
  then show "sys_inv (end_task x s)"
    using assms queue_inv_end [of s x] holders_end [OF assms(2)] by (simp add: sys_inv_def slots_inv_def)
  show "holders (end_task x s) < po_acquired (sy_pool s)" if "holds_slot x"
    using that assms(1) holders_end [OF assms(2)] by (simp add: sys_inv_def slots_inv_def)
qed

text \<open>A task that opens a connection and is replaced keeps its channel.\<close>

lemma sys_inv_replace:
  assumes "sys_inv s" and "x \<in># sy_tasks s" and "\<forall>k t ch. x \<noteq> TkWait k t ch"
    and "token_of y = None" and "chan_of y = None \<or> chan_of y = chan_of x" and "holds_slot y \<Longrightarrow> holds_slot x"
  shows "sys_inv (add_task y (end_task x s))"
proof -
  let ?s = "add_task y (end_task x s)"
  have "chan_inv ?s"
    by (rule chan_inv_mono [of s]) (use assms in \<open>auto simp: sys_inv_def dest: in_diffD\<close>)
  moreover have "queue_inv ?s"
    using assms queue_inv_end [of s x] queue_inv_add [of "end_task x s" y] by (simp add: sys_inv_def)
  moreover have "slots_inv ?s"
    using assms holders_end [OF assms(2)] by (auto simp: sys_inv_def slots_inv_def holders_add split: if_splits)
  ultimately show ?thesis by (simp add: sys_inv_def)
qed

lemma on_release_ok:
  assumes "sys_inv s" and "holders s < po_acquired (sy_pool s)"
    and "\<And>p. po_acquired (f p) = po_acquired p \<and> po_limit (f p) = po_limit p \<and> po_queue (f p) = po_queue p \<and> po_waiters (f p) = po_waiters p"
  shows "\<exists>s'. on_pool (case conn_release (sy_pool s) of Panic \<Rightarrow> Panic | Return p \<Rightarrow> Return (f p)) s = Return s' \<and> sys_inv s' \<and> sy_tasks s' = sy_tasks s"
proof -
  let ?q = "(sy_pool s)\<lparr>po_acquired := po_acquired (sy_pool s) - 1\<rparr>"
  have "sys_inv (s\<lparr>sy_pool := f ?q\<rparr>)"
    by (rule sys_inv_pool) (use assms in \<open>auto simp: sys_inv_def slots_inv_def\<close>)
  then show ?thesis using assms(2) by (auto simp: conn_release_def on_pool_def)
qed

lemma answered_inv:
  assumes inv: "sys_inv s" and w: "TkWait k t ch \<in># sy_tasks s" and nq: "\<forall>q \<in> set (po_queue (sy_pool s)). snd q \<noteq> t"
    and y: "token_of y = Some t" "chan_of y = None" "holds_slot y \<Longrightarrow> holders s < po_acquired (sy_pool s)"
  shows "sys_inv (add_task y (end_task (TkWait k t ch) s))"
proof -
  let ?s = "add_task y (end_task (TkWait k t ch) s)"
  have "chan_inv ?s"
    by (rule chan_inv_mono [of s]) (use inv y in \<open>auto simp: sys_inv_def dest: in_diffD\<close>)
  moreover have "slots_inv ?s"
    using inv y(3) holders_end [OF w] by (auto simp: sys_inv_def slots_inv_def holders_add)
  moreover have "queue_inv ?s"
  proof -
    have "owners t' ?s = owners t' s" for t'
      using owners_end [OF w, of t'] y(1) by (auto simp: owners_add)
    moreover have "waiting ?s q" if "q \<in> set (po_queue (sy_pool s))" for q
    proof -
      have "waiting s q" using inv that by (simp add: sys_inv_def queue_inv_def)
      with nq that show ?thesis by (auto simp: waiting_def in_diff_count)
    qed
    ultimately show ?thesis using inv by (simp add: sys_inv_def queue_inv_def)
  qed
  ultimately show ?thesis by (simp add: sys_inv_def)
qed


lemma release_ok:
  assumes "sys_inv s" and "holders s < po_acquired (sy_pool s)"
  shows "\<exists>s'. on_pool (conn_release (sy_pool s)) s = Return s' \<and> sys_inv s' \<and> sy_tasks s' = sy_tasks s"
proof -
  have "(case conn_release (sy_pool s) of Panic \<Rightarrow> Panic | Return p \<Rightarrow> Return p) = conn_release (sy_pool s)"
    by (simp split: exec.splits)
  with on_release_ok [OF assms, of "\<lambda>p. p"] show ?thesis by simp
qed

lemma swap_remove_first_mset: "mset (swap_remove_first (x # xs)) = mset xs"
  by (cases xs rule: rev_cases) (auto simp: swap_remove_first_def)

lemma drop_waiter_inv:
  assumes inv: "queue_inv s" "chan_inv s" and slots: "holders (end_task x s) \<le> po_acquired (sy_pool s)"
    "po_limit (sy_pool s) > 0 \<Longrightarrow> po_acquired (sy_pool s) \<le> po_limit (sy_pool s)" and x: "x \<in># sy_tasks s" "token_of x = Some t"
    and key: "\<forall>k' ch. x = TkWait k' t ch \<longrightarrow> k' = k"
  shows "\<exists>s'. drop_waiter k t (end_task x s) = Return s' \<and> sys_inv s'"
proof -
  from drop_waiter_ok [OF inv(1) x key] obtain s' where s': "drop_waiter k t (end_task x s) = Return s'"
    "queue_inv s'" "holders s' = holders (end_task x s)" "po_acquired (sy_pool s') = po_acquired (sy_pool s)"
    "po_limit (sy_pool s') = po_limit (sy_pool s)" "sy_tasks s' = sy_tasks (end_task x s)"
    by auto
  have w: "po_waiters (sy_pool s') = AList.delete t (po_waiters (sy_pool s))" "sy_next s' = sy_next s"
    using s'(1) by (auto simp: drop_waiter_def on_pool_def pool_release_waiter_def split: if_splits)
  have "chan_inv s'"
    by (rule chan_inv_mono [of s])
      (use inv s' w in \<open>auto simp: open_waiter_def map_of_delete_ne delete_conv' dest: in_diffD split: if_splits\<close>)
  then show ?thesis
    using s' slots by (simp add: sys_inv_def slots_inv_def)
qed

lemma drop_task_inv:
  assumes "sys_inv s" and "x \<in># sy_tasks s" "token_of x = Some t" and "\<forall>k' ch. x = TkWait k' t ch \<longrightarrow> k' = k"
  shows "\<exists>s'. drop_waiter k t (end_task x s) = Return s' \<and> sys_inv s'"
  by (rule drop_waiter_inv) (use assms holders_end [OF assms(2)] in \<open>auto simp: sys_inv_def slots_inv_def\<close>)

section \<open>Serving the queue\<close>

lemma take_waiter_inv:
  assumes inv: "sys_inv s" and q: "po_queue (sy_pool s) = (k, t) # rest" and w: "open_waiter s t ch"
    and p: "po_queue p = po_queue (sy_pool s)" "po_waiters p = po_waiters (sy_pool s)" "po_limit p = po_limit (sy_pool s)"
    and slots: "holders s \<le> po_acquired p" "po_limit p > 0 \<Longrightarrow> po_acquired p \<le> po_limit p"
  shows "sys_inv (s\<lparr>sy_pool := take_waiter t p\<rparr>)" (is "sys_inv ?s")
    and "\<forall>q \<in> set (po_queue (take_waiter t p)). snd q \<noteq> t"
    and "size (po_queue (take_waiter t p)) < size (po_queue (sy_pool s))"
    and "\<not> open_waiter (s\<lparr>sy_pool := take_waiter t p\<rparr>) t' ch"
proof -
  have ms: "mset (po_queue (take_waiter t p)) = mset rest"
    by (simp add: take_waiter_def p q swap_remove_first_mset)
  then have set: "set (po_queue (take_waiter t p)) = set rest" by (metis set_mset_mset)
  from arg_cong [OF ms, of size] show "size (po_queue (take_waiter t p)) < size (po_queue (sy_pool s))" by (simp add: q)
  have dq: "distinct (map snd ((k, t) # rest))" using inv q by (simp add: sys_inv_def queue_inv_def)
  then show nt: "\<forall>q \<in> set (po_queue (take_waiter t p)). snd q \<noteq> t" unfolding set by auto
  have dm: "distinct (map snd (po_queue (take_waiter t p)))"
    using dq ms by (metis (no_types, lifting) distinct.simps(2) list.simps(9) mset_eq_imp_distinct_iff mset_map)
  have ow: "open_waiter ?s t' c \<Longrightarrow> open_waiter s t' c \<and> t' \<noteq> t" for t' c
    by (auto simp: open_waiter_def take_waiter_def update_conv' p split: if_splits)
  have "chan_inv ?s"
    by (rule chan_inv_mono [of s]) (use inv ow in \<open>auto simp: sys_inv_def\<close>)
  moreover have "queue_inv ?s"
    unfolding queue_inv_def
  proof (intro conjI ballI allI)
    show "distinct (map snd (po_queue (sy_pool ?s)))" using dm by simp
    show "distinct (map fst (po_waiters (sy_pool ?s)))"
      using inv by (simp add: sys_inv_def queue_inv_def take_waiter_def p distinct_update)
    fix q' assume "q' \<in> set (po_queue (sy_pool ?s))"
    then have "q' \<in> set rest" "snd q' \<noteq> t" using set nt by auto
    moreover have "waiting s q'" using inv q calculation(1) by (simp add: sys_inv_def queue_inv_def)
    ultimately show "waiting ?s q'" by (auto simp: waiting_def take_waiter_def update_conv' p)
  next
    fix t'
    show "owners t' ?s \<le> (if map_of (po_waiters (sy_pool ?s)) t' = None then 0 else 1)"
      using inv queue_inv_owners [of s t'] w
      by (auto simp: sys_inv_def take_waiter_def update_conv' p open_waiter_def split: if_splits)
  qed
  ultimately show "sys_inv ?s" using slots p by (simp add: sys_inv_def slots_inv_def take_waiter_def)
  show "\<not> open_waiter ?s t' ch"
    using ow [of t' ch] w inv by (auto simp: sys_inv_def chan_inv_def)
qed

lemma sys_inv_open:
  assumes "sys_inv s" and "ch < sy_next s" and "\<And>t'. \<not> open_waiter s t' ch" and "holders s < po_acquired (sy_pool s)"
  shows "sys_inv (add_task (TkOpen k t ch) s)"
  using assms queue_inv_add [of s "TkOpen k t ch"]
  by (auto simp: sys_inv_def slots_inv_def holders_add chan_inv_def)

lemma queue_head:
  assumes "sys_inv s" and "po_queue (sy_pool s) = (k, t) # rest"
  obtains ch where "open_waiter s t ch" "TkWait k t ch \<in># sy_tasks s" "ch < sy_next s"
  using assms by (auto simp: sys_inv_def queue_inv_def waiting_def open_waiter_def chan_inv_def)

lemma support_step_ok:
  assumes inv: "sys_inv s"
  shows "case support_step now probe s of
      SuAgain s' \<Rightarrow> sys_inv s' \<and> size (po_queue (sy_pool s')) < size (po_queue (sy_pool s))
    | SuStop s' \<Rightarrow> sys_inv s' \<and> (po_queue (sy_pool s') = [] \<or>
        (po_limit (sy_pool s') > 0 \<and> po_acquired (sy_pool s') = po_limit (sy_pool s')))
    | SuPanic \<Rightarrow> False"
proof (cases "po_queue (sy_pool s)")
  case Nil
  then show ?thesis using inv by (simp add: support_step_def)
next
  case (Cons kt rest)
  obtain k t where kt: "kt = (k, t)" by (cases kt)
  with Cons have q: "po_queue (sy_pool s) = (k, t) # rest" by simp
  obtain ch where w: "open_waiter s t ch" "TkWait k t ch \<in># sy_tasks s" "ch < sy_next s" by (rule queue_head [OF inv q])
  have wt: "map_of (po_waiters (sy_pool s)) t = Some (Some ch)" using w(1) by (simp add: open_waiter_def)
  obtain r p where a: "pool_acquire now probe k (sy_pool s) = (r, p)" by (cases "pool_acquire now probe k (sy_pool s)")
  note f = pool_acquire_fields [OF a]
  show ?thesis
  proof (cases "r = AcNotAvailable")
    case True
    with f have "p = sy_pool s" using a by (auto simp: pool_acquire_def Let_def split: if_splits option.splits prod.splits)
    then show ?thesis using inv q wt a True f by (auto simp: support_step_def sys_inv_def slots_inv_def)
  next
    case False
    let ?s = "s\<lparr>sy_pool := take_waiter t p\<rparr>"
    have h: "holders s < po_acquired p" "po_limit p > 0 \<Longrightarrow> po_acquired p \<le> po_limit p"
      using f False inv by (auto simp: sys_inv_def slots_inv_def)
    note tw = take_waiter_inv [OF inv q w(1) _ _ _ less_imp_le [OF h(1)] h(2)]
    have pf: "po_queue p = po_queue (sy_pool s)" "po_waiters p = po_waiters (sy_pool s)" "po_limit p = po_limit (sy_pool s)"
      using f by simp_all
    have acq: "po_acquired (take_waiter t p) = po_acquired p" by (simp add: take_waiter_def)
    have ready: "sys_inv (add_task (TkReady k t io c) (end_task (TkWait k t ch) ?s))" for io c
      by (rule answered_inv [OF tw(1)]) (use tw(2) w(2) h acq pf in auto)
    have opens: "sys_inv (add_task (TkOpen k t ch) ?s)"
      by (rule sys_inv_open [OF tw(1)]) (use tw(4) w(3) h acq pf in auto)
    show ?thesis
      using ready opens tw(3) wt q a w(2) False pf by (auto simp: support_step_def split: acquire.splits)
  qed
qed


text \<open>Each round takes a waiter out of the queue, so the loop of the support future ends.\<close>

lemma support_loop_ok:
  "sys_inv s \<Longrightarrow> \<exists>s'. support_loop now probe s = Some (Return s') \<and> sys_inv s' \<and>
     (po_queue (sy_pool s') = [] \<or> (po_limit (sy_pool s') > 0 \<and> po_acquired (sy_pool s') = po_limit (sy_pool s')))"
proof (induction "size (po_queue (sy_pool s))" arbitrary: s rule: less_induct)
  case less
  note ok = support_step_ok [OF less.prems, of now probe]
  show ?case
  proof (cases "support_step now probe s")
    case (SuAgain s1)
    with ok less.hyps [of s1] show ?thesis by (simp add: support_loop.simps [of now probe s])
  qed (use ok in \<open>simp_all add: support_loop.simps [of now probe s]\<close>)
qed

lemma support_poll_ok:
  "sys_inv s \<Longrightarrow> \<exists>s'. support_poll now probe s = Some (Return s') \<and> sys_inv s' \<and>
     (po_queue (sy_pool s') = [] \<or> (po_limit (sy_pool s') > 0 \<and> po_acquired (sy_pool s') = po_limit (sy_pool s')))"
  unfolding support_poll_def
  by (rule support_loop_ok, rule sys_inv_pool) (auto simp: sys_inv_def slots_inv_def)

section \<open>Every event keeps the invariant\<close>

lemma sys_inv_more: "sys_inv (s\<lparr>sy_support := m\<rparr>) = sys_inv s"
  by (simp add: sys_inv_def slots_inv_more queue_inv_more chan_inv_def open_waiter_def)

lemma pool_wait_inv:
  assumes inv: "sys_inv s" and t: "map_of (po_waiters (sy_pool s)) t = None"
  shows "\<exists>s'. on_pool (pool_wait_for t (sy_next s) k (sy_pool s))
      (add_task (TkWait k t (sy_next s)) (s\<lparr>sy_next := sy_next s + 1\<rparr>)) = Return s' \<and> sys_inv s' \<and> holders s' = holders s \<and>
      po_acquired (sy_pool s') = po_acquired (sy_pool s) \<and> po_limit (sy_pool s') = po_limit (sy_pool s)"
proof -
  let ?p = "(sy_pool s)\<lparr>po_waiters := (t, Some (sy_next s)) # po_waiters (sy_pool s), po_queue := po_queue (sy_pool s) @ [(k, t)]\<rparr>"
  let ?s = "(add_task (TkWait k t (sy_next s)) (s\<lparr>sy_next := sy_next s + 1\<rparr>))\<lparr>sy_pool := ?p\<rparr>"
  have wq: "waiting s q" if "q \<in> set (po_queue (sy_pool s))" for q
    using inv that by (simp add: sys_inv_def queue_inv_def)
  have nq: "snd q \<noteq> t" if "q \<in> set (po_queue (sy_pool s))" for q
    using wq [OF that] t by (auto simp: waiting_def)
  have r: "on_pool (pool_wait_for t (sy_next s) k (sy_pool s)) (add_task (TkWait k t (sy_next s)) (s\<lparr>sy_next := sy_next s + 1\<rparr>)) = Return ?s"
    using nq [of "(k, t)"] by (auto simp: on_pool_def pool_wait_for_def)
  have ow: "open_waiter ?s t' ch \<longleftrightarrow> (if t' = t then ch = sy_next s else open_waiter s t' ch)" for t' ch
    by (auto simp: open_waiter_def)
  have less: "open_waiter s t' ch \<Longrightarrow> ch < sy_next s" for t' ch using inv by (simp add: sys_inv_def chan_inv_def)
  have "chan_inv ?s"
    unfolding chan_inv_def ow using inv by (auto simp: sys_inv_def chan_inv_def less_Suc_eq dest: less)
  moreover have "queue_inv ?s"
    unfolding queue_inv_def
  proof (intro conjI ballI allI)
    show "distinct (map snd (po_queue (sy_pool ?s)))"
      using inv nq by (auto simp: sys_inv_def queue_inv_def)
    show "distinct (map fst (po_waiters (sy_pool ?s)))"
      using inv t by (simp add: sys_inv_def queue_inv_def map_of_eq_None_iff)
    show "waiting ?s q" if "q \<in> set (po_queue (sy_pool ?s))" for q
      using that wq [of q] nq [of q] by (auto simp: waiting_def)
    show "owners t' ?s \<le> (if map_of (po_waiters (sy_pool ?s)) t' = None then 0 else 1)" for t'
      using inv queue_inv_owners [of s t'] t by (auto simp: sys_inv_def owners_add)
  qed
  moreover have "slots_inv ?s" "holders ?s = holders s"
    using inv by (simp_all add: sys_inv_def slots_inv_def holders_add)
  ultimately show ?thesis using r by (simp add: sys_inv_def)
qed

lemma sys_call_ok:
  assumes inv: "sys_inv s" and t: "map_of (po_waiters (sy_pool s)) t = None"
  shows "\<exists>s'. sys_call now probe t a s = Return s' \<and> sys_inv s'"
proof (cases a)
  case None
  then show ?thesis using inv by (simp add: sys_call_def sys_inv_more)
next
  case (Some k)
  let ?s = "s\<lparr>sy_support := sy_support s + 1\<rparr>"
  obtain r p where a: "pool_acquire now probe k (sy_pool s) = (r, p)" by (cases "pool_acquire now probe k (sy_pool s)")
  note f = pool_acquire_fields [OF a]
  show ?thesis
  proof (cases "r = AcNotAvailable")
    case True
    with a have "p = sy_pool s" by (auto simp: pool_acquire_def Let_def split: if_splits option.splits prod.splits)
    with pool_wait_inv [of ?s t k] inv t True a Some show ?thesis
      by (auto simp: sys_call_def sys_inv_more Let_def)
  next
    case False
    have p: "sys_inv (?s\<lparr>sy_pool := p\<rparr>)"
      by (rule sys_inv_pool) (use inv f False in \<open>auto simp: sys_inv_more, auto simp: sys_inv_def slots_inv_def\<close>)
    have h: "holders (?s\<lparr>sy_pool := p\<rparr>) < po_acquired (sy_pool (?s\<lparr>sy_pool := p\<rparr>))"
      using f False inv by (auto simp: sys_inv_def slots_inv_def)
    have "sys_inv (add_task x (?s\<lparr>sy_pool := p\<rparr>))" if "x = TkConnect k \<or> (\<exists>io c. x = TkLease k io c)" for x
      by (rule sys_inv_add [OF p]) (use that h in auto)
    then show ?thesis
      using a Some False by (auto simp: sys_call_def Let_def split: acquire.splits)
  qed
qed

text \<open>A waiter whose connection is being opened is not in the queue.\<close>

lemma opened_not_queued:
  assumes "sys_inv s" and "x \<in># sy_tasks s" and "chan_of x = Some ch" and "TkWait k t ch \<in># sy_tasks s"
  shows "\<forall>q \<in> set (po_queue (sy_pool s)). snd q \<noteq> t"
proof (intro ballI notI)
  fix q assume q: "q \<in> set (po_queue (sy_pool s))" "snd q = t"
  then have "waiting s q" using assms(1) by (simp add: sys_inv_def queue_inv_def)
  then obtain ch' where w: "open_waiter s t ch'" "TkWait (fst q) t ch' \<in># sy_tasks s" using q by (auto simp: waiting_def open_waiter_def)
  then have "ch' = ch" using owner_unique [of s "TkWait (fst q) t ch'" t "TkWait k t ch"] assms by (simp add: sys_inv_def)
  moreover have "\<not> open_waiter s t ch" using assms(1,2,3) by (auto simp: sys_inv_def chan_inv_def)
  ultimately show False using w by simp
qed

lemma fail_waiter_ok:
  assumes inv: "sys_inv s" and x: "x \<in># sy_tasks s" "chan_of x = Some ch"
  shows "sys_inv (fail_waiter k t ch (end_task x s))" and "holders (fail_waiter k t ch (end_task x s)) < po_acquired (sy_pool s)"
    and "sy_pool (fail_waiter k t ch (end_task x s)) = sy_pool s"
proof -
  have nw: "\<forall>k t ch. x \<noteq> TkWait k t ch" and hx: "holds_slot x" using x(2) by (cases x; simp)+
  note e = sys_inv_end [OF inv x(1) nw]
  have nq: "\<forall>q \<in> set (po_queue (sy_pool (end_task x s))). snd q \<noteq> t" if "TkWait k t ch \<in># sy_tasks (end_task x s)"
    using opened_not_queued [OF inv x, of k t] that by (auto dest: in_diffD)
  show "sys_inv (fail_waiter k t ch (end_task x s))"
    using answered_inv [OF e(1), of k t ch "TkFailed k t"] nq e(1) by (auto simp: fail_waiter_def)
  show "holders (fail_waiter k t ch (end_task x s)) < po_acquired (sy_pool s)"
    using e(2) [OF hx] holders_end [of "TkWait k t ch" "end_task x s"] by (auto simp: fail_waiter_def holders_add)
  show "sy_pool (fail_waiter k t ch (end_task x s)) = sy_pool s" by (simp add: fail_waiter_def)
qed

lemma answer_waiter_ok:
  assumes inv: "sys_inv s" and x: "x \<in># sy_tasks s" "chan_of x = Some ch"
  shows "\<exists>s'. answer_waiter k t ch io c (end_task x s) = Return s' \<and> sys_inv s'"
proof -
  have nw: "\<forall>k t ch. x \<noteq> TkWait k t ch" and hx: "holds_slot x" using x(2) by (cases x; simp)+
  note e = sys_inv_end [OF inv x(1) nw]
  have nq: "\<forall>q \<in> set (po_queue (sy_pool (end_task x s))). snd q \<noteq> t" if "TkWait k t ch \<in># sy_tasks (end_task x s)"
    using opened_not_queued [OF inv x, of k t] that by (auto dest: in_diffD)
  show ?thesis
    using answered_inv [OF e(1), of k t ch "TkReady k t io c"] nq e(2) [OF hx] release_ok [OF e(1)]
    by (auto simp: answer_waiter_def)
qed


lemma sys_exec_ok:
  assumes inv: "sys_inv s" and en: "enabled e s"
  shows "\<exists>s'. sys_exec now probe e s = Some (Return s') \<and> sys_inv s'"
proof (cases e)
  case (EvCall t a)
  with sys_call_ok [OF inv, of t now probe a] en show ?thesis by (simp add: sys_exec_def enabled_def)
next
  case EvSupport
  with support_poll_ok [OF inv, of now probe] show ?thesis by (auto simp: sys_exec_def)
next
  case (EvConnected k p io)
  with en have x: "TkConnect k \<in># sy_tasks s" by (simp add: enabled_def)
  show ?thesis by (cases p) (use EvConnected sys_inv_replace [OF inv x] in \<open>simp_all add: sys_exec_def\<close>)
next
  case (EvConnectFailed k)
  with en sys_inv_end(1) [OF inv, of "TkConnect k"] show ?thesis by (simp add: sys_exec_def enabled_def)
next
  case (EvConnectDropped k)
  with en sys_inv_end(1) [OF inv, of "TkConnect k"] show ?thesis by (simp add: sys_exec_def enabled_def)
next
  case (EvHandshaken k io)
  with en sys_inv_replace [OF inv, of "TkHandshake k io"] show ?thesis by (simp add: sys_exec_def enabled_def)
next
  case (EvHandshakeFailed k io)
  with en sys_inv_end [OF inv, of "TkHandshake k io"] on_release_ok [of "end_task (TkHandshake k io) s" pool_check]
  show ?thesis by (auto simp: sys_exec_def enabled_def release_and_check_def)
next
  case (EvReceived k t io c)
  with en sys_inv_replace [OF inv, of "TkReady k t io c" "TkLease k io c"] show ?thesis by (simp add: sys_exec_def enabled_def)
next
  case (EvReceivedError k t)
  with en sys_inv_end(1) [OF inv, of "TkFailed k t"] show ?thesis by (simp add: sys_exec_def enabled_def)
next
  case (EvWaitDropped k t ch)
  with en drop_task_inv [OF inv, of "TkWait k t ch" t k] show ?thesis by (simp add: sys_exec_def enabled_def)
next
  case (EvReadyDropped k t io c)
  with en have x: "TkReady k t io c \<in># sy_tasks s" by (simp add: enabled_def)
  let ?s = "s\<lparr>sy_pool := (sy_pool s)\<lparr>po_acquired := po_acquired (sy_pool s) - 1\<rparr>\<rparr>"
  have "holders s = holders (end_task (TkReady k t io c) s) + 1" using holders_end [OF x] by simp
  moreover have "end_task (TkReady k t io c) ?s = (end_task (TkReady k t io c) s)\<lparr>sy_pool := sy_pool ?s\<rparr>"
    by (simp add: end_task_def)
  moreover have "chan_inv ?s"
    by (rule chan_inv_mono [of s]) (use inv in \<open>auto simp: sys_inv_def open_waiter_def\<close>)
  ultimately have "\<exists>s'. drop_waiter k t ((end_task (TkReady k t io c) s)\<lparr>sy_pool := sy_pool ?s\<rparr>) = Return s' \<and> sys_inv s'"
    using drop_waiter_inv [of ?s "TkReady k t io c" t k] x inv queue_inv_pool [of s "sy_pool ?s"]
    by (auto simp: sys_inv_def slots_inv_def)
  moreover have "0 < po_acquired (sy_pool s)"
    using inv holders_end [OF x] by (simp add: sys_inv_def slots_inv_def)
  ultimately show ?thesis using EvReadyDropped by (simp add: sys_exec_def on_pool_def conn_release_def)
next
  case (EvFailedDropped k t)
  with en drop_task_inv [OF inv, of "TkFailed k t" t k] show ?thesis by (simp add: sys_exec_def enabled_def)
next
  case (EvOpened k t ch p io)
  with en have x: "TkOpen k t ch \<in># sy_tasks s" by (simp add: enabled_def)
  show ?thesis
    by (cases p) (use EvOpened answer_waiter_ok [OF inv x, of ch k t "ConnH1 io" now]
      sys_inv_replace [OF inv x, of "TkOpenH2 k t ch io"] in \<open>simp_all add: sys_exec_def\<close>)
next
  case (EvOpenedH2 k t ch io)
  with en answer_waiter_ok [OF inv, of "TkOpenH2 k t ch io" ch k t "ConnH2 io" now] show ?thesis
    by (simp add: sys_exec_def enabled_def)
next
  case (EvOpenFailed k t ch)
  with en fail_waiter_ok(1) [OF inv, of "TkOpen k t ch" ch k t] show ?thesis by (simp add: sys_exec_def enabled_def)
next
  case (EvOpenH2Failed k t ch io)
  with en fail_waiter_ok(1) [OF inv, of "TkOpenH2 k t ch io" ch k t] show ?thesis by (simp add: sys_exec_def enabled_def)
next
  case (EvOpenDropped k t ch)
  with en fail_waiter_ok [OF inv, of "TkOpen k t ch" ch k t] on_release_ok [of "fail_waiter k t ch (end_task (TkOpen k t ch) s)" pool_check]
  show ?thesis by (auto simp: sys_exec_def enabled_def release_and_check_def)
next
  case (EvOpenH2Dropped k t ch io)
  with en fail_waiter_ok [OF inv, of "TkOpenH2 k t ch io" ch k t]
    on_release_ok [of "fail_waiter k t ch (end_task (TkOpenH2 k t ch io) s)" pool_check]
  show ?thesis by (auto simp: sys_exec_def enabled_def release_and_check_def)
next
  case (EvReleased k io c)
  let ?f = "\<lambda>p. pool_check (p\<lparr>po_available := AList.update k ((case map_of (po_available p) k of Some cs \<Rightarrow> cs | None \<Rightarrow> []) @
    [\<lparr>ac_io = io, ac_used = now, ac_created = c\<rparr>]) (po_available p)\<rparr>)"
  from EvReleased en sys_inv_end [OF inv, of "TkLease k io c"] on_release_ok [of "end_task (TkLease k io c) s" ?f]
  show ?thesis by (auto simp: sys_exec_def enabled_def pool_release_conn_def Let_def cong: exec.case_cong)
next
  case (EvClosed k io c)
  from EvClosed en sys_inv_end [OF inv, of "TkLease k io c"]
    on_release_ok [of "end_task (TkLease k io c) s" "\<lambda>p. pool_check (p\<lparr>po_closing := po_closing p @ close_conn (po_disconnect p) io\<rparr>)"]
  show ?thesis by (auto simp: sys_exec_def enabled_def pool_release_close_def)
next
  case (EvLeaseDropped k io c)
  with en sys_inv_end [OF inv, of "TkLease k io c"] release_ok [of "end_task (TkLease k io c) s"]
  show ?thesis by (auto simp: sys_exec_def enabled_def)
qed


lemma sys_inv_steps: "pool_steps s s' \<Longrightarrow> sys_inv s \<Longrightarrow> sys_inv s'"
proof (induction rule: pool_steps.induct)
  case (step s s1 e now probe s2)
  then have "sys_inv s1" by simp
  from sys_exec_ok [OF this step.hyps(2), of now probe] step.hyps(3) show ?case by simp
qed

lemma sys_inv_new: "sys_inv (system_new lifetime keep_alive disconnect limit)"
  by (simp add: sys_inv_def slots_inv_def queue_inv_def chan_inv_def system_new_def pool_new_def holders_def owners_def open_waiter_def)

lemma sys_inv_reach: "pool_steps (system_new lifetime keep_alive disconnect limit) s \<Longrightarrow> sys_inv s"
  using sys_inv_steps sys_inv_new by blast

end
