(* ===== verification/Client_Pool_Runs.thy ===== *)
theory Client_Pool_Runs
  imports Client_Pool_Invariant
begin

text \<open>
  What the connection pool promises over its runs, and where it does not: the slots that are lost, the order of the
  queue, and the wake-ups.
\<close>

section \<open>The slots that no task holds\<close>

text \<open>A slot is lost when \<open>acquired\<close> counts it and no task is left that would release it.\<close>

definition lost_slots :: "'io system \<Rightarrow> nat" where
  "lost_slots s = po_acquired (sy_pool s) - holders s"

definition balance :: "'io system \<Rightarrow> int" where
  "balance s = int (po_acquired (sy_pool s)) - int (holders s)"

lemma balance_lost: "sys_inv s \<Longrightarrow> balance s = int (lost_slots s)"
  by (simp add: sys_inv_def slots_inv_def lost_slots_def balance_def)

lemma balance_simps:
  "balance (add_task x s) = balance s - (if holds_slot x then 1 else 0)"
  "x \<in># sy_tasks s \<Longrightarrow> balance (end_task x s) = balance s + (if holds_slot x then 1 else 0)"
  "balance (s\<lparr>sy_pool := p\<rparr>) = balance s + int (po_acquired p) - int (po_acquired (sy_pool s))"
  using holders_end [of x s] by (auto simp: balance_def holders_add)

lemma balance_more: "balance (s\<lparr>sy_next := n\<rparr>) = balance s" "balance (s\<lparr>sy_support := m\<rparr>) = balance s"
  by (simp_all add: balance_def)

lemma on_release_balance:
  assumes "on_pool (case conn_release (sy_pool s) of Panic \<Rightarrow> Panic | Return p \<Rightarrow> Return (f p)) s = Return s'"
    and "\<And>p. po_acquired (f p) = po_acquired p"
  shows "balance s' = balance s - 1"
  using assms by (auto simp: on_pool_def conn_release_def balance_simps split: if_splits)

lemma release_balance:
  "on_pool (conn_release (sy_pool s)) s = Return s' \<Longrightarrow> balance s' = balance s - 1"
  by (auto simp: on_pool_def conn_release_def balance_simps split: if_splits)

lemma drop_waiter_balance: "drop_waiter k t s = Return s' \<Longrightarrow> balance s' = balance s"
  by (auto simp: drop_waiter_def on_pool_def pool_release_waiter_def balance_simps split: if_splits)

lemma fail_waiter_balance: "balance (fail_waiter k t ch s) = balance s"
  by (simp add: fail_waiter_def balance_simps)

lemma answer_waiter_balance: "answer_waiter k t ch io c s = Return s' \<Longrightarrow> balance s' = balance s - 1"
  by (auto simp: answer_waiter_def balance_simps release_balance split: if_splits)

lemma sys_call_balance: "sys_call now probe t a s = Return s' \<Longrightarrow> balance s' = balance s"
  using pool_acquire_fields [of now probe "the a" "sy_pool s"]
  by (auto simp: sys_call_def Let_def balance_simps balance_more on_pool_def pool_wait_for_def split: option.splits prod.splits acquire.splits if_splits)

lemma support_step_balance:
  assumes "sys_inv s"
  shows "support_step now probe s = SuAgain s' \<or> support_step now probe s = SuStop s' \<Longrightarrow> balance s' = balance s"
  using pool_acquire_fields [of now probe "fst (hd (po_queue (sy_pool s)))" "sy_pool s"]
  by (auto simp: support_step_def take_waiter_def balance_simps split: list.splits option.splits prod.splits acquire.splits if_splits)

lemma support_step_limit:
  "support_step now probe s = SuAgain s' \<or> support_step now probe s = SuStop s' \<Longrightarrow> po_limit (sy_pool s') = po_limit (sy_pool s)"
  by (auto simp: support_step_def take_waiter_def split: list.splits option.splits prod.splits acquire.splits if_splits
      dest: pool_acquire_fields)

lemma support_loop_keeps:
  "sys_inv s \<Longrightarrow> support_loop now probe s = Some (Return s') \<Longrightarrow>
     balance s' = balance s \<and> po_limit (sy_pool s') = po_limit (sy_pool s)"
proof (induction "size (po_queue (sy_pool s))" arbitrary: s rule: less_induct)
  case less
  note ok = support_step_ok [OF less.prems(1), of now probe]
  show ?case
  proof (cases "support_step now probe s")
    case (SuAgain s1)
    with ok less.hyps [of s1] less.prems support_step_balance [of s now probe s1] support_step_limit [of now probe s s1]
    show ?thesis by (simp add: support_loop.simps [of now probe s])
  qed (use ok less.prems support_step_balance [of s now probe] support_step_limit [of now probe s] in
      \<open>simp_all add: support_loop.simps [of now probe s]\<close>)
qed

lemma support_poll_keeps:
  assumes "sys_inv s" and "support_poll now probe s = Some (Return s')"
  shows "balance s' = balance s" and "po_limit (sy_pool s') = po_limit (sy_pool s)"
proof -
  let ?s = "s\<lparr>sy_pool := (sy_pool s)\<lparr>po_waker := waker_register (po_waker (sy_pool s))\<rparr>\<rparr>"
  have "sys_inv ?s" by (rule sys_inv_pool) (use assms(1) in \<open>auto simp: sys_inv_def slots_inv_def\<close>)
  from support_loop_keeps [OF this, of now probe s'] assms(2)
  show "balance s' = balance s" and "po_limit (sy_pool s') = po_limit (sy_pool s)"
    by (simp_all add: support_poll_def balance_simps)
qed

text \<open>What an event adds to the number of lost slots.\<close>

fun loses :: "'io event \<Rightarrow> nat" where
  "loses (EvConnectFailed k) = 1"
| "loses (EvConnectDropped k) = 1"
| "loses (EvOpenFailed k t ch) = 1"
| "loses (EvOpenH2Failed k t ch io) = 1"
| "loses _ = 0"


lemma sys_exec_balance:
  assumes inv: "sys_inv s" and en: "enabled e s" and ex: "sys_exec now probe e s = Some (Return s')"
  shows "balance s' = balance s + int (loses e)"
proof (cases e)
  case (EvCall t a)
  with ex sys_call_balance [of now probe t a s s'] show ?thesis by (simp add: sys_exec_def)
next
  case EvSupport
  with support_poll_keeps(1) [OF inv, of now probe s'] ex show ?thesis by (simp add: sys_exec_def)
next
  case (EvConnected k p io)
  with ex en show ?thesis by (cases p) (auto simp: sys_exec_def enabled_def balance_simps)
next
  case (EvHandshakeFailed k io)
  with ex en on_release_balance [where s = "end_task (TkHandshake k io) s" and f = pool_check and s' = s'] show ?thesis
    by (simp add: sys_exec_def enabled_def release_and_check_def balance_simps)
next
  case (EvWaitDropped k t ch)
  with ex en drop_waiter_balance [of k t _ s'] show ?thesis by (simp add: sys_exec_def enabled_def balance_simps)
next
  case (EvReadyDropped k t io c)
  let ?s = "end_task (TkReady k t io c) s"
  from EvReadyDropped ex obtain s1 where "on_pool (conn_release (sy_pool ?s)) ?s = Return s1" "drop_waiter k t s1 = Return s'"
    by (auto simp: sys_exec_def split: exec.splits)
  with release_balance [of ?s s1] drop_waiter_balance [of k t s1 s'] EvReadyDropped en show ?thesis
    by (simp add: enabled_def balance_simps)
next
  case (EvFailedDropped k t)
  with ex en drop_waiter_balance [of k t _ s'] show ?thesis by (simp add: sys_exec_def enabled_def balance_simps)
next
  case (EvOpened k t ch p io)
  with ex en answer_waiter_balance [of k t ch _ now _ s'] show ?thesis
    by (cases p) (auto simp: sys_exec_def enabled_def balance_simps)
next
  case (EvOpenedH2 k t ch io)
  with ex en answer_waiter_balance [of k t ch _ now _ s'] show ?thesis by (simp add: sys_exec_def enabled_def balance_simps)
next
  case (EvOpenDropped k t ch)
  let ?s = "fail_waiter k t ch (end_task (TkOpen k t ch) s)"
  from EvOpenDropped ex en on_release_balance [where s = ?s and f = pool_check and s' = s'] fail_waiter_balance [of k t ch "end_task (TkOpen k t ch) s"] show ?thesis
    by (simp add: sys_exec_def enabled_def release_and_check_def balance_simps)
next
  case (EvOpenH2Dropped k t ch io)
  let ?s = "fail_waiter k t ch (end_task (TkOpenH2 k t ch io) s)"
  from EvOpenH2Dropped ex en on_release_balance [where s = ?s and f = pool_check and s' = s'] fail_waiter_balance [of k t ch "end_task (TkOpenH2 k t ch io) s"] show ?thesis
    by (simp add: sys_exec_def enabled_def release_and_check_def balance_simps)
next
  case (EvReleased k io c)
  let ?s = "end_task (TkLease k io c) s"
  from EvReleased ex en show ?thesis
    by (auto simp: sys_exec_def enabled_def on_pool_def pool_release_conn_def conn_release_def balance_simps Let_def split: if_splits)
next
  case (EvClosed k io c)
  from EvClosed ex en show ?thesis
    by (auto simp: sys_exec_def enabled_def on_pool_def pool_release_close_def conn_release_def balance_simps split: if_splits)
next
  case (EvLeaseDropped k io c)
  with ex en release_balance [of "end_task (TkLease k io c) s" s'] show ?thesis
    by (simp add: sys_exec_def enabled_def balance_simps)
qed (use ex en in \<open>auto simp: sys_exec_def enabled_def balance_simps fail_waiter_balance\<close>)

lemma steps_balance: "pool_steps s s' \<Longrightarrow> sys_inv s \<Longrightarrow> balance s \<le> balance s'"
proof (induction rule: pool_steps.induct)
  case (step s s1 e now probe s2)
  have "sys_inv s1" using step.hyps(1) step.prems by (rule sys_inv_steps)
  from sys_exec_balance [OF this step.hyps(2,3)] step.IH [OF step.prems] show ?case by simp
qed simp

lemmas pool_operation_defs = sys_call_def on_pool_def pool_wait_for_def release_and_check_def drop_waiter_def pool_release_waiter_def
  conn_release_def pool_release_conn_def pool_release_close_def answer_waiter_def fail_waiter_def

lemma event_run_limit:
  assumes "e \<noteq> EvSupport" and "event_run now probe e s = Some (Return s')"
  shows "po_limit (sy_pool s') = po_limit (sy_pool s)"
  using assms
  by (induction now probe e s rule: event_run.induct)
    (auto simp: pool_operation_defs Let_def split: if_splits option.splits prod.splits acquire.splits exec.splits dest: pool_acquire_fields)

lemma steps_limit: "pool_steps s s' \<Longrightarrow> sys_inv s \<Longrightarrow> po_limit (sy_pool s') = po_limit (sy_pool s)"
proof (induction rule: pool_steps.induct)
  case (step s s1 e now probe s2)
  have inv: "sys_inv s1" using step.hyps(1) step.prems by (rule sys_inv_steps)
  have "po_limit (sy_pool s2) = po_limit (sy_pool s1)"
  proof (cases "e = EvSupport")
    case True
    with support_poll_keeps(2) [OF inv, of now probe s2] step.hyps(3) show ?thesis by (simp add: sys_exec_def)
  next
    case False
    from event_run_limit [OF this step.hyps(3) [unfolded sys_exec_def]] show ?thesis by (simp split: option.splits)
  qed
  with step.IH [OF step.prems] show ?case by simp
qed simp


lemma pool_steps_trans: "pool_steps s' s'' \<Longrightarrow> pool_steps s s' \<Longrightarrow> pool_steps s s''"
proof (induction rule: pool_steps.induct)
  case (step s1 s2 e now probe s3)
  then show ?case by (blast intro: pool_steps.step)
qed

fun is_lease :: "'io task \<Rightarrow> bool" where
  "is_lease (TkLease k io c) = True"
| "is_lease _ = False"

definition leases :: "'io system \<Rightarrow> nat" where
  "leases s = size (filter_mset is_lease (sy_tasks s))"

lemma leases_holders: "leases s \<le> holders s"
proof -
  have "is_lease x \<Longrightarrow> holds_slot x" for x :: "'io task" by (cases x) auto
  then show ?thesis unfolding leases_def holders_def by (intro size_mset_mono filter_mset_mono_strong) auto
qed

text \<open>Rounds in which the waiter that is first in the queue is served and another request starts to wait.\<close>

fun pool_rounds :: "(key \<times> token \<times> nat) list \<Rightarrow> 'io pool \<Rightarrow> 'io pool exec" where
  "pool_rounds [] p = Return p"
| "pool_rounds ((key, t, ch) # xs) p =
     (case pool_wait_for t ch key (take_waiter (snd (hd (po_queue p))) p) of
        Panic \<Rightarrow> Panic
      | Return p \<Rightarrow> pool_rounds xs p)"

lemma swap_remove_first_second: "3 \<le> length q \<Longrightarrow> length (swap_remove_first q) = length q - 1 \<and> swap_remove_first q ! 1 = q ! 1"
  by (cases q; cases "tl q" rule: rev_cases) (auto simp: swap_remove_first_def nth_append nth_Cons split: nat.splits)

section \<open>What the pool does\<close>

definition one_call :: "nat system" where
  "one_call = add_task (TkConnect ''a'')
     ((system_new 75 15 None 1)\<lparr>sy_pool := pool_reserve (pool_new 75 15 None 1), sy_support := 1\<rparr>)"

definition lost_call :: "nat system" where
  "lost_call = end_task (TkConnect ''a'') one_call"

definition waiting_call :: "nat system" where
  "waiting_call = add_task (TkWait ''b'' 0 0) (lost_call\<lparr>sy_support := 2, sy_next := 1,
     sy_pool := (sy_pool lost_call)\<lparr>po_waiters := [(0, Some 0)], po_queue := [(''b'', 0)]\<rparr>\<rparr>)"

definition lease_and_waiter :: "nat system" where
  "lease_and_waiter =
     \<lparr>sy_pool = (pool_reserve (pool_new 75 15 None 1))\<lparr>po_waiters := [(0, Some 0)], po_queue := [(''b'', 0)]\<rparr>,
      sy_tasks = {#TkWait ''b'' 0 0, TkLease ''a'' (ConnH1 7) 5#}, sy_support = 2, sy_next = 1\<rparr>"

lemma pool_one_step:
  "enabled e s \<Longrightarrow> sys_exec now probe e s = Some (Return s') \<Longrightarrow> pool_steps s s'"
  by (rule pool_steps.step [OF pool_steps.refl])

lemma example_runs:
  "pool_steps (system_new 75 15 None 1) one_call"
  "enabled (EvConnectFailed ''a'') one_call"
  "sys_exec now probe (EvConnectFailed ''a'') one_call = Some (Return lost_call)"
  "pool_steps lost_call waiting_call"
  "pool_steps (system_new 75 15 None 1) lease_and_waiter"
proof -
  show one: "pool_steps (system_new 75 15 None 1) one_call"
    by (rule pool_one_step [of "EvCall 0 (Some ''a'')"])
      (auto simp: enabled_def sys_exec_def sys_call_def pool_acquire_def system_new_def pool_new_def pool_reserve_def one_call_def add_task_def)
  show "enabled (EvConnectFailed ''a'') one_call" by (simp add: enabled_def one_call_def)
  show "sys_exec now probe (EvConnectFailed ''a'') one_call = Some (Return lost_call)"
    by (simp add: sys_exec_def lost_call_def)
  show "pool_steps lost_call waiting_call"
    by (rule pool_one_step [of "EvCall 0 (Some ''b'')"])
      (auto simp: enabled_def sys_exec_def sys_call_def pool_acquire_def system_new_def pool_new_def pool_reserve_def
        one_call_def lost_call_def waiting_call_def add_task_def end_task_def on_pool_def pool_wait_for_def)
  let ?lease = "\<lparr>sy_pool = pool_reserve (pool_new 75 15 None 1), sy_tasks = {#TkLease ''a'' (ConnH1 7) 5#},
    sy_support = 1, sy_next = 0\<rparr> :: nat system"
  have "pool_steps one_call ?lease"
    by (rule pool_one_step [of "EvConnected ''a'' Http1 7" _ 5])
      (auto simp: enabled_def sys_exec_def one_call_def add_task_def end_task_def system_new_def)
  moreover have "pool_steps ?lease lease_and_waiter"
    by (rule pool_one_step [of "EvCall 0 (Some ''b'')"])
      (auto simp: enabled_def sys_exec_def sys_call_def pool_acquire_def pool_new_def pool_reserve_def
        lease_and_waiter_def add_task_def on_pool_def pool_wait_for_def)
  ultimately show "pool_steps (system_new 75 15 None 1) lease_and_waiter" using one pool_steps_trans by blast
qed

text \<open>
  Property C20. Whatever requests, connectors, peers and dropped futures do, in every state that the client can
  reach every event returns: no operation of the pool panics, not one of its assertions, unwraps and
  subtractions fails, and the loop of the support future ends.
\<close>

theorem pool_events_return:
  assumes "pool_steps (system_new lifetime keep_alive disconnect limit) s" and "enabled e s"
  shows "\<exists>s'. sys_exec now probe e s = Some (Return s')"
  using sys_exec_ok [OF sys_inv_reach [OF assms(1)] assms(2)] by blast

lemma pool_events_return_witness:
  "\<exists>s'. sys_exec 6 (\<lambda>_. PbPending) (EvConnectFailed ''a'') one_call = Some (Return s')"
  by (rule pool_events_return [OF example_runs(1,2)])

text \<open>
  Property C21. The connections lent to requests, together with the slots that were lost, are never more than the
  limit.
\<close>

theorem pool_limit_respected:
  assumes "pool_steps (system_new lifetime keep_alive disconnect limit) s" and "0 < limit"
  shows "leases s + lost_slots s \<le> limit"
proof -
  have "sys_inv s" using assms(1) by (rule sys_inv_reach)
  moreover have "po_limit (sy_pool s) = limit"
    using steps_limit [OF assms(1) sys_inv_new] by (simp add: system_new_def pool_new_def)
  ultimately show ?thesis using leases_holders [of s] assms(2) by (auto simp: sys_inv_def slots_inv_def lost_slots_def)
qed

lemma pool_limit_respected_witness: "leases lease_and_waiter + lost_slots lease_and_waiter \<le> 1"
  using pool_limit_respected [OF example_runs(5)] by simp

text \<open>
  Property C22. When a connector fails for a request, the slot that the request reserved is lost: no later event
  of any kind brings it back.
\<close>

theorem failed_connects_exhaust:
  assumes "pool_steps (system_new lifetime keep_alive disconnect limit) s" and "enabled (EvConnectFailed k) s"
    and "sys_exec now probe (EvConnectFailed k) s = Some (Return s1)" and "pool_steps s1 s2"
  shows "lost_slots s < lost_slots s2"
proof -
  have inv: "sys_inv s" using assms(1) by (rule sys_inv_reach)
  from sys_exec_ok [OF inv assms(2), of now probe] assms(3) have inv1: "sys_inv s1" by simp
  have "balance s < balance s1" using sys_exec_balance [OF inv assms(2,3)] by simp
  also have "\<dots> \<le> balance s2" using assms(4) inv1 by (rule steps_balance)
  finally show ?thesis using balance_lost [OF inv] balance_lost [OF sys_inv_steps [OF assms(4) inv1]] by simp
qed

lemma failed_connects_exhaust_witness: "lost_slots one_call < lost_slots waiting_call"
  by (rule failed_connects_exhaust [OF example_runs(1,2,3,4)])

text \<open>
  When all the slots of a limited pool are lost, no request ever gets a connection again.
\<close>

theorem exhausted_pool_starves:
  assumes "pool_steps (system_new lifetime keep_alive disconnect limit) s" and "0 < limit" and "lost_slots s = limit"
    and "pool_steps s s'"
  shows "leases s' = 0"
proof -
  have inv: "sys_inv s" using assms(1) by (rule sys_inv_reach)
  have inv': "sys_inv s'" using assms(4) inv by (rule sys_inv_steps)
  have lim: "po_limit (sy_pool s') = limit"
    using steps_limit [OF assms(1) sys_inv_new] steps_limit [OF assms(4) inv] by (simp add: system_new_def pool_new_def)
  have "lost_slots s \<le> lost_slots s'"
    using steps_balance [OF assms(4) inv] balance_lost [OF inv] balance_lost [OF inv'] by simp
  moreover have "holders s' + lost_slots s' \<le> limit"
    using inv' lim assms(2) by (auto simp: sys_inv_def slots_inv_def lost_slots_def)
  ultimately show ?thesis using leases_holders [of s'] assms(3) by simp
qed

lemma exhausted_pool_starves_witness: "leases waiting_call = 0"
proof -
  have "lost_slots lost_call = 1"
    by (simp add: lost_slots_def holders_def lost_call_def one_call_def system_new_def pool_reserve_def pool_new_def add_task_def end_task_def)
  moreover have "pool_steps (system_new 75 15 None 1) lost_call"
    by (rule pool_steps.step [OF example_runs(1,2,3)])
  ultimately show ?thesis using exhausted_pool_starves [of 75 15 None 1 lost_call waiting_call] example_runs(4) by simp
qed

text \<open>
  The queue of the waiting requests is not served in its order: removing the first one puts the last
  one in its place, so with at least three waiting the second one stays the second one
  for ever, however many requests that came after it are served.
\<close>

theorem second_waiter_starves:
  assumes "3 \<le> length (po_queue p)" and "pool_rounds arrivals p = Return p'"
  shows "po_queue p' ! 1 = po_queue p ! 1"
  using assms
proof (induction arrivals p rule: pool_rounds.induct)
  case (2 key t ch xs p)
  let ?p = "take_waiter (snd (hd (po_queue p))) p"
  from 2(3) obtain p1 where p1: "pool_wait_for t ch key ?p = Return p1" "pool_rounds xs p1 = Return p'"
    by (auto split: exec.splits)
  then have q: "po_queue p1 = swap_remove_first (po_queue p) @ [(key, t)]"
    by (auto simp: pool_wait_for_def take_waiter_def split: if_splits)
  from swap_remove_first_second [OF 2(2)] 2(2) q have "3 \<le> length (po_queue p1)" "po_queue p1 ! 1 = po_queue p ! 1"
    by (auto simp: nth_append)
  with 2(1) [OF p1(1) _ p1(2)] show ?case by simp
qed simp

lemma second_waiter_starves_witness:
  "\<exists>p'. pool_rounds [(''a'', 3, 3), (''a'', 4, 4)]
      ((pool_new 75 15 None 1 :: nat pool)\<lparr>po_waiters := [(0, Some 0), (1, Some 1), (2, Some 2)],
        po_queue := [(''a'', 0), (''a'', 1), (''a'', 2)]\<rparr>) = Return p' \<and> po_queue p' ! 1 = (''a'', 1)"
proof -
  let ?p = "(pool_new 75 15 None 1 :: nat pool)\<lparr>po_waiters := [(0, Some 0), (1, Some 1), (2, Some 2)],
        po_queue := [(''a'', 0), (''a'', 1), (''a'', 2)]\<rparr>"
  obtain p' where p': "pool_rounds [(''a'', 3, 3), (''a'', 4, 4)] ?p = Return p'"
    by (simp add: pool_wait_for_def take_waiter_def swap_remove_first_def)
  with second_waiter_starves [OF _ p'] show ?thesis by simp
qed

text \<open>
  When a request drops its connection without giving it back, a slot becomes free while requests are
  waiting and nobody wakes the future that would serve them; closing the connection does wake it.
\<close>

theorem lease_drop_wakes_nobody:
  assumes "pool_steps (system_new lifetime keep_alive disconnect limit) s" and "enabled (EvLeaseDropped k io c) s"
    and "po_queue (sy_pool s) \<noteq> []" and "po_acquired (sy_pool s) = limit" and "0 < limit"
  shows "(\<exists>s'. sys_exec now probe (EvLeaseDropped k io c) s = Some (Return s') \<and> po_queue (sy_pool s') \<noteq> [] \<and>
      po_acquired (sy_pool s') < limit \<and> po_waker (sy_pool s') = po_waker (sy_pool s)) \<and>
    (\<exists>s'. sys_exec now probe (EvClosed k io c) s = Some (Return s') \<and>
      po_waker (sy_pool s') = waker_wake (po_waker (sy_pool s)))"
proof -
  have "po_limit (sy_pool s) = limit"
    using steps_limit [OF assms(1) sys_inv_new] by (simp add: system_new_def pool_new_def)
  with assms show ?thesis
    by (simp add: sys_exec_def on_pool_def conn_release_def pool_release_close_def pool_check_def)
qed

lemma lease_drop_wakes_nobody_witness:
  "\<exists>s'. sys_exec 6 (\<lambda>_. PbPending) (EvLeaseDropped ''a'' (ConnH1 7) 5) lease_and_waiter = Some (Return s') \<and>
     po_queue (sy_pool s') \<noteq> [] \<and> po_acquired (sy_pool s') < 1"
  using lease_drop_wakes_nobody [OF example_runs(5), of "''a''" "ConnH1 7" 5 6 "\<lambda>_. PbPending"]
  by (auto simp: enabled_def lease_and_waiter_def pool_reserve_def pool_new_def)

text \<open>
  A connection that is acquired from the idle ones is the most recently released one that is usable:
  within its keep alive time, within its lifetime and, for HTTP/1, without anything to read; those released after it
  are discarded and those before it are kept. Without a usable one the caller has to open a
  connection, and with the limit reached nothing changes.
\<close>

theorem pool_acquire_latest_usable:
  assumes "pool_acquire now probe key p = (r, p')" and "map_of (po_available p) key = Some conns"
  shows "case r of
      AcAcquired io created \<Rightarrow> \<exists>kept c stale. conns = kept @ c # stale \<and> ac_io c = io \<and> ac_created c = created \<and>
        usable (po_lifetime p) (po_keep_alive p) now probe c \<and>
        (\<forall>x \<in> set stale. \<not> usable (po_lifetime p) (po_keep_alive p) now probe x) \<and>
        map_of (po_available p') key = Some kept \<and> po_acquired p' = po_acquired p + 1
    | AcAvailable \<Rightarrow> (\<forall>x \<in> set conns. \<not> usable (po_lifetime p) (po_keep_alive p) now probe x) \<and>
        map_of (po_available p') key = Some [] \<and> po_acquired p' = po_acquired p + 1
    | AcNotAvailable \<Rightarrow> 0 < po_limit p \<and> po_limit p \<le> po_acquired p \<and> p' = p"
proof (cases "po_limit p > 0 \<and> po_acquired p \<ge> po_limit p")
  case True
  with assms(1) show ?thesis by (auto simp: pool_acquire_def)
next
  case False
  obtain found rest closing where s: "scan_conns (po_lifetime p) (po_keep_alive p) (po_disconnect p) now probe (rev conns) = (found, rest, closing)"
    by (metis prod.collapse)
  show ?thesis
  proof (cases found)
    case None
    with scan_conns_usable [OF s] s False assms show ?thesis
      by (auto simp: pool_acquire_def pool_reserve_def update_conv' Let_def)
  next
    case (Some f)
    obtain io created where f: "f = (io, created)" by (cases f)
    from scan_conns_usable [OF s] Some f obtain stale c where c: "rev conns = stale @ c # rest" "ac_io c = io" "ac_created c = created"
      "usable (po_lifetime p) (po_keep_alive p) now probe c"
      "\<forall>x \<in> set stale. \<not> usable (po_lifetime p) (po_keep_alive p) now probe x" by auto
    from c(1) have "conns = rev rest @ c # rev stale" by (metis append_assoc rev_append rev_rev_ident rev.simps(2) append_Cons append_Nil)
    with c Some f s False assms show ?thesis
      by (auto simp: pool_acquire_def pool_reserve_def update_conv' Let_def intro!: exI [of _ "rev rest"])
  qed
qed

lemma pool_acquire_latest_usable_witness:
  "\<exists>p'. pool_acquire 10 (\<lambda>s. if s = 2 then PbGone else PbPending) ''a''
      ((pool_new 75 15 None 4 :: nat pool)\<lparr>po_available := [(''a'', [\<lparr>ac_io = ConnH1 1, ac_used = 3, ac_created = 0\<rparr>,
        \<lparr>ac_io = ConnH1 2, ac_used = 9, ac_created = 4\<rparr>])]\<rparr>) = (AcAcquired (ConnH1 1) 0, p') \<and>
    map_of (po_available p') ''a'' = Some []"
proof -
  let ?p = "(pool_new 75 15 None 4 :: nat pool)\<lparr>po_available := [(''a'', [\<lparr>ac_io = ConnH1 1, ac_used = 3, ac_created = 0\<rparr>,
        \<lparr>ac_io = ConnH1 2, ac_used = 9, ac_created = 4\<rparr>])]\<rparr>"
  let ?probe = "\<lambda>s. if s = 2 then PbGone else PbPending"
  obtain p' where p': "pool_acquire 10 ?probe ''a'' ?p = (AcAcquired (ConnH1 1) 0, p')"
    by (simp add: pool_acquire_def pool_reserve_def pool_new_def)
  from pool_acquire_latest_usable [OF p'] show ?thesis
    using p' by (auto simp: Cons_eq_append_conv)
qed

end
