(* ===== verification/Header_Parsing.thy ===== *)
theory Header_Parsing
  imports Http_Types
begin

text \<open>
  Reading and writing typed header values: the helpers of \<open>header/mod.rs\<close>, the character sets and
  codings of \<open>header/shared/\<close>, and extended parameter values. The crates
  \<open>percent_encoding\<close> and \<open>language_tags\<close> are parameters.
\<close>

section \<open>Splitting\<close>

text \<open>\<open>str::split\<close>, \<open>splitn(2, _)\<close> and \<open>rsplitn(2, _)\<close> at a character: the last two in their order.\<close>

fun split_on :: "byte \<Rightarrow> bytes \<Rightarrow> bytes list" where
  "split_on c [] = [[]]"
| "split_on c (b # bs) =
     (if b = c then [] # split_on c bs
      else (case split_on c bs of p # ps \<Rightarrow> (b # p) # ps | [] \<Rightarrow> [[b]]))"

definition split_in_two :: "bytes \<Rightarrow> byte \<Rightarrow> (bytes \<times> bytes) option" where
  "split_in_two s c = (if c \<in> set s then Some (takeWhile (\<lambda>b. b \<noteq> c) s, tl (dropWhile (\<lambda>b. b \<noteq> c) s)) else None)"

definition rsplit_in_two :: "bytes \<Rightarrow> byte \<Rightarrow> (bytes \<times> bytes) option" where
  "rsplit_in_two s c = (case split_in_two (rev s) c of Some (a, b) \<Rightarrow> Some (rev a, rev b) | None \<Rightarrow> None)"

lemma split_on_no: "c \<notin> set s \<Longrightarrow> split_on c s = [s]"
  by (induction s) auto

lemma split_on_append: "c \<notin> set s \<Longrightarrow> split_on c (s @ c # t) = s # split_on c t"
  by (induction s) auto

lemma split_in_two_append [simp]: "c \<notin> set a \<Longrightarrow> split_in_two (a @ c # b) c = Some (a, b)"
  by (induction a) (auto simp: split_in_two_def)

lemma split_in_two_None [simp]: "c \<notin> set a \<Longrightarrow> split_in_two a c = None"
  by (simp add: split_in_two_def)

lemma split_in_two_Some: "split_in_two s c = Some (a, b) \<Longrightarrow> s = a @ c # b \<and> c \<notin> set a"
proof -
  assume s: "split_in_two s c = Some (a, b)"
  then have c: "c \<in> set s" "a = takeWhile (\<lambda>b. b \<noteq> c) s" "b = tl (dropWhile (\<lambda>b. b \<noteq> c) s)"
    by (auto simp: split_in_two_def split: if_splits)
  then have "dropWhile (\<lambda>b. b \<noteq> c) s \<noteq> []" by simp
  with c have "dropWhile (\<lambda>b. b \<noteq> c) s = c # b" by (metis (mono_tags) hd_dropWhile list.collapse)
  with c(2) show ?thesis by (metis (mono_tags) set_takeWhileD takeWhile_dropWhile_id)
qed

lemma rsplit_in_two_append [simp]: "c \<notin> set b \<Longrightarrow> rsplit_in_two (a @ c # b) c = Some (b, a)"
  by (simp add: rsplit_in_two_def)

lemma rsplit_in_two_None [simp]: "c \<notin> set a \<Longrightarrow> rsplit_in_two a c = None"
  by (simp add: rsplit_in_two_def)

text \<open>A string that trimming leaves alone.\<close>

definition trimmed :: "bytes \<Rightarrow> bool" where
  "trimmed s \<longleftrightarrow> s = [] \<or> (\<not> is_ws (hd s) \<and> \<not> is_ws (last s))"

lemma trim_trimmed [simp]: "trimmed s \<Longrightarrow> trim s = s"
proof -
  assume "trimmed s"
  then have "dropWhile is_ws s = s" "dropWhile is_ws (rev s) = rev s"
    by (auto simp: trimmed_def dropWhile_eq_self_iff hd_rev)
  then show ?thesis by (simp add: trim_def)
qed

lemma trim_space: "trimmed s \<Longrightarrow> s \<noteq> [] \<Longrightarrow> trim (0x20 # s) = s"
  using trim_trimmed [of s] by (simp add: trim_def is_ws_def)

section \<open>Lists of values\<close>

text \<open>The items of one value: empty ones and those that do not parse are passed over.\<close>

definition comma_items :: "(bytes \<Rightarrow> ('a, 'e) result) \<Rightarrow> bytes \<Rightarrow> 'a list" where
  "comma_items parse s =
     List.map_filter (\<lambda>x. case parse (trim x) of Ok a \<Rightarrow> Some a | Err e \<Rightarrow> None)
       (filter (\<lambda>x. trim x \<noteq> []) (split_on 0x2C s))"

fun from_comma_delimited ::
  "http_lib \<Rightarrow> (bytes \<Rightarrow> ('a, 'e) result) \<Rightarrow> header_value list \<Rightarrow> ('a list, parse_error) result" where
  "from_comma_delimited lib parse [] = Ok []"
| "from_comma_delimited lib parse (h # hs) =
     (case hl_to_str lib h of
        None \<Rightarrow> Err PeHeader
      | Some s \<Rightarrow>
          (case from_comma_delimited lib parse hs of
             Err e \<Rightarrow> Err e
           | Ok xs \<Rightarrow> Ok (comma_items parse s @ xs)))"

definition from_one_raw_str ::
  "http_lib \<Rightarrow> (bytes \<Rightarrow> ('a, 'e) result) \<Rightarrow> header_value option \<Rightarrow> ('a, parse_error) result" where
  "from_one_raw_str lib parse val =
     (case Option.bind val (\<lambda>v. Some (hl_to_str lib v)) of
        None \<Rightarrow> Err PeHeader
      | Some None \<Rightarrow> Err PeHeader
      | Some (Some line) \<Rightarrow>
          if line \<noteq> [] then (case parse line of Ok a \<Rightarrow> Ok a | Err e \<Rightarrow> Err PeHeader) else Err PeHeader)"

fun fmt_comma_delimited :: "('a \<Rightarrow> bytes) \<Rightarrow> 'a list \<Rightarrow> bytes" where
  "fmt_comma_delimited fmt [] = []"
| "fmt_comma_delimited fmt (p # ps) = fmt p @ concat (map (\<lambda>q. bstr '', '' @ fmt q) ps)"

text \<open>
  An item of such a list: what is written for a good item parses to it, is not empty, has no white space at its ends
  and no comma. Then a list of good items is read back from one value, and from several.
\<close>

locale list_item =
  fixes parse :: "bytes \<Rightarrow> ('a, 'e) result" and fmt :: "'a \<Rightarrow> bytes" and good :: "'a \<Rightarrow> bool"
  assumes parse_fmt: "good x \<Longrightarrow> parse (fmt x) = Ok x"
    and fmt_plain: "good x \<Longrightarrow> fmt x \<noteq> [] \<and> trimmed (fmt x) \<and> 0x2C \<notin> set (fmt x)"
begin

lemma comma_items_rest:
  assumes "list_all good ps" and "good p"
  shows "comma_items parse (0x20 # fmt p @ concat (map (\<lambda>q. bstr '', '' @ fmt q) ps)) = p # ps"
  using assms
proof (induction ps arbitrary: p)
  case Nil
  with fmt_plain [of p] parse_fmt [of p] show ?case
    by (simp add: comma_items_def split_on_no trim_space List.map_filter_simps)
next
  case (Cons q qs)
  let ?rest = "0x20 # fmt q @ concat (map (\<lambda>q. bstr '', '' @ fmt q) qs)"
  have "split_on 0x2C ((0x20 # fmt p) @ 0x2C # ?rest) = (0x20 # fmt p) # split_on 0x2C ?rest"
    by (rule split_on_append) (use fmt_plain [of p] Cons.prems in auto)
  moreover have "comma_items parse ?rest = q # qs" using Cons by simp
  ultimately show ?case
    using fmt_plain [of p] parse_fmt [of p] Cons.prems by (simp add: comma_items_def trim_space List.map_filter_simps)
qed

lemma comma_items_fmt: "list_all good ps \<Longrightarrow> comma_items parse (fmt_comma_delimited fmt ps) = ps"
proof (cases ps)
  case Nil
  then show ?thesis by (simp add: comma_items_def trim_def List.map_filter_simps)
next
  case (Cons p qs)
  assume "list_all good ps"
  with Cons have p: "good p" "list_all good qs" by simp_all
  show ?thesis
  proof (cases qs)
    case Nil
    with Cons p fmt_plain [of p] parse_fmt [of p] show ?thesis
      by (simp add: comma_items_def split_on_no List.map_filter_simps)
  next
    case (Cons q rs)
    let ?rest = "0x20 # fmt q @ concat (map (\<lambda>q. bstr '', '' @ fmt q) rs)"
    have "split_on 0x2C (fmt p @ 0x2C # ?rest) = fmt p # split_on 0x2C ?rest"
      by (rule split_on_append) (use fmt_plain [of p] p in auto)
    moreover have "comma_items parse ?rest = q # rs" by (rule comma_items_rest) (use p Cons in auto)
    ultimately show ?thesis
      using \<open>ps = p # qs\<close> Cons fmt_plain [of p] parse_fmt [of p] p by (simp add: comma_items_def List.map_filter_simps)
  qed
qed

lemma from_comma_delimited_fmt:
  assumes "\<And>s. s \<in> set vs \<Longrightarrow> list_all good s \<and> hl_to_str lib (fmt_comma_delimited fmt s) = Some (fmt_comma_delimited fmt s)"
  shows "from_comma_delimited lib parse (map (fmt_comma_delimited fmt) vs) = Ok (concat vs)"
  using assms by (induction vs) (auto simp: comma_items_fmt)

end

section \<open>Character sets\<close>

definition to_upper :: "byte \<Rightarrow> byte" where
  "to_upper b = (if 0x61 \<le> b \<and> b \<le> 0x7A then b - 32 else b)"

definition to_ascii_uppercase :: "bytes \<Rightarrow> bytes" where
  "to_ascii_uppercase s = map to_upper s"

datatype charset =
    Us_Ascii | Iso_8859_1 | Iso_8859_2 | Iso_8859_3 | Iso_8859_4 | Iso_8859_5 | Iso_8859_6 | Iso_8859_7 | Iso_8859_8
  | Iso_8859_9 | Iso_8859_10 | Shift_Jis | Euc_Jp | Iso_2022_Kr | Euc_Kr | Iso_2022_Jp | Iso_2022_Jp_2 | Iso_8859_6_E
  | Iso_8859_6_I | Iso_8859_8_E | Iso_8859_8_I | Gb2312 | Big5 | Koi8_R | CharsetExt bytes

fun charset_label :: "charset \<Rightarrow> bytes" where
  "charset_label Us_Ascii = bstr ''US-ASCII''"
| "charset_label Iso_8859_1 = bstr ''ISO-8859-1''"
| "charset_label Iso_8859_2 = bstr ''ISO-8859-2''"
| "charset_label Iso_8859_3 = bstr ''ISO-8859-3''"
| "charset_label Iso_8859_4 = bstr ''ISO-8859-4''"
| "charset_label Iso_8859_5 = bstr ''ISO-8859-5''"
| "charset_label Iso_8859_6 = bstr ''ISO-8859-6''"
| "charset_label Iso_8859_7 = bstr ''ISO-8859-7''"
| "charset_label Iso_8859_8 = bstr ''ISO-8859-8''"
| "charset_label Iso_8859_9 = bstr ''ISO-8859-9''"
| "charset_label Iso_8859_10 = bstr ''ISO-8859-10''"
| "charset_label Shift_Jis = bstr ''Shift-JIS''"
| "charset_label Euc_Jp = bstr ''EUC-JP''"
| "charset_label Iso_2022_Kr = bstr ''ISO-2022-KR''"
| "charset_label Euc_Kr = bstr ''EUC-KR''"
| "charset_label Iso_2022_Jp = bstr ''ISO-2022-JP''"
| "charset_label Iso_2022_Jp_2 = bstr ''ISO-2022-JP-2''"
| "charset_label Iso_8859_6_E = bstr ''ISO-8859-6-E''"
| "charset_label Iso_8859_6_I = bstr ''ISO-8859-6-I''"
| "charset_label Iso_8859_8_E = bstr ''ISO-8859-8-E''"
| "charset_label Iso_8859_8_I = bstr ''ISO-8859-8-I''"
| "charset_label Gb2312 = bstr ''GB2312''"
| "charset_label Big5 = bstr ''big5''"
| "charset_label Koi8_R = bstr ''KOI8-R''"
| "charset_label (CharsetExt s) = s"

text \<open>The arms of \<open>from_str\<close> in their order, the text of each and the character set.\<close>

definition charset_arms :: "(bytes \<times> charset) list" where
  "charset_arms =
     [(bstr ''US-ASCII'', Us_Ascii), (bstr ''ISO-8859-1'', Iso_8859_1), (bstr ''ISO-8859-2'', Iso_8859_2),
      (bstr ''ISO-8859-3'', Iso_8859_3), (bstr ''ISO-8859-4'', Iso_8859_4), (bstr ''ISO-8859-5'', Iso_8859_5),
      (bstr ''ISO-8859-6'', Iso_8859_6), (bstr ''ISO-8859-7'', Iso_8859_7), (bstr ''ISO-8859-8'', Iso_8859_8),
      (bstr ''ISO-8859-9'', Iso_8859_9), (bstr ''ISO-8859-10'', Iso_8859_10), (bstr ''SHIFT-JIS'', Shift_Jis),
      (bstr ''EUC-JP'', Euc_Jp), (bstr ''ISO-2022-KR'', Iso_2022_Kr), (bstr ''EUC-KR'', Euc_Kr),
      (bstr ''ISO-2022-JP'', Iso_2022_Jp), (bstr ''ISO-2022-JP-2'', Iso_2022_Jp_2),
      (bstr ''ISO-8859-6-E'', Iso_8859_6_E), (bstr ''ISO-8859-6-I'', Iso_8859_6_I),
      (bstr ''ISO-8859-8-E'', Iso_8859_8_E), (bstr ''ISO-8859-8-I'', Iso_8859_8_I), (bstr ''GB2312'', Gb2312),
      (bstr ''big5'', Big5), (bstr ''KOI8-R'', Koi8_R)]"

definition charset_from_str :: "bytes \<Rightarrow> (charset, parse_error) result" where
  "charset_from_str s =
     (case map_of charset_arms (to_ascii_uppercase s) of
        Some c \<Rightarrow> Ok c
      | None \<Rightarrow> Ok (CharsetExt (to_ascii_uppercase s)))"

lemma charset_named:
  "c \<noteq> Big5 \<Longrightarrow> \<forall>s. c \<noteq> CharsetExt s \<Longrightarrow> charset_from_str (charset_label c) = Ok c"
  by (cases c) (simp_all add: charset_from_str_def charset_arms_def to_ascii_uppercase_def to_upper_def)

lemma to_upper_upper: "\<not> (0x61 \<le> to_upper b \<and> to_upper b \<le> 0x7A)"
  by (auto simp: to_upper_def word_le_nat_alt unat_sub)

lemma big5_unreachable: "charset_from_str s \<noteq> Ok Big5"
proof -
  have ne: "to_ascii_uppercase s \<noteq> bstr ''big5''"
  proof
    assume "to_ascii_uppercase s = bstr ''big5''"
    then obtain b where "to_upper b = 0x62" by (auto simp: to_ascii_uppercase_def map_eq_Cons_conv)
    with to_upper_upper [of b] show False by simp
  qed
  then show ?thesis
    by (auto simp: charset_from_str_def charset_arms_def split: option.splits if_splits)
qed

text \<open>
  Which character sets survive printing and parsing. Every one does, \<open>CharsetExt\<close> when its name is in upper case and is no
  known label, except \<open>Big5\<close>: the name is put in upper case before it is compared with \<open>big5\<close>,
  so no text parses to \<open>Big5\<close>, and what is printed for it is read as an unknown character set.
\<close>

theorem charset_roundtrip:
  "charset_from_str (charset_label c) = Ok c \<longleftrightarrow>
     c \<noteq> Big5 \<and> (\<forall>s. c = CharsetExt s \<longrightarrow> to_ascii_uppercase s = s \<and> map_of charset_arms s = None)"
proof (cases "\<exists>s. c = CharsetExt s")
  case True
  then obtain s where c: "c = CharsetExt s" by blast
  have "map_of charset_arms (to_ascii_uppercase s) = Some k \<Longrightarrow> k \<noteq> CharsetExt s" for k
    by (auto simp: charset_arms_def split: if_splits)
  then show ?thesis using c by (auto simp: charset_from_str_def split: option.splits)
next
  case False
  then show ?thesis using big5_unreachable charset_named [of c] by (cases "c = Big5") auto
qed

section \<open>Codings\<close>

datatype encoding = EnChunked | EnBrotli | EnGzip | EnDeflate | EnCompress | EnIdentity | EnTrailers | EncodingExt bytes

fun encoding_fmt :: "encoding \<Rightarrow> bytes" where
  "encoding_fmt EnChunked = bstr ''chunked''"
| "encoding_fmt EnBrotli = bstr ''br''"
| "encoding_fmt EnGzip = bstr ''gzip''"
| "encoding_fmt EnDeflate = bstr ''deflate''"
| "encoding_fmt EnCompress = bstr ''compress''"
| "encoding_fmt EnIdentity = bstr ''identity''"
| "encoding_fmt EnTrailers = bstr ''trailers''"
| "encoding_fmt (EncodingExt s) = s"

definition encoding_from_str :: "bytes \<Rightarrow> (encoding, parse_error) result" where
  "encoding_from_str s =
     (if s = bstr ''chunked'' then Ok EnChunked
      else if s = bstr ''br'' then Ok EnBrotli
      else if s = bstr ''deflate'' then Ok EnDeflate
      else if s = bstr ''gzip'' then Ok EnGzip
      else if s = bstr ''compress'' then Ok EnCompress
      else if s = bstr ''identity'' then Ok EnIdentity
      else if s = bstr ''trailers'' then Ok EnTrailers
      else Ok (EncodingExt s))"

definition encoding_good :: "encoding \<Rightarrow> bool" where
  "encoding_good e \<longleftrightarrow>
     (case e of
        EncodingExt s \<Rightarrow> encoding_from_str s = Ok e \<and> s \<noteq> [] \<and> trimmed s \<and> 0x2C \<notin> set s
      | _ \<Rightarrow> True)"

interpretation encodings: list_item encoding_from_str encoding_fmt encoding_good
proof
  fix e assume "encoding_good e"
  then show "encoding_from_str (encoding_fmt e) = Ok e"
    by (cases e) (simp_all add: encoding_good_def encoding_from_str_def)
  show "encoding_fmt e \<noteq> [] \<and> trimmed (encoding_fmt e) \<and> 0x2C \<notin> set (encoding_fmt e)"
    using \<open>encoding_good e\<close> by (cases e) (simp_all add: encoding_good_def, simp_all add: trimmed_def is_ws_def)
qed

datatype content_encoding = CeAuto | CeBr | CeDeflate | CeGzip | CeIdentity

fun ce_is_compression :: "content_encoding \<Rightarrow> bool" where
  "ce_is_compression CeIdentity = False"
| "ce_is_compression CeAuto = False"
| "ce_is_compression _ = True"

fun ce_as_str :: "content_encoding \<Rightarrow> bytes" where
  "ce_as_str CeBr = bstr ''br''"
| "ce_as_str CeGzip = bstr ''gzip''"
| "ce_as_str CeDeflate = bstr ''deflate''"
| "ce_as_str CeIdentity = bstr ''identity''"
| "ce_as_str CeAuto = bstr ''identity''"

definition ce_from_str :: "bytes \<Rightarrow> content_encoding" where
  "ce_from_str s =
     (let s = trim s
      in if eq_ignore_ascii_case s (bstr ''br'') then CeBr
         else if eq_ignore_ascii_case s (bstr ''gzip'') then CeGzip
         else if eq_ignore_ascii_case s (bstr ''deflate'') then CeDeflate
         else CeIdentity)"

section \<open>Extended values\<close>

text \<open>\<open>percent_encode\<close> with the set of bytes to encode, \<open>percent_decode\<close>, and the parser and printer of language tags.\<close>

record 'l text_lib =
  tl_percent_encode :: "(byte \<Rightarrow> bool) \<Rightarrow> bytes \<Rightarrow> bytes"
  tl_percent_decode :: "bytes \<Rightarrow> bytes"
  tl_lang_parse :: "bytes \<Rightarrow> 'l option"
  tl_lang_fmt :: "'l \<Rightarrow> bytes"

text \<open>The set \<open>HTTP_VALUE\<close>: the control characters and what is added to them.\<close>

definition HTTP_VALUE :: "byte \<Rightarrow> bool" where
  "HTTP_VALUE b \<longleftrightarrow> b < 0x20 \<or> b = 0x7F \<or>
     b \<in> set (bstr '' '' @ [0x22] @ bstr ''%'' @ [0x27] @ bstr ''()*,/:;<->?['' @ [0x5C] @ bstr '']{}'')"

record 'l ext_value =
  ev_charset :: charset
  ev_language_tag :: "'l option"
  ev_value :: bytes

definition parse_extended_value :: "'l text_lib \<Rightarrow> bytes \<Rightarrow> ('l ext_value, parse_error) result" where
  "parse_extended_value tx val =
     (let (first, rest) = (case split_in_two val 0x27 of Some (a, b) \<Rightarrow> (a, Some b) | None \<Rightarrow> (val, None))
      in case charset_from_str first of
           Err _ \<Rightarrow> Err PeHeader
         | Ok cs \<Rightarrow>
             (case rest of
                None \<Rightarrow> Err PeHeader
              | Some b \<Rightarrow>
                  (let (second, third) = (case split_in_two b 0x27 of Some (a, b) \<Rightarrow> (a, Some b) | None \<Rightarrow> (b, None));
                       lang = (if second = [] then Some None
                               else (case tl_lang_parse tx second of Some l \<Rightarrow> Some (Some l) | None \<Rightarrow> None))
                   in case (lang, third) of
                        (None, _) \<Rightarrow> Err PeHeader
                      | (_, None) \<Rightarrow> Err PeHeader
                      | (Some lang, Some v) \<Rightarrow>
                          Ok \<lparr>ev_charset = cs, ev_language_tag = lang, ev_value = tl_percent_decode tx v\<rparr>)))"

definition ext_value_fmt :: "'l text_lib \<Rightarrow> 'l ext_value \<Rightarrow> bytes" where
  "ext_value_fmt tx ev =
     (let v = tl_percent_encode tx HTTP_VALUE (ev_value ev)
      in case ev_language_tag ev of
           Some lang \<Rightarrow> charset_label (ev_charset ev) @ [0x27] @ tl_lang_fmt tx lang @ [0x27] @ v
         | None \<Rightarrow> charset_label (ev_charset ev) @ [0x27, 0x27] @ v)"

text \<open>
  What the crates document: decoding undoes encoding, which writes a byte of the set, or one that is not ASCII, as
  a percent sign and two hexadecimal digits and keeps the others; a language tag is read back, and is made
  of letters, digits and hyphens.
\<close>

definition hex_or_percent :: "byte \<Rightarrow> bool" where
  "hex_or_percent b \<longleftrightarrow> b = 0x25 \<or> 0x30 \<le> b \<and> b \<le> 0x39 \<or> 0x41 \<le> b \<and> b \<le> 0x46"

definition tag_char :: "byte \<Rightarrow> bool" where
  "tag_char b \<longleftrightarrow> b = 0x2D \<or> 0x30 \<le> b \<and> b \<le> 0x39 \<or> 0x41 \<le> b \<and> b \<le> 0x5A \<or> 0x61 \<le> b \<and> b \<le> 0x7A"

definition text_lib_ok :: "'l text_lib \<Rightarrow> bool" where
  "text_lib_ok tx \<longleftrightarrow>
     (\<forall>v. tl_percent_decode tx (tl_percent_encode tx HTTP_VALUE v) = v) \<and>
     (\<forall>v b. b \<in> set (tl_percent_encode tx HTTP_VALUE v) \<longrightarrow> hex_or_percent b \<or> \<not> HTTP_VALUE b \<and> b < 0x80) \<and>
     (\<forall>l. tl_lang_parse tx (tl_lang_fmt tx l) = Some l \<and> tl_lang_fmt tx l \<noteq> [] \<and> (\<forall>b \<in> set (tl_lang_fmt tx l). tag_char b))"

text \<open>A character set whose name is read back and has no quote.\<close>

definition charset_good :: "charset \<Rightarrow> bool" where
  "charset_good c \<longleftrightarrow> charset_from_str (charset_label c) = Ok c \<and> 0x27 \<notin> set (charset_label c)"

lemma extended_value_roundtrip_eq:
  assumes "text_lib_ok tx" and "charset_good (ev_charset ev)"
  shows "parse_extended_value tx (ext_value_fmt tx ev) = Ok ev"
proof (cases "ev_language_tag ev")
  case None
  with assms show ?thesis
    using split_in_two_append [of "0x27" "[]" "tl_percent_encode tx HTTP_VALUE (ev_value ev)"]
    by (simp add: parse_extended_value_def ext_value_fmt_def charset_good_def text_lib_ok_def)
next
  case (Some l)
  have "\<not> tag_char 0x27" by (simp add: tag_char_def)
  then have "0x27 \<notin> set (tl_lang_fmt tx l)" using assms(1) by (auto simp: text_lib_ok_def)
  with Some assms show ?thesis
    by (simp add: parse_extended_value_def ext_value_fmt_def charset_good_def text_lib_ok_def)
qed

text \<open>
  An extended value survives printing and parsing, whatever bytes it holds, with and without a language.
\<close>

theorem extended_value_roundtrip:
  assumes "text_lib_ok tx" and "charset_good (ev_charset ev)"
  shows "parse_extended_value tx (ext_value_fmt tx ev) = Ok ev"
  by (rule extended_value_roundtrip_eq [OF assms])

text \<open>A library: every byte as a percent sign and two digits; a language tag is one letter.\<close>

definition pct_byte :: "byte \<Rightarrow> bytes" where
  "pct_byte b = [0x25, hex_digit_upper (unat b div 16), hex_digit_upper (unat b mod 16)]"

definition hex_value :: "byte \<Rightarrow> nat" where
  "hex_value b = (if b \<le> 0x39 then unat b - 48 else unat b - 55)"

fun unpct :: "bytes \<Rightarrow> bytes" where
  "unpct (p # a # b # bs) = of_nat (hex_value a * 16 + hex_value b) # unpct bs"
| "unpct _ = []"

definition demo_text_lib :: "unit text_lib" where
  "demo_text_lib = \<lparr>tl_percent_encode = (\<lambda>enc v. concat (map pct_byte v)), tl_percent_decode = unpct,
     tl_lang_parse = (\<lambda>s. if s = bstr ''en'' then Some () else None), tl_lang_fmt = (\<lambda>_. bstr ''en'')\<rparr>"

lemma hex_digit_upper_value: "d < 16 \<Longrightarrow> hex_value (hex_digit_upper d) = d \<and> hex_or_percent (hex_digit_upper d)"
proof -
  assume d: "d < 16"
  show ?thesis
  proof (cases "d < 10")
    case True
    then have "unat (hex_digit_upper d) = d + 48"
      by (simp add: hex_digit_upper_def unat_word_ariths unat_of_nat)
    with True show ?thesis by (simp add: hex_value_def hex_or_percent_def word_le_nat_alt)
  next
    case False
    with d have "unat (hex_digit_upper d) = d + 55"
      by (simp add: hex_digit_upper_def unat_word_ariths unat_of_nat)
    with False d show ?thesis by (simp add: hex_value_def hex_or_percent_def word_le_nat_alt)
  qed
qed

lemma demo_text_lib_ok: "text_lib_ok demo_text_lib"
proof -
  have lt: "unat b div 16 < 16" "unat b mod 16 < 16" for b :: byte
    using unsigned_less [of b, where 'a = nat] by (simp_all add: less_mult_imp_div_less)
  have "of_nat (unat b div 16 * 16 + unat b mod 16) = b" for b :: byte by simp
  then have "unpct (concat (map pct_byte v)) = v" for v
    using lt by (induction v) (simp_all add: pct_byte_def hex_digit_upper_value)
  moreover have "hex_or_percent c" if "c \<in> set (pct_byte b)" for b c
    using that hex_digit_upper_value [OF lt(1) [of b]] hex_digit_upper_value [OF lt(2) [of b]]
    by (auto simp: pct_byte_def) (simp add: hex_or_percent_def)
  ultimately show ?thesis
    by (auto simp: text_lib_ok_def demo_text_lib_def tag_char_def)
qed

lemma extended_value_roundtrip_witness:
  "parse_extended_value demo_text_lib (ext_value_fmt demo_text_lib
     \<lparr>ev_charset = Iso_8859_1, ev_language_tag = Some (), ev_value = [163, 0x27]\<rparr>) =
   Ok \<lparr>ev_charset = Iso_8859_1, ev_language_tag = Some (), ev_value = [163, 0x27]\<rparr>"
  by (rule extended_value_roundtrip [OF demo_text_lib_ok]) (use charset_named [of Iso_8859_1] in \<open>simp add: charset_good_def\<close>)

end
