(* ===== verification/Entity_Tag.thy ===== *)
theory Entity_Tag
  imports Header_Parsing Header_Map
begin

text \<open>
  Entity tags (\<open>header/shared/entity.rs\<close>) and the headers that hold a list of them or a star
  (\<open>If-Match\<close> and \<open>If-None-Match\<close>, from the macro in \<open>header/common/mod.rs\<close>). A tag is the list of its UTF-8 bytes.
\<close>

section \<open>Entity tags\<close>

definition check_slice_validity :: "bytes \<Rightarrow> bool" where
  "check_slice_validity s \<longleftrightarrow> list_all (\<lambda>c. c = 0x21 \<or> (0x23 \<le> c \<and> c \<le> 0x7E) \<or> 0x80 \<le> c) s"

record entity_tag =
  et_weak :: bool
  et_tag :: bytes

definition et_new :: "bool \<Rightarrow> bytes \<Rightarrow> entity_tag exec" where
  "et_new weak tag = (if check_slice_validity tag then Return \<lparr>et_weak = weak, et_tag = tag\<rparr> else Panic)"

definition et_set_tag :: "bytes \<Rightarrow> entity_tag \<Rightarrow> entity_tag exec" where
  "et_set_tag tag t = (if check_slice_validity tag then Return (t\<lparr>et_tag := tag\<rparr>) else Panic)"

definition strong_eq :: "entity_tag \<Rightarrow> entity_tag \<Rightarrow> bool" where
  "strong_eq t u \<longleftrightarrow> \<not> et_weak t \<and> \<not> et_weak u \<and> et_tag t = et_tag u"

definition weak_eq :: "entity_tag \<Rightarrow> entity_tag \<Rightarrow> bool" where
  "weak_eq t u \<longleftrightarrow> et_tag t = et_tag u"

definition et_fmt :: "entity_tag \<Rightarrow> bytes" where
  "et_fmt t = (if et_weak t then [0x57, 0x2F, 0x22] @ et_tag t @ [0x22] else [0x22] @ et_tag t @ [0x22])"

text \<open>The slice from \<open>i\<close> to the last byte, which is left out.\<close>

definition inner_slice :: "nat \<Rightarrow> bytes \<Rightarrow> bytes" where
  "inner_slice i s = drop i (butlast s)"

definition et_from_str :: "bytes \<Rightarrow> (entity_tag, parse_error) result" where
  "et_from_str s =
     (if s = [] \<or> last s \<noteq> 0x22 \<or> length s < 2 then Err PeHeader
      else if hd s = 0x22 \<and> check_slice_validity (inner_slice 1 s)
      then Ok \<lparr>et_weak = False, et_tag = inner_slice 1 s\<rparr>
      else if 4 \<le> length s \<and> take 3 s = [0x57, 0x2F, 0x22] \<and> check_slice_validity (inner_slice 3 s)
      then Ok \<lparr>et_weak = True, et_tag = inner_slice 3 s\<rparr>
      else Err PeHeader)"

text \<open>
  The parser of entity tags accepts exactly what is written for a tag of valid characters, and reads that tag.
\<close>

theorem entity_tag_exact:
  "et_from_str s = Ok t \<longleftrightarrow> s = et_fmt t \<and> check_slice_validity (et_tag t)"
proof
  assume ok: "et_from_str s = Ok t"
  then have "s \<noteq> []" "last s = 0x22" "2 \<le> length s" by (auto simp: et_from_str_def split: if_splits)
  then have s: "s = butlast s @ [0x22]" "2 \<le> length s" by (metis append_butlast_last_id, simp)
  from ok consider (strong) "hd s = 0x22" "check_slice_validity (inner_slice 1 s)" "t = \<lparr>et_weak = False, et_tag = inner_slice 1 s\<rparr>"
    | (weak) "4 \<le> length s" "take 3 s = [0x57, 0x2F, 0x22]" "check_slice_validity (inner_slice 3 s)" "t = \<lparr>et_weak = True, et_tag = inner_slice 3 s\<rparr>"
    by (auto simp: et_from_str_def split: if_splits)
  then show "s = et_fmt t \<and> check_slice_validity (et_tag t)"
  proof cases
    case strong
    then have "butlast s = 0x22 # inner_slice 1 s"
      using s by (cases s) (auto simp: inner_slice_def)
    with strong s show ?thesis by (simp add: et_fmt_def)
  next
    case weak
    have "take 3 (butlast s) = take 3 s" using weak(1) by (simp add: take_butlast)
    then have "butlast s = [0x57, 0x2F, 0x22] @ inner_slice 3 s"
      using weak(2) append_take_drop_id [of 3 "butlast s"] by (simp add: inner_slice_def)
    with weak s show ?thesis by (simp add: et_fmt_def)
  qed
next
  assume "s = et_fmt t \<and> check_slice_validity (et_tag t)"
  then show "et_from_str s = Ok t"
    by (cases t) (auto simp: et_from_str_def et_fmt_def inner_slice_def butlast_append)
qed

section \<open>Lists of entity tags\<close>

datatype 'a any_or_items = AnyItem | ItemList "'a list"

text \<open>The header macro for a star or a list, over the first value and over all values of the name.\<close>

definition any_or_items_parse ::
  "http_lib \<Rightarrow> (bytes \<Rightarrow> ('a, 'e) result) \<Rightarrow> header_value list \<Rightarrow> ('a any_or_items, parse_error) result" where
  "any_or_items_parse lib parse values =
     (let any = (case values of [] \<Rightarrow> None | v # _ \<Rightarrow> map_option (\<lambda>s. trim s = bstr ''*'') (hl_to_str lib v))
      in if any = Some True then Ok AnyItem
         else (case from_comma_delimited lib parse values of Ok xs \<Rightarrow> Ok (ItemList xs) | Err e \<Rightarrow> Err e))"

definition any_or_items_fmt :: "('a \<Rightarrow> bytes) \<Rightarrow> 'a any_or_items \<Rightarrow> bytes" where
  "any_or_items_fmt fmt a = (case a of AnyItem \<Rightarrow> bstr ''*'' | ItemList xs \<Rightarrow> fmt_comma_delimited fmt xs)"

definition et_listable :: "entity_tag \<Rightarrow> bool" where
  "et_listable t \<longleftrightarrow> check_slice_validity (et_tag t) \<and> 0x2C \<notin> set (et_tag t)"

interpretation entity_tags: list_item et_from_str et_fmt et_listable
proof
  fix t assume t: "et_listable t"
  then show "et_from_str (et_fmt t) = Ok t" by (simp add: et_listable_def entity_tag_exact)
  show "et_fmt t \<noteq> [] \<and> trimmed (et_fmt t) \<and> 0x2C \<notin> set (et_fmt t)"
    using t by (auto simp: et_listable_def et_fmt_def trimmed_def is_ws_def)
qed

text \<open>
  A list of entity tags without commas, and the star, survive printing and parsing.
\<close>

theorem entity_tag_list_roundtrip:
  assumes "list_all et_listable ts" and "hl_to_str lib (any_or_items_fmt et_fmt (ItemList ts)) = Some (any_or_items_fmt et_fmt (ItemList ts))"
  shows "any_or_items_parse lib et_from_str [any_or_items_fmt et_fmt (ItemList ts)] = Ok (ItemList ts)"
proof -
  have "trim (fmt_comma_delimited et_fmt ts) \<noteq> bstr ''*''"
  proof
    assume star: "trim (fmt_comma_delimited et_fmt ts) = bstr ''*''"
    then have "ts \<noteq> []" by (auto simp: trim_def)
    then obtain t us where ts: "ts = t # us" by (cases ts) auto
    have "0x22 \<in> set (fmt_comma_delimited et_fmt ts)" by (simp add: ts et_fmt_def)
    moreover have "\<not> is_ws 0x22" by (simp add: is_ws_def)
    ultimately have "0x22 \<in> set (trim (fmt_comma_delimited et_fmt ts))"
      unfolding trim_def set_rev by (metis Un_iff set_append set_rev set_takeWhileD takeWhile_dropWhile_id)
    with star show False by simp
  qed
  with assms entity_tags.from_comma_delimited_fmt [of "[ts]" lib] show ?thesis
    by (simp add: any_or_items_parse_def any_or_items_fmt_def)
qed

lemma entity_tag_list_roundtrip_witness:
  "any_or_items_parse demo_http et_from_str
     [any_or_items_fmt et_fmt (ItemList [\<lparr>et_weak = True, et_tag = bstr ''a''\<rparr>, \<lparr>et_weak = False, et_tag = []\<rparr>])] =
   Ok (ItemList [\<lparr>et_weak = True, et_tag = bstr ''a''\<rparr>, \<lparr>et_weak = False, et_tag = []\<rparr>])"
  by (rule entity_tag_list_roundtrip) (simp_all add: et_listable_def check_slice_validity_def demo_http_def)

lemma count_dropWhile_le: "count_list (dropWhile P s) b \<le> count_list s b"
  by (induction s) auto

lemma count_list_rev [simp]: "count_list (rev s) b = count_list s b"
  by (induction s) auto

lemma count_trim_le: "count_list (trim s) b \<le> count_list s b"
  using count_dropWhile_le [of is_ws "rev (dropWhile is_ws s)" b] count_dropWhile_le [of is_ws s b] by (simp add: trim_def)

lemma count_split_le: "p \<in> set (split_on c s) \<Longrightarrow> count_list p b \<le> count_list s b"
proof (induction s arbitrary: p)
  case (Cons x s)
  obtain q qs where q: "split_on c s = q # qs" by (cases "split_on c s") (cases s; auto split: list.splits if_splits)+
  show ?case
  proof (cases "x = c")
    case True
    with Cons show ?thesis by (auto intro: le_SucI)
  next
    case False
    with Cons.prems q consider "p = x # q" | "p \<in> set qs" by auto
    then show ?thesis using Cons.IH [of q] Cons.IH [of p] q by cases (auto intro: le_SucI)
  qed
qed simp

lemma et_two_quotes: "et_from_str s = Ok t \<Longrightarrow> 2 \<le> count_list s 0x22"
  by (auto simp: entity_tag_exact et_fmt_def)

lemma few_quotes_no_tag: "count_list s 0x22 \<le> 1 \<Longrightarrow> comma_items et_from_str s = []"
proof -
  assume s: "count_list s 0x22 \<le> 1"
  have "(case et_from_str (trim x) of Ok a \<Rightarrow> Some a | Err e \<Rightarrow> None) = None" if "x \<in> set (split_on 0x2C s)" for x
    using et_two_quotes [of "trim x"] count_trim_le [of x "0x22"] count_split_le [OF that, of "0x22"] s
    by (cases "et_from_str (trim x)") auto
  then have "List.map_filter (\<lambda>x. case et_from_str (trim x) of Ok a \<Rightarrow> Some a | Err e \<Rightarrow> None) xs = []"
    if "set xs \<subseteq> set (split_on 0x2C s)" for xs
    using that by (induction xs) (auto simp: List.map_filter_simps)
  then show ?thesis by (simp add: comma_items_def)
qed

lemma comma_items_Cons: "0x2C \<notin> set a \<Longrightarrow>
  comma_items parse (a @ 0x2C # b) = comma_items parse a @ comma_items parse b"
  by (auto simp: comma_items_def split_on_append split_on_no List.map_filter_simps split: option.splits result.splits)

lemma valid_no_quote: "check_slice_validity s \<Longrightarrow> count_list s 0x22 = 0"
  by (induction s) (auto simp: check_slice_validity_def)

text \<open>
  A tag with a comma, which is a valid character of tags, is lost in a list. What is written for it is read
  as a list of nothing, without an error, although the same text alone is read as the tag.
\<close>

theorem comma_tag_lost:
  assumes "check_slice_validity (et_tag t)" and "0x2C \<in> set (et_tag t)" and "hl_to_str lib (et_fmt t) = Some (et_fmt t)"
  shows "any_or_items_parse lib et_from_str [any_or_items_fmt et_fmt (ItemList [t])] = Ok (ItemList []) \<and>
    from_one_raw_str lib et_from_str (Some (et_fmt t)) = Ok t"
proof
  obtain a b where t: "et_tag t = a @ 0x2C # b" "0x2C \<notin> set a" using assms(2) by (meson split_list_first)
  define pre where "pre = (if et_weak t then [0x57, 0x2F, 0x22] else [0x22 :: byte])"
  have f: "et_fmt t = (pre @ a) @ 0x2C # (b @ [0x22])" by (simp add: et_fmt_def pre_def t)
  have "count_list (et_tag t) 0x22 = 0" using assms(1) by (rule valid_no_quote)
  then have "count_list (pre @ a) 0x22 \<le> 1" "count_list (b @ [0x22]) 0x22 \<le> 1" by (simp_all add: t pre_def)
  moreover have "0x2C \<notin> set (pre @ a)" using t by (simp add: pre_def)
  ultimately have items: "comma_items et_from_str (et_fmt t) = []"
    unfolding f by (simp add: comma_items_Cons few_quotes_no_tag del: append_assoc)
  have "trim (et_fmt t) = et_fmt t" by (rule trim_trimmed) (auto simp: et_fmt_def trimmed_def is_ws_def)
  then have "trim (et_fmt t) \<noteq> bstr ''*''" by (auto simp: et_fmt_def)
  with items assms(3) show "any_or_items_parse lib et_from_str [any_or_items_fmt et_fmt (ItemList [t])] = Ok (ItemList [])"
    by (simp add: any_or_items_parse_def any_or_items_fmt_def)
  have "et_from_str (et_fmt t) = Ok t" using assms(1) by (simp add: entity_tag_exact)
  moreover have "et_fmt t \<noteq> []" by (simp add: et_fmt_def)
  ultimately show "from_one_raw_str lib et_from_str (Some (et_fmt t)) = Ok t"
    using assms(3) by (simp add: from_one_raw_str_def)
qed

lemma comma_tag_lost_witness:
  "any_or_items_parse demo_http et_from_str [any_or_items_fmt et_fmt (ItemList [\<lparr>et_weak = False, et_tag = bstr ''a,b''\<rparr>])] =
     Ok (ItemList [])"
  using comma_tag_lost [of "\<lparr>et_weak = False, et_tag = bstr ''a,b''\<rparr>" demo_http]
  by (simp add: check_slice_validity_def demo_http_def)

section \<open>If-Range\<close>

datatype 'd if_range = IrEntityTag entity_tag | IrDate 'd

definition if_range_parse :: "http_lib \<Rightarrow> (bytes \<Rightarrow> ('d, 'e) result) \<Rightarrow> header_value option \<Rightarrow> ('d if_range, parse_error) result" where
  "if_range_parse lib date_from_str val =
     (case from_one_raw_str lib et_from_str val of
        Ok t \<Rightarrow> Ok (IrEntityTag t)
      | Err _ \<Rightarrow>
          (case from_one_raw_str lib date_from_str val of
             Ok d \<Rightarrow> Ok (IrDate d)
           | Err _ \<Rightarrow> Err PeHeader))"

definition if_range_fmt :: "('d \<Rightarrow> bytes) \<Rightarrow> 'd if_range \<Rightarrow> bytes" where
  "if_range_fmt date_fmt r = (case r of IrEntityTag t \<Rightarrow> et_fmt t | IrDate d \<Rightarrow> date_fmt d)"

end
