(* ===== verification/Header_Values.thy ===== *)
theory Header_Values
  imports Header_Parsing Header_Map
begin

text \<open>
  Typed header values: \<open>Content-Range\<close> (\<open>header/common/content_range.rs\<close>) and \<open>Cache-Control\<close>
  (\<open>header/common/cache_control.rs\<close>), their parsers and printers.
\<close>

section \<open>Content-Range\<close>

datatype content_range_spec =
    CrBytes "(u64 \<times> u64) option" "u64 option"
  | CrUnregistered bytes bytes

definition dec_u64 :: "u64 \<Rightarrow> bytes" where
  "dec_u64 w = dec (unat w)"

definition u64_or_header :: "bytes \<Rightarrow> (u64, parse_error) result" where
  "u64_or_header s = (case parse_u64 s of Some n \<Rightarrow> Ok n | None \<Rightarrow> Err PeHeader)"

definition cr_range_from_str :: "bytes \<Rightarrow> ((u64 \<times> u64) option, parse_error) result" where
  "cr_range_from_str rng =
     (if rng = bstr ''*'' then Ok None
      else (case split_in_two rng 0x2D of
              None \<Rightarrow> Err PeHeader
            | Some (fst_byte, lst_byte) \<Rightarrow>
                (case u64_or_header fst_byte of
                   Err e \<Rightarrow> Err e
                 | Ok first_byte \<Rightarrow>
                     (case u64_or_header lst_byte of
                        Err e \<Rightarrow> Err e
                      | Ok last_byte \<Rightarrow>
                          if last_byte < first_byte then Err PeHeader else Ok (Some (first_byte, last_byte))))))"

definition content_range_from_str :: "bytes \<Rightarrow> (content_range_spec, parse_error) result" where
  "content_range_from_str s =
     (case split_in_two s 0x20 of
        None \<Rightarrow> Err PeHeader
      | Some (unit, resp) \<Rightarrow>
          if unit = bstr ''bytes'' then
            (case split_in_two resp 0x2F of
               None \<Rightarrow> Err PeHeader
             | Some (rng, len) \<Rightarrow>
                 (case (if len = bstr ''*'' then Ok None
                        else (case u64_or_header len of Ok n \<Rightarrow> Ok (Some n) | Err e \<Rightarrow> Err e)) of
                    Err e \<Rightarrow> Err e
                  | Ok instance_length \<Rightarrow>
                      (case cr_range_from_str rng of
                         Err e \<Rightarrow> Err e
                       | Ok rng \<Rightarrow> Ok (CrBytes rng instance_length))))
          else Ok (CrUnregistered unit resp))"

fun content_range_fmt :: "content_range_spec \<Rightarrow> bytes" where
  "content_range_fmt (CrBytes rng len) =
     bstr ''bytes '' @
     (case rng of Some (a, b) \<Rightarrow> dec_u64 a @ bstr ''-'' @ dec_u64 b | None \<Rightarrow> bstr ''*'') @ bstr ''/'' @
     (case len of Some n \<Rightarrow> dec_u64 n | None \<Rightarrow> bstr ''*'')"
| "content_range_fmt (CrUnregistered unit resp) = unit @ bstr '' '' @ resp"

lemma dec_byte_range: "b \<in> set (dec n) \<Longrightarrow> 0x30 \<le> b \<and> b \<le> 0x39"
  using dec_digits [of b n] by (auto simp: word_le_nat_alt unat_digit)

lemma dec_no [simp]: "0x20 \<notin> set (dec n)" "0x2C \<notin> set (dec n)" "0x2D \<notin> set (dec n)" "0x2F \<notin> set (dec n)"
  "0x22 \<notin> set (dec n)" "0x3D \<notin> set (dec n)" "0x2A \<notin> set (dec n)" "0x3B \<notin> set (dec n)"
  using dec_byte_range [of _ n] by fastforce+

lemma u64_or_header_dec [simp]: "u64_or_header (dec_u64 w) = Ok w"
  using parse_u64_dec [of "unat w"] unsigned_less [of w, where 'a = nat] by (simp add: u64_or_header_def dec_u64_def)

lemma dec_not_star [simp]: "dec n \<noteq> [0x2A]"
  by (metis dec_no(7) list.set_intros(1))

text \<open>
  Which content ranges survive printing and parsing. Those of bytes whose last position is not below the first
  one, with or without a length, and those of another unit, without a space in its name.
\<close>

theorem content_range_roundtrip:
  "content_range_from_str (content_range_fmt r) = Ok r \<longleftrightarrow>
     (case r of
        CrBytes (Some (a, b)) len \<Rightarrow> a \<le> b
      | CrBytes None len \<Rightarrow> True
      | CrUnregistered unit resp \<Rightarrow> 0x20 \<notin> set unit \<and> unit \<noteq> bstr ''bytes'')"
proof (cases r)
  case (CrBytes rng len)
  let ?rng = "case rng of Some (a, b) \<Rightarrow> dec_u64 a @ bstr ''-'' @ dec_u64 b | None \<Rightarrow> bstr ''*''"
  let ?len = "case len of Some n \<Rightarrow> dec_u64 n | None \<Rightarrow> bstr ''*''"
  have f: "content_range_fmt r = bstr ''bytes'' @ 0x20 # (?rng @ 0x2F # ?len)" by (simp add: CrBytes)
  have "split_in_two (content_range_fmt r) 0x20 = Some (bstr ''bytes'', ?rng @ 0x2F # ?len)"
    unfolding f by (rule split_in_two_append) simp
  moreover have "split_in_two (?rng @ 0x2F # ?len) 0x2F = Some (?rng, ?len)"
    by (rule split_in_two_append) (auto simp: dec_u64_def split: option.split)
  moreover have "(if ?len = bstr ''*'' then Ok None else (case u64_or_header ?len of Ok n \<Rightarrow> Ok (Some n) | Err e \<Rightarrow> Err e)) = Ok len"
    by (cases len) (auto simp: dec_u64_def, simp add: dec_u64_def [symmetric])
  moreover have "cr_range_from_str ?rng =
      (case rng of None \<Rightarrow> Ok None | Some (a, b) \<Rightarrow> if b < a then Err PeHeader else Ok (Some (a, b)))"
  proof (cases rng)
    case (Some ab)
    obtain a b where ab: "ab = (a, b)" by (cases ab)
    have "dec_u64 a @ 0x2D # dec_u64 b \<noteq> bstr ''*''" by (cases "dec_u64 a") (auto simp: dec_u64_def)
    moreover have "split_in_two (dec_u64 a @ 0x2D # dec_u64 b) 0x2D = Some (dec_u64 a, dec_u64 b)"
      by (rule split_in_two_append) (simp add: dec_u64_def)
    ultimately show ?thesis by (simp add: cr_range_from_str_def Some ab)
  qed (simp add: cr_range_from_str_def)
  ultimately show ?thesis
    by (auto simp: content_range_from_str_def CrBytes not_less split: option.splits prod.splits if_splits)
next
  case (CrUnregistered unit resp)
  show ?thesis
  proof (cases "0x20 \<in> set unit")
    case True
    then obtain a b where u: "unit = a @ 0x20 # b" "0x20 \<notin> set a" by (meson split_list_first)
    then have "split_in_two (content_range_fmt r) 0x20 = Some (a, b @ 0x20 # resp)"
      using split_in_two_append [of "0x20" a "b @ 0x20 # resp"] by (simp add: CrUnregistered)
    moreover have "a \<noteq> unit" using u(1) by simp
    ultimately show ?thesis using True
      by (auto simp: content_range_from_str_def CrUnregistered split: option.splits result.splits)
  next
    case False
    then have "split_in_two (content_range_fmt r) 0x20 = Some (unit, resp)" by (simp add: CrUnregistered)
    then show ?thesis using False
      by (auto simp: content_range_from_str_def CrUnregistered split: option.splits result.splits)
  qed
qed

section \<open>Cache-Control\<close>

datatype cache_directive =
    NoCache | NoStore | NoTransform | OnlyIfCached
  | MaxAge u32 | MaxStale u32 | MinFresh u32
  | MustRevalidate | CachePublic | CachePrivate | ProxyRevalidate | SMaxAge u32
  | Extension bytes "bytes option"

definition parse_u32 :: "bytes \<Rightarrow> u32 option" where
  "parse_u32 s = Option.bind (parse_u64 s) (\<lambda>n. if unat n < 2 ^ 32 then Some (ucast n) else None)"

definition dec_u32 :: "u32 \<Rightarrow> bytes" where
  "dec_u32 w = dec (unat w)"

fun directive_fmt :: "cache_directive \<Rightarrow> bytes" where
  "directive_fmt NoCache = bstr ''no-cache''"
| "directive_fmt NoStore = bstr ''no-store''"
| "directive_fmt NoTransform = bstr ''no-transform''"
| "directive_fmt OnlyIfCached = bstr ''only-if-cached''"
| "directive_fmt (MaxAge n) = bstr ''max-age='' @ dec_u32 n"
| "directive_fmt (MaxStale n) = bstr ''max-stale='' @ dec_u32 n"
| "directive_fmt (MinFresh n) = bstr ''min-fresh='' @ dec_u32 n"
| "directive_fmt MustRevalidate = bstr ''must-revalidate''"
| "directive_fmt CachePublic = bstr ''public''"
| "directive_fmt CachePrivate = bstr ''private''"
| "directive_fmt ProxyRevalidate = bstr ''proxy-revalidate''"
| "directive_fmt (SMaxAge n) = bstr ''s-maxage='' @ dec_u32 n"
| "directive_fmt (Extension name None) = name"
| "directive_fmt (Extension name (Some arg)) = name @ bstr ''='' @ arg"

definition trim_quotes :: "bytes \<Rightarrow> bytes" where
  "trim_quotes s = rev (dropWhile (\<lambda>b. b = 0x22) (rev (dropWhile (\<lambda>b. b = 0x22) s)))"

text \<open>The error is an option of the error of parsing a number.\<close>

definition secs_directive :: "(u32 \<Rightarrow> cache_directive) \<Rightarrow> bytes \<Rightarrow> (cache_directive, unit option) result" where
  "secs_directive f secs = (case parse_u32 secs of Some n \<Rightarrow> Ok (f n) | None \<Rightarrow> Err (Some ()))"

definition directive_from_str :: "bytes \<Rightarrow> (cache_directive, unit option) result" where
  "directive_from_str s =
     (if s = bstr ''no-cache'' then Ok NoCache
      else if s = bstr ''no-store'' then Ok NoStore
      else if s = bstr ''no-transform'' then Ok NoTransform
      else if s = bstr ''only-if-cached'' then Ok OnlyIfCached
      else if s = bstr ''must-revalidate'' then Ok MustRevalidate
      else if s = bstr ''public'' then Ok CachePublic
      else if s = bstr ''private'' then Ok CachePrivate
      else if s = bstr ''proxy-revalidate'' then Ok ProxyRevalidate
      else if s = [] then Err None
      else (case split_in_two s 0x3D of
              None \<Rightarrow> Ok (Extension s None)
            | Some (left, right) \<Rightarrow>
                if right = [] then Err None
                else (let right = trim_quotes right
                      in if left = bstr ''max-age'' then secs_directive MaxAge right
                         else if left = bstr ''max-stale'' then secs_directive MaxStale right
                         else if left = bstr ''min-fresh'' then secs_directive MinFresh right
                         else if left = bstr ''s-maxage'' then secs_directive SMaxAge right
                         else Ok (Extension left (Some right)))))"

definition cache_control_parse :: "http_lib \<Rightarrow> header_value list \<Rightarrow> (cache_directive list, parse_error) result" where
  "cache_control_parse lib values =
     (case from_comma_delimited lib directive_from_str values of
        Err e \<Rightarrow> Err e
      | Ok ds \<Rightarrow> if ds \<noteq> [] then Ok ds else Err PeHeader)"

definition cache_control_fmt :: "cache_directive list \<Rightarrow> bytes" where
  "cache_control_fmt = fmt_comma_delimited directive_fmt"

text \<open>The extensions that are read as they are written; all other directives are.\<close>

definition directive_good :: "cache_directive \<Rightarrow> bool" where
  "directive_good d \<longleftrightarrow>
     (case d of
        Extension name None \<Rightarrow>
          name \<noteq> [] \<and> trimmed name \<and> 0x2C \<notin> set name \<and> 0x3D \<notin> set name \<and>
          name \<notin> set (map bstr [''no-cache'', ''no-store'', ''no-transform'', ''only-if-cached'', ''must-revalidate'',
            ''public'', ''private'', ''proxy-revalidate''])
      | Extension name (Some arg) \<Rightarrow>
          trimmed (name @ bstr ''='' @ arg) \<and> 0x2C \<notin> set name \<and> 0x2C \<notin> set arg \<and> 0x3D \<notin> set name \<and> arg \<noteq> [] \<and>
          hd arg \<noteq> 0x22 \<and> last arg \<noteq> 0x22 \<and>
          name \<notin> set (map bstr [''max-age'', ''max-stale'', ''min-fresh'', ''s-maxage''])
      | _ \<Rightarrow> True)"

lemma parse_u32_dec [simp]: "parse_u32 (dec_u32 n) = Some n"
proof -
  have n: "unat n < 2 ^ 32" using unsigned_less [of n, where 'a = nat] by simp
  then have "parse_u64 (dec_u32 n) = Some (of_nat (unat n))" by (simp add: dec_u32_def parse_u64_dec)
  moreover have "unat (of_nat (unat n) :: u64) = unat n" using n by (simp add: unsigned_ucast_eq unsigned_take_bit_eq take_bit_nat_eq_self)
  moreover have "(ucast (of_nat (unat n) :: u64) :: u32) = n"
    by (rule word_unat_eq_iff [THEN iffD2]) (use n in \<open>simp add: unsigned_ucast_eq unsigned_take_bit_eq take_bit_nat_eq_self\<close>)
  ultimately show ?thesis using n by (simp add: parse_u32_def)
qed

lemma trim_quotes_plain: "s = [] \<or> (hd s \<noteq> 0x22 \<and> last s \<noteq> 0x22) \<Longrightarrow> trim_quotes s = s"
proof -
  assume s: "s = [] \<or> (hd s \<noteq> 0x22 \<and> last s \<noteq> 0x22)"
  then have "dropWhile (\<lambda>b. b = 0x22) s = s" "dropWhile (\<lambda>b. b = 0x22) (rev s) = rev s"
    by (auto simp: dropWhile_eq_self_iff hd_rev)
  then show ?thesis by (simp add: trim_quotes_def)
qed

lemma trim_quotes_dec [simp]: "trim_quotes (dec_u32 n) = dec_u32 n"
proof (rule trim_quotes_plain)
  have "dec_u32 n \<noteq> []" "0x22 \<notin> set (dec_u32 n)" by (simp_all add: dec_u32_def)
  then show "dec_u32 n = [] \<or> (hd (dec_u32 n) \<noteq> 0x22 \<and> last (dec_u32 n) \<noteq> 0x22)"
    by (metis hd_in_set last_in_set)
qed

lemma dec_u32_not_Nil [simp]: "dec_u32 n \<noteq> []" by (simp add: dec_u32_def)

lemma directive_numbers:
  "directive_from_str (directive_fmt (MaxAge n)) = Ok (MaxAge n)"
  "directive_from_str (directive_fmt (MaxStale n)) = Ok (MaxStale n)"
  "directive_from_str (directive_fmt (MinFresh n)) = Ok (MinFresh n)"
  "directive_from_str (directive_fmt (SMaxAge n)) = Ok (SMaxAge n)"
  using split_in_two_append [of "0x3D" "bstr ''max-age''" "dec_u32 n"] split_in_two_append [of "0x3D" "bstr ''max-stale''" "dec_u32 n"]
    split_in_two_append [of "0x3D" "bstr ''min-fresh''" "dec_u32 n"] split_in_two_append [of "0x3D" "bstr ''s-maxage''" "dec_u32 n"]
  by (simp_all add: directive_from_str_def secs_directive_def)

lemma directive_roundtrip: "directive_good d \<Longrightarrow> directive_from_str (directive_fmt d) = Ok d"
proof (cases d)
  case (Extension name arg)
  assume good: "directive_good d"
  show ?thesis
  proof (cases arg)
    case None
    with good Extension show ?thesis by (simp add: directive_good_def directive_from_str_def)
  next
    case (Some a)
    have "0x3D \<in> set (directive_fmt d)" by (simp add: Extension Some)
    then have "directive_fmt d \<notin> set (map bstr [''no-cache'', ''no-store'', ''no-transform'', ''only-if-cached'',
        ''must-revalidate'', ''public'', ''private'', ''proxy-revalidate''])" by auto
    moreover have "directive_fmt d = name @ 0x3D # a" by (simp add: Extension Some)
    ultimately show ?thesis using good trim_quotes_plain [of a]
      by (simp add: directive_from_str_def directive_good_def Extension Some)
  qed
qed (simp_all add: directive_numbers del: directive_fmt.simps(5-7,12), simp_all add: directive_from_str_def)

lemma trimmed_dec: "s \<noteq> [] \<Longrightarrow> \<not> is_ws (hd s) \<Longrightarrow> trimmed (s @ dec_u32 n)"
  using dec_byte_range [of "last (dec_u32 n)" "unat n"]
  by (auto simp: trimmed_def dec_u32_def is_ws_def word_le_nat_alt)

interpretation directives: list_item directive_from_str directive_fmt directive_good
proof
  fix d assume d: "directive_good d"
  then show "directive_from_str (directive_fmt d) = Ok d" by (rule directive_roundtrip)
  show "directive_fmt d \<noteq> [] \<and> trimmed (directive_fmt d) \<and> 0x2C \<notin> set (directive_fmt d)"
  proof (cases d)
    case (Extension name arg)
    with d show ?thesis by (cases arg) (auto simp: directive_good_def)
  qed (use trimmed_dec [of "bstr ''max-age=''"] trimmed_dec [of "bstr ''max-stale=''"] trimmed_dec [of "bstr ''min-fresh=''"]
      trimmed_dec [of "bstr ''s-maxage=''"] in \<open>simp_all add: is_ws_def dec_u32_def\<close>, simp_all add: trimmed_def is_ws_def)
qed

text \<open>
  A \<open>Cache-Control\<close> header survives printing and parsing: a list of at least one directive,
  standard ones with any argument and extensions in a readable form.
\<close>

theorem cache_control_roundtrip:
  assumes "list_all directive_good ds" and "ds \<noteq> []" and "hl_to_str lib (cache_control_fmt ds) = Some (cache_control_fmt ds)"
  shows "cache_control_parse lib [cache_control_fmt ds] = Ok ds"
  using assms directives.from_comma_delimited_fmt [of "[ds]" lib] by (simp add: cache_control_parse_def cache_control_fmt_def)

lemma cache_control_roundtrip_witness:
  "cache_control_parse demo_http [cache_control_fmt [MaxAge 600, NoTransform, Extension (bstr ''a'') (Some (bstr ''b c''))]] =
     Ok [MaxAge 600, NoTransform, Extension (bstr ''a'') (Some (bstr ''b c''))]"
  by (rule cache_control_roundtrip) (simp_all add: directive_good_def trimmed_def is_ws_def demo_http_def)

end
