(* ===== verification/Quality_Item.thy ===== *)
theory Quality_Item
  imports Header_Parsing
begin

text \<open>
  Items with a quality (\<open>header/shared/quality_item.rs\<close>). A quality is a number of thousandths; reading
  one goes through single-precision numbers, whose rounding is modelled.
\<close>

section \<open>Single-precision numbers\<close>

text \<open>
  A finite \<open>f32\<close> is a sign and a number of units of \<open>2 ^ -149\<close>, the smallest positive number. Rounding a
  fraction takes the unit in the last place, so that 24 bits are left, and goes to the nearest
  multiple, with ties to the even one.
\<close>

datatype f32 = F32 bool nat | F32Inf bool | F32NaN

fun ulp_exp :: "nat \<Rightarrow> nat" where
  "ulp_exp n = (if n < 2 ^ 24 then 0 else Suc (ulp_exp (n div 2)))"

declare ulp_exp.simps [simp del]

definition round_half_even :: "nat \<Rightarrow> nat \<Rightarrow> nat" where
  "round_half_even a d =
     (let m = a div d; r = a mod d in if 2 * r < d \<or> 2 * r = d \<and> even m then m else m + 1)"

definition f32_round :: "nat \<Rightarrow> nat \<Rightarrow> nat" where
  "f32_round p q =
     (let e = ulp_exp (p * 2 ^ 149 div q) in round_half_even (p * 2 ^ 149) (q * 2 ^ e) * 2 ^ e)"

definition f32_of :: "bool \<Rightarrow> nat \<Rightarrow> nat \<Rightarrow> f32" where
  "f32_of neg p q = (let u = f32_round p q in if u < 2 ^ 277 then F32 neg u else F32Inf neg)"

fun f32_mul :: "f32 \<Rightarrow> f32 \<Rightarrow> f32" where
  "f32_mul (F32 a u) (F32 b v) = f32_of (a \<noteq> b) (u * v) (2 ^ 298)"
| "f32_mul (F32Inf a) (F32 b v) = (if v = 0 then F32NaN else F32Inf (a \<noteq> b))"
| "f32_mul (F32 a u) (F32Inf b) = (if u = 0 then F32NaN else F32Inf (a \<noteq> b))"
| "f32_mul (F32Inf a) (F32Inf b) = F32Inf (a \<noteq> b)"
| "f32_mul _ _ = F32NaN"

fun f32_le :: "f32 \<Rightarrow> f32 \<Rightarrow> bool" where
  "f32_le (F32 a u) (F32 b v) \<longleftrightarrow> (if a then - int u else int u) \<le> (if b then - int v else int v)"
| "f32_le (F32Inf a) (F32Inf b) \<longleftrightarrow> a \<or> \<not> b"
| "f32_le (F32Inf a) (F32 b v) \<longleftrightarrow> a"
| "f32_le (F32 a u) (F32Inf b) \<longleftrightarrow> \<not> b"
| "f32_le _ _ \<longleftrightarrow> False"

text \<open>The cast to \<open>u16\<close> drops the fraction; out of range it gives the nearest number, and zero for no number.\<close>

fun f32_to_u16 :: "f32 \<Rightarrow> u16" where
  "f32_to_u16 (F32 neg u) = (if neg then 0 else of_nat (min 65535 (u div 2 ^ 149)))"
| "f32_to_u16 (F32Inf neg) = (if neg then 0 else 65535)"
| "f32_to_u16 F32NaN = 0"

text \<open>
  \<open>f32::from_str\<close>: a sign, digits with a point, of which there is at least one, and an exponent; or
  \<open>inf\<close> and \<open>NaN\<close>.
\<close>

definition is_digit :: "byte \<Rightarrow> bool" where
  "is_digit b \<longleftrightarrow> 0x30 \<le> b \<and> b \<le> 0x39"

definition digits_value :: "bytes \<Rightarrow> nat" where
  "digits_value = foldl (\<lambda>n b. n * 10 + (unat b - 48)) 0"

definition eat_sign :: "bytes \<Rightarrow> bool \<times> bytes" where
  "eat_sign s = (case s of b # bs \<Rightarrow> if b = 0x2B then (False, bs) else if b = 0x2D then (True, bs) else (False, s) | [] \<Rightarrow> (False, []))"

definition decimal_value :: "bool \<Rightarrow> bytes \<Rightarrow> bytes \<Rightarrow> bool \<Rightarrow> nat \<Rightarrow> f32" where
  "decimal_value neg integral fractional negexp ex =
     (let p = digits_value (integral @ fractional); q = 10 ^ length fractional
      in if negexp then f32_of neg p (q * 10 ^ ex) else f32_of neg (p * 10 ^ ex) q)"

definition parse_exponent :: "bool \<Rightarrow> bytes \<Rightarrow> bytes \<Rightarrow> bytes \<Rightarrow> f32 option" where
  "parse_exponent neg integral fractional s =
     (let (negexp, ds) = eat_sign s
      in if ds = [] \<or> \<not> list_all is_digit ds then None
         else Some (decimal_value neg integral fractional negexp (digits_value ds)))"

definition f32_from_str :: "bytes \<Rightarrow> f32 option" where
  "f32_from_str s =
     (let (neg, t) = eat_sign s;
          integral = takeWhile is_digit t; rest = dropWhile is_digit t
      in if t = [] then None
         else if t = bstr ''inf'' then Some (F32Inf neg)
         else if t = bstr ''NaN'' then Some F32NaN
         else (case rest of
                 [] \<Rightarrow> Some (decimal_value neg integral [] False 0)
               | c # rest \<Rightarrow>
                   if c = 0x65 \<or> c = 0x45 then (if integral = [] then None else parse_exponent neg integral [] rest)
                   else if c = 0x2E then
                     (let fractional = takeWhile is_digit rest
                      in if integral = [] \<and> fractional = [] then None
                         else (case dropWhile is_digit rest of
                                 [] \<Rightarrow> Some (decimal_value neg integral fractional False 0)
                               | c # rest \<Rightarrow> if c = 0x65 \<or> c = 0x45 then parse_exponent neg integral fractional rest else None))
                   else None))"

section \<open>Qualities\<close>

type_synonym quality = u16

record 'a quality_item =
  qi_item :: 'a
  qi_quality :: quality

definition from_f32 :: "f32 \<Rightarrow> quality" where
  "from_f32 f = f32_to_u16 (f32_mul f (f32_of False 1000 1))"

definition in_unit :: "f32 \<Rightarrow> bool" where
  "in_unit f \<longleftrightarrow> f32_le (F32 False 0) f \<and> f32_le f (f32_of False 1 1)"

text \<open>The function \<open>q\<close> on an integer panics above 1000.\<close>

definition into_quality :: "u16 \<Rightarrow> quality exec" where
  "into_quality n = (if n \<le> 1000 then Return n else Panic)"

definition qitem :: "'a \<Rightarrow> 'a quality_item" where
  "qitem x = \<lparr>qi_item = x, qi_quality = 1000\<rparr>"

definition pad03 :: "nat \<Rightarrow> bytes" where
  "pad03 n = (if n < 1000 then pad_dec 3 n else dec n)"

definition trim_end_zeros :: "bytes \<Rightarrow> bytes" where
  "trim_end_zeros s = rev (dropWhile (\<lambda>b. b = 0x30) (rev s))"

definition quality_item_fmt :: "('a \<Rightarrow> bytes) \<Rightarrow> 'a quality_item \<Rightarrow> bytes" where
  "quality_item_fmt fmt x =
     fmt (qi_item x) @
     (if qi_quality x = 1000 then []
      else if qi_quality x = 0 then bstr ''; q=0''
      else bstr ''; q=0.'' @ trim_end_zeros (pad03 (unat (qi_quality x))))"

definition quality_item_from_str :: "(bytes \<Rightarrow> ('a, 'e) result) \<Rightarrow> bytes \<Rightarrow> ('a quality_item, parse_error) result" where
  "quality_item_from_str parse s =
     (let finish = (\<lambda>raw_item quality. case parse raw_item of
            Ok item \<Rightarrow> Ok \<lparr>qi_item = item, qi_quality = from_f32 quality\<rparr>
          | Err e \<Rightarrow> Err PeHeader);
          one = f32_of False 1 1
      in if \<not> list_all (\<lambda>b. b < 0x80) s then Err PeHeader
         else (case rsplit_in_two s 0x3B of
                 None \<Rightarrow> finish s one
               | Some (a, b) \<Rightarrow>
                   (let part = trim a
                    in if length part < 2 then Err PeHeader
                       else if take 2 part = bstr ''q='' \<or> take 2 part = bstr ''Q='' then
                         (if length part - 2 > 5 then Err PeHeader
                          else (case f32_from_str (drop 2 part) of
                                  Some f \<Rightarrow> if in_unit f then finish (trim b) f else Err PeHeader
                                | None \<Rightarrow> Err PeHeader))
                       else finish s one)))"

section \<open>Rounding thousandths\<close>

lemma ulp_exp_eq: "2 ^ 23 \<le> n div 2 ^ e \<Longrightarrow> n div 2 ^ e < 2 ^ 24 \<Longrightarrow> ulp_exp n = e"
proof (induction e arbitrary: n)
  case 0
  then show ?case by (simp add: ulp_exp.simps [of n])
next
  case (Suc e)
  have "n div 2 ^ Suc e = n div 2 div 2 ^ e" by (simp add: div_mult2_eq)
  with Suc have "ulp_exp (n div 2) = e" by simp
  moreover have "2 ^ 24 \<le> n"
  proof -
    have "2 ^ 23 * 2 ^ Suc e \<le> n" using Suc.prems(1) by (simp add: less_eq_div_iff_mult_less_eq)
    moreover have "(2::nat) ^ 24 \<le> 2 ^ 23 * 2 ^ Suc e" by simp
    ultimately show ?thesis by linarith
  qed
  ultimately show ?case by (simp add: ulp_exp.simps [of n])
qed

lemma round_half_even_scale: "0 < c \<Longrightarrow> round_half_even (a * c) (d * c) = round_half_even a d"
  by (simp add: round_half_even_def Let_def mult_mod_left [symmetric])

lemma f32_round_scale: "0 < c \<Longrightarrow> f32_round (p * c) (q * c) = f32_round p q"
proof -
  assume c: "0 < c"
  have "p * c * 2 ^ 149 = p * 2 ^ 149 * c" "q * c * 2 ^ e = q * 2 ^ e * c" for e
    by (simp_all only: mult.assoc mult.commute [of c])
  then show ?thesis
    using c by (simp only: f32_round_def Let_def round_half_even_scale div_mult_mult2 neq0_conv)
qed

text \<open>The rounding of a number whose leading bit is known.\<close>

lemma f32_round_eq:
  assumes "e + k = 149" and "0 < q" and "2 ^ 23 * q \<le> p * 2 ^ k" and "p * 2 ^ k < 2 ^ 24 * q"
  shows "f32_round p q = round_half_even (p * 2 ^ k) q * 2 ^ e"
proof -
  have p: "p * 2 ^ 149 = p * 2 ^ k * 2 ^ e" using assms(1) by (simp add: power_add [symmetric] add.commute)
  have d: "p * 2 ^ 149 div q div 2 ^ e = p * 2 ^ k div q"
    unfolding p by (simp add: div_mult2_eq [symmetric])
  have "2 ^ 23 \<le> p * 2 ^ k div q" "p * 2 ^ k div q < 2 ^ 24"
    using assms by (simp_all add: less_eq_div_iff_mult_less_eq div_less_iff_less_mult)
  then have "ulp_exp (p * 2 ^ 149 div q) = e"
    using ulp_exp_eq [of "p * 2 ^ 149 div q" e] unfolding d by blast
  then show ?thesis unfolding f32_round_def Let_def by (simp only: p round_half_even_scale zero_less_power zero_less_numeral)
qed

lemma round_half_even_near:
  assumes "m = round_half_even a d" and "0 < d"
  shows "2 * (m * d) \<le> 2 * a + d" and "2 * a \<le> 2 * (m * d) + d"
proof -
  have a: "a = a div d * d + a mod d" "a mod d < d" using assms(2) by simp_all
  show "2 * (m * d) \<le> 2 * a + d" "2 * a \<le> 2 * (m * d) + d"
    using assms(1) a by (auto simp: round_half_even_def Let_def split: if_splits, linarith+)
qed

text \<open>A number within less than half a unit of a multiple is rounded to it.\<close>

lemma round_half_even_exact:
  assumes "2 * a < 2 * (N * d) + d" and "2 * (N * d) < 2 * a + d" and "0 < d"
  shows "round_half_even a d = N"
proof (cases "N * d \<le> a")
  case True
  then obtain r where r: "a = N * d + r" by (auto simp: le_iff_add)
  with assms have "2 * r < d" by simp
  then show ?thesis using r assms(3) by (simp add: round_half_even_def Let_def)
next
  case False
  then obtain M where N: "N = Suc M" by (cases N) auto
  then have Nd: "N * d = M * d + d" by simp
  define r where "r = a - M * d"
  have r: "a = M * d + r" "r < d" "d < 2 * r"
    using False assms Nd unfolding r_def by linarith+
  then show ?thesis using N by (simp add: round_half_even_def Let_def)
qed


text \<open>The thousandths that lose one when they are read.\<close>

definition lossy_quality :: "nat \<Rightarrow> bool" where
  "lossy_quality n \<longleftrightarrow> n \<in> {251, 253, 502, 506, 511}"

text \<open>Reading \<open>n\<close> thousandths, when \<open>k\<close> is the exponent of the rounded number, in integers.\<close>

definition read_back :: "nat \<Rightarrow> nat \<Rightarrow> nat" where
  "read_back k n =
     (let m = round_half_even (n * 2 ^ k) 1000; s = (if m * 1000 < 2 ^ 33 then 9 else 10)
      in round_half_even (m * 1000) (2 ^ s) * 2 ^ s div 2 ^ k)"

lemma binade:
  fixes n :: nat
  assumes "0 < n" and "n < 1000"
  obtains k where "k \<in> {24..33}" and "2 ^ 23 * 1000 \<le> n * 2 ^ k" and "n * 2 ^ k < 2 ^ 24 * 1000"
proof -
  consider "500 \<le> n" "n \<le> 999"
    | "250 \<le> n" "n \<le> 499"
    | "125 \<le> n" "n \<le> 249"
    | "63 \<le> n" "n \<le> 124"
    | "32 \<le> n" "n \<le> 62"
    | "16 \<le> n" "n \<le> 31"
    | "8 \<le> n" "n \<le> 15"
    | "4 \<le> n" "n \<le> 7"
    | "2 \<le> n" "n \<le> 3"
    | "1 \<le> n" "n \<le> 1"
    using assms by linarith
  then show thesis
    by cases (rule that [of 24], simp, simp, simp, rule that [of 25], simp, simp, simp, rule that [of 26], simp, simp, simp, rule that [of 27], simp, simp, simp, rule that [of 28], simp, simp, simp, rule that [of 29], simp, simp, simp, rule that [of 30], simp, simp, simp, rule that [of 31], simp, simp, simp, rule that [of 32], simp, simp, simp, rule that [of 33], simp, simp, simp)
qed

lemma read_back_small:
  "500 \<le> n \<Longrightarrow> n \<le> 511 \<Longrightarrow> read_back 24 n = (if lossy_quality n then n - 1 else n)"
  "250 \<le> n \<Longrightarrow> n \<le> 255 \<Longrightarrow> read_back 25 n = (if lossy_quality n then n - 1 else n)"
  "125 \<le> n \<Longrightarrow> n \<le> 127 \<Longrightarrow> read_back 26 n = (if lossy_quality n then n - 1 else n)"
  "read_back 27 63 = (if lossy_quality 63 then 63 - 1 else 63)"
proof -
  note defs = read_back_def round_half_even_def lossy_quality_def Let_def
  show "read_back 24 n = (if lossy_quality n then n - 1 else n)" if "500 \<le> n" "n \<le> 511"
  proof -
    have "n = 500 \<or> n = 501 \<or> n = 502 \<or> n = 503 \<or> n = 504 \<or> n = 505 \<or> n = 506 \<or> n = 507 \<or> n = 508 \<or> n = 509 \<or> n = 510 \<or> n = 511" using that by presburger
    then show ?thesis by (elim disjE) (simp_all add: defs)
  qed
  show "read_back 25 n = (if lossy_quality n then n - 1 else n)" if "250 \<le> n" "n \<le> 255"
  proof -
    have "n = 250 \<or> n = 251 \<or> n = 252 \<or> n = 253 \<or> n = 254 \<or> n = 255" using that by presburger
    then show ?thesis by (elim disjE) (simp_all add: defs)
  qed
  show "read_back 26 n = (if lossy_quality n then n - 1 else n)" if "125 \<le> n" "n \<le> 127"
  proof -
    have "n = 125 \<or> n = 126 \<or> n = 127" using that by presburger
    then show ?thesis by (elim disjE) (simp_all add: defs)
  qed
  show "read_back 27 63 = (if lossy_quality 63 then 63 - 1 else 63)" by (simp add: defs)
qed

lemma ten_exponents: "k \<in> {24..33} \<Longrightarrow>
  k = 24 \<or> k = 25 \<or> k = 26 \<or> k = 27 \<or> k = 28 \<or> k = 29 \<or> k = 30 \<or> k = 31 \<or> k = 32 \<or> k = (33 :: nat)"
  by (simp only: atLeastAtMost_iff) presburger

lemma read_back_eq:
  assumes k: "k \<in> {24..33}" and lo: "2 ^ 23 * 1000 \<le> n * 2 ^ k" and hi: "n * 2 ^ k < 2 ^ 24 * 1000"
  shows "read_back k n = (if lossy_quality n then n - 1 else n)"
proof -
  define m where "m = round_half_even (n * 2 ^ k) 1000"
  have near: "2 * (m * 1000) \<le> 2 * (n * 2 ^ k) + 1000" "2 * (n * 2 ^ k) \<le> 2 * (m * 1000) + 1000"
    using round_half_even_near [OF m_def] by simp_all
  show ?thesis
  proof (cases "m * 1000 < 2 ^ 33")
    case True
    then have "m \<le> 8589934" by simp
    with near have n: "n * 2 ^ k \<le> 8589934500" by linarith
    have "k = 24 \<and> 500 \<le> n \<and> n \<le> 511 \<or> k = 25 \<and> 250 \<le> n \<and> n \<le> 255 \<or>
        k = 26 \<and> 125 \<le> n \<and> n \<le> 127 \<or> k = 27 \<and> n = 63"
    proof (cases "k < 28")
      case True
      then show ?thesis using ten_exponents [OF k] lo n by (elim disjE) simp_all
    next
      case False
      then have "(2::nat) ^ k = 2 ^ (k - 28) * 2 ^ 28" by (simp only: power_add [symmetric]) simp
      then have t: "n * 2 ^ k = n * 2 ^ (k - 28) * 268435456" by simp
      have "n * 2 ^ (k - 28) \<le> 31 \<or> 32 \<le> n * 2 ^ (k - 28)" by linarith
      then show ?thesis using lo n unfolding t by (elim disjE) simp_all
    qed
    then show ?thesis using read_back_small by auto
  next
    case False
    have nk: "n * 2 ^ k = n * 2 ^ (k - 10) * 2 ^ 10"
    proof -
      have "(2::nat) ^ k = 2 ^ (k - 10) * 2 ^ 10" using k by (simp only: power_add [symmetric]) simp
      then show ?thesis by simp
    qed
    with near have "round_half_even (m * 1000) (2 ^ 10) = n * 2 ^ (k - 10)"
      by (intro round_half_even_exact) simp_all
    with False have "read_back k n = n * 2 ^ (k - 10) * 2 ^ 10 div 2 ^ k"
      by (simp add: read_back_def m_def [symmetric])
    also have "\<dots> = n" unfolding nk [symmetric] by simp
    finally have r: "read_back k n = n" .
    have "\<not> lossy_quality n"
    proof
      assume "lossy_quality n"
      then have "n = 251 \<or> n = 253 \<or> n = 502 \<or> n = 506 \<or> n = 511" by (simp add: lossy_quality_def)
      then show False using ten_exponents [OF k] lo hi near(1) False by (elim disjE) simp_all
    qed
    with r show ?thesis by simp
  qed
qed


text \<open>What a single-precision reading of \<open>n\<close> thousandths becomes.\<close>

lemma f32_of_1000: "f32_of False 1000 1 = F32 False (1000 * 2 ^ 149)"
  using f32_round_eq [of 135 14 1 1000] by (simp add: f32_of_def round_half_even_def)

lemma f32_of_1: "f32_of False 1 1 = F32 False (2 ^ 149)"
  using f32_round_eq [of 126 23 1 1] by (simp add: f32_of_def round_half_even_def)

lemma from_f32_thousandths:
  assumes "0 < n" and "n < 1000"
  shows "from_f32 (f32_of False n 1000) = of_nat (if lossy_quality n then n - 1 else n)" and "in_unit (f32_of False n 1000)"
proof -
  obtain k where k: "k \<in> {24..33}" "2 ^ 23 * 1000 \<le> n * 2 ^ k" "n * 2 ^ k < 2 ^ 24 * 1000" by (rule binade [OF assms])
  define e where "e = 149 - k"
  have ek: "e + k = 149" "e \<le> 125" using k(1) by (auto simp: e_def)
  define m where "m = round_half_even (n * 2 ^ k) 1000"
  have r: "f32_round n 1000 = m * 2 ^ e" using f32_round_eq [OF ek(1) _ k(2,3)] by (simp add: m_def)
  have near: "2 * (m * 1000) \<le> 2 * (n * 2 ^ k) + 1000" "2 * (n * 2 ^ k) \<le> 2 * (m * 1000) + 1000"
    using round_half_even_near [OF m_def] by simp_all
  have m: "2 ^ 23 \<le> m" "m \<le> 2 ^ 24" using near k(2,3) by linarith+
  have "m * 2 ^ e \<le> 2 ^ 24 * 2 ^ 125" by (intro mult_mono power_increasing) (use m ek in auto)
  then have u: "m * 2 ^ e \<le> 2 ^ 149" by (simp only: power_add [symmetric]) simp
  then have f: "f32_of False n 1000 = F32 False (m * 2 ^ e)" by (simp add: f32_of_def r Let_def)
  have "int (m * 2 ^ e) \<le> int (2 ^ 149)" using u by (simp only: of_nat_le_iff)
  then show "in_unit (f32_of False n 1000)"
    unfolding in_unit_def f f32_of_1 f32_le.simps by (simp only: if_False of_nat_0 of_nat_0_le_iff simp_thms)
  define s :: nat where "s = (if m * 1000 < 2 ^ 33 then 9 else 10)"
  have ms: "2 ^ (23 + s) \<le> m * 1000" "m * 1000 < 2 ^ (24 + s)" using m by (auto simp: s_def)
  have sk: "s \<le> k" "s \<le> 10" using k(1) by (auto simp: s_def)
  define c where "c = round_half_even (m * 1000) (2 ^ s)"
  have "f32_round (m * 2 ^ e * (1000 * 2 ^ 149)) (2 ^ 298) = f32_round (m * 1000) (2 ^ k)"
  proof -
    have "(2::nat) ^ 298 = 2 ^ k * (2 ^ e * 2 ^ 149)"
      unfolding power_add [symmetric] using ek(1) by (intro arg_cong [of _ _ "power 2"]) simp
    moreover have "m * 2 ^ e * (1000 * 2 ^ 149) = m * 1000 * (2 ^ e * 2 ^ 149)" by (simp only: mult_ac)
    moreover have "(0::nat) < 2 ^ e * 2 ^ 149" by simp
    ultimately show ?thesis using f32_round_scale [of "2 ^ e * 2 ^ 149" "m * 1000" "2 ^ k"] by (simp only:)
  qed
  also have "\<dots> = c * 2 ^ (e + s)"
  proof -
    have kk: "(2::nat) ^ k = 2 ^ s * 2 ^ (k - s)" using sk by (simp add: power_add [symmetric])
    have "f32_round (m * 1000) (2 ^ k) = round_half_even (m * 1000 * 2 ^ (k - s)) (2 ^ k) * 2 ^ (e + s)"
    proof (rule f32_round_eq)
      show "e + s + (k - s) = 149" using ek sk by simp
      show "2 ^ 23 * 2 ^ k \<le> m * 1000 * 2 ^ (k - s)" "m * 1000 * 2 ^ (k - s) < 2 ^ 24 * 2 ^ k"
        using ms by (simp_all only: kk mult.assoc [symmetric] power_add) simp_all
    qed simp
    also have "round_half_even (m * 1000 * 2 ^ (k - s)) (2 ^ k) = c"
      unfolding kk c_def by (rule round_half_even_scale) simp
    finally show ?thesis .
  qed
  finally have p: "f32_round (m * 2 ^ e * (1000 * 2 ^ 149)) (2 ^ 298) = c * 2 ^ (e + s)" .
  have rb: "read_back k n = c * 2 ^ s div 2 ^ k" by (simp only: read_back_def m_def [symmetric] s_def [symmetric] c_def Let_def)
  have le: "read_back k n \<le> 1000" using assms(2) by (auto simp: read_back_eq [OF k])
  have d: "c * 2 ^ (e + s) div 2 ^ 149 = read_back k n"
  proof -
    have "(2::nat) ^ 149 = 2 ^ k * 2 ^ e" using ek(1) by (simp only: power_add [symmetric] add.commute)
    then have "c * 2 ^ (e + s) div 2 ^ 149 = c * 2 ^ s * 2 ^ e div (2 ^ k * 2 ^ e)" by (simp only: power_add mult_ac)
    then show ?thesis by (simp only: rb div_mult_mult2 power_not_zero zero_neq_numeral [symmetric] not_False_eq_True)
  qed
  have "c * 2 ^ (e + s) < 2 ^ 277"
  proof -
    have "c * 2 ^ (e + s) < (read_back k n + 1) * 2 ^ 149" unfolding d [symmetric] by (simp add: dividend_less_div_times)
    also have "\<dots> \<le> 1001 * 2 ^ 149" using le by (intro mult_right_mono) auto
    also have "\<dots> < 2 ^ 277" by simp
    finally show ?thesis .
  qed
  then have fp: "f32_of False (m * 2 ^ e * (1000 * 2 ^ 149)) (2 ^ 298) = F32 False (c * 2 ^ (e + s))"
    by (simp only: f32_of_def p Let_def if_True)
  have "from_f32 (f32_of False n 1000) = of_nat (min 65535 (read_back k n))"
    by (simp only: from_f32_def f f32_of_1000 f32_mul.simps simp_thms fp f32_to_u16.simps if_False d)
  also have "min 65535 (read_back k n) = read_back k n" using le by simp
  finally have "from_f32 (f32_of False n 1000) = of_nat (read_back k n)" .
  then show "from_f32 (f32_of False n 1000) = of_nat (if lossy_quality n then n - 1 else n)"
    by (simp add: read_back_eq [OF k])
qed


section \<open>Reading what was written\<close>

lemma pad_dec_3: "pad_dec 3 n = [digit (n div 100 mod 10), digit (n div 10 mod 10), digit (n mod 10)]"
proof -
  have "n div 10 div 10 = n div 100" by (simp add: div_mult2_eq [symmetric])
  then show ?thesis by (simp add: numeral_3_eq_3)
qed

lemma is_digit_digit: "d < 10 \<Longrightarrow> is_digit (digit d)"
  by (simp add: is_digit_def word_le_nat_alt unat_digit)

lemma digit_zero: "d < 10 \<Longrightarrow> (digit d = 0x30) = (d = 0)"
  using unat_digit [of d] by (auto simp: digit_def)

text \<open>The fraction that is written: its digits without zeros at the end stand for \<open>n\<close> thousandths.\<close>

lemma fraction_text:
  assumes "0 < n" and "n < 1000"
  obtains ds z where "trim_end_zeros (pad03 n) = map digit ds" and "ds \<noteq> []" and "length ds \<le> 3" and "\<forall>d \<in> set ds. d < 10"
    and "digits_value (map digit ds) * 10 ^ z = n" and "10 ^ length ds * 10 ^ z = (1000 :: nat)"
proof -
  let ?a = "n div 100 mod 10" and ?b = "n div 10 mod 10" and ?c = "n mod 10"
  have "n div 100 < 10" using assms(2) by (simp add: less_mult_imp_div_less)
  then have a: "n div 10 div 10 = ?a" by (simp add: div_mult2_eq [symmetric])
  have "n div 10 = ?a * 10 + ?b" using div_mult_mod_eq [of "n div 10" 10] by (simp only: a)
  then have n: "n = (?a * 10 + ?b) * 10 + ?c" using div_mult_mod_eq [of n 10] by (simp only:)
  note v = trim_end_zeros_def pad03_def pad_dec_3 digit_zero assms(2)
  have "?a \<noteq> 0" if "?c = 0" "?b = 0"
  proof
    assume "?a = 0"
    from n [unfolded that this] assms(1) show False by simp
  qed
  then consider "?c \<noteq> 0" | "?c = 0" "?b \<noteq> 0" | "?c = 0" "?b = 0" "?a \<noteq> 0" by blast
  then show thesis
  proof cases
    case 1
    have "digits_value [digit ?a, digit ?b, digit ?c] = (?a * 10 + ?b) * 10 + ?c" by (simp add: digits_value_def unat_digit)
    also have "\<dots> = n" by (rule n [symmetric])
    finally show ?thesis by (intro that [of "[?a, ?b, ?c]" 0]) (use 1 in \<open>simp_all add: v\<close>)
  next
    case 2
    have "digits_value [digit ?a, digit ?b] * 10 = (?a * 10 + ?b) * 10" by (simp add: digits_value_def unat_digit)
    also have "\<dots> = n" by (rule n [unfolded 2(1) add_0_right, symmetric])
    finally show ?thesis by (intro that [of "[?a, ?b]" 1]) (use 2 in \<open>simp_all add: v\<close>)
  next
    case 3
    have "digits_value [digit ?a] * 100 = ?a * 10 * 10" by (simp add: digits_value_def unat_digit)
    also have "\<dots> = n" by (rule n [unfolded 3(1,2) add_0_right, symmetric])
    finally show ?thesis by (intro that [of "[?a]" 2]) (use 3 in \<open>simp_all add: v\<close>)
  qed
qed

lemma f32_from_fraction:
  assumes "ds \<noteq> []" and "\<forall>d \<in> set ds. d < 10"
  shows "f32_from_str (bstr ''0.'' @ map digit ds) = Some (f32_of False (digits_value (map digit ds)) (10 ^ length ds))"
proof -
  have all: "\<forall>b \<in> set (map digit ds). is_digit b" using assms(2) is_digit_digit by auto
  then have tw: "takeWhile is_digit (map digit ds) = map digit ds" and dw: "dropWhile is_digit (map digit ds) = []"
    by (simp_all add: takeWhile_eq_all_conv dropWhile_eq_Nil_conv)
  have "is_digit 0x30" "\<not> is_digit 0x2E" by (simp_all add: is_digit_def)
  moreover have "digits_value (0x30 # map digit ds) = digits_value (map digit ds)" by (simp add: digits_value_def)
  ultimately show ?thesis
    using assms(1) by (simp add: f32_from_str_def eat_sign_def decimal_value_def tw dw)
qed

lemma f32_of_scale: "0 < c \<Longrightarrow> f32_of neg (p * c) (q * c) = f32_of neg p q"
  by (simp add: f32_of_def f32_round_scale)

lemma f32_from_thousandths:
  assumes "0 < n" and "n < 1000"
  shows "f32_from_str (bstr ''0.'' @ trim_end_zeros (pad03 n)) = Some (f32_of False n 1000)"
    and "length (trim_end_zeros (pad03 n)) \<le> 3" and "trim_end_zeros (pad03 n) \<noteq> []"
    and "\<forall>b \<in> set (trim_end_zeros (pad03 n)). is_digit b"
proof -
  obtain ds z where ds: "trim_end_zeros (pad03 n) = map digit ds" "ds \<noteq> []" "length ds \<le> 3" "\<forall>d \<in> set ds. d < 10"
    "digits_value (map digit ds) * 10 ^ z = n" "10 ^ length ds * 10 ^ z = (1000 :: nat)"
    by (rule fraction_text [OF assms])
  have "f32_of False n 1000 = f32_of False (digits_value (map digit ds)) (10 ^ length ds)"
    using f32_of_scale [of "10 ^ z" False "digits_value (map digit ds)" "10 ^ length ds"] by (simp only: ds(5,6)) simp
  then show "f32_from_str (bstr ''0.'' @ trim_end_zeros (pad03 n)) = Some (f32_of False n 1000)"
    using f32_from_fraction [OF ds(2,4)] by (simp only: ds(1))
  show "length (trim_end_zeros (pad03 n)) \<le> 3" "trim_end_zeros (pad03 n) \<noteq> []" using ds(1-3) by simp_all
  show "\<forall>b \<in> set (trim_end_zeros (pad03 n)). is_digit b" using ds(1,4) is_digit_digit by auto
qed

lemma from_f32_ends: "from_f32 (f32_of False 1 1) = 1000" "from_f32 (F32 False 0) = 0"
  "in_unit (F32 False 0)" "f32_from_str (bstr ''0'') = Some (F32 False 0)"
proof -
  have "f32_round (2 ^ 149 * (1000 * 2 ^ 149)) (2 ^ 298) = f32_round 1000 1"
    using f32_round_scale [of "2 ^ 298" 1000 1] by (simp add: power_add [symmetric] mult_ac)
  then have "f32_of False (2 ^ 149 * (1000 * 2 ^ 149)) (2 ^ 298) = F32 False (1000 * 2 ^ 149)"
    using f32_of_1000 by (simp only: f32_of_def)
  then show "from_f32 (f32_of False 1 1) = 1000"
    by (simp only: from_f32_def f32_of_1 f32_of_1000 f32_mul.simps f32_to_u16.simps) simp
  have z: "f32_round 0 q = 0" for q by (auto simp: f32_round_def round_half_even_def ulp_exp.simps [of 0] Let_def)
  show "from_f32 (F32 False 0) = 0"
    unfolding from_f32_def f32_of_1000 f32_mul.simps mult_zero_left unfolding f32_of_def z Let_def by simp
  show "in_unit (F32 False 0)" unfolding in_unit_def f32_of_1 by simp
  show "f32_from_str (bstr ''0'') = Some (F32 False 0)"
    using z [of 1] by (simp add: f32_from_str_def eat_sign_def is_digit_def decimal_value_def digits_value_def f32_of_def)
qed

text \<open>
  An item with a quality of \<open>n\<close> thousandths survives printing and parsing, for every \<open>n\<close> up to a thousand except
  251, 253, 502, 506 and 511: there the product of the rounded fraction and 1000 falls below
  the integer, and dropping its fraction loses one thousandth.
\<close>

theorem quality_item_roundtrip:
  assumes "parse (fmt x) = Ok x" and "list_all (\<lambda>b. b < 0x80 \<and> b \<noteq> 0x3B) (fmt x)" and "trimmed (fmt x)" and "n \<le> 1000"
  shows "quality_item_from_str parse (quality_item_fmt fmt \<lparr>qi_item = x, qi_quality = of_nat n\<rparr>) =
    Ok \<lparr>qi_item = x, qi_quality = of_nat (if n \<in> {251, 253, 502, 506, 511} then n - 1 else n)\<rparr>"
proof -
  have ascii: "list_all (\<lambda>b. b < 0x80) (fmt x)" "0x3B \<notin> set (fmt x)" using assms(2) by (auto simp: list_all_iff)
  have u: "unat (of_nat n :: u16) = n" using assms(4) by (simp add: unat_of_nat)
  have nz: "(of_nat n :: u16) = 1000 \<longleftrightarrow> n = 1000" "(of_nat n :: u16) = 0 \<longleftrightarrow> n = 0"
    using u by (auto dest: arg_cong [of _ _ unat])
  have part: "quality_item_from_str parse (fmt x @ 0x3B # 0x20 # (bstr ''q='' @ ds)) =
      (if in_unit f then Ok \<lparr>qi_item = x, qi_quality = from_f32 f\<rparr> else Err PeHeader)"
    if f: "f32_from_str ds = Some f" "list_all (\<lambda>b. b < 0x80) ds" "0x3B \<notin> set ds" "ds \<noteq> []" "\<not> is_ws (last ds)" "length ds \<le> 5" for ds f
  proof -
    have "trimmed (bstr ''q='' @ ds)" using f(4,5) by (simp add: trimmed_def is_ws_def)
    then have "trim (0x20 # (bstr ''q='' @ ds)) = bstr ''q='' @ ds" by (intro trim_space) simp_all
    then show ?thesis using ascii f assms(1,3) by (simp add: quality_item_from_str_def Let_def)
  qed
  consider "n = 1000" | "n = 0" | "0 < n" "n < 1000" using assms(4) by linarith
  then show ?thesis
  proof cases
    case 1
    then show ?thesis using ascii assms(1) from_f32_ends(1) by (simp add: quality_item_fmt_def quality_item_from_str_def)
  next
    case 2
    have "\<not> is_ws (last (bstr ''0''))" by (simp add: is_ws_def)
    from part [OF from_f32_ends(4) _ _ _ this] 2 from_f32_ends(2,3) show ?thesis by (simp add: quality_item_fmt_def)
  next
    case 3
    let ?t = "trim_end_zeros (pad03 n)"
    note t = f32_from_thousandths [OF 3]
    have dig: "is_digit b \<Longrightarrow> b < 0x80 \<and> b \<noteq> 0x3B \<and> \<not> is_ws b" for b
      by (auto simp: is_digit_def is_ws_def word_le_nat_alt word_less_nat_alt)
    have "quality_item_from_str parse (fmt x @ 0x3B # 0x20 # (bstr ''q='' @ bstr ''0.'' @ ?t)) =
        Ok \<lparr>qi_item = x, qi_quality = of_nat (if lossy_quality n then n - 1 else n)\<rparr>"
    proof (subst part [OF t(1)])
      show "list_all (\<lambda>b. b < 0x80) (bstr ''0.'' @ ?t)" using t(4) dig by (auto simp: list_all_iff)
      show "0x3B \<notin> set (bstr ''0.'' @ ?t)" using t(4) dig by auto
      show "\<not> is_ws (last (bstr ''0.'' @ ?t))" using t(3,4) dig by (simp add: last_append)
      show "length (bstr ''0.'' @ ?t) \<le> 5" using t(2) by simp
    qed (simp_all add: from_f32_thousandths [OF 3])
    then show ?thesis using 3 by (simp add: quality_item_fmt_def nz u lossy_quality_def)
  qed
qed

lemma quality_item_roundtrip_witness:
  "quality_item_from_str encoding_from_str (quality_item_fmt encoding_fmt \<lparr>qi_item = EnGzip, qi_quality = of_nat 251\<rparr>) =
     Ok \<lparr>qi_item = EnGzip, qi_quality = of_nat 250\<rparr>"
  using quality_item_roundtrip [of encoding_from_str encoding_fmt EnGzip 251]
  by (simp add: encoding_from_str_def trimmed_def is_ws_def)

end
