(* ===== verification/Utf8_Text.thy ===== *)
theory Utf8_Text
  imports Utf8 Header_Parsing
begin

text \<open>
  Operations of the standard library on strings of UTF-8 bytes: trimming, which removes the white space of Unicode, and
  slices, each the address of its first byte with its bytes. The lemmas show that slicing never cuts a character.
\<close>

section \<open>Trimming\<close>

text \<open>The UTF-8 sequences of more than one byte that are white space.\<close>

definition wide_ws :: "bytes list" where
  "wide_ws =
     [[0xC2, 0x85], [0xC2, 0xA0], [0xE1, 0x9A, 0x80], [0xE2, 0x80, 0x80], [0xE2, 0x80, 0x81], [0xE2, 0x80, 0x82],
      [0xE2, 0x80, 0x83], [0xE2, 0x80, 0x84], [0xE2, 0x80, 0x85], [0xE2, 0x80, 0x86], [0xE2, 0x80, 0x87],
      [0xE2, 0x80, 0x88], [0xE2, 0x80, 0x89], [0xE2, 0x80, 0x8A], [0xE2, 0x80, 0xA8], [0xE2, 0x80, 0xA9],
      [0xE2, 0x80, 0xAF], [0xE2, 0x81, 0x9F], [0xE3, 0x80, 0x80]]"

text \<open>How many bytes of white space one character at the front or at the end has.\<close>

definition ws_front :: "bytes \<Rightarrow> nat" where
  "ws_front s =
     (if s = [] then 0
      else if is_ws (hd s) then 1
      else (case List.find (\<lambda>w. take (length w) s = w) wide_ws of Some w \<Rightarrow> length w | None \<Rightarrow> 0))"

definition ws_back :: "bytes \<Rightarrow> nat" where
  "ws_back s =
     (if s = [] then 0
      else if is_ws (last s) then 1
      else (case List.find (\<lambda>w. take (length w) (rev s) = rev w) wide_ws of Some w \<Rightarrow> length w | None \<Rightarrow> 0))"

lemma ws_front_pos: "ws_front s \<noteq> 0 \<Longrightarrow> s \<noteq> []"
  by (auto simp: ws_front_def)

lemma ws_back_pos: "ws_back s \<noteq> 0 \<Longrightarrow> s \<noteq> []"
  by (auto simp: ws_back_def)

function trim_start :: "bytes \<Rightarrow> bytes" where
  "trim_start s = (if ws_front s = 0 then s else trim_start (drop (ws_front s) s))"
  by pat_completeness auto
termination
  by (relation "measure length") (use ws_front_pos in auto)

function trim_end :: "bytes \<Rightarrow> bytes" where
  "trim_end s = (if ws_back s = 0 then s else trim_end (take (length s - ws_back s) s))"
  by pat_completeness auto
termination
  by (relation "measure length") (use ws_back_pos in auto)

declare trim_start.simps [simp del] trim_end.simps [simp del]

lemma length_trim_start: "length (trim_start s) \<le> length s"
proof (induction s rule: trim_start.induct)
  case (1 s)
  then show ?case by (cases "ws_front s = 0") (simp_all add: trim_start.simps [of s])
qed


section \<open>Texts without white space around them\<close>

text \<open>A text that begins and ends with an ASCII character that is not white space.\<close>

definition plain_byte :: "byte \<Rightarrow> bool" where
  "plain_byte b \<longleftrightarrow> b < 0x80 \<and> \<not> is_ws b"

definition tidy :: "bytes \<Rightarrow> bool" where
  "tidy s \<longleftrightarrow> s \<noteq> [] \<and> plain_byte (hd s) \<and> plain_byte (last s)"

lemma wide_ws_bytes: "w \<in> set wide_ws \<Longrightarrow> w \<noteq> [] \<and> \<not> hd w < 0x80 \<and> \<not> last w < 0x80"
  by (auto simp: wide_ws_def)

lemma ws_front_plain:
  assumes "plain_byte b"
  shows "ws_front (b # s) = 0"
proof -
  have "take (length w) (b # s) \<noteq> w" if "w \<in> set wide_ws" for w
    using wide_ws_bytes [OF that] assms by (cases w) (auto simp: plain_byte_def)
  then have "List.find (\<lambda>w. take (length w) (b # s) = w) wide_ws = None" by (simp add: find_None_iff)
  then show ?thesis using assms by (simp add: ws_front_def plain_byte_def)
qed

lemma ws_back_plain:
  assumes "plain_byte b"
  shows "ws_back (s @ [b]) = 0"
proof -
  have "take (length w) (rev (s @ [b])) \<noteq> rev w" if "w \<in> set wide_ws" for w
    using wide_ws_bytes [OF that] assms by (cases w rule: rev_cases) (auto simp: plain_byte_def)
  then have "List.find (\<lambda>w. take (length w) (rev (s @ [b])) = rev w) wide_ws = None" by (simp add: find_None_iff)
  then show ?thesis using assms by (simp add: ws_back_def plain_byte_def)
qed

lemma trim_start_id: "ws_front s = 0 \<Longrightarrow> trim_start s = s"
  by (subst trim_start.simps) simp

lemma trim_end_id: "ws_back s = 0 \<Longrightarrow> trim_end s = s"
  by (subst trim_end.simps) simp

lemma trim_start_tidy: "tidy s \<Longrightarrow> trim_start (s @ t) = s @ t"
  by (cases s) (auto simp: tidy_def intro: trim_start_id ws_front_plain)

lemma trim_end_tidy: "tidy s \<Longrightarrow> trim_end (t @ s) = t @ s"
  using trim_end_id [OF ws_back_plain [of "last s" "t @ butlast s"]] by (simp add: tidy_def)

lemma trim_start_space: "trim_start (0x20 # s) = trim_start s"
  by (simp add: trim_start.simps [of "0x20 # s"] ws_front_def is_ws_def)

lemma trim_start_Nil [simp]: "trim_start [] = []"
  by (simp add: trim_start.simps [of "[]"] ws_front_def)

section \<open>Cutting valid text\<close>

lemma utf8_second_cont: "utf8_second b0 b1 \<Longrightarrow> utf8_cont b1"
  by (auto simp: utf8_second_def utf8_cont_def word_le_nat_alt split: if_splits)

lemma utf8_tail_cont: "utf8_tail got n bs = (k, True) \<Longrightarrow> i < k - got \<Longrightarrow> utf8_cont (bs ! i)"
proof (induction got n bs arbitrary: i rule: utf8_tail.induct)
  case (3 got n b bs)
  then show ?case by (cases i) (auto split: if_splits)
qed auto

lemma utf8_seq_cont:
  assumes "utf8_seq bs = (k, True)" and "0 < i" and "i < k"
  shows "utf8_cont (bs ! i)"
proof -
  obtain j where i: "i = Suc j" using assms(2) by (cases i) auto
  obtain b0 t where bs: "bs = b0 # t" using assms by (cases bs) auto
  have wide: "utf8_cont (t ! j)" if w: "utf8_wide b0 n t = (k, True)" for n
  proof -
    obtain b1 u where t: "t = b1 # u" "utf8_second b0 b1" "utf8_tail 2 n u = (k, True)"
      using w by (auto simp: utf8_wide_def split: list.splits if_splits)
    then show ?thesis using utf8_second_cont [OF t(2)] utf8_tail_cont [OF t(3), of "j - 1"] assms(3) i by (cases j) auto
  qed
  show ?thesis
    using assms wide utf8_tail_cont [of 1 1 t k j] by (auto simp: bs i split: if_splits)
qed

lemma valid_utf8_seq: "utf8_seq (w @ t) = (length w, True) \<Longrightarrow> w \<noteq> [] \<Longrightarrow> valid_utf8 (w @ t) \<longleftrightarrow> valid_utf8 t"
  by (simp add: valid_utf8.simps [of "w @ t"])

lemma valid_utf8_ascii_Cons [simp]: "c < 0x80 \<Longrightarrow> valid_utf8 (c # t) \<longleftrightarrow> valid_utf8 t"
  by (simp add: valid_utf8.simps [of "c # t"])

text \<open>Only ASCII is valid UTF-8.\<close>

lemma valid_utf8_ascii: "list_all (\<lambda>b. b < 0x80) s \<Longrightarrow> valid_utf8 s"
  by (induction s) simp_all

lemma valid_utf8_append: "valid_utf8 a \<Longrightarrow> valid_utf8 b \<Longrightarrow> valid_utf8 (a @ b)"
proof (induction a rule: valid_utf8.induct)
  case (1 a)
  show ?case
  proof (cases "a = []")
    case False
    then obtain k where k: "utf8_seq a = (k, True)" "valid_utf8 (drop k a)"
      using "1.prems"(1) by (cases "utf8_seq a") (auto simp: valid_utf8.simps [of a] split: if_splits)
    with False 1 have v: "valid_utf8 (drop k a @ b)" by simp
    have le: "k \<le> length a" by (rule utf8_seq_le [OF k(1)])
    have "utf8_seq (take k a @ (drop k a @ b)) = (k, True)" by (rule utf8_seq_append [OF False k(1)])
    then have "utf8_seq (a @ b) = (k, True)" by (simp flip: append_assoc)
    with False v le show ?thesis by (simp add: valid_utf8.simps [of "a @ b"])
  qed (use 1 in simp)
qed

text \<open>Valid text may be cut before any byte that does not continue a character.\<close>

lemma valid_utf8_cut:
  "valid_utf8 (a @ b) \<Longrightarrow> b = [] \<or> \<not> utf8_cont (hd b) \<Longrightarrow> valid_utf8 a \<and> valid_utf8 b"
proof (induction a rule: length_induct)
  case (1 a)
  show ?case
  proof (cases "a = []")
    case False
    then obtain k where k: "utf8_seq (a @ b) = (k, True)" "valid_utf8 (drop k (a @ b))"
      using "1.prems"(1) by (cases "utf8_seq (a @ b)") (auto simp: valid_utf8.simps [of "a @ b"] split: if_splits)
    have pos: "0 < k" using utf8_seq_pos [of "a @ b"] False k(1) by simp
    have le: "k \<le> length a"
    proof (rule ccontr)
      assume "\<not> k \<le> length a"
      then have "utf8_cont ((a @ b) ! length a)" using utf8_seq_cont [OF k(1), of "length a"] False by simp
      moreover have "b \<noteq> []" using utf8_seq_le [OF k(1)] \<open>\<not> k \<le> length a\<close> by auto
      ultimately show False using "1.prems"(2) by (simp add: hd_conv_nth nth_append)
    qed
    then have "valid_utf8 (drop k a @ b)" using k(2) by simp
    moreover have "length (drop k a) < length a" using pos False by simp
    ultimately have v: "valid_utf8 (drop k a) \<and> valid_utf8 b" using "1.IH" "1.prems"(2) by blast
    have "utf8_seq (take k (a @ b) @ drop k a) = (k, True)" using utf8_seq_append [OF _ k(1)] False by simp
    then have "utf8_seq a = (k, True)" using le by simp
    with v False show ?thesis by (simp add: valid_utf8.simps [of a])
  qed (use 1 in simp)
qed

lemma valid_utf8_hd: "valid_utf8 (b # t) \<Longrightarrow> \<not> utf8_cont b"
  by (auto simp: valid_utf8.simps [of "b # t"] utf8_cont_def word_le_nat_alt word_less_nat_alt split: if_splits)

lemma ascii_no_cont: "b < 0x80 \<Longrightarrow> \<not> utf8_cont b"
  by (simp add: utf8_cont_def not_le)

lemma valid_utf8_cut_at:
  assumes "valid_utf8 (a @ c # b)" and "c < 0x80"
  shows "valid_utf8 a" and "valid_utf8 b"
  using valid_utf8_cut [OF assms(1)] assms(2) by (simp_all add: ascii_no_cont)

lemma wide_ws_char: "w \<in> set wide_ws \<Longrightarrow> utf8_seq (w @ t) = (length w, True) \<and> w \<noteq> [] \<and> \<not> utf8_cont (hd w)"
  by (auto simp: wide_ws_def utf8_wide_def utf8_second_def utf8_cont_def)

lemma is_ws_ascii: "is_ws b \<Longrightarrow> b < 0x80"
  by (auto simp: is_ws_def word_le_nat_alt word_less_nat_alt)

text \<open>Trimming cuts off whole characters.\<close>

lemma ws_front_cut:
  assumes "valid_utf8 s" and "ws_front s \<noteq> 0"
  shows "\<exists>w t. s = w @ t \<and> length w = ws_front s \<and> valid_utf8 w \<and> valid_utf8 t"
proof -
  have s: "s \<noteq> []" by (rule ws_front_pos [OF assms(2)])
  show ?thesis
  proof (cases "is_ws (hd s)")
    case True
    then have "s = [hd s] @ tl s \<and> length [hd s] = ws_front s \<and> valid_utf8 [hd s] \<and> valid_utf8 (tl s)"
      using s assms(1) is_ws_ascii [of "hd s"] by (cases s) (simp_all add: ws_front_def)
    then show ?thesis by blast
  next
    case False
    with s assms(2) obtain w where w: "List.find (\<lambda>w. take (length w) s = w) wide_ws = Some w" "ws_front s = length w"
      by (auto simp: ws_front_def split: option.splits)
    then have m: "w \<in> set wide_ws" "take (length w) s = w" by (auto simp: find_Some_iff)
    then have e: "s = w @ drop (length w) s" by (metis append_take_drop_id)
    from wide_ws_char [OF m(1), of "[]"] wide_ws_char [OF m(1), of "drop (length w) s"]
    have "valid_utf8 w" "valid_utf8 (drop (length w) s)"
      using valid_utf8_seq [of w "[]"] valid_utf8_seq [of w "drop (length w) s"] assms(1) e by auto
    with e w(2) show ?thesis by metis
  qed
qed

lemma ws_back_cut:
  assumes "valid_utf8 s" and "ws_back s \<noteq> 0"
  shows "\<exists>w t. s = t @ w \<and> length w = ws_back s \<and> valid_utf8 w \<and> valid_utf8 t"
proof -
  have s: "s \<noteq> []" by (rule ws_back_pos [OF assms(2)])
  have "\<exists>w t. s = t @ w \<and> length w = ws_back s \<and> w \<noteq> [] \<and> \<not> utf8_cont (hd w)"
  proof (cases "is_ws (last s)")
    case True
    then have "s = butlast s @ [last s] \<and> length [last s] = ws_back s \<and> \<not> utf8_cont (hd [last s])"
      using s is_ws_ascii [of "last s"] by (simp add: ws_back_def ascii_no_cont)
    then show ?thesis by blast
  next
    case False
    with s assms(2) obtain w where w: "List.find (\<lambda>w. take (length w) (rev s) = rev w) wide_ws = Some w" "ws_back s = length w"
      by (auto simp: ws_back_def split: option.splits)
    then have m: "w \<in> set wide_ws" "take (length w) (rev s) = rev w" by (auto simp: find_Some_iff)
    then have "s = rev (drop (length w) (rev s)) @ w" by (metis append_take_drop_id rev_append rev_rev_ident)
    with w(2) wide_ws_char [OF m(1)] show ?thesis by metis
  qed
  then show ?thesis using valid_utf8_cut assms(1) by blast
qed

lemma trim_start_cut: "valid_utf8 s \<Longrightarrow> \<exists>w. s = w @ trim_start s \<and> valid_utf8 w \<and> valid_utf8 (trim_start s)"
proof (induction s rule: trim_start.induct)
  case (1 s)
  show ?case
  proof (cases "ws_front s = 0")
    case False
    then obtain w t where c: "s = w @ t" "length w = ws_front s" "valid_utf8 w" "valid_utf8 t" using ws_front_cut "1.prems" by blast
    then have t: "drop (ws_front s) s = t" by (metis append_eq_conv_conj)
    then obtain u where "t = u @ trim_start t" "valid_utf8 u" "valid_utf8 (trim_start t)" using "1.IH" [OF False] c(4) by auto
    moreover have "trim_start s = trim_start t" using False t by (subst trim_start.simps) simp
    ultimately show ?thesis using c valid_utf8_append [of w u] by (intro exI [of _ "w @ u"]) simp
  qed (use "1.prems" in \<open>simp add: trim_start_id\<close>)
qed

lemma trim_end_cut: "valid_utf8 s \<Longrightarrow> \<exists>w. s = trim_end s @ w \<and> valid_utf8 w \<and> valid_utf8 (trim_end s)"
proof (induction s rule: trim_end.induct)
  case (1 s)
  show ?case
  proof (cases "ws_back s = 0")
    case False
    then obtain w t where c: "s = t @ w" "length w = ws_back s" "valid_utf8 w" "valid_utf8 t" using ws_back_cut "1.prems" by blast
    then have t: "take (length s - ws_back s) s = t" by auto
    then obtain u where "t = trim_end t @ u" "valid_utf8 u" "valid_utf8 (trim_end t)" using "1.IH" [OF False] c(4) by auto
    moreover have "trim_end s = trim_end t" using False t by (subst trim_end.simps) simp
    ultimately show ?thesis using c valid_utf8_append [of u w] by (intro exI [of _ "u @ w"]) simp
  qed (use "1.prems" in \<open>simp add: trim_end_id\<close>)
qed

section \<open>Slices\<close>

type_synonym slice = "nat \<times> bytes"

text \<open>\<open>trim\<close>; what is left of white space alone is the empty slice at its front.\<close>

definition slice_trim :: "slice \<Rightarrow> slice" where
  "slice_trim sl =
     (let (a, s) = sl; t = trim_start s in if t = [] then (a, []) else (a + (length s - length t), trim_end t))"

text \<open>The parts around the first occurrence of a byte: \<open>s[..i]\<close> and \<open>s[i + 1..]\<close> for \<open>i\<close> of \<open>find\<close>.\<close>

definition slice_find :: "byte \<Rightarrow> slice \<Rightarrow> (slice \<times> slice) option" where
  "slice_find c sl =
     (case split_in_two (snd sl) c of
        None \<Rightarrow> None
      | Some (a, b) \<Rightarrow> Some ((fst sl, a), (fst sl + length a + 1, b)))"

lemma slice_find_length: "slice_find c sl = Some (l, r) \<Longrightarrow> length (snd r) < length (snd sl)"
  by (auto simp: slice_find_def dest: split_in_two_Some split: option.splits)

text \<open>\<open>split\<close> at every occurrence.\<close>

function slice_split :: "byte \<Rightarrow> slice \<Rightarrow> slice list" where
  "slice_split c sl = (case slice_find c sl of None \<Rightarrow> [sl] | Some (l, r) \<Rightarrow> l # slice_split c r)"
  by pat_completeness auto
termination
  by (relation "measure (\<lambda>(_, sl). length (snd sl))") (auto dest: slice_find_length)

declare slice_split.simps [simp del]

text \<open>A slice lies within a text, cut between characters.\<close>

definition slice_in :: "slice \<Rightarrow> slice \<Rightarrow> bool" where
  "slice_in base sl \<longleftrightarrow>
     (\<exists>pre post. snd base = pre @ snd sl @ post \<and> fst sl = fst base + length pre \<and>
        valid_utf8 pre \<and> valid_utf8 (snd sl) \<and> valid_utf8 post)"

lemma slice_in_self: "valid_utf8 (snd base) \<Longrightarrow> slice_in base base"
  unfolding slice_in_def by (intro exI [of _ "[]"]) simp

lemma slice_in_trans:
  assumes "slice_in a b" and "slice_in b c"
  shows "slice_in a c"
proof -
  obtain p q where b: "snd a = p @ snd b @ q" "fst b = fst a + length p" "valid_utf8 p" "valid_utf8 q"
    using assms(1) by (auto simp: slice_in_def)
  obtain r t where c: "snd b = r @ snd c @ t" "fst c = fst b + length r" "valid_utf8 r" "valid_utf8 (snd c)" "valid_utf8 t"
    using assms(2) by (auto simp: slice_in_def)
  show ?thesis unfolding slice_in_def using b c
    by (intro exI [of _ "p @ r"] exI [of _ "t @ q"]) (simp add: valid_utf8_append)
qed

lemma slice_trim_in:
  assumes "valid_utf8 (snd sl)"
  shows "slice_in sl (slice_trim sl)"
proof -
  obtain w where w: "snd sl = w @ trim_start (snd sl)" "valid_utf8 w" "valid_utf8 (trim_start (snd sl))"
    using trim_start_cut [OF assms] by blast
  show ?thesis
  proof (cases "trim_start (snd sl) = []")
    case True
    then have "snd (slice_trim sl) = [] \<and> fst (slice_trim sl) = fst sl" by (simp add: slice_trim_def case_prod_beta)
    then show ?thesis unfolding slice_in_def using assms by (intro exI [of _ "[]"] exI [of _ "snd sl"]) simp
  next
    case False
    obtain u where u: "trim_start (snd sl) = trim_end (trim_start (snd sl)) @ u" "valid_utf8 u" "valid_utf8 (trim_end (trim_start (snd sl)))"
      using trim_end_cut [OF w(3)] by blast
    have "length (snd sl) - length (trim_start (snd sl)) = length w" using arg_cong [OF w(1), of length] by simp
    then show ?thesis unfolding slice_in_def using False w u
      by (intro exI [of _ w] exI [of _ u]) (simp add: slice_trim_def case_prod_beta)
  qed
qed

lemma slice_find_in:
  assumes "slice_find c sl = Some (l, r)" and "c < 0x80" and "valid_utf8 (snd sl)"
  shows "slice_in sl l" and "slice_in sl r"
proof -
  obtain a b where ab: "split_in_two (snd sl) c = Some (a, b)" "l = (fst sl, a)" "r = (fst sl + length a + 1, b)"
    using assms(1) by (auto simp: slice_find_def split: option.splits)
  have s: "snd sl = a @ c # b" using split_in_two_Some [OF ab(1)] by simp
  have v: "valid_utf8 a" "valid_utf8 b" using valid_utf8_cut_at [of a c b] assms(2,3) s by simp_all
  show "slice_in sl l" unfolding slice_in_def using s v assms(2) ab by (intro exI [of _ "[]"] exI [of _ "c # b"]) simp
  show "slice_in sl r" unfolding slice_in_def using s v assms(2) ab
    by (intro exI [of _ "a @ [c]"] exI [of _ "[]"]) (simp add: valid_utf8_append valid_utf8_ascii)
qed

lemma slice_in_valid: "slice_in base sl \<Longrightarrow> valid_utf8 (snd sl)"
  by (auto simp: slice_in_def)

lemma slice_split_in: "valid_utf8 (snd sl) \<Longrightarrow> c < 0x80 \<Longrightarrow> x \<in> set (slice_split c sl) \<Longrightarrow> slice_in sl x"
proof (induction c sl rule: slice_split.induct)
  case (1 c sl)
  show ?case
  proof (cases "slice_find c sl")
    case None
    then show ?thesis using "1.prems" slice_in_self by (simp add: slice_split.simps [of c sl])
  next
    case (Some lr)
    then obtain l r where lr: "slice_find c sl = Some (l, r)" by (cases lr) simp
    note i = slice_find_in [OF lr "1.prems"(2,1)]
    have "x = l \<or> x \<in> set (slice_split c r)" using "1.prems"(3) lr by (simp add: slice_split.simps [of c sl])
    with "1.IH" [OF lr refl] "1.prems"(2) i slice_in_valid [OF i(2)] show ?thesis by (blast intro: slice_in_trans)
  qed
qed

lemma slice_split_not_Nil: "slice_split c sl \<noteq> []"
  by (simp add: slice_split.simps [of c sl] split: option.splits)

end
