(* ===== verification/Content_Disposition.thy ===== *)
theory Content_Disposition
  imports Utf8_Text
begin

text \<open>
  The \<open>Content-Disposition\<close> header (\<open>header/common/content_disposition.rs\<close>): its parser, which accepts UTF-8, and its
  printer. A string is the list of its UTF-8 bytes; trimming removes the white space of Unicode.
\<close>

section \<open>Data\<close>

datatype disposition_type = Inline | Attachment | FormData | DtExt bytes

datatype 'l disposition_param =
    DpName bytes
  | DpFilename bytes
  | DpFilenameExt "'l ext_value"
  | DpUnknown bytes bytes
  | DpUnknownExt bytes "'l ext_value"

record 'l content_disposition =
  cd_disposition :: disposition_type
  cd_parameters :: "'l disposition_param list"

definition disposition_from_str :: "bytes \<Rightarrow> disposition_type" where
  "disposition_from_str s =
     (if eq_ignore_ascii_case s (bstr ''inline'') then Inline
      else if eq_ignore_ascii_case s (bstr ''attachment'') then Attachment
      else if eq_ignore_ascii_case s (bstr ''form-data'') then FormData
      else DtExt s)"

fun as_name_param :: "'l disposition_param \<Rightarrow> bytes option" where
  "as_name_param (DpName n) = Some n"
| "as_name_param _ = None"

fun as_filename :: "'l disposition_param \<Rightarrow> bytes option" where
  "as_filename (DpFilename n) = Some n"
| "as_filename _ = None"

fun as_filename_ext :: "'l disposition_param \<Rightarrow> 'l ext_value option" where
  "as_filename_ext (DpFilenameExt v) = Some v"
| "as_filename_ext _ = None"

fun as_unknown :: "bytes \<Rightarrow> 'l disposition_param \<Rightarrow> bytes option" where
  "as_unknown name (DpUnknown n v) = (if eq_ignore_ascii_case n name then Some v else None)"
| "as_unknown name _ = None"

fun as_unknown_ext :: "bytes \<Rightarrow> 'l disposition_param \<Rightarrow> 'l ext_value option" where
  "as_unknown_ext name (DpUnknownExt n v) = (if eq_ignore_ascii_case n name then Some v else None)"
| "as_unknown_ext name _ = None"

definition is_name :: "'l disposition_param \<Rightarrow> bool" where
  "is_name p \<longleftrightarrow> as_name_param p \<noteq> None"

definition is_filename :: "'l disposition_param \<Rightarrow> bool" where
  "is_filename p \<longleftrightarrow> as_filename p \<noteq> None"

definition is_filename_ext :: "'l disposition_param \<Rightarrow> bool" where
  "is_filename_ext p \<longleftrightarrow> as_filename_ext p \<noteq> None"

definition is_unknown :: "bytes \<Rightarrow> 'l disposition_param \<Rightarrow> bool" where
  "is_unknown name p \<longleftrightarrow> as_unknown name p \<noteq> None"

definition is_unknown_ext :: "bytes \<Rightarrow> 'l disposition_param \<Rightarrow> bool" where
  "is_unknown_ext name p \<longleftrightarrow> as_unknown_ext name p \<noteq> None"

fun is_ext :: "bytes \<Rightarrow> 'l content_disposition \<Rightarrow> bool" where
  "is_ext disp_type cd = (case cd_disposition cd of DtExt t \<Rightarrow> eq_ignore_ascii_case t disp_type | _ \<Rightarrow> False)"

text \<open>The first parameter that a selector accepts.\<close>

definition first_param :: "('l disposition_param \<Rightarrow> 'a option) \<Rightarrow> 'l content_disposition \<Rightarrow> 'a option" where
  "first_param f cd = (case List.map_filter f (cd_parameters cd) of x # _ \<Rightarrow> Some x | [] \<Rightarrow> None)"

definition get_name :: "'l content_disposition \<Rightarrow> bytes option" where
  "get_name = first_param as_name_param"

definition get_filename :: "'l content_disposition \<Rightarrow> bytes option" where
  "get_filename = first_param as_filename"

definition get_filename_ext :: "'l content_disposition \<Rightarrow> 'l ext_value option" where
  "get_filename_ext = first_param as_filename_ext"

definition get_unknown :: "bytes \<Rightarrow> 'l content_disposition \<Rightarrow> bytes option" where
  "get_unknown name = first_param (as_unknown name)"

definition get_unknown_ext :: "bytes \<Rightarrow> 'l content_disposition \<Rightarrow> 'l ext_value option" where
  "get_unknown_ext name = first_param (as_unknown_ext name)"

section \<open>Parsing\<close>

definition split_once :: "bytes \<Rightarrow> byte \<Rightarrow> bytes \<times> bytes" where
  "split_once s c = (case split_in_two s c of Some p \<Rightarrow> p | None \<Rightarrow> (s, []))"

definition split_once_and_trim :: "bytes \<Rightarrow> byte \<Rightarrow> bytes \<times> bytes" where
  "split_once_and_trim s c = (let (first, rest) = split_once s c in (trim_end first, trim_start rest))"

text \<open>The search for the closing quote: what was quoted, and what follows the quote.\<close>

fun scan_quoted :: "bool \<Rightarrow> bytes \<Rightarrow> (bytes \<times> bytes) option" where
  "scan_quoted escaping [] = None"
| "scan_quoted escaping (c # cs) =
     (if escaping then map_option (apfst ((#) c)) (scan_quoted False cs)
      else if c = 0x5C then scan_quoted True cs
      else if c = 0x22 then Some ([], cs)
      else map_option (apfst ((#) c)) (scan_quoted False cs))"

text \<open>The value of a regular parameter, and what is left.\<close>

definition regular_value :: "bytes \<Rightarrow> (bytes \<times> bytes, parse_error) result" where
  "regular_value left =
     (if left \<noteq> [] \<and> hd left = 0x22 then
        (case scan_quoted False (tl left) of
           None \<Rightarrow> Err PeHeader
         | Some (quoted, rest) \<Rightarrow>
             if valid_utf8 quoted then Ok (quoted, trim_start (snd (split_once rest 0x3B))) else Err PeHeader)
      else
        (let (token, rest) = split_once_and_trim left 0x3B
         in if token = [] then Err PeHeader else Ok (token, rest)))"

text \<open>One parameter.\<close>

definition cd_param :: "'l text_lib \<Rightarrow> bytes \<Rightarrow> ('l disposition_param \<times> bytes, parse_error) result" where
  "cd_param tx left =
     (let (param_name, left) = split_once_and_trim left 0x3D
      in if param_name = [] \<or> param_name = bstr ''*'' \<or> left = [] then Err PeHeader
         else if last param_name = 0x2A then
           (let param_name = butlast param_name; (text, left) = split_once_and_trim left 0x3B
            in case parse_extended_value tx text of
                 Err e \<Rightarrow> Err e
               | Ok v \<Rightarrow>
                   Ok (if eq_ignore_ascii_case param_name (bstr ''filename'') then DpFilenameExt v else DpUnknownExt param_name v, left))
         else
           (case regular_value left of
              Err e \<Rightarrow> Err e
            | Ok (v, left) \<Rightarrow>
                Ok (if eq_ignore_ascii_case param_name (bstr ''name'') then DpName v
                    else if eq_ignore_ascii_case param_name (bstr ''filename'') then DpFilename v
                    else DpUnknown param_name v, left)))"

lemma length_split_once: "length (snd (split_once s c)) \<le> length s" "s \<noteq> [] \<Longrightarrow> length (snd (split_once s c)) < length s"
  by (auto simp: split_once_def dest: split_in_two_Some split: option.splits)

lemma length_split_trim: "split_once_and_trim s c = (a, b) \<Longrightarrow> length b \<le> length s \<and> (s \<noteq> [] \<longrightarrow> length b < length s)"
  using length_split_once [of s c] length_trim_start [of "snd (split_once s c)"]
  by (auto simp: split_once_and_trim_def split: prod.splits)

lemma length_scan_quoted: "scan_quoted esc s = Some (q, r) \<Longrightarrow> length r < length s"
  by (induction esc s arbitrary: q r rule: scan_quoted.induct) (fastforce split: if_splits)+

lemma length_regular_value: "regular_value s = Ok (v, r) \<Longrightarrow> length r \<le> length s"
proof (cases "s \<noteq> [] \<and> hd s = 0x22")
  case True
  assume "regular_value s = Ok (v, r)"
  with True obtain q t where "scan_quoted False (tl s) = Some (q, t)" "r = trim_start (snd (split_once t 0x3B))"
    by (auto simp: regular_value_def split: option.splits if_splits)
  then show ?thesis
    using length_scan_quoted [of False "tl s" q t] length_split_once(1) [of t "0x3B"] length_trim_start [of "snd (split_once t 0x3B)"]
    by simp
next
  case False
  assume "regular_value s = Ok (v, r)"
  with False have "split_once_and_trim s 0x3B = (v, r)"
    by (auto simp: regular_value_def split: prod.splits if_splits)
  then show ?thesis using length_split_trim by blast
qed

lemma length_cd_param:
  assumes "cd_param tx left = Ok (p, rest)" and "left \<noteq> []"
  shows "length rest < length left"
proof -
  obtain n l where s: "split_once_and_trim left 0x3D = (n, l)" by (cases "split_once_and_trim left 0x3D")
  then have l: "length l < length left" using length_split_trim assms(2) by blast
  obtain t u where u: "split_once_and_trim l 0x3B = (t, u)" by (cases "split_once_and_trim l 0x3B")
  have "length rest \<le> length l"
    using assms(1) length_split_trim [OF u] length_regular_value [of l _ rest] s u
    by (auto simp: cd_param_def Let_def split: if_splits result.splits)
  with l show ?thesis by simp
qed

text \<open>The loop over the parameters.\<close>

function cd_params :: "'l text_lib \<Rightarrow> bytes \<Rightarrow> ('l disposition_param list, parse_error) result" where
  "cd_params tx left =
     (if left = [] then Ok []
      else (case cd_param tx left of
              Err e \<Rightarrow> Err e
            | Ok (p, left) \<Rightarrow> (case cd_params tx left of Err e \<Rightarrow> Err e | Ok ps \<Rightarrow> Ok (p # ps))))"
  by pat_completeness auto
termination
  by (relation "measure (\<lambda>(_, left). length left)") (auto dest: length_cd_param)

declare cd_params.simps [simp del]

definition cd_from_raw :: "'l text_lib \<Rightarrow> header_value \<Rightarrow> ('l content_disposition, parse_error) result" where
  "cd_from_raw tx hv =
     (if \<not> valid_utf8 hv then Err PeHeader
      else
        (let (disp_type, left) = split_once_and_trim (trim_end (trim_start hv)) 0x3B
         in if disp_type = [] then Err PeHeader
            else (case cd_params tx left of
                    Err e \<Rightarrow> Err e
                  | Ok ps \<Rightarrow> Ok \<lparr>cd_disposition = disposition_from_str disp_type, cd_parameters = ps\<rparr>)))"

definition cd_parse :: "'l text_lib \<Rightarrow> header_value option \<Rightarrow> ('l content_disposition, parse_error) result" where
  "cd_parse tx h = (case h of Some h \<Rightarrow> cd_from_raw tx h | None \<Rightarrow> Err PeHeader)"

section \<open>Printing\<close>

fun disposition_fmt :: "disposition_type \<Rightarrow> bytes" where
  "disposition_fmt Inline = bstr ''inline''"
| "disposition_fmt Attachment = bstr ''attachment''"
| "disposition_fmt FormData = bstr ''form-data''"
| "disposition_fmt (DtExt s) = s"

text \<open>The characters of the regular expression \<open>RE\<close>, and the replacement of each by a backslash and itself.\<close>

definition must_escape :: "byte \<Rightarrow> bool" where
  "must_escape b \<longleftrightarrow> b \<le> 0x08 \<or> 0x10 \<le> b \<and> b \<le> 0x1F \<or> b = 0x7F \<or> b = 0x22 \<or> b = 0x5C"

definition escape :: "bytes \<Rightarrow> bytes" where
  "escape s = concat (map (\<lambda>b. if must_escape b then [0x5C, b] else [b]) s)"

fun param_fmt :: "'l text_lib \<Rightarrow> 'l disposition_param \<Rightarrow> bytes" where
  "param_fmt tx (DpName v) = bstr ''name='' @ v"
| "param_fmt tx (DpFilename v) = bstr ''filename='' @ [0x22] @ escape v @ [0x22]"
| "param_fmt tx (DpUnknown n v) = n @ [0x3D, 0x22] @ escape v @ [0x22]"
| "param_fmt tx (DpFilenameExt v) = bstr ''filename*='' @ ext_value_fmt tx v"
| "param_fmt tx (DpUnknownExt n v) = n @ [0x2A, 0x3D] @ ext_value_fmt tx v"

definition cd_fmt :: "'l text_lib \<Rightarrow> 'l content_disposition \<Rightarrow> bytes" where
  "cd_fmt tx cd =
     disposition_fmt (cd_disposition cd) @ concat (map (\<lambda>p. bstr ''; '' @ param_fmt tx p) (cd_parameters cd))"


section \<open>Printing and parsing\<close>

lemma split_once_trim_at:
  "tidy a \<Longrightarrow> c \<notin> set a \<Longrightarrow> split_once_and_trim (a @ c # b) c = (a, trim_start b)"
  using trim_end_tidy [of a "[]"] by (simp add: split_once_and_trim_def split_once_def)

lemma split_once_trim_no:
  "tidy a \<Longrightarrow> c \<notin> set a \<Longrightarrow> split_once_and_trim a c = (a, [])"
  using trim_end_tidy [of a "[]"] by (simp add: split_once_and_trim_def split_once_def)

text \<open>What may follow a parameter: nothing, or the separator and the next one.\<close>

definition follows :: "bytes \<Rightarrow> bytes \<Rightarrow> bool" where
  "follows t rest \<longleftrightarrow> t = [] \<and> rest = [] \<or> t = bstr ''; '' @ rest \<and> trim_start rest = rest"

lemma split_follows: "tidy a \<Longrightarrow> 0x3B \<notin> set a \<Longrightarrow> follows t rest \<Longrightarrow> split_once_and_trim (a @ t) 0x3B = (a, rest)"
  by (auto simp: follows_def split_once_trim_at split_once_trim_no trim_start_space)






definition disposition_good :: "disposition_type \<Rightarrow> bool" where
  "disposition_good d \<longleftrightarrow> tidy (disposition_fmt d) \<and> 0x3B \<notin> set (disposition_fmt d) \<and> disposition_from_str (disposition_fmt d) = d"

lemma disposition_named: "disposition_good Inline" "disposition_good Attachment" "disposition_good FormData"
  by (simp_all add: disposition_good_def tidy_def plain_byte_def is_ws_def disposition_from_str_def
      eq_ignore_ascii_case_def to_ascii_lowercase_def to_lower_def)


lemma param_split:
  "tidy n \<Longrightarrow> 0x3D \<notin> set n \<Longrightarrow> trim_start v = v \<Longrightarrow> split_once_and_trim (n @ 0x3D # v) 0x3D = (n, v)"
  by (simp add: split_once_trim_at)



lemma known_names:
  "tidy (bstr ''name'')" "tidy (bstr ''filename'')" "tidy (bstr ''filename*'')"
  "\<not> eq_ignore_ascii_case (bstr ''filename'') (bstr ''name'')"
  by (simp_all add: tidy_def plain_byte_def is_ws_def eq_ignore_ascii_case_def to_ascii_lowercase_def to_lower_def)

lemma cd_param_name:
  assumes "tidy v \<and> 0x3B \<notin> set v \<and> hd v \<noteq> 0x22" and "follows t rest"
  shows "cd_param tx (bstr ''name='' @ v @ t) = Ok (DpName v, rest)"
proof -
  have v: "tidy v" "0x3B \<notin> set v" "hd v \<noteq> 0x22" using assms(1) by simp_all
  have "split_once_and_trim (bstr ''name'' @ 0x3D # (v @ t)) 0x3D = (bstr ''name'', v @ t)"
    by (rule param_split) (use v trim_start_tidy known_names in auto)
  moreover have "regular_value (v @ t) = Ok (v, rest)"
    using v split_follows [OF v(1,2) assms(2)] by (auto simp: regular_value_def tidy_def)
  ultimately show ?thesis using v by (simp add: cd_param_def tidy_def)
qed



lemma cd_params_step:
  "left \<noteq> [] \<Longrightarrow> cd_param tx left = Ok (p, l) \<Longrightarrow> cd_params tx l = Ok ps \<Longrightarrow> cd_params tx left = Ok (p # ps)"
  by (subst cd_params.simps) simp

lemma cd_params_Nil [simp]: "cd_params tx [] = Ok []"
  by (subst cd_params.simps) simp


lemma cd_from_raw_eq:
  assumes "tidy (disposition_fmt d)" "0x3B \<notin> set (disposition_fmt d)" "disposition_from_str (disposition_fmt d) = d"
    and "follows t rest" and "cd_params tx rest = Ok ps" and "trim_end (disposition_fmt d @ t) = disposition_fmt d @ t"
    and "valid_utf8 (disposition_fmt d @ t)"
  shows "cd_from_raw tx (disposition_fmt d @ t) = Ok \<lparr>cd_disposition = d, cd_parameters = ps\<rparr>"
  using assms trim_start_tidy [OF assms(1), of t] split_follows [OF assms(1,2,4)]
  by (simp add: cd_from_raw_def tidy_def)



text \<open>
  The name of a form field is written without quotes, so it can smuggle in a parameter. A name that goes on with a
  semicolon and \<open>filename=\<close> is read as two parameters, a shorter name and a file name.
\<close>

theorem field_name_injects_filename:
  assumes "tidy a" and "0x3B \<notin> set a" and "hd a \<noteq> 0x22" and "tidy f" and "0x3B \<notin> set f" and "hd f \<noteq> 0x22"
    and "cd = \<lparr>cd_disposition = FormData, cd_parameters = [DpName (a @ bstr ''; filename='' @ f)]\<rparr>" and "valid_utf8 (cd_fmt tx cd)"
  shows "get_filename cd = None \<and>
    cd_from_raw tx (cd_fmt tx cd) = Ok \<lparr>cd_disposition = FormData, cd_parameters = [DpName a, DpFilename f]\<rparr>"
proof
  show "get_filename cd = None" by (simp add: assms(7) get_filename_def first_param_def List.map_filter_simps)
  let ?f = "bstr ''filename'' @ 0x3D # f"
  let ?t = "bstr ''; name='' @ a @ bstr ''; '' @ ?f"
  have fol: "follows (bstr ''; '' @ ?f) ?f"
    using trim_start_tidy [OF known_names(2)] by (simp add: follows_def)
  have "split_once_and_trim ?f 0x3D = (bstr ''filename'', f)"
    by (rule param_split) (use assms(4) trim_start_tidy [of f "[]"] known_names in auto)
  then have "cd_param tx ?f = Ok (DpFilename f, [])"
    using assms(4-6) known_names(4) split_once_trim_no [of f "0x3B"] by (simp add: cd_param_def regular_value_def tidy_def)
  from cd_params_step [OF _ this cd_params_Nil] have one: "cd_params tx ?f = Ok [DpFilename f]" by simp
  have "cd_param tx (bstr ''name='' @ a @ bstr ''; '' @ ?f) = Ok (DpName a, ?f)"
    using cd_param_name [OF _ fol, of a tx] assms(1-3) by simp
  from cd_params_step [OF _ this one] have ps: "cd_params tx (bstr ''name='' @ a @ bstr ''; '' @ ?f) = Ok [DpName a, DpFilename f]"
    by simp
  have "follows ?t (bstr ''name='' @ a @ bstr ''; '' @ ?f)"
    using trim_start_tidy [OF known_names(1)] by (simp add: follows_def)
  moreover have "cd_fmt tx cd = disposition_fmt FormData @ ?t" by (simp add: assms(7) cd_fmt_def)
  moreover have "trim_end (disposition_fmt FormData @ ?t) = disposition_fmt FormData @ ?t"
    using trim_end_tidy [OF assms(4), of "disposition_fmt FormData @ bstr ''; name='' @ a @ bstr ''; filename=''"] by simp
  ultimately show "cd_from_raw tx (cd_fmt tx cd) = Ok \<lparr>cd_disposition = FormData, cd_parameters = [DpName a, DpFilename f]\<rparr>"
    using cd_from_raw_eq [of FormData ?t _ tx] disposition_named(3) ps assms(8) by (simp add: disposition_good_def)
qed

lemma field_name_injects_filename_witness:
  "cd_from_raw demo_text_lib (cd_fmt demo_text_lib \<lparr>cd_disposition = FormData, cd_parameters = [DpName (bstr ''a; filename=b'')]\<rparr>) =
     Ok \<lparr>cd_disposition = FormData, cd_parameters = [DpName (bstr ''a''), DpFilename (bstr ''b'')]\<rparr>"
  using field_name_injects_filename [of "bstr ''a''" "bstr ''b''" "\<lparr>cd_disposition = FormData, cd_parameters = [DpName (bstr ''a; filename=b'')]\<rparr>" demo_text_lib]
  by (simp add: tidy_def plain_byte_def is_ws_def valid_utf8_ascii cd_fmt_def)

end
