(* ===== verification/Cookie.thy ===== *)
theory Cookie
  imports Utf8_Text
begin

text \<open>
  Cookies (\<open>cookie/mod.rs\<close>, \<open>cookie/draft.rs\<close>, \<open>cookie/builder.rs\<close>). The parts of a parsed cookie are index pairs into the
  text it was parsed from, and the accessors slice that text, which panics outside it and inside a character.
\<close>

section \<open>Computations that may panic\<close>

fun exec_bind :: "'a exec \<Rightarrow> ('a \<Rightarrow> 'b exec) \<Rightarrow> 'b exec" where
  "exec_bind Panic f = Panic"
| "exec_bind (Return a) f = f a"

lemma exec_bind_Return: "exec_bind m f = Return b \<longleftrightarrow> (\<exists>a. m = Return a \<and> f a = Return b)"
  by (cases m) simp_all

text \<open>An optional part.\<close>

fun exec_option :: "'a exec option \<Rightarrow> 'a option exec" where
  "exec_option None = Return None"
| "exec_option (Some m) = exec_bind m (\<lambda>a. Return (Some a))"

section \<open>The libraries\<close>

text \<open>
  \<open>time::strptime\<close> of a text and a format, \<open>Tm::rfc822\<close> and adding days to a time; \<open>chrono::Duration\<close> from seconds, which
  panics out of its bounds, and from days, in seconds, its zero and its greatest value; and \<open>percent_encoding\<close>.
\<close>

record ('t, 'd) cookie_lib =
  kl_strptime :: "bytes \<Rightarrow> bytes \<Rightarrow> 't option"
  kl_rfc822 :: "'t \<Rightarrow> bytes"
  kl_add_days :: "'t \<Rightarrow> int \<Rightarrow> 't"
  kl_seconds :: "int \<Rightarrow> 'd exec"
  kl_days :: "int \<Rightarrow> 'd exec"
  kl_num_seconds :: "'d \<Rightarrow> int"
  kl_zero :: 'd
  kl_max_value :: 'd
  kl_percent_encode :: "(byte \<Rightarrow> bool) \<Rightarrow> bytes \<Rightarrow> bytes"
  kl_percent_decode :: "bytes \<Rightarrow> bytes"

text \<open>The sets of characters to encode. \<open>CONTROLS\<close> is the ASCII control characters.\<close>

definition FRAGMENT :: "byte \<Rightarrow> bool" where
  "FRAGMENT b \<longleftrightarrow> (b < 0x20 \<or> b = 0x7F) \<or> b = 0x20 \<or> b = 0x22 \<or> b = 0x3C \<or> b = 0x3E \<or> b = 0x60"

definition PATH :: "byte \<Rightarrow> bool" where
  "PATH b \<longleftrightarrow> FRAGMENT b \<or> b = 0x23 \<or> b = 0x3F \<or> b = 0x7B \<or> b = 0x7D"

definition USERINFO :: "byte \<Rightarrow> bool" where
  "USERINFO b \<longleftrightarrow> PATH b \<or> b = 0x2F \<or> b = 0x3A \<or> b = 0x3B \<or> b = 0x3D \<or> b = 0x40 \<or> b = 0x5B \<or> b = 0x5C \<or> b = 0x5D \<or> b = 0x5E \<or> b = 0x7C"

section \<open>Data\<close>

datatype same_site = SsStrict | SsLax | SsNone

fun ss_is_strict :: "same_site \<Rightarrow> bool" where
  "ss_is_strict SsStrict = True"
| "ss_is_strict _ = False"

fun ss_is_lax :: "same_site \<Rightarrow> bool" where
  "ss_is_lax SsLax = True"
| "ss_is_lax _ = False"

fun ss_is_none :: "same_site \<Rightarrow> bool" where
  "ss_is_none SsNone = True"
| "ss_is_none _ = False"

fun same_site_fmt :: "same_site \<Rightarrow> bytes" where
  "same_site_fmt SsStrict = bstr ''Strict''"
| "same_site_fmt SsLax = bstr ''Lax''"
| "same_site_fmt SsNone = []"

text \<open>A borrowed or an owned text.\<close>

datatype cow = CowBorrowed bytes | CowOwned bytes

fun cow_text :: "cow \<Rightarrow> bytes" where
  "cow_text (CowBorrowed s) = s"
| "cow_text (CowOwned s) = s"

datatype cookie_str = Indexed nat nat | Concrete bytes

record ('t, 'd) cookie =
  ck_string :: "cow option"
  ck_name :: cookie_str
  ck_value :: cookie_str
  ck_expires :: "'t option"
  ck_max_age :: "'d option"
  ck_domain :: "cookie_str option"
  ck_path :: "cookie_str option"
  ck_secure :: "bool option"
  ck_http_only :: "bool option"
  ck_same_site :: "same_site option"

text \<open>\<open>&s[i..j]\<close>\<close>

definition char_boundary :: "bytes \<Rightarrow> nat \<Rightarrow> bool" where
  "char_boundary s i \<longleftrightarrow> i = 0 \<or> i = length s \<or> i < length s \<and> \<not> utf8_cont (s ! i)"

definition str_slice :: "bytes \<Rightarrow> nat \<Rightarrow> nat \<Rightarrow> bytes exec" where
  "str_slice s i j =
     (if i \<le> j \<and> j \<le> length s \<and> char_boundary s i \<and> char_boundary s j then Return (drop i (take j s)) else Panic)"

fun to_str :: "cookie_str \<Rightarrow> cow option \<Rightarrow> bytes exec" where
  "to_str (Indexed i j) string = (case string of None \<Rightarrow> Panic | Some s \<Rightarrow> str_slice (cow_text s) i j)"
| "to_str (Concrete cstr) string = Return cstr"

fun to_raw_str :: "cookie_str \<Rightarrow> cow \<Rightarrow> bytes option exec" where
  "to_raw_str (Indexed i j) (CowBorrowed s) = exec_bind (str_slice s i j) (\<lambda>x. Return (Some x))"
| "to_raw_str (Indexed i j) (CowOwned s) = Return None"
| "to_raw_str (Concrete c) string = Return None"

section \<open>Accessors and setters\<close>

definition cookie_new :: "bytes \<Rightarrow> bytes \<Rightarrow> ('t, 'd) cookie" where
  "cookie_new name val =
     \<lparr>ck_string = None, ck_name = Concrete name, ck_value = Concrete val, ck_expires = None, ck_max_age = None,
      ck_domain = None, ck_path = None, ck_secure = None, ck_http_only = None, ck_same_site = None\<rparr>"

definition cookie_named :: "bytes \<Rightarrow> ('t, 'd) cookie" where
  "cookie_named name = cookie_new name []"

definition cookie_into_owned :: "('t, 'd) cookie \<Rightarrow> ('t, 'd) cookie" where
  "cookie_into_owned c = c\<lparr>ck_string := map_option (\<lambda>s. CowOwned (cow_text s)) (ck_string c)\<rparr>"

definition cookie_name :: "('t, 'd) cookie \<Rightarrow> bytes exec" where
  "cookie_name c = to_str (ck_name c) (ck_string c)"

definition cookie_value :: "('t, 'd) cookie \<Rightarrow> bytes exec" where
  "cookie_value c = to_str (ck_value c) (ck_string c)"

definition cookie_name_value :: "('t, 'd) cookie \<Rightarrow> (bytes \<times> bytes) exec" where
  "cookie_name_value c = exec_bind (cookie_name c) (\<lambda>n. exec_bind (cookie_value c) (\<lambda>v. Return (n, v)))"

definition cookie_path :: "('t, 'd) cookie \<Rightarrow> bytes option exec" where
  "cookie_path c = exec_option (map_option (\<lambda>p. to_str p (ck_string c)) (ck_path c))"

definition cookie_domain :: "('t, 'd) cookie \<Rightarrow> bytes option exec" where
  "cookie_domain c = exec_option (map_option (\<lambda>p. to_str p (ck_string c)) (ck_domain c))"

definition name_raw :: "('t, 'd) cookie \<Rightarrow> bytes option exec" where
  "name_raw c = (case ck_string c of None \<Rightarrow> Return None | Some s \<Rightarrow> to_raw_str (ck_name c) s)"

definition value_raw :: "('t, 'd) cookie \<Rightarrow> bytes option exec" where
  "value_raw c = (case ck_string c of None \<Rightarrow> Return None | Some s \<Rightarrow> to_raw_str (ck_value c) s)"

definition path_raw :: "('t, 'd) cookie \<Rightarrow> bytes option exec" where
  "path_raw c = (case (ck_path c, ck_string c) of (Some p, Some s) \<Rightarrow> to_raw_str p s | _ \<Rightarrow> Return None)"

definition domain_raw :: "('t, 'd) cookie \<Rightarrow> bytes option exec" where
  "domain_raw c = (case (ck_domain c, ck_string c) of (Some p, Some s) \<Rightarrow> to_raw_str p s | _ \<Rightarrow> Return None)"

definition set_name :: "bytes \<Rightarrow> ('t, 'd) cookie \<Rightarrow> ('t, 'd) cookie" where
  "set_name n c = c\<lparr>ck_name := Concrete n\<rparr>"

definition set_value :: "bytes \<Rightarrow> ('t, 'd) cookie \<Rightarrow> ('t, 'd) cookie" where
  "set_value v c = c\<lparr>ck_value := Concrete v\<rparr>"

definition set_http_only :: "bool \<Rightarrow> ('t, 'd) cookie \<Rightarrow> ('t, 'd) cookie" where
  "set_http_only v c = c\<lparr>ck_http_only := Some v\<rparr>"

definition set_secure :: "bool \<Rightarrow> ('t, 'd) cookie \<Rightarrow> ('t, 'd) cookie" where
  "set_secure v c = c\<lparr>ck_secure := Some v\<rparr>"

definition set_same_site :: "same_site \<Rightarrow> ('t, 'd) cookie \<Rightarrow> ('t, 'd) cookie" where
  "set_same_site v c = c\<lparr>ck_same_site := Some v\<rparr>"

definition set_max_age :: "'d \<Rightarrow> ('t, 'd) cookie \<Rightarrow> ('t, 'd) cookie" where
  "set_max_age v c = c\<lparr>ck_max_age := Some v\<rparr>"

definition set_path :: "bytes \<Rightarrow> ('t, 'd) cookie \<Rightarrow> ('t, 'd) cookie" where
  "set_path p c = c\<lparr>ck_path := Some (Concrete p)\<rparr>"

definition set_domain :: "bytes \<Rightarrow> ('t, 'd) cookie \<Rightarrow> ('t, 'd) cookie" where
  "set_domain d c = c\<lparr>ck_domain := Some (Concrete d)\<rparr>"

definition set_expires :: "'t \<Rightarrow> ('t, 'd) cookie \<Rightarrow> ('t, 'd) cookie" where
  "set_expires t c = c\<lparr>ck_expires := Some t\<rparr>"

text \<open>The clock is an argument.\<close>

definition make_permanent :: "('t, 'd) cookie_lib \<Rightarrow> 't \<Rightarrow> ('t, 'd) cookie \<Rightarrow> ('t, 'd) cookie exec" where
  "make_permanent lib now c =
     exec_bind (kl_days lib (365 * 20)) (\<lambda>twenty_years.
       Return (set_expires (kl_add_days lib now (365 * 20)) (set_max_age twenty_years c)))"

section \<open>The builder\<close>

record ('t, 'd) cookie_builder =
  cb_cookie :: "('t, 'd) cookie"

definition cb_new :: "bytes \<Rightarrow> bytes \<Rightarrow> ('t, 'd) cookie_builder" where
  "cb_new name val = \<lparr>cb_cookie = cookie_new name val\<rparr>"

definition cb_expires :: "'t \<Rightarrow> ('t, 'd) cookie_builder \<Rightarrow> ('t, 'd) cookie_builder" where
  "cb_expires w b = b\<lparr>cb_cookie := set_expires w (cb_cookie b)\<rparr>"

definition cb_max_age_time :: "'d \<Rightarrow> ('t, 'd) cookie_builder \<Rightarrow> ('t, 'd) cookie_builder" where
  "cb_max_age_time v b = b\<lparr>cb_cookie := set_max_age v (cb_cookie b)\<rparr>"

definition cb_max_age :: "('t, 'd) cookie_lib \<Rightarrow> int \<Rightarrow> ('t, 'd) cookie_builder \<Rightarrow> ('t, 'd) cookie_builder exec" where
  "cb_max_age lib seconds b = exec_bind (kl_seconds lib seconds) (\<lambda>d. Return (cb_max_age_time d b))"

definition cb_domain :: "bytes \<Rightarrow> ('t, 'd) cookie_builder \<Rightarrow> ('t, 'd) cookie_builder" where
  "cb_domain d b = b\<lparr>cb_cookie := set_domain d (cb_cookie b)\<rparr>"

definition cb_path :: "bytes \<Rightarrow> ('t, 'd) cookie_builder \<Rightarrow> ('t, 'd) cookie_builder" where
  "cb_path p b = b\<lparr>cb_cookie := set_path p (cb_cookie b)\<rparr>"

definition cb_secure :: "bool \<Rightarrow> ('t, 'd) cookie_builder \<Rightarrow> ('t, 'd) cookie_builder" where
  "cb_secure v b = b\<lparr>cb_cookie := set_secure v (cb_cookie b)\<rparr>"

definition cb_http_only :: "bool \<Rightarrow> ('t, 'd) cookie_builder \<Rightarrow> ('t, 'd) cookie_builder" where
  "cb_http_only v b = b\<lparr>cb_cookie := set_http_only v (cb_cookie b)\<rparr>"

definition cb_same_site :: "same_site \<Rightarrow> ('t, 'd) cookie_builder \<Rightarrow> ('t, 'd) cookie_builder" where
  "cb_same_site v b = b\<lparr>cb_cookie := set_same_site v (cb_cookie b)\<rparr>"

definition cb_permanent :: "('t, 'd) cookie_lib \<Rightarrow> 't \<Rightarrow> ('t, 'd) cookie_builder \<Rightarrow> ('t, 'd) cookie_builder exec" where
  "cb_permanent lib now b = exec_bind (make_permanent lib now (cb_cookie b)) (\<lambda>c. Return (b\<lparr>cb_cookie := c\<rparr>))"

definition cb_finish :: "('t, 'd) cookie_builder \<Rightarrow> ('t, 'd) cookie" where
  "cb_finish b = cb_cookie b"

section \<open>Printing\<close>

text \<open>\<open>i64\<close> in decimal.\<close>

definition fmt_i64 :: "int \<Rightarrow> bytes" where
  "fmt_i64 n = (if n < 0 then 0x2D # dec (nat (- n)) else dec (nat n))"

definition fmt_parameters :: "('t, 'd) cookie_lib \<Rightarrow> ('t, 'd) cookie \<Rightarrow> bytes exec" where
  "fmt_parameters lib c =
     exec_bind (cookie_path c) (\<lambda>p. exec_bind (cookie_domain c) (\<lambda>d.
       Return
         ((if ck_http_only c = Some True then bstr ''; HttpOnly'' else []) @
          (if ck_secure c = Some True then bstr ''; Secure'' else []) @
          (case ck_same_site c of Some s \<Rightarrow> if \<not> ss_is_none s then bstr ''; SameSite='' @ same_site_fmt s else [] | None \<Rightarrow> []) @
          (case p of Some path \<Rightarrow> bstr ''; Path='' @ path | None \<Rightarrow> []) @
          (case d of Some domain \<Rightarrow> bstr ''; Domain='' @ domain | None \<Rightarrow> []) @
          (case ck_max_age c of Some m \<Rightarrow> bstr ''; Max-Age='' @ fmt_i64 (kl_num_seconds lib m) | None \<Rightarrow> []) @
          (case ck_expires c of Some t \<Rightarrow> bstr ''; Expires='' @ kl_rfc822 lib t | None \<Rightarrow> []))))"

definition cookie_fmt :: "('t, 'd) cookie_lib \<Rightarrow> ('t, 'd) cookie \<Rightarrow> bytes exec" where
  "cookie_fmt lib c =
     exec_bind (cookie_name c) (\<lambda>n. exec_bind (cookie_value c) (\<lambda>v. exec_bind (fmt_parameters lib c) (\<lambda>ps.
       Return (n @ [0x3D] @ v @ ps))))"

definition encoded_fmt :: "('t, 'd) cookie_lib \<Rightarrow> ('t, 'd) cookie \<Rightarrow> bytes exec" where
  "encoded_fmt lib c =
     exec_bind (cookie_name c) (\<lambda>n. exec_bind (cookie_value c) (\<lambda>v. exec_bind (fmt_parameters lib c) (\<lambda>ps.
       Return (kl_percent_encode lib USERINFO n @ [0x3D] @ kl_percent_encode lib USERINFO v @ ps))))"

section \<open>Equality\<close>

text \<open>Two optional texts agree up to the case of ASCII letters.\<close>

fun same_text :: "bytes option \<Rightarrow> bytes option \<Rightarrow> bool" where
  "same_text (Some a) (Some b) = eq_ignore_ascii_case a b"
| "same_text None None = True"
| "same_text _ _ = False"

text \<open>\<open>PartialEq::eq\<close>, comparing in the order of the source; the \<open>SameSite\<close> attribute does not take part.\<close>

definition cookie_eq :: "('t, 'd) cookie \<Rightarrow> ('t, 'd) cookie \<Rightarrow> bool exec" where
  "cookie_eq a b =
     exec_bind (cookie_name a) (\<lambda>na. exec_bind (cookie_name b) (\<lambda>nb.
       if na \<noteq> nb then Return False
       else exec_bind (cookie_value a) (\<lambda>va. exec_bind (cookie_value b) (\<lambda>vb.
         if \<not> (va = vb \<and> ck_http_only a = ck_http_only b \<and> ck_secure a = ck_secure b \<and>
               ck_max_age a = ck_max_age b \<and> ck_expires a = ck_expires b) then Return False
         else exec_bind (cookie_path a) (\<lambda>pa. exec_bind (cookie_path b) (\<lambda>pb.
           if \<not> same_text pa pb then Return False
           else exec_bind (cookie_domain a) (\<lambda>da. exec_bind (cookie_domain b) (\<lambda>db.
             Return (same_text da db)))))))))"

end
