(* ===== verification/Cookie_Jar.thy ===== *)
theory Cookie_Jar
  imports Cookie "HOL-Library.AList" "HOL-Library.Multiset"
begin

text \<open>
  The cookie jar (\<open>cookie/jar.rs\<close>, \<open>cookie/delta.rs\<close>). A hash set of delta cookies compares its members by name: it
  is the association list from names to delta cookies, in the order of its iterator, about which nothing is promised.
\<close>

section \<open>Data\<close>

record ('t, 'd) delta_cookie =
  dc_cookie :: "('t, 'd) cookie"
  dc_removed :: bool

definition delta_added :: "('t, 'd) cookie \<Rightarrow> ('t, 'd) delta_cookie" where
  "delta_added c = \<lparr>dc_cookie = c, dc_removed = False\<rparr>"

definition delta_removed :: "('t, 'd) cookie \<Rightarrow> ('t, 'd) delta_cookie" where
  "delta_removed c = \<lparr>dc_cookie = c, dc_removed = True\<rparr>"

type_synonym ('t, 'd) delta_set = "(bytes \<times> ('t, 'd) delta_cookie) list"

record ('t, 'd) cookie_jar =
  jr_original :: "('t, 'd) delta_set"
  jr_delta :: "('t, 'd) delta_set"

text \<open>\<open>HashSet::replace\<close>, which computes the name of the new member.\<close>

definition set_replace :: "('t, 'd) delta_cookie \<Rightarrow> ('t, 'd) delta_set \<Rightarrow> ('t, 'd) delta_set exec" where
  "set_replace d s = exec_bind (cookie_name (dc_cookie d)) (\<lambda>n. Return (AList.update n d s))"

section \<open>Operations\<close>

definition jar_new :: "('t, 'd) cookie_jar" where
  "jar_new = \<lparr>jr_original = [], jr_delta = []\<rparr>"

definition jar_get :: "bytes \<Rightarrow> ('t, 'd) cookie_jar \<Rightarrow> ('t, 'd) cookie option" where
  "jar_get name j =
     Option.bind (case map_of (jr_delta j) name of Some c \<Rightarrow> Some c | None \<Rightarrow> map_of (jr_original j) name)
       (\<lambda>c. if \<not> dc_removed c then Some (dc_cookie c) else None)"

definition jar_add_original :: "('t, 'd) cookie \<Rightarrow> ('t, 'd) cookie_jar \<Rightarrow> ('t, 'd) cookie_jar exec" where
  "jar_add_original c j = exec_bind (set_replace (delta_added c) (jr_original j)) (\<lambda>s. Return (j\<lparr>jr_original := s\<rparr>))"

definition jar_add :: "('t, 'd) cookie \<Rightarrow> ('t, 'd) cookie_jar \<Rightarrow> ('t, 'd) cookie_jar exec" where
  "jar_add c j = exec_bind (set_replace (delta_added c) (jr_delta j)) (\<lambda>s. Return (j\<lparr>jr_delta := s\<rparr>))"

text \<open>The clock is an argument.\<close>

definition jar_remove :: "('t, 'd) cookie_lib \<Rightarrow> 't \<Rightarrow> ('t, 'd) cookie \<Rightarrow> ('t, 'd) cookie_jar \<Rightarrow> ('t, 'd) cookie_jar exec" where
  "jar_remove lib now c j =
     exec_bind (cookie_name c) (\<lambda>n.
       if map_of (jr_original j) n \<noteq> None then
         (let c = set_value [] c
          in exec_bind (kl_seconds lib 0) (\<lambda>z.
               (let c = set_expires (kl_add_days lib now (- 365)) (set_max_age z c)
                in exec_bind (set_replace (delta_removed c) (jr_delta j)) (\<lambda>s. Return (j\<lparr>jr_delta := s\<rparr>)))))
       else Return (j\<lparr>jr_delta := AList.delete n (jr_delta j)\<rparr>))"

definition jar_force_remove :: "('t, 'd) cookie \<Rightarrow> ('t, 'd) cookie_jar \<Rightarrow> ('t, 'd) cookie_jar exec" where
  "jar_force_remove c j =
     exec_bind (cookie_name c) (\<lambda>n. Return (j\<lparr>jr_original := AList.delete n (jr_original j), jr_delta := AList.delete n (jr_delta j)\<rparr>))"

fun jar_remove_all ::
  "('t, 'd) cookie_lib \<Rightarrow> 't \<Rightarrow> ('t, 'd) delta_cookie list \<Rightarrow> ('t, 'd) cookie_jar \<Rightarrow> ('t, 'd) cookie_jar exec" where
  "jar_remove_all lib now [] j = Return j"
| "jar_remove_all lib now (d # ds) j = exec_bind (jar_remove lib now (dc_cookie d) j) (jar_remove_all lib now ds)"

definition jar_clear :: "('t, 'd) cookie_lib \<Rightarrow> 't \<Rightarrow> ('t, 'd) cookie_jar \<Rightarrow> ('t, 'd) cookie_jar exec" where
  "jar_clear lib now j = jar_remove_all lib now (map snd (jr_original j)) (j\<lparr>jr_delta := [], jr_original := []\<rparr>)"

text \<open>The iterators: the delta cookies still to come.\<close>

definition jar_delta :: "('t, 'd) cookie_jar \<Rightarrow> ('t, 'd) delta_cookie list" where
  "jar_delta j = map snd (jr_delta j)"

fun delta_next :: "('t, 'd) delta_cookie list \<Rightarrow> ('t, 'd) cookie option \<times> ('t, 'd) delta_cookie list" where
  "delta_next [] = (None, [])"
| "delta_next (c # cs) = (Some (dc_cookie c), cs)"

definition jar_iter :: "('t, 'd) cookie_jar \<Rightarrow> ('t, 'd) delta_cookie list" where
  "jar_iter j = map snd (jr_delta j @ filter (\<lambda>(n, c). map_of (jr_delta j) n = None) (jr_original j))"

fun jar_iter_next :: "('t, 'd) delta_cookie list \<Rightarrow> ('t, 'd) cookie option \<times> ('t, 'd) delta_cookie list" where
  "jar_iter_next [] = (None, [])"
| "jar_iter_next (c # cs) = (if \<not> dc_removed c then (Some (dc_cookie c), cs) else jar_iter_next cs)"

text \<open>What an iterator yields when it is called to its end.\<close>

fun delta_all :: "('t, 'd) delta_cookie list \<Rightarrow> ('t, 'd) cookie list" where
  "delta_all [] = []"
| "delta_all (c # cs) = dc_cookie c # delta_all cs"

fun iter_all :: "('t, 'd) delta_cookie list \<Rightarrow> ('t, 'd) cookie list" where
  "iter_all [] = []"
| "iter_all (c # cs) = (if \<not> dc_removed c then dc_cookie c # iter_all cs else iter_all cs)"

lemma delta_all_next: "delta_next cs = (Some c, ds) \<Longrightarrow> delta_all cs = c # delta_all ds"
  "delta_next cs = (None, ds) \<Longrightarrow> delta_all cs = []"
  by (cases cs; simp)+

lemma iter_all_next: "jar_iter_next cs = (Some c, ds) \<Longrightarrow> iter_all cs = c # iter_all ds"
  "jar_iter_next cs = (None, ds) \<Longrightarrow> iter_all cs = []"
  by (induction cs) (auto split: if_splits)

section \<open>Invariant\<close>

text \<open>Every member lies under its name, once, and no original is marked as removed.\<close>

definition delta_set_wf :: "('t, 'd) delta_set \<Rightarrow> bool" where
  "delta_set_wf s \<longleftrightarrow> distinct (map fst s) \<and> list_all (\<lambda>(n, d). cookie_name (dc_cookie d) = Return n) s"

definition jar_wf :: "('t, 'd) cookie_jar \<Rightarrow> bool" where
  "jar_wf j \<longleftrightarrow> delta_set_wf (jr_original j) \<and> delta_set_wf (jr_delta j) \<and> list_all (\<lambda>(n, d). \<not> dc_removed d) (jr_original j)"

lemma update_subset: "x \<in> set (AList.update k v s) \<Longrightarrow> x = (k, v) \<or> x \<in> set s"
  by (induction s) (auto split: if_splits)

lemma delete_subset: "x \<in> set (AList.delete k s) \<Longrightarrow> x \<in> set s"
  by (auto simp: AList.delete_eq)

lemma delta_set_wf_update: "delta_set_wf s \<Longrightarrow> cookie_name (dc_cookie d) = Return n \<Longrightarrow> delta_set_wf (AList.update n d s)"
  by (auto simp: delta_set_wf_def list_all_iff distinct_update dest: update_subset)

lemma delta_set_wf_delete: "delta_set_wf s \<Longrightarrow> delta_set_wf (AList.delete n s)"
  by (auto simp: delta_set_wf_def list_all_iff distinct_delete dest: delete_subset)

lemma cookie_name_set [simp]:
  "cookie_name (set_value v c) = cookie_name c" "cookie_name (set_max_age d c) = cookie_name c" "cookie_name (set_expires t c) = cookie_name c"
  by (simp_all add: cookie_name_def set_value_def set_max_age_def set_expires_def)

text \<open>The operations that change a jar.\<close>

datatype ('t, 'd) jar_op =
    OpAddOriginal "('t, 'd) cookie"
  | OpAdd "('t, 'd) cookie"
  | OpRemove 't "('t, 'd) cookie"
  | OpForceRemove "('t, 'd) cookie"
  | OpClear 't

fun jar_step :: "('t, 'd) cookie_lib \<Rightarrow> ('t, 'd) jar_op \<Rightarrow> ('t, 'd) cookie_jar \<Rightarrow> ('t, 'd) cookie_jar exec" where
  "jar_step lib (OpAddOriginal c) j = jar_add_original c j"
| "jar_step lib (OpAdd c) j = jar_add c j"
| "jar_step lib (OpRemove now c) j = jar_remove lib now c j"
| "jar_step lib (OpForceRemove c) j = jar_force_remove c j"
| "jar_step lib (OpClear now) j = jar_clear lib now j"

fun jar_run :: "('t, 'd) cookie_lib \<Rightarrow> ('t, 'd) jar_op list \<Rightarrow> ('t, 'd) cookie_jar \<Rightarrow> ('t, 'd) cookie_jar exec" where
  "jar_run lib [] j = Return j"
| "jar_run lib (p # ps) j = exec_bind (jar_step lib p j) (jar_run lib ps)"

fun op_name :: "('t, 'd) jar_op \<Rightarrow> bytes exec" where
  "op_name (OpAddOriginal c) = cookie_name c"
| "op_name (OpAdd c) = cookie_name c"
| "op_name (OpRemove now c) = cookie_name c"
| "op_name (OpForceRemove c) = cookie_name c"
| "op_name (OpClear now) = Return []"

text \<open>The abstract jar: what each name stands for.\<close>

definition jar_view :: "('t, 'd) cookie_jar \<Rightarrow> bytes \<Rightarrow> ('t, 'd) cookie option" where
  "jar_view j n = jar_get n j"

text \<open>The same operations on a map of cookies; a cookie added as an original does not replace one in the delta.\<close>

fun view_step :: "('t, 'd) jar_op \<Rightarrow> bytes \<Rightarrow> bytes set \<Rightarrow> (bytes \<Rightarrow> ('t, 'd) cookie option) \<Rightarrow> bytes \<Rightarrow> ('t, 'd) cookie option" where
  "view_step (OpAddOriginal c) n changed f = (if n \<in> changed then f else f(n \<mapsto> c))"
| "view_step (OpAdd c) n changed f = f(n \<mapsto> c)"
| "view_step (OpRemove now c) n changed f = f(n := None)"
| "view_step (OpForceRemove c) n changed f = f(n := None)"
| "view_step (OpClear now) n changed f = (\<lambda>_. None)"

lemma remove_all_empty:
  "list_all (\<lambda>d. \<exists>n. cookie_name (dc_cookie d) = Return n) ds \<Longrightarrow> jar_remove_all lib now ds \<lparr>jr_original = [], jr_delta = []\<rparr> = Return \<lparr>jr_original = [], jr_delta = []\<rparr>"
  by (induction ds) (auto simp: jar_remove_def)

lemma jar_clear_wf: "jar_wf j \<Longrightarrow> jar_clear lib now j = Return \<lparr>jr_original = [], jr_delta = []\<rparr>"
  unfolding jar_clear_def using remove_all_empty [of "map snd (jr_original j)" lib now]
  by (cases j) (fastforce simp: jar_wf_def delta_set_wf_def list_all_iff)

lemma jar_get_original: "jar_wf j \<Longrightarrow> map_of (jr_original j) n = Some d \<Longrightarrow> \<not> dc_removed d"
  by (auto simp: jar_wf_def list_all_iff dest: map_of_SomeD)

lemma list_all_update: "list_all P s \<Longrightarrow> P (n, d) \<Longrightarrow> list_all P (AList.update n d s)"
  by (auto simp: list_all_iff dest: update_subset)

lemma list_all_delete: "list_all P s \<Longrightarrow> list_all P (AList.delete n s)"
  by (auto simp: list_all_iff dest: delete_subset)

lemma jar_step_ok:
  assumes "jar_wf j" and "op_name p = Return n" and "kl_seconds lib 0 = Return z"
  shows "\<exists>j'. jar_step lib p j = Return j' \<and> jar_wf j' \<and> jar_view j' = view_step p n (dom (map_of (jr_delta j))) (jar_view j)"
proof -
  have d: "set_replace d s = Return (AList.update n d s)" if "cookie_name (dc_cookie d) = Return n" for d :: "('a, 'b) delta_cookie" and s
    using that by (simp add: set_replace_def)
  note wf = assms(1) [unfolded jar_wf_def]
  show ?thesis
  proof (cases p)
    case (OpAddOriginal c)
    let ?j = "j\<lparr>jr_original := AList.update n (delta_added c) (jr_original j)\<rparr>"
    have "jar_step lib p j = Return ?j" using assms(2) d [of "delta_added c"] by (simp add: OpAddOriginal jar_add_original_def delta_added_def)
    moreover have "jar_wf ?j" using wf assms(2) OpAddOriginal
      by (simp add: jar_wf_def delta_set_wf_update list_all_update delta_added_def)
    moreover have "jar_view ?j = view_step p n (dom (map_of (jr_delta j))) (jar_view j)"
      by (rule ext) (simp add: OpAddOriginal jar_view_def jar_get_def update_conv delta_added_def dom_def cong: option.case_cong split: option.splits)
    ultimately show ?thesis by blast
  next
    case (OpAdd c)
    let ?j = "j\<lparr>jr_delta := AList.update n (delta_added c) (jr_delta j)\<rparr>"
    have "jar_step lib p j = Return ?j" using assms(2) d [of "delta_added c"] by (simp add: OpAdd jar_add_def delta_added_def)
    moreover have "jar_wf ?j" using wf assms(2) OpAdd by (simp add: jar_wf_def delta_set_wf_update delta_added_def)
    moreover have "jar_view ?j = view_step p n (dom (map_of (jr_delta j))) (jar_view j)"
      by (rule ext) (simp add: OpAdd jar_view_def jar_get_def update_conv delta_added_def cong: option.case_cong)
    ultimately show ?thesis by blast
  next
    case (OpRemove now c)
    show ?thesis
    proof (cases "map_of (jr_original j) n = None")
      case True
      let ?j = "j\<lparr>jr_delta := AList.delete n (jr_delta j)\<rparr>"
      have "jar_step lib p j = Return ?j" using assms(2) True by (simp add: OpRemove jar_remove_def)
      moreover have "jar_wf ?j" using wf by (simp add: jar_wf_def delta_set_wf_delete)
      moreover have "jar_view ?j = view_step p n (dom (map_of (jr_delta j))) (jar_view j)"
        using True by (intro ext) (simp add: OpRemove jar_view_def jar_get_def delete_conv' cong: option.case_cong)
      ultimately show ?thesis by blast
    next
      case False
      let ?c = "set_expires (kl_add_days lib now (- 365)) (set_max_age z (set_value [] c))"
      let ?j = "j\<lparr>jr_delta := AList.update n (delta_removed ?c) (jr_delta j)\<rparr>"
      have "jar_step lib p j = Return ?j" using assms(2,3) False d [of "delta_removed ?c"]
        by (simp add: OpRemove jar_remove_def Let_def delta_removed_def)
      moreover have "jar_wf ?j" using wf assms(2) OpRemove by (simp add: jar_wf_def delta_set_wf_update delta_removed_def)
      moreover have "jar_view ?j = view_step p n (dom (map_of (jr_delta j))) (jar_view j)"
        by (rule ext) (simp add: OpRemove jar_view_def jar_get_def update_conv delta_removed_def cong: option.case_cong)
      ultimately show ?thesis by blast
    qed
  next
    case (OpForceRemove c)
    let ?j = "j\<lparr>jr_original := AList.delete n (jr_original j), jr_delta := AList.delete n (jr_delta j)\<rparr>"
    have "jar_step lib p j = Return ?j" using assms(2) by (simp add: OpForceRemove jar_force_remove_def)
    moreover have "jar_wf ?j" using wf by (simp add: jar_wf_def delta_set_wf_delete list_all_delete)
    moreover have "jar_view ?j = view_step p n (dom (map_of (jr_delta j))) (jar_view j)"
      by (rule ext) (simp add: OpForceRemove jar_view_def jar_get_def delete_conv' cong: option.case_cong)
    ultimately show ?thesis by blast
  next
    case (OpClear now)
    then show ?thesis using jar_clear_wf [OF assms(1), of lib now]
      by (simp add: jar_wf_def delta_set_wf_def jar_view_def jar_get_def fun_eq_iff)
  qed
qed

text \<open>
  Every operation on a well-formed jar returns, keeps it well formed and does to the cookies that names stand for what the
  operation of the abstract jar does.
\<close>

theorem jar_step_refines:
  assumes "jar_wf j" and "op_name p = Return n" and "kl_seconds lib 0 = Return z"
  shows "\<exists>j'. jar_step lib p j = Return j' \<and> jar_wf j' \<and> jar_view j' = view_step p n (dom (map_of (jr_delta j))) (jar_view j)"
  by (rule jar_step_ok [OF assms])

lemma jar_step_name: "jar_step lib p j = Return j' \<Longrightarrow> \<exists>n. op_name p = Return n"
  by (cases p) (auto simp: jar_add_original_def jar_add_def jar_remove_def jar_force_remove_def set_replace_def
      delta_added_def exec_bind_Return)

lemma jar_step_wf: "jar_wf j \<Longrightarrow> kl_seconds lib 0 = Return z \<Longrightarrow> jar_step lib p j = Return j' \<Longrightarrow> jar_wf j'"
  using jar_step_ok [of j p _ lib z] jar_step_name [of lib p j j'] by fastforce

lemma jar_run_wf: "jar_run lib ps j = Return j' \<Longrightarrow> jar_wf j \<Longrightarrow> kl_seconds lib 0 = Return z \<Longrightarrow> jar_wf j'"
  by (induction ps arbitrary: j) (auto simp: exec_bind_Return dest: jar_step_wf)

lemma jar_wf_new: "jar_wf jar_new"
  by (simp add: jar_wf_def jar_new_def delta_set_wf_def)

section \<open>The iterator\<close>

lemma set_iter_all: "c \<in> set (iter_all ds) \<longleftrightarrow> (\<exists>d \<in> set ds. \<not> dc_removed d \<and> dc_cookie d = c)"
  by (induction ds) auto

text \<open>Iterating yields exactly the cookies that a name stands for.\<close>

theorem jar_iter_complete:
  assumes "jar_wf j"
  shows "c \<in> set (iter_all (jar_iter j)) \<longleftrightarrow> (\<exists>n. jar_view j n = Some c)"
proof -
  have dist: "distinct (map fst (jr_delta j))" "distinct (map fst (jr_original j))" using assms by (simp_all add: jar_wf_def delta_set_wf_def)
  have "(\<exists>d \<in> set (jar_iter j). \<not> dc_removed d \<and> dc_cookie d = c) \<longleftrightarrow>
      (\<exists>n d. (map_of (jr_delta j) n = Some d \<or> map_of (jr_delta j) n = None \<and> map_of (jr_original j) n = Some d) \<and> \<not> dc_removed d \<and> dc_cookie d = c)"
    unfolding jar_iter_def set_map set_append set_filter map_of_eq_Some_iff [OF dist(1)] map_of_eq_Some_iff [OF dist(2)] by force
  also have "\<dots> \<longleftrightarrow> (\<exists>n. jar_view j n = Some c)"
    unfolding jar_view_def jar_get_def bind_eq_Some_conv
    by (intro iff_exI) (auto split: option.splits if_splits)
  finally show ?thesis by (simp add: set_iter_all)
qed

section \<open>What the client makes of the changes\<close>

text \<open>
  A client (RFC 6265, the store that \<open>delta\<close> is meant for) keeps values under a name and a place, which it makes of the path and
  the domain of a cookie, and knows the time. A cookie is expired by its maximal age, or without one by its date; an
  expired one deletes what is stored under its name at its place.
\<close>

record ('t, 'p) client =
  cl_past :: "'t \<Rightarrow> bool"
  cl_place :: "bytes option exec \<Rightarrow> bytes option exec \<Rightarrow> 'p"

type_synonym 'p store = "bytes \<times> 'p \<Rightarrow> bytes option"

definition cookie_expired :: "('t, 'd) cookie_lib \<Rightarrow> ('t, 'p) client \<Rightarrow> ('t, 'd) cookie \<Rightarrow> bool" where
  "cookie_expired lib cl c \<longleftrightarrow>
     (case ck_max_age c of
        Some d \<Rightarrow> kl_num_seconds lib d \<le> 0
      | None \<Rightarrow> (case ck_expires c of Some t \<Rightarrow> cl_past cl t | None \<Rightarrow> False))"

definition cookie_place :: "('t, 'p) client \<Rightarrow> ('t, 'd) cookie \<Rightarrow> 'p" where
  "cookie_place cl c = cl_place cl (cookie_path c) (cookie_domain c)"

definition stored_value :: "('t, 'd) cookie \<Rightarrow> bytes option" where
  "stored_value c = (case cookie_value c of Return v \<Rightarrow> Some v | Panic \<Rightarrow> None)"

definition client_entry :: "('t, 'd) cookie_lib \<Rightarrow> ('t, 'p) client \<Rightarrow> ('t, 'd) cookie \<Rightarrow> bytes option" where
  "client_entry lib cl c = (if cookie_expired lib cl c then None else stored_value c)"

definition client_set :: "('t, 'd) cookie_lib \<Rightarrow> ('t, 'p) client \<Rightarrow> ('t, 'd) cookie \<Rightarrow> 'p store \<Rightarrow> 'p store" where
  "client_set lib cl c f =
     (case cookie_name c of
        Panic \<Rightarrow> f
      | Return n \<Rightarrow> f((n, cookie_place cl c) := client_entry lib cl c))"

text \<open>The order in which cookies of different names arrive does not matter.\<close>

lemma client_fold:
  assumes "list_all (\<lambda>(n, c). cookie_name c = Return n \<and> cookie_place cl c = home n) cs" and "distinct (map fst cs)"
  shows "fold (client_set lib cl) (map snd cs) f (n, p) =
    (if p = home n then (case map_of cs n of None \<Rightarrow> f (n, p) | Some c \<Rightarrow> client_entry lib cl c) else f (n, p))"
  using assms
proof (induction cs arbitrary: f)
  case (Cons x cs)
  obtain m c where x: "x = (m, c)" by (cases x)
  with Cons.prems have c: "cookie_name c = Return m" "cookie_place cl c = home m" by simp_all
  define g where "g = f((m, home m) := client_entry lib cl c)"
  have "client_set lib cl c f = g" by (simp add: client_set_def c g_def)
  then have "fold (client_set lib cl) (map snd (x # cs)) f (n, p) =
      (if p = home n then (case map_of cs n of None \<Rightarrow> g (n, p) | Some c \<Rightarrow> client_entry lib cl c) else g (n, p))"
    using Cons.IH [of g] Cons.prems x by simp
  moreover have "g (n, p) = (if n = m \<and> p = home m then client_entry lib cl c else f (n, p))" by (simp add: g_def)
  moreover have "map_of cs m = None" using Cons.prems x by (simp add: map_of_eq_None_iff)
  ultimately show ?case using x by (auto split: option.splits)
qed simp

lemma map_of_mset: "mset xs = mset ys \<Longrightarrow> distinct (map fst xs) \<Longrightarrow> map_of xs = map_of ys"
proof -
  assume m: "mset xs = mset ys" and d: "distinct (map fst xs)"
  then have "distinct (map fst ys)" by (metis mset_map mset_eq_imp_distinct_iff)
  with d m show ?thesis by (metis map_of_inject_set mset_eq_setD)
qed

text \<open>
  A run that only adds cookies that are not expired and removes cookies, where every name has one place: a
  removal names the path and the domain that its cookie was set with.
\<close>

fun tracked_op :: "('t, 'd) cookie_lib \<Rightarrow> ('t, 'p) client \<Rightarrow> (bytes \<Rightarrow> 'p) \<Rightarrow> ('t, 'd) jar_op \<Rightarrow> bool" where
  "tracked_op lib cl home (OpAdd c) \<longleftrightarrow>
     \<not> cookie_expired lib cl c \<and> (case cookie_name c of Return n \<Rightarrow> cookie_place cl c = home n | Panic \<Rightarrow> False)"
| "tracked_op lib cl home (OpRemove now c) \<longleftrightarrow>
     (case cookie_name c of Return n \<Rightarrow> cookie_place cl c = home n | Panic \<Rightarrow> False)"
| "tracked_op lib cl home _ \<longleftrightarrow> False"

definition delta_tracked :: "('t, 'd) cookie_lib \<Rightarrow> ('t, 'p) client \<Rightarrow> (bytes \<Rightarrow> 'p) \<Rightarrow> ('t, 'd) delta_set \<Rightarrow> bool" where
  "delta_tracked lib cl home s \<longleftrightarrow>
     list_all (\<lambda>(n, d). (dc_removed d \<longleftrightarrow> cookie_expired lib cl (dc_cookie d)) \<and> cookie_place cl (dc_cookie d) = home n) s"

lemma cookie_place_set [simp]:
  "cookie_place cl (set_value v c) = cookie_place cl c" "cookie_place cl (set_max_age d c) = cookie_place cl c"
  "cookie_place cl (set_expires t c) = cookie_place cl c"
  by (simp_all add: cookie_place_def cookie_path_def cookie_domain_def set_value_def set_max_age_def set_expires_def)

lemma jar_step_tracked:
  assumes "jar_step lib p j = Return j'" and "tracked_op lib cl home p" and "delta_tracked lib cl home (jr_delta j)"
    and "kl_seconds lib 0 = Return z" and "kl_num_seconds lib z = 0"
  shows "jr_original j' = jr_original j \<and> delta_tracked lib cl home (jr_delta j')"
proof (cases p)
  case (OpAdd c)
  with assms(1-3) show ?thesis
    by (auto simp: jar_add_def set_replace_def exec_bind_Return delta_tracked_def delta_added_def list_all_update)
next
  case (OpRemove now c)
  then obtain n where n: "cookie_name c = Return n" using assms(1) by (auto simp: jar_remove_def exec_bind_Return)
  show ?thesis
  proof (cases "map_of (jr_original j) n = None")
    case True
    with assms(1,3) n OpRemove show ?thesis
      by (auto simp: jar_remove_def delta_tracked_def list_all_delete)
  next
    case False
    have e: "cookie_expired lib cl (set_expires t (set_max_age z c'))" for t c'
      using assms(5) by (simp add: cookie_expired_def set_expires_def set_max_age_def)
    with assms(1-4) n OpRemove False show ?thesis
      by (auto simp: jar_remove_def delta_tracked_def set_replace_def delta_removed_def Let_def list_all_update)
  qed
qed (use assms(2) in auto)

lemma jar_run_tracked:
  assumes "kl_seconds lib 0 = Return z" and "kl_num_seconds lib z = 0"
  shows "jar_run lib ps j = Return j' \<Longrightarrow> list_all (tracked_op lib cl home) ps \<Longrightarrow> delta_tracked lib cl home (jr_delta j) \<Longrightarrow>
    jr_original j' = jr_original j \<and> delta_tracked lib cl home (jr_delta j')"
proof (induction ps arbitrary: j)
  case (Cons p ps)
  then obtain j1 where j1: "jar_step lib p j = Return j1" "jar_run lib ps j1 = Return j'" by (auto simp: exec_bind_Return)
  with jar_step_tracked [OF j1(1) _ _ assms] Cons show ?case by auto
qed simp

lemma seed_delta: "jar_run lib (map OpAddOriginal cs) j = Return j' \<Longrightarrow> jr_delta j' = jr_delta j"
  by (induction cs arbitrary: j) (auto simp: exec_bind_Return jar_add_original_def)

text \<open>
  Property C33. A jar is seeded with the cookies that a client stores, then cookies that are not expired are added and cookies are
  removed, those of one name always at one place. The client that takes the changes, in whatever order they are sent, ends up with
  exactly the cookies of the jar, and nothing it stores under other places changes.
\<close>

theorem jar_delta_synchronises:
  assumes "kl_seconds lib 0 = Return z" and "kl_num_seconds lib z = 0"
    and "jar_run lib (map OpAddOriginal cs) jar_new = Return j0" and "jar_run lib ps j0 = Return j"
    and "list_all (tracked_op lib cl home) ps" and "mset s = mset (jr_delta j)"
    and "\<And>n. store (n, home n) = Option.bind (jar_view j0 n) stored_value"
  shows "fold (client_set lib cl) (delta_all (map snd s)) store (n, p) =
    (if p = home n then Option.bind (jar_view j n) stored_value else store (n, p))"
proof -
  have wf0: "jar_wf j0" using jar_run_wf [OF assms(3) jar_wf_new assms(1)] .
  then have wf: "jar_wf j" using jar_run_wf [OF assms(4) _ assms(1)] by simp
  have d0: "jr_delta j0 = []" using seed_delta [OF assms(3)] by (simp add: jar_new_def)
  then have tr: "jr_original j = jr_original j0 \<and> delta_tracked lib cl home (jr_delta j)"
    using jar_run_tracked [OF assms(1,2,4,5)] by (simp add: delta_tracked_def)
  let ?cs = "map (\<lambda>(n, d). (n, dc_cookie d)) s"
  have set: "set s = set (jr_delta j)" using assms(6) by (rule mset_eq_setD)
  have dist: "distinct (map fst s)"
    using wf assms(6) by (metis delta_set_wf_def jar_wf_def mset_eq_imp_distinct_iff mset_map)
  then have same: "map_of s = map_of (jr_delta j)"
    using wf set by (intro map_of_inject_set [THEN iffD2]) (simp_all add: jar_wf_def delta_set_wf_def)
  have all: "delta_all (map snd s) = map snd ?cs" by (induction s) auto
  have "fold (client_set lib cl) (map snd ?cs) store (n, p) =
      (if p = home n then (case map_of ?cs n of None \<Rightarrow> store (n, p) | Some c \<Rightarrow> client_entry lib cl c) else store (n, p))"
    by (rule client_fold)
       (use wf set dist tr in \<open>auto simp: jar_wf_def delta_set_wf_def delta_tracked_def list_all_iff comp_def case_prod_beta\<close>)
  moreover have "map_of ?cs n = map_option dc_cookie (map_of (jr_delta j) n)" using same by (simp add: map_of_map)
  moreover have "dc_removed d \<longleftrightarrow> cookie_expired lib cl (dc_cookie d)" if "map_of (jr_delta j) n = Some d" for d
    using tr map_of_SomeD [OF that] by (auto simp: delta_tracked_def list_all_iff)
  ultimately show ?thesis
    using d0 tr assms(7) [of n] unfolding all
    by (cases "map_of (jr_delta j) n") (simp_all add: jar_view_def jar_get_def client_entry_def)
qed

text \<open>
  Clearing a jar forgets its cookies without a trace: no name stands for anything, yet nothing is sent, so the client
  keeps all its cookies.
\<close>

theorem jar_clear_sends_nothing:
  assumes "jar_wf j"
  shows "\<exists>j'. jar_clear lib now j = Return j' \<and> (\<forall>n. jar_view j' n = None) \<and> jar_delta j' = [] \<and>
    fold (client_set lib cl) (delta_all (jar_delta j')) store = store"
  using jar_clear_wf [OF assms, of lib now] by (simp add: jar_view_def jar_get_def jar_delta_def)

section \<open>Witnesses\<close>

text \<open>Times and durations are numbers.\<close>

definition demo_jar_lib :: "(int, int) cookie_lib" where
  "demo_jar_lib =
     \<lparr>kl_strptime = (\<lambda>s f. None), kl_rfc822 = (\<lambda>t. []), kl_add_days = (+), kl_seconds = Return, kl_days = Return,
      kl_num_seconds = id, kl_zero = 0, kl_max_value = 9223372036854775,
      kl_percent_encode = (\<lambda>enc s. s), kl_percent_decode = id\<rparr>"

definition demo_jar :: "(int, int) cookie_jar" where
  "demo_jar = \<lparr>jr_original = [(bstr ''a'', delta_added (cookie_new (bstr ''a'') (bstr ''1'')))],
     jr_delta = [(bstr ''b'', delta_added (cookie_new (bstr ''b'') (bstr ''2'')))]\<rparr>"

lemmas demo_jar_defs = demo_jar_def delta_added_def delta_removed_def cookie_new_def cookie_name_def

lemma demo_jar_wf: "jar_wf demo_jar"
  by (simp add: jar_wf_def delta_set_wf_def demo_jar_defs)

lemma jar_step_refines_witness:
  "\<exists>j'. jar_step demo_jar_lib (OpRemove 5 (cookie_named (bstr ''a''))) demo_jar = Return j' \<and> jar_view j' (bstr ''a'') = None"
  using jar_step_refines [OF demo_jar_wf, of "OpRemove 5 (cookie_named (bstr ''a''))" "bstr ''a''" demo_jar_lib 0]
  by (auto simp: demo_jar_lib_def cookie_named_def cookie_new_def cookie_name_def)

lemma jar_iter_complete_witness:
  "cookie_new (bstr ''a'') (bstr ''1'') \<in> set (iter_all (jar_iter demo_jar)) \<and> jar_view demo_jar (bstr ''a'') = Some (cookie_new (bstr ''a'') (bstr ''1''))"
proof -
  have v: "jar_view demo_jar (bstr ''a'') = Some (cookie_new (bstr ''a'') (bstr ''1''))"
    by (simp add: jar_view_def jar_get_def demo_jar_defs)
  then show ?thesis using jar_iter_complete [OF demo_jar_wf, of "cookie_new (bstr ''a'') (bstr ''1'')"] by blast
qed

definition demo_seeded :: "(int, int) cookie_jar" where
  "demo_seeded = \<lparr>jr_original = [(bstr ''a'', delta_added (cookie_new (bstr ''a'') (bstr ''1'')))], jr_delta = []\<rparr>"

definition demo_changed :: "(int, int) cookie_jar" where
  "demo_changed = demo_seeded\<lparr>jr_delta := [(bstr ''b'', delta_added (cookie_new (bstr ''b'') (bstr ''2''))),
     (bstr ''a'', delta_removed (set_expires (- 360) (set_max_age 0 (cookie_new (bstr ''a'') []))))]\<rparr>"

lemma demo_jar_run:
  "jar_run demo_jar_lib (map OpAddOriginal [cookie_new (bstr ''a'') (bstr ''1'')]) jar_new = Return demo_seeded"
  "jar_run demo_jar_lib [OpAdd (cookie_new (bstr ''b'') (bstr ''2'')), OpRemove 5 (cookie_named (bstr ''a''))] demo_seeded = Return demo_changed"
  by (simp_all add: jar_add_original_def set_replace_def jar_new_def demo_jar_defs demo_seeded_def demo_changed_def jar_add_def
      jar_remove_def demo_jar_lib_def cookie_named_def Let_def set_value_def set_max_age_def set_expires_def)

text \<open>A client whose places are the attributes themselves, at time 100, with the cookie of the jar and one at another path.\<close>

definition demo_client :: "(int, bytes option exec \<times> bytes option exec) client" where
  "demo_client = \<lparr>cl_past = (\<lambda>t. t < 100), cl_place = Pair\<rparr>"

definition demo_store :: "(bytes option exec \<times> bytes option exec) store" where
  "demo_store = (\<lambda>_. None)((bstr ''a'', Return None, Return None) \<mapsto> bstr ''1'',
     (bstr ''a'', Return (Some (bstr ''/x'')), Return None) \<mapsto> bstr ''3'')"

lemma jar_delta_synchronises_witness:
  "fold (client_set demo_jar_lib demo_client) (delta_all (map snd (rev (jr_delta demo_changed)))) demo_store (bstr ''a'', Return None, Return None) = None \<and>
   fold (client_set demo_jar_lib demo_client) (delta_all (map snd (rev (jr_delta demo_changed)))) demo_store (bstr ''b'', Return None, Return None) = Some (bstr ''2'') \<and>
   fold (client_set demo_jar_lib demo_client) (delta_all (map snd (rev (jr_delta demo_changed)))) demo_store
     (bstr ''a'', Return (Some (bstr ''/x'')), Return None) = Some (bstr ''3'')"
proof -
  let ?home = "\<lambda>n :: bytes. (Return None :: bytes option exec, Return None :: bytes option exec)"
  have tr: "list_all (tracked_op demo_jar_lib demo_client ?home) [OpAdd (cookie_new (bstr ''b'') (bstr ''2'')), OpRemove 5 (cookie_named (bstr ''a''))]"
    by (simp add: demo_jar_lib_def demo_client_def cookie_expired_def cookie_place_def cookie_path_def cookie_domain_def cookie_new_def
        cookie_name_def cookie_named_def)
  have store: "demo_store (n, ?home n) = Option.bind (jar_view demo_seeded n) stored_value" for n
    by (simp add: demo_store_def demo_seeded_def jar_view_def jar_get_def stored_value_def cookie_value_def delta_added_def cookie_new_def)
  have lib: "kl_seconds demo_jar_lib 0 = Return 0" "kl_num_seconds demo_jar_lib 0 = 0" by (simp_all add: demo_jar_lib_def)
  have "fold (client_set demo_jar_lib demo_client) (delta_all (map snd (rev (jr_delta demo_changed)))) demo_store (n, p) =
      (if p = ?home n then Option.bind (jar_view demo_changed n) stored_value else demo_store (n, p))" for n p
    by (rule jar_delta_synchronises [OF lib demo_jar_run tr _ store]) simp
  then show ?thesis
    by (simp add: jar_view_def jar_get_def demo_changed_def demo_seeded_def demo_jar_defs stored_value_def cookie_value_def demo_store_def)
qed

lemma jar_clear_sends_nothing_witness:
  "\<exists>j'. jar_clear demo_jar_lib 5 demo_jar = Return j' \<and> jar_view j' (bstr ''a'') = None \<and> jar_delta j' = []"
  using jar_clear_sends_nothing [OF demo_jar_wf, of demo_jar_lib 5 demo_client demo_store] by auto

end
