(* ===== verification/Cookie_Secure.thy ===== *)
theory Cookie_Secure
  imports Cookie_Jar
begin

text \<open>
  Signed and private cookie jars (\<open>cookie/secure/key.rs\<close>, \<open>signed.rs\<close>, \<open>private.rs\<close>), which sign or encrypt the values
  of the cookies of a parent jar. The crates \<open>ring\<close> and \<open>base64\<close> are parameters, and random bytes are arguments.
\<close>

section \<open>The libraries\<close>

text \<open>
  HMAC signing and verification under a key, Base64, AES-GCM sealing of a text under a key and a nonce with associated
  data, which returns the sealed text and the tag, its opposite, and HKDF, which fails when too much is asked for.
\<close>

record secure_lib =
  vl_sign :: "bytes \<Rightarrow> bytes \<Rightarrow> bytes"
  vl_verify :: "bytes \<Rightarrow> bytes \<Rightarrow> bytes \<Rightarrow> bool"
  vl_encode :: "bytes \<Rightarrow> bytes"
  vl_decode :: "bytes \<Rightarrow> bytes option"
  vl_seal :: "bytes \<Rightarrow> bytes \<Rightarrow> bytes \<Rightarrow> bytes \<Rightarrow> bytes \<times> bytes"
  vl_open :: "bytes \<Rightarrow> bytes \<Rightarrow> bytes \<Rightarrow> bytes \<Rightarrow> bytes option"
  vl_expand :: "bytes \<Rightarrow> bytes \<Rightarrow> nat \<Rightarrow> bytes option"

definition BASE64_DIGEST_LEN :: nat where "BASE64_DIGEST_LEN = 44"
definition SIGNED_KEY_LEN :: nat where "SIGNED_KEY_LEN = 32"
definition NONCE_LEN :: nat where "NONCE_LEN = 12"
definition PRIVATE_KEY_LEN :: nat where "PRIVATE_KEY_LEN = 32"
definition KEYS_INFO :: bytes where "KEYS_INFO = bstr ''COOKIE;SIGNED:HMAC-SHA256;PRIVATE:AEAD-AES-256-GCM''"

section \<open>Keys\<close>

record secret_key =
  sk_signing :: bytes
  sk_encryption :: bytes

definition key_from_master :: "secure_lib \<Rightarrow> bytes \<Rightarrow> secret_key exec" where
  "key_from_master lib key =
     (if length key < 32 then Panic
      else (case vl_expand lib key KEYS_INFO (SIGNED_KEY_LEN + PRIVATE_KEY_LEN) of
              None \<Rightarrow> Panic
            | Some both \<Rightarrow> Return \<lparr>sk_signing = take SIGNED_KEY_LEN both, sk_encryption = drop SIGNED_KEY_LEN both\<rparr>))"

text \<open>What the random number generator fills the two arrays with, if it can.\<close>

definition key_try_generate :: "bytes option \<Rightarrow> bytes option \<Rightarrow> secret_key option" where
  "key_try_generate sign_key enc_key =
     (case sign_key of
        None \<Rightarrow> None
      | Some s \<Rightarrow> (case enc_key of None \<Rightarrow> None | Some e \<Rightarrow> Some \<lparr>sk_signing = s, sk_encryption = e\<rparr>))"

definition key_generate :: "bytes option \<Rightarrow> bytes option \<Rightarrow> secret_key exec" where
  "key_generate sign_key enc_key = (case key_try_generate sign_key enc_key of None \<Rightarrow> Panic | Some k \<Rightarrow> Return k)"

section \<open>The signed jar\<close>

text \<open>The signing key and the parent jar.\<close>

record ('t, 'd) signed_jar =
  sj_parent :: "('t, 'd) cookie_jar"
  sj_key :: bytes

definition signed_new :: "('t, 'd) cookie_jar \<Rightarrow> secret_key \<Rightarrow> ('t, 'd) signed_jar" where
  "signed_new parent key = \<lparr>sj_parent = parent, sj_key = sk_signing key\<rparr>"

text \<open>\<open>split_at\<close> panics inside a character.\<close>

definition signed_verify :: "secure_lib \<Rightarrow> bytes \<Rightarrow> bytes \<Rightarrow> (bytes, string) result exec" where
  "signed_verify lib key cval =
     (if length cval < BASE64_DIGEST_LEN then Return (Err ''length of value is <= BASE64_DIGEST_LEN'')
      else if \<not> char_boundary cval BASE64_DIGEST_LEN then Panic
      else (let digest_str = take BASE64_DIGEST_LEN cval; val = drop BASE64_DIGEST_LEN cval
            in case vl_decode lib digest_str of
                 None \<Rightarrow> Return (Err ''bad base64 digest'')
               | Some sig \<Rightarrow> Return (if vl_verify lib key val sig then Ok val else Err ''value did not verify'')))"

definition signed_get :: "secure_lib \<Rightarrow> bytes \<Rightarrow> ('t, 'd) signed_jar \<Rightarrow> ('t, 'd) cookie option exec" where
  "signed_get lib name j =
     (case jar_get name (sj_parent j) of
        None \<Rightarrow> Return None
      | Some c \<Rightarrow>
          exec_bind (cookie_value c) (\<lambda>v. exec_bind (signed_verify lib (sj_key j) v) (\<lambda>r.
            Return (case r of Ok val \<Rightarrow> Some (set_value val c) | Err _ \<Rightarrow> None))))"

definition sign_cookie :: "secure_lib \<Rightarrow> bytes \<Rightarrow> ('t, 'd) cookie \<Rightarrow> ('t, 'd) cookie exec" where
  "sign_cookie lib key c =
     exec_bind (cookie_value c) (\<lambda>v. Return (set_value (vl_encode lib (vl_sign lib key v) @ v) c))"

definition signed_add :: "secure_lib \<Rightarrow> ('t, 'd) cookie \<Rightarrow> ('t, 'd) signed_jar \<Rightarrow> ('t, 'd) signed_jar exec" where
  "signed_add lib c j =
     exec_bind (sign_cookie lib (sj_key j) c) (\<lambda>c. exec_bind (jar_add c (sj_parent j)) (\<lambda>p. Return (j\<lparr>sj_parent := p\<rparr>)))"

definition signed_add_original :: "secure_lib \<Rightarrow> ('t, 'd) cookie \<Rightarrow> ('t, 'd) signed_jar \<Rightarrow> ('t, 'd) signed_jar exec" where
  "signed_add_original lib c j =
     exec_bind (sign_cookie lib (sj_key j) c) (\<lambda>c. exec_bind (jar_add_original c (sj_parent j)) (\<lambda>p. Return (j\<lparr>sj_parent := p\<rparr>)))"

definition signed_remove :: "('t, 'd) cookie_lib \<Rightarrow> 't \<Rightarrow> ('t, 'd) cookie \<Rightarrow> ('t, 'd) signed_jar \<Rightarrow> ('t, 'd) signed_jar exec" where
  "signed_remove kl now c j = exec_bind (jar_remove kl now c (sj_parent j)) (\<lambda>p. Return (j\<lparr>sj_parent := p\<rparr>))"

section \<open>The private jar\<close>

record ('t, 'd) private_jar =
  pj_parent :: "('t, 'd) cookie_jar"
  pj_key :: bytes

text \<open>\<open>copy_from_slice\<close> panics when the lengths differ.\<close>

definition private_new :: "('t, 'd) cookie_jar \<Rightarrow> secret_key \<Rightarrow> ('t, 'd) private_jar exec" where
  "private_new parent key =
     (if length (sk_encryption key) = PRIVATE_KEY_LEN then Return \<lparr>pj_parent = parent, pj_key = sk_encryption key\<rparr> else Panic)"

text \<open>An unbound key is only made of the length of the algorithm.\<close>

definition unseal :: "secure_lib \<Rightarrow> bytes \<Rightarrow> bytes \<Rightarrow> bytes \<Rightarrow> (bytes, string) result exec" where
  "unseal lib key name val =
     (case vl_decode lib val of
        None \<Rightarrow> Return (Err ''bad base64 value'')
      | Some data \<Rightarrow>
          if length data \<le> NONCE_LEN then Return (Err ''length of decoded data is <= NONCE_LEN'')
          else if length key \<noteq> PRIVATE_KEY_LEN then Panic
          else (case vl_open lib key (take NONCE_LEN data) name (drop NONCE_LEN data) of
                  None \<Rightarrow> Return (Err ''invalid key/nonce/value: bad seal'')
                | Some unsealed \<Rightarrow> Return (if valid_utf8 unsealed then Ok unsealed else Err ''bad unsealed utf8'')))"

definition private_get :: "secure_lib \<Rightarrow> bytes \<Rightarrow> ('t, 'd) private_jar \<Rightarrow> ('t, 'd) cookie option exec" where
  "private_get lib name j =
     (case jar_get name (pj_parent j) of
        None \<Rightarrow> Return None
      | Some c \<Rightarrow>
          exec_bind (cookie_value c) (\<lambda>v. exec_bind (unseal lib (pj_key j) name v) (\<lambda>r.
            Return (case r of Ok val \<Rightarrow> Some (set_value val c) | Err _ \<Rightarrow> None))))"

text \<open>\<open>None\<close> for the nonce is a failure of the random number generator.\<close>

definition encrypt_name_value :: "secure_lib \<Rightarrow> bytes option \<Rightarrow> bytes \<Rightarrow> bytes \<Rightarrow> bytes \<Rightarrow> bytes exec" where
  "encrypt_name_value lib random name val key =
     (if length key \<noteq> PRIVATE_KEY_LEN then Panic
      else (case random of
              None \<Rightarrow> Panic
            | Some nonce \<Rightarrow> (let (sealed, tag) = vl_seal lib key nonce name val in Return (nonce @ sealed @ tag))))"

definition encrypt_cookie :: "secure_lib \<Rightarrow> bytes option \<Rightarrow> bytes \<Rightarrow> ('t, 'd) cookie \<Rightarrow> ('t, 'd) cookie exec" where
  "encrypt_cookie lib random key c =
     exec_bind (cookie_name c) (\<lambda>n. exec_bind (cookie_value c) (\<lambda>v.
       exec_bind (encrypt_name_value lib random n v key) (\<lambda>data. Return (set_value (vl_encode lib data) c))))"

definition private_add :: "secure_lib \<Rightarrow> bytes option \<Rightarrow> ('t, 'd) cookie \<Rightarrow> ('t, 'd) private_jar \<Rightarrow> ('t, 'd) private_jar exec" where
  "private_add lib random c j =
     exec_bind (encrypt_cookie lib random (pj_key j) c) (\<lambda>c. exec_bind (jar_add c (pj_parent j)) (\<lambda>p. Return (j\<lparr>pj_parent := p\<rparr>)))"

definition private_add_original :: "secure_lib \<Rightarrow> bytes option \<Rightarrow> ('t, 'd) cookie \<Rightarrow> ('t, 'd) private_jar \<Rightarrow> ('t, 'd) private_jar exec" where
  "private_add_original lib random c j =
     exec_bind (encrypt_cookie lib random (pj_key j) c) (\<lambda>c. exec_bind (jar_add_original c (pj_parent j)) (\<lambda>p. Return (j\<lparr>pj_parent := p\<rparr>)))"

definition private_remove :: "('t, 'd) cookie_lib \<Rightarrow> 't \<Rightarrow> ('t, 'd) cookie \<Rightarrow> ('t, 'd) private_jar \<Rightarrow> ('t, 'd) private_jar exec" where
  "private_remove kl now c j = exec_bind (jar_remove kl now c (pj_parent j)) (\<lambda>p. Return (j\<lparr>pj_parent := p\<rparr>))"

section \<open>Properties\<close>

text \<open>
  What the crates document: a signature verifies, Base64 is undone by decoding and is ASCII, the digest of 32 bytes takes
  44 characters, and opening undoes sealing.
\<close>

definition secure_lib_ok :: "secure_lib \<Rightarrow> bool" where
  "secure_lib_ok lib \<longleftrightarrow>
     (\<forall>k m. vl_verify lib k m (vl_sign lib k m)) \<and> (\<forall>x. vl_decode lib (vl_encode lib x) = Some x) \<and>
     (\<forall>k m. length (vl_encode lib (vl_sign lib k m)) = BASE64_DIGEST_LEN) \<and>
     (\<forall>x. list_all (\<lambda>b. b < 0x80) (vl_encode lib x)) \<and>
     (\<forall>k n ad x. case vl_seal lib k n ad x of (s, t) \<Rightarrow> vl_open lib k n ad (s @ t) = Some x \<and> length s = length x \<and> t \<noteq> [])"

lemma cookie_value_set [simp]: "cookie_value (set_value v c) = Return v"
  by (simp add: cookie_value_def set_value_def)

lemma set_value_twice [simp]: "set_value v (set_value w c) = set_value v c"
  by (simp add: set_value_def)

lemma jar_get_added: "cookie_name c = Return n \<Longrightarrow> jar_add c j = Return j' \<Longrightarrow> jar_get n j' = Some c"
  by (auto simp: jar_add_def set_replace_def exec_bind_Return delta_added_def jar_get_def update_conv)

lemma char_boundary_append: "valid_utf8 v \<Longrightarrow> char_boundary (d @ v) (length d)"
  using valid_utf8_hd by (cases v) (auto simp: char_boundary_def nth_append)

lemma signed_verify_own:
  "secure_lib_ok lib \<Longrightarrow> valid_utf8 v \<Longrightarrow> signed_verify lib key (vl_encode lib (vl_sign lib key v) @ v) = Return (Ok v)"
  using char_boundary_append [of v "vl_encode lib (vl_sign lib key v)"]
  by (simp add: secure_lib_ok_def signed_verify_def)

text \<open>What is added to a signed jar is got back with its own value.\<close>

theorem signed_jar_roundtrip:
  assumes "secure_lib_ok lib" and "cookie_name c = Return n" and "cookie_value c = Return v" and "valid_utf8 v"
  shows "\<exists>j'. signed_add lib c j = Return j' \<and> signed_get lib n j' = Return (Some (set_value v c))"
proof -
  let ?c = "set_value (vl_encode lib (vl_sign lib (sj_key j) v) @ v) c"
  have n: "cookie_name ?c = Return n" using assms(2) by simp
  then obtain p where p: "jar_add ?c (sj_parent j) = Return p"
    by (simp add: jar_add_def set_replace_def delta_added_def)
  show ?thesis using signed_verify_own [OF assms(1,4), of "sj_key j"] jar_get_added [OF n p] p assms(3)
    by (simp add: signed_add_def sign_cookie_def signed_get_def)
qed

text \<open>
  Property C34. A signed jar yields a cookie only when the value in the parent jar is the Base64 text of a digest that verifies under its
  key, followed by the value it yields.
\<close>

theorem signed_jar_authentic:
  assumes "signed_get lib name j = Return (Some c)"
  shows "\<exists>c0 d v sig. jar_get name (sj_parent j) = Some c0 \<and> cookie_value c0 = Return (d @ v) \<and> length d = BASE64_DIGEST_LEN \<and>
    vl_decode lib d = Some sig \<and> vl_verify lib (sj_key j) v sig \<and> c = set_value v c0"
proof -
  obtain c0 w where c0: "jar_get name (sj_parent j) = Some c0" "cookie_value c0 = Return w"
      and r: "exec_bind (signed_verify lib (sj_key j) w) (\<lambda>r. Return (case r of Ok val \<Rightarrow> Some (set_value val c0) | Err _ \<Rightarrow> None)) = Return (Some c)"
    using assms by (auto simp: signed_get_def exec_bind_Return split: option.splits)
  obtain r where "signed_verify lib (sj_key j) w = Return r" "(case r of Ok val \<Rightarrow> Some (set_value val c0) | Err _ \<Rightarrow> None) = Some c"
    using r by (auto simp: exec_bind_Return)
  then obtain v where v: "signed_verify lib (sj_key j) w = Return (Ok v)" "c = set_value v c0"
    by (cases r) auto
  let ?d = "take BASE64_DIGEST_LEN w"
  have "length ?d = BASE64_DIGEST_LEN" "w = ?d @ v" "\<exists>sig. vl_decode lib ?d = Some sig \<and> vl_verify lib (sj_key j) v sig"
    using v(1) by (auto simp: signed_verify_def Let_def split: if_splits option.splits)
  with c0 v(2) show ?thesis by metis
qed

text \<open>
  A client can make the server panic: a value of at least 44 bytes with a character across the byte at which the digest ends
  is not rejected but cut inside the character.
\<close>

theorem signed_jar_panics:
  assumes "jar_get name (sj_parent j) = Some c" and "cookie_value c = Return v"
    and "BASE64_DIGEST_LEN < length v" and "utf8_cont (v ! BASE64_DIGEST_LEN)"
  shows "signed_get lib name j = Panic"
  using assms by (simp add: signed_get_def signed_verify_def char_boundary_def BASE64_DIGEST_LEN_def)

text \<open>
  The signature does not cover the name: a value that was signed for one cookie is accepted under any other name.
\<close>

theorem signed_value_transfers:
  fixes j :: "('t, 'd) signed_jar"
  assumes "secure_lib_ok lib" and "cookie_name c = Return n" and "cookie_value c = Return v" and "valid_utf8 v"
    and "signed_add lib c j = Return j1" and "jar_get n (sj_parent j1) = Some stolen" and "cookie_value stolen = Return w"
  shows "\<exists>p. jar_add (cookie_new m w) (sj_parent j1) = Return p \<and>
    signed_get lib m (j1\<lparr>sj_parent := p\<rparr>) = Return (Some (cookie_new m v))"
proof -
  let ?c = "set_value (vl_encode lib (vl_sign lib (sj_key j) v) @ v) c"
  have n: "cookie_name ?c = Return n" using assms(2) by simp
  obtain q where q: "jar_add ?c (sj_parent j) = Return q" "j1 = j\<lparr>sj_parent := q\<rparr>"
    using assms(3,5) by (auto simp: signed_add_def sign_cookie_def exec_bind_Return)
  have w: "w = vl_encode lib (vl_sign lib (sj_key j1) v) @ v" using assms(6,7) jar_get_added [OF n q(1)] q(2) by auto
  have m: "cookie_name (cookie_new m w :: ('t, 'd) cookie) = Return m" by (simp add: cookie_name_def cookie_new_def)
  then obtain p where p: "jar_add (cookie_new m w) (sj_parent j1) = Return p"
    by (simp add: jar_add_def set_replace_def delta_added_def)
  show ?thesis using signed_verify_own [OF assms(1,4), of "sj_key j1"] jar_get_added [OF m p] p w
    by (simp add: signed_get_def cookie_value_def) (simp add: cookie_new_def set_value_def)
qed

text \<open>What is added to a private jar is got back with its own value.\<close>

theorem private_jar_roundtrip:
  assumes "secure_lib_ok lib" and "cookie_name c = Return n" and "cookie_value c = Return v" and "valid_utf8 v"
    and "length nonce = NONCE_LEN" and "length (pj_key j) = PRIVATE_KEY_LEN"
  shows "\<exists>j'. private_add lib (Some nonce) c j = Return j' \<and> private_get lib n j' = Return (Some (set_value v c))"
proof -
  obtain s t where st: "vl_seal lib (pj_key j) nonce n v = (s, t)" by (cases "vl_seal lib (pj_key j) nonce n v")
  then have o: "vl_open lib (pj_key j) nonce n (s @ t) = Some v" "t \<noteq> []"
    using assms(1) unfolding secure_lib_ok_def by (metis (mono_tags, lifting) case_prod_conv)+
  have d: "vl_decode lib (vl_encode lib x) = Some x" for x using assms(1) by (simp add: secure_lib_ok_def)
  let ?c = "set_value (vl_encode lib (nonce @ s @ t)) c"
  have e: "encrypt_cookie lib (Some nonce) (pj_key j) c = Return ?c"
    using assms st by (simp add: encrypt_cookie_def encrypt_name_value_def)
  have n: "cookie_name ?c = Return n" using assms(2) by simp
  then obtain p where p: "jar_add ?c (pj_parent j) = Return p"
    by (simp add: jar_add_def set_replace_def delta_added_def)
  have "unseal lib (pj_key j) n (vl_encode lib (nonce @ s @ t)) = Return (Ok v)"
    using o d assms(4-6) by (simp add: unseal_def)
  with e p jar_get_added [OF n p] show ?thesis by (simp add: private_add_def private_get_def)
qed

section \<open>Witnesses\<close>

text \<open>Toy cryptography: a signature is the key and the length of the text, sealing adds the nonce as a tag.\<close>

definition demo_secure_lib :: secure_lib where
  "demo_secure_lib =
     \<lparr>vl_sign = (\<lambda>k m. [of_nat (length m)]), vl_verify = (\<lambda>k m s. s = [of_nat (length m)]),
      vl_encode = (\<lambda>x. concat (map pct_byte x) @ replicate (44 - 3 * length x) 0x3D),
      vl_decode = (\<lambda>s. Some (unpct (takeWhile (\<lambda>b. b \<noteq> 0x3D) s))),
      vl_seal = (\<lambda>k n ad x. (x, n @ [0])), vl_open = (\<lambda>k n ad x. Some (take (length x - length n - 1) x)),
      vl_expand = (\<lambda>k i n. Some (replicate n 0))\<rparr>"

lemma unpct_bytes: "unpct (concat (map pct_byte v)) = v"
proof -
  have lt: "unat b div 16 < 16" "unat b mod 16 < 16" for b :: byte
    using unsigned_less [of b, where 'a = nat] by (simp_all add: less_mult_imp_div_less)
  have "of_nat (unat b div 16 * 16 + unat b mod 16) = b" for b :: byte by simp
  then show ?thesis using lt by (induction v) (simp_all add: pct_byte_def hex_digit_upper_value)
qed

lemma pct_bytes_ascii: "b \<in> set (concat (map pct_byte v)) \<Longrightarrow> b < 0x80 \<and> b \<noteq> 0x3D"
proof -
  assume "b \<in> set (concat (map pct_byte v))"
  then obtain c where c: "b \<in> set (pct_byte c)" by auto
  have lt: "unat c div 16 < 16" "unat c mod 16 < 16"
    using unsigned_less [of c, where 'a = nat] by (simp_all add: less_mult_imp_div_less)
  have "hex_or_percent 0x25" by (simp add: hex_or_percent_def)
  with c have "hex_or_percent b" using hex_digit_upper_value [OF lt(1)] hex_digit_upper_value [OF lt(2)] by (auto simp: pct_byte_def)
  then show ?thesis by (auto simp: hex_or_percent_def word_le_nat_alt word_less_nat_alt)
qed

lemma demo_secure_lib_ok: "secure_lib_ok demo_secure_lib"
proof -
  have "takeWhile (\<lambda>b. b \<noteq> 0x3D) (concat (map pct_byte x) @ replicate n 0x3D) = concat (map pct_byte x)" for x n
    using pct_bytes_ascii [of _ x] by (subst takeWhile_append2) (auto simp: takeWhile_eq_Nil_iff)
  moreover have "list_all (\<lambda>b. b < 0x80) (concat (map pct_byte x))" for x
    using pct_bytes_ascii [of _ x] by (simp only: list_all_iff) blast
  moreover have "length (pct_byte b) = 3" for b by (simp add: pct_byte_def)
  ultimately show ?thesis
    by (simp add: secure_lib_ok_def demo_secure_lib_def unpct_bytes BASE64_DIGEST_LEN_def list_all_iff [of _ "replicate _ _"])
qed

definition demo_signed :: "(int, int) signed_jar" where
  "demo_signed = signed_new jar_new \<lparr>sk_signing = [1], sk_encryption = [2]\<rparr>"

definition demo_plain :: "(int, int) cookie" where
  "demo_plain = cookie_new (bstr ''a'') (bstr ''hi'')"

lemma demo_plain_parts: "cookie_name demo_plain = Return (bstr ''a'')" "cookie_value demo_plain = Return (bstr ''hi'')" "valid_utf8 (bstr ''hi'')"
  by (simp_all add: demo_plain_def cookie_name_def cookie_value_def cookie_new_def)

lemma signed_jar_roundtrip_witness:
  "\<exists>j'. signed_add demo_secure_lib demo_plain demo_signed = Return j' \<and>
     signed_get demo_secure_lib (bstr ''a'') j' = Return (Some (set_value (bstr ''hi'') demo_plain))"
  by (rule signed_jar_roundtrip [OF demo_secure_lib_ok demo_plain_parts])

lemma signed_jar_authentic_witness:
  "\<exists>j' c0 d v sig. signed_add demo_secure_lib demo_plain demo_signed = Return j' \<and> jar_get (bstr ''a'') (sj_parent j') = Some c0 \<and>
     cookie_value c0 = Return (d @ v) \<and> vl_decode demo_secure_lib d = Some sig \<and> vl_verify demo_secure_lib (sj_key j') v sig"
proof -
  obtain j' where j: "signed_add demo_secure_lib demo_plain demo_signed = Return j'"
    "signed_get demo_secure_lib (bstr ''a'') j' = Return (Some (set_value (bstr ''hi'') demo_plain))"
  proof -
    have "signed_verify demo_secure_lib [1] (vl_encode demo_secure_lib (vl_sign demo_secure_lib [1] (bstr ''hi'')) @ bstr ''hi'') = Return (Ok (bstr ''hi''))"
      by (rule signed_verify_own [OF demo_secure_lib_ok demo_plain_parts(3)])
    then show thesis
      using that by (simp add: signed_add_def sign_cookie_def signed_get_def demo_signed_def signed_new_def demo_plain_parts
          jar_add_def set_replace_def delta_added_def jar_new_def jar_get_def update_conv del: bstr_Cons)
  qed
  from signed_jar_authentic [OF j(2)] j(1) show ?thesis by metis
qed

lemma signed_jar_panics_witness:
  "signed_get demo_secure_lib (bstr ''a'')
     (demo_signed\<lparr>sj_parent := jar_new\<lparr>jr_original := [(bstr ''a'', delta_added (cookie_new (bstr ''a'') (replicate 43 0x78 @ [0xC3, 0xA9])))]\<rparr>\<rparr>) = Panic"
  by (rule signed_jar_panics [of _ _ "cookie_new (bstr ''a'') (replicate 43 0x78 @ [0xC3, 0xA9])" "replicate 43 0x78 @ [0xC3, 0xA9]"])
     (simp_all add: jar_get_def jar_new_def delta_added_def cookie_value_def cookie_new_def BASE64_DIGEST_LEN_def nth_append utf8_cont_def)

definition demo_signed_value :: bytes where
  "demo_signed_value = vl_encode demo_secure_lib (vl_sign demo_secure_lib [1] (bstr ''hi'')) @ bstr ''hi''"

definition demo_stolen :: "(int, int) signed_jar" where
  "demo_stolen = demo_signed\<lparr>sj_parent := jar_new\<lparr>jr_delta := [(bstr ''a'', delta_added (set_value demo_signed_value demo_plain))]\<rparr>\<rparr>"

lemma demo_stolen: "signed_add demo_secure_lib demo_plain demo_signed = Return demo_stolen"
  by (simp add: signed_add_def sign_cookie_def demo_plain_parts demo_stolen_def demo_signed_value_def demo_signed_def signed_new_def
      jar_add_def set_replace_def delta_added_def jar_new_def del: bstr_Cons)

lemma signed_value_transfers_witness:
  "\<exists>p. jar_add (cookie_new (bstr ''b'') demo_signed_value) (sj_parent demo_stolen) = Return p \<and>
     signed_get demo_secure_lib (bstr ''b'') (demo_stolen\<lparr>sj_parent := p\<rparr>) = Return (Some (cookie_new (bstr ''b'') (bstr ''hi'')))"
  by (rule signed_value_transfers [OF demo_secure_lib_ok demo_plain_parts demo_stolen, of "set_value demo_signed_value demo_plain"])
     (simp_all add: demo_stolen_def jar_get_def delta_added_def)

lemma private_jar_roundtrip_witness:
  "\<exists>j'. private_add demo_secure_lib (Some (replicate 12 7)) demo_plain \<lparr>pj_parent = jar_new, pj_key = replicate 32 1\<rparr> = Return j' \<and>
     private_get demo_secure_lib (bstr ''a'') j' = Return (Some (set_value (bstr ''hi'') demo_plain))"
  by (rule private_jar_roundtrip [OF demo_secure_lib_ok demo_plain_parts]) (simp_all add: NONCE_LEN_def PRIVATE_KEY_LEN_def)

end
