(* ===== verification/Cookie_Parse.thy ===== *)
theory Cookie_Parse
  imports Cookie
begin

text \<open>
  Parsing of cookies (\<open>cookie/parse.rs\<close>). The parser works on slices of the text and records where they lie by
  comparing addresses. The lemmas show that it never panics on a string, that it computes what a parser
  on plain texts computes, and that it undoes printing.
\<close>

section \<open>The parser\<close>

text \<open>Of a \<open>Utf8Error\<close> the place of the error is not kept.\<close>

datatype cookie_parse_error = MissingPair | EmptyName | CookieUtf8Error | CookieNonexhaustive

fun cookie_error_str :: "cookie_parse_error \<Rightarrow> string exec" where
  "cookie_error_str MissingPair = Return ''the cookie is missing a name/value pair''"
| "cookie_error_str EmptyName = Return ''the cookie's name is empty''"
| "cookie_error_str CookieUtf8Error = Return ''decoding the cookie's name or value resulted in invalid UTF-8''"
| "cookie_error_str CookieNonexhaustive = Panic"

definition indexes_of :: "slice \<Rightarrow> slice \<Rightarrow> (nat \<times> nat) option" where
  "indexes_of needle haystack =
     (let haystack_start = fst haystack; needle_start = fst needle
      in if needle_start < haystack_start then None
         else if needle_start + length (snd needle) > haystack_start + length (snd haystack) then None
         else (let start = needle_start - haystack_start in Some (start, start + length (snd needle))))"

definition decode_utf8 :: "bytes \<Rightarrow> (bytes, cookie_parse_error) result" where
  "decode_utf8 s = (if valid_utf8 s then Ok s else Err CookieUtf8Error)"

definition name_val_decoded ::
  "('t, 'd) cookie_lib \<Rightarrow> bytes \<Rightarrow> bytes \<Rightarrow> (cookie_str \<times> cookie_str, cookie_parse_error) result" where
  "name_val_decoded lib name val =
     (case decode_utf8 (kl_percent_decode lib name) of
        Err e \<Rightarrow> Err e
      | Ok n \<Rightarrow> (case decode_utf8 (kl_percent_decode lib val) of Err e \<Rightarrow> Err e | Ok v \<Rightarrow> Ok (Concrete n, Concrete v)))"

text \<open>The slice as an index pair; \<open>expect\<close> panics when it does not lie in the text.\<close>

definition indexed :: "slice \<Rightarrow> slice \<Rightarrow> cookie_str exec" where
  "indexed needle s = (case indexes_of needle s of None \<Rightarrow> Panic | Some (i, j) \<Rightarrow> Return (Indexed i j))"

text \<open>\<open>i64::from_str\<close>\<close>

definition parse_i64 :: "bytes \<Rightarrow> int option" where
  "parse_i64 s =
     (let (neg, ds) = (case s of
            b # rest \<Rightarrow> if b = 0x2D \<and> rest \<noteq> [] then (True, rest) else if b = 0x2B \<and> rest \<noteq> [] then (False, rest) else (False, s)
          | [] \<Rightarrow> (False, []))
      in if ds = [] then None
         else (case parse_digits 0 ds of
                 None \<Rightarrow> None
               | Some n \<Rightarrow>
                   if neg then (if n \<le> 2 ^ 63 then Some (- int n) else None)
                   else (if n < 2 ^ 63 then Some (int n) else None)))"

definition max_age_of :: "('t, 'd) cookie_lib \<Rightarrow> int \<Rightarrow> 'd exec" where
  "max_age_of lib val =
     (if val \<le> 0 then Return (kl_zero lib) else kl_seconds lib (min val (kl_num_seconds lib (kl_max_value lib))))"

definition parse_expires :: "('t, 'd) cookie_lib \<Rightarrow> bytes \<Rightarrow> 't option" where
  "parse_expires lib v =
     (case kl_strptime lib v (bstr ''%a, %d %b %Y %H:%M:%S %Z'') of Some t \<Rightarrow> Some t | None \<Rightarrow>
      (case kl_strptime lib v (bstr ''%A, %d-%b-%y %H:%M:%S %Z'') of Some t \<Rightarrow> Some t | None \<Rightarrow>
      (case kl_strptime lib v (bstr ''%a, %d-%b-%Y %H:%M:%S %Z'') of Some t \<Rightarrow> Some t | None \<Rightarrow>
       kl_strptime lib v (bstr ''%a %b %d %H:%M:%S %Y''))))"

definition parse_same_site :: "bytes \<Rightarrow> same_site option" where
  "parse_same_site v =
     (if eq_ignore_ascii_case v (bstr ''strict'') then Some SsStrict
      else if eq_ignore_ascii_case v (bstr ''lax'') then Some SsLax
      else None)"

text \<open>
  One attribute. What differs between the parser on slices and one on texts is how a part is stored: the argument
  \<open>store\<close>.
\<close>

definition attr_parts :: "slice \<Rightarrow> slice \<times> slice option" where
  "attr_parts attr =
     (case slice_find 0x3D attr of
        Some (k, v) \<Rightarrow> (slice_trim k, Some (slice_trim v))
      | None \<Rightarrow> (slice_trim attr, None))"

definition strip_dot :: "slice \<Rightarrow> slice" where
  "strip_dot d = (if snd d \<noteq> [] \<and> hd (snd d) = 0x2E then (fst d + 1, tl (snd d)) else d)"

definition cookie_attr :: "('t, 'd) cookie_lib \<Rightarrow> slice \<Rightarrow> slice \<Rightarrow> ('t, 'd) cookie \<Rightarrow> ('t, 'd) cookie exec" where
  "cookie_attr lib s attr c =
     (let (k, v) = attr_parts attr; key = to_ascii_lowercase (snd k)
      in if key = bstr ''secure'' then Return (c\<lparr>ck_secure := Some True\<rparr>)
         else if key = bstr ''httponly'' then Return (c\<lparr>ck_http_only := Some True\<rparr>)
         else (case v of
                 None \<Rightarrow> Return c
               | Some v \<Rightarrow>
                   if key = bstr ''max-age'' then
                     (case parse_i64 (snd v) of
                        None \<Rightarrow> Return c
                      | Some val \<Rightarrow> exec_bind (max_age_of lib val) (\<lambda>d. Return (c\<lparr>ck_max_age := Some d\<rparr>)))
                   else if key = bstr ''domain'' \<and> snd v \<noteq> [] then
                     exec_bind (indexed (strip_dot v) s) (\<lambda>x. Return (c\<lparr>ck_domain := Some x\<rparr>))
                   else if key = bstr ''path'' then
                     exec_bind (indexed v s) (\<lambda>x. Return (c\<lparr>ck_path := Some x\<rparr>))
                   else if key = bstr ''samesite'' then
                     Return (case parse_same_site (snd v) of Some ss \<Rightarrow> c\<lparr>ck_same_site := Some ss\<rparr> | None \<Rightarrow> c)
                   else if key = bstr ''expires'' then
                     Return (case parse_expires lib (snd v) of Some t \<Rightarrow> c\<lparr>ck_expires := Some t\<rparr> | None \<Rightarrow> c)
                   else Return c))"

fun cookie_attrs :: "('t, 'd) cookie_lib \<Rightarrow> slice \<Rightarrow> slice list \<Rightarrow> ('t, 'd) cookie \<Rightarrow> ('t, 'd) cookie exec" where
  "cookie_attrs lib s [] c = Return c"
| "cookie_attrs lib s (attr # attrs) c = exec_bind (cookie_attr lib s attr c) (cookie_attrs lib s attrs)"

text \<open>The name and the value as they are stored.\<close>

definition cookie_pair ::
  "('t, 'd) cookie_lib \<Rightarrow> slice \<Rightarrow> bool \<Rightarrow> slice \<Rightarrow> slice \<Rightarrow> (cookie_str \<times> cookie_str, cookie_parse_error) result exec" where
  "cookie_pair lib s decode name val =
     (if decode then Return (name_val_decoded lib (snd name) (snd val))
      else exec_bind (indexed name s) (\<lambda>n. exec_bind (indexed val s) (\<lambda>v. Return (Ok (n, v)))))"

definition cookie_parse_inner ::
  "('t, 'd) cookie_lib \<Rightarrow> slice \<Rightarrow> bool \<Rightarrow> (('t, 'd) cookie, cookie_parse_error) result exec" where
  "cookie_parse_inner lib s decode =
     (case slice_split 0x3B s of
        [] \<Rightarrow> Panic
      | key_value # attributes \<Rightarrow>
          (case slice_find 0x3D key_value of
             None \<Rightarrow> Return (Err MissingPair)
           | Some (k, v) \<Rightarrow>
               (let name = slice_trim k; val = slice_trim v
                in if snd name = [] then Return (Err EmptyName)
                   else exec_bind (cookie_pair lib s decode name val) (\<lambda>r.
                     case r of
                       Err e \<Rightarrow> Return (Err e)
                     | Ok (n, w) \<Rightarrow>
                         exec_bind (cookie_attrs lib s attributes (cookie_new [] [] \<lparr>ck_name := n, ck_value := w\<rparr>))
                           (\<lambda>c. Return (Ok c))))))"

text \<open>The text lies at an address.\<close>

definition parse_cookie :: "('t, 'd) cookie_lib \<Rightarrow> nat \<Rightarrow> cow \<Rightarrow> bool \<Rightarrow> (('t, 'd) cookie, cookie_parse_error) result exec" where
  "parse_cookie lib addr s decode =
     exec_bind (cookie_parse_inner lib (addr, cow_text s) decode) (\<lambda>r.
       Return (case r of Err e \<Rightarrow> Err e | Ok c \<Rightarrow> Ok (c\<lparr>ck_string := Some s\<rparr>)))"

definition cookie_parse :: "('t, 'd) cookie_lib \<Rightarrow> nat \<Rightarrow> cow \<Rightarrow> (('t, 'd) cookie, cookie_parse_error) result exec" where
  "cookie_parse lib addr s = parse_cookie lib addr s False"

definition cookie_parse_encoded :: "('t, 'd) cookie_lib \<Rightarrow> nat \<Rightarrow> cow \<Rightarrow> (('t, 'd) cookie, cookie_parse_error) result exec" where
  "cookie_parse_encoded lib addr s = parse_cookie lib addr s True"

definition cookie_from_str :: "('t, 'd) cookie_lib \<Rightarrow> nat \<Rightarrow> bytes \<Rightarrow> (('t, 'd) cookie, cookie_parse_error) result exec" where
  "cookie_from_str lib addr s =
     exec_bind (cookie_parse lib addr (CowBorrowed s)) (\<lambda>r.
       Return (case r of Err e \<Rightarrow> Err e | Ok c \<Rightarrow> Ok (cookie_into_owned c)))"

section \<open>A parser on plain texts\<close>

text \<open>The specification: the same grammar over texts without addresses.\<close>

definition utrim :: "bytes \<Rightarrow> bytes" where
  "utrim s = trim_end (trim_start s)"

definition text_max_age :: "('t, 'd) cookie_lib \<Rightarrow> int \<Rightarrow> 'd" where
  "text_max_age lib val = (case max_age_of lib val of Return d \<Rightarrow> d | Panic \<Rightarrow> kl_zero lib)"

definition text_parts :: "bytes \<Rightarrow> bytes \<times> bytes option" where
  "text_parts attr = (case split_in_two attr 0x3D of Some (k, v) \<Rightarrow> (utrim k, Some (utrim v)) | None \<Rightarrow> (utrim attr, None))"

definition text_attr :: "('t, 'd) cookie_lib \<Rightarrow> bytes \<Rightarrow> ('t, 'd) cookie \<Rightarrow> ('t, 'd) cookie" where
  "text_attr lib attr c =
     (let (k, v) = text_parts attr; key = to_ascii_lowercase k
      in if key = bstr ''secure'' then set_secure True c
         else if key = bstr ''httponly'' then set_http_only True c
         else (case v of
                 None \<Rightarrow> c
               | Some v \<Rightarrow>
                   if key = bstr ''max-age'' then
                     (case parse_i64 v of None \<Rightarrow> c | Some val \<Rightarrow> set_max_age (text_max_age lib val) c)
                   else if key = bstr ''domain'' \<and> v \<noteq> [] then set_domain (if hd v = 0x2E then tl v else v) c
                   else if key = bstr ''path'' then set_path v c
                   else if key = bstr ''samesite'' then
                     (case parse_same_site v of Some ss \<Rightarrow> set_same_site ss c | None \<Rightarrow> c)
                   else if key = bstr ''expires'' then
                     (case parse_expires lib v of Some t \<Rightarrow> set_expires t c | None \<Rightarrow> c)
                   else c))"

definition text_pair :: "('t, 'd) cookie_lib \<Rightarrow> bool \<Rightarrow> bytes \<Rightarrow> bytes \<Rightarrow> (bytes \<times> bytes, cookie_parse_error) result" where
  "text_pair lib decode n v =
     (if \<not> decode then Ok (n, v)
      else if valid_utf8 (kl_percent_decode lib n) \<and> valid_utf8 (kl_percent_decode lib v)
           then Ok (kl_percent_decode lib n, kl_percent_decode lib v)
           else Err CookieUtf8Error)"

definition text_parse :: "('t, 'd) cookie_lib \<Rightarrow> bool \<Rightarrow> bytes \<Rightarrow> (('t, 'd) cookie, cookie_parse_error) result" where
  "text_parse lib decode s =
     (let parts = split_on 0x3B s
      in case split_in_two (hd parts) 0x3D of
           None \<Rightarrow> Err MissingPair
         | Some (k, v) \<Rightarrow>
             if utrim k = [] then Err EmptyName
             else (case text_pair lib decode (utrim k) (utrim v) of
                     Err e \<Rightarrow> Err e
                   | Ok (n, w) \<Rightarrow> Ok (fold (text_attr lib) (tl parts) (cookie_new n w))))"

section \<open>The parser on slices implements it\<close>

text \<open>What the documentation of \<open>chrono\<close> says: a count of seconds from zero to that of the greatest duration is in bounds.\<close>

definition duration_ok :: "('t, 'd) cookie_lib \<Rightarrow> bool" where
  "duration_ok lib \<longleftrightarrow>
     kl_num_seconds lib (kl_zero lib) = 0 \<and> 0 \<le> kl_num_seconds lib (kl_max_value lib) \<and>
     (\<forall>n. 0 \<le> n \<and> n \<le> kl_num_seconds lib (kl_max_value lib) \<longrightarrow> (\<exists>d. kl_seconds lib n = Return d \<and> kl_num_seconds lib d = n))"

lemma snd_slice_trim [simp]: "snd (slice_trim sl) = utrim (snd sl)"
  by (simp add: slice_trim_def utrim_def case_prod_beta Let_def trim_end_id ws_back_def)

lemma snd_attr_parts: "attr_parts attr = (k, v) \<Longrightarrow> text_parts (snd attr) = (snd k, map_option snd v)"
  by (auto simp: attr_parts_def text_parts_def slice_find_def split: option.splits)

lemma attr_parts_in:
  assumes "attr_parts attr = (k, v)" and "slice_in s attr"
  shows "case v of None \<Rightarrow> True | Some w \<Rightarrow> slice_in s w"
proof (cases "slice_find 0x3D attr")
  case (Some kv)
  then obtain a b where ab: "slice_find 0x3D attr = Some (a, b)" "v = Some (slice_trim b)"
    using assms(1) by (cases kv) (auto simp: attr_parts_def)
  have "slice_in attr b" using slice_find_in(2) [OF ab(1)] slice_in_valid [OF assms(2)] by simp
  then show ?thesis using slice_trim_in [of b] slice_in_valid [of attr b] assms(2) ab(2) by (auto intro: slice_in_trans)
qed (use assms(1) in \<open>auto simp: attr_parts_def\<close>)

lemma strip_dot_in: "slice_in s d \<Longrightarrow> slice_in s (strip_dot d)"
proof -
  assume d: "slice_in s d"
  show ?thesis
  proof (cases "snd d \<noteq> [] \<and> hd (snd d) = 0x2E")
    case True
    then obtain t where t: "snd d = 0x2E # t" by (cases "snd d") auto
    then have "slice_in d (strip_dot d)" unfolding slice_in_def
      using slice_in_valid [OF d] by (intro exI [of _ "[0x2E]"] exI [of _ "[]"]) (simp add: strip_dot_def)
    with d show ?thesis by (rule slice_in_trans)
  qed (use d in \<open>auto simp: strip_dot_def\<close>)
qed

text \<open>A slice of the text is found, and reading it back gives its bytes.\<close>

lemma indexed_in:
  assumes "slice_in (addr, cow_text s) sl"
  shows "\<exists>x. indexed sl (addr, cow_text s) = Return x \<and> to_str x (Some s) = Return (snd sl)"
proof -
  obtain pre post where p: "cow_text s = pre @ snd sl @ post" "fst sl = addr + length pre"
      "valid_utf8 pre" "valid_utf8 (snd sl)" "valid_utf8 post"
    using assms by (auto simp: slice_in_def)
  have bound: "char_boundary (a @ b) (length a)" if "valid_utf8 b" for a b :: bytes
    using that valid_utf8_hd by (cases b) (auto simp: char_boundary_def nth_append)
  have "char_boundary (cow_text s) (length pre)"
    using bound [of "snd sl @ post" pre] p valid_utf8_append by simp
  moreover have "char_boundary (cow_text s) (length pre + length (snd sl))"
    using bound [of post "pre @ snd sl"] p by simp
  ultimately have "str_slice (cow_text s) (length pre) (length pre + length (snd sl)) = Return (snd sl)"
    using p(1) by (simp add: str_slice_def)
  with p show ?thesis by (simp add: indexed_def indexes_of_def Let_def)
qed

text \<open>A cookie with the texts that its accessors return.\<close>

definition shown :: "('t, 'd) cookie \<Rightarrow> ('t, 'd) cookie exec" where
  "shown c =
     exec_bind (cookie_name c) (\<lambda>n. exec_bind (cookie_value c) (\<lambda>v. exec_bind (cookie_path c) (\<lambda>p. exec_bind (cookie_domain c) (\<lambda>d.
       Return (c\<lparr>ck_string := None, ck_name := Concrete n, ck_value := Concrete v,
         ck_path := map_option Concrete p, ck_domain := map_option Concrete d\<rparr>)))))"

lemmas shown_defs = shown_def cookie_name_def cookie_value_def cookie_path_def cookie_domain_def
lemmas setter_defs = set_name_def set_value_def set_http_only_def set_secure_def set_same_site_def set_max_age_def
  set_path_def set_domain_def set_expires_def

lemma max_age_returns:
  assumes "duration_ok lib"
  shows "max_age_of lib val = Return (text_max_age lib val)"
proof (cases "val \<le> 0")
  case False
  then have "\<exists>d. kl_seconds lib (min val (kl_num_seconds lib (kl_max_value lib))) = Return d"
    using assms unfolding duration_ok_def by (metis min.cobounded2 min_def nle_le)
  with False show ?thesis by (auto simp: text_max_age_def max_age_of_def)
qed (simp add: text_max_age_def max_age_of_def)

text \<open>One attribute, then all, then the whole text.\<close>

lemma shown_update:
  assumes "shown (c\<lparr>ck_string := Some s\<rparr>) = Return t"
  shows "shown (c\<lparr>ck_secure := b, ck_string := Some s\<rparr>) = Return (t\<lparr>ck_secure := b\<rparr>)"
    and "shown (c\<lparr>ck_http_only := b, ck_string := Some s\<rparr>) = Return (t\<lparr>ck_http_only := b\<rparr>)"
    and "shown (c\<lparr>ck_max_age := d, ck_string := Some s\<rparr>) = Return (t\<lparr>ck_max_age := d\<rparr>)"
    and "shown (c\<lparr>ck_same_site := ss, ck_string := Some s\<rparr>) = Return (t\<lparr>ck_same_site := ss\<rparr>)"
    and "shown (c\<lparr>ck_expires := e, ck_string := Some s\<rparr>) = Return (t\<lparr>ck_expires := e\<rparr>)"
  using assms by (auto simp: shown_defs exec_bind_Return)

lemma shown_update_text:
  assumes "shown (c\<lparr>ck_string := Some s\<rparr>) = Return t" and "to_str x (Some s) = Return b"
  shows "shown (c\<lparr>ck_path := Some x, ck_string := Some s\<rparr>) = Return (t\<lparr>ck_path := Some (Concrete b)\<rparr>)"
    and "shown (c\<lparr>ck_domain := Some x, ck_string := Some s\<rparr>) = Return (t\<lparr>ck_domain := Some (Concrete b)\<rparr>)"
  using assms by (auto simp: shown_defs exec_bind_Return)

lemma cookie_attr_shown:
  assumes "slice_in (addr, cow_text s) attr" and "duration_ok lib" and "shown (c\<lparr>ck_string := Some s\<rparr>) = Return t"
  shows "\<exists>c'. cookie_attr lib (addr, cow_text s) attr c = Return c' \<and>
    shown (c'\<lparr>ck_string := Some s\<rparr>) = Return (text_attr lib (snd attr) t)"
proof -
  obtain k v where kv: "attr_parts attr = (k, v)" by (cases "attr_parts attr")
  note tp = snd_attr_parts [OF kv]
  show ?thesis
  proof (cases v)
    case None
    then show ?thesis using assms(3) kv tp
      by (simp add: cookie_attr_def text_attr_def Let_def setter_defs shown_update)
  next
    case (Some w)
    have w: "slice_in (addr, cow_text s) w" using attr_parts_in [OF kv assms(1)] Some by simp
    obtain x where x: "indexed w (addr, cow_text s) = Return x" "to_str x (Some s) = Return (snd w)" using indexed_in [OF w] by blast
    obtain y where y: "indexed (strip_dot w) (addr, cow_text s) = Return y" "to_str y (Some s) = Return (snd (strip_dot w))"
      using indexed_in [OF strip_dot_in [OF w]] by blast
    have d: "snd (strip_dot w) = (if hd (snd w) = 0x2E then tl (snd w) else snd w)" if "snd w \<noteq> []" using that by (simp add: strip_dot_def)
    note upd = shown_update [OF assms(3)] shown_update_text [OF assms(3) x(2)] shown_update_text [OF assms(3) y(2)]
    let ?key = "to_ascii_lowercase (snd k)"
    note defs = cookie_attr_def text_attr_def Let_def kv tp Some setter_defs upd
    consider "?key = bstr ''secure''" | "?key = bstr ''httponly''" | "?key = bstr ''max-age''" | "?key = bstr ''domain''"
      | "?key = bstr ''path''" | "?key = bstr ''samesite''" | "?key = bstr ''expires''"
      | "?key \<notin> {bstr ''secure'', bstr ''httponly'', bstr ''max-age'', bstr ''domain'', bstr ''path'', bstr ''samesite'', bstr ''expires''}"
      by blast
    then show ?thesis
    proof cases
      case 3
      then show ?thesis using assms(3)
        by (cases "parse_i64 (snd w)") (simp_all add: defs max_age_returns [OF assms(2)])
    next
      case 4
      then show ?thesis using assms(3) d by (cases "snd w = []") (simp_all add: defs y(1))
    next
      case 6
      then show ?thesis using assms(3) by (cases "parse_same_site (snd w)") (simp_all add: defs)
    next
      case 7
      then show ?thesis using assms(3) by (cases "parse_expires lib (snd w)") (simp_all add: defs)
    next
      case 8
      then show ?thesis using assms(3) by (simp add: defs del: bstr_Cons)
    qed (simp_all add: defs x(1))
  qed
qed

lemma cookie_attrs_shown:
  assumes "duration_ok lib"
  shows "list_all (slice_in (addr, cow_text s)) attrs \<Longrightarrow> shown (c\<lparr>ck_string := Some s\<rparr>) = Return t \<Longrightarrow>
    \<exists>c'. cookie_attrs lib (addr, cow_text s) attrs c = Return c' \<and>
      shown (c'\<lparr>ck_string := Some s\<rparr>) = Return (fold (text_attr lib) (map snd attrs) t)"
proof (induction attrs arbitrary: c t)
  case (Cons a attrs)
  then obtain c1 where "cookie_attr lib (addr, cow_text s) a c = Return c1"
      "shown (c1\<lparr>ck_string := Some s\<rparr>) = Return (text_attr lib (snd a) t)"
    using cookie_attr_shown [OF _ assms, of addr s a c t] by auto
  with Cons.IH [of c1] Cons.prems show ?case by simp
qed simp

lemma snd_slice_split: "map snd (slice_split c sl) = split_on c (snd sl)"
proof (induction c sl rule: slice_split.induct)
  case (1 c sl)
  show ?case
  proof (cases "split_in_two (snd sl) c")
    case None
    then have "c \<notin> set (snd sl)" by (simp add: split_in_two_def split: if_splits)
    with None show ?thesis by (simp add: slice_split.simps [of c sl] slice_find_def split_on_no)
  next
    case (Some ab)
    then obtain a b where ab: "split_in_two (snd sl) c = Some (a, b)" by (cases ab) simp
    then have f: "slice_find c sl = Some ((fst sl, a), (fst sl + length a + 1, b))" by (simp add: slice_find_def)
    from split_in_two_Some [OF ab] have "split_on c (snd sl) = a # split_on c b" using split_on_append by simp
    with "1.IH" [OF f refl] show ?thesis by (simp add: slice_split.simps [of c sl] f)
  qed
qed

lemma parse_cookie_eq:
  assumes "valid_utf8 (cow_text s)" and "duration_ok lib"
  shows "exec_bind (parse_cookie lib addr s decode)
      (\<lambda>r. case r of Err e \<Rightarrow> Return (Err e) | Ok c \<Rightarrow> exec_bind (shown c) (\<lambda>t. Return (Ok t))) =
    Return (text_parse lib decode (cow_text s))"
proof -
  let ?s = "(addr, cow_text s)"
  obtain kv attrs where sp: "slice_split 0x3B ?s = kv # attrs" using slice_split_not_Nil by (cases "slice_split 0x3B ?s") auto
  then have inn: "slice_in ?s kv" "list_all (slice_in ?s) attrs"
    using slice_split_in [of ?s "0x3B"] assms(1) by (auto simp: list_all_iff)
  have parts: "split_on 0x3B (cow_text s) = snd kv # map snd attrs" using snd_slice_split [of "0x3B" ?s] sp by simp
  show ?thesis
  proof (cases "slice_find 0x3D kv")
    case None
    then have "split_in_two (snd kv) 0x3D = None" by (simp add: slice_find_def split: option.splits prod.splits)
    with None show ?thesis by (simp add: parse_cookie_def cookie_parse_inner_def text_parse_def sp parts)
  next
    case (Some kvs)
    then obtain k v where f: "slice_find 0x3D kv = Some (k, v)" by (cases kvs) simp
    then have f2: "split_in_two (snd kv) 0x3D = Some (snd k, snd v)" by (auto simp: slice_find_def split: option.splits)
    have "slice_in kv k" "slice_in kv v" using slice_find_in [OF f _ slice_in_valid [OF inn(1)]] by simp_all
    then have "slice_in ?s (slice_trim k)" "slice_in ?s (slice_trim v)"
      by (metis slice_in_trans slice_trim_in slice_in_valid inn(1))+
    from indexed_in [OF this(1)] indexed_in [OF this(2)] obtain x y where
      x: "indexed (slice_trim k) ?s = Return x" "to_str x (Some s) = Return (utrim (snd k))" and
      y: "indexed (slice_trim v) ?s = Return y" "to_str y (Some s) = Return (utrim (snd v))" by auto
    have attrs: "exec_bind (cookie_attrs lib ?s attrs (cookie_new [] [] \<lparr>ck_name := a, ck_value := b\<rparr>)) (\<lambda>c. shown (c\<lparr>ck_string := Some s\<rparr>)) =
        Return (fold (text_attr lib) (map snd attrs) (cookie_new n w))"
      if "to_str a (Some s) = Return n" "to_str b (Some s) = Return w" for a b n w
    proof -
      have "shown (cookie_new [] [] \<lparr>ck_name := a, ck_value := b, ck_string := Some s\<rparr>) = Return (cookie_new n w)"
        using that by (simp add: shown_defs cookie_new_def)
      from cookie_attrs_shown [OF assms(2) inn(2) this] show ?thesis by auto
    qed
    have run: "exec_bind (parse_cookie lib addr s decode) (\<lambda>r. case r of Err e \<Rightarrow> Return (Err e) | Ok c \<Rightarrow> exec_bind (shown c) (\<lambda>t. Return (Ok t))) =
        Return (Ok (fold (text_attr lib) (map snd attrs) (cookie_new n w)))"
      if "cookie_pair lib ?s decode (slice_trim k) (slice_trim v) = Return (Ok (a, b))" "to_str a (Some s) = Return n"
        "to_str b (Some s) = Return w" "utrim (snd k) \<noteq> []" for a b n w
      using that(1,4) attrs [OF that(2,3)] f sp
      by (cases "cookie_attrs lib ?s attrs (cookie_new [] [] \<lparr>ck_name := a, ck_value := b\<rparr>)")
         (simp_all add: parse_cookie_def cookie_parse_inner_def Let_def)
    show ?thesis
    proof (cases "utrim (snd k) = []")
      case True
      then show ?thesis using f f2 by (simp add: parse_cookie_def cookie_parse_inner_def text_parse_def sp parts Let_def)
    next
      case name: False
      show ?thesis
      proof (cases decode)
        case False
        then have "cookie_pair lib ?s decode (slice_trim k) (slice_trim v) = Return (Ok (x, y))" by (simp add: cookie_pair_def x y)
        from run [OF this x(2) y(2) name] show ?thesis using False name f2 by (simp add: text_parse_def parts text_pair_def)
      next
        case True
        let ?n = "kl_percent_decode lib (utrim (snd k))" and ?w = "kl_percent_decode lib (utrim (snd v))"
        show ?thesis
        proof (cases "valid_utf8 ?n \<and> valid_utf8 ?w")
          case v: True
          then have "cookie_pair lib ?s decode (slice_trim k) (slice_trim v) = Return (Ok (Concrete ?n, Concrete ?w))"
            using True by (simp add: cookie_pair_def name_val_decoded_def decode_utf8_def)
          from run [OF this _ _ name] show ?thesis using True v name f2 by (simp add: text_parse_def parts text_pair_def)
        next
          case bad: False
          then show ?thesis using True name f f2
            by (auto simp: parse_cookie_def cookie_parse_inner_def text_parse_def sp parts text_pair_def cookie_pair_def
                name_val_decoded_def decode_utf8_def Let_def)
        qed
      qed
    qed
  qed
qed

text \<open>
  Property C31. Parsing never panics on a string, whatever it holds, nor do the accessors of the cookie it yields; they return what the
  parser on plain texts puts into the cookie, wherever the text lies in memory.
\<close>

theorem cookie_parse_refines:
  assumes "valid_utf8 (cow_text s)" and "duration_ok lib"
  shows "exec_bind (parse_cookie lib addr s decode)
      (\<lambda>r. case r of Err e \<Rightarrow> Return (Err e) | Ok c \<Rightarrow> exec_bind (shown c) (\<lambda>t. Return (Ok t))) =
    Return (text_parse lib decode (cow_text s))"
  by (rule parse_cookie_eq [OF assms])

section \<open>Printing and parsing\<close>

fun conc :: "cookie_str \<Rightarrow> bytes" where
  "conc (Concrete b) = b"
| "conc (Indexed i j) = []"

text \<open>The attributes as they are written.\<close>

definition attr_texts :: "('t, 'd) cookie_lib \<Rightarrow> ('t, 'd) cookie \<Rightarrow> bytes list" where
  "attr_texts lib t =
     (if ck_http_only t = Some True then [bstr ''HttpOnly''] else []) @
     (if ck_secure t = Some True then [bstr ''Secure''] else []) @
     (case ck_same_site t of Some ss \<Rightarrow> if ss_is_none ss then [] else [bstr ''SameSite='' @ same_site_fmt ss] | None \<Rightarrow> []) @
     (case ck_path t of Some p \<Rightarrow> [bstr ''Path='' @ conc p] | None \<Rightarrow> []) @
     (case ck_domain t of Some d \<Rightarrow> [bstr ''Domain='' @ conc d] | None \<Rightarrow> []) @
     (case ck_max_age t of Some m \<Rightarrow> [bstr ''Max-Age='' @ fmt_i64 (kl_num_seconds lib m)] | None \<Rightarrow> []) @
     (case ck_expires t of Some e \<Rightarrow> [bstr ''Expires='' @ kl_rfc822 lib e] | None \<Rightarrow> [])"

definition join_attrs :: "bytes list \<Rightarrow> bytes" where
  "join_attrs as = concat (map (\<lambda>a. bstr ''; '' @ a) as)"

lemma join_attrs_simps [simp]: "join_attrs [] = []" "join_attrs (a # as) = bstr ''; '' @ a @ join_attrs as"
  "join_attrs (as @ bs) = join_attrs as @ join_attrs bs"
  by (simp_all add: join_attrs_def)

lemma fmt_parameters_shown: "shown c = Return t \<Longrightarrow> fmt_parameters lib c = Return (join_attrs (attr_texts lib t))"
proof -
  assume "shown c = Return t"
  then obtain n v p d where c: "cookie_path c = Return p" "cookie_domain c = Return d"
      and t: "t = c\<lparr>ck_string := None, ck_name := Concrete n, ck_value := Concrete v, ck_path := map_option Concrete p, ck_domain := map_option Concrete d\<rparr>"
    by (auto simp: shown_def exec_bind_Return)
  show ?thesis
    by (simp add: fmt_parameters_def attr_texts_def c t option.case_distrib [of join_attrs] if_distrib [of join_attrs] case_map_option comp_def
        cong: option.case_cong) (simp split: option.split)
qed

lemma cookie_fmt_shown:
  "shown c = Return t \<Longrightarrow> cookie_fmt lib c = Return (conc (ck_name t) @ [0x3D] @ conc (ck_value t) @ join_attrs (attr_texts lib t))"
  "shown c = Return t \<Longrightarrow> encoded_fmt lib c = Return (kl_percent_encode lib USERINFO (conc (ck_name t)) @ [0x3D] @
     kl_percent_encode lib USERINFO (conc (ck_value t)) @ join_attrs (attr_texts lib t))"
  using fmt_parameters_shown [of c t lib]
  by (auto simp: shown_def exec_bind_Return cookie_fmt_def encoded_fmt_def)

text \<open>A text that can stand for a part of a cookie.\<close>

definition part_good :: "bytes \<Rightarrow> bool" where
  "part_good v \<longleftrightarrow> (v = [] \<or> tidy v) \<and> 0x3B \<notin> set v"

lemma utrim_tidy: "tidy s \<Longrightarrow> utrim s = s" "tidy s \<Longrightarrow> utrim (0x20 # s) = s"
  using trim_start_tidy [of s "[]"] trim_end_tidy [of s "[]"] by (simp_all add: utrim_def trim_start_space)

lemma utrim_Nil [simp]: "utrim [] = []"
  by (simp add: utrim_def trim_end_id ws_back_def)

lemma utrim_part: "part_good v \<Longrightarrow> utrim v = v"
  by (auto simp: part_good_def utrim_tidy)

lemma text_parts_pair:
  assumes "tidy k" and "0x3D \<notin> set k" and "part_good v"
  shows "text_parts (0x20 # k @ 0x3D # v) = (k, Some v)"
  using split_in_two_append [of "0x3D" "0x20 # k" v] assms utrim_tidy(2) [OF assms(1)] utrim_part [OF assms(3)]
  by (simp add: text_parts_def)

lemma attr_keys:
  "tidy (bstr ''SameSite'')" "tidy (bstr ''Path'')" "tidy (bstr ''Domain'')" "tidy (bstr ''Max-Age'')" "tidy (bstr ''Expires'')"
  "tidy (bstr ''HttpOnly'')" "tidy (bstr ''Secure'')"
  by (simp_all add: tidy_def plain_byte_def is_ws_def)

lemma lower_keys:
  "to_ascii_lowercase (bstr ''SameSite'') = bstr ''samesite''" "to_ascii_lowercase (bstr ''Path'') = bstr ''path''"
  "to_ascii_lowercase (bstr ''Domain'') = bstr ''domain''" "to_ascii_lowercase (bstr ''Max-Age'') = bstr ''max-age''"
  "to_ascii_lowercase (bstr ''Expires'') = bstr ''expires''" "to_ascii_lowercase (bstr ''HttpOnly'') = bstr ''httponly''"
  "to_ascii_lowercase (bstr ''Secure'') = bstr ''secure''"
  by (simp_all add: to_ascii_lowercase_def to_lower_def)

lemma text_attr_flags:
  "text_attr lib (0x20 # bstr ''HttpOnly'') c = set_http_only True c"
  "text_attr lib (0x20 # bstr ''Secure'') c = set_secure True c"
proof -
  have "text_parts (0x20 # bstr ''HttpOnly'') = (bstr ''HttpOnly'', None)" "text_parts (0x20 # bstr ''Secure'') = (bstr ''Secure'', None)"
    using utrim_tidy(2) [OF attr_keys(6)] utrim_tidy(2) [OF attr_keys(7)] by (simp_all add: text_parts_def)
  then show "text_attr lib (0x20 # bstr ''HttpOnly'') c = set_http_only True c"
      "text_attr lib (0x20 # bstr ''Secure'') c = set_secure True c"
    unfolding text_attr_def by (simp_all only: lower_keys Let_def prod.case) simp_all
qed

lemma text_attr_pairs:
  assumes "part_good v"
  shows "text_attr lib (0x20 # bstr ''SameSite'' @ 0x3D # v) c = (case parse_same_site v of Some ss \<Rightarrow> set_same_site ss c | None \<Rightarrow> c)"
    and "text_attr lib (0x20 # bstr ''Path'' @ 0x3D # v) c = set_path v c"
    and "v \<noteq> [] \<Longrightarrow> hd v \<noteq> 0x2E \<Longrightarrow> text_attr lib (0x20 # bstr ''Domain'' @ 0x3D # v) c = set_domain v c"
    and "text_attr lib (0x20 # bstr ''Max-Age'' @ 0x3D # v) c = (case parse_i64 v of None \<Rightarrow> c | Some val \<Rightarrow> set_max_age (text_max_age lib val) c)"
    and "text_attr lib (0x20 # bstr ''Expires'' @ 0x3D # v) c = (case parse_expires lib v of Some t \<Rightarrow> set_expires t c | None \<Rightarrow> c)"
proof -
  note p = attr_keys(1-5) [THEN text_parts_pair, OF _ assms]
  show "text_attr lib (0x20 # bstr ''SameSite'' @ 0x3D # v) c = (case parse_same_site v of Some ss \<Rightarrow> set_same_site ss c | None \<Rightarrow> c)"
    unfolding text_attr_def by (subst p(1)) (simp_all only: lower_keys Let_def prod.case, simp_all)
  show "text_attr lib (0x20 # bstr ''Path'' @ 0x3D # v) c = set_path v c"
    unfolding text_attr_def by (subst p(2)) (simp_all only: lower_keys Let_def prod.case, simp_all)
  show "text_attr lib (0x20 # bstr ''Domain'' @ 0x3D # v) c = set_domain v c" if "v \<noteq> []" "hd v \<noteq> 0x2E"
    unfolding text_attr_def by (subst p(3)) (simp_all only: lower_keys Let_def prod.case, simp_all add: that)
  show "text_attr lib (0x20 # bstr ''Max-Age'' @ 0x3D # v) c = (case parse_i64 v of None \<Rightarrow> c | Some val \<Rightarrow> set_max_age (text_max_age lib val) c)"
    unfolding text_attr_def by (subst p(4)) (simp_all only: lower_keys Let_def prod.case, simp_all)
  show "text_attr lib (0x20 # bstr ''Expires'' @ 0x3D # v) c = (case parse_expires lib v of Some t \<Rightarrow> set_expires t c | None \<Rightarrow> c)"
    unfolding text_attr_def by (subst p(5)) (simp_all only: lower_keys Let_def prod.case, simp_all)
qed

lemma digits_part: "part_good (dec n)"
proof -
  have b: "plain_byte b \<and> b \<noteq> 0x3B" if m: "b \<in> set (dec n)" for b
  proof -
    obtain d where d: "d < 10" "b = digit d" using dec_digits [OF m] by blast
    with unat_digit [of d] show ?thesis by (auto simp: plain_byte_def is_ws_def word_less_nat_alt word_le_nat_alt dest: arg_cong [of _ _ unat])
  qed
  then show ?thesis by (auto simp: part_good_def tidy_def)
qed

lemma i64_text: "0 \<le> n \<Longrightarrow> n < 2 ^ 63 \<Longrightarrow> fmt_i64 n = dec (nat n) \<and> parse_i64 (dec (nat n)) = Some n"
proof -
  assume n: "0 \<le> n" "n < 2 ^ 63"
  obtain b bs where d: "dec (nat n) = b # bs" by (cases "dec (nat n)") auto
  then obtain k where "k < 10" "b = digit k" using dec_digits [of b "nat n"] by auto
  then have "b \<noteq> 0x2B" "b \<noteq> 0x2D" using unat_digit [of k] by (auto dest: arg_cong [of _ _ unat])
  with d n parse_digits_dec [of "nat n"] show ?thesis by (simp add: fmt_i64_def parse_i64_def nat_less_iff)
qed

definition params_printable :: "('t, 'd) cookie_lib \<Rightarrow> ('t, 'd) cookie \<Rightarrow> bool" where
  "params_printable lib t \<longleftrightarrow>
     ck_http_only t \<noteq> Some False \<and> ck_secure t \<noteq> Some False \<and>
     pred_option (\<lambda>p. part_good (conc p)) (ck_path t) \<and>
     pred_option (\<lambda>d. part_good (conc d) \<and> conc d \<noteq> [] \<and> hd (conc d) \<noteq> 0x2E) (ck_domain t) \<and>
     pred_option (\<lambda>m. 0 \<le> kl_num_seconds lib m \<and> kl_num_seconds lib m < 2 ^ 63 \<and>
       text_max_age lib (kl_num_seconds lib m) = m) (ck_max_age t) \<and>
     pred_option (\<lambda>e. part_good (kl_rfc822 lib e) \<and> parse_expires lib (kl_rfc822 lib e) = Some e) (ck_expires t)"

definition kept_same_site :: "same_site option \<Rightarrow> same_site option" where
  "kept_same_site s = (if s = Some SsNone then None else s)"

lemma split_join:
  "list_all (\<lambda>a. 0x3B \<notin> set a) as \<Longrightarrow> 0x3B \<notin> set p \<Longrightarrow> split_on 0x3B (p @ join_attrs as) = p # map ((#) 0x20) as"
proof (induction as arbitrary: p)
  case (Cons a as)
  have "split_on 0x3B ((0x20 # a) @ join_attrs as) = (0x20 # a) # map ((#) 0x20) as" using Cons by (intro Cons.IH) auto
  moreover have "p @ join_attrs (a # as) = p @ 0x3B # ((0x20 # a) @ join_attrs as)" by simp
  ultimately show ?case using split_on_append [OF Cons.prems(2)] by (simp only: list.map)
qed (simp add: split_on_no)

lemma attr_texts_plain: "params_printable lib t \<Longrightarrow> list_all (\<lambda>a. 0x3B \<notin> set a) (attr_texts lib t)"
proof -
  assume p: "params_printable lib t"
  have "0x3B \<notin> set (fmt_i64 (kl_num_seconds lib m))" if "ck_max_age t = Some m" for m
    using p that i64_text [of "kl_num_seconds lib m"] digits_part by (simp add: params_printable_def part_good_def)
  with p show ?thesis
    by (cases "ck_same_site t"; cases "the (ck_same_site t)")
       (auto simp: attr_texts_def params_printable_def part_good_def split: option.splits)
qed

text \<open>The effect of the attributes on a cookie that has none.\<close>

lemma fold_attr_parts:
  assumes "params_printable lib t"
  shows "ck_http_only c = None \<Longrightarrow> fold (text_attr lib) (map ((#) 0x20) (if ck_http_only t = Some True then [bstr ''HttpOnly''] else [])) c =
      c\<lparr>ck_http_only := ck_http_only t\<rparr>"
    and "ck_secure c = None \<Longrightarrow> fold (text_attr lib) (map ((#) 0x20) (if ck_secure t = Some True then [bstr ''Secure''] else [])) c =
      c\<lparr>ck_secure := ck_secure t\<rparr>"
    and "ck_same_site c = None \<Longrightarrow> fold (text_attr lib) (map ((#) 0x20)
      (case ck_same_site t of Some ss \<Rightarrow> if ss_is_none ss then [] else [bstr ''SameSite='' @ same_site_fmt ss] | None \<Rightarrow> [])) c =
      c\<lparr>ck_same_site := kept_same_site (ck_same_site t)\<rparr>"
    and "ck_path c = None \<Longrightarrow> fold (text_attr lib) (map ((#) 0x20) (case ck_path t of Some p \<Rightarrow> [bstr ''Path='' @ conc p] | None \<Rightarrow> [])) c =
      c\<lparr>ck_path := map_option (\<lambda>p. Concrete (conc p)) (ck_path t)\<rparr>"
    and "ck_domain c = None \<Longrightarrow> fold (text_attr lib) (map ((#) 0x20) (case ck_domain t of Some p \<Rightarrow> [bstr ''Domain='' @ conc p] | None \<Rightarrow> [])) c =
      c\<lparr>ck_domain := map_option (\<lambda>p. Concrete (conc p)) (ck_domain t)\<rparr>"
    and "ck_max_age c = None \<Longrightarrow> fold (text_attr lib) (map ((#) 0x20)
      (case ck_max_age t of Some m \<Rightarrow> [bstr ''Max-Age='' @ fmt_i64 (kl_num_seconds lib m)] | None \<Rightarrow> [])) c = c\<lparr>ck_max_age := ck_max_age t\<rparr>"
    and "ck_expires c = None \<Longrightarrow> fold (text_attr lib) (map ((#) 0x20)
      (case ck_expires t of Some e \<Rightarrow> [bstr ''Expires='' @ kl_rfc822 lib e] | None \<Rightarrow> [])) c = c\<lparr>ck_expires := ck_expires t\<rparr>"
proof -
  note p = assms [unfolded params_printable_def]
  have keep: "ck_http_only c = None \<Longrightarrow> c\<lparr>ck_http_only := None\<rparr> = c" "ck_secure c = None \<Longrightarrow> c\<lparr>ck_secure := None\<rparr> = c"
    "ck_same_site c = None \<Longrightarrow> c\<lparr>ck_same_site := None\<rparr> = c" "ck_path c = None \<Longrightarrow> c\<lparr>ck_path := None\<rparr> = c"
    "ck_domain c = None \<Longrightarrow> c\<lparr>ck_domain := None\<rparr> = c" "ck_max_age c = None \<Longrightarrow> c\<lparr>ck_max_age := None\<rparr> = c"
    "ck_expires c = None \<Longrightarrow> c\<lparr>ck_expires := None\<rparr> = c" by (cases c; simp)+
  show "fold (text_attr lib) (map ((#) 0x20) (if ck_http_only t = Some True then [bstr ''HttpOnly''] else [])) c =
      c\<lparr>ck_http_only := ck_http_only t\<rparr>" if "ck_http_only c = None"
    using p keep(1) that text_attr_flags [of lib c] by (cases "ck_http_only t"; cases "the (ck_http_only t)") (simp_all add: setter_defs del: bstr_Cons)
  show "fold (text_attr lib) (map ((#) 0x20) (if ck_secure t = Some True then [bstr ''Secure''] else [])) c =
      c\<lparr>ck_secure := ck_secure t\<rparr>" if "ck_secure c = None"
    using p keep(2) that text_attr_flags [of lib c] by (cases "ck_secure t"; cases "the (ck_secure t)") (simp_all add: setter_defs del: bstr_Cons)
  have ss: "part_good (same_site_fmt x) \<and> (x \<noteq> SsNone \<longrightarrow> parse_same_site (same_site_fmt x) = Some x)" for x
    by (cases x) (simp_all add: part_good_def tidy_def plain_byte_def is_ws_def parse_same_site_def eq_ignore_ascii_case_def
        to_ascii_lowercase_def to_lower_def)
  show "fold (text_attr lib) (map ((#) 0x20)
      (case ck_same_site t of Some ss \<Rightarrow> if ss_is_none ss then [] else [bstr ''SameSite='' @ same_site_fmt ss] | None \<Rightarrow> [])) c =
      c\<lparr>ck_same_site := kept_same_site (ck_same_site t)\<rparr>" if "ck_same_site c = None"
    using keep(3) that text_attr_pairs(1) [of "same_site_fmt SsStrict" lib c] text_attr_pairs(1) [of "same_site_fmt SsLax" lib c]
      ss [of SsStrict] ss [of SsLax]
    by (cases "ck_same_site t"; cases "the (ck_same_site t)") (simp_all add: kept_same_site_def setter_defs)
  show "fold (text_attr lib) (map ((#) 0x20) (case ck_path t of Some p \<Rightarrow> [bstr ''Path='' @ conc p] | None \<Rightarrow> [])) c =
      c\<lparr>ck_path := map_option (\<lambda>p. Concrete (conc p)) (ck_path t)\<rparr>" if "ck_path c = None"
    using p keep(4) that text_attr_pairs(2) [of "conc (the (ck_path t))" lib c] by (cases "ck_path t") (simp_all add: setter_defs)
  show "fold (text_attr lib) (map ((#) 0x20) (case ck_domain t of Some p \<Rightarrow> [bstr ''Domain='' @ conc p] | None \<Rightarrow> [])) c =
      c\<lparr>ck_domain := map_option (\<lambda>p. Concrete (conc p)) (ck_domain t)\<rparr>" if "ck_domain c = None"
    using p keep(5) that text_attr_pairs(3) [of "conc (the (ck_domain t))" lib c] by (cases "ck_domain t") (simp_all add: setter_defs)
  show "fold (text_attr lib) (map ((#) 0x20)
      (case ck_max_age t of Some m \<Rightarrow> [bstr ''Max-Age='' @ fmt_i64 (kl_num_seconds lib m)] | None \<Rightarrow> [])) c = c\<lparr>ck_max_age := ck_max_age t\<rparr>"
    if "ck_max_age c = None"
    using p keep(6) that text_attr_pairs(4) [OF digits_part, of lib "nat (kl_num_seconds lib (the (ck_max_age t)))" c]
      i64_text [of "kl_num_seconds lib (the (ck_max_age t))"]
    by (cases "ck_max_age t") (simp_all add: setter_defs)
  show "fold (text_attr lib) (map ((#) 0x20)
      (case ck_expires t of Some e \<Rightarrow> [bstr ''Expires='' @ kl_rfc822 lib e] | None \<Rightarrow> [])) c = c\<lparr>ck_expires := ck_expires t\<rparr>"
    if "ck_expires c = None"
    using p keep(7) that text_attr_pairs(5) [of "kl_rfc822 lib (the (ck_expires t))" lib c] by (cases "ck_expires t") (simp_all add: setter_defs)
qed

text \<open>The whole text of a cookie.\<close>

lemma text_parse_pair:
  assumes "tidy n" and "0x3D \<notin> set n" and "0x3B \<notin> set n" and "part_good v" and "params_printable lib t"
  shows "text_parse lib decode (n @ [0x3D] @ v @ join_attrs (attr_texts lib t)) =
    (case text_pair lib decode n v of
       Err e \<Rightarrow> Err e
     | Ok (a, b) \<Rightarrow> Ok (t\<lparr>ck_string := None, ck_name := Concrete a, ck_value := Concrete b,
         ck_same_site := kept_same_site (ck_same_site t), ck_path := map_option (\<lambda>p. Concrete (conc p)) (ck_path t),
         ck_domain := map_option (\<lambda>p. Concrete (conc p)) (ck_domain t)\<rparr>))"
proof -
  have "split_on 0x3B ((n @ 0x3D # v) @ join_attrs (attr_texts lib t)) = (n @ 0x3D # v) # map ((#) 0x20) (attr_texts lib t)"
    by (rule split_join [OF attr_texts_plain [OF assms(5)]]) (use assms in \<open>auto simp: part_good_def\<close>)
  then have sp: "split_on 0x3B (n @ [0x3D] @ v @ join_attrs (attr_texts lib t)) = (n @ 0x3D # v) # map ((#) 0x20) (attr_texts lib t)"
    by simp
  have "fold (text_attr lib) (map ((#) 0x20) (attr_texts lib t)) (cookie_new a b) =
      t\<lparr>ck_string := None, ck_name := Concrete a, ck_value := Concrete b,
        ck_same_site := kept_same_site (ck_same_site t), ck_path := map_option (\<lambda>p. Concrete (conc p)) (ck_path t),
        ck_domain := map_option (\<lambda>p. Concrete (conc p)) (ck_domain t)\<rparr>" for a b
    unfolding attr_texts_def map_append fold_append comp_def cookie_new_def
    by (simp add: fold_attr_parts [OF assms(5)] del: bstr_Cons list.map)
  then show ?thesis
    using assms utrim_tidy(1) [OF assms(1)] utrim_part [OF assms(4)]
    unfolding text_parse_def sp by (auto simp: tidy_def split: result.splits)
qed

text \<open>Reading the parts of a cookie that is shown as another.\<close>

lemma shown_parts:
  assumes "shown c = Return t"
  shows "cookie_name c = Return (conc (ck_name t))" and "cookie_value c = Return (conc (ck_value t))"
    and "cookie_path c = Return (map_option conc (ck_path t))" and "cookie_domain c = Return (map_option conc (ck_domain t))"
    and "ck_http_only t = ck_http_only c" and "ck_secure t = ck_secure c" and "ck_max_age t = ck_max_age c"
    and "ck_expires t = ck_expires c" and "ck_same_site t = ck_same_site c"
    and "t\<lparr>ck_string := None, ck_name := Concrete (conc (ck_name t)), ck_value := Concrete (conc (ck_value t)),
      ck_path := map_option (\<lambda>p. Concrete (conc p)) (ck_path t), ck_domain := map_option (\<lambda>p. Concrete (conc p)) (ck_domain t)\<rparr> = t"
  using assms by (auto simp: shown_def exec_bind_Return option.map_comp comp_def option.map_id0 [unfolded id_def])

lemma shown_same_site:
  assumes "shown c = Return t"
  shows "t\<lparr>ck_string := None, ck_name := Concrete (conc (ck_name t)), ck_value := Concrete (conc (ck_value t)), ck_same_site := s,
      ck_path := map_option (\<lambda>p. Concrete (conc p)) (ck_path t), ck_domain := map_option (\<lambda>p. Concrete (conc p)) (ck_domain t)\<rparr> =
    t\<lparr>ck_same_site := s\<rparr>"
  using shown_parts(10) [OF assms] by (cases t) simp

lemma same_text_refl [simp]: "same_text a a"
  by (cases a) simp_all

lemma shown_eq:
  assumes "shown c = Return t" and "shown c' = Return (t\<lparr>ck_same_site := s\<rparr>)"
  shows "cookie_eq c' c = Return True"
  using shown_parts [OF assms(1)] shown_parts [OF assms(2)] by (simp add: cookie_eq_def)

lemma parsed_cookie:
  assumes "valid_utf8 out" and "duration_ok lib" and "text_parse lib decode out = Ok t"
  shows "\<exists>c. parse_cookie lib addr (CowBorrowed out) decode = Return (Ok c) \<and> shown c = Return t"
proof -
  have "valid_utf8 (cow_text (CowBorrowed out))" using assms(1) by simp
  from parse_cookie_eq [OF this assms(2), of addr decode] assms(3) obtain r where
    "parse_cookie lib addr (CowBorrowed out) decode = Return r"
    "(case r of Err e \<Rightarrow> Return (Err e) | Ok c \<Rightarrow> exec_bind (shown c) (\<lambda>t. Return (Ok t))) = Return (Ok t)"
    by (auto simp: exec_bind_Return)
  then show ?thesis by (cases r) (auto simp: exec_bind_Return)
qed

text \<open>
  A cookie that is printed and parsed is again equal to itself, and its \<open>SameSite\<close> attribute is kept unless it is
  the explicit none.
\<close>

theorem cookie_roundtrip:
  assumes "shown c = Return t" and "tidy (conc (ck_name t))" and "0x3D \<notin> set (conc (ck_name t))" and "0x3B \<notin> set (conc (ck_name t))"
    and "part_good (conc (ck_value t))" and "params_printable lib t" and "duration_ok lib"
    and "cookie_fmt lib c = Return out" and "valid_utf8 out"
  shows "\<exists>c'. cookie_parse lib addr (CowBorrowed out) = Return (Ok c') \<and> cookie_eq c' c = Return True \<and>
    shown c' = Return (t\<lparr>ck_same_site := kept_same_site (ck_same_site t)\<rparr>)"
proof -
  have out: "out = conc (ck_name t) @ [0x3D] @ conc (ck_value t) @ join_attrs (attr_texts lib t)"
    using assms(8) cookie_fmt_shown(1) [OF assms(1), of lib] by simp
  let ?t = "t\<lparr>ck_string := None, ck_name := Concrete (conc (ck_name t)), ck_value := Concrete (conc (ck_value t)),
      ck_same_site := kept_same_site (ck_same_site t), ck_path := map_option (\<lambda>p. Concrete (conc p)) (ck_path t),
      ck_domain := map_option (\<lambda>p. Concrete (conc p)) (ck_domain t)\<rparr>"
  have "?t = t\<lparr>ck_same_site := kept_same_site (ck_same_site t)\<rparr>" by (rule shown_same_site [OF assms(1)])
  moreover have "text_parse lib False out = Ok ?t"
    unfolding out text_parse_pair [OF assms(2-6), of False] by (simp add: text_pair_def)
  ultimately have "text_parse lib False out = Ok (t\<lparr>ck_same_site := kept_same_site (ck_same_site t)\<rparr>)" by simp
  from parsed_cookie [OF assms(9,7) this] obtain c' where
    "parse_cookie lib addr (CowBorrowed out) False = Return (Ok c')" "shown c' = Return (t\<lparr>ck_same_site := kept_same_site (ck_same_site t)\<rparr>)"
    by blast
  with shown_eq [OF assms(1) this(2)] show ?thesis by (simp add: cookie_parse_def)
qed

section \<open>Percent encoding\<close>

text \<open>What \<open>percent_encoding\<close> documents, as reference definitions.\<close>

definition pct_encode :: "(byte \<Rightarrow> bool) \<Rightarrow> bytes \<Rightarrow> bytes" where
  "pct_encode enc s = concat (map (\<lambda>b. if enc b \<or> \<not> b < 0x80 then pct_byte b else [b]) s)"

definition pct_hex :: "byte \<Rightarrow> nat option" where
  "pct_hex b =
     (if 0x30 \<le> b \<and> b \<le> 0x39 then Some (unat b - 48)
      else if 0x41 \<le> b \<and> b \<le> 0x46 then Some (unat b - 55)
      else if 0x61 \<le> b \<and> b \<le> 0x66 then Some (unat b - 87)
      else None)"

fun pct_decode :: "bytes \<Rightarrow> bytes" where
  "pct_decode (b # h # l # r) =
     (case (pct_hex h, pct_hex l) of
        (Some x, Some y) \<Rightarrow> if b = 0x25 then of_nat (16 * x + y) # pct_decode r else b # pct_decode (h # l # r)
      | _ \<Rightarrow> b # pct_decode (h # l # r))"
| "pct_decode s = s"

definition percent_ok :: "('t, 'd) cookie_lib \<Rightarrow> bool" where
  "percent_ok lib \<longleftrightarrow> (\<forall>s. kl_percent_encode lib USERINFO s = pct_encode USERINFO s) \<and> (\<forall>s. kl_percent_decode lib s = pct_decode s)"

lemma pct_decode_plain: "b \<noteq> 0x25 \<Longrightarrow> pct_decode (b # r) = b # pct_decode r"
  by (cases r rule: pct_decode.cases) (auto split: option.splits)

lemma pct_hex_digit: "d < 16 \<Longrightarrow> pct_hex (hex_digit_upper d) = Some d"
proof -
  assume d: "d < 16"
  show ?thesis
  proof (cases "d < 10")
    case True
    then have "unat (hex_digit_upper d) = d + 48" by (simp add: hex_digit_upper_def unat_word_ariths unat_of_nat)
    with True show ?thesis by (simp add: pct_hex_def word_le_nat_alt)
  next
    case False
    with d have "unat (hex_digit_upper d) = d + 55" by (simp add: hex_digit_upper_def unat_word_ariths unat_of_nat)
    with False d show ?thesis by (simp add: pct_hex_def word_le_nat_alt)
  qed
qed

lemma pct_decode_byte: "pct_decode (pct_byte b @ r) = b # pct_decode r"
proof -
  have "unat b div 16 < 16" "unat b mod 16 < 16"
    using unsigned_less [of b, where 'a = nat] by (simp_all add: less_mult_imp_div_less)
  then show ?thesis by (simp add: pct_byte_def pct_hex_digit)
qed

lemma pct_decode_encode:
  "0x25 \<notin> set s \<Longrightarrow> pct_decode (pct_encode enc s @ r) = s @ pct_decode r"
  by (induction s) (auto simp: pct_encode_def pct_decode_byte pct_decode_plain)

lemma pct_encode_roundtrip: "0x25 \<notin> set s \<Longrightarrow> pct_decode (pct_encode enc s) = s"
  using pct_decode_encode [of s enc "[]"] by simp

text \<open>An encoded text has no white space, semicolon or equals sign.\<close>

lemma pct_byte_bytes: "c \<in> set (pct_byte b) \<Longrightarrow> plain_byte c \<and> c \<noteq> 0x3B \<and> c \<noteq> 0x3D"
proof -
  assume c: "c \<in> set (pct_byte b)"
  have lt: "unat b div 16 < 16" "unat b mod 16 < 16"
    using unsigned_less [of b, where 'a = nat] by (simp_all add: less_mult_imp_div_less)
  have "hex_or_percent 0x25" by (simp add: hex_or_percent_def)
  then have "hex_or_percent c"
    using c hex_digit_upper_value [OF lt(1)] hex_digit_upper_value [OF lt(2)] by (auto simp: pct_byte_def)
  then show ?thesis by (auto simp: hex_or_percent_def plain_byte_def is_ws_def word_le_nat_alt word_less_nat_alt)
qed

lemma pct_encode_bytes: "c \<in> set (pct_encode USERINFO s) \<Longrightarrow> plain_byte c \<and> c \<noteq> 0x3B \<and> c \<noteq> 0x3D"
proof -
  assume "c \<in> set (pct_encode USERINFO s)"
  then consider b where "c \<in> set (pct_byte b)" | "\<not> USERINFO c" "c < 0x80"
    by (auto simp: pct_encode_def split: if_splits)
  then show ?thesis
  proof cases
    case 2
    then show ?thesis
      by (auto simp: USERINFO_def PATH_def FRAGMENT_def plain_byte_def is_ws_def word_le_nat_alt word_less_nat_alt)
  qed (rule pct_byte_bytes)
qed

lemma pct_encode_Nil: "pct_encode enc s = [] \<longleftrightarrow> s = []"
  by (cases s) (auto simp: pct_encode_def pct_byte_def)

lemma pct_encode_part: "part_good (pct_encode USERINFO s)"
  using pct_encode_bytes [of _ s] by (auto simp: part_good_def tidy_def)

lemma pct_encode_tidy: "s \<noteq> [] \<Longrightarrow> tidy (pct_encode USERINFO s)"
  using pct_encode_bytes [of _ s] by (simp add: tidy_def pct_encode_Nil)

lemma encoded_text:
  assumes "shown c = Return t" and "conc (ck_name t) \<noteq> []" and "params_printable lib t" and "duration_ok lib" and "percent_ok lib"
    and "encoded_fmt lib c = Return out" and "valid_utf8 out"
    and "pct_decode (pct_encode USERINFO (conc (ck_name t))) = n" and "pct_decode (pct_encode USERINFO (conc (ck_value t))) = v"
    and "valid_utf8 n" and "valid_utf8 v"
  shows "\<exists>c'. cookie_parse_encoded lib addr (CowBorrowed out) = Return (Ok c') \<and>
    shown c' = Return (t\<lparr>ck_name := Concrete n, ck_value := Concrete v, ck_same_site := kept_same_site (ck_same_site t)\<rparr>)"
proof -
  let ?n = "pct_encode USERINFO (conc (ck_name t))" and ?v = "pct_encode USERINFO (conc (ck_value t))"
  have out: "out = ?n @ [0x3D] @ ?v @ join_attrs (attr_texts lib t)"
    using assms(5,6) cookie_fmt_shown(2) [OF assms(1), of lib] by (simp add: percent_ok_def)
  have "text_pair lib True ?n ?v = Ok (n, v)" using assms(5,8-11) by (simp add: text_pair_def percent_ok_def)
  moreover have "0x3D \<notin> set ?n" "0x3B \<notin> set ?n" using pct_encode_bytes by blast+
  ultimately have "text_parse lib True out = Ok (t\<lparr>ck_string := None, ck_name := Concrete n, ck_value := Concrete v,
      ck_same_site := kept_same_site (ck_same_site t), ck_path := map_option (\<lambda>p. Concrete (conc p)) (ck_path t),
      ck_domain := map_option (\<lambda>p. Concrete (conc p)) (ck_domain t)\<rparr>)"
    using text_parse_pair [OF pct_encode_tidy [OF assms(2)] _ _ pct_encode_part assms(3), of True] unfolding out by simp
  also have "t\<lparr>ck_string := None, ck_name := Concrete n, ck_value := Concrete v,
      ck_same_site := kept_same_site (ck_same_site t), ck_path := map_option (\<lambda>p. Concrete (conc p)) (ck_path t),
      ck_domain := map_option (\<lambda>p. Concrete (conc p)) (ck_domain t)\<rparr> =
      t\<lparr>ck_name := Concrete n, ck_value := Concrete v, ck_same_site := kept_same_site (ck_same_site t)\<rparr>"
    using shown_same_site [OF assms(1)] by (cases t) simp
  finally show ?thesis using parsed_cookie [OF assms(7,4)] by (simp add: cookie_parse_encoded_def)
qed


text \<open>
  The percent sign itself is not encoded: a value with a percent sign before two hexadecimal digits of an ASCII
  character comes back with that character in place of the three.
\<close>

theorem percent_sign_decoded:
  assumes "shown c = Return t" and "conc (ck_name t) \<noteq> []" and "params_printable lib t" and "duration_ok lib" and "percent_ok lib"
    and "encoded_fmt lib c = Return out" and "valid_utf8 out" and "0x25 \<notin> set (conc (ck_name t))" and "valid_utf8 (conc (ck_name t))"
    and "conc (ck_value t) = a @ [0x25, x, y] @ b" and "valid_utf8 (a @ [0x25, x, y] @ b)"
    and "0x25 \<notin> set a" and "0x25 \<notin> set b" and "pct_hex x = Some i" and "pct_hex y = Some j" and "i < 8"
  shows "\<exists>c'. cookie_parse_encoded lib addr (CowBorrowed out) = Return (Ok c') \<and>
    cookie_value c = Return (a @ [0x25, x, y] @ b) \<and> cookie_value c' = Return (a @ [of_nat (16 * i + j)] @ b)"
proof -
  have hex: "\<not> USERINFO h \<and> h < 0x80 \<and> k < 16" if "pct_hex h = Some k" for h k
    using that by (auto simp: pct_hex_def USERINFO_def PATH_def FRAGMENT_def word_le_nat_alt word_less_nat_alt split: if_splits)
  have "\<not> USERINFO 0x25" by (simp add: USERINFO_def PATH_def FRAGMENT_def)
  then have e: "pct_encode USERINFO (a @ [0x25, x, y] @ b) = pct_encode USERINFO a @ [0x25, x, y] @ pct_encode USERINFO b"
    using hex [OF assms(14)] hex [OF assms(15)] by (simp add: pct_encode_def)
  have d: "pct_decode (pct_encode USERINFO (conc (ck_value t))) = a @ [of_nat (16 * i + j)] @ b"
    using pct_decode_encode [OF assms(12)] pct_encode_roundtrip [OF assms(13)] assms(14,15) unfolding assms(10) e by simp
  have "16 * i + j < 128" using assms(16) hex [OF assms(15)] by simp
  then have small: "(of_nat (16 * i + j) :: byte) < 0x80"
    by (simp add: word_less_nat_alt unat_of_nat del: of_nat_add of_nat_mult)
  have "valid_utf8 a" "valid_utf8 b"
    using valid_utf8_cut_at [of a "0x25" "x # y # b"] hex [OF assms(14)] hex [OF assms(15)] assms(11) by simp_all
  then have "valid_utf8 (a @ [of_nat (16 * i + j)] @ b)" using valid_utf8_append small by (simp del: of_nat_add of_nat_mult)
  from encoded_text [OF assms(1-7) pct_encode_roundtrip [OF assms(8)] d assms(9) this] obtain c' where
    c: "cookie_parse_encoded lib addr (CowBorrowed out) = Return (Ok c')"
    "shown c' = Return (t\<lparr>ck_name := Concrete (conc (ck_name t)), ck_value := Concrete (a @ [of_nat (16 * i + j)] @ b), ck_same_site := kept_same_site (ck_same_site t)\<rparr>)"
    by blast
  with shown_parts(2) [OF c(2)] shown_parts(2) [OF assms(1)] assms(10) show ?thesis by simp
qed

section \<open>Witnesses\<close>

text \<open>Times are texts and durations seconds.\<close>

definition demo_cookie_lib :: "(bytes, int) cookie_lib" where
  "demo_cookie_lib =
     \<lparr>kl_strptime = (\<lambda>s f. if s = [] then None else Some s), kl_rfc822 = id, kl_add_days = (\<lambda>t n. t),
      kl_seconds = (\<lambda>n. if \<bar>n\<bar> \<le> 9223372036854775 then Return n else Panic), kl_days = (\<lambda>n. Return (n * 86400)),
      kl_num_seconds = id, kl_zero = 0, kl_max_value = 9223372036854775,
      kl_percent_encode = pct_encode, kl_percent_decode = pct_decode\<rparr>"

definition demo_cookie :: "bytes \<Rightarrow> (bytes, int) cookie" where
  "demo_cookie v =
     \<lparr>ck_string = None, ck_name = Concrete (bstr ''foo''), ck_value = Concrete v, ck_expires = Some (bstr ''tomorrow''),
      ck_max_age = Some 60, ck_domain = Some (Concrete (bstr ''x.org'')), ck_path = Some (Concrete (bstr ''/'')),
      ck_secure = Some True, ck_http_only = Some True, ck_same_site = Some SsLax\<rparr>"

lemma demo_lib_ok: "duration_ok demo_cookie_lib" "percent_ok demo_cookie_lib"
  by (simp_all add: duration_ok_def percent_ok_def demo_cookie_lib_def)

lemma demo_shown: "shown (demo_cookie v) = Return (demo_cookie v)"
  by (simp add: shown_defs demo_cookie_def)

lemma demo_parts [simp]: "conc (ck_name (demo_cookie v)) = bstr ''foo''" "conc (ck_value (demo_cookie v)) = v"
  by (simp_all add: demo_cookie_def)

lemma demo_printable: "params_printable demo_cookie_lib (demo_cookie v)"
  by (simp add: params_printable_def demo_cookie_def demo_cookie_lib_def part_good_def tidy_def plain_byte_def is_ws_def
      text_max_age_def max_age_of_def parse_expires_def)

lemma demo_60: "fmt_i64 60 = bstr ''60''"
  by (simp add: fmt_i64_def dec.simps digit_def)

lemmas demo_fmt = attr_texts_def demo_cookie_def demo_cookie_lib_def demo_60

lemma cookie_parse_refines_witness:
  "exec_bind (parse_cookie demo_cookie_lib 7 (CowOwned (bstr ''a=b; Path=/'')) False)
     (\<lambda>r. case r of Err e \<Rightarrow> Return (Err e) | Ok c \<Rightarrow> exec_bind (shown c) (\<lambda>t. Return (Ok t))) =
   Return (text_parse demo_cookie_lib False (bstr ''a=b; Path=/''))"
  using cookie_parse_refines [of "CowOwned (bstr ''a=b; Path=/'')" demo_cookie_lib 7 False] demo_lib_ok(1) by simp

lemma cookie_roundtrip_witness:
  "\<exists>out c'. cookie_fmt demo_cookie_lib (demo_cookie (bstr ''bar'')) = Return out \<and>
     cookie_parse demo_cookie_lib 7 (CowBorrowed out) = Return (Ok c') \<and> cookie_eq c' (demo_cookie (bstr ''bar'')) = Return True"
proof -
  let ?out = "bstr ''foo=bar; HttpOnly; Secure; SameSite=Lax; Path=/; Domain=x.org; Max-Age=60; Expires=tomorrow''"
  have out: "cookie_fmt demo_cookie_lib (demo_cookie (bstr ''bar'')) = Return ?out"
    by (subst cookie_fmt_shown(1) [OF demo_shown]) (simp add: demo_fmt)
  have "\<exists>c'. cookie_parse demo_cookie_lib 7 (CowBorrowed ?out) = Return (Ok c') \<and> cookie_eq c' (demo_cookie (bstr ''bar'')) = Return True \<and>
      shown c' = Return (demo_cookie (bstr ''bar'')\<lparr>ck_same_site := kept_same_site (ck_same_site (demo_cookie (bstr ''bar'')))\<rparr>)"
    by (rule cookie_roundtrip [OF demo_shown _ _ _ _ demo_printable demo_lib_ok(1) out])
       (simp_all add: part_good_def tidy_def plain_byte_def is_ws_def)
  with out show ?thesis by blast
qed


lemma percent_sign_decoded_witness:
  "\<exists>out c'. encoded_fmt demo_cookie_lib (demo_cookie (bstr ''5%41'')) = Return out \<and>
     cookie_parse_encoded demo_cookie_lib 7 (CowBorrowed out) = Return (Ok c') \<and> cookie_value c' = Return (bstr ''5A'')"
proof -
  let ?out = "bstr ''foo=5%41; HttpOnly; Secure; SameSite=Lax; Path=/; Domain=x.org; Max-Age=60; Expires=tomorrow''"
  have out: "encoded_fmt demo_cookie_lib (demo_cookie (bstr ''5%41'')) = Return ?out"
    by (subst cookie_fmt_shown(2) [OF demo_shown]) (simp add: demo_fmt pct_encode_def USERINFO_def PATH_def FRAGMENT_def)
  have "\<exists>c'. cookie_parse_encoded demo_cookie_lib 7 (CowBorrowed ?out) = Return (Ok c') \<and>
      cookie_value (demo_cookie (bstr ''5%41'')) = Return ([0x35] @ [0x25, 0x34, 0x31] @ []) \<and>
      cookie_value c' = Return ([0x35] @ [of_nat (16 * 4 + 1)] @ [])"
    by (rule percent_sign_decoded [OF demo_shown _ demo_printable demo_lib_ok out]) (simp_all add: pct_hex_def)
  with out show ?thesis by auto
qed

end
