(* ===== verification/Http_Response.thy ===== *)
theory Http_Response
  imports Http_Body Message_Head Cookie_Jar Cookie_Parse
begin

text \<open>
  Responses (\<open>response.rs\<close>), the errors that become responses (the second half of \<open>error.rs\<close>) and the response builder. A
  head is taken from the pool, which is an argument; that it is clean there is a theorem of
  \<open>Message_Head\<close>. The conversions of names and values into headers belong to the crate \<open>http\<close>: their results are arguments.
\<close>

definition CONTENT_TYPE :: header_name where "CONTENT_TYPE = bstr ''content-type''"
definition SET_COOKIE :: header_name where "SET_COOKIE = bstr ''set-cookie''"

section \<open>Errors and responses\<close>

text \<open>
  An error is a boxed value that is printed and has a response: the default one, of a status and the text, or the one it
  holds in a cell. An error of the crate \<open>http\<close> is the text that it prints.
\<close>

type_synonym http_error = bytes

datatype 'm error =
    ErPlain status_code bytes
  | ErResponse bytes "(response_head \<times> ('m body, 'm) response_body \<times> 'm error option) option"

record ('b, 'm) response =
  re_head :: response_head
  re_body :: "('b, 'm) response_body"
  re_error :: "'m error option"

definition boxed_head :: "response_pool \<Rightarrow> status_code \<Rightarrow> response_head" where
  "boxed_head pool status = fst (rpool_get_message status pool)"

definition response_new :: "response_pool \<Rightarrow> status_code \<Rightarrow> ('m body, 'm) response" where
  "response_new pool status = \<lparr>re_head = boxed_head pool status, re_body = RbBody BodyEmpty, re_error = None\<rparr>"

definition with_body :: "response_pool \<Rightarrow> status_code \<Rightarrow> 'b \<Rightarrow> ('b, 'm) response" where
  "with_body pool status b = \<lparr>re_head = boxed_head pool status, re_body = RbBody b, re_error = None\<rparr>"

definition response_set_body :: "'c \<Rightarrow> ('b, 'm) response \<Rightarrow> ('c, 'm) response" where
  "response_set_body b r = \<lparr>re_head = re_head r, re_body = RbBody b, re_error = None\<rparr>"

definition response_into_body :: "('m body, 'm) response \<Rightarrow> ('b, 'm) response" where
  "response_into_body r = \<lparr>re_head = re_head r, re_body = into_body (re_body r), re_error = re_error r\<rparr>"

definition into_parts :: "('b, 'm) response \<Rightarrow> (unit, 'm) response \<times> ('b, 'm) response_body" where
  "into_parts r = (\<lparr>re_head = re_head r, re_body = RbBody (), re_error = re_error r\<rparr>, re_body r)"

definition drop_body :: "('b, 'm) response \<Rightarrow> (unit, 'm) response" where
  "drop_body r = \<lparr>re_head = re_head r, re_body = RbBody (), re_error = None\<rparr>"

definition replace_body :: "'c \<Rightarrow> ('b, 'm) response \<Rightarrow> ('c, 'm) response \<times> ('b, 'm) response_body" where
  "replace_body b r = (\<lparr>re_head = re_head r, re_body = RbBody b, re_error = re_error r\<rparr>, re_body r)"

definition map_body ::
  "(response_head \<Rightarrow> ('b, 'm) response_body \<Rightarrow> response_head \<times> ('c, 'm) response_body) \<Rightarrow> ('b, 'm) response \<Rightarrow> ('c, 'm) response" where
  "map_body f r = (let (h, b) = f (re_head r) (re_body r) in \<lparr>re_head = h, re_body = b, re_error = re_error r\<rparr>)"

definition response_take_body :: "('b, 'm) response \<Rightarrow> ('b, 'm) response_body \<times> ('b, 'm) response" where
  "response_take_body r = (let (b, rest) = take_body (re_body r) in (b, r\<lparr>re_body := rest\<rparr>))"

text \<open>\<open>ResponseError::error_response\<close> of the default implementation, and of an error; the cell is emptied.\<close>

definition plain_response :: "response_pool \<Rightarrow> status_code \<Rightarrow> bytes \<Rightarrow> ('m body, 'm) response" where
  "plain_response pool status display =
     (let r = response_new pool status;
          h = (re_head r)\<lparr>rs_headers := hm_insert (rs_headers (re_head r)) CONTENT_TYPE (bstr ''text/plain; charset=utf-8'')\<rparr>
      in response_set_body (BodyBytes display) (r\<lparr>re_head := h\<rparr>))"

fun error_response :: "response_pool \<Rightarrow> 'm error \<Rightarrow> ('m body, 'm) response \<times> 'm error" where
  "error_response pool (ErPlain status display) = (plain_response pool status display, ErPlain status display)"
| "error_response pool (ErResponse display (Some (h, b, e))) = (\<lparr>re_head = h, re_body = b, re_error = e\<rparr>, ErResponse display None)"
| "error_response pool (ErResponse display None) = (response_new pool INTERNAL_SERVER_ERROR, ErResponse display None)"

fun error_status :: "'m error \<Rightarrow> status_code" where
  "error_status (ErPlain status display) = status"
| "error_status (ErResponse display (Some (h, b, e))) = rs_status h"
| "error_status (ErResponse display None) = INTERNAL_SERVER_ERROR"

definition response_from_error :: "response_pool \<Rightarrow> 'm error \<Rightarrow> ('m body, 'm) response" where
  "response_from_error pool e = (let (r, e') = error_response pool e in r\<lparr>re_error := Some e'\<rparr>)"

text \<open>\<open>InternalError::new\<close>, \<open>InternalError::from_response\<close> and \<open>From<HttpError>\<close>.\<close>

definition internal_error_new :: "bytes \<Rightarrow> status_code \<Rightarrow> 'm error" where
  "internal_error_new cause status = ErPlain status cause"

definition internal_error_from_response :: "bytes \<Rightarrow> ('m body, 'm) response \<Rightarrow> 'm error" where
  "internal_error_from_response cause r = ErResponse cause (Some (re_head r, re_body r, re_error r))"

definition error_from_response :: "('m body, 'm) response \<Rightarrow> 'm error" where
  "error_from_response r = internal_error_from_response [] r"

definition error_from_http :: "http_error \<Rightarrow> 'm error" where
  "error_from_http e = ErPlain INTERNAL_SERVER_ERROR e"

section \<open>Cookies of a response\<close>

text \<open>Where the text of the \<open>n\<close>-th cookie lies.\<close>

record ('t, 'd) cookie_env =
  ce_http :: http_lib
  ce_lib :: "('t, 'd) cookie_lib"
  ce_addr :: "nat \<Rightarrow> nat"

record cookie_iter =
  ci_iter :: get_all_iter

definition response_cookies :: "http_lib \<Rightarrow> response_head \<Rightarrow> cookie_iter" where
  "response_cookies hl h = \<lparr>ci_iter = hm_get_all hl (rs_headers h) (ByName SET_COOKIE)\<rparr>"

lemma get_all_next_shorter: "get_all_next g = (Some v, g') \<Longrightarrow> length (ga_items g') < length (ga_items g)"
  using get_all_next_items [of g] by (cases "ga_items g") auto

text \<open>The loop of \<open>CookieIter::next\<close>; a value that is no text ends it.\<close>

function cookie_iter_next ::
  "('t, 'd) cookie_env \<Rightarrow> cookie_iter \<Rightarrow> (('t, 'd) cookie option \<times> cookie_iter) exec" where
  "cookie_iter_next env it =
     (case get_all_next (ci_iter it) of
        (None, g) \<Rightarrow> Return (None, it\<lparr>ci_iter := g\<rparr>)
      | (Some v, g) \<Rightarrow>
          (case hl_to_str (ce_http env) v of
             None \<Rightarrow> Return (None, it\<lparr>ci_iter := g\<rparr>)
           | Some s \<Rightarrow>
               (case cookie_parse_encoded (ce_lib env) (ce_addr env (ga_idx g)) (CowBorrowed s) of
                  Panic \<Rightarrow> Panic
                | Return (Ok c) \<Rightarrow> Return (Some c, it\<lparr>ci_iter := g\<rparr>)
                | Return (Err e) \<Rightarrow> cookie_iter_next env (it\<lparr>ci_iter := g\<rparr>))))"
  by pat_completeness auto
termination
  by (relation "measure (\<lambda>(env, it). length (ga_items (ci_iter it)))") (auto dest!: get_all_next_shorter [OF sym])

declare cookie_iter_next.simps [simp del]

text \<open>\<open>HeaderValue::from_str\<close> is the argument \<open>hv\<close>.\<close>

definition add_cookie ::
  "('t, 'd) cookie_lib \<Rightarrow> (bytes \<Rightarrow> (header_value, http_error) result) \<Rightarrow> ('t, 'd) cookie \<Rightarrow> ('b, 'm) response \<Rightarrow>
   ((unit, http_error) result \<times> ('b, 'm) response) exec" where
  "add_cookie lib hv c r =
     exec_bind (cookie_fmt lib c) (\<lambda>s.
       Return (case hv s of
         Err e \<Rightarrow> (Err e, r)
       | Ok v \<Rightarrow> (Ok (), r\<lparr>re_head := (re_head r)\<lparr>rs_headers := hm_append (rs_headers (re_head r)) SET_COOKIE v\<rparr>\<rparr>)))"

text \<open>Whether a \<open>Set-Cookie\<close> value is a cookie of the name.\<close>

definition names_cookie :: "('t, 'd) cookie_env \<Rightarrow> bytes \<Rightarrow> nat \<Rightarrow> header_value \<Rightarrow> bool exec" where
  "names_cookie env name i v =
     (case hl_to_str (ce_http env) v of
        None \<Rightarrow> Return False
      | Some s \<Rightarrow>
          exec_bind (cookie_parse_encoded (ce_lib env) (ce_addr env i) (CowBorrowed s)) (\<lambda>r.
            case r of Err e \<Rightarrow> Return False | Ok c \<Rightarrow> exec_bind (cookie_name c) (\<lambda>n. Return (n = name))))"

fun del_loop ::
  "('t, 'd) cookie_env \<Rightarrow> bytes \<Rightarrow> nat \<Rightarrow> header_value list \<Rightarrow> header_map \<Rightarrow> nat \<Rightarrow> (header_map \<times> nat) exec" where
  "del_loop env name i [] h cnt = Return (h, cnt)"
| "del_loop env name i (v # vs) h cnt =
     exec_bind (names_cookie env name i v) (\<lambda>hit.
       if hit then del_loop env name (Suc i) vs h (cnt + 1)
       else del_loop env name (Suc i) vs (hm_append h SET_COOKIE v) cnt)"

definition response_del_cookie ::
  "('t, 'd) cookie_env \<Rightarrow> bytes \<Rightarrow> ('b, 'm) response \<Rightarrow> (nat \<times> ('b, 'm) response) exec" where
  "response_del_cookie env name r =
     (let h = rs_headers (re_head r); vals = ga_list (hm_get_all (ce_http env) h (ByName SET_COOKIE));
          h = hm_remove (ce_http env) h (ByName SET_COOKIE)
      in exec_bind (del_loop env name 0 vals h 0) (\<lambda>(h, cnt).
           Return (cnt, r\<lparr>re_head := (re_head r)\<lparr>rs_headers := h\<rparr>\<rparr>)))"

section \<open>The builder\<close>

record ('t, 'd) response_builder =
  bu_head :: "response_head option"
  bu_err :: "http_error option"
  bu_cookies :: "('t, 'd) cookie_jar option"

definition bu_new :: "response_pool \<Rightarrow> status_code \<Rightarrow> ('t, 'd) response_builder" where
  "bu_new pool status = \<lparr>bu_head = Some (boxed_head pool status), bu_err = None, bu_cookies = None\<rparr>"

definition bu_parts :: "('t, 'd) response_builder \<Rightarrow> response_head option" where
  "bu_parts b = (if bu_err b \<noteq> None then None else bu_head b)"

text \<open>What the setters share: change the head when there are parts, or record an error.\<close>

definition bu_update :: "(response_head \<Rightarrow> (response_head, http_error) result) \<Rightarrow> ('t, 'd) response_builder \<Rightarrow> ('t, 'd) response_builder" where
  "bu_update f b =
     (case bu_parts b of
        None \<Rightarrow> b
      | Some h \<Rightarrow> (case f h of Ok h \<Rightarrow> b\<lparr>bu_head := Some h\<rparr> | Err e \<Rightarrow> b\<lparr>bu_err := Some e\<rparr>))"

definition bu_status :: "status_code \<Rightarrow> ('t, 'd) response_builder \<Rightarrow> ('t, 'd) response_builder" where
  "bu_status s = bu_update (\<lambda>h. Ok (h\<lparr>rs_status := s\<rparr>))"

definition bu_set :: "header_name \<Rightarrow> (header_value, http_error) result \<Rightarrow> ('t, 'd) response_builder \<Rightarrow> ('t, 'd) response_builder" where
  "bu_set name val = bu_update (\<lambda>h. case val of Ok v \<Rightarrow> Ok (h\<lparr>rs_headers := hm_append (rs_headers h) name v\<rparr>) | Err e \<Rightarrow> Err e)"

definition bu_header ::
  "(header_name, http_error) result \<Rightarrow> (header_value, http_error) result \<Rightarrow> ('t, 'd) response_builder \<Rightarrow> ('t, 'd) response_builder" where
  "bu_header key val = bu_update (\<lambda>h.
     case key of
       Ok k \<Rightarrow> (case val of Ok v \<Rightarrow> Ok (h\<lparr>rs_headers := hm_append (rs_headers h) k v\<rparr>) | Err e \<Rightarrow> Err e)
     | Err e \<Rightarrow> Err e)"

definition bu_set_header ::
  "(header_name, http_error) result \<Rightarrow> (header_value, http_error) result \<Rightarrow> ('t, 'd) response_builder \<Rightarrow> ('t, 'd) response_builder" where
  "bu_set_header key val = bu_update (\<lambda>h.
     case key of
       Ok k \<Rightarrow> (case val of Ok v \<Rightarrow> Ok (h\<lparr>rs_headers := hm_insert (rs_headers h) k v\<rparr>) | Err e \<Rightarrow> Err e)
     | Err e \<Rightarrow> Err e)"

definition bu_reason :: "bytes \<Rightarrow> ('t, 'd) response_builder \<Rightarrow> ('t, 'd) response_builder" where
  "bu_reason reason = bu_update (\<lambda>h. Ok (h\<lparr>rs_reason := Some reason\<rparr>))"

definition bu_keep_alive :: "('t, 'd) response_builder \<Rightarrow> ('t, 'd) response_builder" where
  "bu_keep_alive = bu_update (\<lambda>h. Ok (rs_set_connection_type CtKeepAlive h))"

definition bu_upgrade :: "(header_value, http_error) result \<Rightarrow> ('t, 'd) response_builder \<Rightarrow> ('t, 'd) response_builder" where
  "bu_upgrade val b = bu_set_header (Ok UPGRADE) val (bu_update (\<lambda>h. Ok (rs_set_connection_type CtUpgrade h)) b)"

definition bu_force_close :: "('t, 'd) response_builder \<Rightarrow> ('t, 'd) response_builder" where
  "bu_force_close = bu_update (\<lambda>h. Ok (rs_set_connection_type CtClose h))"

definition bu_no_chunking :: "('t, 'd) response_builder \<Rightarrow> ('t, 'd) response_builder" where
  "bu_no_chunking = bu_update (\<lambda>h. Ok (rs_no_chunking True h))"

definition bu_content_type :: "(header_value, http_error) result \<Rightarrow> ('t, 'd) response_builder \<Rightarrow> ('t, 'd) response_builder" where
  "bu_content_type val = bu_update (\<lambda>h.
     case val of Ok v \<Rightarrow> Ok (h\<lparr>rs_headers := hm_insert (rs_headers h) CONTENT_TYPE v\<rparr>) | Err e \<Rightarrow> Err e)"

text \<open>The length as a header value is its decimal text.\<close>

definition bu_content_length :: "u64 \<Rightarrow> ('t, 'd) response_builder \<Rightarrow> ('t, 'd) response_builder" where
  "bu_content_length len = bu_header (Ok CONTENT_LENGTH) (Ok (dec (unat len)))"

definition bu_cookie :: "('t, 'd) cookie \<Rightarrow> ('t, 'd) response_builder \<Rightarrow> ('t, 'd) response_builder exec" where
  "bu_cookie c b =
     exec_bind (jar_add (cookie_into_owned c) (case bu_cookies b of None \<Rightarrow> jar_new | Some j \<Rightarrow> j)) (\<lambda>j.
       Return (b\<lparr>bu_cookies := Some j\<rparr>))"

definition bu_del_cookie :: "('t, 'd) cookie_lib \<Rightarrow> 't \<Rightarrow> ('t, 'd) cookie \<Rightarrow> ('t, 'd) response_builder \<Rightarrow> ('t, 'd) response_builder exec" where
  "bu_del_cookie lib now c b =
     (let j = (case bu_cookies b of None \<Rightarrow> jar_new | Some j \<Rightarrow> j); c = cookie_into_owned c
      in exec_bind (jar_add_original c j) (\<lambda>j. exec_bind (jar_remove lib now c j) (\<lambda>j. Return (b\<lparr>bu_cookies := Some j\<rparr>))))"

definition bu_if_true :: "bool \<Rightarrow> (('t, 'd) response_builder \<Rightarrow> ('t, 'd) response_builder) \<Rightarrow> ('t, 'd) response_builder \<Rightarrow> ('t, 'd) response_builder" where
  "bu_if_true v f b = (if v then f b else b)"

definition bu_if_some :: "'a option \<Rightarrow> ('a \<Rightarrow> ('t, 'd) response_builder \<Rightarrow> ('t, 'd) response_builder) \<Rightarrow> ('t, 'd) response_builder \<Rightarrow> ('t, 'd) response_builder" where
  "bu_if_some v f b = (case v of Some x \<Rightarrow> f x b | None \<Rightarrow> b)"

definition bu_extensions :: "('t, 'd) response_builder \<Rightarrow> extensions exec" where
  "bu_extensions b = (case bu_head b of None \<Rightarrow> Panic | Some h \<Rightarrow> Return (rs_extensions h))"

text \<open>The cookies of the jar as \<open>Set-Cookie\<close> values, up to the first that is no header value.\<close>

fun write_cookies ::
  "('t, 'd) cookie_lib \<Rightarrow> (bytes \<Rightarrow> (header_value, http_error) result) \<Rightarrow> ('t, 'd) cookie list \<Rightarrow> header_map \<Rightarrow>
   (header_map, http_error) result exec" where
  "write_cookies lib hv [] h = Return (Ok h)"
| "write_cookies lib hv (c # cs) h =
     exec_bind (cookie_fmt lib c) (\<lambda>s.
       case hv s of Err e \<Rightarrow> Return (Err e) | Ok v \<Rightarrow> write_cookies lib hv cs (hm_append h SET_COOKIE v))"

definition bu_message_body ::
  "response_pool \<Rightarrow> ('t, 'd) cookie_lib \<Rightarrow> (bytes \<Rightarrow> (header_value, http_error) result) \<Rightarrow> 'b \<Rightarrow> ('t, 'd) response_builder \<Rightarrow>
   (('b, 'm) response \<times> ('t, 'd) response_builder) exec" where
  "bu_message_body pool lib hv b bu =
     (case bu_err bu of
        Some e \<Rightarrow> Return (response_into_body (response_from_error pool (error_from_http e)), bu\<lparr>bu_err := None\<rparr>)
      | None \<Rightarrow>
          (case bu_head bu of
             None \<Rightarrow> Panic
           | Some h \<Rightarrow>
               (let bu = bu\<lparr>bu_head := None\<rparr>
                in exec_bind
                     (case bu_cookies bu of
                        None \<Rightarrow> Return (Ok (rs_headers h))
                      | Some j \<Rightarrow> write_cookies lib hv (delta_all (jar_delta j)) (rs_headers h))
                     (\<lambda>r. Return (case r of
                        Err e \<Rightarrow> (response_into_body (response_from_error pool (error_from_http e)), bu)
                      | Ok hs \<Rightarrow> (\<lparr>re_head = h\<lparr>rs_headers := hs\<rparr>, re_body = RbBody b, re_error = None\<rparr>, bu))))))"

definition bu_finish ::
  "response_pool \<Rightarrow> ('t, 'd) cookie_lib \<Rightarrow> (bytes \<Rightarrow> (header_value, http_error) result) \<Rightarrow> ('t, 'd) response_builder \<Rightarrow>
   (('m body, 'm) response \<times> ('t, 'd) response_builder) exec" where
  "bu_finish pool lib hv = bu_message_body pool lib hv BodyEmpty"

text \<open>\<open>json2\<close> of a value that serialises to a text, or fails with an error that is printed.\<close>

definition bu_json2 ::
  "response_pool \<Rightarrow> ('t, 'd) cookie_lib \<Rightarrow> (bytes \<Rightarrow> (header_value, http_error) result) \<Rightarrow> http_lib \<Rightarrow> (bytes, bytes) result \<Rightarrow>
   ('t, 'd) response_builder \<Rightarrow> (('m body, 'm) response \<times> ('t, 'd) response_builder) exec" where
  "bu_json2 pool lib hv hl val b =
     (case val of
        Ok s \<Rightarrow>
          (let contains = (case bu_parts b of Some h \<Rightarrow> hm_contains_key hl (rs_headers h) (ByName CONTENT_TYPE) | None \<Rightarrow> True);
               b = (if \<not> contains then bu_header (Ok CONTENT_TYPE) (Ok (bstr ''application/json'')) b else b)
           in bu_message_body pool lib hv (BodyBytes s) b)
      | Err e \<Rightarrow> Return (response_from_error pool (ErPlain INTERNAL_SERVER_ERROR e), b))"

definition bu_take :: "('t, 'd) response_builder \<Rightarrow> ('t, 'd) response_builder \<times> ('t, 'd) response_builder" where
  "bu_take b = (b, \<lparr>bu_head = None, bu_err = None, bu_cookies = None\<rparr>)"

section \<open>Builders from responses\<close>

lemma cookie_iter_next_length:
  "cookie_iter_next env it = Return (Some c, it') \<Longrightarrow> length (ga_items (ci_iter it')) < length (ga_items (ci_iter it))"
proof (induction env it rule: cookie_iter_next.induct)
  case (1 env it)
  obtain x g where g: "get_all_next (ci_iter it) = (x, g)" by (cases "get_all_next (ci_iter it)")
  show ?case
  proof (cases x)
    case None
    with "1.prems" g show ?thesis by (simp add: cookie_iter_next.simps [of env it])
  next
    case (Some v)
    then have less: "length (ga_items g) < length (ga_items (ci_iter it))"
      using get_all_next_shorter g by simp
    show ?thesis
    proof (cases "hl_to_str (ce_http env) v")
      case None
      with "1.prems" g Some show ?thesis by (simp add: cookie_iter_next.simps [of env it])
    next
      case (Some s)
      note step = "1.prems" [unfolded cookie_iter_next.simps [of env it]]
      have "length (ga_items (ci_iter it')) < length (ga_items g)"
        if "cookie_parse_encoded (ce_lib env) (ce_addr env (ga_idx g)) (CowBorrowed s) = Return (Err e)" for e
        using "1.IH" [OF g [symmetric] \<open>x = Some v\<close> Some that refl] step that g \<open>x = Some v\<close> Some by simp
      with step g \<open>x = Some v\<close> Some less show ?thesis by (auto split: exec.splits result.splits)
    qed
  qed
qed

function load_jar ::
  "('t, 'd) cookie_env \<Rightarrow> cookie_iter \<Rightarrow> ('t, 'd) cookie_jar option \<Rightarrow> ('t, 'd) cookie_jar option exec" where
  "load_jar env it jar =
     (case cookie_iter_next env it of
        Panic \<Rightarrow> Panic
      | Return (None, it') \<Rightarrow> Return jar
      | Return (Some c, it') \<Rightarrow>
          (case jar_add_original (cookie_into_owned c) (case jar of Some j \<Rightarrow> j | None \<Rightarrow> jar_new) of
             Panic \<Rightarrow> Panic
           | Return j \<Rightarrow> load_jar env it' (Some j)))"
  by pat_completeness auto
termination
  by (relation "measure (\<lambda>(env, it, jar). length (ga_items (ci_iter it)))") (auto dest: cookie_iter_next_length)

declare load_jar.simps [simp del]

definition builder_from_response :: "('t, 'd) cookie_env \<Rightarrow> ('b, 'm) response \<Rightarrow> ('t, 'd) response_builder exec" where
  "builder_from_response env r =
     exec_bind (load_jar env (response_cookies (ce_http env) (re_head r)) None) (\<lambda>jar.
       Return \<lparr>bu_head = Some (re_head r), bu_err = None, bu_cookies = jar\<rparr>)"

text \<open>The headers in the order in which the iterator visits them.\<close>

definition builder_from_head ::
  "('t, 'd) cookie_env \<Rightarrow> response_pool \<Rightarrow> response_head \<Rightarrow> ('t, 'd) response_builder exec" where
  "builder_from_head env pool h =
     exec_bind (load_jar env (response_cookies (ce_http env) h) None) (\<lambda>jar.
       (let msg = (boxed_head pool (rs_status h))\<lparr>rs_version := rs_version h, rs_reason := rs_reason h\<rparr>;
            msg = msg\<lparr>rs_headers := foldl (\<lambda>m (k, v). hm_append m k v) (rs_headers msg)
              [(n, v). (n, hv) \<leftarrow> rs_headers h, v \<leftarrow> value_list hv]\<rparr>;
            msg = rs_no_chunking (\<not> rs_chunked h) msg
        in Return \<lparr>bu_head = Some msg, bu_err = None, bu_cookies = jar\<rparr>))"

section \<open>Properties of the builder\<close>

text \<open>After an error nothing is changed any more, whatever setters are called.\<close>

lemma bu_update_error: "bu_err b = Some e \<Longrightarrow> bu_update f b = b"
  by (simp add: bu_update_def bu_parts_def)

lemma fold_update_error: "bu_err b = Some e \<Longrightarrow> fold bu_update fs b = b"
  by (induction fs) (simp_all add: bu_update_error)

lemma bu_update_fields:
  "bu_cookies (bu_update f b) = bu_cookies b"
  by (simp add: bu_update_def split: option.splits result.splits)

text \<open>
  The first name or value that is no header decides the response: whatever is set before and after it, the builder answers
  with status 500 and the text of that error, and the head that was built is not sent.
\<close>

theorem builder_reports_first_error:
  assumes "bu_err b = None" and "bu_head b = Some h" and "f h = Err e"
  shows "\<exists>r b'. bu_message_body pool lib hv bd (fold bu_update fs (bu_update f b)) = Return (r, b') \<and>
    rs_status (re_head r) = 500 \<and> re_body r = RbOther (BodyBytes e) \<and>
    hm_values (rs_headers (re_head r)) CONTENT_TYPE = [bstr ''text/plain; charset=utf-8''] \<and> bu_head b' = Some h"
proof -
  have err: "bu_update f b = b\<lparr>bu_err := Some e\<rparr>" using assms by (simp add: bu_update_def bu_parts_def)
  have "rs_status (boxed_head pool 500) = 500"
    by (simp add: boxed_head_def rpool_get_message_def response_head_new_def)
  moreover have "hm_values (hm_insert m CONTENT_TYPE v) CONTENT_TYPE = [v]" for m v
    by (simp add: hm_values_def hm_insert_def update_conv)
  ultimately show ?thesis
    using fold_update_error [of "b\<lparr>bu_err := Some e\<rparr>" e fs] assms(2) unfolding err
    by (simp add: bu_message_body_def error_from_http_def response_from_error_def plain_response_def response_new_def
        response_set_body_def response_into_body_def Let_def del: bstr_Cons)
qed

lemma message_body_takes_head:
  assumes "bu_err b = None" and "bu_message_body pool lib hv bd b = Return (r, b')"
  shows "b' = b\<lparr>bu_head := None\<rparr>"
proof -
  obtain h where h: "bu_head b = Some h" using assms by (auto simp: bu_message_body_def split: option.splits)
  let ?m = "case bu_cookies b of None \<Rightarrow> Return (Ok (rs_headers h)) | Some j \<Rightarrow> write_cookies lib hv (delta_all (jar_delta j)) (rs_headers h)"
  obtain x where "?m = Return x"
      "(case x of Err e \<Rightarrow> (response_into_body (response_from_error pool (error_from_http e)), b\<lparr>bu_head := None\<rparr>)
        | Ok hs \<Rightarrow> (\<lparr>re_head = h\<lparr>rs_headers := hs\<rparr>, re_body = RbBody bd, re_error = None\<rparr>, b\<lparr>bu_head := None\<rparr>)) = (r, b')"
    using assms h by (auto simp: bu_message_body_def Let_def exec_bind_Return cong: option.case_cong)
  then show ?thesis by (cases x) auto
qed

text \<open>A builder that has given its response panics when it is used again.\<close>

theorem builder_reuse_panics:
  assumes "bu_err b = None" and "bu_message_body pool lib hv bd b = Return (r, b')"
  shows "bu_message_body pool' lib hv bd' b' = Panic \<and> bu_extensions b' = Panic"
  using message_body_takes_head [OF assms] assms(1) by (simp add: bu_message_body_def bu_extensions_def)

text \<open>The cookies of the jar.\<close>

lemma write_cookies_all:
  "list_all2 (\<lambda>c v. \<exists>s. cookie_fmt lib c = Return s \<and> hv s = Ok v) cs vs \<Longrightarrow>
    write_cookies lib hv cs h = Return (Ok (headers.append_all h (map (Pair SET_COOKIE) vs)))"
  by (induction cs vs arbitrary: h rule: list_all2_induct) auto

lemma delta_all_map: "delta_all ds = map dc_cookie ds"
  by (induction ds) simp_all

text \<open>
  The response of a builder carries the status and every header that was set, and in addition one \<open>Set-Cookie\<close> header for
  each change in the cookie jar, printed; nothing else is added.
\<close>

theorem builder_writes_cookies:
  assumes "bu_err b = None" and "bu_head b = Some h" and "bu_cookies b = Some j" and "hm_wf (rs_headers h)"
    and "list_all2 (\<lambda>c v. \<exists>s. cookie_fmt lib c = Return s \<and> hv s = Ok v) (delta_all (jar_delta j)) vs"
  shows "\<exists>r b'. bu_message_body pool lib hv bd b = Return (r, b') \<and> re_body r = RbBody bd \<and> rs_status (re_head r) = rs_status h \<and>
    mset (hm_values (rs_headers (re_head r)) n) =
      mset (hm_values (rs_headers h) n) + (if n = SET_COOKIE then mset vs else {#}) \<and> hm_wf (rs_headers (re_head r))"
proof -
  have "mset (map snd (filter (\<lambda>kv. fst kv = n) (map (Pair SET_COOKIE) vs))) = (if n = SET_COOKIE then mset vs else {#})"
    by (cases "n = SET_COOKIE") (simp_all add: filter_map comp_def del: mset_map mset_filter)
  then show ?thesis
    using headers.values_append_all [OF assms(4), of "map (Pair SET_COOKIE) vs" n]
      headers.wf_append_all [OF assms(4), of "map (Pair SET_COOKIE) vs"] write_cookies_all [OF assms(5)] assms(1-3)
    by (simp add: bu_message_body_def Let_def)
qed

text \<open>
  A builder made from a head copies its headers one by one; of a header with two values the copy has them in the opposite
  order.
\<close>

theorem copied_head_swaps_values:
  assumes "rs_headers h = [(n, Multi [v, w])]" and "n \<noteq> SET_COOKIE" and "rpool_reachable pool"
  shows "\<exists>b h'. builder_from_head env pool h = Return b \<and> bu_head b = Some h' \<and>
    hm_values (rs_headers h) n = [v, w] \<and> hm_values (rs_headers h') n = [w, v]"
proof -
  have "(boxed_head pool (rs_status h))\<lparr>rs_version := HTTP_11\<rparr> = response_head_new (rs_status h)"
  proof (cases "pool = []")
    case False
    then have "last pool \<in> set pool" by simp
    with rpool_reachable_inv [OF assms(3)] False show ?thesis
      by (cases "last pool") (auto simp: boxed_head_def rpool_get_message_def response_head_new_def hm_clear_def hm_new_def)
  qed (simp add: boxed_head_def rpool_get_message_def response_head_new_def)
  from arg_cong [OF this, of rs_headers] have empty: "rs_headers (boxed_head pool (rs_status h)) = hm_new"
    by (simp add: response_head_new_def)
  have none: "load_jar env (response_cookies (ce_http env) h) None = Return None"
    using assms(1,2) by (simp add: load_jar.simps cookie_iter_next.simps response_cookies_def hm_get_all_def hm_get2_def as_name_def get_all_next_def)
  show ?thesis unfolding builder_from_head_def none
    using assms(1) by (simp add: empty Let_def rs_no_chunking_def hm_values_def hm_append_def hm_new_def)
qed

section \<open>Properties of the cookies of a response\<close>

text \<open>
  A \<open>Set-Cookie\<close> value that is no text hides all that come after it: the iterator ends there, and a builder made from the
  response starts without any of them.
\<close>

theorem unreadable_cookie_hides_rest:
  assumes "hm_values (rs_headers (re_head r)) SET_COOKIE = v # vs" and "hl_to_str (ce_http env) v = None"
  shows "\<exists>it. cookie_iter_next env (response_cookies (ce_http env) (re_head r)) = Return (None, it) \<and>
    builder_from_response env r = Return \<lparr>bu_head = Some (re_head r), bu_err = None, bu_cookies = None\<rparr>"
proof -
  let ?it = "response_cookies (ce_http env) (re_head r)"
  have "ga_items (ci_iter ?it) = v # vs" using assms(1)
    by (auto simp: response_cookies_def hm_get_all_def hm_get2_def as_name_def ga_items_def hm_values_def split: option.splits hvalue.splits)
  then have "fst (get_all_next (ci_iter ?it)) = Some v" using get_all_next_items by simp
  then obtain g where "get_all_next (ci_iter ?it) = (Some v, g)" by (cases "get_all_next (ci_iter ?it)") auto
  then have n: "cookie_iter_next env ?it = Return (None, ?it\<lparr>ci_iter := g\<rparr>)"
    using assms(2) by (simp add: cookie_iter_next.simps [of env ?it])
  then show ?thesis by (simp add: builder_from_response_def load_jar.simps [of env ?it])
qed

lemma del_loop_ok:
  "list_all2 (\<lambda>(i, v) hit. names_cookie env name i v = Return hit) (enumerate i vs) hits \<Longrightarrow> hm_wf h \<Longrightarrow>
    \<exists>h'. del_loop env name i vs h cnt = Return (h', cnt + length (filter id hits)) \<and> hm_wf h' \<and>
      mset (hm_values h' SET_COOKIE) = mset (hm_values h SET_COOKIE) + mset (map fst (filter (\<lambda>(v, hit). \<not> hit) (zip vs hits))) \<and>
      (\<forall>n. n \<noteq> SET_COOKIE \<longrightarrow> hm_values h' n = hm_values h n)"
proof (induction vs arbitrary: i hits h cnt)
  case (Cons v vs)
  from Cons.prems(1) obtain hit rest where hits: "hits = hit # rest" "names_cookie env name i v = Return hit"
      "list_all2 (\<lambda>(i, v) hit. names_cookie env name i v = Return hit) (enumerate (Suc i) vs) rest"
    by (auto simp: list_all2_Cons1)
  show ?case
  proof (cases hit)
    case True
    with Cons.IH [OF hits(3) Cons.prems(2), of "cnt + 1"] hits show ?thesis by auto
  next
    case False
    note wf = hm_wf_append [OF Cons.prems(2), of SET_COOKIE v]
    from Cons.IH [OF hits(3) wf, of cnt] False hits show ?thesis
      by (auto simp: hm_values_append hm_values_append_other)
  qed
qed simp

lemma hm_values_remove:
  "hm_values (hm_remove lib m (ByName k)) n = (if n = k then [] else hm_values m n)"
  by (simp add: hm_remove_def as_name_def hm_values_def delete_conv')

text \<open>
  Deleting a cookie drops exactly the \<open>Set-Cookie\<close> values that parse to a cookie of the name, counts them, and keeps all
  others, also those that cannot be read, and all other headers.
\<close>

theorem del_cookie_removes:
  assumes "hm_wf (rs_headers (re_head r))"
    and "list_all2 (\<lambda>(i, v) hit. names_cookie env name i v = Return hit) (enumerate 0 (hm_values (rs_headers (re_head r)) SET_COOKIE)) hits"
  shows "\<exists>r'. response_del_cookie env name r = Return (length (filter id hits), r') \<and>
    mset (hm_values (rs_headers (re_head r')) SET_COOKIE) =
      mset (map fst (filter (\<lambda>(v, hit). \<not> hit) (zip (hm_values (rs_headers (re_head r)) SET_COOKIE) hits))) \<and>
    (\<forall>n. n \<noteq> SET_COOKIE \<longrightarrow> hm_values (rs_headers (re_head r')) n = hm_values (rs_headers (re_head r)) n)"
proof -
  let ?h = "rs_headers (re_head r)"
  have "ga_list (hm_get_all (ce_http env) ?h (ByName SET_COOKIE)) = hm_values ?h SET_COOKIE"
    by (auto simp: ga_list_items hm_get_all_def ga_items_def hm_get2_def as_name_def hm_values_def split: option.split hvalue.split)
  with del_loop_ok [OF assms(2) hm_wf_remove [OF assms(1)], of "ce_http env" "ByName SET_COOKIE" 0] show ?thesis
    by (auto simp: response_del_cookie_def Let_def hm_values_remove)
qed

section \<open>Witnesses\<close>

definition demo_env :: "(bytes, int) cookie_env" where
  "demo_env =
     \<lparr>ce_http = demo_http\<lparr>hl_to_str := (\<lambda>v. if list_all (\<lambda>b. b < 0x80) v then Some v else None)\<rparr>,
      ce_lib = demo_cookie_lib, ce_addr = (\<lambda>n. 100 * n)\<rparr>"

definition demo_builder :: "(bytes, int) response_builder" where
  "demo_builder = \<lparr>bu_head = Some (response_head_new 200), bu_err = None, bu_cookies = None\<rparr>"

lemma builder_reports_first_error_witness:
  "\<exists>r b'. bu_message_body [] demo_cookie_lib Ok (bstr ''hello'')
       (fold bu_update [\<lambda>h. Ok (h\<lparr>rs_status := 201\<rparr>)] (bu_update (\<lambda>h. Err (bstr ''bad'')) demo_builder)) = Return (r, b') \<and>
     rs_status (re_head r) = 500 \<and> re_body r = RbOther (BodyBytes (bstr ''bad'')) \<and>
     hm_values (rs_headers (re_head r)) CONTENT_TYPE = [bstr ''text/plain; charset=utf-8''] \<and> bu_head b' = Some (response_head_new 200)"
  by (rule builder_reports_first_error) (simp_all add: demo_builder_def)

lemma demo_finish:
  "bu_message_body [] demo_cookie_lib Ok () demo_builder =
     Return (\<lparr>re_head = response_head_new 200, re_body = RbBody (), re_error = None :: unit error option\<rparr>, demo_builder\<lparr>bu_head := None\<rparr>)"
  by (simp add: bu_message_body_def demo_builder_def response_head_new_def)

lemma builder_reuse_panics_witness:
  "bu_message_body [] demo_cookie_lib Ok () (demo_builder\<lparr>bu_head := None\<rparr>) = (Panic :: ((unit, unit) response \<times> (bytes, int) response_builder) exec) \<and>
   bu_extensions (demo_builder\<lparr>bu_head := None\<rparr>) = Panic"
  by (rule builder_reuse_panics [OF _ demo_finish]) (simp add: demo_builder_def)

definition demo_delta_jar :: "(bytes, int) cookie_jar" where
  "demo_delta_jar = \<lparr>jr_original = [], jr_delta = [(bstr ''a'', delta_added (cookie_new (bstr ''a'') (bstr ''1'')))]\<rparr>"

lemma demo_cookie_text: "cookie_fmt demo_cookie_lib (cookie_new (bstr ''a'') (bstr ''1'')) = Return (bstr ''a=1'')"
  by (simp add: cookie_fmt_def cookie_name_def cookie_value_def fmt_parameters_def cookie_path_def cookie_domain_def cookie_new_def)

lemma demo_delta: "delta_all (jar_delta demo_delta_jar) = [cookie_new (bstr ''a'') (bstr ''1'')]"
  by (simp add: demo_delta_jar_def jar_delta_def delta_added_def)

lemma builder_writes_cookies_witness:
  "\<exists>r b'. bu_message_body [] demo_cookie_lib Ok () (demo_builder\<lparr>bu_cookies := Some demo_delta_jar\<rparr>) = Return (r, b') \<and>
     re_body r = RbBody () \<and> rs_status (re_head r) = rs_status (response_head_new 200) \<and>
     mset (hm_values (rs_headers (re_head r)) SET_COOKIE) =
       mset (hm_values (rs_headers (response_head_new 200)) SET_COOKIE) + (if SET_COOKIE = SET_COOKIE then mset [bstr ''a=1''] else {#}) \<and>
     hm_wf (rs_headers (re_head r))"
proof (rule builder_writes_cookies)
  show "list_all2 (\<lambda>c v. \<exists>s. cookie_fmt demo_cookie_lib c = Return s \<and> Ok s = Ok v) (delta_all (jar_delta demo_delta_jar)) [bstr ''a=1'']"
    unfolding demo_delta by (simp add: demo_cookie_text del: bstr_Cons)
qed (simp_all add: demo_builder_def response_head_new_def hm_wf_new)

lemma copied_head_swaps_values_witness:
  "\<exists>b h'. builder_from_head demo_env [] ((response_head_new 200)\<lparr>rs_headers := [(bstr ''via'', Multi [[1], [2]])]\<rparr>) = Return b \<and>
     bu_head b = Some h' \<and> hm_values (rs_headers h') (bstr ''via'') = [[2], [1]]"
  using copied_head_swaps_values [of "(response_head_new 200)\<lparr>rs_headers := [(bstr ''via'', Multi [[1], [2]])]\<rparr>" "bstr ''via''" "[1]" "[2]" "[]" demo_env]
    rpool_reachable.start by (force simp: SET_COOKIE_def)

definition demo_response :: "header_value list \<Rightarrow> (unit, unit) response" where
  "demo_response vs = \<lparr>re_head = (response_head_new 200)\<lparr>rs_headers := [(SET_COOKIE, Multi vs)]\<rparr>, re_body = RbBody (), re_error = None\<rparr>"

lemma demo_response_values: "hm_values (rs_headers (re_head (demo_response vs))) SET_COOKIE = vs"
  by (simp add: demo_response_def hm_values_def)

lemma unreadable_cookie_hides_rest_witness:
  "builder_from_response demo_env (demo_response [[0xFF], bstr ''a=1'']) =
     Return \<lparr>bu_head = Some (re_head (demo_response [[0xFF], bstr ''a=1''])), bu_err = None, bu_cookies = None\<rparr>"
  using unreadable_cookie_hides_rest [OF demo_response_values, of demo_env "[0xFF]" "[bstr ''a=1'']"] by (auto simp: demo_env_def)

lemma demo_names: "names_cookie demo_env (bstr ''a'') 0 (bstr ''a=1'') = Return True"
    "names_cookie demo_env (bstr ''a'') 1 [0xFF] = Return False"
proof -
  have "utrim [0x61] = [0x61]" "utrim [0x31] = [0x31]" by (rule utrim_tidy(1), simp add: tidy_def plain_byte_def is_ws_def)+
  then have "text_parse demo_cookie_lib True (bstr ''a=1'') = Ok (cookie_new (bstr ''a'') (bstr ''1''))"
    by (simp add: text_parse_def split_in_two_def text_pair_def demo_cookie_lib_def)
  from parsed_cookie [OF _ demo_lib_ok(1) this, of 0] obtain c where
    c: "parse_cookie demo_cookie_lib 0 (CowBorrowed (bstr ''a=1'')) True = Return (Ok c)" "shown c = Return (cookie_new (bstr ''a'') (bstr ''1''))"
    by auto
  from shown_parts(1) [OF c(2)] have "cookie_name c = Return (bstr ''a'')" by (simp add: cookie_new_def)
  with c(1) show "names_cookie demo_env (bstr ''a'') 0 (bstr ''a=1'') = Return True"
    by (simp add: names_cookie_def demo_env_def cookie_parse_encoded_def)
  show "names_cookie demo_env (bstr ''a'') 1 [0xFF] = Return False" by (simp add: names_cookie_def demo_env_def)
qed

lemma del_cookie_removes_witness:
  "\<exists>r'. response_del_cookie demo_env (bstr ''a'') (demo_response [bstr ''a=1'', [0xFF]]) = Return (1, r') \<and>
     mset (hm_values (rs_headers (re_head r')) SET_COOKIE) = {#[0xFF]#}"
  using del_cookie_removes [of "demo_response [bstr ''a=1'', [0xFF]]" demo_env "bstr ''a''" "[True, False]"] demo_names
  unfolding demo_response_values by (auto simp: demo_response_def hm_wf_def value_wf_def)

end
