(* ===== verification/Error_Helpers.thy ===== *)
theory Error_Helpers
  imports Http_Response
begin

text \<open>
  The functions of \<open>error.rs\<close> that wrap a value in an error of a fixed status (\<open>ErrorBadRequest\<close> and the others), and the
  constructors of empty responses of \<open>httpcodes.rs\<close>. The value is the text that it prints.
\<close>

section \<open>Errors of a status\<close>

definition ErrorBadRequest :: "bytes \<Rightarrow> 'm error" where
  "ErrorBadRequest err = internal_error_new err 400"

definition ErrorUnauthorized :: "bytes \<Rightarrow> 'm error" where
  "ErrorUnauthorized err = internal_error_new err 401"

definition ErrorPaymentRequired :: "bytes \<Rightarrow> 'm error" where
  "ErrorPaymentRequired err = internal_error_new err 402"

definition ErrorForbidden :: "bytes \<Rightarrow> 'm error" where
  "ErrorForbidden err = internal_error_new err 403"

definition ErrorNotFound :: "bytes \<Rightarrow> 'm error" where
  "ErrorNotFound err = internal_error_new err 404"

definition ErrorMethodNotAllowed :: "bytes \<Rightarrow> 'm error" where
  "ErrorMethodNotAllowed err = internal_error_new err 405"

definition ErrorNotAcceptable :: "bytes \<Rightarrow> 'm error" where
  "ErrorNotAcceptable err = internal_error_new err 406"

definition ErrorProxyAuthenticationRequired :: "bytes \<Rightarrow> 'm error" where
  "ErrorProxyAuthenticationRequired err = internal_error_new err 407"

definition ErrorRequestTimeout :: "bytes \<Rightarrow> 'm error" where
  "ErrorRequestTimeout err = internal_error_new err 408"

definition ErrorConflict :: "bytes \<Rightarrow> 'm error" where
  "ErrorConflict err = internal_error_new err 409"

definition ErrorGone :: "bytes \<Rightarrow> 'm error" where
  "ErrorGone err = internal_error_new err 410"

definition ErrorLengthRequired :: "bytes \<Rightarrow> 'm error" where
  "ErrorLengthRequired err = internal_error_new err 411"

definition ErrorPayloadTooLarge :: "bytes \<Rightarrow> 'm error" where
  "ErrorPayloadTooLarge err = internal_error_new err 413"

definition ErrorUriTooLong :: "bytes \<Rightarrow> 'm error" where
  "ErrorUriTooLong err = internal_error_new err 414"

definition ErrorUnsupportedMediaType :: "bytes \<Rightarrow> 'm error" where
  "ErrorUnsupportedMediaType err = internal_error_new err 415"

definition ErrorRangeNotSatisfiable :: "bytes \<Rightarrow> 'm error" where
  "ErrorRangeNotSatisfiable err = internal_error_new err 416"

definition ErrorImATeapot :: "bytes \<Rightarrow> 'm error" where
  "ErrorImATeapot err = internal_error_new err 418"

definition ErrorMisdirectedRequest :: "bytes \<Rightarrow> 'm error" where
  "ErrorMisdirectedRequest err = internal_error_new err 421"

definition ErrorUnprocessableEntity :: "bytes \<Rightarrow> 'm error" where
  "ErrorUnprocessableEntity err = internal_error_new err 422"

definition ErrorLocked :: "bytes \<Rightarrow> 'm error" where
  "ErrorLocked err = internal_error_new err 423"

definition ErrorFailedDependency :: "bytes \<Rightarrow> 'm error" where
  "ErrorFailedDependency err = internal_error_new err 424"

definition ErrorUpgradeRequired :: "bytes \<Rightarrow> 'm error" where
  "ErrorUpgradeRequired err = internal_error_new err 426"

definition ErrorPreconditionFailed :: "bytes \<Rightarrow> 'm error" where
  "ErrorPreconditionFailed err = internal_error_new err 412"

definition ErrorPreconditionRequired :: "bytes \<Rightarrow> 'm error" where
  "ErrorPreconditionRequired err = internal_error_new err 428"

definition ErrorTooManyRequests :: "bytes \<Rightarrow> 'm error" where
  "ErrorTooManyRequests err = internal_error_new err 429"

definition ErrorRequestHeaderFieldsTooLarge :: "bytes \<Rightarrow> 'm error" where
  "ErrorRequestHeaderFieldsTooLarge err = internal_error_new err 431"

definition ErrorUnavailableForLegalReasons :: "bytes \<Rightarrow> 'm error" where
  "ErrorUnavailableForLegalReasons err = internal_error_new err 451"

definition ErrorExpectationFailed :: "bytes \<Rightarrow> 'm error" where
  "ErrorExpectationFailed err = internal_error_new err 417"

definition ErrorInternalServerError :: "bytes \<Rightarrow> 'm error" where
  "ErrorInternalServerError err = internal_error_new err 500"

definition ErrorNotImplemented :: "bytes \<Rightarrow> 'm error" where
  "ErrorNotImplemented err = internal_error_new err 501"

definition ErrorBadGateway :: "bytes \<Rightarrow> 'm error" where
  "ErrorBadGateway err = internal_error_new err 502"

definition ErrorServiceUnavailable :: "bytes \<Rightarrow> 'm error" where
  "ErrorServiceUnavailable err = internal_error_new err 503"

definition ErrorGatewayTimeout :: "bytes \<Rightarrow> 'm error" where
  "ErrorGatewayTimeout err = internal_error_new err 504"

definition ErrorHttpVersionNotSupported :: "bytes \<Rightarrow> 'm error" where
  "ErrorHttpVersionNotSupported err = internal_error_new err 505"

definition ErrorVariantAlsoNegotiates :: "bytes \<Rightarrow> 'm error" where
  "ErrorVariantAlsoNegotiates err = internal_error_new err 506"

definition ErrorInsufficientStorage :: "bytes \<Rightarrow> 'm error" where
  "ErrorInsufficientStorage err = internal_error_new err 507"

definition ErrorLoopDetected :: "bytes \<Rightarrow> 'm error" where
  "ErrorLoopDetected err = internal_error_new err 508"

definition ErrorNotExtended :: "bytes \<Rightarrow> 'm error" where
  "ErrorNotExtended err = internal_error_new err 510"

definition ErrorNetworkAuthenticationRequired :: "bytes \<Rightarrow> 'm error" where
  "ErrorNetworkAuthenticationRequired err = internal_error_new err 511"

text \<open>Each of them answers with its status and the text of the wrapped value, and may be asked again.\<close>

lemmas error_helpers =
  ErrorBadRequest_def
  ErrorUnauthorized_def
  ErrorPaymentRequired_def
  ErrorForbidden_def
  ErrorNotFound_def
  ErrorMethodNotAllowed_def
  ErrorNotAcceptable_def
  ErrorProxyAuthenticationRequired_def
  ErrorRequestTimeout_def
  ErrorConflict_def
  ErrorGone_def
  ErrorLengthRequired_def
  ErrorPayloadTooLarge_def
  ErrorUriTooLong_def
  ErrorUnsupportedMediaType_def
  ErrorRangeNotSatisfiable_def
  ErrorImATeapot_def
  ErrorMisdirectedRequest_def
  ErrorUnprocessableEntity_def
  ErrorLocked_def
  ErrorFailedDependency_def
  ErrorUpgradeRequired_def
  ErrorPreconditionFailed_def
  ErrorPreconditionRequired_def
  ErrorTooManyRequests_def
  ErrorRequestHeaderFieldsTooLarge_def
  ErrorUnavailableForLegalReasons_def
  ErrorExpectationFailed_def
  ErrorInternalServerError_def
  ErrorNotImplemented_def
  ErrorBadGateway_def
  ErrorServiceUnavailable_def
  ErrorGatewayTimeout_def
  ErrorHttpVersionNotSupported_def
  ErrorVariantAlsoNegotiates_def
  ErrorInsufficientStorage_def
  ErrorLoopDetected_def
  ErrorNotExtended_def
  ErrorNetworkAuthenticationRequired_def

lemma internal_error_answers:
  assumes "error_response pool (internal_error_new err status) = (r, e)"
  shows "rs_status (re_head r) = status \<and> re_body r = RbBody (BodyBytes err)
    \<and> e = internal_error_new err status"
  using assms by (auto simp: internal_error_new_def plain_response_def response_set_body_def response_new_def boxed_head_def
    rpool_get_message_def response_head_new_def)

lemma error_helper_statuses:
  "map (\<lambda>f. error_status (f err))
     [ErrorBadRequest,
      ErrorUnauthorized,
      ErrorPaymentRequired,
      ErrorForbidden,
      ErrorNotFound,
      ErrorMethodNotAllowed,
      ErrorNotAcceptable,
      ErrorProxyAuthenticationRequired,
      ErrorRequestTimeout,
      ErrorConflict,
      ErrorGone,
      ErrorLengthRequired,
      ErrorPayloadTooLarge,
      ErrorUriTooLong,
      ErrorUnsupportedMediaType,
      ErrorRangeNotSatisfiable,
      ErrorImATeapot,
      ErrorMisdirectedRequest,
      ErrorUnprocessableEntity,
      ErrorLocked,
      ErrorFailedDependency,
      ErrorUpgradeRequired,
      ErrorPreconditionFailed,
      ErrorPreconditionRequired,
      ErrorTooManyRequests,
      ErrorRequestHeaderFieldsTooLarge,
      ErrorUnavailableForLegalReasons,
      ErrorExpectationFailed,
      ErrorInternalServerError,
      ErrorNotImplemented,
      ErrorBadGateway,
      ErrorServiceUnavailable,
      ErrorGatewayTimeout,
      ErrorHttpVersionNotSupported,
      ErrorVariantAlsoNegotiates,
      ErrorInsufficientStorage,
      ErrorLoopDetected,
      ErrorNotExtended,
      ErrorNetworkAuthenticationRequired] =
   [400, 401, 402, 403, 404, 405, 406, 407, 408, 409, 410, 411, 413, 414, 415, 416, 418, 421, 422, 423, 424, 426, 412, 428, 429, 431, 451, 417, 500, 501, 502, 503, 504, 505, 506, 507, 508, 510, 511]"
  by (simp add: error_helpers internal_error_new_def)

section \<open>Empty responses of a status\<close>

definition Response_Ok :: "response_pool \<Rightarrow> ('t, 'd) response_builder" where
  "Response_Ok pool = bu_new pool 200"

definition Response_Created :: "response_pool \<Rightarrow> ('t, 'd) response_builder" where
  "Response_Created pool = bu_new pool 201"

definition Response_Accepted :: "response_pool \<Rightarrow> ('t, 'd) response_builder" where
  "Response_Accepted pool = bu_new pool 202"

definition Response_NonAuthoritativeInformation :: "response_pool \<Rightarrow> ('t, 'd) response_builder" where
  "Response_NonAuthoritativeInformation pool = bu_new pool 203"

definition Response_NoContent :: "response_pool \<Rightarrow> ('t, 'd) response_builder" where
  "Response_NoContent pool = bu_new pool 204"

definition Response_ResetContent :: "response_pool \<Rightarrow> ('t, 'd) response_builder" where
  "Response_ResetContent pool = bu_new pool 205"

definition Response_PartialContent :: "response_pool \<Rightarrow> ('t, 'd) response_builder" where
  "Response_PartialContent pool = bu_new pool 206"

definition Response_MultiStatus :: "response_pool \<Rightarrow> ('t, 'd) response_builder" where
  "Response_MultiStatus pool = bu_new pool 207"

definition Response_AlreadyReported :: "response_pool \<Rightarrow> ('t, 'd) response_builder" where
  "Response_AlreadyReported pool = bu_new pool 208"

definition Response_MultipleChoices :: "response_pool \<Rightarrow> ('t, 'd) response_builder" where
  "Response_MultipleChoices pool = bu_new pool 300"

definition Response_MovedPermanently :: "response_pool \<Rightarrow> ('t, 'd) response_builder" where
  "Response_MovedPermanently pool = bu_new pool 301"

definition Response_Found :: "response_pool \<Rightarrow> ('t, 'd) response_builder" where
  "Response_Found pool = bu_new pool 302"

definition Response_SeeOther :: "response_pool \<Rightarrow> ('t, 'd) response_builder" where
  "Response_SeeOther pool = bu_new pool 303"

definition Response_NotModified :: "response_pool \<Rightarrow> ('t, 'd) response_builder" where
  "Response_NotModified pool = bu_new pool 304"

definition Response_UseProxy :: "response_pool \<Rightarrow> ('t, 'd) response_builder" where
  "Response_UseProxy pool = bu_new pool 305"

definition Response_TemporaryRedirect :: "response_pool \<Rightarrow> ('t, 'd) response_builder" where
  "Response_TemporaryRedirect pool = bu_new pool 307"

definition Response_PermanentRedirect :: "response_pool \<Rightarrow> ('t, 'd) response_builder" where
  "Response_PermanentRedirect pool = bu_new pool 308"

definition Response_BadRequest :: "response_pool \<Rightarrow> ('t, 'd) response_builder" where
  "Response_BadRequest pool = bu_new pool 400"

definition Response_NotFound :: "response_pool \<Rightarrow> ('t, 'd) response_builder" where
  "Response_NotFound pool = bu_new pool 404"

definition Response_Unauthorized :: "response_pool \<Rightarrow> ('t, 'd) response_builder" where
  "Response_Unauthorized pool = bu_new pool 401"

definition Response_PaymentRequired :: "response_pool \<Rightarrow> ('t, 'd) response_builder" where
  "Response_PaymentRequired pool = bu_new pool 402"

definition Response_Forbidden :: "response_pool \<Rightarrow> ('t, 'd) response_builder" where
  "Response_Forbidden pool = bu_new pool 403"

definition Response_MethodNotAllowed :: "response_pool \<Rightarrow> ('t, 'd) response_builder" where
  "Response_MethodNotAllowed pool = bu_new pool 405"

definition Response_NotAcceptable :: "response_pool \<Rightarrow> ('t, 'd) response_builder" where
  "Response_NotAcceptable pool = bu_new pool 406"

definition Response_ProxyAuthenticationRequired :: "response_pool \<Rightarrow> ('t, 'd) response_builder" where
  "Response_ProxyAuthenticationRequired pool = bu_new pool 407"

definition Response_RequestTimeout :: "response_pool \<Rightarrow> ('t, 'd) response_builder" where
  "Response_RequestTimeout pool = bu_new pool 408"

definition Response_Conflict :: "response_pool \<Rightarrow> ('t, 'd) response_builder" where
  "Response_Conflict pool = bu_new pool 409"

definition Response_Gone :: "response_pool \<Rightarrow> ('t, 'd) response_builder" where
  "Response_Gone pool = bu_new pool 410"

definition Response_LengthRequired :: "response_pool \<Rightarrow> ('t, 'd) response_builder" where
  "Response_LengthRequired pool = bu_new pool 411"

definition Response_PreconditionFailed :: "response_pool \<Rightarrow> ('t, 'd) response_builder" where
  "Response_PreconditionFailed pool = bu_new pool 412"

definition Response_PreconditionRequired :: "response_pool \<Rightarrow> ('t, 'd) response_builder" where
  "Response_PreconditionRequired pool = bu_new pool 428"

definition Response_PayloadTooLarge :: "response_pool \<Rightarrow> ('t, 'd) response_builder" where
  "Response_PayloadTooLarge pool = bu_new pool 413"

definition Response_UriTooLong :: "response_pool \<Rightarrow> ('t, 'd) response_builder" where
  "Response_UriTooLong pool = bu_new pool 414"

definition Response_UnsupportedMediaType :: "response_pool \<Rightarrow> ('t, 'd) response_builder" where
  "Response_UnsupportedMediaType pool = bu_new pool 415"

definition Response_RangeNotSatisfiable :: "response_pool \<Rightarrow> ('t, 'd) response_builder" where
  "Response_RangeNotSatisfiable pool = bu_new pool 416"

definition Response_ExpectationFailed :: "response_pool \<Rightarrow> ('t, 'd) response_builder" where
  "Response_ExpectationFailed pool = bu_new pool 417"

definition Response_UnprocessableEntity :: "response_pool \<Rightarrow> ('t, 'd) response_builder" where
  "Response_UnprocessableEntity pool = bu_new pool 422"

definition Response_TooManyRequests :: "response_pool \<Rightarrow> ('t, 'd) response_builder" where
  "Response_TooManyRequests pool = bu_new pool 429"

definition Response_InternalServerError :: "response_pool \<Rightarrow> ('t, 'd) response_builder" where
  "Response_InternalServerError pool = bu_new pool 500"

definition Response_NotImplemented :: "response_pool \<Rightarrow> ('t, 'd) response_builder" where
  "Response_NotImplemented pool = bu_new pool 501"

definition Response_BadGateway :: "response_pool \<Rightarrow> ('t, 'd) response_builder" where
  "Response_BadGateway pool = bu_new pool 502"

definition Response_ServiceUnavailable :: "response_pool \<Rightarrow> ('t, 'd) response_builder" where
  "Response_ServiceUnavailable pool = bu_new pool 503"

definition Response_GatewayTimeout :: "response_pool \<Rightarrow> ('t, 'd) response_builder" where
  "Response_GatewayTimeout pool = bu_new pool 504"

definition Response_VersionNotSupported :: "response_pool \<Rightarrow> ('t, 'd) response_builder" where
  "Response_VersionNotSupported pool = bu_new pool 505"

definition Response_VariantAlsoNegotiates :: "response_pool \<Rightarrow> ('t, 'd) response_builder" where
  "Response_VariantAlsoNegotiates pool = bu_new pool 506"

definition Response_InsufficientStorage :: "response_pool \<Rightarrow> ('t, 'd) response_builder" where
  "Response_InsufficientStorage pool = bu_new pool 507"

definition Response_LoopDetected :: "response_pool \<Rightarrow> ('t, 'd) response_builder" where
  "Response_LoopDetected pool = bu_new pool 508"

end
