(* ===== verification/Ws_Handshake.thy ===== *)
theory Ws_Handshake
  imports Error_Helpers H1_Encoder Ws_Proto
begin

text \<open>
  The opening handshake of a WebSocket (\<open>ws/mod.rs\<close>): the checks of a request head, the errors and the responses they
  become, and the response that accepts the upgrade.
\<close>

definition ALLOW :: header_name where "ALLOW = bstr ''allow''"
definition SEC_WEBSOCKET_KEY :: header_name where "SEC_WEBSOCKET_KEY = bstr ''sec-websocket-key''"
definition SEC_WEBSOCKET_VERSION :: header_name where "SEC_WEBSOCKET_VERSION = bstr ''sec-websocket-version''"
definition SEC_WEBSOCKET_ACCEPT :: header_name where "SEC_WEBSOCKET_ACCEPT = bstr ''sec-websocket-accept''"

section \<open>Errors\<close>

datatype handshake_error =
    HsGetMethodRequired | HsNoWebsocketUpgrade | HsNoConnectionUpgrade | HsNoVersionHeader | HsUnsupportedVersion
  | HsBadWebsocketKey

fun handshake_error_builder :: "response_pool \<Rightarrow> handshake_error \<Rightarrow> ('t, 'd) response_builder" where
  "handshake_error_builder pool HsGetMethodRequired = bu_header (Ok ALLOW) (Ok (bstr ''GET'')) (Response_MethodNotAllowed pool)"
| "handshake_error_builder pool HsNoWebsocketUpgrade =
     bu_reason (bstr ''No WebSocket UPGRADE header found'') (Response_BadRequest pool)"
| "handshake_error_builder pool HsNoConnectionUpgrade = bu_reason (bstr ''No CONNECTION upgrade'') (Response_BadRequest pool)"
| "handshake_error_builder pool HsNoVersionHeader =
     bu_reason (bstr ''Websocket version header is required'') (Response_BadRequest pool)"
| "handshake_error_builder pool HsUnsupportedVersion = bu_reason (bstr ''Unsupported version'') (Response_BadRequest pool)"
| "handshake_error_builder pool HsBadWebsocketKey = bu_reason (bstr ''Handshake error'') (Response_BadRequest pool)"

definition handshake_error_response ::
  "response_pool \<Rightarrow> ('t, 'd) cookie_lib \<Rightarrow> (bytes \<Rightarrow> (header_value, http_error) result) \<Rightarrow> handshake_error \<Rightarrow>
   ('m body, 'm) response exec" where
  "handshake_error_response pool lib hv e =
     exec_bind (bu_finish pool lib hv (handshake_error_builder pool e)) (\<lambda>(r, b). Return r)"

section \<open>Verification\<close>

text \<open>Whether the first \<open>Upgrade\<close> value contains the protocol, in any case of letters.\<close>

definition has_websocket_upgrade :: "http_lib \<Rightarrow> request_head \<Rightarrow> bool exec" where
  "has_websocket_upgrade lib req =
     exec_bind (hm_get lib (rq_headers req) (ByName UPGRADE)) (\<lambda>hdr.
       Return (case hdr of
         None \<Rightarrow> False
       | Some v \<Rightarrow> (case hl_to_str lib v of None \<Rightarrow> False | Some s \<Rightarrow> contains_str (to_ascii_lowercase s) (bstr ''websocket''))))"

definition supported_version :: "http_lib \<Rightarrow> request_head \<Rightarrow> bool exec" where
  "supported_version lib req =
     exec_bind (hm_get lib (rq_headers req) (ByName SEC_WEBSOCKET_VERSION)) (\<lambda>hdr.
       Return (case hdr of
         None \<Rightarrow> False
       | Some v \<Rightarrow> v = bstr ''13'' \<or> v = bstr ''8'' \<or> v = bstr ''7''))"

definition verify_handshake :: "http_lib \<Rightarrow> request_head \<Rightarrow> (unit, handshake_error) result exec" where
  "verify_handshake lib req =
     (if rq_method req \<noteq> METHOD_GET then Return (Err HsGetMethodRequired)
      else exec_bind (has_websocket_upgrade lib req) (\<lambda>has_hdr.
        if \<not> has_hdr then Return (Err HsNoWebsocketUpgrade)
        else exec_bind (rq_upgrade lib req) (\<lambda>up.
          if \<not> up then Return (Err HsNoConnectionUpgrade)
          else if \<not> hm_contains_key lib (rq_headers req) (ByName SEC_WEBSOCKET_VERSION) then Return (Err HsNoVersionHeader)
          else exec_bind (supported_version lib req) (\<lambda>supported_ver.
            if \<not> supported_ver then Return (Err HsUnsupportedVersion)
            else if \<not> hm_contains_key lib (rq_headers req) (ByName SEC_WEBSOCKET_KEY) then Return (Err HsBadWebsocketKey)
            else Return (Ok ())))))"

section \<open>The response\<close>

text \<open>The digest functions and the conversion of a text into a header value are arguments.\<close>

record handshake_env =
  hs_sha1 :: "bytes \<Rightarrow> bytes"
  hs_base64 :: "bytes \<Rightarrow> bytes"
  hs_value :: "bytes \<Rightarrow> (header_value, http_error) result"

definition handshake_response ::
  "http_lib \<Rightarrow> handshake_env \<Rightarrow> response_pool \<Rightarrow> request_head \<Rightarrow> ('t, 'd) response_builder exec" where
  "handshake_response lib env pool req =
     exec_bind (hm_get lib (rq_headers req) (ByName SEC_WEBSOCKET_KEY)) (\<lambda>k.
       case k of
         None \<Rightarrow> Panic
       | Some key \<Rightarrow>
           (let key = hash_key (hs_sha1 env) (hs_base64 env) key;
                b = bu_new pool SWITCHING_PROTOCOLS;
                b = bu_upgrade (Ok (bstr ''websocket'')) b;
                b = bu_header (Ok TRANSFER_ENCODING) (Ok (bstr ''chunked'')) b;
                b = bu_header (Ok SEC_WEBSOCKET_ACCEPT) (hs_value env key) b
            in Return (fst (bu_take b))))"

definition handshake ::
  "http_lib \<Rightarrow> handshake_env \<Rightarrow> response_pool \<Rightarrow> request_head \<Rightarrow> (('t, 'd) response_builder, handshake_error) result exec" where
  "handshake lib env pool req =
     exec_bind (verify_handshake lib req) (\<lambda>r.
       case r of
         Err e \<Rightarrow> Return (Err e)
       | Ok _ \<Rightarrow> exec_bind (handshake_response lib env pool req) (\<lambda>b. Return (Ok b)))"

section \<open>Properties\<close>

text \<open>The first value of a name, as \<open>get\<close> finds it in a well-formed map.\<close>

definition first_value :: "header_map \<Rightarrow> header_name \<Rightarrow> header_value option" where
  "first_value m n = (case hm_values m n of [] \<Rightarrow> None | v # vs \<Rightarrow> Some v)"

lemma hm_get_first:
  assumes "hm_wf m"
  shows "hm_get lib m (ByName n) = Return (first_value m n)"
proof (cases "map_of m n")
  case (Some v)
  then have "value_wf v" using hm_wf_map_of assms by blast
  with Some show ?thesis
    by (cases v rule: value_get.cases) (auto simp: hm_get_def hm_get2_def as_name_def first_value_def hm_values_def value_wf_def)
qed (simp add: hm_get_def hm_get2_def as_name_def first_value_def hm_values_def)

lemma contains_first:
  assumes "hm_wf m"
  shows "hm_contains_key lib m (ByName n) \<longleftrightarrow> first_value m n \<noteq> None"
proof (cases "map_of m n")
  case (Some v)
  then have "value_wf v" using hm_wf_map_of assms by blast
  with Some show ?thesis
    by (cases v rule: value_get.cases) (auto simp: hm_contains_key_def as_name_def first_value_def hm_values_def value_wf_def)
qed (simp add: hm_contains_key_def as_name_def first_value_def hm_values_def)

text \<open>The first value of a name is a text that contains a word.\<close>

definition mentions :: "http_lib \<Rightarrow> request_head \<Rightarrow> header_name \<Rightarrow> bytes \<Rightarrow> bool" where
  "mentions lib req n word =
     (case first_value (rq_headers req) n of
        None \<Rightarrow> False
      | Some v \<Rightarrow> (case hl_to_str lib v of None \<Rightarrow> False | Some s \<Rightarrow> contains_str (to_ascii_lowercase s) word))"

text \<open>What a handshake has to satisfy, in order, with the error when it does not.\<close>

definition handshake_rules :: "http_lib \<Rightarrow> request_head \<Rightarrow> (bool \<times> handshake_error) list" where
  "handshake_rules lib req =
     [(rq_method req = METHOD_GET, HsGetMethodRequired),
      (mentions lib req UPGRADE (bstr ''websocket''), HsNoWebsocketUpgrade),
      (mentions lib req CONNECTION (bstr ''upgrade''), HsNoConnectionUpgrade),
      (first_value (rq_headers req) SEC_WEBSOCKET_VERSION \<noteq> None, HsNoVersionHeader),
      (first_value (rq_headers req) SEC_WEBSOCKET_VERSION \<in> Some ` {bstr ''13'', bstr ''8'', bstr ''7''}, HsUnsupportedVersion),
      (first_value (rq_headers req) SEC_WEBSOCKET_KEY \<noteq> None, HsBadWebsocketKey)]"

definition handshake_verdict :: "http_lib \<Rightarrow> request_head \<Rightarrow> (unit, handshake_error) result" where
  "handshake_verdict lib req =
     (case filter (\<lambda>(holds, e). \<not> holds) (handshake_rules lib req) of [] \<Rightarrow> Ok () | (_, e) # _ \<Rightarrow> Err e)"

lemma verify_handshake_eq:
  assumes wf: "hm_wf (rq_headers req)"
  shows "verify_handshake lib req = Return (handshake_verdict lib req)"
proof -
  have up: "has_websocket_upgrade lib req = Return (mentions lib req UPGRADE (bstr ''websocket''))"
    by (simp add: has_websocket_upgrade_def hm_get_first [OF wf] mentions_def del: bstr_Cons)
  have con: "rq_upgrade lib req = Return (mentions lib req CONNECTION (bstr ''upgrade''))"
    by (simp add: rq_upgrade_def hm_get_first [OF wf] mentions_def del: bstr_Cons split: option.split)
  have ver: "supported_version lib req =
      Return (first_value (rq_headers req) SEC_WEBSOCKET_VERSION \<in> Some ` {bstr ''13'', bstr ''8'', bstr ''7''})"
    by (auto simp: supported_version_def hm_get_first [OF wf] simp del: bstr_Cons split: option.split)
  show ?thesis
    by (simp add: verify_handshake_def up con ver contains_first [OF wf] handshake_verdict_def handshake_rules_def
        del: bstr_Cons image_insert)
qed

text \<open>
  Property C29. A handshake is judged by the rules of the protocol in their order: it is accepted when all hold, and otherwise the
  error of the first broken rule is returned. Verification never panics.
\<close>

theorem handshake_first_broken_rule:
  assumes "hm_wf (rq_headers req)"
  shows "verify_handshake lib req = Return (handshake_verdict lib req)"
  by (rule verify_handshake_eq [OF assms])

text \<open>
  Each error becomes a client error without a body; the one for a wrong method names the method that is allowed.
\<close>

theorem handshake_errors_answered:
  "\<exists>r. handshake_error_response pool lib hv e = Return r \<and> re_body r = RbBody BodyEmpty \<and>
     rs_status (re_head r) = (if e = HsGetMethodRequired then 405 else 400) \<and>
     hm_values (rs_headers (re_head r)) ALLOW = (if e = HsGetMethodRequired then [bstr ''GET''] else [])"
proof -
  have box: "rs_headers (boxed_head pool s) = []" "rs_status (boxed_head pool s) = s" for s
    by (cases "last pool", simp_all add: boxed_head_def rpool_get_message_def response_head_new_def hm_clear_def hm_new_def)
  show ?thesis
    by (cases e) (simp_all add: handshake_error_response_def bu_finish_def bu_message_body_def bu_header_def bu_reason_def
      bu_update_def bu_parts_def Response_MethodNotAllowed_def Response_BadRequest_def bu_new_def box hm_append_def hm_values_def
      del: bstr_Cons)
qed


section \<open>The accepted handshake\<close>

definition accept_key :: "handshake_env \<Rightarrow> bytes \<Rightarrow> bytes" where
  "accept_key env key = hs_base64 env (hs_sha1 env (key @ bstr ''258EAFA5-E914-47DA-95CA-C5AB0DC85B11''))"

definition accepted_head :: "response_pool \<Rightarrow> header_value \<Rightarrow> response_head" where
  "accepted_head pool v = rs_set_connection_type CtUpgrade ((boxed_head pool 101)\<lparr>rs_headers :=
     [(UPGRADE, One (bstr ''websocket'')), (TRANSFER_ENCODING, One (bstr ''chunked'')), (SEC_WEBSOCKET_ACCEPT, One v)]\<rparr>)"

lemma handshake_names:
  "UPGRADE \<noteq> TRANSFER_ENCODING" "UPGRADE \<noteq> SEC_WEBSOCKET_ACCEPT" "TRANSFER_ENCODING \<noteq> SEC_WEBSOCKET_ACCEPT"
  "SEC_WEBSOCKET_ACCEPT \<noteq> CONNECTION" "SEC_WEBSOCKET_ACCEPT \<noteq> CONTENT_LENGTH" "SEC_WEBSOCKET_ACCEPT \<noteq> DATE"
  "UPGRADE \<noteq> CONNECTION" "UPGRADE \<noteq> CONTENT_LENGTH" "UPGRADE \<noteq> DATE" "TRANSFER_ENCODING \<noteq> CONNECTION" "TRANSFER_ENCODING \<noteq> DATE"
  by (simp_all add: UPGRADE_def TRANSFER_ENCODING_def SEC_WEBSOCKET_ACCEPT_def CONNECTION_def CONTENT_LENGTH_def DATE_def)

lemmas handshake_names_sym = handshake_names [symmetric]

lemma boxed_head_clean: "rs_headers (boxed_head pool s) = []" "rs_status (boxed_head pool s) = s" "rs_flags (boxed_head pool s) = {}"
  "rs_reason (boxed_head pool s) = None"
  by (cases "last pool", simp_all add: boxed_head_def rpool_get_message_def response_head_new_def hm_clear_def hm_new_def)

lemma handshake_response_eq:
  assumes wf: "hm_wf (rq_headers req)" and key: "first_value (rq_headers req) SEC_WEBSOCKET_KEY = Some k"
    and v: "hs_value env (accept_key env k) = Ok v"
  shows "handshake_response lib env pool req =
    Return \<lparr>bu_head = Some (accepted_head pool v), bu_err = None, bu_cookies = None\<rparr>"
proof -
  have "hash_key (hs_sha1 env) (hs_base64 env) k = accept_key env k"
    by (simp add: hash_key_def ws_guid_def accept_key_def)
  then show ?thesis
    using handshake_names by (simp add: handshake_response_def hm_get_first [OF wf] key v bu_take_def bu_upgrade_def bu_set_header_def bu_header_def bu_update_def
      bu_parts_def bu_new_def boxed_head_clean accepted_head_def hm_insert_def hm_append_def rs_set_connection_type_def
      del: bstr_Cons)
qed

text \<open>
  When every rule holds, the handshake returns a builder whose response switches protocols, upgrades the connection, and
  carries the digest of the first key of the client. The key is always there when it is unwrapped.
\<close>

theorem handshake_accepts:
  assumes "hm_wf (rq_headers req)" and "handshake_verdict lib req = Ok ()"
    and value_ok: "\<And>s. \<exists>v. hs_value env s = Ok v"
  shows "\<exists>k v b. first_value (rq_headers req) SEC_WEBSOCKET_KEY = Some k \<and> hs_value env (accept_key env k) = Ok v \<and>
    handshake lib env pool req = Return (Ok b) \<and>
    bu_finish pool clib hv b = Return (\<lparr>re_head = accepted_head pool v, re_body = RbBody BodyEmpty, re_error = None\<rparr>, b\<lparr>bu_head := None\<rparr>) \<and>
    rs_status (accepted_head pool v) = 101 \<and> rs_upgrade (accepted_head pool v) \<and>
    hm_values (rs_headers (accepted_head pool v)) SEC_WEBSOCKET_ACCEPT = [v]"
proof -
  have "first_value (rq_headers req) SEC_WEBSOCKET_KEY \<noteq> None"
    using assms(2) by (auto simp: handshake_verdict_def handshake_rules_def split: if_splits simp del: bstr_Cons image_insert)
  then obtain k where k: "first_value (rq_headers req) SEC_WEBSOCKET_KEY = Some k" by blast
  obtain v where v: "hs_value env (accept_key env k) = Ok v" using value_ok by blast
  let ?b = "\<lparr>bu_head = Some (accepted_head pool v), bu_err = None, bu_cookies = None\<rparr>"
  have "handshake lib env pool req = Return (Ok ?b)"
    by (simp add: handshake_def verify_handshake_eq [OF assms(1)] assms(2) handshake_response_eq [OF assms(1) k v])
  moreover have "bu_finish pool clib hv ?b =
      Return (\<lparr>re_head = accepted_head pool v, re_body = RbBody BodyEmpty, re_error = None\<rparr>, ?b\<lparr>bu_head := None\<rparr>)"
    by (simp add: bu_finish_def bu_message_body_def accepted_head_def rs_set_connection_type_def)
  moreover have "rs_status (accepted_head pool v) = 101 \<and> rs_upgrade (accepted_head pool v)
      \<and> hm_values (rs_headers (accepted_head pool v)) SEC_WEBSOCKET_ACCEPT = [v]"
    using handshake_names by (simp add: accepted_head_def rs_set_connection_type_def boxed_head_clean rs_upgrade_def rs_connection_type_def hm_values_def
      ctype_flag.simps)
  ultimately show ?thesis using k v by blast
qed

text \<open>
  On the wire the accepted handshake announces a chunked body, which no response that switches protocols may have, in front
  of the lines of the upgrade; the frames that follow are not chunked.
\<close>

theorem handshake_announces_chunks:
  assumes "env_ok eenv" and visit: "\<And>m. mset (ee_visit eenv m) = mset m"
    and h: "h = (accepted_head pool v)\<lparr>rs_version := HTTP_11\<rparr>"
  shows "\<exists>out es. encode_response eenv lib enc h head stream version SzEmpty CtUpgrade dst = Some out \<and>
    mset es = {# bstr ''upgrade: websocket'' @ crlf, bstr ''sec-websocket-accept: '' @ v @ crlf #} \<and>
    ob_data (snd out) = ob_data dst @ bstr ''HTTP/1.1 101 '' @ rs_reason_str lib h @ crlf @
       bstr ''transfer-encoding: chunked'' @ crlf @ bstr ''connection: upgrade'' @ crlf @ concat es @
       bstr ''date: '' @ ee_date eenv @ crlf @ crlf"
proof -
  let ?hs = "rs_headers h"
  have st: "rs_status h = 101" "rs_chunked h"
    by (simp_all add: h accepted_head_def rs_set_connection_type_def boxed_head_clean rs_chunked_def)
  have none: "ee_visit eenv [] = []" using visit [of "[]"] by simp
  then have merged: "merged_headers eenv (response_view h) = ee_visit eenv ?hs"
    by (simp add: merged_headers_def response_view_def hm_new_def)
  let ?kept = "filter (header_kept True) (ee_visit eenv ?hs)"
  have "mset ?kept = filter_mset (header_kept True) (mset ?hs)" by (simp add: visit mset_filter)
  also have "\<dots> = {# (UPGRADE, One (bstr ''websocket'')), (SEC_WEBSOCKET_ACCEPT, One v) #}"
    using handshake_names by (simp add: h accepted_head_def rs_set_connection_type_def header_kept_def del: bstr_Cons)
  finally have "mset (map (entry_text False) ?kept) =
      {# entry_text False (UPGRADE, One (bstr ''websocket'')), entry_text False (SEC_WEBSOCKET_ACCEPT, One v) #}" by simp
  then have es: "mset (map (entry_text False) ?kept) =
      {# bstr ''upgrade: websocket'' @ crlf, bstr ''sec-websocket-accept: '' @ v @ crlf #}"
    by (simp add: entry_text_def header_line_def written_name_def UPGRADE_def SEC_WEBSOCKET_ACCEPT_def crlf_def)
  have "fst ` set (ee_visit eenv ?hs) = fst ` set ?hs" using visit [of ?hs] by (metis set_mset_mset)
  then have date: "DATE \<notin> fst ` set (ee_visit eenv ?hs)"
    using handshake_names by (auto simp: h accepted_head_def rs_set_connection_type_def)
  obtain out where out: "encode_response eenv lib enc h head stream version SzEmpty CtUpgrade dst = Some out"
    "ob_data (snd out) = ob_data dst @ response_text eenv lib h version SzEmpty CtUpgrade"
    using encode_response_ok [OF assms(1), of h SzEmpty lib enc head stream version CtUpgrade dst] st by (auto simp: size_ok_def)
  have "response_text eenv lib h version SzEmpty CtUpgrade = bstr ''HTTP/1.1 101 '' @ rs_reason_str lib h @ crlf @
       bstr ''transfer-encoding: chunked'' @ crlf @ bstr ''connection: upgrade'' @ crlf @
       concat (map (entry_text False) ?kept) @ bstr ''date: '' @ ee_date eenv @ crlf @ crlf"
    unfolding response_text_def headers_text_def merged using date st
    by (simp add: h adjust_length_def response_view_def length_text_def connection_text_def dec.simps digit_def)
  with out es show ?thesis by metis
qed


definition demo_handshake :: request_head where
  "demo_handshake = request_head_default\<lparr>rq_headers :=
     [(UPGRADE, One (bstr ''websocket'')), (CONNECTION, Multi [bstr ''keep-alive, Upgrade'', bstr ''close'']),
      (SEC_WEBSOCKET_VERSION, One (bstr ''13'')), (SEC_WEBSOCKET_KEY, One (bstr ''abc''))]\<rparr>"

definition demo_handshake_env :: handshake_env where
  "demo_handshake_env = \<lparr>hs_sha1 = take 3, hs_base64 = rev, hs_value = Ok\<rparr>"

lemma demo_handshake_facts:
  "hm_wf (rq_headers demo_handshake)" "handshake_verdict demo_http demo_handshake = Ok ()"
  by (simp_all add: demo_handshake_def hm_wf_def value_wf_def UPGRADE_def CONNECTION_def SEC_WEBSOCKET_VERSION_def
      SEC_WEBSOCKET_KEY_def handshake_verdict_def handshake_rules_def mentions_def first_value_def hm_values_def demo_http_def
      request_head_default_def to_ascii_lowercase_def to_lower_def)

lemma handshake_first_broken_rule_witness:
  "verify_handshake demo_http demo_handshake = Return (Ok ())"
  using handshake_first_broken_rule [OF demo_handshake_facts(1), of demo_http] demo_handshake_facts(2) by simp

lemma handshake_accepts_witness:
  "\<exists>k v b. first_value (rq_headers demo_handshake) SEC_WEBSOCKET_KEY = Some k \<and>
    hs_value demo_handshake_env (accept_key demo_handshake_env k) = Ok v \<and>
    handshake demo_http demo_handshake_env [] demo_handshake = Return (Ok b) \<and>
    bu_finish [] demo_cookie_lib Ok b =
      Return (\<lparr>re_head = accepted_head [] v, re_body = RbBody BodyEmpty, re_error = None :: unit error option\<rparr>, b\<lparr>bu_head := None\<rparr>) \<and>
    rs_status (accepted_head [] v) = 101 \<and> rs_upgrade (accepted_head [] v) \<and>
    hm_values (rs_headers (accepted_head [] v)) SEC_WEBSOCKET_ACCEPT = [v]"
  by (rule handshake_accepts [OF demo_handshake_facts]) (simp add: demo_handshake_env_def)

lemma handshake_announces_chunks_witness:
  "\<exists>out es. encode_response demo_encode_env demo_http message_encoder_default ((accepted_head [] [0x61])\<lparr>rs_version := HTTP_11\<rparr>)
      False False HTTP_11 SzEmpty CtUpgrade \<lparr>ob_data = [], ob_spare = []\<rparr> = Some out \<and>
    mset es = {# bstr ''upgrade: websocket'' @ crlf, bstr ''sec-websocket-accept: '' @ [0x61] @ crlf #} \<and>
    ob_data (snd out) = [] @ bstr ''HTTP/1.1 101 '' @ rs_reason_str demo_http ((accepted_head [] [0x61])\<lparr>rs_version := HTTP_11\<rparr>) @ crlf @
       bstr ''transfer-encoding: chunked'' @ crlf @ bstr ''connection: upgrade'' @ crlf @ concat es @
       bstr ''date: '' @ ee_date demo_encode_env @ crlf @ crlf"
  using handshake_announces_chunks [OF demo_encode_env_ok _ refl, of demo_http message_encoder_default "[]" "[0x61]" False False HTTP_11
      "\<lparr>ob_data = [], ob_spare = []\<rparr>"]
  by (simp add: demo_encode_env_def)

end
