(* ===== verification/Poll_Loop.thy ===== *)
theory Poll_Loop
  imports Rust_Prelude
begin

text \<open>
  The loop of a \<open>poll_next\<close> that goes round until an iteration answers, and readers that poll a stream to its end.
  The rules here reduce what a whole stream delivers to what one iteration does.
\<close>

partial_function (option) poll_loop ::
  "('d \<Rightarrow> 'w \<Rightarrow> 'p option \<times> 'd \<times> 'w) \<Rightarrow> 'd \<Rightarrow> 'w \<Rightarrow> ('p \<times> 'd \<times> 'w) option" where
  "poll_loop step d w =
     (case step d w of
        (Some p, d, w) \<Rightarrow> Some (p, d, w)
      | (None, d, w) \<Rightarrow> poll_loop step d w)"

lemma poll_loop_answer: "step d w = (Some p, d', w') \<Longrightarrow> poll_loop step d w = Some (p, d', w')"
  by (simp add: poll_loop.simps [of step d w])

lemma poll_loop_again: "step d w = (None, d', w') \<Longrightarrow> poll_loop step d w = poll_loop step d' w'"
  by (simp add: poll_loop.simps [of step d w])

type_synonym 'e item_poll = "(bytes, 'e) result option poll"

type_synonym ('e, 'd, 'w) stream_step = "'d \<Rightarrow> 'w \<Rightarrow> 'e item_poll option \<times> 'd \<times> 'w"

text \<open>Polls until the end, with what they deliver.\<close>

inductive delivers :: "('d \<Rightarrow> 'w \<Rightarrow> ('e item_poll \<times> 'd \<times> 'w) option) \<Rightarrow> 'd \<Rightarrow> 'w \<Rightarrow> bytes list \<Rightarrow> bool" for poll where
  ended: "poll d w = Some (Ready None, d', w') \<Longrightarrow> delivers poll d w []"
| piece: "poll d w = Some (Ready (Some (Ok b)), d', w') \<Longrightarrow> delivers poll d' w' outs \<Longrightarrow> delivers poll d w (b # outs)"
| waiting: "poll d w = Some (Pending, d', w') \<Longrightarrow> delivers poll d' w' outs \<Longrightarrow> delivers poll d w outs"

text \<open>
  An invariant \<open>keeps d ys\<close> of the states and of what they have delivered; an answer keeps it, the end has delivered the
  whole, and there are no errors. A measure decreases until the end.
\<close>

definition answer_ok :: "('d \<Rightarrow> bytes \<Rightarrow> bool) \<Rightarrow> bytes \<Rightarrow> bytes \<Rightarrow> 'e item_poll option \<Rightarrow> 'd \<Rightarrow> bool" where
  "answer_ok keeps whole ys p d' \<longleftrightarrow>
     (case p of
        None \<Rightarrow> keeps d' ys
      | Some Pending \<Rightarrow> keeps d' ys
      | Some (Ready None) \<Rightarrow> ys = whole
      | Some (Ready (Some (Ok b))) \<Rightarrow> keeps d' (ys @ b)
      | Some (Ready (Some (Err e))) \<Rightarrow> False)"

type_synonym patience = "nat \<times> nat \<times> nat"

definition less_patience :: "(patience \<times> patience) set" where
  "less_patience = less_than <*lex*> less_than <*lex*> less_than"

lemma less_patience_iff [simp]:
  "((a, b, c), (a', b', c')) \<in> less_patience \<longleftrightarrow> a < a' \<or> a = a' \<and> (b < b' \<or> b = b' \<and> c < c')"
  by (auto simp: less_patience_def)

lemma wf_less_patience: "wf less_patience"
  unfolding less_patience_def by (intro wf_lex_prod wf_less_than)

lemma trans_less_patience: "trans less_patience"
  unfolding less_patience_def by (intro trans_lex_prod trans_less_than)

definition step_ok ::
  "('e, 'd, 'w) stream_step \<Rightarrow> ('d \<Rightarrow> bytes \<Rightarrow> bool) \<Rightarrow> bytes \<Rightarrow> ('d \<Rightarrow> 'w \<Rightarrow> patience) \<Rightarrow> bool" where
  "step_ok step keeps whole m \<longleftrightarrow>
     (\<forall>d w ys p d' w'. keeps d ys \<longrightarrow> step d w = (p, d', w') \<longrightarrow>
        answer_ok keeps whole ys p d' \<and> (p \<noteq> Some (Ready None) \<longrightarrow> (m d' w', m d w) \<in> less_patience))"

lemma poll_loop_ok:
  assumes ok: "step_ok step keeps whole m" and "keeps d ys"
  shows "\<exists>p d' w'. poll_loop step d w = Some (p, d', w') \<and> answer_ok keeps whole ys (Some p) d' \<and>
    (p \<noteq> Ready None \<longrightarrow> (m d' w', m d w) \<in> less_patience)"
  using assms(2)
proof (induction "m d w" arbitrary: d w rule: wf_induct [OF wf_less_patience])
  case (1 d w)
  obtain p d' w' where step: "step d w = (p, d', w')" by (metis prod_cases3)
  then have sok: "answer_ok keeps whole ys p d'" "p \<noteq> Some (Ready None) \<longrightarrow> (m d' w', m d w) \<in> less_patience"
    using ok "1.prems" unfolding step_ok_def by blast+
  show ?case
  proof (cases p)
    case (Some r)
    with step sok show ?thesis by (simp add: poll_loop_answer)
  next
    case None
    with sok have less: "(m d' w', m d w) \<in> less_patience" and "keeps d' ys" by (simp_all add: answer_ok_def)
    then obtain r d'' w'' where r: "poll_loop step d' w' = Some (r, d'', w'')" "answer_ok keeps whole ys (Some r) d''"
        "r \<noteq> Ready None \<longrightarrow> (m d'' w'', m d' w') \<in> less_patience" using "1.hyps" by blast
    then have "r \<noteq> Ready None \<longrightarrow> (m d'' w'', m d w) \<in> less_patience"
      using less trans_less_patience [THEN transD] by blast
    with r None step show ?thesis by (simp add: poll_loop_again)
  qed
qed

lemma delivers_exists:
  assumes ok: "step_ok step keeps whole m" and "keeps d ys"
  shows "\<exists>outs. delivers (poll_loop step) d w outs"
  using assms(2)
proof (induction "m d w" arbitrary: d w ys rule: wf_induct [OF wf_less_patience])
  case (1 d w ys)
  obtain p d' w' where r: "poll_loop step d w = Some (p, d', w')" "answer_ok keeps whole ys (Some p) d'"
      "p \<noteq> Ready None \<longrightarrow> (m d' w', m d w) \<in> less_patience"
    using poll_loop_ok [OF ok "1.prems"] by blast
  consider (wait) "p = Pending" | (over) "p = Ready None" | (out) b where "p = Ready (Some (Ok b))"
    | (err) e where "p = Ready (Some (Err e))" by (metis option.exhaust poll.exhaust result.exhaust)
  then show ?case
  proof cases
    case wait
    have "\<exists>outs. delivers (poll_loop step) d' w' outs"
      using "1.hyps" [rule_format, of "m d' w'" d' w'] r wait by (auto simp: answer_ok_def)
    with r(1) wait show ?thesis by (auto intro: delivers.waiting)
  next
    case out
    have "\<exists>outs. delivers (poll_loop step) d' w' outs"
      using "1.hyps" [rule_format, of "m d' w'" d' w'] r out by (auto simp: answer_ok_def)
    with r(1) out show ?thesis by (auto intro: delivers.piece)
  qed (use r in \<open>auto intro: delivers.ended simp: answer_ok_def\<close>)
qed

lemma delivers_whole:
  assumes ok: "step_ok step keeps whole m"
  shows "delivers (poll_loop step) d w outs \<Longrightarrow> keeps d ys \<Longrightarrow> ys @ concat outs = whole"
proof (induction arbitrary: ys rule: delivers.induct)
  case (ended d w d' w')
  with poll_loop_ok [OF ok ended(2), of w] show ?case by (auto simp: answer_ok_def)
next
  case (piece d w b d' w' outs)
  with poll_loop_ok [OF ok piece.prems, of w] have "keeps d' (ys @ b)" by (auto simp: answer_ok_def)
  from piece.IH [OF this] show ?case by simp
next
  case (waiting d w d' w' outs)
  with poll_loop_ok [OF ok waiting.prems, of w] have "keeps d' ys" by (auto simp: answer_ok_def)
  from waiting.IH [OF this] show ?case .
qed

text \<open>
  The results that reading to the end can have. When the set has one element, every reader comes to the end and gets this text.
\<close>

definition read_results :: "('d \<Rightarrow> 'w \<Rightarrow> ('e item_poll \<times> 'd \<times> 'w) option) \<Rightarrow> 'd \<Rightarrow> 'w \<Rightarrow> bytes set" where
  "read_results poll d w = {concat outs | outs. delivers poll d w outs}"

lemma delivers_exactly:
  assumes "step_ok step keeps whole m" and "keeps d []"
  shows "read_results (poll_loop step) d w = {whole}"
proof -
  obtain outs where "delivers (poll_loop step) d w outs" using delivers_exists [OF assms] by blast
  with delivers_whole [OF assms(1) _ assms(2)] show ?thesis by (fastforce simp: read_results_def)
qed

text \<open>Chunks as they arrive, with the polls in between that find nothing.\<close>

fun script_poll :: "bytes option list \<Rightarrow> 'w \<Rightarrow> 'e item_poll \<times> bytes option list \<times> 'w" where
  "script_poll [] w = (Ready None, [], w)"
| "script_poll (None # s) w = (Pending, s, w)"
| "script_poll (Some b # s) w = (Ready (Some (Ok b)), s, w)"

fun script_data :: "bytes option list \<Rightarrow> bytes" where
  "script_data [] = []"
| "script_data (None # s) = script_data s"
| "script_data (Some b # s) = b @ script_data s"

section \<open>Waiting for a future\<close>

text \<open>A future is polled again and again until it is ready; one that is never ready does not return.\<close>

partial_function (option) await_future ::
  "('d \<Rightarrow> 'w \<Rightarrow> ('a poll \<times> 'd \<times> 'w) option) \<Rightarrow> 'd \<Rightarrow> 'w \<Rightarrow> ('a \<times> 'd \<times> 'w) option" where
  "await_future poll d w =
     Option.bind (poll d w) (\<lambda>(p, d, w).
       case p of
         Pending \<Rightarrow> await_future poll d w
       | Ready a \<Rightarrow> Some (a, d, w))"

lemma await_again: "step d w = (None, d', w') \<Longrightarrow> await_future (poll_loop step) d w = await_future (poll_loop step) d' w'"
  by (simp add: await_future.simps [of _ d w] await_future.simps [of _ d' w'] poll_loop_again)

lemma await_pending:
  "step d w = (Some Pending, d', w') \<Longrightarrow> await_future (poll_loop step) d w = await_future (poll_loop step) d' w'"
  by (simp add: await_future.simps [of _ d w] poll_loop_answer)

lemma await_ready: "step d w = (Some (Ready a), d', w') \<Longrightarrow> await_future (poll_loop step) d w = Some (a, d', w')"
  by (simp add: await_future.simps [of _ d w] poll_loop_answer)

text \<open>When an invariant holds and a measure decreases until the future is ready, waiting returns.\<close>

lemma await_rule:
  assumes step: "\<And>d w. keeps d w \<Longrightarrow> \<exists>p d' w'. step d w = (p, d', w') \<and>
      ((p = None \<or> p = Some Pending) \<and> keeps d' w' \<and> (m d' w', m d w) \<in> less_patience \<or>
       (\<exists>a. p = Some (Ready a) \<and> post a d' w'))"
    and "keeps d w"
  shows "\<exists>a d' w'. await_future (poll_loop step) d w = Some (a, d', w') \<and> post a d' w'"
  using assms(2)
proof (induction "m d w" arbitrary: d w rule: wf_induct [OF wf_less_patience])
  case (1 d w)
  obtain p d' w' where p: "step d w = (p, d', w')"
      "(p = None \<or> p = Some Pending) \<and> keeps d' w' \<and> (m d' w', m d w) \<in> less_patience \<or>
       (\<exists>a. p = Some (Ready a) \<and> post a d' w')"
    using step [OF "1.prems"] by blast
  then consider (on) "p = None \<or> p = Some Pending" "keeps d' w'" "(m d' w', m d w) \<in> less_patience"
    | (over) a where "p = Some (Ready a)" "post a d' w'" by blast
  then show ?case
  proof cases
    case on
    then have "await_future (poll_loop step) d w = await_future (poll_loop step) d' w'"
      using p(1) await_again await_pending by metis
    with "1.hyps" [rule_format, OF on(3) refl on(2)] show ?thesis by simp
  next
    case over
    with p(1) show ?thesis by (auto simp: await_ready)
  qed
qed

text \<open>What every iteration keeps holds when the wait returns.\<close>

lemma poll_loop_keeps:
  assumes "\<And>d w p d' w'. keeps d \<Longrightarrow> step d w = (p, d', w') \<Longrightarrow> keeps d'"
    and "poll_loop step d w = Some (p, d', w')" and "keeps d"
  shows "keeps d'"
proof -
  have "step = step \<longrightarrow> keeps d \<longrightarrow> keeps (fst (snd (p, d', w')))"
    by (rule poll_loop.raw_induct [OF _ assms(2), where P = "\<lambda>st d w r. st = step \<longrightarrow> keeps d \<longrightarrow> keeps (fst (snd r))"])
       (use assms(1) in \<open>fastforce split: prod.splits option.splits\<close>)
  with assms(3) show ?thesis by simp
qed

lemma await_keeps:
  assumes "\<And>d w p d' w'. keeps d \<Longrightarrow> poll d w = Some (p, d', w') \<Longrightarrow> keeps d'"
    and "await_future poll d w = Some (a, d', w')" and "keeps d"
  shows "keeps d'"
proof -
  have "poll = poll \<longrightarrow> keeps d \<longrightarrow> keeps (fst (snd (a, d', w')))"
    by (rule await_future.raw_induct [OF _ assms(2), where P = "\<lambda>p d w r. p = poll \<longrightarrow> keeps d \<longrightarrow> keeps (fst (snd r))"])
       (use assms(1) in \<open>fastforce split: Option.bind_splits poll.splits\<close>)
  with assms(3) show ?thesis by simp
qed

text \<open>A future whose every poll keeps it waiting never becomes ready.\<close>

lemma await_stuck:
  assumes "\<And>d w. stuck d w \<Longrightarrow> \<exists>d' w'. poll d w = Some (Pending, d', w') \<and> stuck d' w'"
  shows "stuck d w \<Longrightarrow> await_future poll d w = None"
proof -
  have "\<not> stuck d w" if "await_future poll d w = Some r" for r
  proof -
    have "poll = poll \<longrightarrow> \<not> stuck d w"
      by (rule await_future.raw_induct [OF _ that, where P = "\<lambda>p d w y. p = poll \<longrightarrow> \<not> stuck d w"])
         (use assms in \<open>fastforce split: Option.bind_splits\<close>)
    then show ?thesis by simp
  qed
  then show "stuck d w \<Longrightarrow> await_future poll d w = None" by (cases "await_future poll d w") auto
qed

text \<open>A poll of the world alone.\<close>

partial_function (option) until_ready :: "('w \<Rightarrow> 'a poll \<times> 'w) \<Rightarrow> 'w \<Rightarrow> ('a \<times> 'w) option" where
  "until_ready f w = (case f w of (Pending, w) \<Rightarrow> until_ready f w | (Ready a, w) \<Rightarrow> Some (a, w))"

lemma until_ready_now: "f w = (Ready a, w') \<Longrightarrow> until_ready f w = Some (a, w')"
  by (simp add: until_ready.simps [of f w])

end
