(* ===== verification/Content_Decoder.thy ===== *)
theory Content_Decoder
  imports Header_Map Header_Parsing Http_Error Poll_Loop
begin

text \<open>
  Decompression of a body (\<open>encoding/decoder.rs\<close>, and the buffer of \<open>encoding/mod.rs\<close>). The coders of the crates
  \<open>flate2\<close> and \<open>brotli2\<close> are parameters: a coder takes data, flushes or finishes, and writes to the buffer. Large chunks
  are decoded on a thread pool, whose answers are those of the environment.
\<close>

section \<open>Coders\<close>

record 'c coder =
  co_start :: 'c
  co_write :: "bytes \<Rightarrow> 'c \<Rightarrow> (unit, io_error) result \<times> bytes \<times> 'c"
  co_flush :: "'c \<Rightarrow> (unit, io_error) result \<times> bytes \<times> 'c"
  co_finish :: "'c \<Rightarrow> (unit, io_error) result \<times> bytes \<times> 'c"

text \<open>A coder together with its \<open>Writer\<close>.\<close>

record 'c sink =
  sk_coder :: 'c
  sk_writer :: bytes

definition sink_new :: "'c \<Rightarrow> 'c sink" where
  "sink_new c = \<lparr>sk_coder = c, sk_writer = []\<rparr>"

definition writer_write :: "bytes \<Rightarrow> bytes \<Rightarrow> bytes" where
  "writer_write data buf = buf @ data"

definition sink_take :: "'c sink \<Rightarrow> bytes \<times> 'c sink" where
  "sink_take s = (sk_writer s, s\<lparr>sk_writer := []\<rparr>)"

definition sink_do :: "('c \<Rightarrow> (unit, io_error) result \<times> bytes \<times> 'c) \<Rightarrow> 'c sink \<Rightarrow> (unit, io_error) result \<times> 'c sink" where
  "sink_do f s = (let (r, out, c) = f (sk_coder s) in (r, \<lparr>sk_coder = c, sk_writer = writer_write out (sk_writer s)\<rparr>))"

text \<open>\<open>let b = decoder.get_mut().take(); if !b.is_empty() { Some(b) } else { None }\<close>\<close>

definition take_some :: "'c sink \<Rightarrow> bytes option \<times> 'c sink" where
  "take_some s = (let (b, s) = sink_take s in (if b \<noteq> [] then Some b else None, s))"

record 'c decoders =
  dl_inflate :: "'c coder"
  dl_gunzip :: "'c coder"
  dl_unbrotli :: "'c coder"

datatype 'c content_decoder = CdDeflate "'c sink" | CdGzip "'c sink" | CdBr "'c sink"

fun decoder_feed_eof :: "'c decoders \<Rightarrow> 'c content_decoder \<Rightarrow> (bytes option, io_error) result \<times> 'c content_decoder" where
  "decoder_feed_eof lib (CdBr s) =
     (case sink_do (co_flush (dl_unbrotli lib)) s of
        (Ok _, s) \<Rightarrow> (let (b, s) = take_some s in (Ok b, CdBr s))
      | (Err e, s) \<Rightarrow> (Err e, CdBr s))"
| "decoder_feed_eof lib (CdGzip s) =
     (case sink_do (co_finish (dl_gunzip lib)) s of
        (Ok _, s) \<Rightarrow> (let (b, s) = take_some s in (Ok b, CdGzip s))
      | (Err e, s) \<Rightarrow> (Err e, CdGzip s))"
| "decoder_feed_eof lib (CdDeflate s) =
     (case sink_do (co_finish (dl_inflate lib)) s of
        (Ok _, s) \<Rightarrow> (let (b, s) = take_some s in (Ok b, CdDeflate s))
      | (Err e, s) \<Rightarrow> (Err e, CdDeflate s))"

fun decoder_feed_data :: "'c decoders \<Rightarrow> bytes \<Rightarrow> 'c content_decoder \<Rightarrow> (bytes option, io_error) result \<times> 'c content_decoder" where
  "decoder_feed_data lib data (CdBr s) =
     (case sink_do (co_write (dl_unbrotli lib) data) s of
        (Ok _, s) \<Rightarrow>
          (case sink_do (co_flush (dl_unbrotli lib)) s of
             (Err e, s) \<Rightarrow> (Err e, CdBr s)
           | (Ok _, s) \<Rightarrow> (let (b, s) = take_some s in (Ok b, CdBr s)))
      | (Err e, s) \<Rightarrow> (Err e, CdBr s))"
| "decoder_feed_data lib data (CdGzip s) =
     (case sink_do (co_write (dl_gunzip lib) data) s of
        (Ok _, s) \<Rightarrow>
          (case sink_do (co_flush (dl_gunzip lib)) s of
             (Err e, s) \<Rightarrow> (Err e, CdGzip s)
           | (Ok _, s) \<Rightarrow> (let (b, s) = take_some s in (Ok b, CdGzip s)))
      | (Err e, s) \<Rightarrow> (Err e, CdGzip s))"
| "decoder_feed_data lib data (CdDeflate s) =
     (case sink_do (co_write (dl_inflate lib) data) s of
        (Ok _, s) \<Rightarrow>
          (case sink_do (co_flush (dl_inflate lib)) s of
             (Err e, s) \<Rightarrow> (Err e, CdDeflate s)
           | (Ok _, s) \<Rightarrow> (let (b, s) = take_some s in (Ok b, CdDeflate s)))
      | (Err e, s) \<Rightarrow> (Err e, CdDeflate s))"

section \<open>The stream\<close>

text \<open>
  A job of the thread pool holds what its closure has captured; its result is computed when the pool says that the job is
  finished. What a future answers that is polled after it has answered is left to the environment.
\<close>

datatype 'j cpu_future = CpuRunning 'j | CpuDone

datatype cpu_answer = CpuPending | CpuFinished | CpuCanceled

type_synonym chunk_poll = "payload_error item_poll"

record ('c, 's, 'w) decode_env =
  ev_coders :: "'c decoders"
  ev_stream :: "'s \<Rightarrow> 'w \<Rightarrow> chunk_poll \<times> 's \<times> 'w"
  ev_cpu :: "'w \<Rightarrow> cpu_answer \<times> 'w"
  ev_again :: "(bytes option \<times> 'c content_decoder, io_error blocking_error) result poll"

record ('c, 's) content_stream =
  cs_decoder :: "'c content_decoder option"
  cs_stream :: 's
  cs_eof :: bool
  cs_fut :: "('c content_decoder \<times> bytes) cpu_future option"

definition DECODE_INPLACE :: nat where "DECODE_INPLACE = 2049"

definition decoder_new :: "'c decoders \<Rightarrow> 's \<Rightarrow> content_encoding \<Rightarrow> ('c, 's) content_stream" where
  "decoder_new lib strm enc =
     \<lparr>cs_decoder =
        (case enc of
           CeBr \<Rightarrow> Some (CdBr (sink_new (co_start (dl_unbrotli lib))))
         | CeDeflate \<Rightarrow> Some (CdDeflate (sink_new (co_start (dl_inflate lib))))
         | CeGzip \<Rightarrow> Some (CdGzip (sink_new (co_start (dl_gunzip lib))))
         | _ \<Rightarrow> None),
      cs_stream = strm, cs_eof = False, cs_fut = None\<rparr>"

definition CONTENT_ENCODING :: header_name where "CONTENT_ENCODING = bstr ''content-encoding''"

definition decoder_from_headers :: "http_lib \<Rightarrow> 'c decoders \<Rightarrow> 's \<Rightarrow> header_map \<Rightarrow> ('c, 's) content_stream exec" where
  "decoder_from_headers hl lib strm headers =
     (case hm_get hl headers (ByName CONTENT_ENCODING) of
        Panic \<Rightarrow> Panic
      | Return None \<Rightarrow> Return (decoder_new lib strm CeIdentity)
      | Return (Some enc) \<Rightarrow>
          (case hl_to_str hl enc of
             Some s \<Rightarrow> Return (decoder_new lib strm (ce_from_str s))
           | None \<Rightarrow> Return (decoder_new lib strm CeIdentity)))"

definition poll_job ::
  "('c, 's, 'w) decode_env \<Rightarrow> ('c content_decoder \<times> bytes) cpu_future \<Rightarrow> 'w \<Rightarrow>
   (bytes option \<times> 'c content_decoder, io_error blocking_error) result poll \<times> ('c content_decoder \<times> bytes) cpu_future \<times> 'w" where
  "poll_job env fut w =
     (case fut of
        CpuDone \<Rightarrow> (ev_again env, CpuDone, w)
      | CpuRunning (decoder, chunk) \<Rightarrow>
          (case ev_cpu env w of
             (CpuPending, w) \<Rightarrow> (Pending, fut, w)
           | (CpuCanceled, w) \<Rightarrow> (Ready (Err BlCanceled), CpuDone, w)
           | (CpuFinished, w) \<Rightarrow>
               (Ready (case decoder_feed_data (ev_coders env) chunk decoder of
                         (Ok out, decoder) \<Rightarrow> Ok (out, decoder)
                       | (Err e, _) \<Rightarrow> Err (BlError e)), CpuDone, w)))"

text \<open>The first part of an iteration: the job, if there is one. \<open>None\<close> goes on.\<close>

definition decoder_job ::
  "('c, 's, 'w) decode_env \<Rightarrow> ('c, 's) content_stream \<Rightarrow> 'w \<Rightarrow> chunk_poll option \<times> ('c, 's) content_stream \<times> 'w" where
  "decoder_job env d w =
     (case cs_fut d of
        None \<Rightarrow> (None, d, w)
      | Some fut \<Rightarrow>
          (case poll_job env fut w of
             (Pending, fut, w) \<Rightarrow> (Some Pending, d\<lparr>cs_fut := Some fut\<rparr>, w)
           | (Ready (Err e), fut, w) \<Rightarrow>
               (Some (Ready (Some (Err (payload_error_from_blocking e)))), d\<lparr>cs_fut := Some fut\<rparr>, w)
           | (Ready (Ok (chunk, decoder)), fut, w) \<Rightarrow>
               (let d = d\<lparr>cs_decoder := Some decoder, cs_fut := None\<rparr>
                in (case chunk of Some c \<Rightarrow> (Some (Ready (Some (Ok c))), d, w) | None \<Rightarrow> (None, d, w)))))"

text \<open>The chunk that the stream has yielded, and the end of the stream.\<close>

definition decoder_chunk ::
  "'c decoders \<Rightarrow> bytes \<Rightarrow> ('c, 's) content_stream \<Rightarrow> chunk_poll option \<times> ('c, 's) content_stream" where
  "decoder_chunk lib chunk d =
     (case cs_decoder d of
        None \<Rightarrow> (Some (Ready (Some (Ok chunk))), d)
      | Some decoder \<Rightarrow>
          (let d = d\<lparr>cs_decoder := None\<rparr>
           in if length chunk < DECODE_INPLACE then
                (case decoder_feed_data lib chunk decoder of
                   (Err e, decoder) \<Rightarrow> (Some (Ready (Some (Err (payload_error_from_io e)))), d)
                 | (Ok out, decoder) \<Rightarrow>
                     (let d = d\<lparr>cs_decoder := Some decoder\<rparr>
                      in case out of Some c \<Rightarrow> (Some (Ready (Some (Ok c))), d) | None \<Rightarrow> (None, d)))
              else (None, d\<lparr>cs_fut := Some (CpuRunning (decoder, chunk))\<rparr>)))"

definition decoder_end :: "'c decoders \<Rightarrow> ('c, 's) content_stream \<Rightarrow> chunk_poll \<times> ('c, 's) content_stream" where
  "decoder_end lib d =
     (let d = d\<lparr>cs_eof := True\<rparr>
      in case cs_decoder d of
           None \<Rightarrow> (Ready None, d)
         | Some decoder \<Rightarrow>
             (Ready (case fst (decoder_feed_eof lib decoder) of
                       Ok (Some res) \<Rightarrow> Some (Ok res)
                     | Ok None \<Rightarrow> None
                     | Err e \<Rightarrow> Some (Err (payload_error_from_io e))), d\<lparr>cs_decoder := None\<rparr>))"

definition decoder_step ::
  "('c, 's, 'w) decode_env \<Rightarrow> ('c, 's) content_stream \<Rightarrow> 'w \<Rightarrow> chunk_poll option \<times> ('c, 's) content_stream \<times> 'w" where
  "decoder_step env d w =
     (case decoder_job env d w of
        (Some p, d, w) \<Rightarrow> (Some p, d, w)
      | (None, d, w) \<Rightarrow>
          if cs_eof d then (Some (Ready None), d, w)
          else
            (case ev_stream env (cs_stream d) w of
               (p, s, w) \<Rightarrow>
                 (let d = d\<lparr>cs_stream := s\<rparr>
                  in case p of
                       Pending \<Rightarrow> (Some Pending, d, w)
                     | Ready (Some (Err e)) \<Rightarrow> (Some (Ready (Some (Err e))), d, w)
                     | Ready (Some (Ok chunk)) \<Rightarrow> (let (p, d) = decoder_chunk (ev_coders env) chunk d in (p, d, w))
                     | Ready None \<Rightarrow> (let (p, d) = decoder_end (ev_coders env) d in (Some p, d, w)))))"

definition decoder_poll ::
  "('c, 's, 'w) decode_env \<Rightarrow> ('c, 's) content_stream \<Rightarrow> 'w \<Rightarrow> (chunk_poll \<times> ('c, 's) content_stream \<times> 'w) option" where
  "decoder_poll env = poll_loop (decoder_step env)"

section \<open>What a coder does\<close>

fun cd_sink :: "'c content_decoder \<Rightarrow> 'c sink" where
  "cd_sink (CdDeflate s) = s"
| "cd_sink (CdGzip s) = s"
| "cd_sink (CdBr s) = s"

fun cd_coder :: "'c decoders \<Rightarrow> 'c content_decoder \<Rightarrow> 'c coder" where
  "cd_coder lib (CdDeflate s) = dl_inflate lib"
| "cd_coder lib (CdGzip s) = dl_gunzip lib"
| "cd_coder lib (CdBr s) = dl_unbrotli lib"

text \<open>How the end of the input is told to the coder: Brotli is only flushed.\<close>

fun cd_end :: "'c decoders \<Rightarrow> 'c content_decoder \<Rightarrow> 'c \<Rightarrow> (unit, io_error) result \<times> bytes \<times> 'c" where
  "cd_end lib (CdDeflate s) = co_finish (dl_inflate lib)"
| "cd_end lib (CdGzip s) = co_finish (dl_gunzip lib)"
| "cd_end lib (CdBr s) = co_flush (dl_unbrotli lib)"

text \<open>
  A relation between a coder, the input it has taken and the output it has given. On the inputs that \<open>good\<close> accepts, writing
  and flushing succeed and keep the relation, and ending makes the output the decoded text.
\<close>

definition coder_ok ::
  "'c coder \<Rightarrow> ('c \<Rightarrow> (unit, io_error) result \<times> bytes \<times> 'c) \<Rightarrow> ('c \<Rightarrow> bytes \<Rightarrow> bytes \<Rightarrow> bool) \<Rightarrow> bytes \<Rightarrow> bytes \<Rightarrow> bool" where
  "coder_ok co fin seen whole decoded \<longleftrightarrow>
     seen (co_start co) [] [] \<and>
     (\<forall>c xs ys data zs. seen c xs ys \<and> whole = xs @ data @ zs \<longrightarrow>
        (\<exists>out c'. co_write co data c = (Ok (), out, c') \<and> seen c' (xs @ data) (ys @ out))) \<and>
     (\<forall>c xs ys zs. seen c xs ys \<and> whole = xs @ zs \<longrightarrow> (\<exists>out c'. co_flush co c = (Ok (), out, c') \<and> seen c' xs (ys @ out))) \<and>
     (\<forall>c ys. seen c whole ys \<longrightarrow> (\<exists>out c'. fin c = (Ok (), out, c') \<and> ys @ out = decoded))"

lemma coder_writes:
  assumes "coder_ok co fin seen whole decoded" and "seen c xs ys" and "whole = xs @ data @ zs"
  obtains out c' where "co_write co data c = (Ok (), out, c')" "seen c' (xs @ data) (ys @ out)"
proof -
  have "\<exists>out c'. co_write co data c = (Ok (), out, c') \<and> seen c' (xs @ data) (ys @ out)"
    using assms(1) [unfolded coder_ok_def, THEN conjunct2, THEN conjunct1, rule_format, OF conjI [OF assms(2,3)]] .
  then show ?thesis using that by blast
qed

lemma coder_flushes:
  assumes "coder_ok co fin seen whole decoded" and "seen c xs ys" and "whole = xs @ zs"
  obtains out c' where "co_flush co c = (Ok (), out, c')" "seen c' xs (ys @ out)"
proof -
  have "\<exists>out c'. co_flush co c = (Ok (), out, c') \<and> seen c' xs (ys @ out)"
    using assms(1) [unfolded coder_ok_def, THEN conjunct2, THEN conjunct2, THEN conjunct1, rule_format, OF conjI [OF assms(2,3)]] .
  then show ?thesis using that by blast
qed

lemma coder_ends:
  assumes "coder_ok co fin seen whole decoded" and "seen c whole ys"
  obtains out c' where "fin c = (Ok (), out, c')" "ys @ out = decoded"
proof -
  have "\<exists>out c'. fin c = (Ok (), out, c') \<and> ys @ out = decoded"
    using assms(1) [unfolded coder_ok_def, THEN conjunct2, THEN conjunct2, THEN conjunct2, rule_format, OF assms(2)] .
  then show ?thesis using that by blast
qed

lemma feed_data_ok:
  assumes ok: "coder_ok (cd_coder lib d) fin seen whole decoded" and emp: "sk_writer (cd_sink d) = []"
    and sn: "seen (sk_coder (cd_sink d)) xs ys" and tot: "whole = xs @ data @ zs"
  shows "\<exists>out d'. decoder_feed_data lib data d = (Ok (if out = [] then None else Some out), d') \<and>
    cd_coder lib d' = cd_coder lib d \<and> cd_end lib d' = cd_end lib d \<and> sk_writer (cd_sink d') = [] \<and>
    seen (sk_coder (cd_sink d')) (xs @ data) (ys @ out)"
proof -
  obtain o1 c1 where 1: "co_write (cd_coder lib d) data (sk_coder (cd_sink d)) = (Ok (), o1, c1)" "seen c1 (xs @ data) (ys @ o1)"
    using coder_writes [OF ok sn tot] by blast
  have "whole = (xs @ data) @ zs" using tot by simp
  then obtain o2 c2 where 2: "co_flush (cd_coder lib d) c1 = (Ok (), o2, c2)" "seen c2 (xs @ data) ((ys @ o1) @ o2)"
    using coder_flushes [OF ok 1(2)] by blast
  show ?thesis
    using 1 2 emp by (cases d) (auto simp: sink_do_def take_some_def sink_take_def writer_write_def Let_def)
qed

lemma feed_eof_ok:
  assumes ok: "coder_ok (cd_coder lib d) (cd_end lib d) seen whole decoded" and emp: "sk_writer (cd_sink d) = []"
    and sn: "seen (sk_coder (cd_sink d)) whole ys"
  shows "\<exists>out. fst (decoder_feed_eof lib d) = Ok (if out = [] then None else Some out) \<and> ys @ out = decoded"
proof -
  obtain o1 c1 where "cd_end lib d (sk_coder (cd_sink d)) = (Ok (), o1, c1)" "ys @ o1 = decoded"
    using coder_ends [OF ok sn] by blast
  then show ?thesis using emp by (cases d) (auto simp: sink_do_def take_some_def sink_take_def writer_write_def Let_def)
qed

section \<open>Reading a whole body\<close>

text \<open>The pool finishes its jobs: it never cancels one, and it does not stay busy for ever.\<close>

definition pool_works :: "('c, 's, 'w) decode_env \<Rightarrow> ('w \<Rightarrow> nat) \<Rightarrow> bool" where
  "pool_works env rank \<longleftrightarrow>
     (\<forall>w. fst (ev_cpu env w) \<noteq> CpuCanceled \<and> (fst (ev_cpu env w) = CpuPending \<longrightarrow> rank (snd (ev_cpu env w)) < rank w))"

definition scripted :: "('c, bytes option list, 'w) decode_env \<Rightarrow> bool" where
  "scripted env \<longleftrightarrow> ev_stream env = script_poll"

text \<open>
  What holds between polls: the coder has taken the input up to the chunk in the pool, and its output has been delivered; after
  the end everything has been delivered.
\<close>

definition decoding ::
  "'c decoders \<Rightarrow> 'c coder \<Rightarrow> ('c \<Rightarrow> (unit, io_error) result \<times> bytes \<times> 'c) \<Rightarrow> ('c \<Rightarrow> bytes \<Rightarrow> bytes \<Rightarrow> bool) \<Rightarrow> bytes \<Rightarrow> bytes \<Rightarrow>
   ('c, bytes option list) content_stream \<Rightarrow> bytes \<Rightarrow> bool" where
  "decoding lib co fin seen whole decoded d ys \<longleftrightarrow>
     (if cs_eof d then cs_fut d = None \<and> cs_decoder d = None \<and> ys = decoded
      else \<exists>xs.
        (case (cs_decoder d, cs_fut d) of
           (Some cd, None) \<Rightarrow>
             cd_coder lib cd = co \<and> cd_end lib cd = fin \<and> sk_writer (cd_sink cd) = [] \<and> seen (sk_coder (cd_sink cd)) xs ys \<and>
             whole = xs @ script_data (cs_stream d)
         | (None, Some (CpuRunning (cd, chunk))) \<Rightarrow>
             cd_coder lib cd = co \<and> cd_end lib cd = fin \<and> sk_writer (cd_sink cd) = [] \<and> seen (sk_coder (cd_sink cd)) xs ys \<and>
             whole = xs @ chunk @ script_data (cs_stream d)
         | _ \<Rightarrow> False))"


text \<open>One iteration of the loop keeps this, and uses up an entry of the script, the job or patience with the pool.\<close>

definition patience :: "('w \<Rightarrow> nat) \<Rightarrow> ('c, bytes option list) content_stream \<Rightarrow> 'w \<Rightarrow> nat \<times> nat \<times> nat" where
  "patience rank d w = (length (cs_stream d) + (if cs_eof d then 0 else 1), (if cs_fut d = None then 0 else 1), rank w)"

lemma decoder_job_ok:
  assumes ok: "coder_ok co fin seen whole decoded" and pool: "pool_works env rank"
    and inv: "decoding (ev_coders env) co fin seen whole decoded d ys"
    and job: "decoder_job env d w = (p, d', w')"
  shows "answer_ok (decoding (ev_coders env) co fin seen whole decoded) decoded ys p d' \<and> cs_stream d' = cs_stream d \<and> cs_eof d' = cs_eof d \<and>
    (p = None \<longrightarrow> cs_fut d' = None) \<and> (p \<noteq> None \<longrightarrow> (patience rank d' w', patience rank d w) \<in> less_patience)"
proof (cases "cs_fut d")
  case None
  with job inv show ?thesis by (auto simp: decoder_job_def answer_ok_def)
next
  case (Some fut)
  obtain cd chunk xs where run: "\<not> cs_eof d" "cs_decoder d = None" "fut = CpuRunning (cd, chunk)" "cd_coder (ev_coders env) cd = co"
    "cd_end (ev_coders env) cd = fin" "sk_writer (cd_sink cd) = []" "seen (sk_coder (cd_sink cd)) xs ys"
    "whole = xs @ chunk @ script_data (cs_stream d)"
    using inv Some unfolding decoding_def by (auto split: if_splits option.splits cpu_future.splits)
  obtain a w1 where cpu: "ev_cpu env w = (a, w1)" by (cases "ev_cpu env w")
  with pool have alive: "a \<noteq> CpuCanceled" "a = CpuPending \<Longrightarrow> rank w1 < rank w"
    unfolding pool_works_def by (metis fst_conv, metis fst_conv snd_conv)
  show ?thesis
  proof (cases a)
    case CpuPending
    with Some run cpu job have "p = Some Pending" "d' = d" "w' = w1" by (auto simp: decoder_job_def poll_job_def)
    with inv alive CpuPending show ?thesis by (simp add: answer_ok_def patience_def)
  next
    case CpuFinished
    obtain out cd' where feed: "decoder_feed_data (ev_coders env) chunk cd = (Ok (if out = [] then None else Some out), cd')"
      "cd_coder (ev_coders env) cd' = co" "cd_end (ev_coders env) cd' = fin" "sk_writer (cd_sink cd') = []"
      "seen (sk_coder (cd_sink cd')) (xs @ chunk) (ys @ out)"
      using feed_data_ok [of "ev_coders env" cd fin seen whole decoded xs ys chunk "script_data (cs_stream d)"] ok run by auto
    have res: "p = (if out = [] then None else Some (Ready (Some (Ok out))))" "d' = d\<lparr>cs_decoder := Some cd', cs_fut := None\<rparr>"
      using Some run cpu job feed(1) CpuFinished by (auto simp: decoder_job_def poll_job_def Let_def split: if_splits)
    have "decoding (ev_coders env) co fin seen whole decoded d' (ys @ out)"
      using run feed res(2) by (auto simp: decoding_def)
    with res Some run show ?thesis by (auto simp: answer_ok_def patience_def)
  qed (use alive in simp)
qed

lemma decoder_chunk_ok:
  assumes ok: "coder_ok co fin seen whole decoded"
    and inv: "cs_decoder d = Some cd" "cs_fut d = None" "\<not> cs_eof d" "cd_coder lib cd = co" "cd_end lib cd = fin"
      "sk_writer (cd_sink cd) = []" "seen (sk_coder (cd_sink cd)) xs ys" "whole = xs @ chunk @ script_data (cs_stream d)"
    and chunk: "decoder_chunk lib chunk d = (p, d')"
  shows "answer_ok (decoding lib co fin seen whole decoded) decoded ys p d' \<and> cs_stream d' = cs_stream d \<and> cs_eof d' = cs_eof d"
proof (cases "length chunk < DECODE_INPLACE")
  case False
  with inv chunk show ?thesis by (auto simp: decoder_chunk_def answer_ok_def decoding_def Let_def)
next
  case True
  obtain out cd' where feed: "decoder_feed_data lib chunk cd = (Ok (if out = [] then None else Some out), cd')"
      "cd_coder lib cd' = co" "cd_end lib cd' = fin" "sk_writer (cd_sink cd') = []"
      "seen (sk_coder (cd_sink cd')) (xs @ chunk) (ys @ out)"
    using feed_data_ok [of lib cd fin seen whole decoded xs ys chunk "script_data (cs_stream d)"] ok inv by auto
  have res: "p = (if out = [] then None else Some (Ready (Some (Ok out))))" "d' = d\<lparr>cs_decoder := Some cd'\<rparr>"
    using True inv feed(1) chunk by (cases d; auto simp: decoder_chunk_def Let_def split: if_splits)+
  have "decoding lib co fin seen whole decoded d' (ys @ out)"
    using inv feed res(2) by (auto simp: decoding_def)
  with res show ?thesis by (auto simp: answer_ok_def)
qed


lemma decoder_end_ok:
  assumes ok: "coder_ok co fin seen whole decoded"
    and inv: "cs_decoder d = Some cd" "cs_fut d = None" "cd_coder lib cd = co" "cd_end lib cd = fin"
      "sk_writer (cd_sink cd) = []" "seen (sk_coder (cd_sink cd)) whole ys"
    and stop: "decoder_end lib d = (p, d')"
  shows "answer_ok (decoding lib co fin seen whole decoded) decoded ys (Some p) d' \<and> cs_stream d' = cs_stream d \<and> cs_eof d'"
proof -
  obtain out where "fst (decoder_feed_eof lib cd) = Ok (if out = [] then None else Some out)" "ys @ out = decoded"
    using feed_eof_ok [of lib cd seen whole decoded ys] ok inv by auto
  with inv stop show ?thesis
    by (cases "out = []") (auto simp: decoder_end_def Let_def answer_ok_def decoding_def)
qed

lemma decoder_step_ok:
  assumes ok: "coder_ok co fin seen whole decoded" and pool: "pool_works env rank" and sc: "scripted env"
    and inv: "decoding (ev_coders env) co fin seen whole decoded d ys"
    and step: "decoder_step env d w = (p, d', w')"
  shows "answer_ok (decoding (ev_coders env) co fin seen whole decoded) decoded ys p d' \<and>
    (p \<noteq> Some (Ready None) \<longrightarrow> (patience rank d' w', patience rank d w) \<in> less_patience)"
proof -
  obtain q d1 w1 where job: "decoder_job env d w = (q, d1, w1)" by (metis prod_cases3)
  note jok = decoder_job_ok [OF ok pool inv job]
  show ?thesis
  proof (cases q)
    case (Some r)
    with step job have "p = Some r" "d' = d1" "w' = w1" by (simp_all add: decoder_step_def)
    with jok Some show ?thesis by simp
  next
    case None
    with jok have inv1: "decoding (ev_coders env) co fin seen whole decoded d1 ys" "cs_fut d1 = None"
      by (simp_all add: answer_ok_def)
    show ?thesis
    proof (cases "cs_eof d1")
      case True
      with step job None inv1 show ?thesis by (auto simp: decoder_step_def answer_ok_def decoding_def)
    next
      case False
      then obtain xs cd where st: "cs_decoder d1 = Some cd" "cd_coder (ev_coders env) cd = co" "cd_end (ev_coders env) cd = fin"
          "sk_writer (cd_sink cd) = []" "seen (sk_coder (cd_sink cd)) xs ys" "whole = xs @ script_data (cs_stream d1)"
        using inv1 unfolding decoding_def by (auto split: option.splits)
      have eof: "\<not> cs_eof d" "cs_stream d1 = cs_stream d" using jok False by simp_all
      consider (over) "cs_stream d1 = []" | (idle) s where "cs_stream d1 = None # s" | (chunk) b s where "cs_stream d1 = Some b # s"
        by (metis list.exhaust option.exhaust)
      then show ?thesis
      proof cases
        case over
        obtain e d2 where e: "decoder_end (ev_coders env) (d1\<lparr>cs_stream := []\<rparr>) = (e, d2)" by (metis surj_pair)
        have "p = Some e" "d' = d2" "w' = w1"
          using step job None False over e sc by (simp_all add: decoder_step_def scripted_def)
        moreover have "answer_ok (decoding (ev_coders env) co fin seen whole decoded) decoded ys (Some e) d2 \<and> cs_stream d2 = [] \<and> cs_eof d2"
          using decoder_end_ok [OF ok, of "d1\<lparr>cs_stream := []\<rparr>", OF _ _ _ _ _ _ e] st inv1 over by simp
        ultimately show ?thesis using eof over by (simp add: patience_def)
      next
        case idle
        have res: "p = Some Pending" "d' = d1\<lparr>cs_stream := s\<rparr>" "w' = w1"
          using step job None False idle sc by (simp_all add: decoder_step_def scripted_def)
        have "whole = xs @ script_data s" using st(6) idle by simp
        then have "decoding (ev_coders env) co fin seen whole decoded d' ys"
          using st(1-5) inv1(2) False by (auto simp: res(2) decoding_def)
        moreover have "cs_stream d = None # s" using eof idle by simp
        ultimately show ?thesis using eof by (simp add: res answer_ok_def patience_def)
      next
        case chunk
        obtain e d2 where e: "decoder_chunk (ev_coders env) b (d1\<lparr>cs_stream := s\<rparr>) = (e, d2)" by (metis surj_pair)
        have res: "p = e" "d' = d2" "w' = w1"
          using step job None False chunk e sc by (simp_all add: decoder_step_def scripted_def)
        have "answer_ok (decoding (ev_coders env) co fin seen whole decoded) decoded ys e d2 \<and> cs_stream d2 = s \<and> cs_eof d2 = cs_eof d1"
          using decoder_chunk_ok [OF ok, of "d1\<lparr>cs_stream := s\<rparr>", OF _ _ _ _ _ _ _ _ e] st inv1 False chunk by simp
        moreover have "cs_stream d = Some b # s" using eof chunk by simp
        ultimately show ?thesis using eof False by (simp add: res patience_def)
      qed
    qed
  qed
qed

section \<open>Properties\<close>

text \<open>
  Property C36. However a compressed body is cut into chunks, whenever they arrive and whatever the thread pool does with the large ones: polling ends,
  and the pieces that it delivers are together the decoded body, provided that the coder decodes the body.
\<close>

theorem decoded_stream_exact:
  assumes "cs_decoder (decoder_new (ev_coders env) script enc) = Some cd"
    and "coder_ok (cd_coder (ev_coders env) cd) (cd_end (ev_coders env) cd) seen (script_data script) decoded"
    and "scripted env" and "pool_works env rank"
  shows "read_results (decoder_poll env) (decoder_new (ev_coders env) script enc) w = {decoded}"
proof -
  have "sk_writer (cd_sink cd) = []" "sk_coder (cd_sink cd) = co_start (cd_coder (ev_coders env) cd)"
    using assms(1) by (auto simp: decoder_new_def sink_new_def split: content_encoding.splits)
  moreover have "seen (co_start (cd_coder (ev_coders env) cd)) [] []" using assms(2) by (simp add: coder_ok_def)
  ultimately have inv: "decoding (ev_coders env) (cd_coder (ev_coders env) cd) (cd_end (ev_coders env) cd) seen
      (script_data script) decoded (decoder_new (ev_coders env) script enc) []"
    using assms(1) by (auto simp: decoding_def decoder_new_def)
  have "step_ok (decoder_step env) (decoding (ev_coders env) (cd_coder (ev_coders env) cd) (cd_end (ev_coders env) cd) seen
      (script_data script) decoded) decoded (patience rank)"
    using decoder_step_ok [OF assms(2,4,3)] unfolding step_ok_def by blast
  from delivers_exactly [OF this inv] show ?thesis by (simp add: decoder_poll_def)
qed

text \<open>
  When a small chunk cannot be decoded, the coder is lost with the error. A reader that polls on gets the chunks that follow
  as they are, compressed, and as if nothing had happened.
\<close>

theorem decode_error_leaks_raw:
  assumes "cs_decoder d = Some cd" and "cs_fut d = None" and "\<not> cs_eof d"
    and "ev_stream env (cs_stream d) w = (Ready (Some (Ok bad)), s1, w1)" and "length bad \<le> 2048"
    and "decoder_feed_data (ev_coders env) bad cd = (Err e, cd')"
    and "ev_stream env s1 w1 = (Ready (Some (Ok raw)), s2, w2)"
  shows "\<exists>d' d''. decoder_poll env d w = Some (Ready (Some (Err (PlIncomplete (Some e)))), d', w1) \<and>
    decoder_poll env d' w1 = Some (Ready (Some (Ok raw)), d'', w2)"
proof -
  let ?d1 = "d\<lparr>cs_stream := s1, cs_decoder := None\<rparr>"
  have "decoder_step env d w = (Some (Ready (Some (Err (PlIncomplete (Some e))))), ?d1, w1)"
    using assms by (simp add: decoder_step_def decoder_job_def decoder_chunk_def DECODE_INPLACE_def)
  moreover have "decoder_step env ?d1 w1 = (Some (Ready (Some (Ok raw))), ?d1\<lparr>cs_stream := s2\<rparr>, w2)"
    using assms by (simp add: decoder_step_def decoder_job_def decoder_chunk_def)
  ultimately show ?thesis by (simp add: decoder_poll_def poll_loop_answer)
qed

text \<open>A coder that copies its input and always holds the last byte back; it fails on data that begin with zero.\<close>

definition demo_coder :: "bytes coder" where
  "demo_coder = \<lparr>co_start = [],
     co_write = (\<lambda>data c. if take 1 data = [0] then (Err (IoError OtherKind ''corrupt''), [], c)
       else let all = c @ data in (Ok (), butlast all, drop (length all - 1) all)),
     co_flush = (\<lambda>c. (Ok (), [], c)), co_finish = (\<lambda>c. (Ok (), c, []))\<rparr>"

definition demo_decoders :: "bytes decoders" where
  "demo_decoders = \<lparr>dl_inflate = demo_coder, dl_gunzip = demo_coder, dl_unbrotli = demo_coder\<rparr>"

definition demo_decode_env :: "(bytes, bytes option list, nat) decode_env" where
  "demo_decode_env = \<lparr>ev_coders = demo_decoders, ev_stream = script_poll,
     ev_cpu = (\<lambda>w. if w = 0 then (CpuFinished, 3) else (CpuPending, w - 1)), ev_again = Ready (Err BlCanceled)\<rparr>"

lemma demo_coder_ok:
  assumes "0 \<notin> set whole"
  shows "coder_ok demo_coder (co_finish demo_coder) (\<lambda>c xs ys. ys @ c = xs) whole whole"
proof -
  have hold: "butlast b @ drop (length b - 1) b = b" for b :: bytes
    by (cases b rule: rev_cases) simp_all
  have first: "take 1 data \<noteq> [0]" if "whole = xs @ data @ zs" for xs data zs
    using that assms by (cases data) auto
  have step: "(ys @ butlast (c @ data)) @ drop (length (c @ data) - 1) (c @ data) = (ys @ c) @ data" for ys c data :: bytes
    using hold [of "c @ data"] by (metis append.assoc)
  have put: "\<exists>out c'. co_write demo_coder data c = (Ok (), out, c') \<and> (ys @ out) @ c' = xs @ data"
    if "ys @ c = xs \<and> whole = xs @ data @ zs" for c xs ys data zs
    using first step [of ys c data] that unfolding demo_coder_def by (simp add: Let_def)
  have "\<exists>out c'. co_flush demo_coder c = (Ok (), out, c') \<and> (ys @ out) @ c' = xs" if "ys @ c = xs" for c xs ys
    using that by (simp add: demo_coder_def)
  moreover have "co_start demo_coder = []" "\<exists>out c'. co_finish demo_coder c = (Ok (), out, c') \<and> ys @ out = ys @ c" for c ys
    by (simp_all add: demo_coder_def)
  ultimately show ?thesis unfolding coder_ok_def using put by (simp only: append_Nil) metis
qed

definition demo_large :: bytes where "demo_large = replicate 3000 7"

lemma demo_large_clean: "0 \<notin> set demo_large"
  unfolding demo_large_def set_replicate_conv_if by simp

lemma decoded_stream_exact_witness:
  "read_results (decoder_poll demo_decode_env) (decoder_new demo_decoders [Some [1, 2], None, Some (demo_large), Some [3]] CeGzip) 5 =
     {[1, 2] @ demo_large @ [3]}"
proof -
  let ?s = "[Some [1, 2], None, Some (demo_large), Some [3]]"
  have "cs_decoder (decoder_new (ev_coders demo_decode_env) ?s CeGzip) = Some (CdGzip (sink_new []))"
    by (simp add: decoder_new_def demo_decode_env_def demo_decoders_def demo_coder_def)
  moreover have "coder_ok (cd_coder (ev_coders demo_decode_env) (CdGzip (sink_new []))) (cd_end (ev_coders demo_decode_env) (CdGzip (sink_new [])))
      (\<lambda>c xs ys. ys @ c = xs) (script_data ?s) ([1, 2] @ demo_large @ [3])"
    using demo_coder_ok [of "[1, 2] @ demo_large @ [3]"] demo_large_clean by (simp add: demo_decode_env_def demo_decoders_def)
  moreover have "scripted demo_decode_env" "pool_works demo_decode_env id"
    by (auto simp: scripted_def demo_decode_env_def pool_works_def)
  ultimately have "read_results (decoder_poll demo_decode_env) (decoder_new (ev_coders demo_decode_env) ?s CeGzip) 5 =
    {[1, 2] @ demo_large @ [3]}"
    by (rule decoded_stream_exact)
  moreover have "ev_coders demo_decode_env = demo_decoders" by (simp add: demo_decode_env_def)
  ultimately show ?thesis by simp
qed

lemma decode_error_leaks_raw_witness:
  "\<exists>d' d''. decoder_poll demo_decode_env (decoder_new demo_decoders [Some [0, 1], Some [9, 9]] CeGzip) 0 =
      Some (Ready (Some (Err (PlIncomplete (Some (IoError OtherKind ''corrupt''))))), d', 0) \<and>
    decoder_poll demo_decode_env d' 0 = Some (Ready (Some (Ok [9, 9])), d'', 0)"
  by (rule decode_error_leaks_raw [where bad = "[0, 1]" and cd = "CdGzip (sink_new [])" and ?s1.0 = "[Some [9, 9]]" and
        cd' = "CdGzip (sink_new [])" and ?s2.0 = "[]"])
     (simp_all add: decoder_new_def demo_decode_env_def demo_decoders_def demo_coder_def sink_new_def sink_do_def writer_write_def)

end
