(* ===== verification/Content_Encoder.thy ===== *)
theory Content_Encoder
  imports Content_Decoder Http_Body Message_Head H1_Encoder
begin

text \<open>
  Compression of response bodies (\<open>encoding/encoder.rs\<close>), with the coders of the crates \<open>flate2\<close> and \<open>brotli2\<close> as parameters
  and the thread pool in the environment, as in \<open>Content_Decoder\<close>.
\<close>

section \<open>Coders\<close>

record 'c encoders =
  el_deflate :: "'c coder"
  el_gzip :: "'c coder"
  el_brotli :: "'c coder"

datatype 'c content_encoder = CcDeflate "'c sink" | CcGzip "'c sink" | CcBr "'c sink"

fun content_encoder_of :: "'c encoders \<Rightarrow> content_encoding \<Rightarrow> 'c content_encoder option" where
  "content_encoder_of lib CeDeflate = Some (CcDeflate (sink_new (co_start (el_deflate lib))))"
| "content_encoder_of lib CeGzip = Some (CcGzip (sink_new (co_start (el_gzip lib))))"
| "content_encoder_of lib CeBr = Some (CcBr (sink_new (co_start (el_brotli lib))))"
| "content_encoder_of lib _ = None"

fun encoder_take :: "'c content_encoder \<Rightarrow> bytes \<times> 'c content_encoder" where
  "encoder_take (CcBr s) = (let (b, s) = sink_take s in (b, CcBr s))"
| "encoder_take (CcDeflate s) = (let (b, s) = sink_take s in (b, CcDeflate s))"
| "encoder_take (CcGzip s) = (let (b, s) = sink_take s in (b, CcGzip s))"

fun encoder_finish :: "'c encoders \<Rightarrow> 'c content_encoder \<Rightarrow> (bytes, io_error) result" where
  "encoder_finish lib (CcBr s) =
     (case sink_do (co_finish (el_brotli lib)) s of (Ok _, s) \<Rightarrow> Ok (sk_writer s) | (Err e, s) \<Rightarrow> Err e)"
| "encoder_finish lib (CcGzip s) =
     (case sink_do (co_finish (el_gzip lib)) s of (Ok _, s) \<Rightarrow> Ok (sk_writer s) | (Err e, s) \<Rightarrow> Err e)"
| "encoder_finish lib (CcDeflate s) =
     (case sink_do (co_finish (el_deflate lib)) s of (Ok _, s) \<Rightarrow> Ok (sk_writer s) | (Err e, s) \<Rightarrow> Err e)"

fun encoder_write :: "'c encoders \<Rightarrow> bytes \<Rightarrow> 'c content_encoder \<Rightarrow> (unit, io_error) result \<times> 'c content_encoder" where
  "encoder_write lib data (CcBr s) = (let (r, s) = sink_do (co_write (el_brotli lib) data) s in (r, CcBr s))"
| "encoder_write lib data (CcGzip s) = (let (r, s) = sink_do (co_write (el_gzip lib) data) s in (r, CcGzip s))"
| "encoder_write lib data (CcDeflate s) = (let (r, s) = sink_do (co_write (el_deflate lib) data) s in (r, CcDeflate s))"

section \<open>The body\<close>

datatype ('b, 'm) encoder_body = EbBytes bytes | EbStream 'b | EbBoxed 'm

record ('c, 'b, 'm) content_body =
  ed_eof :: bool
  ed_body :: "('b, 'm) encoder_body"
  ed_encoder :: "'c content_encoder option"
  ed_fut :: "('c content_encoder \<times> bytes) cpu_future option"

definition ENCODE_INPLACE :: nat where "ENCODE_INPLACE = 1024"

definition update_head :: "content_encoding \<Rightarrow> response_head \<Rightarrow> response_head" where
  "update_head enc h = h\<lparr>rs_headers := hm_insert (rs_headers h) CONTENT_ENCODING (ce_as_str enc)\<rparr>"

definition can_encode :: "http_lib \<Rightarrow> content_encoding \<Rightarrow> response_head \<Rightarrow> bool" where
  "can_encode hl enc h \<longleftrightarrow>
     \<not> (hm_contains_key hl (rs_headers h) (ByName CONTENT_ENCODING) \<or> rs_status h = SWITCHING_PROTOCOLS \<or>
        rs_status h = NO_CONTENT \<or> enc = CeIdentity \<or> enc = CeAuto)"

text \<open>What is left to encode, or the body that is returned as it is.\<close>

fun body_to_encode :: "bool \<Rightarrow> ('b, 'm) response_body \<Rightarrow> (('b, 'm) encoder_body, 'm body) result" where
  "body_to_encode can (RbOther BodyNone) = Err BodyNone"
| "body_to_encode can (RbOther BodyEmpty) = Err BodyEmpty"
| "body_to_encode can (RbOther (BodyBytes buf)) = (if can then Ok (EbBytes buf) else Err (BodyBytes buf))"
| "body_to_encode can (RbOther (BodyMessage m)) = Ok (EbBoxed m)"
| "body_to_encode can (RbBody b) = Ok (EbStream b)"

definition encoder_response ::
  "http_lib \<Rightarrow> 'c encoders \<Rightarrow> content_encoding \<Rightarrow> response_head \<Rightarrow> ('b, 'm) response_body \<Rightarrow>
   response_head \<times> (('c, 'b, 'm) content_body, 'm) response_body" where
  "encoder_response hl lib enc h body =
     (let can = can_encode hl enc h
      in case body_to_encode can body of
           Ok b \<Rightarrow>
             (case (if can then content_encoder_of lib enc else None) of
                Some e \<Rightarrow>
                  (rs_no_chunking False (update_head enc h),
                   RbBody \<lparr>ed_eof = False, ed_body = b, ed_encoder = Some e, ed_fut = None\<rparr>)
              | None \<Rightarrow> (h, RbBody \<lparr>ed_eof = False, ed_body = b, ed_encoder = None, ed_fut = None\<rparr>))
         | Err other \<Rightarrow> (h, RbOther other))"

record ('c, 'b, 'm, 'w) encode_body_env =
  eb_coders :: "'c encoders"
  eb_stream :: "('b, 'w) message_body"
  eb_boxed :: "('m, 'w) message_body"
  eb_cpu :: "'w \<Rightarrow> cpu_answer \<times> 'w"
  eb_again :: "('c content_encoder, io_error blocking_error) result poll"

definition content_body_size :: "('c, 'b, 'm, 'w) encode_body_env \<Rightarrow> ('c, 'b, 'm) content_body \<Rightarrow> body_size" where
  "content_body_size env d =
     (if ed_encoder d = None then
        (case ed_body d of
           EbBytes b \<Rightarrow> mb_size (bytes_body :: (bytes, 'w) message_body) b
         | EbStream b \<Rightarrow> mb_size (eb_stream env) b
         | EbBoxed b \<Rightarrow> mb_size (eb_boxed env) b)
      else SzStream)"

definition poll_encode_job ::
  "('c, 'b, 'm, 'w) encode_body_env \<Rightarrow> ('c content_encoder \<times> bytes) cpu_future \<Rightarrow> 'w \<Rightarrow>
   ('c content_encoder, io_error blocking_error) result poll \<times> ('c content_encoder \<times> bytes) cpu_future \<times> 'w" where
  "poll_encode_job env fut w =
     (case fut of
        CpuDone \<Rightarrow> (eb_again env, CpuDone, w)
      | CpuRunning (encoder, chunk) \<Rightarrow>
          (case eb_cpu env w of
             (CpuPending, w) \<Rightarrow> (Pending, fut, w)
           | (CpuCanceled, w) \<Rightarrow> (Ready (Err BlCanceled), CpuDone, w)
           | (CpuFinished, w) \<Rightarrow>
               (Ready (case encoder_write (eb_coders env) chunk encoder of
                         (Ok _, encoder) \<Rightarrow> Ok encoder
                       | (Err e, _) \<Rightarrow> Err (BlError e)), CpuDone, w)))"

definition encoder_job ::
  "('c, 'b, 'm, 'w) encode_body_env \<Rightarrow> ('c, 'b, 'm) content_body \<Rightarrow> 'w \<Rightarrow>
   unit item_poll option \<times> ('c, 'b, 'm) content_body \<times> 'w" where
  "encoder_job env d w =
     (case ed_fut d of
        None \<Rightarrow> (None, d, w)
      | Some fut \<Rightarrow>
          (case poll_encode_job env fut w of
             (Pending, fut, w) \<Rightarrow> (Some Pending, d\<lparr>ed_fut := Some fut\<rparr>, w)
           | (Ready (Err e), fut, w) \<Rightarrow> (Some (Ready (Some (Err ()))), d\<lparr>ed_fut := Some fut\<rparr>, w)
           | (Ready (Ok encoder), fut, w) \<Rightarrow>
               (let (chunk, encoder) = encoder_take encoder; d = d\<lparr>ed_encoder := Some encoder, ed_fut := None\<rparr>
                in if chunk \<noteq> [] then (Some (Ready (Some (Ok chunk))), d, w) else (None, d, w))))"

fun encoder_body_poll ::
  "('c, 'b, 'm, 'w) encode_body_env \<Rightarrow> ('b, 'm) encoder_body \<Rightarrow> 'w \<Rightarrow> unit item_poll \<times> ('b, 'm) encoder_body \<times> 'w" where
  "encoder_body_poll env (EbBytes b) w = (if b = [] then (Ready None, EbBytes b, w) else (Ready (Some (Ok b)), EbBytes [], w))"
| "encoder_body_poll env (EbStream b) w = (let (p, b, w) = mb_poll (eb_stream env) b w in (p, EbStream b, w))"
| "encoder_body_poll env (EbBoxed b) w = (let (p, b, w) = mb_poll (eb_boxed env) b w in (p, EbBoxed b, w))"

definition encoder_chunk ::
  "'c encoders \<Rightarrow> bytes \<Rightarrow> ('c, 'b, 'm) content_body \<Rightarrow> unit item_poll option \<times> ('c, 'b, 'm) content_body" where
  "encoder_chunk lib chunk d =
     (case ed_encoder d of
        None \<Rightarrow> (Some (Ready (Some (Ok chunk))), d)
      | Some encoder \<Rightarrow>
          (let d = d\<lparr>ed_encoder := None\<rparr>
           in if length chunk < ENCODE_INPLACE then
                (case encoder_write lib chunk encoder of
                   (Err e, encoder) \<Rightarrow> (Some (Ready (Some (Err ()))), d)
                 | (Ok _, encoder) \<Rightarrow>
                     (let (out, encoder) = encoder_take encoder; d = d\<lparr>ed_encoder := Some encoder\<rparr>
                      in if out \<noteq> [] then (Some (Ready (Some (Ok out))), d) else (None, d)))
              else (None, d\<lparr>ed_fut := Some (CpuRunning (encoder, chunk))\<rparr>)))"

definition encoder_end :: "'c encoders \<Rightarrow> ('c, 'b, 'm) content_body \<Rightarrow> unit item_poll \<times> ('c, 'b, 'm) content_body" where
  "encoder_end lib d =
     (case ed_encoder d of
        None \<Rightarrow> (Ready None, d)
      | Some encoder \<Rightarrow>
          (let d = d\<lparr>ed_encoder := None\<rparr>
           in case encoder_finish lib encoder of
                Err e \<Rightarrow> (Ready (Some (Err ())), d)
              | Ok chunk \<Rightarrow> if chunk = [] then (Ready None, d) else (Ready (Some (Ok chunk)), d\<lparr>ed_eof := True\<rparr>)))"

definition encoder_step ::
  "('c, 'b, 'm, 'w) encode_body_env \<Rightarrow> (unit, ('c, 'b, 'm) content_body, 'w) stream_step" where
  "encoder_step env d w =
     (if ed_eof d then (Some (Ready None), d, w)
      else
        (case encoder_job env d w of
           (Some p, d, w) \<Rightarrow> (Some p, d, w)
         | (None, d, w) \<Rightarrow>
             (case encoder_body_poll env (ed_body d) w of
                (p, b, w) \<Rightarrow>
                  (let d = d\<lparr>ed_body := b\<rparr>
                   in case p of
                        Ready (Some (Ok chunk)) \<Rightarrow> (let (p, d) = encoder_chunk (eb_coders env) chunk d in (p, d, w))
                      | Ready None \<Rightarrow> (let (p, d) = encoder_end (eb_coders env) d in (Some p, d, w))
                      | val \<Rightarrow> (Some val, d, w)))))"

definition content_body_poll ::
  "('c, 'b, 'm, 'w) encode_body_env \<Rightarrow> ('c, 'b, 'm) content_body \<Rightarrow> 'w \<Rightarrow>
   (unit item_poll \<times> ('c, 'b, 'm) content_body \<times> 'w) option" where
  "content_body_poll env = poll_loop (encoder_step env)"


section \<open>Reading a whole body\<close>

fun cc_sink :: "'c content_encoder \<Rightarrow> 'c sink" where
  "cc_sink (CcDeflate s) = s"
| "cc_sink (CcGzip s) = s"
| "cc_sink (CcBr s) = s"

fun cc_coder :: "'c encoders \<Rightarrow> 'c content_encoder \<Rightarrow> 'c coder" where
  "cc_coder lib (CcDeflate s) = el_deflate lib"
| "cc_coder lib (CcGzip s) = el_gzip lib"
| "cc_coder lib (CcBr s) = el_brotli lib"

lemma encoder_write_ok:
  assumes ok: "coder_ok (cc_coder lib e) fin seen whole coded" and emp: "sk_writer (cc_sink e) = []"
    and sn: "seen (sk_coder (cc_sink e)) xs ys" and tot: "whole = xs @ data @ zs"
  shows "\<exists>out e1 e2. encoder_write lib data e = (Ok (), e1) \<and> encoder_take e1 = (out, e2) \<and>
    cc_coder lib e2 = cc_coder lib e \<and> sk_writer (cc_sink e2) = [] \<and> seen (sk_coder (cc_sink e2)) (xs @ data) (ys @ out)"
proof -
  obtain out c' where "co_write (cc_coder lib e) data (sk_coder (cc_sink e)) = (Ok (), out, c')" "seen c' (xs @ data) (ys @ out)"
    using coder_writes [OF ok sn tot] by blast
  then show ?thesis using emp by (cases e) (auto simp: sink_do_def sink_take_def writer_write_def Let_def)
qed

lemma encoder_finish_ok:
  assumes ok: "coder_ok (cc_coder lib e) (co_finish (cc_coder lib e)) seen whole coded" and emp: "sk_writer (cc_sink e) = []"
    and sn: "seen (sk_coder (cc_sink e)) whole ys"
  shows "\<exists>out. encoder_finish lib e = Ok out \<and> ys @ out = coded"
proof -
  obtain out c' where "co_finish (cc_coder lib e) (sk_coder (cc_sink e)) = (Ok (), out, c')" "ys @ out = coded"
    using coder_ends [OF ok sn] by blast
  then show ?thesis using emp by (cases e) (auto simp: sink_do_def writer_write_def Let_def)
qed

text \<open>A body whose data come from a script, or are there at once.\<close>

type_synonym script = "bytes option list"

fun body_script :: "(script, script) encoder_body \<Rightarrow> script" where
  "body_script (EbBytes b) = (if b = [] then [] else [Some b])"
| "body_script (EbStream s) = s"
| "body_script (EbBoxed s) = s"

definition scripted_bodies :: "('c, script, script, 'w) encode_body_env \<Rightarrow> bool" where
  "scripted_bodies env \<longleftrightarrow> mb_poll (eb_stream env) = script_poll \<and> mb_poll (eb_boxed env) = script_poll"

definition encode_pool_works :: "('c, 'b, 'm, 'w) encode_body_env \<Rightarrow> ('w \<Rightarrow> nat) \<Rightarrow> bool" where
  "encode_pool_works env rank \<longleftrightarrow>
     (\<forall>w. fst (eb_cpu env w) \<noteq> CpuCanceled \<and> (fst (eb_cpu env w) = CpuPending \<longrightarrow> rank (snd (eb_cpu env w)) < rank w))"

lemma scripted_body_poll:
  assumes "scripted_bodies env" and "encoder_body_poll env b w = (p, b', w')"
  shows "script_poll (body_script b) w = (p, body_script b', w')"
  using assms by (cases b) (auto simp: scripted_bodies_def split: if_splits prod.splits)

definition encoding ::
  "'c encoders \<Rightarrow> 'c coder \<Rightarrow> ('c \<Rightarrow> bytes \<Rightarrow> bytes \<Rightarrow> bool) \<Rightarrow> bytes \<Rightarrow> bytes \<Rightarrow> ('c, script, script) content_body \<Rightarrow> bytes \<Rightarrow> bool" where
  "encoding lib co seen whole coded d ys \<longleftrightarrow>
     (if ed_eof d then ys = coded
      else \<exists>xs.
        (case (ed_encoder d, ed_fut d) of
           (Some e, None) \<Rightarrow>
             cc_coder lib e = co \<and> sk_writer (cc_sink e) = [] \<and> seen (sk_coder (cc_sink e)) xs ys \<and>
             whole = xs @ script_data (body_script (ed_body d))
         | (None, Some (CpuRunning (e, chunk))) \<Rightarrow>
             cc_coder lib e = co \<and> sk_writer (cc_sink e) = [] \<and> seen (sk_coder (cc_sink e)) xs ys \<and>
             whole = xs @ chunk @ script_data (body_script (ed_body d))
         | _ \<Rightarrow> False))"

definition encode_patience :: "('w \<Rightarrow> nat) \<Rightarrow> ('c, script, script) content_body \<Rightarrow> 'w \<Rightarrow> patience" where
  "encode_patience rank d w =
     (length (body_script (ed_body d)) + (if ed_eof d then 0 else 1), (if ed_fut d = None then 0 else 1), rank w)"

lemma encoder_job_ok:
  assumes ok: "coder_ok co fin seen whole coded" and pool: "encode_pool_works env rank" and run: "\<not> ed_eof d"
    and keeps: "encoding (eb_coders env) co seen whole coded d ys" and job: "encoder_job env d w = (p, d', w')"
  shows "answer_ok (encoding (eb_coders env) co seen whole coded) coded ys p d' \<and> ed_body d' = ed_body d \<and> \<not> ed_eof d' \<and>
    (p = None \<longrightarrow> ed_fut d' = None) \<and> (p \<noteq> None \<longrightarrow> (encode_patience rank d' w', encode_patience rank d w) \<in> less_patience)"
proof (cases "ed_fut d")
  case None
  with job keeps run show ?thesis by (auto simp: encoder_job_def answer_ok_def)
next
  case (Some fut)
  obtain e chunk xs where st: "ed_encoder d = None" "fut = CpuRunning (e, chunk)" "cc_coder (eb_coders env) e = co"
    "sk_writer (cc_sink e) = []" "seen (sk_coder (cc_sink e)) xs ys" "whole = xs @ chunk @ script_data (body_script (ed_body d))"
    using keeps Some run unfolding encoding_def by (auto split: option.splits cpu_future.splits)
  obtain a w1 where cpu: "eb_cpu env w = (a, w1)" by (cases "eb_cpu env w")
  with pool have alive: "a \<noteq> CpuCanceled" "a = CpuPending \<Longrightarrow> rank w1 < rank w"
    unfolding encode_pool_works_def by (metis fst_conv, metis fst_conv snd_conv)
  show ?thesis
  proof (cases a)
    case CpuPending
    with Some st cpu job have "p = Some Pending" "d' = d" "w' = w1" by (auto simp: encoder_job_def poll_encode_job_def)
    with keeps run alive CpuPending show ?thesis by (simp add: answer_ok_def encode_patience_def)
  next
    case CpuFinished
    obtain out e1 e2 where wr: "encoder_write (eb_coders env) chunk e = (Ok (), e1)" "encoder_take e1 = (out, e2)"
      "cc_coder (eb_coders env) e2 = co" "sk_writer (cc_sink e2) = []" "seen (sk_coder (cc_sink e2)) (xs @ chunk) (ys @ out)"
      using encoder_write_ok [of "eb_coders env" e fin seen whole coded xs ys chunk] ok st by blast
    have res: "p = (if out = [] then None else Some (Ready (Some (Ok out))))" "d' = d\<lparr>ed_encoder := Some e2, ed_fut := None\<rparr>"
      using Some st cpu job wr CpuFinished by (auto simp: encoder_job_def poll_encode_job_def Let_def split: if_splits)
    have "encoding (eb_coders env) co seen whole coded d' (ys @ out)"
      using st run wr res(2) by (auto simp: encoding_def)
    with res Some run show ?thesis by (auto simp: answer_ok_def encode_patience_def)
  qed (use alive in simp)
qed

lemma encoder_chunk_ok:
  assumes ok: "coder_ok co fin seen whole coded"
    and st: "ed_encoder d = Some e" "ed_fut d = None" "\<not> ed_eof d" "cc_coder lib e = co"
      "sk_writer (cc_sink e) = []" "seen (sk_coder (cc_sink e)) xs ys" "whole = xs @ chunk @ script_data (body_script (ed_body d))"
    and chunk: "encoder_chunk lib chunk d = (p, d')"
  shows "answer_ok (encoding lib co seen whole coded) coded ys p d' \<and> ed_body d' = ed_body d \<and> \<not> ed_eof d'"
proof (cases "length chunk < ENCODE_INPLACE")
  case False
  with st chunk show ?thesis by (auto simp: encoder_chunk_def answer_ok_def encoding_def Let_def)
next
  case True
  obtain out e1 e2 where wr: "encoder_write lib chunk e = (Ok (), e1)" "encoder_take e1 = (out, e2)"
      "cc_coder lib e2 = co" "sk_writer (cc_sink e2) = []" "seen (sk_coder (cc_sink e2)) (xs @ chunk) (ys @ out)"
    using encoder_write_ok [of lib e fin seen whole coded xs ys chunk] ok st by blast
  have res: "p = (if out = [] then None else Some (Ready (Some (Ok out))))" "d' = d\<lparr>ed_encoder := Some e2\<rparr>"
    using True st wr chunk by (cases d; auto simp: encoder_chunk_def Let_def split: if_splits)+
  have "encoding lib co seen whole coded d' (ys @ out)"
    using st wr res(2) by (auto simp: encoding_def)
  with res st show ?thesis by (auto simp: answer_ok_def)
qed

lemma encoder_end_ok:
  assumes ok: "coder_ok co (co_finish co) seen whole coded"
    and st: "ed_encoder d = Some e" "ed_fut d = None" "cc_coder lib e = co" "sk_writer (cc_sink e) = []"
      "seen (sk_coder (cc_sink e)) whole ys"
    and stop: "encoder_end lib d = (p, d')"
  shows "answer_ok (encoding lib co seen whole coded) coded ys (Some p) d' \<and> ed_body d' = ed_body d \<and> (p \<noteq> Ready None \<longrightarrow> ed_eof d')"
proof -
  obtain out where "encoder_finish lib e = Ok out" "ys @ out = coded"
    using encoder_finish_ok [of lib e seen whole coded ys] ok st by blast
  with st stop show ?thesis
    by (cases "out = []") (auto simp: encoder_end_def Let_def answer_ok_def encoding_def)
qed


lemma encoder_step_ok:
  assumes ok: "coder_ok co (co_finish co) seen whole coded" and pool: "encode_pool_works env rank" and sc: "scripted_bodies env"
    and keeps: "encoding (eb_coders env) co seen whole coded d ys" and step: "encoder_step env d w = (p, d', w')"
  shows "answer_ok (encoding (eb_coders env) co seen whole coded) coded ys p d' \<and>
    (p \<noteq> Some (Ready None) \<longrightarrow> (encode_patience rank d' w', encode_patience rank d w) \<in> less_patience)"
proof (cases "ed_eof d")
  case True
  with step keeps show ?thesis by (auto simp: encoder_step_def answer_ok_def encoding_def)
next
  case False
  obtain q d1 w1 where job: "encoder_job env d w = (q, d1, w1)" by (metis prod_cases3)
  note jok = encoder_job_ok [OF ok pool False keeps job]
  show ?thesis
  proof (cases q)
    case (Some r)
    with step job False have "p = Some r" "d' = d1" "w' = w1" by (simp_all add: encoder_step_def)
    with jok Some show ?thesis by simp
  next
    case None
    with jok have k1: "encoding (eb_coders env) co seen whole coded d1 ys" "ed_fut d1 = None" "\<not> ed_eof d1"
      by (simp_all add: answer_ok_def)
    then obtain xs e where st: "ed_encoder d1 = Some e" "cc_coder (eb_coders env) e = co" "sk_writer (cc_sink e) = []"
        "seen (sk_coder (cc_sink e)) xs ys" "whole = xs @ script_data (body_script (ed_body d1))"
      unfolding encoding_def by (auto split: option.splits)
    obtain v b w2 where poll: "encoder_body_poll env (ed_body d1) w1 = (v, b, w2)" by (metis prod_cases3)
    from scripted_body_poll [OF sc poll] have scr: "script_poll (body_script (ed_body d1)) w1 = (v, body_script b, w2)" .
    have body: "ed_body d1 = ed_body d" using jok by simp
    consider (over) "body_script (ed_body d1) = []" | (idle) s where "body_script (ed_body d1) = None # s"
      | (chunk) c s where "body_script (ed_body d1) = Some c # s"
      by (metis list.exhaust option.exhaust)
    then show ?thesis
    proof cases
      case over
      obtain r d2 where r: "encoder_end (eb_coders env) (d1\<lparr>ed_body := b\<rparr>) = (r, d2)" by (metis surj_pair)
      have v: "v = Ready None" "body_script b = []" using scr over by simp_all
      have res: "p = Some r" "d' = d2" "w' = w2" using step False job None poll r v by (simp_all add: encoder_step_def)
      have "answer_ok (encoding (eb_coders env) co seen whole coded) coded ys (Some r) d2 \<and> ed_body d2 = b \<and> (r \<noteq> Ready None \<longrightarrow> ed_eof d2)"
        using encoder_end_ok [OF ok, of "d1\<lparr>ed_body := b\<rparr>", OF _ _ _ _ _ r] st k1 over by simp
      then show ?thesis using over v body False by (auto simp: res encode_patience_def)
    next
      case idle
      have v: "v = Pending" "body_script b = s" using scr idle by simp_all
      have res: "p = Some Pending" "d' = d1\<lparr>ed_body := b\<rparr>" "w' = w2"
        using step False job None poll v by (simp_all add: encoder_step_def)
      have "whole = xs @ script_data (body_script b)" using st(5) idle v by simp
      then have "encoding (eb_coders env) co seen whole coded d' ys"
        using st(1-4) k1(2,3) by (auto simp: res(2) encoding_def)
      then show ?thesis using idle v body False k1 by (simp add: res answer_ok_def encode_patience_def)
    next
      case chunk
      obtain r d2 where r: "encoder_chunk (eb_coders env) c (d1\<lparr>ed_body := b\<rparr>) = (r, d2)" by (metis surj_pair)
      have v: "v = Ready (Some (Ok c))" "body_script b = s" using scr chunk by simp_all
      have res: "p = r" "d' = d2" "w' = w2" using step False job None poll r v by (simp_all add: encoder_step_def)
      have "answer_ok (encoding (eb_coders env) co seen whole coded) coded ys r d2 \<and> ed_body d2 = b \<and> \<not> ed_eof d2"
        using encoder_chunk_ok [OF ok, of "d1\<lparr>ed_body := b\<rparr>", OF _ _ _ _ _ _ _ r] st k1 chunk v by simp
      then show ?thesis using chunk v body False by (simp add: res encode_patience_def)
    qed
  qed
qed

section \<open>Properties\<close>

text \<open>
  Property C37. A response that may be compressed gets the header of its coding, and reading its body gives exactly what the coder makes of the whole
  body, however the body comes in pieces and whatever the thread pool does. The size of the body is not announced.
\<close>

theorem encoded_body_exact:
  assumes "can_encode hl enc h" and "content_encoder_of (eb_coders env) enc = Some e"
    and "body = RbBody script \<or> body = RbOther (BodyMessage script) \<or> body = RbOther (BodyBytes buf) \<and> buf \<noteq> [] \<and> script = [Some buf]"
    and "coder_ok (cc_coder (eb_coders env) e) (co_finish (cc_coder (eb_coders env) e)) seen (script_data script) coded"
    and "scripted_bodies env" and "encode_pool_works env rank"
  shows "\<exists>h' d. encoder_response hl (eb_coders env) enc h body = (h', RbBody d) \<and>
    hm_values (rs_headers h') CONTENT_ENCODING = [ce_as_str enc] \<and> rs_chunked h' \<and> content_body_size env d = SzStream \<and>
    read_results (content_body_poll env) d w = {coded}"
proof -
  obtain b where b: "body_to_encode True body = Ok b" "script_data (body_script b) = script_data script"
    using assms(3) by auto
  let ?h = "rs_no_chunking False (update_head enc h)" and ?d = "\<lparr>ed_eof = False, ed_body = b, ed_encoder = Some e, ed_fut = None\<rparr>"
  have resp: "encoder_response hl (eb_coders env) enc h body = (?h, RbBody ?d)"
    using assms(1,2) b by (simp add: encoder_response_def)
  have head: "hm_values (rs_headers ?h) CONTENT_ENCODING = [ce_as_str enc]" "rs_chunked ?h"
    by (simp_all add: rs_no_chunking_def update_head_def hm_values_def hm_insert_def update_conv rs_chunked_def)
  have "sk_writer (cc_sink e) = []" "sk_coder (cc_sink e) = co_start (cc_coder (eb_coders env) e)"
    using assms(2) by (cases enc; fastforce simp: sink_new_def)+
  moreover have "seen (co_start (cc_coder (eb_coders env) e)) [] []" using assms(4) by (simp add: coder_ok_def)
  ultimately have start: "encoding (eb_coders env) (cc_coder (eb_coders env) e) seen (script_data script) coded ?d []"
    using b by (auto simp: encoding_def)
  have "step_ok (encoder_step env) (encoding (eb_coders env) (cc_coder (eb_coders env) e) seen (script_data script) coded) coded
      (encode_patience rank)"
    using encoder_step_ok [OF assms(4,6,5)] unfolding step_ok_def by blast
  from delivers_exactly [OF this start, of w]
  have "read_results (content_body_poll env) ?d w = {coded}"
    by (simp add: content_body_poll_def)
  moreover have "content_body_size env ?d = SzStream" by (simp add: content_body_size_def)
  ultimately show ?thesis using resp head by blast
qed

text \<open>
  A response whose handler has set its length keeps this header when it is compressed, and the head that is sent announces
  both a chunked body and the length of the body before compression.
\<close>

theorem compressed_keeps_length:
  assumes "can_encode hl enc h" and "content_encoder_of lib enc = Some e"
    and env: "env_ok env" and visit: "\<And>m. mset (ee_visit env m) = mset m"
    and len: "map_of (rs_headers h) CONTENT_LENGTH = Some (One len)"
    and "rs_status h = 200" and "rs_version h = HTTP_11" and "encoder_response hl lib enc h (RbBody b) = (h', d)"
  shows "\<exists>out before behind. encode_response env hl me h' False stream HTTP_11 SzStream ctype dst = Some out \<and>
    ob_data (snd out) = ob_data dst @ bstr ''HTTP/1.1 200 '' @ rs_reason_str hl h' @ crlf @ bstr ''transfer-encoding: chunked'' @ crlf @
      before @ bstr ''content-length: '' @ len @ crlf @ behind"
proof -
  have h': "h' = rs_no_chunking False (update_head enc h)"
    using assms(1,2,8) by (simp add: encoder_response_def)
  have st: "rs_status h' = 200" "rs_version h' = HTTP_11" "rs_chunked h'"
    using assms(6,7) by (simp_all add: h' rs_no_chunking_def update_head_def rs_chunked_def)
  have "CONTENT_LENGTH \<noteq> CONTENT_ENCODING" by (simp add: CONTENT_LENGTH_def CONTENT_ENCODING_def)
  then have "map_of (rs_headers h') CONTENT_LENGTH = Some (One len)"
    using len by (simp add: h' rs_no_chunking_def update_head_def hm_insert_def update_conv)
  then have "(CONTENT_LENGTH, One len) \<in> set (rs_headers h')" by (rule map_of_SomeD)
  moreover have none: "ee_visit env [] = []" using visit [of "[]"] by simp
  then have merged: "merged_headers env (response_view h') = ee_visit env (rs_headers h')"
    by (simp add: merged_headers_def response_view_def hm_new_def)
  ultimately have "(CONTENT_LENGTH, One len) \<in> set (filter (header_kept False) (ee_visit env (rs_headers h')))"
    using visit [of "rs_headers h'"] by (simp add: header_kept_def CONTENT_LENGTH_def CONNECTION_def flip: set_mset_mset)
  then obtain as zs where kept: "filter (header_kept False) (ee_visit env (rs_headers h')) = as @ (CONTENT_LENGTH, One len) # zs"
    by (meson split_list)
  have line: "entry_text False (CONTENT_LENGTH, One len) = bstr ''content-length: '' @ len @ crlf"
    by (simp add: entry_text_def header_line_def written_name_def CONTENT_LENGTH_def crlf_def)
  obtain out where out: "encode_response env hl me h' False stream HTTP_11 SzStream ctype dst = Some out"
    "ob_data (snd out) = ob_data dst @ response_text env hl h' HTTP_11 SzStream ctype"
    using encode_response_ok [OF env, of h' SzStream hl me False stream HTTP_11 ctype dst] st by (auto simp: size_ok_def)
  have "\<exists>before behind. response_text env hl h' HTTP_11 SzStream ctype =
      bstr ''HTTP/1.1 200 '' @ rs_reason_str hl h' @ crlf @ bstr ''transfer-encoding: chunked'' @ crlf @
      before @ bstr ''content-length: '' @ len @ crlf @ behind"
  proof (intro exI)
    show "response_text env hl h' HTTP_11 SzStream ctype =
        bstr ''HTTP/1.1 200 '' @ rs_reason_str hl h' @ crlf @ bstr ''transfer-encoding: chunked'' @ crlf @
        (connection_text False ctype HTTP_11 @ concat (map (entry_text False) as)) @ bstr ''content-length: '' @ len @ crlf @
        concat (map (entry_text False) zs) @
        (if DATE \<in> fst ` set (ee_visit env (rs_headers h')) then crlf else bstr ''date: '' @ ee_date env @ crlf @ crlf)"
      unfolding response_text_def headers_text_def merged using st kept line
      by (simp add: adjust_length_def response_view_def length_text_def dec.simps digit_def)
  qed
  with out show ?thesis by metis
qed


definition demo_encoders :: "bytes encoders" where
  "demo_encoders = \<lparr>el_deflate = demo_coder, el_gzip = demo_coder, el_brotli = demo_coder\<rparr>"

definition demo_encode_body_env :: "(bytes, script, script, nat) encode_body_env" where
  "demo_encode_body_env = \<lparr>eb_coders = demo_encoders, eb_stream = \<lparr>mb_size = (\<lambda>_. SzStream), mb_poll = script_poll\<rparr>,
     eb_boxed = \<lparr>mb_size = (\<lambda>_. SzStream), mb_poll = script_poll\<rparr>,
     eb_cpu = (\<lambda>w. if w = 0 then (CpuFinished, 3) else (CpuPending, w - 1)), eb_again = Ready (Err BlCanceled)\<rparr>"

lemma demo_can_encode: "can_encode demo_http CeGzip (response_head_new 200)"
  by (simp add: can_encode_def hm_contains_key_def as_name_def response_head_new_def hm_new_def)

lemma encoded_body_exact_witness:
  "\<exists>h' d. encoder_response demo_http demo_encoders CeGzip (response_head_new 200) (RbBody [Some [1, 2], None, Some demo_large]) = (h', RbBody d) \<and>
    hm_values (rs_headers h') CONTENT_ENCODING = [ce_as_str CeGzip] \<and> rs_chunked h' \<and> content_body_size demo_encode_body_env d = SzStream \<and>
    read_results (content_body_poll demo_encode_body_env) d 4 = {[1, 2] @ demo_large}"
proof -
  have lib: "eb_coders demo_encode_body_env = demo_encoders" by (simp add: demo_encode_body_env_def)
  have enc: "content_encoder_of demo_encoders CeGzip = Some (CcGzip (sink_new []))" "cc_coder demo_encoders (CcGzip (sink_new [])) = demo_coder"
    by (simp_all add: demo_encoders_def demo_coder_def)
  have "coder_ok demo_coder (co_finish demo_coder) (\<lambda>c xs ys. ys @ c = xs)
      (script_data [Some [1, 2], None, Some demo_large]) ([1, 2] @ demo_large)"
    using demo_coder_ok [of "[1, 2] @ demo_large"] demo_large_clean by simp
  moreover have "scripted_bodies demo_encode_body_env" "encode_pool_works demo_encode_body_env id"
    by (auto simp: scripted_bodies_def demo_encode_body_env_def encode_pool_works_def)
  ultimately show ?thesis
    using encoded_body_exact [OF demo_can_encode, of demo_encode_body_env "CcGzip (sink_new [])",
        of "RbBody [Some [1, 2], None, Some demo_large]" "[Some [1, 2], None, Some demo_large]" _ "\<lambda>c xs ys. ys @ c = xs"
           "[1, 2] @ demo_large" id 4] lib enc by simp
qed

lemma compressed_keeps_length_witness:
  "\<exists>h' d out before behind. encoder_response demo_http demo_encoders CeGzip
      ((response_head_new 200)\<lparr>rs_headers := [(CONTENT_LENGTH, One (bstr ''5''))]\<rparr>) (RbBody [Some [1]] :: (script, script) response_body) = (h', d) \<and>
    encode_response demo_encode_env demo_http message_encoder_default h' False False HTTP_11 SzStream CtKeepAlive
      \<lparr>ob_data = [], ob_spare = []\<rparr> = Some out \<and>
    ob_data (snd out) = [] @ bstr ''HTTP/1.1 200 '' @ rs_reason_str demo_http h' @ crlf @ bstr ''transfer-encoding: chunked'' @ crlf @
      before @ bstr ''content-length: '' @ bstr ''5'' @ crlf @ behind"
proof -
  let ?h = "(response_head_new 200)\<lparr>rs_headers := [(CONTENT_LENGTH, One (bstr ''5''))]\<rparr>"
  obtain h' d where r: "encoder_response demo_http demo_encoders CeGzip ?h (RbBody [Some [1]] :: (script, script) response_body) = (h', d)" by (metis surj_pair)
  have "can_encode demo_http CeGzip ?h"
    by (simp add: can_encode_def hm_contains_key_def as_name_def response_head_new_def CONTENT_LENGTH_def CONTENT_ENCODING_def)
  moreover have "content_encoder_of demo_encoders CeGzip = Some (CcGzip (sink_new []))"
    by (simp add: demo_encoders_def demo_coder_def)
  ultimately have "\<exists>out before behind. encode_response demo_encode_env demo_http message_encoder_default h' False False HTTP_11 SzStream CtKeepAlive
      \<lparr>ob_data = [], ob_spare = []\<rparr> = Some out \<and>
    ob_data (snd out) = ob_data \<lparr>ob_data = [], ob_spare = []\<rparr> @ bstr ''HTTP/1.1 200 '' @ rs_reason_str demo_http h' @ crlf @
      bstr ''transfer-encoding: chunked'' @ crlf @ before @ bstr ''content-length: '' @ bstr ''5'' @ crlf @ behind"
    by (rule compressed_keeps_length [OF _ _ demo_encode_env_ok _ _ _ _ r]) (simp_all add: demo_encode_env_def response_head_new_def)
  with r show ?thesis unfolding out_buf.select_convs by blast
qed

end
