(* ===== verification/Http_Request.thy ===== *)
theory Http_Request
  imports Http_Response
begin

text \<open>
  Requests (\<open>request.rs\<close>, \<open>payload.rs\<close>) and what all messages offer (\<open>httpmessage.rs\<close>): content type, encoding, chunking and
  cookies. The parsed cookies are kept in the extensions of the head, under a private type; here they are a field of the
  request. Mime types and character encodings belong to the crates \<open>mime\<close> and \<open>encoding_rs\<close>.
\<close>

definition COOKIE :: header_name where "COOKIE = bstr ''cookie''"

section \<open>Payloads and requests\<close>

datatype ('h1, 'h2, 's) payload = PayloadNone | PayloadH1 'h1 | PayloadH2 'h2 | PayloadStream 's

definition payload_take :: "('h1, 'h2, 's) payload \<Rightarrow> ('h1, 'h2, 's) payload \<times> ('h1, 'h2, 's) payload" where
  "payload_take p = (p, PayloadNone)"

record ('h1, 'h2, 's, 'w) payload_polls =
  pp_h1 :: "'h1 \<Rightarrow> 'w \<Rightarrow> (bytes, payload_error) result option poll \<times> 'h1 \<times> 'w"
  pp_h2 :: "'h2 \<Rightarrow> 'w \<Rightarrow> (bytes, payload_error) result option poll \<times> 'h2 \<times> 'w"
  pp_stream :: "'s \<Rightarrow> 'w \<Rightarrow> (bytes, payload_error) result option poll \<times> 's \<times> 'w"

fun payload_poll_next ::
  "('h1, 'h2, 's, 'w) payload_polls \<Rightarrow> ('h1, 'h2, 's) payload \<Rightarrow> 'w \<Rightarrow>
   (bytes, payload_error) result option poll \<times> ('h1, 'h2, 's) payload \<times> 'w" where
  "payload_poll_next pp PayloadNone w = (Ready None, PayloadNone, w)"
| "payload_poll_next pp (PayloadH1 p) w = (let (r, p, w) = pp_h1 pp p w in (r, PayloadH1 p, w))"
| "payload_poll_next pp (PayloadH2 p) w = (let (r, p, w) = pp_h2 pp p w in (r, PayloadH2 p, w))"
| "payload_poll_next pp (PayloadStream p) w = (let (r, p, w) = pp_stream pp p w in (r, PayloadStream p, w))"

record ('t, 'd, 'p) request =
  qr_payload :: 'p
  qr_head :: request_head
  qr_cookies :: "('t, 'd) cookie list option"

definition request_from_head :: "request_head \<Rightarrow> ('t, 'd, ('h1, 'h2, 's) payload) request" where
  "request_from_head h = \<lparr>qr_payload = PayloadNone, qr_head = h, qr_cookies = None\<rparr>"

definition request_new :: "request_pool \<Rightarrow> ('t, 'd, ('h1, 'h2, 's) payload) request" where
  "request_new pool = \<lparr>qr_payload = PayloadNone, qr_head = fst (pool_get_message pool), qr_cookies = None\<rparr>"

definition with_payload :: "request_pool \<Rightarrow> 'p \<Rightarrow> ('t, 'd, 'p) request" where
  "with_payload pool p = \<lparr>qr_payload = p, qr_head = fst (pool_get_message pool), qr_cookies = None\<rparr>"

definition replace_payload :: "'q \<Rightarrow> ('t, 'd, 'p) request \<Rightarrow> ('t, 'd, 'q) request \<times> 'p" where
  "replace_payload p r = (\<lparr>qr_payload = p, qr_head = qr_head r, qr_cookies = qr_cookies r\<rparr>, qr_payload r)"

definition request_take_payload ::
  "('t, 'd, ('h1, 'h2, 's) payload) request \<Rightarrow> ('h1, 'h2, 's) payload \<times> ('t, 'd, ('h1, 'h2, 's) payload) request" where
  "request_take_payload r = (let (p, rest) = payload_take (qr_payload r) in (p, r\<lparr>qr_payload := rest\<rparr>))"

definition request_upgrade :: "http_lib \<Rightarrow> ('t, 'd, 'p) request \<Rightarrow> bool exec" where
  "request_upgrade lib r =
     exec_bind (hm_get lib (rq_headers (qr_head r)) (ByName CONNECTION)) (\<lambda>conn.
       Return (case conn of
         None \<Rightarrow> rq_method (qr_head r) = METHOD_CONNECT
       | Some v \<Rightarrow>
           (case hl_to_str lib v of
              Some s \<Rightarrow> contains_str (to_ascii_lowercase s) (bstr ''upgrade'')
            | None \<Rightarrow> rq_method (qr_head r) = METHOD_CONNECT)))"

section \<open>Content type\<close>

record ('mime, 'enc) mime_lib =
  ml_parse :: "bytes \<Rightarrow> 'mime option"
  ml_param :: "'mime \<Rightarrow> bytes \<Rightarrow> bytes option"
  ml_label :: "bytes \<Rightarrow> 'enc option"
  ml_utf8 :: 'enc

text \<open>A header value that is a string is ASCII, so \<open>split\<close> and \<open>trim\<close> work on bytes.\<close>

definition msg_content_type :: "http_lib \<Rightarrow> header_map \<Rightarrow> bytes exec" where
  "msg_content_type lib headers =
     exec_bind (hm_get lib headers (ByName CONTENT_TYPE)) (\<lambda>v.
       Return (case v of
         None \<Rightarrow> []
       | Some ct \<Rightarrow> (case hl_to_str lib ct of Some s \<Rightarrow> trim (takeWhile (\<lambda>b. b \<noteq> 0x3B) s) | None \<Rightarrow> [])))"

definition msg_mime_type :: "http_lib \<Rightarrow> ('mime, 'enc) mime_lib \<Rightarrow> header_map \<Rightarrow> ('mime option, content_type_error) result exec" where
  "msg_mime_type lib ml headers =
     exec_bind (hm_get lib headers (ByName CONTENT_TYPE)) (\<lambda>v.
       Return (case v of
         None \<Rightarrow> Ok None
       | Some ct \<Rightarrow>
           (case hl_to_str lib ct of
              Some s \<Rightarrow> (case ml_parse ml s of Some mt \<Rightarrow> Ok (Some mt) | None \<Rightarrow> Err CtParseError)
            | None \<Rightarrow> Err CtParseError)))"

definition msg_encoding :: "http_lib \<Rightarrow> ('mime, 'enc) mime_lib \<Rightarrow> header_map \<Rightarrow> ('enc, content_type_error) result exec" where
  "msg_encoding lib ml headers =
     exec_bind (msg_mime_type lib ml headers) (\<lambda>r.
       Return (case r of
         Err e \<Rightarrow> Err e
       | Ok None \<Rightarrow> Ok (ml_utf8 ml)
       | Ok (Some mt) \<Rightarrow>
           (case ml_param ml mt (bstr ''charset'') of
              None \<Rightarrow> Ok (ml_utf8 ml)
            | Some charset \<Rightarrow> (case ml_label ml charset of Some e \<Rightarrow> Ok e | None \<Rightarrow> Err CtUnknownEncoding))))"

definition msg_chunked :: "http_lib \<Rightarrow> header_map \<Rightarrow> (bool, parse_error) result exec" where
  "msg_chunked lib headers =
     exec_bind (hm_get lib headers (ByName TRANSFER_ENCODING)) (\<lambda>v.
       Return (case v of
         None \<Rightarrow> Ok False
       | Some te \<Rightarrow>
           (case hl_to_str lib te of
              Some s \<Rightarrow> Ok (contains_str (to_ascii_lowercase s) (bstr ''chunked''))
            | None \<Rightarrow> Err PeHeader)))"

section \<open>Cookies\<close>

text \<open>The cookies of one value, added to those that were found before; the environment places the values in memory.\<close>

fun load_pieces ::
  "('t, 'd) cookie_lib \<Rightarrow> slice list \<Rightarrow> ('t, 'd) cookie list \<Rightarrow> (('t, 'd) cookie list, cookie_parse_error) result exec" where
  "load_pieces lib [] cookies = Return (Ok cookies)"
| "load_pieces lib (piece # pieces) cookies =
     (let cookie_str = slice_trim piece
      in if snd cookie_str \<noteq> [] then
           exec_bind (cookie_parse_encoded lib (fst cookie_str) (CowBorrowed (snd cookie_str))) (\<lambda>r.
             case r of Err e \<Rightarrow> Return (Err e) | Ok c \<Rightarrow> load_pieces lib pieces (cookies @ [cookie_into_owned c]))
         else load_pieces lib pieces cookies)"

fun load_values ::
  "('t, 'd) cookie_env \<Rightarrow> nat \<Rightarrow> header_value list \<Rightarrow> ('t, 'd) cookie list \<Rightarrow> (('t, 'd) cookie list, cookie_parse_error) result exec" where
  "load_values env i [] cookies = Return (Ok cookies)"
| "load_values env i (hdr # hdrs) cookies =
     (case decode_utf8 hdr of
        Err e \<Rightarrow> Return (Err e)
      | Ok s \<Rightarrow>
          exec_bind (load_pieces (ce_lib env) (slice_split 0x3B (ce_addr env i, s)) cookies) (\<lambda>r.
            case r of Err e \<Rightarrow> Return (Err e) | Ok cookies \<Rightarrow> load_values env (Suc i) hdrs cookies))"

definition request_cookies ::
  "('t, 'd) cookie_env \<Rightarrow> ('t, 'd, 'p) request \<Rightarrow> ((('t, 'd) cookie list, cookie_parse_error) result \<times> ('t, 'd, 'p) request) exec" where
  "request_cookies env r =
     (case qr_cookies r of
        Some cs \<Rightarrow> Return (Ok cs, r)
      | None \<Rightarrow>
          exec_bind (load_values env 0 (ga_list (hm_get_all (ce_http env) (rq_headers (qr_head r)) (ByName COOKIE))) []) (\<lambda>res.
            Return (case res of Err e \<Rightarrow> (Err e, r) | Ok cs \<Rightarrow> (Ok cs, r\<lparr>qr_cookies := Some cs\<rparr>))))"

fun find_cookie :: "bytes \<Rightarrow> ('t, 'd) cookie list \<Rightarrow> ('t, 'd) cookie option exec" where
  "find_cookie name [] = Return None"
| "find_cookie name (c # cs) = exec_bind (cookie_name c) (\<lambda>n. if n = name then Return (Some c) else find_cookie name cs)"

definition request_cookie ::
  "('t, 'd) cookie_env \<Rightarrow> bytes \<Rightarrow> ('t, 'd, 'p) request \<Rightarrow> (('t, 'd) cookie option \<times> ('t, 'd, 'p) request) exec" where
  "request_cookie env name r =
     exec_bind (request_cookies env r) (\<lambda>(res, r).
       case res of Err e \<Rightarrow> Return (None, r) | Ok cs \<Rightarrow> exec_bind (find_cookie name cs) (\<lambda>c. Return (c, r)))"

section \<open>The cookies, read as plain text\<close>

fun text_pieces :: "('t, 'd) cookie_lib \<Rightarrow> bytes list \<Rightarrow> (('t, 'd) cookie list, cookie_parse_error) result" where
  "text_pieces lib [] = Ok []"
| "text_pieces lib (p # ps) =
     (if utrim p = [] then text_pieces lib ps
      else case text_parse lib True (utrim p) of
             Err e \<Rightarrow> Err e
           | Ok t \<Rightarrow> (case text_pieces lib ps of Err e \<Rightarrow> Err e | Ok ts \<Rightarrow> Ok (t # ts)))"

fun text_values :: "('t, 'd) cookie_lib \<Rightarrow> header_value list \<Rightarrow> (('t, 'd) cookie list, cookie_parse_error) result" where
  "text_values lib [] = Ok []"
| "text_values lib (v # vs) =
     (if \<not> valid_utf8 v then Err CookieUtf8Error
      else case text_pieces lib (split_on 0x3B v) of
             Err e \<Rightarrow> Err e
           | Ok ts \<Rightarrow> (case text_values lib vs of Err e \<Rightarrow> Err e | Ok us \<Rightarrow> Ok (ts @ us)))"

text \<open>The parsed cookies show those of the text; errors are the same.\<close>

definition shows_as ::
  "(('t, 'd) cookie list, cookie_parse_error) result \<Rightarrow> (('t, 'd) cookie list, cookie_parse_error) result \<Rightarrow> bool" where
  "shows_as r t \<longleftrightarrow>
     (case (r, t) of (Err e, Err e') \<Rightarrow> e = e' | (Ok cs, Ok ts) \<Rightarrow> list_all2 (\<lambda>c u. shown c = Return u) cs ts | _ \<Rightarrow> False)"


lemma shown_into_owned:
  assumes "shown c = Return t" shows "shown (cookie_into_owned c) = Return t"
proof -
  have owned: "to_str x (map_option (\<lambda>s. CowOwned (cow_text s)) k) = to_str x k" for x k
    by (cases x; cases k) simp_all
  show ?thesis using assms by (simp add: cookie_into_owned_def shown_defs owned cong: option.case_cong)
qed

lemma parse_encoded_shown:
  assumes "valid_utf8 p" and "duration_ok lib"
  shows "case text_parse lib True p of
      Err e \<Rightarrow> cookie_parse_encoded lib addr (CowBorrowed p) = Return (Err e)
    | Ok t \<Rightarrow> \<exists>c. cookie_parse_encoded lib addr (CowBorrowed p) = Return (Ok c) \<and> shown c = Return t"
proof -
  have "valid_utf8 (cow_text (CowBorrowed p))" using assms(1) by simp
  from parse_cookie_eq [OF this assms(2), of addr True] obtain r where r:
    "parse_cookie lib addr (CowBorrowed p) True = Return r"
    "(case r of Err e \<Rightarrow> Return (Err e) | Ok c \<Rightarrow> exec_bind (shown c) (\<lambda>t. Return (Ok t))) = Return (text_parse lib True p)"
    by (auto simp: exec_bind_Return)
  then show ?thesis by (cases r; cases "text_parse lib True p") (auto simp: exec_bind_Return cookie_parse_encoded_def)
qed

lemma load_pieces_shown:
  assumes "duration_ok lib" and "list_all (\<lambda>sl. valid_utf8 (snd sl)) sls"
  shows "case text_pieces lib (map snd sls) of
      Err e \<Rightarrow> load_pieces lib sls cs = Return (Err e)
    | Ok ts \<Rightarrow> \<exists>ds. load_pieces lib sls cs = Return (Ok (cs @ ds)) \<and> list_all2 (\<lambda>c u. shown c = Return u) ds ts"
  using assms(2)
proof (induction sls arbitrary: cs)
  case (Cons sl sls)
  have "valid_utf8 (snd (slice_trim sl))"
    using Cons.prems slice_in_valid [OF slice_trim_in [of sl]] by simp
  then have trimmed: "valid_utf8 (utrim (snd sl))" by simp
  show ?case
  proof (cases "utrim (snd sl) = []")
    case True
    then have run: "load_pieces lib (sl # sls) cs = load_pieces lib sls cs" by simp
    show ?thesis unfolding run using Cons True by simp
  next
    case False
    show ?thesis
    proof (cases "text_parse lib True (utrim (snd sl))")
      case (Err e)
      with parse_encoded_shown [OF trimmed assms(1), of "fst (slice_trim sl)"] False show ?thesis by simp
    next
      case (Ok t)
      with parse_encoded_shown [OF trimmed assms(1), of "fst (slice_trim sl)"] obtain c where
        c: "cookie_parse_encoded lib (fst (slice_trim sl)) (CowBorrowed (utrim (snd sl))) = Return (Ok c)" "shown c = Return t" by auto
      have run: "load_pieces lib (sl # sls) cs = load_pieces lib sls (cs @ [cookie_into_owned c])"
        using False c(1) by simp
      have "list_all (\<lambda>sl. valid_utf8 (snd sl)) sls" using Cons.prems by simp
      note rest = Cons.IH [OF this, of "cs @ [cookie_into_owned c]"]
      have all: "text_pieces lib (map snd (sl # sls)) = (case text_pieces lib (map snd sls) of Err e \<Rightarrow> Err e | Ok ts \<Rightarrow> Ok (t # ts))"
        using False Ok by simp
      show ?thesis
      proof (cases "text_pieces lib (map snd sls)")
        case (Err e)
        with rest show ?thesis unfolding run all by simp
      next
        case (Ok ts)
        with rest obtain ds where "load_pieces lib sls (cs @ [cookie_into_owned c]) = Return (Ok ((cs @ [cookie_into_owned c]) @ ds))"
            "list_all2 (\<lambda>c u. shown c = Return u) ds ts" by auto
        then have "load_pieces lib sls (cs @ [cookie_into_owned c]) = Return (Ok (cs @ cookie_into_owned c # ds)) \<and>
            list_all2 (\<lambda>c u. shown c = Return u) (cookie_into_owned c # ds) (t # ts)"
          using shown_into_owned [OF c(2)] by simp
        with Ok show ?thesis unfolding run all by auto
      qed
    qed
  qed
qed simp

lemma load_values_shown:
  assumes "duration_ok (ce_lib env)"
  shows "case text_values (ce_lib env) vs of
      Err e \<Rightarrow> load_values env i vs cs = Return (Err e)
    | Ok ts \<Rightarrow> \<exists>ds. load_values env i vs cs = Return (Ok (cs @ ds)) \<and> list_all2 (\<lambda>c u. shown c = Return u) ds ts"
proof (induction vs arbitrary: i cs)
  case (Cons v vs)
  show ?case
  proof (cases "valid_utf8 v")
    case False
    then show ?thesis by (simp add: decode_utf8_def)
  next
    case True
    let ?sls = "slice_split 0x3B (ce_addr env i, v)"
    have "valid_utf8 (snd sl)" if "sl \<in> set ?sls" for sl
      using slice_in_valid [OF slice_split_in [OF _ _ that]] True by simp
    then have "list_all (\<lambda>sl. valid_utf8 (snd sl)) ?sls" by (simp add: list_all_iff)
    from load_pieces_shown [OF assms this, of cs]
    have pieces: "case text_pieces (ce_lib env) (split_on 0x3B v) of
        Err e \<Rightarrow> load_pieces (ce_lib env) ?sls cs = Return (Err e)
      | Ok ts \<Rightarrow> \<exists>ds. load_pieces (ce_lib env) ?sls cs = Return (Ok (cs @ ds)) \<and> list_all2 (\<lambda>c u. shown c = Return u) ds ts"
      by (simp add: snd_slice_split)
    show ?thesis
    proof (cases "text_pieces (ce_lib env) (split_on 0x3B v)")
      case (Err e)
      with pieces True show ?thesis by (simp add: decode_utf8_def)
    next
      case (Ok ts)
      with pieces obtain ds where ds: "load_pieces (ce_lib env) ?sls cs = Return (Ok (cs @ ds))"
          "list_all2 (\<lambda>c u. shown c = Return u) ds ts" by auto
      have run: "load_values env i (v # vs) cs = load_values env (Suc i) vs (cs @ ds)"
        using True ds(1) by (simp add: decode_utf8_def)
      from Cons.IH [of "Suc i" "cs @ ds"] show ?thesis
        unfolding run using True Ok ds(2) by (auto split: result.splits intro: list_all2_appendI)
    qed
  qed
qed simp


lemma request_cookies_shown:
  assumes "duration_ok (ce_lib env)" and "qr_cookies r = None"
  shows "\<exists>x r'. request_cookies env r = Return (x, r') \<and>
    shows_as x (text_values (ce_lib env) (hm_values (rq_headers (qr_head r)) COOKIE)) \<and>
    r' = (case x of Err e \<Rightarrow> r | Ok cs \<Rightarrow> r\<lparr>qr_cookies := Some cs\<rparr>)"
proof -
  let ?vs = "hm_values (rq_headers (qr_head r)) COOKIE"
  have vs: "ga_list (hm_get_all (ce_http env) (rq_headers (qr_head r)) (ByName COOKIE)) = ?vs"
    by (auto simp: ga_list_items hm_get_all_def ga_items_def hm_get2_def hm_values_def as_name_def split: option.split hvalue.split)
  show ?thesis
  proof (cases "text_values (ce_lib env) ?vs")
    case (Err e)
    with load_values_shown [OF assms(1), of 0 ?vs "[]"] show ?thesis
      using assms(2) by (simp add: request_cookies_def vs shows_as_def)
  next
    case (Ok ts)
    with load_values_shown [OF assms(1), of 0 ?vs "[]"] obtain ds where
      "load_values env 0 ?vs [] = Return (Ok ds)" "list_all2 (\<lambda>c u. shown c = Return u) ds ts" by auto
    with assms(2) Ok show ?thesis by (simp add: request_cookies_def vs shows_as_def)
  qed
qed

lemma set_trim_start: "set (trim_start s) \<subseteq> set s"
proof (induction s rule: trim_start.induct)
  case (1 s)
  then show ?case using set_drop_subset [of "ws_front s" s] by (cases "ws_front s = 0") (auto simp: trim_start.simps [of s])
qed

lemma set_trim_end: "set (trim_end s) \<subseteq> set s"
proof (induction s rule: trim_end.induct)
  case (1 s)
  then show ?case using set_take_subset [of "length s - ws_back s" s] by (cases "ws_back s = 0") (auto simp: trim_end.simps [of s])
qed

lemma split_on_piece: "p \<in> set (split_on c s) \<Longrightarrow> c \<notin> set p"
  by (induction s arbitrary: p) (auto split: list.splits if_splits)

lemma bad_piece: "p \<in> set ps \<Longrightarrow> utrim p \<noteq> [] \<Longrightarrow> text_parse lib True (utrim p) = Err e \<Longrightarrow> \<exists>e'. text_pieces lib ps = Err e'"
  by (induction ps) (auto split: result.splits)

lemma bad_value: "v \<in> set vs \<Longrightarrow> text_pieces lib (split_on 0x3B v) = Err e \<Longrightarrow> \<exists>e'. text_values lib vs = Err e'"
  by (induction vs) (auto split: result.splits)

section \<open>Properties\<close>

text \<open>
  Reading the cookies of a request never panics, whatever bytes the headers hold; it yields, in order, the cookies that the parser on
  texts finds between the semicolons of all values, or the first error.
\<close>

theorem request_cookies_refine:
  assumes "duration_ok (ce_lib env)" and "qr_cookies r = None"
  shows "\<exists>x r'. request_cookies env r = Return (x, r') \<and>
    shows_as x (text_values (ce_lib env) (hm_values (rq_headers (qr_head r)) COOKIE)) \<and>
    r' = (case x of Err e \<Rightarrow> r | Ok cs \<Rightarrow> r\<lparr>qr_cookies := Some cs\<rparr>)"
  by (rule request_cookies_shown [OF assms])

text \<open>
  The cookies are read once: after a successful read, a change of the headers is not seen.
\<close>

theorem request_cookies_cached:
  assumes "request_cookies env r = Return (Ok cs, r')"
  shows "request_cookies env (r'\<lparr>qr_head := h\<rparr>) = Return (Ok cs, r'\<lparr>qr_head := h\<rparr>)"
proof (cases "qr_cookies r")
  case None
  let ?read = "load_values env 0 (ga_list (hm_get_all (ce_http env) (rq_headers (qr_head r)) (ByName COOKIE))) []"
  obtain x where x: "?read = Return x" using assms None by (cases ?read) (simp_all add: request_cookies_def)
  have "qr_cookies r' = Some cs" using assms None x by (cases x) (auto simp: request_cookies_def)
  then show ?thesis by (simp add: request_cookies_def)
next
  case (Some cs)
  with assms show ?thesis by (simp add: request_cookies_def)
qed

text \<open>
  One piece without an equals sign, in any of the values, hides all cookies of the request: no name is found.
\<close>

theorem bad_piece_hides_cookies:
  assumes "duration_ok (ce_lib env)" and "qr_cookies r = None"
    and "v \<in> set (hm_values (rq_headers (qr_head r)) COOKIE)" and "p \<in> set (split_on 0x3B v)"
    and "utrim p \<noteq> []" and "0x3D \<notin> set p"
  shows "request_cookie env name r = Return (None, r)"
proof -
  have "set (utrim p) \<subseteq> set p" using set_trim_start [of p] set_trim_end [of "trim_start p"] by (auto simp: utrim_def)
  then have "0x3D \<notin> set (utrim p)" "0x3B \<notin> set (utrim p)" using assms(6) split_on_piece [OF assms(4)] by auto
  then have "text_parse (ce_lib env) True (utrim p) = Err MissingPair" by (simp add: text_parse_def split_on_no)
  from bad_piece [OF assms(4,5) this] obtain e where "text_pieces (ce_lib env) (split_on 0x3B v) = Err e" by blast
  from bad_value [OF assms(3) this] obtain e' where "text_values (ce_lib env) (hm_values (rq_headers (qr_head r)) COOKIE) = Err e'" by blast
  moreover obtain x r' where "request_cookies env r = Return (x, r')"
      "shows_as x (text_values (ce_lib env) (hm_values (rq_headers (qr_head r)) COOKIE))"
      "r' = (case x of Err e \<Rightarrow> r | Ok cs \<Rightarrow> r\<lparr>qr_cookies := Some cs\<rparr>)"
    using request_cookies_shown [OF assms(1,2)] by blast
  ultimately have "request_cookies env r = Return (Err e', r)" by (cases x) (simp_all add: shows_as_def)
  then show ?thesis by (simp add: request_cookie_def)
qed


text \<open>A \<open>Cookie\<close> header value as browsers build it: encoded pairs with semicolons and spaces between.\<close>

definition pair_text :: "bytes \<times> bytes \<Rightarrow> bytes" where
  "pair_text nv = pct_encode USERINFO (fst nv) @ [0x3D] @ pct_encode USERINFO (snd nv)"

definition cookie_header :: "bytes \<times> bytes \<Rightarrow> (bytes \<times> bytes) list \<Rightarrow> bytes" where
  "cookie_header nv nvs = pair_text nv @ join_attrs (map pair_text nvs)"

definition pair_ok :: "bytes \<times> bytes \<Rightarrow> bool" where
  "pair_ok nv \<longleftrightarrow> fst nv \<noteq> [] \<and> 0x25 \<notin> set (fst nv) \<and> 0x25 \<notin> set (snd nv) \<and> valid_utf8 (fst nv) \<and> valid_utf8 (snd nv)"

lemma pair_text_bytes: "c \<in> set (pair_text nv) \<Longrightarrow> plain_byte c \<and> c \<noteq> 0x3B"
  using pct_encode_bytes [of c "fst nv"] pct_encode_bytes [of c "snd nv"]
  by (auto simp: pair_text_def plain_byte_def is_ws_def)

lemma pair_text_tidy: "tidy (pair_text nv)"
proof -
  have "pair_text nv \<noteq> []" by (simp add: pair_text_def)
  then show ?thesis using pair_text_bytes [of _ nv] by (simp add: tidy_def)
qed

lemma pair_text_parse:
  assumes "pair_ok nv" and "percent_ok lib"
  shows "text_parse lib True (pair_text nv) = Ok (cookie_new (fst nv) (snd nv))"
proof -
  let ?n = "pct_encode USERINFO (fst nv)" and ?v = "pct_encode USERINFO (snd nv)"
  have no: "0x3D \<notin> set ?n" "0x3B \<notin> set ?n" using pct_encode_bytes by blast+
  have blank: "attr_texts lib (cookie_new [] []) = []" "params_printable lib (cookie_new [] [])"
    by (simp_all add: attr_texts_def params_printable_def cookie_new_def)
  have "text_pair lib True ?n ?v = Ok (fst nv, snd nv)"
    using assms pct_encode_roundtrip [of "fst nv"] pct_encode_roundtrip [of "snd nv"]
    by (simp add: text_pair_def percent_ok_def pair_ok_def)
  then show ?thesis
    using text_parse_pair [OF pct_encode_tidy no pct_encode_part [of "snd nv"] blank(2), of True] assms(1) blank(1)
    by (cases nv) (simp add: pair_text_def pair_ok_def cookie_new_def kept_same_site_def)
qed

lemma text_pieces_pairs:
  assumes "list_all pair_ok nvs" and "percent_ok lib"
  shows "text_pieces lib (map ((#) 0x20) (map pair_text nvs)) = Ok (map (\<lambda>nv. cookie_new (fst nv) (snd nv)) nvs)"
  using assms(1)
proof (induction nvs)
  case (Cons nv nvs)
  then have "text_parse lib True (pair_text nv) = Ok (cookie_new (fst nv) (snd nv))"
    using pair_text_parse [OF _ assms(2)] by (simp only: list.pred_inject)
  moreover have "pair_text nv \<noteq> []" using pair_text_tidy [of nv] by (simp add: tidy_def)
  ultimately show ?case using Cons by (simp add: utrim_tidy(2) [OF pair_text_tidy])
qed simp

lemma cookies_read_back:
  assumes "duration_ok (ce_lib env)" and "percent_ok (ce_lib env)" and "qr_cookies r = None"
    and "list_all pair_ok (nv # nvs)" and "hm_values (rq_headers (qr_head r)) COOKIE = [cookie_header nv nvs]"
  shows "\<exists>cs r'. request_cookies env r = Return (Ok cs, r') \<and>
    map (\<lambda>c. (cookie_name c, cookie_value c)) cs = map (\<lambda>(n, v). (Return n, Return v)) (nv # nvs)"
proof -
  have plain: "list_all (\<lambda>a. 0x3B \<notin> set a) (map pair_text nvs)" "0x3B \<notin> set (pair_text nv)"
    using pair_text_bytes by (force simp: list_all_iff, blast)
  have small: "list_all (\<lambda>b. b < 0x80) (pair_text p)" for p
    using pair_text_bytes [of _ p] by (auto simp: list_all_iff plain_byte_def)
  then have "list_all (\<lambda>b. b < 0x80) (join_attrs (map pair_text ps))" for ps by (induction ps) simp_all
  with small have "list_all (\<lambda>b. b < 0x80) (cookie_header nv nvs)" by (simp add: cookie_header_def)
  then have utf8: "valid_utf8 (cookie_header nv nvs)" by (rule valid_utf8_ascii)
  have ne: "pair_text nv \<noteq> []" using pair_text_tidy [of nv] by (simp add: tidy_def)
  have "text_pieces (ce_lib env) (pair_text nv # map ((#) 0x20) (map pair_text nvs)) =
      Ok (map (\<lambda>nv. cookie_new (fst nv) (snd nv)) (nv # nvs))"
    using assms(4) pair_text_parse [of nv, OF _ assms(2)] text_pieces_pairs [OF _ assms(2), of nvs] ne
    by (simp add: utrim_tidy(1) [OF pair_text_tidy])
  then have "text_values (ce_lib env) [cookie_header nv nvs] = Ok (map (\<lambda>nv. cookie_new (fst nv) (snd nv)) (nv # nvs))"
    using utf8 split_join [OF plain] by (simp add: cookie_header_def)
  moreover obtain x r' where x: "request_cookies env r = Return (x, r')"
      "shows_as x (text_values (ce_lib env) [cookie_header nv nvs])"
    using request_cookies_shown [OF assms(1,3)] assms(5) by auto
  ultimately obtain cs where cs: "x = Ok cs" "list_all2 (\<lambda>c u. shown c = Return u) cs (map (\<lambda>nv. cookie_new (fst nv) (snd nv)) (nv # nvs))"
    by (cases x) (auto simp: shows_as_def)
  have "map (\<lambda>c. (cookie_name c, cookie_value c)) ds = map (\<lambda>(n, v). (Return n, Return v)) ps"
    if "list_all2 (\<lambda>c u. shown c = Return u) ds (map (\<lambda>nv. cookie_new (fst nv) (snd nv)) ps)" for ds ps
    using that
  proof (induction ps arbitrary: ds)
    case (Cons p ps)
    then obtain c ds' where "ds = c # ds'" "shown c = Return (cookie_new (fst p) (snd p))"
        "list_all2 (\<lambda>c u. shown c = Return u) ds' (map (\<lambda>nv. cookie_new (fst nv) (snd nv)) ps)"
      by (auto simp: list_all2_Cons2)
    with Cons.IH [of ds'] shown_parts(1,2) [of c "cookie_new (fst p) (snd p)"] show ?case
      by (cases p) (simp add: cookie_new_def)
  qed simp
  from this [OF cs(2)] x(1) cs(1) show ?thesis by blast
qed

text \<open>
  Property C35. A request that carries cookies in encoded form in the one value of its cookie header, and whose cookies were not asked for
  before, yields exactly these names and values, in their order. Every name is not empty, and names and values are UTF-8 texts
  without a percent sign. The library's durations and percent codec keep their contracts.
\<close>

theorem sent_cookies_received:
  assumes "duration_ok (ce_lib env)" and "percent_ok (ce_lib env)" and "qr_cookies r = None"
    and "list_all pair_ok (nv # nvs)" and "hm_values (rq_headers (qr_head r)) COOKIE = [cookie_header nv nvs]"
  shows "\<exists>cs r'. request_cookies env r = Return (Ok cs, r') \<and>
    map (\<lambda>c. (cookie_name c, cookie_value c)) cs = map (\<lambda>(n, v). (Return n, Return v)) (nv # nvs)"
  by (rule cookies_read_back [OF assms])

definition demo_request_of :: "header_value list \<Rightarrow> (bytes, int, unit) request" where
  "demo_request_of vs = \<lparr>qr_payload = (),
     qr_head = request_head_default\<lparr>rq_headers := (case vs of [] \<Rightarrow> [] | [v] \<Rightarrow> [(COOKIE, One v)] | _ \<Rightarrow> [(COOKIE, Multi vs)])\<rparr>,
     qr_cookies = None\<rparr>"

lemma demo_request_parts [simp]:
  "qr_cookies (demo_request_of vs) = None" "hm_values (rq_headers (qr_head (demo_request_of vs))) COOKIE = vs"
  by (simp_all add: demo_request_of_def hm_values_def split: list.split)

lemma demo_env_lib: "ce_lib demo_env = demo_cookie_lib"
  by (simp add: demo_env_def)

lemma request_cookies_refine_witness:
  "\<exists>x r'. request_cookies demo_env (demo_request_of [bstr ''a=1'', [0xFF]]) = Return (x, r') \<and>
    shows_as x (text_values demo_cookie_lib [bstr ''a=1'', [0xFF]]) \<and>
    r' = (case x of Err e \<Rightarrow> demo_request_of [bstr ''a=1'', [0xFF]] | Ok cs \<Rightarrow> (demo_request_of [bstr ''a=1'', [0xFF]])\<lparr>qr_cookies := Some cs\<rparr>)"
  using request_cookies_refine [of demo_env "demo_request_of [bstr ''a=1'', [0xFF]]"] demo_lib_ok(1)
  by (simp only: demo_env_lib demo_request_parts)

lemma request_cookies_cached_witness:
  "request_cookies demo_env ((demo_request_of [])\<lparr>qr_cookies := Some [], qr_head := request_head_default\<rparr>) =
     Return (Ok [], (demo_request_of [])\<lparr>qr_cookies := Some [], qr_head := request_head_default\<rparr>)"
proof -
  have "request_cookies demo_env (demo_request_of []) = Return (Ok [], (demo_request_of [])\<lparr>qr_cookies := Some []\<rparr>)"
    by (simp add: request_cookies_def ga_list_items hm_get_all_def ga_items_def hm_get2_def as_name_def demo_request_of_def)
  from request_cookies_cached [OF this, of request_head_default] show ?thesis by simp
qed

lemma bad_piece_hides_cookies_witness:
  "request_cookie demo_env (bstr ''a'') (demo_request_of [bstr ''a=1; junk'']) = Return (None, demo_request_of [bstr ''a=1; junk''])"
proof (rule bad_piece_hides_cookies [where v = "bstr ''a=1; junk''" and p = "bstr '' junk''"])
  have "utrim (bstr '' junk'') = bstr ''junk''"
    using utrim_tidy(2) [of "bstr ''junk''"] by (simp add: tidy_def plain_byte_def is_ws_def)
  then show "utrim (bstr '' junk'') \<noteq> []" by (simp del: bstr_Cons) simp
qed (use demo_lib_ok(1) in \<open>simp_all only: demo_env_lib demo_request_parts, simp_all\<close>)

lemma sent_cookies_received_witness:
  "\<exists>cs r'. request_cookies demo_env (demo_request_of [cookie_header (bstr ''a'', bstr ''1'') [(bstr ''b'', bstr ''x; y'')]]) = Return (Ok cs, r') \<and>
    map (\<lambda>c. (cookie_name c, cookie_value c)) cs =
      map (\<lambda>(n, v). (Return n, Return v)) [(bstr ''a'', bstr ''1''), (bstr ''b'', bstr ''x; y'')]"
  by (rule sent_cookies_received) (use demo_lib_ok in \<open>simp_all add: demo_env_lib pair_ok_def\<close>)

end
