(* ===== verification/Test_Request.thy ===== *)
theory Test_Request
  imports Http_Request Cookie_Jar H1_Payload
begin

text \<open>
  The builder of requests for tests (\<open>TestRequest\<close> in \<open>test.rs\<close>). It is used up by \<open>take\<close> and \<open>finish\<close>, and its operations panic
  afterwards; they also panic on what is no URI, header name or header value.
\<close>

section \<open>Operations\<close>

type_synonym test_payload = "(payload_error inner, unit, unit) payload"

record ('t, 'd) test_inner =
  tr_version :: http_version
  tr_method :: http_method
  tr_uri :: bytes
  tr_headers :: header_map
  tr_cookies :: "('t, 'd) cookie_jar"
  tr_payload :: "test_payload option"

type_synonym ('t, 'd) test_request = "('t, 'd) test_inner option"

definition test_parts :: "('t, 'd) test_request \<Rightarrow> ('t, 'd) test_inner exec" where
  "test_parts t = (case t of None \<Rightarrow> Panic | Some inner \<Rightarrow> Return inner)"

definition test_default :: "http_lib \<Rightarrow> ('t, 'd) test_request exec" where
  "test_default lib =
     (case hl_uri_from_str lib (bstr ''/'') of
        None \<Rightarrow> Panic
      | Some uri \<Rightarrow> Return (Some \<lparr>tr_version = HTTP_11, tr_method = bstr ''GET'', tr_uri = uri, tr_headers = hm_new,
          tr_cookies = jar_new, tr_payload = None\<rparr>))"

definition test_version :: "http_version \<Rightarrow> ('t, 'd) test_request \<Rightarrow> ('t, 'd) test_request exec" where
  "test_version ver t = exec_bind (test_parts t) (\<lambda>inner. Return (Some (inner\<lparr>tr_version := ver\<rparr>)))"

definition test_method :: "http_method \<Rightarrow> ('t, 'd) test_request \<Rightarrow> ('t, 'd) test_request exec" where
  "test_method meth t = exec_bind (test_parts t) (\<lambda>inner. Return (Some (inner\<lparr>tr_method := meth\<rparr>)))"

definition test_uri :: "http_lib \<Rightarrow> bytes \<Rightarrow> ('t, 'd) test_request \<Rightarrow> ('t, 'd) test_request exec" where
  "test_uri lib path t =
     exec_bind (test_parts t) (\<lambda>inner.
       case hl_uri_from_str lib path of None \<Rightarrow> Panic | Some uri \<Rightarrow> Return (Some (inner\<lparr>tr_uri := uri\<rparr>)))"

text \<open>The value of a typed header, and name and value of a header, when the conversions succeed.\<close>

definition test_set :: "header_name \<Rightarrow> header_value option \<Rightarrow> ('t, 'd) test_request \<Rightarrow> ('t, 'd) test_request exec" where
  "test_set name val t =
     (case val of
        None \<Rightarrow> Panic
      | Some v \<Rightarrow> exec_bind (test_parts t) (\<lambda>inner. Return (Some (inner\<lparr>tr_headers := hm_append (tr_headers inner) name v\<rparr>))))"

definition test_header :: "header_name option \<Rightarrow> header_value option \<Rightarrow> ('t, 'd) test_request \<Rightarrow> ('t, 'd) test_request exec" where
  "test_header key val t =
     (case key of
        None \<Rightarrow> Panic
      | Some k \<Rightarrow>
          (case val of
             None \<Rightarrow> Panic
           | Some v \<Rightarrow> exec_bind (test_parts t) (\<lambda>inner. Return (Some (inner\<lparr>tr_headers := hm_append (tr_headers inner) k v\<rparr>)))))"

definition test_cookie :: "('t, 'd) cookie \<Rightarrow> ('t, 'd) test_request \<Rightarrow> ('t, 'd) test_request exec" where
  "test_cookie c t =
     exec_bind (test_parts t) (\<lambda>inner.
       exec_bind (jar_add (cookie_into_owned c) (tr_cookies inner)) (\<lambda>jar. Return (Some (inner\<lparr>tr_cookies := jar\<rparr>))))"

definition test_set_payload :: "bytes \<Rightarrow> ('t, 'd) test_request \<Rightarrow> ('t, 'd) test_request exec" where
  "test_set_payload data t =
     (let payload = inner_unread_data data (inner_new True)
      in exec_bind (test_parts t) (\<lambda>inner. Return (Some (inner\<lparr>tr_payload := Some (PayloadH1 payload)\<rparr>))))"

definition test_take :: "('t, 'd) test_request \<Rightarrow> ('t, 'd) test_request \<times> ('t, 'd) test_request" where
  "test_take t = (t, None)"

text \<open>\<open>take\<close> on the result of an operation that is not otherwise used.\<close>

definition test_with_uri :: "http_lib \<Rightarrow> bytes \<Rightarrow> ('t, 'd) test_request exec" where
  "test_with_uri lib path = exec_bind (exec_bind (test_default lib) (test_uri lib path)) (\<lambda>t. Return (fst (test_take t)))"

definition test_with_hdr :: "http_lib \<Rightarrow> header_name \<Rightarrow> header_value option \<Rightarrow> ('t, 'd) test_request exec" where
  "test_with_hdr lib name val = exec_bind (exec_bind (test_default lib) (test_set name val)) (\<lambda>t. Return (fst (test_take t)))"

definition test_with_header :: "http_lib \<Rightarrow> header_name option \<Rightarrow> header_value option \<Rightarrow> ('t, 'd) test_request exec" where
  "test_with_header lib key val = exec_bind (exec_bind (test_default lib) (test_header key val)) (\<lambda>t. Return (fst (test_take t)))"

text \<open>The text of the cookies, and the finished request; \<open>hv\<close> makes a header value of a text.\<close>

fun cookie_pairs :: "('t, 'd) cookie_lib \<Rightarrow> ('t, 'd) cookie list \<Rightarrow> bytes \<Rightarrow> bytes exec" where
  "cookie_pairs lib [] cookie = Return cookie"
| "cookie_pairs lib (c # cs) cookie =
     exec_bind (cookie_name c) (\<lambda>n.
       exec_bind (cookie_value c) (\<lambda>v.
         cookie_pairs lib cs (cookie @ bstr ''; '' @ kl_percent_encode lib USERINFO n @ [0x3D] @ kl_percent_encode lib USERINFO v)))"

definition test_finish ::
  "('t, 'd) cookie_lib \<Rightarrow> (bytes \<Rightarrow> header_value option) \<Rightarrow> request_pool \<Rightarrow> ('t, 'd) test_request \<Rightarrow>
   (('t, 'd, test_payload) request \<times> ('t, 'd) test_request) exec" where
  "test_finish lib hv pool t =
     exec_bind (test_parts t) (\<lambda>inner.
       (let req = with_payload pool (case tr_payload inner of Some pl \<Rightarrow> pl | None \<Rightarrow> PayloadH1 (inner_new True));
            head = (qr_head req)\<lparr>rq_uri := tr_uri inner, rq_method := tr_method inner, rq_version := tr_version inner,
                                 rq_headers := tr_headers inner\<rparr>
        in exec_bind (cookie_pairs lib (delta_all (jar_delta (tr_cookies inner))) []) (\<lambda>cookie.
             if cookie \<noteq> [] then
               (case hv (drop 2 cookie) of
                  None \<Rightarrow> Panic
                | Some v \<Rightarrow> Return (req\<lparr>qr_head := head\<lparr>rq_headers := hm_insert (rq_headers head) COOKIE v\<rparr>\<rparr>, None))
             else Return (req\<lparr>qr_head := head\<rparr>, None))))"

section \<open>What a test request carries\<close>

text \<open>A builder that was used up panics in every operation.\<close>

theorem used_builder_panics:
  "test_version ver None = Panic" "test_method meth None = Panic" "test_uri lib path None = Panic" "test_set name val None = Panic"
  "test_header key val None = Panic" "test_cookie c None = Panic" "test_set_payload data None = Panic"
  "test_finish klib hv pool None = Panic"
  by (simp_all add: test_version_def test_method_def test_uri_def test_set_def test_header_def test_cookie_def test_set_payload_def
      test_finish_def test_parts_def split: option.split)

lemma cookie_pairs_text:
  assumes "percent_ok lib" and "map (\<lambda>c. (cookie_name c, cookie_value c)) cs = map (\<lambda>(n, v). (Return n, Return v)) nvs"
  shows "cookie_pairs lib cs acc = Return (acc @ join_attrs (map pair_text nvs))"
  using assms(2)
proof (induction cs arbitrary: nvs acc)
  case (Cons c cs)
  then obtain n v nvs' where "nvs = (n, v) # nvs'" "cookie_name c = Return n" "cookie_value c = Return v"
      "map (\<lambda>c. (cookie_name c, cookie_value c)) cs = map (\<lambda>(n, v). (Return n, Return v)) nvs'" by (cases nvs) auto
  with Cons.IH [of nvs'] assms(1) show ?case by (simp add: percent_ok_def pair_text_def)
qed simp

text \<open>
  The cookies that were added to the builder are the cookies of the request, whatever order its hash set has, and the request line
  is the one that was set.
\<close>

theorem test_request_cookies:
  assumes "duration_ok (ce_lib env)" and "percent_ok (ce_lib env)"
    and "map (\<lambda>c. (cookie_name c, cookie_value c)) (delta_all (jar_delta (tr_cookies inner))) = map (\<lambda>(n, v). (Return n, Return v)) (nv # nvs)"
    and "list_all pair_ok (nv # nvs)" and "hv (cookie_header nv nvs) = Some (cookie_header nv nvs)"
  shows "\<exists>req cs req'. test_finish (ce_lib env) hv pool (Some inner) = Return (req, None) \<and>
    rq_uri (qr_head req) = tr_uri inner \<and> rq_method (qr_head req) = tr_method inner \<and> rq_version (qr_head req) = tr_version inner \<and>
    request_cookies env req = Return (Ok cs, req') \<and>
    map (\<lambda>c. (cookie_name c, cookie_value c)) cs = map (\<lambda>(n, v). (Return n, Return v)) (nv # nvs)"
proof -
  have "cookie_pairs (ce_lib env) (delta_all (jar_delta (tr_cookies inner))) [] = Return (bstr ''; '' @ cookie_header nv nvs)"
    using cookie_pairs_text [OF assms(2,3), of "[]"] by (simp add: cookie_header_def)
  then obtain req where req: "test_finish (ce_lib env) hv pool (Some inner) = Return (req, None)" "qr_cookies req = None"
      "rq_uri (qr_head req) = tr_uri inner" "rq_method (qr_head req) = tr_method inner" "rq_version (qr_head req) = tr_version inner"
      "rq_headers (qr_head req) = hm_insert (tr_headers inner) COOKIE (cookie_header nv nvs)"
    using assms(5) by (simp add: test_finish_def test_parts_def with_payload_def)
  have "hm_values (rq_headers (qr_head req)) COOKIE = [cookie_header nv nvs]"
    by (simp add: req(6) hm_values_def hm_insert_def update_conv)
  with cookies_read_back [OF assms(1,2) req(2) assms(4)] req(1,3-5) show ?thesis by blast
qed

lemma test_request_cookies_witness:
  "\<exists>req cs req'. test_finish demo_cookie_lib Some [] (Some \<lparr>tr_version = HTTP_11, tr_method = bstr ''GET'', tr_uri = bstr ''/'', tr_headers = [],
      tr_cookies = \<lparr>jr_original = [], jr_delta = [(bstr ''a'', delta_added (cookie_new (bstr ''a'') (bstr ''1 2'')))]\<rparr>, tr_payload = None\<rparr>) =
      Return (req, None) \<and> rq_uri (qr_head req) = bstr ''/'' \<and> rq_method (qr_head req) = bstr ''GET'' \<and> rq_version (qr_head req) = HTTP_11 \<and>
    request_cookies demo_env req = Return (Ok cs, req') \<and>
    map (\<lambda>c. (cookie_name c, cookie_value c)) cs = [(Return (bstr ''a''), Return (bstr ''1 2''))]"
  using test_request_cookies [of demo_env "\<lparr>tr_version = HTTP_11, tr_method = bstr ''GET'', tr_uri = bstr ''/'', tr_headers = [],
      tr_cookies = \<lparr>jr_original = [], jr_delta = [(bstr ''a'', delta_added (cookie_new (bstr ''a'') (bstr ''1 2'')))]\<rparr>, tr_payload = None\<rparr>"
      "(bstr ''a'', bstr ''1 2'')" "[]" Some] demo_lib_ok
  by (simp add: demo_env_lib jar_delta_def delta_added_def cookie_new_def cookie_name_def cookie_value_def pair_ok_def)

end
