(* ===== verification/H1_Client.thy ===== *)
theory H1_Client
  imports H1_Codec H1_Transfer_Encoding Http_Error
begin

text \<open>
  The client's side of a connection: its codec (\<open>h1/client.rs\<close>), what becomes of the connection after the response
  (\<open>client/h1proto.rs\<close>) and the errors of a request (\<open>client/error.rs\<close>). Debug assertions are left out. The transport \<open>Framed\<close>
  of the crate \<open>actix-codec\<close> is a parameter.
\<close>

section \<open>The codec\<close>

record client_codec =
  xc_payload :: "payload_decoder option"
  xc_version :: http_version
  xc_ctype :: connection_type
  xc_head :: bool
  xc_keepalive_enabled :: bool
  xc_stream :: bool
  xc_encoder :: message_encoder

definition client_codec_new :: "bool \<Rightarrow> client_codec" where
  "client_codec_new keep_alive_enabled = \<lparr>xc_payload = None, xc_version = HTTP_11, xc_ctype = CtClose, xc_head = False,
     xc_keepalive_enabled = keep_alive_enabled, xc_stream = False, xc_encoder = message_encoder_default\<rparr>"

definition client_upgrade :: "client_codec \<Rightarrow> bool" where
  "client_upgrade c \<longleftrightarrow> xc_ctype c = CtUpgrade"

definition client_keepalive :: "client_codec \<Rightarrow> bool" where
  "client_keepalive c \<longleftrightarrow> xc_ctype c = CtKeepAlive"

definition client_message_type :: "client_codec \<Rightarrow> message_type" where
  "client_message_type c = (if xc_stream c then MtStream else if xc_payload c = None then MtNone else MtPayload)"

definition client_on_response :: "response_head \<Rightarrow> payload_type \<Rightarrow> client_codec \<Rightarrow> client_codec" where
  "client_on_response res payload c =
     (let c = (case rs_ctype res of
                 None \<Rightarrow> c
               | Some ct \<Rightarrow> c\<lparr>xc_ctype := (if ct = CtKeepAlive then xc_ctype c else ct)\<rparr>)
      in if \<not> xc_head c then
           (case payload of
              PtNone \<Rightarrow> c\<lparr>xc_payload := None\<rparr>
            | PtPayload pl \<Rightarrow> c\<lparr>xc_payload := Some pl\<rparr>
            | PtStream pl \<Rightarrow> c\<lparr>xc_payload := Some pl, xc_stream := True\<rparr>)
         else c\<lparr>xc_payload := None\<rparr>)"

definition client_decode :: "http_lib \<Rightarrow> client_codec \<Rightarrow> bytes \<Rightarrow> response_head decoded \<times> client_codec \<times> bytes" where
  "client_decode lib c src =
     (case response_decode lib src of
        (Err e, src') \<Rightarrow> (Err e, c, src')
      | (Ok None, src') \<Rightarrow> (Ok None, c, src')
      | (Ok (Some (res, payload)), src') \<Rightarrow> (Ok (Some res), client_on_response res payload c, src'))"

text \<open>The decoder of the body; without a body it panics.\<close>

definition client_payload_decode ::
  "client_codec \<Rightarrow> bytes \<Rightarrow> ((bytes option option, payload_error) result \<times> client_codec \<times> bytes) exec" where
  "client_payload_decode c src =
     (case xc_payload c of
        None \<Rightarrow> Panic
      | Some pl \<Rightarrow>
          Return (case payload_decode pl src of
            (Err e, pl', src') \<Rightarrow> (Err (payload_error_from_io e), c\<lparr>xc_payload := Some pl'\<rparr>, src')
          | (Ok (Some (ItemChunk chunk)), pl', src') \<Rightarrow> (Ok (Some (Some chunk)), c\<lparr>xc_payload := Some pl'\<rparr>, src')
          | (Ok (Some ItemEof), pl', src') \<Rightarrow> (Ok (Some None), c\<lparr>xc_payload := None\<rparr>, src')
          | (Ok None, pl', src') \<Rightarrow> (Ok None, c\<lparr>xc_payload := Some pl'\<rparr>, src')))"

definition request_ctype :: "request_head \<Rightarrow> client_codec \<Rightarrow> connection_type" where
  "request_ctype h c =
     (case rq_connection_type h of
        CtKeepAlive \<Rightarrow> if xc_keepalive_enabled c then CtKeepAlive else CtClose
      | CtUpgrade \<Rightarrow> CtUpgrade
      | CtClose \<Rightarrow> CtClose)"

fun client_encode ::
  "encode_env \<Rightarrow> http_lib \<Rightarrow> (request_head_type \<times> body_size) message \<Rightarrow> client_codec \<Rightarrow> out_buf \<Rightarrow>
   ((unit, io_error) result \<times> client_codec \<times> out_buf) option" where
  "client_encode env lib (Item (head, sz)) c dst =
     (let c = c\<lparr>xc_version := rq_version (rht_head head), xc_head := (rq_method (rht_head head) = METHOD_HEAD)\<rparr>;
          c = c\<lparr>xc_ctype := request_ctype (rht_head head) c\<rparr>
      in do {
           (enc, dst) \<leftarrow> encode_request env lib (xc_encoder c) head False False (xc_version c) sz (xc_ctype c) dst;
           Some (Ok (), c\<lparr>xc_encoder := enc\<rparr>, dst)
         })"
| "client_encode env lib (Chunk (Some bs)) c dst =
     (let (r, enc, out) = encode_chunk (xc_encoder c) bs []
      in Some ((case r of Ok _ \<Rightarrow> Ok () | Err e \<Rightarrow> Err e), c\<lparr>xc_encoder := enc\<rparr>, put_slice env out dst))"
| "client_encode env lib (Chunk None) c dst =
     (let (r, enc, out) = encode_eof (xc_encoder c) []
      in Some (r, c\<lparr>xc_encoder := enc\<rparr>, put_slice env out dst))"

section \<open>Errors of a request\<close>

text \<open>The errors of name resolution, TLS, HTTP/2 and of the crate \<open>http\<close> are the texts that they print.\<close>

datatype connect_error =
    CeSslIsNotSupported | CeResolver string | CeNoRecords | CeH2 string | CeTimeout | CeDisconnected | CeUnresolverd
  | CeIo io_error

datatype raw_connect_error = RcResolver string | RcNoRecords | RcInvalidInput | RcUnresolverd | RcIo io_error

fun connect_error_from :: "raw_connect_error \<Rightarrow> connect_error exec" where
  "connect_error_from (RcResolver e) = Return (CeResolver e)"
| "connect_error_from RcNoRecords = Return CeNoRecords"
| "connect_error_from RcInvalidInput = Panic"
| "connect_error_from RcUnresolverd = Return CeUnresolverd"
| "connect_error_from (RcIo e) = Return (CeIo e)"

datatype invalid_url = IuMissingScheme | IuUnknownScheme | IuMissingHost | IuHttpError string

datatype 'e send_request_error =
    SeUrl invalid_url | SeConnect connect_error | SeSend io_error | SeResponse parse_error | SeHttp string | SeH2 string
  | SeTimeout | SeTunnelNotSupported | SeBody 'e

datatype freeze_request_error = FeUrl invalid_url | FeHttp string

fun send_error_from_freeze :: "freeze_request_error \<Rightarrow> 'e send_request_error" where
  "send_error_from_freeze (FeUrl e) = SeUrl e"
| "send_error_from_freeze (FeHttp e) = SeHttp e"

fun send_error_status :: "'e send_request_error \<Rightarrow> status_code" where
  "send_error_status (SeConnect CeTimeout) = GATEWAY_TIMEOUT"
| "send_error_status (SeConnect _) = BAD_REQUEST"
| "send_error_status _ = INTERNAL_SERVER_ERROR"

section \<open>The host header\<close>

definition HOST :: header_name where "HOST = bstr ''host''"

text \<open>The text of the header, given host and port of the URI.\<close>

definition host_text :: "bytes \<Rightarrow> u16 option \<Rightarrow> bytes" where
  "host_text host port =
     (case port of
        None \<Rightarrow> host
      | Some p \<Rightarrow> if p = 80 \<or> p = 443 then host else host @ [0x3A] @ dec (unat p))"

definition set_host ::
  "http_lib \<Rightarrow> (bytes \<Rightarrow> bytes option) \<Rightarrow> (bytes \<Rightarrow> u16 option) \<Rightarrow> (bytes \<Rightarrow> header_value option) \<Rightarrow> request_head_type \<Rightarrow> request_head_type" where
  "set_host lib uri_host uri_port hv head =
     (if \<not> hm_contains_key lib (rq_headers (rht_head head)) (ByName HOST) \<and>
         \<not> (case rht_extra_headers head of None \<Rightarrow> False | Some h \<Rightarrow> hm_contains_key lib h (ByName HOST)) then
        (case uri_host (rq_uri (rht_head head)) of
           None \<Rightarrow> head
         | Some host \<Rightarrow>
             (case hv (host_text host (uri_port (rq_uri (rht_head head)))) of
                None \<Rightarrow> head
              | Some v \<Rightarrow>
                  (case head of
                     Owned h \<Rightarrow> Owned (h\<lparr>rq_headers := hm_insert (rq_headers h) HOST v\<rparr>)
                   | Shared h extra \<Rightarrow> Shared h (Some (hm_insert (case extra of Some m \<Rightarrow> m | None \<Rightarrow> hm_new) HOST v)))))
      else head)"

section \<open>What becomes of the connection\<close>

text \<open>A connection that was lent; the calls that it makes to the pool are listed.\<close>

datatype 'io pool_call = PoolClose 'io | PoolRelease 'io

record 'io h1_connection =
  hn_io :: "'io option"
  hn_pool :: bool

definition h1_close :: "'io h1_connection \<Rightarrow> 'io pool_call list \<times> 'io h1_connection" where
  "h1_close c =
     (if hn_pool c then
        (case hn_io c of
           None \<Rightarrow> ([], c\<lparr>hn_pool := False\<rparr>)
         | Some io \<Rightarrow> ([PoolClose io], c\<lparr>hn_pool := False, hn_io := None\<rparr>))
      else ([], c))"

definition h1_release :: "'io h1_connection \<Rightarrow> 'io pool_call list \<times> 'io h1_connection" where
  "h1_release c =
     (if hn_pool c then
        (case hn_io c of
           None \<Rightarrow> ([], c\<lparr>hn_pool := False\<rparr>)
         | Some io \<Rightarrow> ([PoolRelease io], c\<lparr>hn_pool := False, hn_io := None\<rparr>))
      else ([], c))"

record ('f, 'io, 'w) framed_lib =
  fm_next :: "'f \<Rightarrow> 'w \<Rightarrow> (bytes option, payload_error) result option poll \<times> 'f \<times> 'w"
  fm_codec :: "'f \<Rightarrow> client_codec"
  fm_read_buf :: "'f \<Rightarrow> bytes"
  fm_write_buf :: "'f \<Rightarrow> bytes"
  fm_io :: "'f \<Rightarrow> 'io h1_connection"

definition release_connection :: "('f, 'io, 'w) framed_lib \<Rightarrow> 'f \<Rightarrow> bool \<Rightarrow> 'io pool_call list \<times> 'io h1_connection" where
  "release_connection fm framed force_close =
     (if \<not> force_close \<and> fm_read_buf fm framed = [] \<and> fm_write_buf fm framed = [] then h1_release (fm_io fm framed)
      else h1_close (fm_io fm framed))"

text \<open>The body of a response as a stream: the end of the body gives the connection back.\<close>

type_synonym 'f pl_stream = "'f option"

type_synonym body_piece = "(bytes, payload_error) result option poll"

definition pl_poll_next ::
  "('f, 'io, 'w) framed_lib \<Rightarrow> 'f pl_stream \<Rightarrow> 'w \<Rightarrow> (body_piece \<times> 'io pool_call list \<times> 'f pl_stream \<times> 'w) exec" where
  "pl_poll_next fm st w =
     (case st of
        None \<Rightarrow> Panic
      | Some framed \<Rightarrow>
          Return (case fm_next fm framed w of
            (Ready (Some (Err e)), framed, w) \<Rightarrow> (Ready (Some (Err e)), [], Some framed, w)
          | (Pending, framed, w) \<Rightarrow> (Pending, [], Some framed, w)
          | (Ready (Some (Ok (Some chunk))), framed, w) \<Rightarrow> (Ready (Some (Ok chunk)), [], Some framed, w)
          | (Ready (Some (Ok None)), framed, w) \<Rightarrow>
              (let force_close = \<not> client_keepalive (fm_codec fm framed)
               in (Ready None, fst (release_connection fm framed force_close), None, w))
          | (Ready None, framed, w) \<Rightarrow> (Ready None, [], Some framed, w)))"

text \<open>What \<open>send_request\<close> does when the head of the response has arrived.\<close>

definition after_head :: "('f, 'io, 'w) framed_lib \<Rightarrow> 'f \<Rightarrow> 'f pl_stream \<times> 'io pool_call list" where
  "after_head fm framed =
     (case client_message_type (fm_codec fm framed) of
        MtNone \<Rightarrow> (None, fst (release_connection fm framed (\<not> client_keepalive (fm_codec fm framed))))
      | _ \<Rightarrow> (Some framed, []))"


section \<open>Reading a body\<close>

text \<open>Items are taken from a buffer until the end of the body.\<close>

inductive client_reads :: "client_codec \<Rightarrow> bytes \<Rightarrow> bytes \<Rightarrow> client_codec \<Rightarrow> bytes \<Rightarrow> bool" where
  finish: "client_payload_decode c src = Return (Ok (Some None), c', src') \<Longrightarrow> client_reads c src [] c' src'"
| chunk: "client_payload_decode c src = Return (Ok (Some (Some b)), c', src') \<Longrightarrow> client_reads c' src' d c'' rest \<Longrightarrow>
    client_reads c src (b @ d) c'' rest"

lemma client_reads_drain:
  "drain pl src = (d, DrainEof rest) \<Longrightarrow> client_reads (c\<lparr>xc_payload := Some pl\<rparr>) src d (c\<lparr>xc_payload := None\<rparr>) rest"
proof (induction pl src arbitrary: d rule: drain.induct)
  case (1 pl src)
  obtain r pl' src' where p: "payload_decode pl src = (r, pl', src')" by (cases "payload_decode pl src")
  from "1.prems" p consider (piece) b d' where "r = Ok (Some (ItemChunk b))" "drain pl' src' = (d', DrainEof rest)" "d = b @ d'"
    | (eof) "r = Ok (Some ItemEof)" "d = []" "src' = rest"
    by (auto simp: drain.simps [of pl src] split: result.splits option.splits payload_item.splits prod.splits)
  then show ?case
  proof cases
    case piece
    from "1.IH" [OF p [symmetric] piece(1) refl refl refl piece(2)]
    have "client_reads (c\<lparr>xc_payload := Some pl'\<rparr>) src' d' (c\<lparr>xc_payload := None\<rparr>) rest" .
    moreover have "client_payload_decode (c\<lparr>xc_payload := Some pl\<rparr>) src = Return (Ok (Some (Some b)), c\<lparr>xc_payload := Some pl'\<rparr>, src')"
      using p piece(1) by (simp add: client_payload_decode_def)
    ultimately show ?thesis unfolding piece(3) by (intro client_reads.chunk)
  next
    case eof
    have "client_payload_decode (c\<lparr>xc_payload := Some pl\<rparr>) src = Return (Ok (Some None), c\<lparr>xc_payload := None\<rparr>, src')"
      using p eof(1) by (simp add: client_payload_decode_def)
    with eof show ?thesis by (auto intro: client_reads.finish)
  qed
qed

lemma chunked_wire_drain:
  assumes "\<forall>m \<in> set ms. length m < 2 ^ 64"
  shows "drain pd_chunked (snd (snd (te_body te_chunked ms [])) @ rest) = (concat (takeWhile (\<lambda>m. m \<noteq> []) ms), DrainEof rest)"
proof -
  let ?ms = "takeWhile (\<lambda>m. m \<noteq> []) ms"
  have "\<forall>m \<in> set ?ms. m \<noteq> [] \<and> length m < 2 ^ 64" using assms by (auto dest: set_takeWhileD)
  from body_run_chunks [OF this, of "[0x30, 0x0D, 0x0A, 0x0D, 0x0A] @ rest"] body_run_zero [of rest]
  have "body_run ChSize 0 (snd (snd (te_body te_chunked ms [])) @ rest) = (concat ?ms, AtEnd rest)"
    by (simp add: te_body_chunked del: body_run.simps)
  then show ?thesis by (simp add: pd_chunked_def drain_chunked)
qed

text \<open>
  A body that the server's encoder writes in chunks is read by the client exactly, up to the first empty piece, and the bytes of the
  next response stay in the buffer.
\<close>

theorem response_body_crosses:
  assumes "\<forall>m \<in> set ms. length m < 2 ^ 64"
  shows "client_reads (c\<lparr>xc_payload := Some pd_chunked\<rparr>) (snd (snd (te_body te_chunked ms [])) @ rest)
    (concat (takeWhile (\<lambda>m. m \<noteq> []) ms)) (c\<lparr>xc_payload := None\<rparr>) rest"
  by (rule client_reads_drain) (rule chunked_wire_drain [OF assms])

text \<open>
  A connection is kept after an exchange exactly when the request keeps it and the response does not say that it closes or
  upgrades, whatever the version of the response is. The codec of a new connection allows keep-alive.
\<close>

theorem connection_kept_iff:
  assumes "client_encode env lib (Item (head, sz)) (client_codec_new True) dst = Some (r, c, dst')"
    and "client_decode lib c src = (Ok (Some res), c', src')"
  shows "client_keepalive c' \<longleftrightarrow> rq_connection_type (rht_head head) = CtKeepAlive \<and> rs_ctype res \<noteq> Some CtClose \<and> rs_ctype res \<noteq> Some CtUpgrade"
proof -
  have c: "xc_ctype c = request_ctype (rht_head head) (client_codec_new True)"
    using assms(1) by (auto simp: client_codec_new_def request_ctype_def Let_def bind_eq_Some_conv)
  obtain payload where c': "c' = client_on_response res payload c"
    using assms(2) by (auto simp: client_decode_def split: result.splits option.splits prod.splits)
  have "xc_ctype c' = (case rs_ctype res of None \<Rightarrow> xc_ctype c | Some ct \<Rightarrow> if ct = CtKeepAlive then xc_ctype c else ct)"
    unfolding c' by (auto simp: client_on_response_def Let_def split: option.split payload_type.split)
  then show ?thesis
    unfolding client_keepalive_def c
    by (cases "rs_ctype res"; cases "the (rs_ctype res)"; cases "rq_connection_type (rht_head head)") (auto simp: request_ctype_def client_codec_new_def)
qed

text \<open>Polling a stream of a body, with the calls that reach the pool.\<close>

inductive pl_run :: "('f, 'io, 'w) framed_lib \<Rightarrow> 'f pl_stream \<Rightarrow> 'w \<Rightarrow> 'io pool_call list \<Rightarrow> 'f pl_stream \<Rightarrow> bool" for fm where
  stop: "pl_run fm st w [] st"
| poll: "pl_poll_next fm st w = Return (p, calls, st', w') \<Longrightarrow> pl_run fm st' w'' rest st'' \<Longrightarrow> pl_run fm st w (calls @ rest) st''"

lemma pl_poll_calls:
  assumes "pl_poll_next fm st w = Return (p, calls, st', w')"
  shows "length calls \<le> 1 \<and> st \<noteq> None \<and> (st' = None \<longrightarrow> p = Ready None) \<and> (calls \<noteq> [] \<longrightarrow> st' = None)"
  using assms
  by (auto simp: pl_poll_next_def release_connection_def h1_release_def h1_close_def Let_def
      split: option.splits poll.splits result.splits prod.splits if_splits)

lemma pl_poll_ended: "pl_poll_next fm None w = Panic"
  by (simp add: pl_poll_next_def)

lemma pl_run_None: "pl_run fm None w calls st \<Longrightarrow> calls = [] \<and> st = None"
  by (erule pl_run.cases) (auto simp: pl_poll_next_def)

text \<open>
  Property C39. A connection is given back at most once, however often the body is polled, and once it is given back the stream cannot be
  polled: a poll after the end panics.
\<close>

theorem connection_returned_once:
  assumes "pl_run fm st w calls st'"
  shows "length calls \<le> 1 \<and> (calls \<noteq> [] \<longrightarrow> st' = None \<and> pl_poll_next fm st' w' = Panic)"
  using assms
proof (induction rule: pl_run.induct)
  case (poll st w p calls st' w1 w2 rest st'')
  have calls: "length calls \<le> 1" "calls \<noteq> [] \<longrightarrow> st' = None" using pl_poll_calls [OF poll.hyps(1)] by blast+
  show ?case
  proof (cases "calls = []")
    case True
    show ?thesis unfolding True append_Nil by (rule poll.IH)
  next
    case False
    with calls have "st' = None" by blast
    with poll.hyps(2) have "pl_run fm None w2 rest st''" by simp
    from pl_run_None [OF this] have rest: "rest = []" and ended: "st'' = None" by blast+
    show ?thesis unfolding rest ended append_Nil2 using calls(1) by (blast intro: pl_poll_ended)
  qed
qed simp

text \<open>
  A connection whose transport still holds bytes, read or to be written, or that is not kept alive, is never released for another
  request: it is closed.
\<close>

theorem dirty_connection_closed:
  assumes "pl_poll_next fm (Some f) w = Return (p, calls, st, w')" and "PoolRelease io \<in> set calls"
  shows "\<exists>f'. fm_next fm f w = (Ready (Some (Ok None)), f', w') \<and> client_keepalive (fm_codec fm f') \<and>
    fm_read_buf fm f' = [] \<and> fm_write_buf fm f' = [] \<and> hn_io (fm_io fm f') = Some io \<and> hn_pool (fm_io fm f')"
proof -
  obtain q f' w1 where n: "fm_next fm f w = (q, f', w1)" by (cases "fm_next fm f w")
  have calls: "PoolRelease io \<in> set (fst (release_connection fm f' force)) \<Longrightarrow> \<not> force \<and> fm_read_buf fm f' = [] \<and>
      fm_write_buf fm f' = [] \<and> hn_io (fm_io fm f') = Some io \<and> hn_pool (fm_io fm f')" for force
    by (auto simp: release_connection_def h1_release_def h1_close_def split: if_splits option.splits)
  have "q = Ready (Some (Ok None)) \<and> calls = fst (release_connection fm f' (\<not> client_keepalive (fm_codec fm f'))) \<and> w1 = w'"
    using assms by (auto simp: pl_poll_next_def n Let_def split: option.splits poll.splits result.splits)
  with calls assms(2) n show ?thesis by blast
qed

section \<open>Witnesses\<close>

lemma response_body_crosses_witness:
  "client_reads ((client_codec_new True)\<lparr>xc_payload := Some pd_chunked\<rparr>)
     (snd (snd (te_body te_chunked [[104, 105], [33]] [])) @ [72]) [104, 105, 33] ((client_codec_new True)\<lparr>xc_payload := None\<rparr>) [72]"
  using response_body_crosses [of "[[104, 105], [33]]" "client_codec_new True" "[72]"] by (simp del: te_body.simps)

definition demo_framed :: "(nat, nat, unit) framed_lib" where
  "demo_framed = \<lparr>fm_next = (\<lambda>n w. (if n = 0 then Ready (Some (Ok None)) else Ready (Some (Ok (Some [1]))), n - 1, w)),
     fm_codec = (\<lambda>n. (client_codec_new True)\<lparr>xc_ctype := CtKeepAlive\<rparr>), fm_read_buf = (\<lambda>n. []), fm_write_buf = (\<lambda>n. []),
     fm_io = (\<lambda>n. \<lparr>hn_io = Some 7, hn_pool = True\<rparr>)\<rparr>"

lemma demo_last_poll: "pl_poll_next demo_framed (Some 0) () = Return (Ready None, [PoolRelease 7], None, ())"
  by (simp add: pl_poll_next_def demo_framed_def release_connection_def h1_release_def client_keepalive_def)

lemma connection_returned_once_witness:
  "length [PoolRelease (7 :: nat)] \<le> 1 \<and> pl_poll_next demo_framed None () = Panic"
proof -
  have "pl_run demo_framed (Some 0) () ([PoolRelease 7] @ []) None"
    by (rule pl_run.poll [OF demo_last_poll pl_run.stop])
  from connection_returned_once [OF this] show ?thesis by simp
qed

lemma dirty_connection_closed_witness:
  "\<exists>f'. fm_next demo_framed 0 () = (Ready (Some (Ok None)), f', ()) \<and> client_keepalive (fm_codec demo_framed f') \<and>
    fm_read_buf demo_framed f' = [] \<and> fm_write_buf demo_framed f' = [] \<and> hn_io (fm_io demo_framed f') = Some 7 \<and> hn_pool (fm_io demo_framed f')"
  by (rule dirty_connection_closed [OF demo_last_poll]) simp

end
