(* ===== verification/H2_Dispatcher.thy ===== *)
theory H2_Dispatcher
  imports Http_Request Poll_Loop Service_Config
begin

text \<open>
  HTTP/2 on the server (\<open>h2/dispatcher.rs\<close> and \<open>h2/mod.rs\<close>). The crate \<open>h2\<close> runs the protocol: it accepts requests, and gives a
  stream for the data of each response. It is a parameter, as is the header map of the crate \<open>http\<close>; handles of streams
  refer to state of the connection, which is in the world.
\<close>

section \<open>The crates \<open>http\<close> and \<open>h2\<close>\<close>

type_synonym h2_error = string

record 'm hmap_lib =
  hh_new :: 'm
  hh_insert :: "header_name \<Rightarrow> header_value \<Rightarrow> 'm \<Rightarrow> 'm"
  hh_append :: "header_name \<Rightarrow> header_value \<Rightarrow> 'm \<Rightarrow> 'm"
  hh_items :: "'m \<Rightarrow> (header_name \<times> header_value) list"

text \<open>The values of a name: \<open>insert\<close> replaces them, \<open>append\<close> adds one behind them.\<close>

definition hmap_ok :: "'m hmap_lib \<Rightarrow> ('m \<Rightarrow> header_name \<Rightarrow> header_value list) \<Rightarrow> bool" where
  "hmap_ok lib vals \<longleftrightarrow>
     (\<forall>n. vals (hh_new lib) n = []) \<and>
     (\<forall>k v m n. vals (hh_insert lib k v m) n = (if n = k then [v] else vals m n)) \<and>
     (\<forall>k v m n. vals (hh_append lib k v m) n = (if n = k then vals m n @ [v] else vals m n))"

lemma hmap_ok_vals:
  assumes "hmap_ok lib vals"
  shows "vals (hh_new lib) n = []" "vals (hh_insert lib k v m) n = (if n = k then [v] else vals m n)"
    "vals (hh_append lib k v m) n = (if n = k then vals m n @ [v] else vals m n)"
  using assms unfolding hmap_ok_def by blast+

record ('s, 'w) send_lib =
  sl_reserve :: "'s \<Rightarrow> nat \<Rightarrow> 'w \<Rightarrow> 'w"
  sl_capacity :: "'s \<Rightarrow> 'w \<Rightarrow> (nat, h2_error) result option poll \<times> 'w"
  sl_send :: "'s \<Rightarrow> bytes \<Rightarrow> bool \<Rightarrow> 'w \<Rightarrow> (unit, h2_error) result \<times> 'w"

text \<open>The conversion of a header map of the crate (\<open>header/mod.rs\<close>).\<close>

definition hm_from_http :: "'m hmap_lib \<Rightarrow> 'm \<Rightarrow> header_map" where
  "hm_from_http lib m = foldl (\<lambda>new (h, v). hm_append new h v) hm_new (hh_items lib m)"

section \<open>The body of a request\<close>

record ('p, 'w) recv_lib =
  rv_data :: "'p \<Rightarrow> 'w \<Rightarrow> (bytes, h2_error) result option poll \<times> 'w"
  rv_release :: "'p \<Rightarrow> nat \<Rightarrow> 'w \<Rightarrow> (unit, h2_error) result \<times> 'w"

definition h2_payload_poll ::
  "('p, 'w) recv_lib \<Rightarrow> 'p \<Rightarrow> 'w \<Rightarrow> (bytes, payload_error) result option poll \<times> 'w" where
  "h2_payload_poll lib pl w =
     (case rv_data lib pl w of
        (Ready (Some (Ok chunk)), w) \<Rightarrow>
          (case rv_release lib pl (length chunk) w of
             (Err e, w) \<Rightarrow> (Ready (Some (Err (PlHttp2 e))), w)
           | (Ok _, w) \<Rightarrow> (Ready (Some (Ok chunk)), w))
      | (Ready (Some (Err e)), w) \<Rightarrow> (Ready (Some (Err (PlHttp2 e))), w)
      | (Pending, w) \<Rightarrow> (Pending, w)
      | (Ready None, w) \<Rightarrow> (Ready None, w))"

section \<open>Tasks\<close>

datatype ('f, 'r, 's, 'b, 'k) response_state =
    RsServiceCall 'f "'r option" | RsSendPayload 's "('b, 'k) response_body"

record ('f, 'r, 's, 'b, 'k) service_response =
  sv_state :: "('f, 'r, 's, 'b, 'k) response_state"
  sv_buffer :: "bytes option"

type_synonym ('t, 'd, 'p) h2_request = "('t, 'd, (unit, 'p, unit) payload) request"

record 'm request_parts =
  hp_uri :: bytes
  hp_method :: http_method
  hp_version :: http_version
  hp_headers :: 'm

text \<open>
  The surroundings of a connection. A failed service gives the response that its error becomes; \<open>hv_visit\<close> is the order in which
  the header map is iterated.
\<close>

record ('m, 't, 'd, 'p, 'f, 'r, 's, 'b, 'k, 'w) h2_env =
  hv_hmap :: "'m hmap_lib"
  hv_send :: "('s, 'w) send_lib"
  hv_config :: service_config
  hv_peer_addr :: "nat option"
  hv_on_connect :: "(extensions \<Rightarrow> extensions) option"
  hv_visit :: "header_map \<Rightarrow> header_map"
  hv_now :: "'w \<Rightarrow> instant"
  hv_date :: "'w \<Rightarrow> bytes \<times> 'w"
  hv_accept :: "'w \<Rightarrow> (('m request_parts \<times> 'p) \<times> 'r, h2_error) result option poll \<times> 'w"
  hv_call :: "('t, 'd, 'p) h2_request \<Rightarrow> 'w \<Rightarrow> 'f \<times> 'w"
  hv_poll :: "'f \<Rightarrow> 'w \<Rightarrow> (('b, 'k) response, ('k body, 'k) response) result poll \<times> 'f \<times> 'w"
  hv_respond :: "'r \<Rightarrow> status_code \<times> http_version \<times> 'm \<Rightarrow> bool \<Rightarrow> 'w \<Rightarrow> ('s, h2_error) result \<times> 'w"
  hv_body :: "('b, 'w) message_body"
  hv_boxed :: "('k, 'w) message_body"

definition CHUNK_SIZE :: nat where "CHUNK_SIZE = 16384"

section \<open>Accepting requests\<close>

record ('f, 'r, 's, 'b, 'k) h2_dispatcher =
  hd_ka_expire :: instant
  hd_ka_timer :: "instant option"
  hd_pool :: request_pool
  hd_spawned :: "('f, 'r, 's, 'b, 'k) service_response list"

definition h2_dispatcher_new :: "service_config \<Rightarrow> instant \<Rightarrow> instant option \<Rightarrow> request_pool \<Rightarrow> ('f, 'r, 's, 'b, 'k) h2_dispatcher" where
  "h2_dispatcher_new config now timeout pool =
     (let (ka_expire, ka_timer) =
        (case timeout of
           Some delay \<Rightarrow> (delay, Some delay)
         | None \<Rightarrow> (case keep_alive_timer config now of Some delay \<Rightarrow> (delay, Some delay) | None \<Rightarrow> (now, None)))
      in \<lparr>hd_ka_expire = ka_expire, hd_ka_timer = ka_timer, hd_pool = pool, hd_spawned = []\<rparr>)"

definition h2_request_head ::
  "('m, 't, 'd, 'p, 'f, 'r, 's, 'b, 'k, 'w) h2_env \<Rightarrow> 'm request_parts \<Rightarrow> request_head \<Rightarrow> request_head" where
  "h2_request_head env parts head =
     (let head = head\<lparr>rq_uri := hp_uri parts, rq_method := hp_method parts, rq_version := hp_version parts,
                      rq_headers := hm_from_http (hv_hmap env) (hp_headers parts), rq_peer_addr := hv_peer_addr env\<rparr>
      in case hv_on_connect env of None \<Rightarrow> head | Some f \<Rightarrow> head\<lparr>rq_extensions := f (rq_extensions head)\<rparr>)"

definition accept_step ::
  "('m, 't, 'd, 'p, 'f, 'r, 's, 'b, 'k, 'w) h2_env \<Rightarrow> ('f, 'r, 's, 'b, 'k) h2_dispatcher \<Rightarrow> 'w \<Rightarrow>
   (unit, dispatch_error) result poll option \<times> ('f, 'r, 's, 'b, 'k) h2_dispatcher \<times> 'w" where
  "accept_step env d w =
     (case hv_accept env w of
        (Ready None, w) \<Rightarrow> (Some (Ready (Ok ())), d, w)
      | (Ready (Some (Err e)), w) \<Rightarrow> (Some (Ready (Err (DeH2 e))), d, w)
      | (Ready (Some (Ok ((parts, body), res))), w) \<Rightarrow>
          (let d = (if hd_ka_timer d \<noteq> None then
                      (case keep_alive_expire (hv_config env) (hv_now env w) of
                         Some expire \<Rightarrow> d\<lparr>hd_ka_expire := expire\<rparr>
                       | None \<Rightarrow> d)
                    else d);
               req = with_payload (hd_pool d) (PayloadH2 body);
               d = d\<lparr>hd_pool := snd (pool_get_message (hd_pool d))\<rparr>;
               req = req\<lparr>qr_head := h2_request_head env parts (qr_head req)\<rparr>;
               (call, w) = hv_call env req w
           in (None, d\<lparr>hd_spawned := hd_spawned d @ [\<lparr>sv_state = RsServiceCall call (Some res), sv_buffer = None\<rparr>]\<rparr>, w))
      | (Pending, w) \<Rightarrow> (Some Pending, d, w))"

definition h2_dispatcher_poll ::
  "('m, 't, 'd, 'p, 'f, 'r, 's, 'b, 'k, 'w) h2_env \<Rightarrow> ('f, 'r, 's, 'b, 'k) h2_dispatcher \<Rightarrow> 'w \<Rightarrow>
   ((unit, dispatch_error) result poll \<times> ('f, 'r, 's, 'b, 'k) h2_dispatcher \<times> 'w) option" where
  "h2_dispatcher_poll env = poll_loop (accept_step env)"

section \<open>The head of a response\<close>

definition h2_size :: "status_code \<Rightarrow> body_size \<Rightarrow> body_size \<times> bool" where
  "h2_size status sz =
     (let skip_len = (sz \<noteq> SzStream)
      in if status = NO_CONTENT \<or> status = CONTINUE \<or> status = PROCESSING then (SzNone, skip_len)
         else if status = SWITCHING_PROTOCOLS then (SzStream, True)
         else (sz, skip_len))"

fun h2_length :: "'m hmap_lib \<Rightarrow> body_size \<Rightarrow> 'm \<Rightarrow> 'm" where
  "h2_length lib SzNone m = m"
| "h2_length lib SzStream m = m"
| "h2_length lib SzEmpty m = hh_insert lib CONTENT_LENGTH (bstr ''0'') m"
| "h2_length lib (SzSized len) m = hh_insert lib CONTENT_LENGTH (dec len) m"
| "h2_length lib (SzSized64 len) m = hh_insert lib CONTENT_LENGTH (dec (unat len)) m"

fun h2_copy :: "'m hmap_lib \<Rightarrow> bool \<Rightarrow> (header_name \<times> header_value) list \<Rightarrow> bool \<times> 'm \<Rightarrow> bool \<times> 'm" where
  "h2_copy lib skip_len [] (has_date, m) = (has_date, m)"
| "h2_copy lib skip_len ((key, val) # kvs) (has_date, m) =
     (if key = CONNECTION \<or> key = TRANSFER_ENCODING then h2_copy lib skip_len kvs (has_date, m)
      else if key = CONTENT_LENGTH \<and> skip_len then h2_copy lib skip_len kvs (has_date, m)
      else h2_copy lib skip_len kvs (has_date \<or> key = DATE, hh_append lib key val m))"

text \<open>The entries of a header map in the order in which its iterator yields them.\<close>

definition visit_items :: "(header_map \<Rightarrow> header_map) \<Rightarrow> header_map \<Rightarrow> (header_name \<times> header_value) list" where
  "visit_items visit h = [(n, v). (n, hv) \<leftarrow> visit h, v \<leftarrow> value_list hv]"

definition prepare_response ::
  "('m, 't, 'd, 'p, 'f, 'r, 's, 'b, 'k, 'w) h2_env \<Rightarrow> response_head \<Rightarrow> body_size \<Rightarrow> 'w \<Rightarrow>
   (status_code \<times> http_version \<times> 'm) \<times> body_size \<times> 'w" where
  "prepare_response env head sz w =
     (let (sz, skip_len) = h2_size (rs_status head) sz;
          m = h2_length (hv_hmap env) sz (hh_new (hv_hmap env));
          (has_date, m) = h2_copy (hv_hmap env) skip_len (visit_items (hv_visit env) (rs_headers head)) (False, m);
          (m, w) = (if \<not> has_date then (let (date, w) = hv_date env w in (hh_insert (hv_hmap env) DATE date m, w)) else (m, w))
      in ((rs_status head, HTTP_2, m), sz, w))"

section \<open>The task of a response\<close>

text \<open>What a finished call leads to. \<open>None\<close> goes on with the body.\<close>

type_synonym ('f, 'r, 's, 'b, 'k, 'w) response_step =
  "unit exec poll option \<times> ('f, 'r, 's, 'b, 'k) service_response \<times> 'w"

definition begin_response ::
  "('m, 't, 'd, 'p, 'f, 'r, 's, 'b, 'k, 'w) h2_env \<Rightarrow> response_head \<Rightarrow> ('b, 'k) response_body \<Rightarrow> 'f \<Rightarrow> 'r option \<Rightarrow>
   ('f, 'r, 's, 'b, 'k) service_response \<Rightarrow> 'w \<Rightarrow> ('f, 'r, 's, 'b, 'k, 'w) response_step" where
  "begin_response env head body call send s w =
     (case send of
        None \<Rightarrow> (Some (Ready Panic), s, w)
      | Some send \<Rightarrow>
          (let s = s\<lparr>sv_state := RsServiceCall call None\<rparr>;
               (h2_res, sz, w) = prepare_response env head (rb_size (hv_body env) (hv_boxed env) body) w
           in case hv_respond env send h2_res (size_is_eof sz) w of
                (Err e, w) \<Rightarrow> (Some (Ready (Return ())), s, w)
              | (Ok stream, w) \<Rightarrow>
                  if size_is_eof sz then (Some (Ready (Return ())), s, w)
                  else (None, s\<lparr>sv_state := RsSendPayload stream body\<rparr>, w)))"

definition send_step ::
  "('m, 't, 'd, 'p, 'f, 'r, 's, 'b, 'k, 'w) h2_env \<Rightarrow> 's \<Rightarrow> ('b, 'k) response_body \<Rightarrow>
   ('f, 'r, 's, 'b, 'k) service_response \<Rightarrow> 'w \<Rightarrow> ('f, 'r, 's, 'b, 'k, 'w) response_step" where
  "send_step env stream body s w =
     (case sv_buffer s of
        Some buffer \<Rightarrow>
          (case sl_capacity (hv_send env) stream w of
             (Pending, w) \<Rightarrow> (Some Pending, s, w)
           | (Ready None, w) \<Rightarrow> (Some (Ready (Return ())), s, w)
           | (Ready (Some (Ok cap)), w) \<Rightarrow>
               (let len = length buffer; piece = take (min cap len) buffer; buffer = drop (min cap len) buffer;
                    s = s\<lparr>sv_buffer := Some buffer\<rparr>
                in case sl_send (hv_send env) stream piece False w of
                     (Err e, w) \<Rightarrow> (Some (Ready (Return ())), s, w)
                   | (Ok _, w) \<Rightarrow>
                       if buffer \<noteq> [] then (None, s, sl_reserve (hv_send env) stream (min (length buffer) CHUNK_SIZE) w)
                       else (None, s\<lparr>sv_buffer := None\<rparr>, w))
           | (Ready (Some (Err e)), w) \<Rightarrow> (Some (Ready (Return ())), s, w))
      | None \<Rightarrow>
          (case rb_poll_next (hv_body env) (hv_boxed env) body w of
             (p, body, w) \<Rightarrow>
               (let s = s\<lparr>sv_state := RsSendPayload stream body\<rparr>
                in case p of
                     Pending \<Rightarrow> (Some Pending, s, w)
                   | Ready None \<Rightarrow> (Some (Ready (Return ())), s, snd (sl_send (hv_send env) stream [] True w))
                   | Ready (Some (Ok chunk)) \<Rightarrow>
                       (None, s\<lparr>sv_buffer := Some chunk\<rparr>, sl_reserve (hv_send env) stream (min (length chunk) CHUNK_SIZE) w)
                   | Ready (Some (Err e)) \<Rightarrow> (Some (Ready (Return ())), s, w))))"

definition h2_task_step ::
  "('m, 't, 'd, 'p, 'f, 'r, 's, 'b, 'k, 'w) h2_env \<Rightarrow> ('f, 'r, 's, 'b, 'k) service_response \<Rightarrow> 'w \<Rightarrow>
   ('f, 'r, 's, 'b, 'k, 'w) response_step" where
  "h2_task_step env s w =
     (case sv_state s of
        RsServiceCall call send \<Rightarrow>
          (case hv_poll env call w of
             (Ready (Ok res), call, w) \<Rightarrow> begin_response env (re_head res) (re_body res) call send s w
           | (Pending, call, w) \<Rightarrow> (Some Pending, s\<lparr>sv_state := RsServiceCall call send\<rparr>, w)
           | (Ready (Err res), call, w) \<Rightarrow> begin_response env (re_head res) (into_body (re_body res)) call send s w)
      | RsSendPayload stream body \<Rightarrow> send_step env stream body s w)"

definition h2_task_poll ::
  "('m, 't, 'd, 'p, 'f, 'r, 's, 'b, 'k, 'w) h2_env \<Rightarrow> ('f, 'r, 's, 'b, 'k) service_response \<Rightarrow> 'w \<Rightarrow>
   (unit exec poll \<times> ('f, 'r, 's, 'b, 'k) service_response \<times> 'w) option" where
  "h2_task_poll env = poll_loop (h2_task_step env)"

section \<open>What the head carries\<close>

definition h2_dropped :: "bool \<Rightarrow> header_name \<Rightarrow> bool" where
  "h2_dropped skip_len n \<longleftrightarrow> n = CONNECTION \<or> n = TRANSFER_ENCODING \<or> n = CONTENT_LENGTH \<and> skip_len"

lemma header_names_differ: "DATE \<noteq> CONNECTION" "DATE \<noteq> TRANSFER_ENCODING" "DATE \<noteq> CONTENT_LENGTH"
    "CONTENT_LENGTH \<noteq> CONNECTION" "CONTENT_LENGTH \<noteq> TRANSFER_ENCODING"
  by (simp_all add: DATE_def CONNECTION_def TRANSFER_ENCODING_def CONTENT_LENGTH_def)

lemma h2_copy_vals:
  assumes "hmap_ok lib vals"
  shows "vals (snd (h2_copy lib skip_len kvs (has_date, m))) n =
    vals m n @ (if h2_dropped skip_len n then [] else map snd (filter (\<lambda>kv. fst kv = n) kvs))"
proof (induction kvs arbitrary: has_date m)
  case (Cons kv kvs)
  then show ?case by (cases kv) (auto simp: h2_dropped_def hmap_ok_vals [OF assms])
qed simp

lemma h2_copy_date: "fst (h2_copy lib skip_len kvs (has_date, m)) \<longleftrightarrow> has_date \<or> (\<exists>v. (DATE, v) \<in> set kvs)"
proof (induction kvs arbitrary: has_date m)
  case (Cons kv kvs)
  then show ?case using header_names_differ by (cases kv) auto
qed simp

lemma items_of_name:
  "distinct (map fst h) \<Longrightarrow> map snd (filter (\<lambda>kv. fst kv = n) [(n, v). (n, hv) \<leftarrow> h, v \<leftarrow> value_list hv]) = hm_values h n"
proof (induction h)
  case (Cons e h)
  obtain k hv where e: "e = (k, hv)" by (cases e)
  have "map snd (filter (\<lambda>kv. fst kv = n) (map (Pair k) (value_list hv))) = (if k = n then value_list hv else [])"
    by (simp add: filter_map comp_def)
  moreover have "hm_values h n = []" if "k = n"
    using Cons.prems that e by (force simp: hm_values_def dest: map_of_SomeD split: option.split)
  ultimately show ?case using Cons e by (auto simp: hm_values_def)
qed (simp add: hm_values_def)

lemma visit_items_values:
  assumes "hm_wf h" and "mset (visit h) = mset h"
  shows "map snd (filter (\<lambda>kv. fst kv = n) (visit_items visit h)) = hm_values h n"
proof -
  have d: "distinct (map fst (visit h))" "distinct (map fst h)"
    using assms unfolding hm_wf_def by (metis mset_eq_imp_distinct_iff mset_map)+
  have "map_of (visit h) = map_of h" using d assms(2) by (metis map_of_inject_set set_mset_mset)
  with items_of_name [OF d(1), of n] show ?thesis by (simp add: visit_items_def hm_values_def)
qed

text \<open>What is announced as the length.\<close>

fun length_value :: "body_size \<Rightarrow> header_value list" where
  "length_value SzNone = []"
| "length_value SzStream = []"
| "length_value SzEmpty = [bstr ''0'']"
| "length_value (SzSized n) = [dec n]"
| "length_value (SzSized64 n) = [dec (unat n)]"

lemma h2_length_vals:
  assumes "hmap_ok lib vals"
  shows "vals (h2_length lib sz (hh_new lib)) n = (if n = CONTENT_LENGTH then length_value sz else [])"
  by (cases sz) (simp_all add: hmap_ok_vals [OF assms])

text \<open>
  The head of an HTTP/2 response: the length that the size of the body says, and the handler's own only for a stream;
  no connection headers; exactly one date unless the handler has set some; all other headers with their values in order.
\<close>

theorem h2_head_exact:
  assumes "hmap_ok (hv_hmap env) vals" and "hm_wf (rs_headers head)" and "mset (hv_visit env (rs_headers head)) = mset (rs_headers head)"
    and "h2_size (rs_status head) sz = (sz', skip)" and "prepare_response env head sz w = ((status, version, m), told, w')"
  shows "status = rs_status head \<and> version = HTTP_2 \<and> told = sz' \<and>
    vals m n = (if n = CONNECTION \<or> n = TRANSFER_ENCODING then []
      else if n = CONTENT_LENGTH then length_value sz' @ (if skip then [] else hm_values (rs_headers head) CONTENT_LENGTH)
      else if n = DATE \<and> hm_values (rs_headers head) DATE = [] then [fst (hv_date env w)]
      else hm_values (rs_headers head) n)"
proof -
  let ?kvs = "visit_items (hv_visit env) (rs_headers head)" and ?lib = "hv_hmap env"
  obtain has_date m1 where c: "h2_copy ?lib skip ?kvs (False, h2_length ?lib sz' (hh_new ?lib)) = (has_date, m1)"
    by (cases "h2_copy ?lib skip ?kvs (False, h2_length ?lib sz' (hh_new ?lib))")
  note vis = visit_items_values [where visit = "hv_visit env", OF assms(2,3)]
  have date: "has_date \<longleftrightarrow> hm_values (rs_headers head) DATE \<noteq> []"
  proof -
    have "has_date \<longleftrightarrow> (\<exists>v. (DATE, v) \<in> set ?kvs)" using h2_copy_date [of ?lib skip ?kvs False] c by (metis fst_conv)
    also have "\<dots> \<longleftrightarrow> map snd (filter (\<lambda>kv. fst kv = DATE) ?kvs) \<noteq> []" by (force simp: filter_empty_conv)
    finally show ?thesis by (simp add: vis)
  qed
  have vals: "vals m1 k = (if k = CONTENT_LENGTH then length_value sz' else []) @
      (if h2_dropped skip k then [] else hm_values (rs_headers head) k)" for k
    using h2_copy_vals [OF assms(1), of skip ?kvs False "h2_length ?lib sz' (hh_new ?lib)" k] c
    by (simp add: vis h2_length_vals [OF assms(1)])
  have m: "status = rs_status head" "version = HTTP_2" "told = sz'"
      "m = (if has_date then m1 else hh_insert ?lib DATE (fst (hv_date env w)) m1)"
    using assms(4,5) c by (auto simp: prepare_response_def Let_def split: prod.splits if_splits)
  then have "vals m n = (if n = DATE \<and> \<not> has_date then [fst (hv_date env w)] else vals m1 n)"
    by (simp add: hmap_ok_vals [OF assms(1)])
  with m date show ?thesis using header_names_differ by (auto simp: vals h2_dropped_def)
qed

section \<open>The body of a response\<close>

text \<open>
  A stream that works. \<open>sent\<close> is the data that it has taken and whether it was told the end, \<open>want\<close> the capacity that is asked for.
  Capacity that is asked for is granted after some time; data are taken until the end is told.
\<close>

definition stream_works :: "('s, 'w) send_lib \<Rightarrow> 's \<Rightarrow> ('w \<Rightarrow> bytes \<times> bool) \<Rightarrow> ('w \<Rightarrow> nat) \<Rightarrow> ('w \<Rightarrow> nat) \<Rightarrow> bool" where
  "stream_works lib st sent want rank \<longleftrightarrow>
     (\<forall>n w. sent (sl_reserve lib st n w) = sent w \<and> want (sl_reserve lib st n w) = n) \<and>
     (\<forall>w. 0 < want w \<longrightarrow>
        (\<exists>w'. sl_capacity lib st w = (Pending, w') \<and> sent w' = sent w \<and> want w' = want w \<and> rank w' < rank w) \<or>
        (\<exists>c w'. sl_capacity lib st w = (Ready (Some (Ok c)), w') \<and> 0 < c \<and> sent w' = sent w)) \<and>
     (\<forall>bs fin w. \<not> snd (sent w) \<longrightarrow> (\<exists>w'. sl_send lib st bs fin w = (Ok (), w') \<and> sent w' = (fst (sent w) @ bs, fin)))"

lemma stream_worksD:
  assumes "stream_works lib st sent want rank"
  shows "sent (sl_reserve lib st n w) = sent w" "want (sl_reserve lib st n w) = n"
    "0 < want w \<Longrightarrow>
       (\<exists>w'. sl_capacity lib st w = (Pending, w') \<and> sent w' = sent w \<and> want w' = want w \<and> rank w' < rank w) \<or>
       (\<exists>c w'. sl_capacity lib st w = (Ready (Some (Ok c)), w') \<and> 0 < c \<and> sent w' = sent w)"
    "\<not> snd (sent w) \<Longrightarrow> \<exists>w'. sl_send lib st bs fin w = (Ok (), w') \<and> sent w' = (fst (sent w) @ bs, fin)"
  using assms unfolding stream_works_def by blast+

text \<open>A body that comes in pieces, none of them empty, with waits in between.\<close>

type_synonym script = "bytes option list"

definition scripted_body :: "(script, 'w) message_body \<Rightarrow> bool" where
  "scripted_body mb \<longleftrightarrow> (\<forall>sc w. mb_poll mb sc w = script_poll sc w)"

fun script_left :: "('f, 'r, 's, script, 'k) service_response \<Rightarrow> script" where
  "script_left s = (case sv_state s of RsSendPayload st (RbBody sc) \<Rightarrow> sc | _ \<Rightarrow> [])"

text \<open>What is sent, what waits in the buffer and what the body still has make up the whole.\<close>

definition sending ::
  "'s \<Rightarrow> ('w \<Rightarrow> bytes \<times> bool) \<Rightarrow> ('w \<Rightarrow> nat) \<Rightarrow> bytes \<Rightarrow> ('f, 'r, 's, script, 'k) service_response \<Rightarrow> 'w \<Rightarrow> bool" where
  "sending st sent want whole s w \<longleftrightarrow>
     (\<exists>sc. sv_state s = RsSendPayload st (RbBody sc) \<and> list_all (\<lambda>p. p \<noteq> Some []) sc \<and> \<not> snd (sent w) \<and>
        (case sv_buffer s of
           None \<Rightarrow> fst (sent w) @ script_data sc = whole
         | Some b \<Rightarrow> b \<noteq> [] \<and> 0 < want w \<and> fst (sent w) @ b @ script_data sc = whole))"

definition send_patience :: "('w \<Rightarrow> nat) \<Rightarrow> ('f, 'r, 's, script, 'k) service_response \<Rightarrow> 'w \<Rightarrow> patience" where
  "send_patience rank s w = (length (script_left s), case sv_buffer s of None \<Rightarrow> 0 | Some b \<Rightarrow> length b, rank w)"

lemma task_sends:
  assumes works: "stream_works (hv_send env) st sent want rank" and body: "scripted_body (hv_body env)"
    and "sending st sent want whole s w"
  shows "\<exists>p s' w'. h2_task_step env s w = (p, s', w') \<and>
    ((p = None \<or> p = Some Pending) \<and> sending st sent want whole s' w' \<and>
       (send_patience rank s' w', send_patience rank s w) \<in> less_patience \<or>
     (\<exists>a. p = Some (Ready a) \<and> a = Return () \<and> sent w' = (whole, True)))"
proof -
  note lib = stream_worksD [OF works]
  obtain sc where s: "sv_state s = RsSendPayload st (RbBody sc)" "list_all (\<lambda>p. p \<noteq> Some []) sc" "\<not> snd (sent w)"
    and buf: "case sv_buffer s of None \<Rightarrow> fst (sent w) @ script_data sc = whole
       | Some b \<Rightarrow> b \<noteq> [] \<and> 0 < want w \<and> fst (sent w) @ b @ script_data sc = whole"
    using assms(3) unfolding sending_def by blast
  have step: "h2_task_step env s w = send_step env st (RbBody sc) s w" using s(1) by (simp add: h2_task_step_def)
  have poll: "mb_poll (hv_body env) sc' w' = script_poll sc' w'" for sc' w' using body by (simp add: scripted_body_def)
  show ?thesis
  proof (cases "sv_buffer s")
    case None
    show ?thesis
    proof (cases sc)
      case Nil
      obtain w' where "sl_send (hv_send env) st [] True w = (Ok (), w')" "sent w' = (fst (sent w) @ [], True)"
        using lib(4) [OF s(3), of "[]" True] by blast
      with None Nil buf step poll show ?thesis by (simp add: send_step_def)
    next
      case (Cons p sc')
      with s(2) buf None show ?thesis
        by (cases p) (simp_all add: step send_step_def poll sending_def send_patience_def s lib(1,2) CHUNK_SIZE_def)
    qed
  next
    case (Some b)
    with buf have b: "b \<noteq> []" "0 < want w" "fst (sent w) @ b @ script_data sc = whole" by simp_all
    consider (wait) w' where "sl_capacity (hv_send env) st w = (Pending, w')" "sent w' = sent w" "want w' = want w" "rank w' < rank w"
      | (granted) c w1 where "sl_capacity (hv_send env) st w = (Ready (Some (Ok c)), w1)" "0 < c" "sent w1 = sent w"
      using lib(3) [OF b(2)] by blast
    then show ?thesis
    proof cases
      case wait
      with Some b s show ?thesis by (simp add: step send_step_def sending_def send_patience_def)
    next
      case granted
      obtain w2 where w2: "sl_send (hv_send env) st (take (min c (length b)) b) False w1 = (Ok (), w2)"
          "sent w2 = (fst (sent w) @ take (min c (length b)) b, False)"
        using lib(4) [of w1 "take (min c (length b)) b" False] s(3) granted(3) by auto
      show ?thesis
      proof (cases "length b \<le> c")
        case True
        with Some b s granted w2 show ?thesis by (simp add: step send_step_def sending_def send_patience_def)
      next
        case False
        have "fst (sent w) @ take c b @ drop c b @ script_data sc = whole" using b(3) by (metis append.assoc append_take_drop_id)
        with False Some b s granted w2 show ?thesis
          by (simp add: step send_step_def sending_def send_patience_def lib(1,2) CHUNK_SIZE_def)
      qed
    qed
  qed
qed

text \<open>
  Property C19. A body without empty pieces, that is not announced as empty and does not fail, is sent whole, in order, and then the end, over a
  stream that takes the head and grants the capacity it is asked for, in whatever portions; the task of the response finishes.
\<close>

theorem h2_response_sent:
  assumes "hv_poll env f w = (Ready (Ok res), f', w1)" and "re_body res = RbBody sc" and "list_all (\<lambda>p. p \<noteq> Some []) sc"
    and "prepare_response env (re_head res) (mb_size (hv_body env) sc) w1 = (h2_res, sz, w2)" and "\<not> size_is_eof sz"
    and "hv_respond env r h2_res False w2 = (Ok st, w3)" and "sent w3 = ([], False)"
    and "stream_works (hv_send env) st sent want rank" and "scripted_body (hv_body env)"
  shows "\<exists>s' w'. await_future (h2_task_poll env) \<lparr>sv_state = RsServiceCall f (Some r), sv_buffer = None\<rparr> w = Some (Return (), s', w') \<and>
    sent w' = (script_data sc, True)"
proof -
  let ?s = "\<lparr>sv_state = RsSendPayload st (RbBody sc), sv_buffer = None\<rparr>"
  have "h2_task_step env \<lparr>sv_state = RsServiceCall f (Some r), sv_buffer = None\<rparr> w = (None, ?s, w3)"
    using assms(1,2,4-6) by (simp add: h2_task_step_def begin_response_def)
  then have "await_future (h2_task_poll env) \<lparr>sv_state = RsServiceCall f (Some r), sv_buffer = None\<rparr> w = await_future (h2_task_poll env) ?s w3"
    unfolding h2_task_poll_def by (rule await_again)
  moreover have "sending st sent want (script_data sc) ?s w3" using assms(3,7) by (simp add: sending_def)
  from await_rule [where post = "\<lambda>a s w. a = Return () \<and> sent w = (script_data sc, True)", OF task_sends [OF assms(8,9)] this]
  have "\<exists>a s' w'. await_future (h2_task_poll env) ?s w3 = Some (Return (), s', w') \<and> sent w' = (script_data sc, True)"
    unfolding h2_task_poll_def by blast
  ultimately show ?thesis by simp
qed

text \<open>
  An empty piece in a body stops the response for ever: no capacity is asked for, and a stream on which nothing is asked for
  reports none.
\<close>

theorem h2_empty_piece_hangs:
  fixes env :: "('m, 't, 'd, 'p, 'f, 'r, 's, script, 'k, 'w) h2_env"
  assumes "\<And>n w. want (sl_reserve (hv_send env) st n w) = n"
    and "\<And>w. want w = (0 :: nat) \<Longrightarrow> \<exists>w'. sl_capacity (hv_send env) st w = (Pending, w') \<and> want w' = 0"
    and "scripted_body (hv_body env)"
  shows "await_future (h2_task_poll env) \<lparr>sv_state = RsSendPayload st (RbBody (Some [] # sc)), sv_buffer = None\<rparr> w = None"
proof -
  let ?s = "\<lparr>sv_state = RsSendPayload st (RbBody sc), sv_buffer = Some []\<rparr>"
  let ?w = "sl_reserve (hv_send env) st 0 w"
  have "h2_task_step env \<lparr>sv_state = RsSendPayload st (RbBody (Some [] # sc)), sv_buffer = None\<rparr> w = (None, ?s, ?w)"
    using assms(3) by (simp add: h2_task_step_def send_step_def scripted_body_def)
  then have "await_future (h2_task_poll env) \<lparr>sv_state = RsSendPayload st (RbBody (Some [] # sc)), sv_buffer = None\<rparr> w =
      await_future (h2_task_poll env) ?s ?w"
    unfolding h2_task_poll_def by (rule await_again)
  moreover have "await_future (h2_task_poll env) ?s ?w = None"
  proof (rule await_stuck [where stuck = "\<lambda>s w. s = ?s \<and> want w = 0"])
    fix s :: "('f, 'r, 's, script, 'k) service_response" and w assume "s = ?s \<and> want w = 0"
    with assms(2) [of w] show "\<exists>d' w'. h2_task_poll env s w = Some (Pending, d', w') \<and> d' = ?s \<and> want w' = 0"
      by (auto simp: h2_task_poll_def h2_task_step_def send_step_def intro!: poll_loop_answer)
  qed (simp add: assms(1))
  ultimately show ?thesis by simp
qed

text \<open>
  The headers of a request are those of the stream, value by value; the map stays well formed. Of two values of a name the
  second comes first.
\<close>

theorem h2_request_headers:
  "mset (hm_values (hm_from_http lib m) n) = mset (map snd (filter (\<lambda>kv. fst kv = n) (hh_items lib m))) \<and>
   hm_wf (hm_from_http lib m) \<and>
   (hh_items lib m = [(n, v), (n, v')] \<longrightarrow> hm_values (hm_from_http lib m) n = [v', v])"
proof -
  have all: "hm_from_http lib m = headers.append_all hm_new (hh_items lib m)"
    by (simp add: hm_from_http_def headers.append_all_def)
  have "hm_values (hm_from_http lib m) n = [v', v]" if "hh_items lib m = [(n, v), (n, v')]"
    using that by (simp add: hm_from_http_def hm_append_def hm_new_def hm_values_def)
  then show ?thesis
    using headers.values_collected [of "hh_items lib m" n] headers.wf_append_all [OF headers.wf_empty, of "hh_items lib m"] all by simp
qed

section \<open>Witnesses\<close>

text \<open>A stream that grants one byte at a time, over a world of what was sent and what is wanted.\<close>

type_synonym demo_wire = "(bytes \<times> bool) \<times> nat"

definition demo_send :: "(unit, demo_wire) send_lib" where
  "demo_send = \<lparr>sl_reserve = (\<lambda>st n w. (fst w, n)),
     sl_capacity = (\<lambda>st w. if snd w = 0 then (Pending, w) else (Ready (Some (Ok 1)), w)),
     sl_send = (\<lambda>st bs fin w. (Ok (), ((fst (fst w) @ bs, fin), snd w)))\<rparr>"

definition demo_hmap :: "(header_name \<times> header_value) list hmap_lib" where
  "demo_hmap = \<lparr>hh_new = [], hh_insert = (\<lambda>k v m. filter (\<lambda>kv. fst kv \<noteq> k) m @ [(k, v)]), hh_append = (\<lambda>k v m. m @ [(k, v)]),
     hh_items = id\<rparr>"

definition demo_vals :: "(header_name \<times> header_value) list \<Rightarrow> header_name \<Rightarrow> header_value list" where
  "demo_vals m n = map snd (filter (\<lambda>kv. fst kv = n) m)"

lemma demo_hmap_ok: "hmap_ok demo_hmap demo_vals"
  by (auto simp: hmap_ok_def demo_hmap_def demo_vals_def intro!: arg_cong [where f = "map snd"] filter_cong)

definition demo_h2_env ::
  "((header_name \<times> header_value) list, bytes, int, unit, script, unit, unit, script, unit, demo_wire) h2_env" where
  "demo_h2_env = \<lparr>hv_hmap = demo_hmap, hv_send = demo_send, hv_config = service_config_default, hv_peer_addr = None,
     hv_on_connect = None, hv_visit = rev, hv_now = (\<lambda>w. 0), hv_date = (\<lambda>w. (bstr ''today'', w)), hv_accept = (\<lambda>w. (Pending, w)),
     hv_call = (\<lambda>req w. ([], w)),
     hv_poll = (\<lambda>f w. (Ready (Ok \<lparr>re_head = response_head_new 200, re_body = RbBody f, re_error = None\<rparr>), f, w)),
     hv_respond = (\<lambda>r res eof w. (Ok (), w)), hv_body = \<lparr>mb_size = (\<lambda>b. SzStream), mb_poll = script_poll\<rparr>,
     hv_boxed = \<lparr>mb_size = (\<lambda>b. SzNone), mb_poll = (\<lambda>b w. (Ready None, b, w))\<rparr>\<rparr>"

lemma demo_h2_parts [simp]:
  "hv_hmap demo_h2_env = demo_hmap" "hv_send demo_h2_env = demo_send" "hv_visit demo_h2_env = rev"
  "hv_date demo_h2_env w = (bstr ''today'', w)" "hv_respond demo_h2_env r res eof w = (Ok (), w)"
  "hv_poll demo_h2_env f w = (Ready (Ok \<lparr>re_head = response_head_new 200, re_body = RbBody f, re_error = None\<rparr>), f, w)"
  "mb_size (hv_body demo_h2_env) b = SzStream" "scripted_body (hv_body demo_h2_env)"
  by (simp_all add: demo_h2_env_def scripted_body_def)

lemma demo_stream_works: "stream_works demo_send () fst snd (\<lambda>w. 0)"
  by (auto simp: stream_works_def demo_send_def)

lemma h2_head_exact_witness:
  "\<exists>m w'. prepare_response demo_h2_env ((response_head_new 200)\<lparr>rs_headers := [(CONNECTION, One [1]), (bstr ''via'', Multi [[2], [3]])]\<rparr>)
      (SzSized 5) ((([], False), 0)) = ((200, HTTP_2, m), SzSized 5, w') \<and>
    demo_vals m CONNECTION = [] \<and> demo_vals m CONTENT_LENGTH = [dec 5] \<and> demo_vals m DATE = [bstr ''today''] \<and>
    demo_vals m (bstr ''via'') = [[2], [3]]"
proof -
  let ?h = "(response_head_new 200)\<lparr>rs_headers := [(CONNECTION, One [1]), (bstr ''via'', Multi [[2], [3]])]\<rparr>"
  obtain st v m told w' where p: "prepare_response demo_h2_env ?h (SzSized 5) (([], False), 0) = ((st, v, m), told, w')"
    by (metis prod.exhaust)
  have wf: "hm_wf (rs_headers ?h)" by (simp add: hm_wf_def value_wf_def CONNECTION_def)
  have sz: "h2_size (rs_status ?h) (SzSized 5) = (SzSized 5, True)"
    by (simp add: h2_size_def response_head_new_def)
  have "mset (hv_visit demo_h2_env (rs_headers ?h)) = mset (rs_headers ?h)" by simp
  note exact = h2_head_exact [OF _ wf this sz p, of demo_vals]
  show ?thesis
    using p exact [of CONNECTION] exact [of CONTENT_LENGTH] exact [of DATE] exact [of "bstr ''via''"] demo_hmap_ok header_names_differ
    by (simp add: response_head_new_def hm_values_def CONNECTION_def CONTENT_LENGTH_def DATE_def TRANSFER_ENCODING_def)
qed

lemma h2_response_sent_witness:
  "\<exists>s' w'. await_future (h2_task_poll demo_h2_env) \<lparr>sv_state = RsServiceCall [Some [1, 2, 3], None, Some [4]] (Some ()), sv_buffer = None\<rparr>
      (([], False), 0) = Some (Return (), s', w') \<and> fst w' = ([1, 2, 3, 4], True)"
proof -
  let ?sc = "[Some [1, 2, 3], None, Some [4]] :: script" and ?h = "response_head_new 200"
  have sz: "h2_size (rs_status ?h) SzStream = (SzStream, False)"
    by (simp add: h2_size_def response_head_new_def)
  obtain res where p: "prepare_response demo_h2_env ?h SzStream (([], False), 0) = (res, SzStream, (([], False), 0))"
    using sz by (auto simp: prepare_response_def visit_items_def response_head_new_def hm_new_def)
  show ?thesis
    using h2_response_sent [of demo_h2_env ?sc _ _ ?sc _ ?sc res SzStream "(([], False), 0)" "()" "()" "(([], False), 0)" fst snd "\<lambda>w. 0"]
      p demo_stream_works by simp
qed

lemma h2_empty_piece_hangs_witness:
  "await_future (h2_task_poll demo_h2_env) \<lparr>sv_state = RsSendPayload () (RbBody [Some [], Some [1]]), sv_buffer = None\<rparr> (([], False), 7) = None"
  by (rule h2_empty_piece_hangs [where want = snd]) (simp_all add: demo_send_def)

end
