(* ===== verification/H1_Send.thy ===== *)
theory H1_Send
  imports H1_Client H2_Dispatcher
begin

text \<open>
  Sending over a framed transport: the response of the server's helper (\<open>h1/utils.rs\<close>), and the request with its body on the
  client (\<open>client/h1proto.rs\<close>). The type \<open>Framed\<close> of the crate \<open>actix-codec\<close> is a parameter. The states of the futures are
  completed by the places in their loops at which an iteration is.
\<close>

section \<open>The transport\<close>

record ('i, 'f, 'w) framed_sink =
  fk_full :: "'f \<Rightarrow> bool"
  fk_empty :: "'f \<Rightarrow> bool"
  fk_write :: "'i message \<Rightarrow> 'f \<Rightarrow> (unit, io_error) result \<times> 'f"
  fk_flush :: "'f \<Rightarrow> 'w \<Rightarrow> (unit, io_error) result poll \<times> 'f \<times> 'w"

section \<open>The response of the server\<close>

type_synonym 'm response_item = "(unit, 'm) response \<times> body_size"

record ('f, 'b, 'm) response_sender =
  sd_res :: "'m response_item message option"
  sd_body :: "('b, 'm) response_body option"
  sd_framed :: "'f option"

definition send_response_new ::
  "('b, 'w) message_body \<Rightarrow> ('m, 'w) message_body \<Rightarrow> 'f \<Rightarrow> ('b, 'm) response \<Rightarrow> ('f, 'b, 'm) response_sender" where
  "send_response_new bb mb framed response =
     (let (res, body) = into_parts response
      in \<lparr>sd_res = Some (Item (res, rb_size bb mb body)), sd_body = Some body, sd_framed = Some framed\<rparr>)"

datatype send_failure = SfBody | SfIo io_error

text \<open>At the head of the loop, or in the loop that writes the body, with \<open>body_ready\<close>.\<close>

datatype send_point = AtLoop | Filling bool

type_synonym ('f, 'b, 'm, 'w) send_result =
  "('f, send_failure) result exec poll option \<times> (('f, 'b, 'm) response_sender \<times> send_point) \<times> 'w"

definition after_fill ::
  "('m response_item, 'f, 'w) framed_sink \<Rightarrow> bool \<Rightarrow> ('f, 'b, 'm) response_sender \<Rightarrow> 'f \<Rightarrow> 'w \<Rightarrow> ('f, 'b, 'm, 'w) send_result" where
  "after_fill lib body_ready s framed w =
     (if \<not> fk_empty lib framed then
        (case fk_flush lib framed w of
           (Ready (Err e), framed, w) \<Rightarrow> (Some (Ready (Return (Err (SfIo e)))), (s\<lparr>sd_framed := Some framed\<rparr>, AtLoop), w)
         | (Ready (Ok _), framed, w) \<Rightarrow> (if body_ready then None else Some Pending, (s\<lparr>sd_framed := Some framed\<rparr>, AtLoop), w)
         | (Pending, framed, w) \<Rightarrow> (Some Pending, (s\<lparr>sd_framed := Some framed\<rparr>, AtLoop), w))
      else
        (case sd_res s of
           Some res \<Rightarrow>
             (case fk_write lib res framed of
                (Err e, framed) \<Rightarrow>
                  (Some (Ready (Return (Err (SfIo e)))), (s\<lparr>sd_res := None, sd_framed := Some framed\<rparr>, AtLoop), w)
              | (Ok _, framed) \<Rightarrow> (None, (s\<lparr>sd_res := None, sd_framed := Some framed\<rparr>, AtLoop), w))
         | None \<Rightarrow>
             if sd_body s \<noteq> None then (if body_ready then None else Some Pending, (s, AtLoop), w)
             else (Some (Ready (Return (Ok framed))), (s\<lparr>sd_framed := None\<rparr>, AtLoop), w)))"

definition fill_step ::
  "('m response_item, 'f, 'w) framed_sink \<Rightarrow> ('b, 'w) message_body \<Rightarrow> ('m, 'w) message_body \<Rightarrow> bool \<Rightarrow>
   ('f, 'b, 'm) response_sender \<Rightarrow> 'f \<Rightarrow> 'w \<Rightarrow> ('f, 'b, 'm, 'w) send_result" where
  "fill_step lib bb mb body_ready s framed w =
     (case sd_body s of
        Some body \<Rightarrow>
          if body_ready \<and> \<not> fk_full lib framed then
            (case rb_poll_next bb mb body w of
               (Ready (Some (Err e)), body, w) \<Rightarrow>
                 (Some (Ready (Return (Err SfBody))), (s\<lparr>sd_body := Some body\<rparr>, AtLoop), w)
             | (Ready None, body, w) \<Rightarrow>
                 (case fk_write lib (Chunk None) framed of
                    (Err e, framed) \<Rightarrow>
                      (Some (Ready (Return (Err (SfIo e)))), (s\<lparr>sd_body := None, sd_framed := Some framed\<rparr>, AtLoop), w)
                  | (Ok _, framed) \<Rightarrow> (None, (s\<lparr>sd_body := None, sd_framed := Some framed\<rparr>, Filling True), w))
             | (Ready (Some (Ok bs)), body, w) \<Rightarrow>
                 (case fk_write lib (Chunk (Some bs)) framed of
                    (Err e, framed) \<Rightarrow>
                      (Some (Ready (Return (Err (SfIo e)))), (s\<lparr>sd_body := Some body, sd_framed := Some framed\<rparr>, AtLoop), w)
                  | (Ok _, framed) \<Rightarrow> (None, (s\<lparr>sd_body := Some body, sd_framed := Some framed\<rparr>, Filling True), w))
             | (Pending, body, w) \<Rightarrow> (None, (s\<lparr>sd_body := Some body\<rparr>, Filling False), w))
          else after_fill lib body_ready s framed w
      | None \<Rightarrow> after_fill lib body_ready s framed w)"

definition send_response_step ::
  "('m response_item, 'f, 'w) framed_sink \<Rightarrow> ('b, 'w) message_body \<Rightarrow> ('m, 'w) message_body \<Rightarrow>
   ('f, 'b, 'm) response_sender \<times> send_point \<Rightarrow> 'w \<Rightarrow> ('f, 'b, 'm, 'w) send_result" where
  "send_response_step lib bb mb sp w =
     (let (s, point) = sp
      in case sd_framed s of
           None \<Rightarrow> (Some (Ready Panic), (s, AtLoop), w)
         | Some framed \<Rightarrow>
             (case point of
                AtLoop \<Rightarrow>
                  if sd_res s = None \<and> sd_body s \<noteq> None then (None, (s, Filling True), w)
                  else after_fill lib (sd_body s \<noteq> None) s framed w
              | Filling body_ready \<Rightarrow> fill_step lib bb mb body_ready s framed w))"

definition send_response_poll ::
  "('m response_item, 'f, 'w) framed_sink \<Rightarrow> ('b, 'w) message_body \<Rightarrow> ('m, 'w) message_body \<Rightarrow>
   ('f, 'b, 'm) response_sender \<times> send_point \<Rightarrow> 'w \<Rightarrow>
   (('f, send_failure) result exec poll \<times> (('f, 'b, 'm) response_sender \<times> send_point) \<times> 'w) option" where
  "send_response_poll lib bb mb = poll_loop (send_response_step lib bb mb)"

section \<open>The body of the client's request\<close>

datatype body_point = BpOuter | BpInner | BpFlush | BpFinal

record ('f, 'b) body_sender =
  by_body :: 'b
  by_eof :: bool
  by_framed :: 'f
  by_point :: body_point

type_synonym request_item = "request_head_type \<times> body_size"

type_synonym ('f, 'b, 'w) body_result = "(unit, unit send_request_error) result poll option \<times> ('f, 'b) body_sender \<times> 'w"

definition h1_body_step ::
  "(request_item, 'f, 'w) framed_sink \<Rightarrow> ('b, 'w) message_body \<Rightarrow> ('f, 'b) body_sender \<Rightarrow> 'w \<Rightarrow> ('f, 'b, 'w) body_result" where
  "h1_body_step lib bb s w =
     (case by_point s of
        BpOuter \<Rightarrow> (None, s\<lparr>by_point := (if by_eof s then BpFinal else BpInner)\<rparr>, w)
      | BpInner \<Rightarrow>
          if \<not> by_eof s \<and> \<not> fk_full lib (by_framed s) then
            (case mb_poll bb (by_body s) w of
               (Pending, body, w) \<Rightarrow> (Some Pending, s\<lparr>by_body := body\<rparr>, w)
             | (Ready (Some (Err e)), body, w) \<Rightarrow> (Some (Ready (Err (SeBody e))), s\<lparr>by_body := body\<rparr>, w)
             | (Ready (Some (Ok bs)), body, w) \<Rightarrow>
                 (case fk_write lib (Chunk (Some bs)) (by_framed s) of
                    (Err e, framed) \<Rightarrow> (Some (Ready (Err (SeSend e))), s\<lparr>by_body := body, by_framed := framed\<rparr>, w)
                  | (Ok _, framed) \<Rightarrow> (None, s\<lparr>by_body := body, by_framed := framed\<rparr>, w))
             | (Ready None, body, w) \<Rightarrow>
                 (case fk_write lib (Chunk None) (by_framed s) of
                    (Err e, framed) \<Rightarrow> (Some (Ready (Err (SeSend e))), s\<lparr>by_body := body, by_eof := True, by_framed := framed\<rparr>, w)
                  | (Ok _, framed) \<Rightarrow> (None, s\<lparr>by_body := body, by_eof := True, by_framed := framed\<rparr>, w)))
          else (None, s\<lparr>by_point := (if \<not> fk_empty lib (by_framed s) then BpFlush else BpOuter)\<rparr>, w)
      | BpFlush \<Rightarrow>
          (case fk_flush lib (by_framed s) w of
             (Ready (Ok _), framed, w) \<Rightarrow> (None, s\<lparr>by_framed := framed, by_point := BpOuter\<rparr>, w)
           | (Ready (Err e), framed, w) \<Rightarrow> (Some (Ready (Err (SeSend e))), s\<lparr>by_framed := framed\<rparr>, w)
           | (Pending, framed, w) \<Rightarrow>
               if \<not> fk_full lib framed then (None, s\<lparr>by_framed := framed, by_point := BpOuter\<rparr>, w)
               else (Some Pending, s\<lparr>by_framed := framed\<rparr>, w))
      | BpFinal \<Rightarrow>
          (case fk_flush lib (by_framed s) w of
             (Ready (Ok _), framed, w) \<Rightarrow> (Some (Ready (Ok ())), s\<lparr>by_framed := framed\<rparr>, w)
           | (Ready (Err e), framed, w) \<Rightarrow> (Some (Ready (Err (SeSend e))), s\<lparr>by_framed := framed\<rparr>, w)
           | (Pending, framed, w) \<Rightarrow> (Some Pending, s\<lparr>by_framed := framed\<rparr>, w)))"

definition h1_send_body ::
  "(request_item, 'f, 'w) framed_sink \<Rightarrow> ('b, 'w) message_body \<Rightarrow> 'b \<Rightarrow> 'f \<Rightarrow> 'w \<Rightarrow>
   ((unit, unit send_request_error) result \<times> ('f, 'b) body_sender \<times> 'w) option" where
  "h1_send_body lib bb body framed w =
     await_future (poll_loop (h1_body_step lib bb)) \<lparr>by_body = body, by_eof = False, by_framed = framed, by_point = BpOuter\<rparr> w"

section \<open>A request over HTTP/1\<close>

text \<open>
  What the request awaits of the transport: that an item is sent (written and flushed), and the next head. Host, port and the text
  of a header value come from the crate \<open>http\<close>.
\<close>

record ('f, 'io, 'w) request_env =
  rv_http :: http_lib
  rv_uri_host :: "bytes \<Rightarrow> bytes option"
  rv_uri_port :: "bytes \<Rightarrow> u16 option"
  rv_value :: "bytes \<Rightarrow> header_value option"
  rv_framed :: "'io h1_connection \<Rightarrow> 'f"
  rv_tunnel :: "'io \<Rightarrow> 'f"
  rv_sink :: "(request_item, 'f, 'w) framed_sink"
  rv_lib :: "('f, 'io, 'w) framed_lib"
  rv_send :: "request_item \<Rightarrow> 'f \<Rightarrow> 'w \<Rightarrow> (((unit, io_error) result \<times> 'f) \<times> 'w) option"
  rv_head :: "'f \<Rightarrow> 'w \<Rightarrow> (((response_head, parse_error) result option \<times> 'f) \<times> 'w) option"

definition h1_no_body :: "body_size \<Rightarrow> bool" where
  "h1_no_body sz \<longleftrightarrow> sz = SzNone \<or> sz = SzEmpty \<or> sz = SzSized 0"

type_synonym ('f, 'io, 'w) request_outcome =
  "((response_head \<times> 'f pl_stream, unit send_request_error) result \<times> 'io pool_call list) \<times> 'w"

definition read_head :: "('f, 'io, 'w) request_env \<Rightarrow> 'f \<Rightarrow> 'w \<Rightarrow> ('f, 'io, 'w) request_outcome option" where
  "read_head env framed w =
     Option.bind (rv_head env framed w) (\<lambda>((res, framed), w).
       Some (case res of
               Some (Ok head) \<Rightarrow> (let (pl, calls) = after_head (rv_lib env) framed in (Ok (head, pl), calls))
             | Some (Err e) \<Rightarrow> (Err (SeResponse e), [])
             | None \<Rightarrow> (Err (SeConnect CeDisconnected), []), w))"

definition h1_send_request ::
  "('f, 'io, 'w) request_env \<Rightarrow> ('b, 'w) message_body \<Rightarrow> 'io \<Rightarrow> bool \<Rightarrow> request_head_type \<Rightarrow> 'b \<Rightarrow> 'w \<Rightarrow>
   ('f, 'io, 'w) request_outcome option" where
  "h1_send_request env bb io pool head body w =
     (let head = set_host (rv_http env) (rv_uri_host env) (rv_uri_port env) (rv_value env) head;
          framed = rv_framed env \<lparr>hn_io = Some io, hn_pool = pool\<rparr>
      in Option.bind (rv_send env (head, mb_size bb body) framed w) (\<lambda>((r, framed), w).
           case r of
             Err e \<Rightarrow> Some ((Err (SeSend e), []), w)
           | Ok _ \<Rightarrow>
               if h1_no_body (mb_size bb body) then read_head env framed w
               else Option.bind (h1_send_body (rv_sink env) bb body framed w) (\<lambda>(r, s, w).
                      case r of
                        Err e \<Rightarrow> Some ((Err e, []), w)
                      | Ok _ \<Rightarrow> read_head env (by_framed s) w)))"

definition h1_open_tunnel ::
  "('f, 'io, 'w) request_env \<Rightarrow> 'io \<Rightarrow> request_head_type \<Rightarrow> 'w \<Rightarrow>
   ((response_head \<times> 'f, unit send_request_error) result \<times> 'w) option" where
  "h1_open_tunnel env io head w =
     Option.bind (rv_send env (head, SzNone) (rv_tunnel env io) w) (\<lambda>((r, framed), w).
       case r of
         Err e \<Rightarrow> Some (Err (SeSend e), w)
       | Ok _ \<Rightarrow>
           Option.bind (rv_head env framed w) (\<lambda>((res, framed), w).
             Some (case res of
                     Some (Ok head) \<Rightarrow> Ok (head, framed)
                   | Some (Err e) \<Rightarrow> Err (SeResponse e)
                   | None \<Rightarrow> Err (SeConnect CeDisconnected), w)))"

section \<open>What is written\<close>

text \<open>
  A transport that works: it takes what is written and flushes after some time. \<open>written\<close> is what it has taken so far.
\<close>

definition sink_works :: "('i, 'f, 'w) framed_sink \<Rightarrow> ('f \<Rightarrow> 'i message list) \<Rightarrow> ('f \<Rightarrow> 'w \<Rightarrow> nat) \<Rightarrow> bool" where
  "sink_works lib written rank \<longleftrightarrow>
     (\<forall>m f. \<exists>f'. fk_write lib m f = (Ok (), f') \<and> written f' = written f @ [m]) \<and>
     (\<forall>f. fk_full lib f \<longrightarrow> \<not> fk_empty lib f) \<and>
     (\<forall>f w. \<exists>p f' w'. fk_flush lib f w = (p, f', w') \<and> written f' = written f \<and>
        (p = Pending \<and> fk_empty lib f' = fk_empty lib f \<and> rank f' w' < rank f w \<or>
         p = Ready (Ok ()) \<and> fk_empty lib f' \<and> (fk_empty lib f \<or> rank f' w' < rank f w)))"

lemma sink_writes:
  assumes "sink_works lib written rank"
  obtains f' where "fk_write lib m f = (Ok (), f')" "written f' = written f @ [m]"
  using assms unfolding sink_works_def by blast

lemma sink_flushes:
  assumes "sink_works lib written rank"
  obtains (wait) f' w' where "fk_flush lib f w = (Pending, f', w')" "written f' = written f" "fk_empty lib f' = fk_empty lib f"
      "rank f' w' < rank f w"
    | (over) f' w' where "fk_flush lib f w = (Ready (Ok ()), f', w')" "written f' = written f" "fk_empty lib f'"
      "fk_empty lib f \<or> rank f' w' < rank f w"
  using assms unfolding sink_works_def by blast

lemma sink_full: "sink_works lib written rank \<Longrightarrow> fk_empty lib f \<Longrightarrow> \<not> fk_full lib f"
  unfolding sink_works_def by blast

text \<open>The messages of a body that comes in pieces.\<close>

fun script_chunks :: "script \<Rightarrow> 'i message list" where
  "script_chunks [] = [Chunk None]"
| "script_chunks (None # sc) = script_chunks sc"
| "script_chunks (Some b # sc) = Chunk (Some b) # script_chunks sc"

section \<open>The response is written completely\<close>

definition outstanding :: "('f, script, 'm) response_sender \<Rightarrow> 'm response_item message list" where
  "outstanding s = (case sd_res s of Some m \<Rightarrow> [m] | None \<Rightarrow> []) @
     (case sd_body s of Some (RbBody sc) \<Rightarrow> script_chunks sc | _ \<Rightarrow> [])"

definition responding ::
  "('f \<Rightarrow> 'm response_item message list) \<Rightarrow> 'm response_item message list \<Rightarrow>
   ('f, script, 'm) response_sender \<times> send_point \<Rightarrow> 'w \<Rightarrow> bool" where
  "responding written whole sp w \<longleftrightarrow>
     (\<exists>f. sd_framed (fst sp) = Some f \<and> written f @ outstanding (fst sp) = whole) \<and>
     (\<forall>other. sd_body (fst sp) \<noteq> Some (RbOther other)) \<and>
     (sd_res (fst sp) \<noteq> None \<longrightarrow> sd_body (fst sp) \<noteq> None \<and> snd sp = AtLoop) \<and>
     (snd sp = Filling False \<longrightarrow> sd_body (fst sp) \<noteq> None)"

fun point_rank :: "send_point \<Rightarrow> nat" where
  "point_rank (Filling False) = 2"
| "point_rank AtLoop = 1"
| "point_rank (Filling True) = 0"

definition responding_patience ::
  "('i, 'f, 'w) framed_sink \<Rightarrow> ('f \<Rightarrow> 'w \<Rightarrow> nat) \<Rightarrow> ('f, script, 'm) response_sender \<times> send_point \<Rightarrow> 'w \<Rightarrow> patience" where
  "responding_patience lib rank sp w =
     ((case sd_res (fst sp) of Some m \<Rightarrow> 1 | None \<Rightarrow> 0) +
        (case sd_body (fst sp) of Some (RbBody sc) \<Rightarrow> Suc (length sc) | _ \<Rightarrow> 0),
      case sd_framed (fst sp) of Some f \<Rightarrow> if fk_empty lib f then 0 else Suc (rank f w) | None \<Rightarrow> 0,
      point_rank (snd sp))"

definition step_fine ::
  "('m response_item, 'f, 'w) framed_sink \<Rightarrow> ('f \<Rightarrow> 'm response_item message list) \<Rightarrow> ('f \<Rightarrow> 'w \<Rightarrow> nat) \<Rightarrow> 'm response_item message list \<Rightarrow>
   ('f, script, 'm) response_sender \<times> send_point \<Rightarrow> 'w \<Rightarrow> ('f, script, 'm, 'w) send_result \<Rightarrow> bool" where
  "step_fine lib written rank whole sp w r \<longleftrightarrow>
     (\<exists>p sp' w'. r = (p, sp', w') \<and>
       ((p = None \<or> p = Some Pending) \<and> responding written whole sp' w' \<and>
          (responding_patience lib rank sp' w', responding_patience lib rank sp w) \<in> less_patience \<or>
        (\<exists>a. p = Some (Ready a) \<and> (\<exists>f. a = Return (Ok f) \<and> fk_empty lib f \<and> written f = whole))))"

lemma step_fine_on:
  "p = None \<or> p = Some Pending \<Longrightarrow> responding written whole sp' w' \<Longrightarrow>
     (responding_patience lib rank sp' w', responding_patience lib rank sp w) \<in> less_patience \<Longrightarrow>
     step_fine lib written rank whole sp w (p, sp', w')"
  by (auto simp: step_fine_def)

lemma after_fill_fine:
  assumes works: "sink_works lib written rank" and r: "responding written whole (s, point) w" and f: "sd_framed s = Some f"
    and body: "sd_res s \<noteq> None \<or> sd_body s = None \<or> fk_full lib f \<or> \<not> ready" and bd: "sd_body s = None \<Longrightarrow> ready \<or> point = AtLoop"
    and point: "point = AtLoop \<and> (ready \<longleftrightarrow> sd_body s \<noteq> None) \<or> point = Filling ready"
  shows "step_fine lib written rank whole (s, point) w (after_fill lib ready s f w)"
proof (cases "fk_empty lib f")
  case False
  show ?thesis
  proof (rule sink_flushes [OF works, of f w])
    fix f' w' assume "fk_flush lib f w = (Pending, f', w')" "written f' = written f" "fk_empty lib f' = fk_empty lib f" "rank f' w' < rank f w"
    with False r f show ?thesis
      by (auto simp: after_fill_def responding_def outstanding_def responding_patience_def intro!: step_fine_on)
  next
    fix f' w' assume "fk_flush lib f w = (Ready (Ok ()), f', w')" "written f' = written f" "fk_empty lib f'"
      "fk_empty lib f \<or> rank f' w' < rank f w"
    with False r f show ?thesis
      by (auto simp: after_fill_def responding_def outstanding_def responding_patience_def intro!: step_fine_on)
  qed
next
  case True
  show ?thesis
  proof (cases "sd_res s")
    case (Some m)
    obtain f' where "fk_write lib m f = (Ok (), f')" "written f' = written f @ [m]" using sink_writes [OF works] .
    with True Some r f show ?thesis
      by (auto simp: after_fill_def responding_def outstanding_def responding_patience_def intro!: step_fine_on)
  next
    case None
    show ?thesis
    proof (cases "sd_body s")
      case Nil: None
      with True None r f show ?thesis by (auto simp: after_fill_def step_fine_def responding_def outstanding_def)
    next
      case (Some b)
      with True None body sink_full [OF works True] have "\<not> ready" by simp
      with True None Some r f point show ?thesis
        by (auto simp: after_fill_def responding_def outstanding_def responding_patience_def intro!: step_fine_on)
    qed
  qed
qed

lemma send_response_fine:
  assumes works: "sink_works lib written rank" and script: "scripted_body bb" and r: "responding written whole (s, point) w"
  shows "step_fine lib written rank whole (s, point) w (send_response_step lib bb mb (s, point) w)"
proof -
  obtain f where f: "sd_framed s = Some f" using r by (auto simp: responding_def)
  note poll = script [unfolded scripted_body_def, rule_format]
  show ?thesis
  proof (cases point)
    case AtLoop
    show ?thesis
    proof (cases "sd_res s = None \<and> sd_body s \<noteq> None")
      case True
      with AtLoop r f show ?thesis
        by (auto simp: send_response_step_def responding_def outstanding_def responding_patience_def intro!: step_fine_on)
    next
      case False
      then have "step_fine lib written rank whole (s, point) w (after_fill lib (sd_body s \<noteq> None) s f w)"
        using AtLoop by (intro after_fill_fine [OF works r f]) auto
      with AtLoop f False show ?thesis by (auto simp: send_response_step_def)
    qed
  next
    case (Filling ready)
    with r have nores: "sd_res s = None" by (auto simp: responding_def)
    have step: "send_response_step lib bb mb (s, point) w = fill_step lib bb mb ready s f w"
      by (simp add: send_response_step_def f Filling)
    show ?thesis
    proof (cases "sd_body s \<noteq> None \<and> ready \<and> \<not> fk_full lib f")
      case False
      then have "fill_step lib bb mb ready s f w = after_fill lib ready s f w"
        by (auto simp: fill_step_def split: option.split)
      moreover have "step_fine lib written rank whole (s, point) w (after_fill lib ready s f w)"
        using Filling False r by (intro after_fill_fine [OF works r f]) (auto simp: responding_def)
      ultimately show ?thesis using step by simp
    next
      case True
      then obtain sc where sc: "sd_body s = Some (RbBody sc)"
        using r unfolding responding_def fst_conv by (metis not_None_eq response_body.exhaust)
      show ?thesis
      proof (cases sc)
        case Nil
        obtain f' where "fk_write lib (Chunk None) f = (Ok (), f')" "written f' = written f @ [Chunk None]" using sink_writes [OF works] .
        with Nil True sc r f nores Filling show ?thesis unfolding step
          by (auto simp: fill_step_def poll responding_def outstanding_def responding_patience_def intro!: step_fine_on)
      next
        case (Cons p sc')
        show ?thesis
        proof (cases p)
          case None
          with Cons True sc r f nores Filling show ?thesis unfolding step
            by (auto simp: fill_step_def poll responding_def outstanding_def responding_patience_def intro!: step_fine_on)
        next
          case (Some b)
          obtain f' where "fk_write lib (Chunk (Some b)) f = (Ok (), f')" "written f' = written f @ [Chunk (Some b)]"
            using sink_writes [OF works] .
          with Some Cons True sc r f nores Filling show ?thesis unfolding step
            by (auto simp: fill_step_def poll responding_def outstanding_def responding_patience_def intro!: step_fine_on)
        qed
      qed
    qed
  qed
qed

text \<open>
  Property C30. Over a transport that flushes after some time the helper writes the head, every piece of the body and the end, in order, flushes
  them all and gives the transport back.
\<close>

theorem send_response_complete:
  fixes w :: 'w
  assumes "sink_works lib written rank" and "scripted_body bb" and "re_body res = RbBody sc"
  shows "\<exists>f' sp w'. await_future (send_response_poll lib bb mb) (send_response_new bb mb f res, AtLoop) w = Some (Return (Ok f'), sp, w') \<and>
    written f' = written f @ Item (fst (into_parts res), mb_size bb sc) # script_chunks sc \<and> fk_empty lib f'"
proof -
  let ?whole = "written f @ Item (fst (into_parts res), mb_size bb sc) # script_chunks sc"
  have start: "responding written ?whole (send_response_new bb mb f res, AtLoop) w"
    using assms(3) by (auto simp: responding_def send_response_new_def into_parts_def outstanding_def)
  have "\<exists>a sp w'. await_future (poll_loop (send_response_step lib bb mb)) (send_response_new bb mb f res, AtLoop) w = Some (a, sp, w') \<and>
      (\<exists>f. a = Return (Ok f) \<and> fk_empty lib f \<and> written f = ?whole)"
  proof (rule await_rule [where keeps = "responding written ?whole" and m = "responding_patience lib rank"])
    fix sp and w :: 'w assume "responding written ?whole sp w"
    with send_response_fine [OF assms(1,2), of ?whole "fst sp" "snd sp" w mb]
    show "\<exists>p d' w'. send_response_step lib bb mb sp w = (p, d', w') \<and>
        ((p = None \<or> p = Some Pending) \<and> responding written ?whole d' w' \<and>
           (responding_patience lib rank d' w', responding_patience lib rank sp w) \<in> less_patience \<or>
         (\<exists>a. p = Some (Ready a) \<and> (\<exists>f. a = Return (Ok f) \<and> fk_empty lib f \<and> written f = ?whole)))"
      by (simp add: step_fine_def)
  qed (rule start)
  then show ?thesis unfolding send_response_poll_def by blast
qed

section \<open>The body of a request is written completely\<close>

definition body_left :: "('f, script) body_sender \<Rightarrow> request_item message list" where
  "body_left s = (if by_eof s then [] else script_chunks (by_body s))"

definition posting ::
  "('f \<Rightarrow> request_item message list) \<Rightarrow> request_item message list \<Rightarrow> ('f, script) body_sender \<Rightarrow> 'w \<Rightarrow> bool" where
  "posting written whole s w \<longleftrightarrow> written (by_framed s) @ body_left s = whole \<and> (by_point s = BpFinal \<longrightarrow> by_eof s)"

fun body_point_rank :: "bool \<Rightarrow> body_point \<Rightarrow> nat" where
  "body_point_rank eof BpOuter = (if eof then 1 else 4)"
| "body_point_rank eof BpInner = 3"
| "body_point_rank eof BpFlush = 2"
| "body_point_rank eof BpFinal = 0"

definition posting_patience :: "('f \<Rightarrow> 'w \<Rightarrow> nat) \<Rightarrow> ('f, script) body_sender \<Rightarrow> 'w \<Rightarrow> patience" where
  "posting_patience rank s w =
     (if by_eof s then 0 else Suc (length (by_body s)), rank (by_framed s) w, body_point_rank (by_eof s) (by_point s))"

lemma h1_body_fine:
  assumes works: "sink_works lib written rank" and script: "scripted_body bb" and inv: "posting written whole s w"
    and flushing: "by_point s = BpFlush \<Longrightarrow> \<not> fk_empty lib (by_framed s)"
  shows "\<exists>p s' w'. h1_body_step lib bb s w = (p, s', w') \<and>
    ((p = None \<or> p = Some Pending) \<and> posting written whole s' w' \<and>
       (by_point s' = BpFlush \<longrightarrow> \<not> fk_empty lib (by_framed s')) \<and>
       (posting_patience rank s' w', posting_patience rank s w) \<in> less_patience \<or>
     (\<exists>a. p = Some (Ready a) \<and> a = Ok () \<and> written (by_framed s') = whole \<and> fk_empty lib (by_framed s')))"
proof -
  note poll = script [unfolded scripted_body_def, rule_format]
  note defs = h1_body_step_def posting_def body_left_def posting_patience_def
  show ?thesis
  proof (cases "by_point s")
    case BpOuter
    with inv show ?thesis by (auto simp: defs)
  next
    case BpInner
    show ?thesis
    proof (cases "\<not> by_eof s \<and> \<not> fk_full lib (by_framed s)")
      case False
      with BpInner inv sink_full [OF works, of "by_framed s"] show ?thesis by (auto simp: defs)
    next
      case True
      show ?thesis
      proof (cases "by_body s")
        case Nil
        obtain f' where "fk_write lib (Chunk None) (by_framed s) = (Ok (), f')" "written f' = written (by_framed s) @ [Chunk None]"
          using sink_writes [OF works] .
        with Nil True BpInner inv show ?thesis by (simp add: defs poll)
      next
        case (Cons p sc)
        show ?thesis
        proof (cases p)
          case None
          with Cons True BpInner inv show ?thesis by (simp add: defs poll)
        next
          case (Some b)
          obtain f' where "fk_write lib (Chunk (Some b)) (by_framed s) = (Ok (), f')"
              "written f' = written (by_framed s) @ [Chunk (Some b)]" using sink_writes [OF works] .
          with Some Cons True BpInner inv show ?thesis by (auto simp: defs poll)
        qed
      qed
    qed
  next
    case BpFlush
    show ?thesis
      by (rule sink_flushes [OF works, of "by_framed s" w]) (use BpFlush inv flushing in \<open>auto simp: defs\<close>)
  next
    case BpFinal
    show ?thesis
      by (rule sink_flushes [OF works, of "by_framed s" w]) (use BpFinal inv in \<open>auto simp: defs\<close>)
  qed
qed

text \<open>
  Over a transport that flushes after some time, sending the body of a request returns, and has written every piece and the end,
  in order, and flushed them.
\<close>

theorem h1_body_complete:
  assumes "sink_works lib written rank" and "scripted_body bb"
  shows "\<exists>s w'. h1_send_body lib bb sc f w = Some (Ok (), s, w') \<and>
    written (by_framed s) = written f @ script_chunks sc \<and> fk_empty lib (by_framed s)"
proof -
  let ?whole = "written f @ script_chunks sc"
  let ?keeps = "\<lambda>s w. posting written ?whole s w \<and> (by_point s = BpFlush \<longrightarrow> \<not> fk_empty lib (by_framed s))"
  have "\<exists>a s w'. await_future (poll_loop (h1_body_step lib bb))
      \<lparr>by_body = sc, by_eof = False, by_framed = f, by_point = BpOuter\<rparr> w = Some (a, s, w') \<and>
      (a = Ok () \<and> written (by_framed s) = ?whole \<and> fk_empty lib (by_framed s))"
  proof (rule await_rule [where keeps = ?keeps and m = "posting_patience rank"])
    show "\<exists>p d' w'. h1_body_step lib bb d v = (p, d', w') \<and>
        ((p = None \<or> p = Some Pending) \<and> ?keeps d' w' \<and> (posting_patience rank d' w', posting_patience rank d v) \<in> less_patience \<or>
         (\<exists>a. p = Some (Ready a) \<and> (a = Ok () \<and> written (by_framed d') = ?whole \<and> fk_empty lib (by_framed d'))))"
      if "?keeps d v" for d v
      using h1_body_fine [OF assms, of ?whole d v] that by (simp add: conj_assoc)
  qed (simp add: posting_def body_left_def)
  then show ?thesis by (simp add: h1_send_body_def)
qed

section \<open>Witnesses\<close>

text \<open>A transport that takes one message before it is full and needs two polls to flush.\<close>

type_synonym 'i demo_transport = "'i message list \<times> nat"

definition demo_sink :: "('i, 'i demo_transport, unit) framed_sink" where
  "demo_sink = \<lparr>fk_full = (\<lambda>f. snd f > 0), fk_empty = (\<lambda>f. snd f = 0), fk_write = (\<lambda>m f. (Ok (), (fst f @ [m], 2))),
     fk_flush = (\<lambda>f w. if snd f \<le> 1 then (Ready (Ok ()), (fst f, 0), w) else (Pending, (fst f, snd f - 1), w))\<rparr>"

lemma demo_sink_works: "sink_works demo_sink fst (\<lambda>f w. snd f)"
  by (auto simp: sink_works_def demo_sink_def)

definition demo_script_body :: "(script, unit) message_body" where
  "demo_script_body = \<lparr>mb_size = (\<lambda>b. SzStream), mb_poll = script_poll\<rparr>"

definition demo_page :: "(script, unit) response" where
  "demo_page = \<lparr>re_head = response_head_new 200, re_body = RbBody [Some [1, 2], None, Some [3]], re_error = None\<rparr>"

definition demo_boxed_body :: "(unit, unit) message_body" where
  "demo_boxed_body = \<lparr>mb_size = (\<lambda>b. SzNone), mb_poll = (\<lambda>b w. (Pending, b, w))\<rparr>"

lemma send_response_complete_witness:
  "\<exists>f' sp w'. await_future (send_response_poll demo_sink demo_script_body demo_boxed_body)
      (send_response_new demo_script_body demo_boxed_body ([], 0) demo_page, AtLoop) () = Some (Return (Ok f'), sp, w') \<and>
    fst f' = [Item (fst (into_parts demo_page), SzStream), Chunk (Some [1, 2]), Chunk (Some [3]), Chunk None] \<and> fk_empty demo_sink f'"
  using send_response_complete [OF demo_sink_works, of demo_script_body demo_page "[Some [1, 2], None, Some [3]]" demo_boxed_body "([], 0)" "()"]
  by (simp add: scripted_body_def demo_script_body_def demo_page_def)

lemma h1_body_complete_witness:
  "\<exists>s w'. h1_send_body demo_sink demo_script_body [Some [1, 2], None, Some [3]] ([], 0) () = Some (Ok (), s, w') \<and>
     fst (by_framed s) = [Chunk (Some [1, 2]), Chunk (Some [3]), Chunk None] \<and> fk_empty demo_sink (by_framed s)"
  using h1_body_complete [OF demo_sink_works, of demo_script_body "[Some [1, 2], None, Some [3]]" "([], 0)" "()"]
  by (simp add: scripted_body_def demo_script_body_def)

end
