(* ===== verification/H2_Client.thy ===== *)
theory H2_Client
  imports H2_Dispatcher H1_Client
begin

text \<open>
  A request over HTTP/2 (\<open>client/h2proto.rs\<close>): its head, its body, the release of the connection, and the head of the response.
  The crate \<open>h2\<close> is a parameter as in \<open>H2_Dispatcher\<close>; what the function awaits it polls until it is ready.
\<close>

section \<open>Operations\<close>

record 'm h2_request_line =
  hq_uri :: bytes
  hq_method :: http_method
  hq_version :: http_version
  hq_headers :: 'm

record 'm response_parts =
  hs_status :: status_code
  hs_version :: http_version
  hs_headers :: 'm

record ('m, 's, 'q, 'p, 'b, 'w) h2_client_env =
  kc_http :: http_lib
  kc_hmap :: "'m hmap_lib"
  kc_send :: "('s, 'w) send_lib"
  kc_visit :: "header_map \<Rightarrow> header_map"
  kc_is_io :: "h2_error \<Rightarrow> bool"
  kc_ready :: "'w \<Rightarrow> (unit, h2_error) result poll \<times> 'w"
  kc_request :: "'m h2_request_line \<Rightarrow> bool \<Rightarrow> 'w \<Rightarrow> ('q \<times> 's, h2_error) result \<times> 'w"
  kc_answer :: "'q \<Rightarrow> 'w \<Rightarrow> ('m response_parts \<times> 'p, h2_error) result poll \<times> 'w"
  kc_body :: "('b, 'w) message_body"

text \<open>Is there a body, and is the caller's length left out?\<close>

definition no_request_body :: "body_size \<Rightarrow> bool" where
  "no_request_body sz \<longleftrightarrow> sz = SzNone \<or> sz = SzEmpty \<or> sz = SzSized 0"

definition keep_length :: "body_size \<Rightarrow> bool" where
  "keep_length sz \<longleftrightarrow> sz = SzStream"

definition request_items :: "('m, 's, 'q, 'p, 'b, 'w) h2_client_env \<Rightarrow> request_head_type \<Rightarrow> (header_name \<times> header_value) list" where
  "request_items env head =
     (let extra = (case rht_extra_headers head of Some e \<Rightarrow> e | None \<Rightarrow> hm_new)
      in filter (\<lambda>kv. \<not> hm_contains_key (kc_http env) extra (ByName (fst kv))) (visit_items (kc_visit env) (rq_headers (rht_head head))) @
         visit_items (kc_visit env) extra)"

definition h2_request_of ::
  "('m, 's, 'q, 'p, 'b, 'w) h2_client_env \<Rightarrow> request_head_type \<Rightarrow> body_size \<Rightarrow> 'm h2_request_line" where
  "h2_request_of env head sz =
     (let m = h2_length (kc_hmap env) sz (hh_new (kc_hmap env));
          (has_date, m) = h2_copy (kc_hmap env) (\<not> keep_length sz) (request_items env head) (False, m)
      in \<lparr>hq_uri = rq_uri (rht_head head), hq_method = rq_method (rht_head head), hq_version = HTTP_2, hq_headers = m\<rparr>)"

definition h2_release :: "'io \<Rightarrow> bool \<Rightarrow> bool \<Rightarrow> 'io pool_call list" where
  "h2_release io pool close = (if pool then (if close then [PoolClose io] else [PoolRelease io]) else [])"

text \<open>An iteration of \<open>send_body\<close>; the state is the body and the buffer.\<close>

definition body_step ::
  "('m, 's, 'q, 'p, 'b, 'w) h2_client_env \<Rightarrow> 's \<Rightarrow> 'b \<times> bytes option \<Rightarrow> 'w \<Rightarrow>
   (unit, unit send_request_error) result poll option \<times> ('b \<times> bytes option) \<times> 'w" where
  "body_step env send s w =
     (case s of
        (body, None) \<Rightarrow>
          (case mb_poll (kc_body env) body w of
             (Pending, body, w) \<Rightarrow> (Some Pending, (body, None), w)
           | (Ready (Some (Ok b)), body, w) \<Rightarrow> (None, (body, Some b), sl_reserve (kc_send env) send (length b) w)
           | (Ready (Some (Err e)), body, w) \<Rightarrow> (Some (Ready (Err (SeBody e))), (body, None), w)
           | (Ready None, body, w) \<Rightarrow>
               (case sl_send (kc_send env) send [] True w of
                  (Err e, w) \<Rightarrow> (Some (Ready (Err (SeH2 e))), (body, None), w)
                | (Ok _, w) \<Rightarrow> (Some (Ready (Ok ())), (body, None), sl_reserve (kc_send env) send 0 w)))
      | (body, Some b) \<Rightarrow>
          (case sl_capacity (kc_send env) send w of
             (Pending, w) \<Rightarrow> (Some Pending, (body, Some b), w)
           | (Ready None, w) \<Rightarrow> (Some (Ready (Ok ())), (body, Some b), w)
           | (Ready (Some (Ok cap)), w) \<Rightarrow>
               (let len = length b; piece = take (min cap len) b; b = drop (min cap len) b
                in case sl_send (kc_send env) send piece False w of
                     (Err e, w) \<Rightarrow> (Some (Ready (Err (SeH2 e))), (body, Some b), w)
                   | (Ok _, w) \<Rightarrow>
                       if b \<noteq> [] then (None, (body, Some b), sl_reserve (kc_send env) send (length b) w)
                       else (None, (body, None), w))
           | (Ready (Some (Err e)), w) \<Rightarrow> (Some (Ready (Err (SeH2 e))), (body, Some b), w)))"

definition h2_send_body ::
  "('m, 's, 'q, 'p, 'b, 'w) h2_client_env \<Rightarrow> 's \<Rightarrow> 'b \<Rightarrow> 'w \<Rightarrow> ((unit, unit send_request_error) result \<times> ('b \<times> bytes option) \<times> 'w) option" where
  "h2_send_body env send body w = await_future (poll_loop (body_step env send)) (body, None) w"

definition response_of ::
  "('m, 's, 'q, 'p, 'b, 'w) h2_client_env \<Rightarrow> bool \<Rightarrow> 'm response_parts \<times> 'p \<Rightarrow> response_head \<times> (unit, 'p, unit) payload" where
  "response_of env head_req resp =
     (let (parts, body) = resp; payload = (if head_req then PayloadNone else PayloadH2 body)
      in ((response_head_new (hs_status parts))\<lparr>rs_version := hs_version parts,
            rs_headers := hm_from_http (kc_hmap env) (hs_headers parts)\<rparr>, payload))"

type_synonym ('p, 'io, 'w) h2_outcome =
  "(response_head \<times> (unit, 'p, unit) payload, unit send_request_error) result \<times> 'io pool_call list \<times> 'w"

text \<open>Waiting for the answer.\<close>

definition await_answer ::
  "('m, 's, 'q, 'p, 'b, 'w) h2_client_env \<Rightarrow> bool \<Rightarrow> 'q \<Rightarrow> 'io pool_call list \<Rightarrow> 'w \<Rightarrow> ('p, 'io, 'w) h2_outcome option" where
  "await_answer env head_req fut calls w =
     Option.bind (until_ready (kc_answer env fut) w) (\<lambda>(r, w).
       Some (case r of Ok resp \<Rightarrow> Ok (response_of env head_req resp) | Err e \<Rightarrow> Err (SeH2 e), calls, w))"

definition h2_send_request ::
  "('m, 's, 'q, 'p, 'b, 'w) h2_client_env \<Rightarrow> 'io \<Rightarrow> bool \<Rightarrow> request_head_type \<Rightarrow> 'b \<Rightarrow> 'w \<Rightarrow> ('p, 'io, 'w) h2_outcome option" where
  "h2_send_request env io pool head body w =
     (let head_req = (rq_method (rht_head head) = METHOD_HEAD); sz = mb_size (kc_body env) body; eof = no_request_body sz;
          req = h2_request_of env head sz
      in Option.bind (until_ready (kc_ready env) w) (\<lambda>(res, w).
           case res of
             Err e \<Rightarrow> Some (Err (SeH2 e), h2_release io pool (kc_is_io env e), w)
           | Ok _ \<Rightarrow>
               (case kc_request env req eof w of
                  (Err e, w) \<Rightarrow> Some (Err (SeH2 e), h2_release io pool (kc_is_io env e), w)
                | (Ok (fut, send), w) \<Rightarrow>
                    (let calls = h2_release io pool False
                     in if eof then await_answer env head_req fut calls w
                        else Option.bind (h2_send_body env send body w) (\<lambda>(r, s, w).
                               case r of
                                 Err e \<Rightarrow> Some (Err e, calls, w)
                               | Ok _ \<Rightarrow> await_answer env head_req fut calls w)))))"

section \<open>The head\<close>

text \<open>The values of a name after merging: extra headers replace those of the head.\<close>

definition merged_values :: "request_head_type \<Rightarrow> header_name \<Rightarrow> header_value list" where
  "merged_values head n =
     (case rht_extra_headers head of
        Some e \<Rightarrow> if map_of e n \<noteq> None then hm_values e n else hm_values (rq_headers (rht_head head)) n
      | None \<Rightarrow> hm_values (rq_headers (rht_head head)) n)"

definition visits_all :: "(header_map \<Rightarrow> header_map) \<Rightarrow> header_map \<Rightarrow> bool" where
  "visits_all visit h \<longleftrightarrow> hm_wf h \<and> mset (visit h) = mset h"

lemma request_items_values:
  assumes "visits_all (kc_visit env) (rq_headers (rht_head head))"
    and "visits_all (kc_visit env) (case rht_extra_headers head of Some e \<Rightarrow> e | None \<Rightarrow> hm_new)"
  shows "map snd (filter (\<lambda>kv. fst kv = n) (request_items env head)) = merged_values head n"
proof -
  let ?extra = "case rht_extra_headers head of Some e \<Rightarrow> e | None \<Rightarrow> hm_new"
  let ?here = "\<lambda>h. map snd (filter (\<lambda>kv. fst kv = n) (visit_items (kc_visit env) h))"
  have here: "?here (rq_headers (rht_head head)) = hm_values (rq_headers (rht_head head)) n" "?here ?extra = hm_values ?extra n"
    using assms by (auto simp: visits_all_def intro: visit_items_values)
  have contains: "hm_contains_key (kc_http env) ?extra (ByName k) \<longleftrightarrow> map_of ?extra k \<noteq> None" for k
    by (simp add: hm_contains_key_def as_name_def)
  have "filter (\<lambda>kv. fst kv = n) (filter (\<lambda>kv. map_of ?extra (fst kv) = None) kvs) =
      (if map_of ?extra n = None then filter (\<lambda>kv. fst kv = n) kvs else [])" for kvs :: "(header_name \<times> header_value) list"
    by (induction kvs) auto
  then have "map snd (filter (\<lambda>kv. fst kv = n) (request_items env head)) =
      (if map_of ?extra n = None then ?here (rq_headers (rht_head head)) else []) @ ?here ?extra"
    unfolding request_items_def Let_def contains by simp
  then show ?thesis unfolding here merged_values_def
    by (cases "rht_extra_headers head") (auto simp: hm_new_def hm_values_def split: option.split)
qed

text \<open>
  The head of a request over HTTP/2: method and target of the head, no connection headers, the length of the body when it is
  known, and otherwise the headers with the extra ones in their place.
\<close>

theorem h2_request_exact:
  assumes "hmap_ok (kc_hmap env) vals" and "visits_all (kc_visit env) (rq_headers (rht_head head))"
    and "visits_all (kc_visit env) (case rht_extra_headers head of Some e \<Rightarrow> e | None \<Rightarrow> hm_new)"
  shows "hq_method (h2_request_of env head sz) = rq_method (rht_head head) \<and> hq_uri (h2_request_of env head sz) = rq_uri (rht_head head) \<and>
    hq_version (h2_request_of env head sz) = HTTP_2 \<and>
    vals (hq_headers (h2_request_of env head sz)) n =
      (if n = CONNECTION \<or> n = TRANSFER_ENCODING then []
       else if n = CONTENT_LENGTH \<and> sz \<noteq> SzStream then length_value sz
       else merged_values head n)"
proof -
  let ?m = "h2_length (kc_hmap env) sz (hh_new (kc_hmap env))"
  have "hq_headers (h2_request_of env head sz) = snd (h2_copy (kc_hmap env) (\<not> keep_length sz) (request_items env head) (False, ?m))"
    by (simp add: h2_request_of_def split: prod.split)
  moreover have "length_value sz = []" if "sz = SzStream" using that by simp
  ultimately show ?thesis
    using header_names_differ
    by (auto simp: h2_copy_vals [OF assms(1)] h2_length_vals [OF assms(1)] request_items_values [OF assms(2,3)]
        h2_dropped_def keep_length_def) (auto simp: h2_request_of_def split: prod.splits)
qed

section \<open>The body\<close>

definition uploading ::
  "('w \<Rightarrow> bytes \<times> bool) \<Rightarrow> ('w \<Rightarrow> nat) \<Rightarrow> bytes \<Rightarrow> script \<times> bytes option \<Rightarrow> 'w \<Rightarrow> bool" where
  "uploading sent want whole s w \<longleftrightarrow>
     list_all (\<lambda>p. p \<noteq> Some []) (fst s) \<and> \<not> snd (sent w) \<and>
     (case snd s of
        None \<Rightarrow> fst (sent w) @ script_data (fst s) = whole
      | Some b \<Rightarrow> b \<noteq> [] \<and> 0 < want w \<and> fst (sent w) @ b @ script_data (fst s) = whole)"

definition upload_patience :: "('w \<Rightarrow> nat) \<Rightarrow> script \<times> bytes option \<Rightarrow> 'w \<Rightarrow> patience" where
  "upload_patience rank s w = (length (fst s), case snd s of None \<Rightarrow> 0 | Some b \<Rightarrow> length b, rank w)"

lemma body_uploads:
  assumes works: "stream_works (kc_send env) st sent want rank" and body: "scripted_body (kc_body env)"
    and up: "uploading sent want whole s w"
  shows "\<exists>p s' w'. body_step env st s w = (p, s', w') \<and>
    ((p = None \<or> p = Some Pending) \<and> uploading sent want whole s' w' \<and>
       (upload_patience rank s' w', upload_patience rank s w) \<in> less_patience \<or>
     (\<exists>a. p = Some (Ready a) \<and> a = Ok () \<and> sent w' = (whole, True)))"
proof -
  note lib = stream_worksD [OF works]
  have poll: "mb_poll (kc_body env) sc' w' = script_poll sc' w'" for sc' w' using body by (simp add: scripted_body_def)
  obtain sc buf where s: "s = (sc, buf)" by (cases s)
  note inv = up [unfolded uploading_def s fst_conv snd_conv]
  show ?thesis
  proof (cases buf)
    case None
    show ?thesis
    proof (cases sc)
      case Nil
      obtain w' where "sl_send (kc_send env) st [] True w = (Ok (), w')" "sent w' = (fst (sent w) @ [], True)"
        using lib(4) [of w "[]" True] inv by blast
      with None Nil inv show ?thesis by (simp add: s body_step_def poll lib(1))
    next
      case (Cons p sc')
      with inv None show ?thesis
        by (cases p) (simp_all add: s body_step_def poll uploading_def upload_patience_def lib(1,2))
    qed
  next
    case (Some b)
    with inv have b: "b \<noteq> []" "0 < want w" "fst (sent w) @ b @ script_data sc = whole" "\<not> snd (sent w)" by simp_all
    consider (wait) w' where "sl_capacity (kc_send env) st w = (Pending, w')" "sent w' = sent w" "want w' = want w" "rank w' < rank w"
      | (granted) c w1 where "sl_capacity (kc_send env) st w = (Ready (Some (Ok c)), w1)" "0 < c" "sent w1 = sent w"
      using lib(3) [OF b(2)] by blast
    then show ?thesis
    proof cases
      case wait
      with Some inv show ?thesis by (simp add: s body_step_def uploading_def upload_patience_def)
    next
      case granted
      obtain w2 where w2: "sl_send (kc_send env) st (take (min c (length b)) b) False w1 = (Ok (), w2)"
          "sent w2 = (fst (sent w) @ take (min c (length b)) b, False)"
        using lib(4) [of w1 "take (min c (length b)) b" False] b(4) granted(3) by auto
      have "fst (sent w) @ take c b @ drop c b @ script_data sc = whole" using b(3) by (metis append.assoc append_take_drop_id)
      with Some inv b granted w2 show ?thesis
        by (cases "length b \<le> c") (simp_all add: s body_step_def uploading_def upload_patience_def lib(1,2))
    qed
  qed
qed

text \<open>The body of a request is sent whole, in order, and then its end; sending returns.\<close>

theorem h2_body_sent:
  assumes "stream_works (kc_send env) st sent want rank" and "scripted_body (kc_body env)"
    and "list_all (\<lambda>p. p \<noteq> Some []) sc" and "sent w = ([], False)"
  shows "\<exists>s' w'. h2_send_body env st sc w = Some (Ok (), s', w') \<and> sent w' = (script_data sc, True)"
proof -
  have "uploading sent want (script_data sc) (sc, None) w" using assms(3,4) by (simp add: uploading_def)
  from await_rule [where post = "\<lambda>a s w. a = Ok () \<and> sent w = (script_data sc, True)", OF body_uploads [OF assms(1,2)] this]
  show ?thesis unfolding h2_send_body_def by blast
qed

section \<open>The connection\<close>

text \<open>
  On every path a request gives its connection back to the pool exactly once, before the answer has come; it is closed
  only after an I/O error of the connection.
\<close>

theorem h2_connection_returned:
  assumes "h2_send_request env io True head body w = Some (r, calls, w')"
  shows "calls = [PoolRelease io] \<or> calls = [PoolClose io] \<and> (\<exists>e. r = Err (SeH2 e) \<and> kc_is_io env e)"
proof -
  have ans: "calls' = calls" if "await_answer env hd fut calls' v = Some (r, calls, w')" for hd fut calls' v
    using that by (auto simp: await_answer_def split: Option.bind_splits)
  show ?thesis
    using assms by (auto simp: h2_send_request_def h2_release_def Let_def dest: ans
        split: Option.bind_splits result.splits prod.splits if_splits)
qed

section \<open>Witnesses\<close>

definition demo_client_env ::
  "((header_name \<times> header_value) list, unit, unit, unit, script, demo_wire) h2_client_env" where
  "demo_client_env = \<lparr>kc_http = demo_http, kc_hmap = demo_hmap, kc_send = demo_send, kc_visit = rev, kc_is_io = (\<lambda>e. e = ''io''),
     kc_ready = (\<lambda>w. (Ready (Ok ()), w)), kc_request = (\<lambda>req eof w. (Ok ((), ()), w)),
     kc_answer = (\<lambda>q w. (Ready (Ok (\<lparr>hs_status = 200, hs_version = HTTP_2, hs_headers = []\<rparr>, ())), w)),
     kc_body = \<lparr>mb_size = (\<lambda>b. SzStream), mb_poll = script_poll\<rparr>\<rparr>"

definition demo_head :: request_head_type where
  "demo_head = Shared (request_head_default\<lparr>rq_headers := [(CONNECTION, One [1]), (bstr ''via'', One [2])]\<rparr>)
     (Some [(bstr ''via'', Multi [[3], [4]])])"

lemma h2_request_exact_witness:
  "demo_vals (hq_headers (h2_request_of demo_client_env demo_head SzEmpty)) CONNECTION = [] \<and>
   demo_vals (hq_headers (h2_request_of demo_client_env demo_head SzEmpty)) CONTENT_LENGTH = [bstr ''0''] \<and>
   demo_vals (hq_headers (h2_request_of demo_client_env demo_head SzEmpty)) (bstr ''via'') = [[3], [4]]"
proof -
  have "hmap_ok (kc_hmap demo_client_env) demo_vals"
      "visits_all (kc_visit demo_client_env) (rq_headers (rht_head demo_head))"
      "visits_all (kc_visit demo_client_env) (case rht_extra_headers demo_head of Some e \<Rightarrow> e | None \<Rightarrow> hm_new)"
    using demo_hmap_ok by (auto simp: demo_client_env_def visits_all_def demo_head_def hm_wf_def value_wf_def CONNECTION_def)
  note exact = h2_request_exact [OF this, of SzEmpty]
  show ?thesis
    using exact [of CONNECTION] exact [of CONTENT_LENGTH] exact [of "bstr ''via''"] header_names_differ
    by (simp add: merged_values_def demo_head_def hm_values_def CONNECTION_def CONTENT_LENGTH_def TRANSFER_ENCODING_def)
qed

lemma demo_client_parts: "kc_send demo_client_env = demo_send" "scripted_body (kc_body demo_client_env)"
  by (simp_all add: demo_client_env_def scripted_body_def)

lemma h2_body_sent_witness:
  "\<exists>s' w'. h2_send_body demo_client_env () [Some [1, 2], None, Some [3]] (([], False), 0) = Some (Ok (), s', w') \<and>
     fst w' = ([1, 2, 3], True)"
  using h2_body_sent [of demo_client_env "()" fst snd "\<lambda>w. 0" "[Some [1, 2], None, Some [3]]" "(([], False), 0)"]
    demo_stream_works demo_client_parts by simp

lemma demo_body_sent: "h2_send_body demo_client_env () [] (([], False), 0) = Some (Ok (), ([], None), (([], True), 0))"
  by (simp add: h2_send_body_def demo_client_env_def demo_send_def await_ready body_step_def)

lemma h2_connection_returned_witness:
  "[PoolRelease (7 :: nat)] = [PoolRelease 7] \<or> [PoolRelease 7] = [PoolClose (7 :: nat)] \<and>
     (\<exists>e. Ok (response_of demo_client_env False (\<lparr>hs_status = 200, hs_version = HTTP_2, hs_headers = []\<rparr>, ())) = Err (SeH2 e :: unit send_request_error) \<and>
       kc_is_io demo_client_env e)"
proof -
  let ?h = "Owned request_head_default"
  have "h2_send_request demo_client_env (7 :: nat) True ?h [] (([], False), 0) =
      Some (Ok (response_of demo_client_env False (\<lparr>hs_status = 200, hs_version = HTTP_2, hs_headers = []\<rparr>, ())), [PoolRelease 7], (([], True), 0))"
    using demo_body_sent
    by (simp add: h2_send_request_def demo_client_env_def until_ready_now h2_release_def await_answer_def no_request_body_def
        request_head_default_def METHOD_HEAD_def METHOD_GET_def)
  from h2_connection_returned [OF this] show ?thesis .
qed

end
