(* ===== verification/Client_Connection.thy ===== *)
theory Client_Connection
  imports H1_Send H2_Client Client_Pool
begin

text \<open>
  The client's connector and its connections (\<open>client/connector.rs\<close>, \<open>client/connection.rs\<close>): how a connector is configured,
  which pool a request goes to, and how a connection sends a request over the protocol it speaks. Opening TCP and TLS streams,
  with the timeout around it, belongs to other crates; their outcome is an argument.
\<close>

section \<open>The connector\<close>

record 't connector =
  cn_connector :: 't
  cn_timeout :: nat
  cn_conn_lifetime :: nat
  cn_conn_keep_alive :: nat
  cn_disconnect_timeout :: nat
  cn_limit :: nat

text \<open>Durations are in milliseconds.\<close>

definition connector_new :: "'t \<Rightarrow> 't connector" where
  "connector_new default_connector = \<lparr>cn_connector = default_connector, cn_timeout = 1000, cn_conn_lifetime = 75000,
     cn_conn_keep_alive = 15000, cn_disconnect_timeout = 3000, cn_limit = 100\<rparr>"

definition with_connector :: "'u \<Rightarrow> 't connector \<Rightarrow> 'u connector" where
  "with_connector connector c = \<lparr>cn_connector = connector, cn_timeout = cn_timeout c, cn_conn_lifetime = cn_conn_lifetime c,
     cn_conn_keep_alive = cn_conn_keep_alive c, cn_disconnect_timeout = cn_disconnect_timeout c, cn_limit = cn_limit c\<rparr>"

definition with_timeout :: "nat \<Rightarrow> 't connector \<Rightarrow> 't connector" where
  "with_timeout timeout c = c\<lparr>cn_timeout := timeout\<rparr>"

definition with_limit :: "nat \<Rightarrow> 't connector \<Rightarrow> 't connector" where
  "with_limit limit c = c\<lparr>cn_limit := limit\<rparr>"

definition with_keep_alive :: "nat \<Rightarrow> 't connector \<Rightarrow> 't connector" where
  "with_keep_alive dur c = c\<lparr>cn_conn_keep_alive := dur\<rparr>"

definition with_lifetime :: "nat \<Rightarrow> 't connector \<Rightarrow> 't connector" where
  "with_lifetime dur c = c\<lparr>cn_conn_lifetime := dur\<rparr>"

definition with_disconnect_timeout :: "nat \<Rightarrow> 't connector \<Rightarrow> 't connector" where
  "with_disconnect_timeout dur c = c\<lparr>cn_disconnect_timeout := dur\<rparr>"

text \<open>What opening a stream comes to; an inner error is that of the service under the timeout.\<close>

datatype 'e timeout_error = ToService 'e | ToTimeout

fun connect_failure :: "connect_error timeout_error \<Rightarrow> connect_error" where
  "connect_failure (ToService e) = e"
| "connect_failure ToTimeout = CeTimeout"

text \<open>The negotiated protocols of a TLS stream.\<close>

definition stream_protocol :: "bytes option \<Rightarrow> protocol" where
  "stream_protocol protos =
     (let h2 = (case protos of Some p \<Rightarrow> contains_str p (bstr ''h2'') | None \<Rightarrow> False) in if h2 then Http2 else Http1)"

definition tcp_opened :: "('io, connect_error) result \<Rightarrow> ('io \<times> protocol, connect_error) result" where
  "tcp_opened r = (case r of Ok io \<Rightarrow> Ok (io, Http1) | Err e \<Rightarrow> Err e)"

definition tls_opened :: "('io \<times> bytes option, connect_error) result \<Rightarrow> ('io \<times> protocol, connect_error) result" where
  "tls_opened r = (case r of Ok (sock, protos) \<Rightarrow> Ok (sock, stream_protocol protos) | Err e \<Rightarrow> Err e)"

section \<open>The pools of the connector\<close>

text \<open>A build without TLS has one pool, a build with TLS has two.\<close>

record 'io plain_connector =
  pc_tcp_pool :: "'io system"

record ('io, 'io2) tls_connector =
  tc_tcp_pool :: "'io system"
  tc_ssl_pool :: "'io2 system"

definition finish_plain :: "'t connector \<Rightarrow> 'io plain_connector" where
  "finish_plain c = \<lparr>pc_tcp_pool = system_new (cn_conn_lifetime c) (cn_conn_keep_alive c) None (cn_limit c)\<rparr>"

definition finish_tls :: "'t connector \<Rightarrow> ('io, 'io2) tls_connector" where
  "finish_tls c =
     \<lparr>tc_tcp_pool = system_new (cn_conn_lifetime c) (cn_conn_keep_alive c) None (cn_limit c),
      tc_ssl_pool = system_new (cn_conn_lifetime c) (cn_conn_keep_alive c) (Some (cn_disconnect_timeout c)) (cn_limit c)\<rparr>"

text \<open>A request to connect: scheme and authority of its URI.\<close>

record connect =
  co_scheme :: "string option"
  co_authority :: "key option"

definition secure_scheme :: "string option \<Rightarrow> bool" where
  "secure_scheme scheme \<longleftrightarrow> scheme = Some ''https'' \<or> scheme = Some ''wss''"

definition plain_call ::
  "nat \<Rightarrow> ('io \<Rightarrow> probe) \<Rightarrow> token \<Rightarrow> connect \<Rightarrow> 'io plain_connector \<Rightarrow> ('io plain_connector, connect_error) result exec" where
  "plain_call now probe t req c =
     (if secure_scheme (co_scheme req) then Return (Err CeSslIsNotSupported)
      else (case sys_call now probe t (co_authority req) (pc_tcp_pool c) of
              Panic \<Rightarrow> Panic
            | Return s \<Rightarrow> Return (Ok (c\<lparr>pc_tcp_pool := s\<rparr>))))"

definition tls_call ::
  "nat \<Rightarrow> ('io \<Rightarrow> probe) \<Rightarrow> ('io2 \<Rightarrow> probe) \<Rightarrow> token \<Rightarrow> connect \<Rightarrow> ('io, 'io2) tls_connector \<Rightarrow> ('io, 'io2) tls_connector exec" where
  "tls_call now probe probe2 t req c =
     (if secure_scheme (co_scheme req) then
        (case sys_call now probe2 t (co_authority req) (tc_ssl_pool c) of
           Panic \<Rightarrow> Panic
         | Return s \<Rightarrow> Return (c\<lparr>tc_ssl_pool := s\<rparr>))
      else
        (case sys_call now probe t (co_authority req) (tc_tcp_pool c) of
           Panic \<Rightarrow> Panic
         | Return s \<Rightarrow> Return (c\<lparr>tc_tcp_pool := s\<rparr>)))"

text \<open>Only the service of the plain pool is asked whether it is ready.\<close>

definition tls_poll_ready :: "('w \<Rightarrow> (unit, connect_error) result poll \<times> 'w) \<Rightarrow> 'w \<Rightarrow> (unit, connect_error) result poll \<times> 'w" where
  "tls_poll_ready tcp_ready w = tcp_ready w"

section \<open>A connection\<close>

record 'io io_connection =
  ic_io :: "'io connection option"
  ic_created :: nat
  ic_pool :: bool

definition io_connection_new :: "'io connection \<Rightarrow> nat \<Rightarrow> bool \<Rightarrow> 'io io_connection" where
  "io_connection_new io created pool = \<lparr>ic_io = Some io, ic_created = created, ic_pool = pool\<rparr>"

definition into_inner :: "'io io_connection \<Rightarrow> ('io connection \<times> nat) exec" where
  "into_inner c = (case ic_io c of None \<Rightarrow> Panic | Some io \<Rightarrow> Return (io, ic_created c))"

definition conn_debug :: "('io \<Rightarrow> bytes) \<Rightarrow> 'io io_connection \<Rightarrow> bytes" where
  "conn_debug debug c =
     (case ic_io c of
        Some (ConnH1 io) \<Rightarrow> bstr ''H1Connection('' @ debug io @ bstr '')''
      | Some (ConnH2 io) \<Rightarrow> bstr ''H2Connection''
      | None \<Rightarrow> bstr ''Connection(Empty)'')"

definition conn_protocol :: "'io io_connection \<Rightarrow> protocol" where
  "conn_protocol c =
     (case ic_io c of Some (ConnH1 io) \<Rightarrow> Http1 | Some (ConnH2 io) \<Rightarrow> Http2 | None \<Rightarrow> Http1)"

text \<open>The answers of both protocols, with what they did to the pool. The payload of a response over HTTP/1 is its stream.\<close>

type_synonym ('f, 'p, 'io, 'w) conn_outcome =
  "((response_head \<times> (unit, 'p, 'f pl_stream) payload, unit send_request_error) result \<times> 'io pool_call list) \<times> 'w"

definition h1_payload :: "'f pl_stream \<Rightarrow> (unit, 'p, 'f pl_stream) payload" where
  "h1_payload pl = (case pl of None \<Rightarrow> PayloadNone | Some framed \<Rightarrow> PayloadStream (Some framed))"

fun h2_payload :: "(unit, 'p, unit) payload \<Rightarrow> (unit, 'p, 'f pl_stream) payload" where
  "h2_payload (PayloadH2 p) = PayloadH2 p"
| "h2_payload _ = PayloadNone"

definition from_h1 :: "('f, 'io, 'w) request_outcome \<Rightarrow> ('f, 'p, 'io, 'w) conn_outcome" where
  "from_h1 r = (case r of ((Ok (head, pl), calls), w) \<Rightarrow> ((Ok (head, h1_payload pl), calls), w) | ((Err e, calls), w) \<Rightarrow> ((Err e, calls), w))"

definition from_h2 :: "('p, 'io, 'w) h2_outcome \<Rightarrow> ('f, 'p, 'io, 'w) conn_outcome" where
  "from_h2 r = (case r of (Ok (head, pl), calls, w) \<Rightarrow> ((Ok (head, h2_payload pl), calls), w) | (Err e, calls, w) \<Rightarrow> ((Err e, calls), w))"

definition conn_send_request ::
  "('f, 'io, 'w) request_env \<Rightarrow> ('io \<Rightarrow> ('m, 's, 'q, 'p, 'b, 'w) h2_client_env) \<Rightarrow> ('b, 'w) message_body \<Rightarrow>
   'io io_connection \<Rightarrow> request_head_type \<Rightarrow> 'b \<Rightarrow> 'w \<Rightarrow> ('f, 'p, 'io, 'w) conn_outcome option exec" where
  "conn_send_request env1 env2 bb c head body w =
     (case ic_io c of
        None \<Rightarrow> Panic
      | Some (ConnH1 io) \<Rightarrow> Return (map_option from_h1 (h1_send_request env1 bb io (ic_pool c) head body w))
      | Some (ConnH2 io) \<Rightarrow> Return (map_option from_h2 (h2_send_request (env2 io) io (ic_pool c) head body w)))"

text \<open>
  A tunnel. The second component is what happens to the slot of the pool as soon as the function returns: over HTTP/1 the lease is
  dropped with the rest of the connection, over HTTP/2 the connection is given back.
\<close>

datatype 'io lease_end = LeaseDropped | LeaseCalls "'io pool_call list"

type_synonym ('f, 'w) tunnel_outcome = "((response_head \<times> 'f, unit send_request_error) result \<times> 'w) option"

definition conn_open_tunnel ::
  "('f, 'io, 'w) request_env \<Rightarrow> 'io io_connection \<Rightarrow> request_head_type \<Rightarrow> 'w \<Rightarrow> (('f, 'w) tunnel_outcome \<times> 'io lease_end) exec" where
  "conn_open_tunnel env c head w =
     (case ic_io c of
        None \<Rightarrow> Panic
      | Some (ConnH1 io) \<Rightarrow> Return (h1_open_tunnel env io head w, if ic_pool c then LeaseDropped else LeaseCalls [])
      | Some (ConnH2 io) \<Rightarrow>
          Return (Some (Err SeTunnelNotSupported, w), LeaseCalls (if ic_pool c then [PoolRelease io] else [])))"

section \<open>Plain or secure\<close>

datatype ('a, 'b) either_connection = EcA "'a io_connection" | EcB "'b io_connection"

datatype ('a, 'b) either_io = EiA 'a | EiB 'b

definition either_protocol :: "('a, 'b) either_connection \<Rightarrow> protocol" where
  "either_protocol c = (case c of EcA con \<Rightarrow> conn_protocol con | EcB con \<Rightarrow> conn_protocol con)"

text \<open>The operations of a stream.\<close>

record ('io, 'w) io_ops =
  io_read :: "'io \<Rightarrow> nat \<Rightarrow> 'w \<Rightarrow> (bytes, io_error) result poll \<times> 'io \<times> 'w"
  io_write :: "'io \<Rightarrow> bytes \<Rightarrow> 'w \<Rightarrow> (nat, io_error) result poll \<times> 'io \<times> 'w"
  io_flush :: "'io \<Rightarrow> 'w \<Rightarrow> (unit, io_error) result poll \<times> 'io \<times> 'w"
  io_shutdown :: "'io \<Rightarrow> 'w \<Rightarrow> (unit, io_error) result poll \<times> 'io \<times> 'w"

definition either_read ::
  "('a, 'w) io_ops \<Rightarrow> ('b, 'w) io_ops \<Rightarrow> ('a, 'b) either_io \<Rightarrow> nat \<Rightarrow> 'w \<Rightarrow> (bytes, io_error) result poll \<times> ('a, 'b) either_io \<times> 'w" where
  "either_read opa opb io len w =
     (case io of
        EiA val \<Rightarrow> (let (p, val, w) = io_read opa val len w in (p, EiA val, w))
      | EiB val \<Rightarrow> (let (p, val, w) = io_read opb val len w in (p, EiB val, w)))"

definition either_write ::
  "('a, 'w) io_ops \<Rightarrow> ('b, 'w) io_ops \<Rightarrow> ('a, 'b) either_io \<Rightarrow> bytes \<Rightarrow> 'w \<Rightarrow> (nat, io_error) result poll \<times> ('a, 'b) either_io \<times> 'w" where
  "either_write opa opb io bs w =
     (case io of
        EiA val \<Rightarrow> (let (p, val, w) = io_write opa val bs w in (p, EiA val, w))
      | EiB val \<Rightarrow> (let (p, val, w) = io_write opb val bs w in (p, EiB val, w)))"

definition either_flush ::
  "('a, 'w) io_ops \<Rightarrow> ('b, 'w) io_ops \<Rightarrow> ('a, 'b) either_io \<Rightarrow> 'w \<Rightarrow> (unit, io_error) result poll \<times> ('a, 'b) either_io \<times> 'w" where
  "either_flush opa opb io w =
     (case io of
        EiA val \<Rightarrow> (let (p, val, w) = io_flush opa val w in (p, EiA val, w))
      | EiB val \<Rightarrow> (let (p, val, w) = io_flush opb val w in (p, EiB val, w)))"

definition either_shutdown ::
  "('a, 'w) io_ops \<Rightarrow> ('b, 'w) io_ops \<Rightarrow> ('a, 'b) either_io \<Rightarrow> 'w \<Rightarrow> (unit, io_error) result poll \<times> ('a, 'b) either_io \<times> 'w" where
  "either_shutdown opa opb io w =
     (case io of
        EiA val \<Rightarrow> (let (p, val, w) = io_shutdown opa val w in (p, EiA val, w))
      | EiB val \<Rightarrow> (let (p, val, w) = io_shutdown opb val w in (p, EiB val, w)))"

section \<open>What holds of them\<close>

text \<open>Requests, one after the other, on a connector with TLS, and on a pool alone.\<close>

fun tls_run ::
  "nat \<Rightarrow> ('io \<Rightarrow> probe) \<Rightarrow> ('io2 \<Rightarrow> probe) \<Rightarrow> (token \<times> connect) list \<Rightarrow> ('io, 'io2) tls_connector \<Rightarrow> ('io, 'io2) tls_connector exec" where
  "tls_run now pa pb [] c = Return c"
| "tls_run now pa pb ((t, req) # reqs) c = (case tls_call now pa pb t req c of Panic \<Rightarrow> Panic | Return c \<Rightarrow> tls_run now pa pb reqs c)"

fun pool_run :: "nat \<Rightarrow> ('io \<Rightarrow> probe) \<Rightarrow> (token \<times> connect) list \<Rightarrow> 'io system \<Rightarrow> 'io system exec" where
  "pool_run now probe [] s = Return s"
| "pool_run now probe ((t, req) # reqs) s =
     (case sys_call now probe t (co_authority req) s of Panic \<Rightarrow> Panic | Return s \<Rightarrow> pool_run now probe reqs s)"

text \<open>
  The pools of a connector are independent: each sees exactly the requests of its scheme, as if the others had not been made, so
  that each has the whole limit for itself.
\<close>

theorem pools_separate:
  "tls_run now pa pb reqs c = Return c' \<longleftrightarrow>
     pool_run now pa (filter (\<lambda>tr. \<not> secure_scheme (co_scheme (snd tr))) reqs) (tc_tcp_pool c) = Return (tc_tcp_pool c') \<and>
     pool_run now pb (filter (\<lambda>tr. secure_scheme (co_scheme (snd tr))) reqs) (tc_ssl_pool c) = Return (tc_ssl_pool c')"
proof (induction reqs arbitrary: c)
  case Nil
  then show ?case by auto
next
  case (Cons tr reqs)
  obtain t req where tr: "tr = (t, req)" by (cases tr)
  show ?case
  proof (cases "secure_scheme (co_scheme req)")
    case True
    then show ?thesis by (auto simp: tr tls_call_def Cons.IH split: exec.split)
  next
    case False
    then show ?thesis by (auto simp: tr tls_call_def Cons.IH split: exec.split)
  qed
qed

text \<open>Without TLS a secure request fails before it reaches the pool, and every other request is one of the pool.\<close>

theorem plain_connector_calls:
  "plain_call now probe t req c = Return (Err e) \<longleftrightarrow> secure_scheme (co_scheme req) \<and> e = CeSslIsNotSupported"
  "\<not> secure_scheme (co_scheme req) \<Longrightarrow>
     (plain_call now probe t req c = Return (Ok c') \<longleftrightarrow> sys_call now probe t (co_authority req) (pc_tcp_pool c) = Return (pc_tcp_pool c'))"
  by (auto simp: plain_call_def split: exec.split)

lemma conn_new_works:
  "conn_send_request env1 env2 bb (io_connection_new io created pool) head body w \<noteq> Panic"
  "conn_open_tunnel env (io_connection_new io created pool) head w \<noteq> Panic"
  "into_inner (io_connection_new io created pool) = Return (io, created)"
  by (simp_all add: conn_send_request_def conn_open_tunnel_def io_connection_new_def into_inner_def split: connection.split)

text \<open>
  What the client relies on of \<open>Framed\<close>: it is made around a connection, and sending, flushing and reading leave that connection in it.
\<close>

definition transport_keeps :: "('f, 'io, 'w) request_env \<Rightarrow> bool" where
  "transport_keeps env \<longleftrightarrow>
     (\<forall>c. fm_io (rv_lib env) (rv_framed env c) = c) \<and>
     (\<forall>m f w r f' w'. rv_send env m f w = Some ((r, f'), w') \<longrightarrow> fm_io (rv_lib env) f' = fm_io (rv_lib env) f) \<and>
     (\<forall>m f r f'. fk_write (rv_sink env) m f = (r, f') \<longrightarrow> fm_io (rv_lib env) f' = fm_io (rv_lib env) f) \<and>
     (\<forall>f w r f' w'. fk_flush (rv_sink env) f w = (r, f', w') \<longrightarrow> fm_io (rv_lib env) f' = fm_io (rv_lib env) f) \<and>
     (\<forall>f w r f' w'. rv_head env f w = Some ((r, f'), w') \<longrightarrow> fm_io (rv_lib env) f' = fm_io (rv_lib env) f) \<and>
     (\<forall>f w r f' w'. fm_next (rv_lib env) f w = (r, f', w') \<longrightarrow> fm_io (rv_lib env) f' = fm_io (rv_lib env) f)"

lemma transport_keepsD:
  assumes "transport_keeps env"
  shows "fm_io (rv_lib env) (rv_framed env c) = c"
    and "rv_send env m f w = Some ((r, f'), w') \<Longrightarrow> fm_io (rv_lib env) f' = fm_io (rv_lib env) f"
    and "fk_write (rv_sink env) k f = (q, f') \<Longrightarrow> fm_io (rv_lib env) f' = fm_io (rv_lib env) f"
    and "fk_flush (rv_sink env) f w = (p, f', w') \<Longrightarrow> fm_io (rv_lib env) f' = fm_io (rv_lib env) f"
    and "rv_head env f w = Some ((h, f'), w') \<Longrightarrow> fm_io (rv_lib env) f' = fm_io (rv_lib env) f"
    and "fm_next (rv_lib env) f w = (n, f', w') \<Longrightarrow> fm_io (rv_lib env) f' = fm_io (rv_lib env) f"
  using assms unfolding transport_keeps_def by metis+

text \<open>Calls that give one connection back, at most once, and only when it was lent.\<close>

definition own_calls :: "bool \<Rightarrow> 'io \<Rightarrow> 'io pool_call list \<Rightarrow> bool" where
  "own_calls pool io calls \<longleftrightarrow> length calls \<le> (if pool then 1 else 0) \<and> set calls \<subseteq> {PoolClose io, PoolRelease io}"

lemma own_calls_release:
  assumes "fm_io fm f = \<lparr>hn_io = Some io, hn_pool = pool\<rparr>"
  shows "own_calls pool io (fst (release_connection fm f force))" and "pool \<Longrightarrow> fst (release_connection fm f force) \<noteq> []"
  using assms by (auto simp: own_calls_def release_connection_def h1_release_def h1_close_def)

lemma pl_poll_own:
  assumes "pl_poll_next fm (Some f) w = Return (p, calls, st, w')" and "fm_io fm f = \<lparr>hn_io = Some io, hn_pool = pool\<rparr>"
    and "\<And>f w r f' w'. fm_next fm f w = (r, f', w') \<Longrightarrow> fm_io fm f' = fm_io fm f"
  shows "own_calls pool io calls \<and> (case st of None \<Rightarrow> True | Some f' \<Rightarrow> calls = [] \<and> fm_io fm f' = \<lparr>hn_io = Some io, hn_pool = pool\<rparr>)"
proof -
  obtain q f' w1 where n: "fm_next fm f w = (q, f', w1)" by (cases "fm_next fm f w")
  with assms(2,3) have io: "fm_io fm f' = \<lparr>hn_io = Some io, hn_pool = pool\<rparr>" by metis
  show ?thesis using assms(1) n io own_calls_release(1) [OF io]
    by (auto simp: pl_poll_next_def Let_def own_calls_def split: poll.splits option.splits result.splits)
qed

lemma pl_run_own:
  assumes "pl_run fm st w calls st'" and "st = Some f" and "fm_io fm f = \<lparr>hn_io = Some io, hn_pool = pool\<rparr>"
    and "\<And>f w r f' w'. fm_next fm f w = (r, f', w') \<Longrightarrow> fm_io fm f' = fm_io fm f"
  shows "own_calls pool io calls"
  using assms(1-3)
proof (induction arbitrary: f rule: pl_run.induct)
  case (poll st w p calls st1 w1 w2 rest st2)
  from poll.hyps(1) poll.prems(1) have r: "pl_poll_next fm (Some f) w = Return (p, calls, st1, w1)" by simp
  note own = pl_poll_own [OF r poll.prems(2) assms(4)]
  show ?case
  proof (cases st1)
    case None
    with pl_run_None poll.hyps(2) own show ?thesis by fastforce
  next
    case (Some f1)
    with own have "calls = []" and "fm_io fm f1 = \<lparr>hn_io = Some io, hn_pool = pool\<rparr>" by simp_all
    with poll.IH [OF Some this(2)] show ?thesis by simp
  qed
qed (simp add: own_calls_def)

lemma h1_body_step_keeps:
  assumes "transport_keeps env" and "h1_body_step (rv_sink env) bb s w = (p, s', w')"
  shows "fm_io (rv_lib env) (by_framed s') = fm_io (rv_lib env) (by_framed s)"
  using assms(2) transport_keepsD(3,4) [OF assms(1)]
  by (auto simp: h1_body_step_def split: body_point.splits if_splits prod.splits poll.splits option.splits result.splits)

lemma h1_send_body_keeps:
  assumes "transport_keeps env" and "h1_send_body (rv_sink env) bb body f w = Some (r, s, w')"
  shows "fm_io (rv_lib env) (by_framed s) = fm_io (rv_lib env) f"
proof -
  let ?keeps = "\<lambda>s. fm_io (rv_lib env) (by_framed s) = fm_io (rv_lib env) f"
  have step: "?keeps d'" if "?keeps d" "h1_body_step (rv_sink env) bb d w = (p, d', w')" for d w p d' w'
    using h1_body_step_keeps [OF assms(1) that(2)] that(1) by simp
  have poll: "?keeps d'" if "?keeps d" "poll_loop (h1_body_step (rv_sink env) bb) d w = Some (p, d', w')" for d w p d' w'
    by (rule poll_loop_keeps [where keeps = ?keeps, OF step that(2,1)])
  show ?thesis by (rule await_keeps [where keeps = ?keeps, OF poll assms(2) [unfolded h1_send_body_def]]) simp_all
qed

text \<open>What is known of the answer when the connection is still the one of the request.\<close>

definition request_owns :: "('f, 'io, 'w) request_env \<Rightarrow> bool \<Rightarrow> 'io \<Rightarrow> (response_head \<times> 'f pl_stream, 'e) result \<times> 'io pool_call list \<Rightarrow> bool" where
  "request_owns env pool io a \<longleftrightarrow> own_calls pool io (snd a) \<and>
     (case fst a of
        Ok (res, Some f) \<Rightarrow> snd a = [] \<and> fm_io (rv_lib env) f = \<lparr>hn_io = Some io, hn_pool = pool\<rparr>
      | Ok (res, None) \<Rightarrow> pool \<longrightarrow> snd a \<noteq> []
      | Err e \<Rightarrow> True)"

lemma read_head_owns:
  assumes "transport_keeps env" and "read_head env f w = Some (a, w')" and "fm_io (rv_lib env) f = \<lparr>hn_io = Some io, hn_pool = pool\<rparr>"
  shows "request_owns env pool io a"
proof -
  from assms(2) obtain h f1 where h: "rv_head env f w = Some ((h, f1), w')"
    "a = (case h of Some (Ok head) \<Rightarrow> (let (pl, calls) = after_head (rv_lib env) f1 in (Ok (head, pl), calls))
            | Some (Err e) \<Rightarrow> (Err (SeResponse e), []) | None \<Rightarrow> (Err (SeConnect CeDisconnected), []))"
    by (auto simp: read_head_def bind_eq_Some_conv)
  have io: "fm_io (rv_lib env) f1 = \<lparr>hn_io = Some io, hn_pool = pool\<rparr>"
    using transport_keepsD(5) [OF assms(1) h(1)] assms(3) by simp
  show ?thesis using own_calls_release [OF io] io unfolding h(2)
    by (auto simp: request_owns_def after_head_def own_calls_def split: option.split result.split message_type.split)
qed

lemma h1_request_owns:
  assumes "transport_keeps env" and "h1_send_request env bb io pool head body w = Some (a, w')"
  shows "request_owns env pool io a"
proof -
  let ?c = "\<lparr>hn_io = Some io, hn_pool = pool\<rparr>"
  have failed: "request_owns env pool io (Err e, [])" for e :: "unit send_request_error" by (simp add: request_owns_def own_calls_def)
  from assms(2) obtain r f w1 where f: "rv_send env (set_host (rv_http env) (rv_uri_host env) (rv_uri_port env) (rv_value env) head, mb_size bb body)
      (rv_framed env ?c) w = Some ((r, f), w1)"
    by (auto simp: h1_send_request_def Let_def bind_eq_Some_conv)
  from transport_keepsD(2) [OF assms(1) f] have io: "fm_io (rv_lib env) f = ?c" by (simp add: transport_keepsD(1) [OF assms(1)])
  show ?thesis
  proof (cases r)
    case (Err e)
    with assms(2) f have "a = (Err (SeSend e), [])" by (simp add: h1_send_request_def)
    with failed show ?thesis by simp
  next
    case (Ok u)
    show ?thesis
    proof (cases "h1_no_body (mb_size bb body)")
      case True
      with assms(2) f Ok have "read_head env f w1 = Some (a, w')" by (simp add: h1_send_request_def)
      from read_head_owns [OF assms(1) this io] show ?thesis .
    next
      case False
      with assms(2) f Ok obtain q s w2 where b: "h1_send_body (rv_sink env) bb body f w1 = Some (q, s, w2)"
        and a: "(case q of Err e \<Rightarrow> Some ((Err e, []), w2) | Ok _ \<Rightarrow> read_head env (by_framed s) w2) = Some (a, w')"
        by (auto simp: h1_send_request_def bind_eq_Some_conv)
      from h1_send_body_keeps [OF assms(1) b] io have "fm_io (rv_lib env) (by_framed s) = ?c" by simp
      with a failed read_head_owns [OF assms(1)] show ?thesis by (cases q) auto
    qed
  qed
qed

lemma await_answer_calls: "await_answer env head_req fut calls w = Some (r, calls', w') \<Longrightarrow> calls = calls'"
  by (auto simp: await_answer_def split: Option.bind_splits)

lemma h2_request_calls:
  assumes "h2_send_request env io pool head body w = Some (r, calls, w')"
  shows "own_calls pool io calls \<and> (pool \<longrightarrow> calls \<noteq> [])"
  using assms by (auto simp: own_calls_def h2_send_request_def h2_release_def Let_def dest: await_answer_calls
      split: Option.bind_splits result.splits prod.splits if_splits)

text \<open>
  Property C17. A request gives back no connection but the one it was made on, at most once and only when it was lent by a pool. Over
  HTTP/2 it always does; over HTTP/1 it does when the response has no body, and otherwise the stream of the body gives it back: however
  often that is polled, the calls of the request and of the stream together are at most one.
\<close>

theorem request_returns_own_connection:
  assumes "transport_keeps env1" and "conn = ConnH1 io \<or> conn = ConnH2 io"
    and "conn_send_request env1 env2 bb (io_connection_new conn created pool) head body w = Return (Some ((r, calls), w'))"
  shows "own_calls pool io calls \<and> (conn = ConnH2 io \<and> pool \<longrightarrow> calls \<noteq> []) \<and>
    (\<forall>res. r = Ok (res, PayloadNone) \<and> pool \<longrightarrow> calls \<noteq> []) \<and>
    (\<forall>res st w1 later st'. r = Ok (res, PayloadStream st) \<and> pl_run (rv_lib env1) st w1 later st' \<longrightarrow> own_calls pool io (calls @ later))"
  using assms(2)
proof
  assume c: "conn = ConnH1 io"
  with assms(3) obtain a w1 where a: "h1_send_request env1 bb io pool head body w = Some (a, w1)" "from_h1 (a, w1) = ((r, calls), w')"
    by (auto simp: conn_send_request_def io_connection_new_def)
  obtain q cs where q: "a = (q, cs)" by (cases a)
  from h1_request_owns [OF assms(1) a(1)] have own: "request_owns env1 pool io a" .
  show ?thesis
  proof (cases q)
    case (Err e)
    with a(2) own q have "r = Err e" "own_calls pool io calls" by (auto simp: from_h1_def request_owns_def)
    with c show ?thesis by simp
  next
    case (Ok hp)
    obtain h pl where hp: "hp = (h, pl)" by (cases hp)
    show ?thesis
    proof (cases pl)
      case None
      with a(2) own q Ok hp have "r = Ok (h, PayloadNone)" "own_calls pool io calls" "pool \<longrightarrow> calls \<noteq> []"
        by (auto simp: from_h1_def request_owns_def h1_payload_def)
      with c show ?thesis by simp
    next
      case (Some f)
      with a(2) own q Ok hp have r: "calls = []" "r = Ok (h, PayloadStream (Some f))"
        "fm_io (rv_lib env1) f = \<lparr>hn_io = Some io, hn_pool = pool\<rparr>"
        by (simp_all add: from_h1_def request_owns_def h1_payload_def)
      have "own_calls pool io later" if "pl_run (rv_lib env1) (Some f) w2 later st" for w2 later st
        by (rule pl_run_own [OF that HOL.refl r(3)]) (rule transport_keepsD(6) [OF assms(1)])
      with r(1,2) c show ?thesis by (auto simp: own_calls_def)
    qed
  qed
next
  assume c: "conn = ConnH2 io"
  with assms(3) obtain r1 where r1: "h2_send_request (env2 io) io pool head body w = Some r1" "from_h2 r1 = ((r, calls), w')"
    by (auto simp: conn_send_request_def io_connection_new_def)
  obtain q cs w1 where q: "r1 = (q, cs, w1)" by (cases r1)
  have "r \<noteq> Ok (res, PayloadStream st)" for res st
  proof -
    have "h2_payload pl \<noteq> PayloadStream st" for pl :: "(unit, 'd, unit) payload" by (cases pl) simp_all
    with r1(2) show ?thesis by (auto simp: q from_h2_def split: result.splits)
  qed
  moreover have "calls = cs" using r1(2) by (auto simp: q from_h2_def split: result.splits)
  ultimately show ?thesis using h2_request_calls [OF r1(1) [unfolded q]] c by simp
qed

text \<open>A tunnel over HTTP/2 is refused and loses nothing; one over HTTP/1 leaves the pool while it is still open.\<close>

theorem tunnel_leaves_pool:
  "conn_open_tunnel env (io_connection_new (ConnH2 io) created True) head w = Return (Some (Err SeTunnelNotSupported, w), LeaseCalls [PoolRelease io])"
  "conn_open_tunnel env (io_connection_new (ConnH1 io) created True) head w = Return (h1_open_tunnel env io head w, LeaseDropped)"
  by (simp_all add: conn_open_tunnel_def io_connection_new_def)

section \<open>Witnesses\<close>

text \<open>A client whose HTTP/2 connection has broken, and whose HTTP/1 transport is never used.\<close>

definition demo_send_lib :: "(unit, unit) send_lib" where
  "demo_send_lib = \<lparr>sl_reserve = (\<lambda>s n w. w), sl_capacity = (\<lambda>s w. (Pending, w)), sl_send = (\<lambda>s b e w. (Ok (), w))\<rparr>"

definition demo_broken :: "((header_name \<times> header_value) list, unit, unit, unit, script, unit) h2_client_env" where
  "demo_broken = \<lparr>kc_http = demo_http, kc_hmap = demo_hmap, kc_send = demo_send_lib, kc_visit = rev, kc_is_io = (\<lambda>e. e = ''io''),
     kc_ready = (\<lambda>w. (Ready (Err ''io''), w)), kc_request = (\<lambda>req eof w. (Err ''closed'', w)), kc_answer = (\<lambda>q w. (Pending, w)),
     kc_body = demo_script_body\<rparr>"

text \<open>A transport that is the connection itself, and answers every request with a response without a body.\<close>

definition demo_client_request :: "(nat h1_connection, nat, unit) request_env" where
  "demo_client_request = \<lparr>rv_http = demo_http, rv_uri_host = (\<lambda>u. None), rv_uri_port = (\<lambda>u. None), rv_value = Some, rv_framed = id,
     rv_tunnel = (\<lambda>io. \<lparr>hn_io = Some io, hn_pool = False\<rparr>),
     rv_sink = \<lparr>fk_full = (\<lambda>f. False), fk_empty = (\<lambda>f. True), fk_write = (\<lambda>m f. (Ok (), f)), fk_flush = (\<lambda>f w. (Ready (Ok ()), f, w))\<rparr>,
     rv_lib = \<lparr>fm_next = (\<lambda>f w. (Pending, f, w)), fm_codec = (\<lambda>f. client_codec_new True), fm_read_buf = (\<lambda>f. []),
       fm_write_buf = (\<lambda>f. []), fm_io = id\<rparr>,
     rv_send = (\<lambda>i f w. Some ((Ok (), f), w)), rv_head = (\<lambda>f w. Some ((Some (Ok (response_head_new 200)), f), w))\<rparr>"

lemma request_returns_own_connection_witness:
  "\<exists>r. conn_send_request demo_client_request (\<lambda>io. demo_broken) (demo_script_body\<lparr>mb_size := (\<lambda>b. SzNone)\<rparr>)
      (io_connection_new (ConnH1 7) 0 True) demo_head [] () = Return (Some ((r, [PoolClose 7]), ())) \<and> own_calls True 7 [PoolClose (7 :: nat)]"
proof -
  have keeps: "transport_keeps demo_client_request" by (simp add: transport_keeps_def demo_client_request_def)
  have run: "conn_send_request demo_client_request (\<lambda>io. demo_broken) (demo_script_body\<lparr>mb_size := (\<lambda>b. SzNone)\<rparr>)
      (io_connection_new (ConnH1 7) 0 True) demo_head [] () = Return (Some ((Ok (response_head_new 200, PayloadNone), [PoolClose 7]), ()))"
    by (simp add: conn_send_request_def io_connection_new_def h1_send_request_def h1_no_body_def read_head_def from_h1_def h1_payload_def
        demo_client_request_def after_head_def client_message_type_def client_codec_new_def release_connection_def h1_close_def
        client_keepalive_def)
  from request_returns_own_connection [OF keeps _ run] have "own_calls True 7 [PoolClose (7 :: nat)]" by blast
  with run show ?thesis by blast
qed

end
