(* ===== verification/Http_Service.thy ===== *)
theory Http_Service
  imports H1_Dispatcher H2_Dispatcher
begin

text \<open>
  Services (\<open>service.rs\<close>, \<open>h1/service.rs\<close>, \<open>h2/service.rs\<close>, \<open>builder.rs\<close>): how a configured service is started, when it is ready,
  and which dispatcher a connection gets. The services of the application and their factories are parameters. TLS belongs to other
  crates; of it only the choice of the protocol is here.
\<close>

section \<open>The builder\<close>

record ('io, 'x, 'u) service_builder =
  hb_keep_alive :: keep_alive
  hb_client_timeout :: nat
  hb_client_disconnect :: nat
  hb_secure :: bool
  hb_local_addr :: "nat option"
  hb_expect :: 'x
  hb_upgrade :: "'u option"
  hb_on_connect :: "('io \<Rightarrow> extensions \<Rightarrow> extensions) option"

definition service_builder_new :: "'x \<Rightarrow> ('io, 'x, 'u) service_builder" where
  "service_builder_new expect_handler = \<lparr>hb_keep_alive = KaTimeout 5, hb_client_timeout = 5000, hb_client_disconnect = 0,
     hb_secure = False, hb_local_addr = None, hb_expect = expect_handler, hb_upgrade = None, hb_on_connect = None\<rparr>"

definition builder_keep_alive :: "keep_alive \<Rightarrow> ('io, 'x, 'u) service_builder \<Rightarrow> ('io, 'x, 'u) service_builder" where
  "builder_keep_alive ka b = b\<lparr>hb_keep_alive := ka\<rparr>"

definition builder_secure :: "('io, 'x, 'u) service_builder \<Rightarrow> ('io, 'x, 'u) service_builder" where
  "builder_secure b = b\<lparr>hb_secure := True\<rparr>"

definition builder_local_addr :: "nat \<Rightarrow> ('io, 'x, 'u) service_builder \<Rightarrow> ('io, 'x, 'u) service_builder" where
  "builder_local_addr addr b = b\<lparr>hb_local_addr := Some addr\<rparr>"

definition builder_client_timeout :: "nat \<Rightarrow> ('io, 'x, 'u) service_builder \<Rightarrow> ('io, 'x, 'u) service_builder" where
  "builder_client_timeout t b = b\<lparr>hb_client_timeout := t\<rparr>"

definition builder_client_disconnect :: "nat \<Rightarrow> ('io, 'x, 'u) service_builder \<Rightarrow> ('io, 'x, 'u) service_builder" where
  "builder_client_disconnect t b = b\<lparr>hb_client_disconnect := t\<rparr>"

definition builder_expect :: "'y \<Rightarrow> ('io, 'x, 'u) service_builder \<Rightarrow> ('io, 'y, 'u) service_builder" where
  "builder_expect x b = \<lparr>hb_keep_alive = hb_keep_alive b, hb_client_timeout = hb_client_timeout b,
     hb_client_disconnect = hb_client_disconnect b, hb_secure = hb_secure b, hb_local_addr = hb_local_addr b, hb_expect = x,
     hb_upgrade = hb_upgrade b, hb_on_connect = hb_on_connect b\<rparr>"

definition builder_upgrade :: "'v \<Rightarrow> ('io, 'x, 'u) service_builder \<Rightarrow> ('io, 'x, 'v) service_builder" where
  "builder_upgrade u b = \<lparr>hb_keep_alive = hb_keep_alive b, hb_client_timeout = hb_client_timeout b,
     hb_client_disconnect = hb_client_disconnect b, hb_secure = hb_secure b, hb_local_addr = hb_local_addr b, hb_expect = hb_expect b,
     hb_upgrade = Some u, hb_on_connect = hb_on_connect b\<rparr>"

definition builder_on_connect :: "('io \<Rightarrow> extensions \<Rightarrow> extensions) \<Rightarrow> ('io, 'x, 'u) service_builder \<Rightarrow> ('io, 'x, 'u) service_builder" where
  "builder_on_connect f b = b\<lparr>hb_on_connect := Some f\<rparr>"

record ('io, 's, 'x, 'u) http_service =
  hs_srv :: 's
  hs_cfg :: service_config
  hs_expect :: 'x
  hs_upgrade :: "'u option"
  hs_on_connect :: "('io \<Rightarrow> extensions \<Rightarrow> extensions) option"

definition http_service_new :: "'x \<Rightarrow> 's \<Rightarrow> ('io, 's, 'x, 'u) http_service" where
  "http_service_new expect_handler service = \<lparr>hs_srv = service, hs_cfg = service_config_new (KaTimeout 5) 5000 0 False None,
     hs_expect = expect_handler, hs_upgrade = None, hs_on_connect = None\<rparr>"

text \<open>\<open>with_config\<close>, \<open>expect\<close>, \<open>upgrade\<close> and \<open>on_connect\<close> one after the other.\<close>

definition builder_finish :: "('io, 'x, 'u) service_builder \<Rightarrow> 's \<Rightarrow> ('io, 's, 'x, 'u) http_service" where
  "builder_finish b service =
     (let cfg = service_config_new (hb_keep_alive b) (hb_client_timeout b) (hb_client_disconnect b) (hb_secure b) (hb_local_addr b)
      in \<lparr>hs_srv = service, hs_cfg = cfg, hs_expect = hb_expect b, hs_upgrade = hb_upgrade b, hs_on_connect = hb_on_connect b\<rparr>)"

section \<open>Starting a service\<close>

text \<open>The factories of the application: what they make is a future that gives a service.\<close>

record ('s, 'x, 'u, 'fs, 'fx, 'fu) factories =
  fa_srv :: "'s \<Rightarrow> 'fs"
  fa_expect :: "'x \<Rightarrow> 'fx"
  fa_upgrade :: "'u \<Rightarrow> 'fu"

record ('fs, 'fx, 'fu, 'vs, 'vx, 'vu, 'w) start_env =
  se_srv :: "'fs \<Rightarrow> 'w \<Rightarrow> ('vs, unit) result poll exec \<times> 'fs \<times> 'w"
  se_expect :: "'fx \<Rightarrow> 'w \<Rightarrow> ('vx, unit) result poll exec \<times> 'fx \<times> 'w"
  se_upgrade :: "'fu \<Rightarrow> 'w \<Rightarrow> ('vu, unit) result poll exec \<times> 'fu \<times> 'w"

record ('io, 'fs, 'fx, 'fu, 'vx, 'vu) service_start =
  ss_fut :: 'fs
  ss_fut_ex :: "'fx option"
  ss_fut_upg :: "'fu option"
  ss_expect :: "'vx option"
  ss_upgrade :: "'vu option"
  ss_cfg :: service_config
  ss_on_connect :: "('io \<Rightarrow> extensions \<Rightarrow> extensions) option"

record ('io, 'vs, 'vx, 'vu) service_handler =
  sh_srv :: 'vs
  sh_expect :: 'vx
  sh_upgrade :: "'vu option"
  sh_cfg :: service_config
  sh_on_connect :: "('io \<Rightarrow> extensions \<Rightarrow> extensions) option"

definition new_service ::
  "('s, 'x, 'u, 'fs, 'fx, 'fu) factories \<Rightarrow> ('io, 's, 'x, 'u) http_service \<Rightarrow> ('io, 'fs, 'fx, 'fu, 'vx, 'vu) service_start" where
  "new_service fa h = \<lparr>ss_fut = fa_srv fa (hs_srv h), ss_fut_ex = Some (fa_expect fa (hs_expect h)),
     ss_fut_upg = map_option (fa_upgrade fa) (hs_upgrade h), ss_expect = None, ss_upgrade = None, ss_cfg = hs_cfg h,
     ss_on_connect = hs_on_connect h\<rparr>"

type_synonym ('io, 'fs, 'fx, 'fu, 'vs, 'vx, 'vu, 'w) start_result =
  "(('io, 'vs, 'vx, 'vu) service_handler, unit) result poll exec option \<times> ('io, 'fs, 'fx, 'fu, 'vx, 'vu) service_start \<times> 'w"

text \<open>\<open>None\<close>: go on with the next part of the poll.\<close>

definition start_expect ::
  "('fs, 'fx, 'fu, 'vs, 'vx, 'vu, 'w) start_env \<Rightarrow> ('io, 'fs, 'fx, 'fu, 'vx, 'vu) service_start \<Rightarrow> 'w \<Rightarrow>
   ('io, 'fs, 'fx, 'fu, 'vs, 'vx, 'vu, 'w) start_result" where
  "start_expect env s w =
     (case ss_fut_ex s of
        None \<Rightarrow> (None, s, w)
      | Some fut \<Rightarrow>
          (case se_expect env fut w of
             (Panic, fut, w) \<Rightarrow> (Some Panic, s\<lparr>ss_fut_ex := Some fut\<rparr>, w)
           | (Return Pending, fut, w) \<Rightarrow> (Some (Return Pending), s\<lparr>ss_fut_ex := Some fut\<rparr>, w)
           | (Return (Ready (Err e)), fut, w) \<Rightarrow> (Some (Return (Ready (Err ()))), s\<lparr>ss_fut_ex := Some fut\<rparr>, w)
           | (Return (Ready (Ok expect)), fut, w) \<Rightarrow> (None, s\<lparr>ss_expect := Some expect, ss_fut_ex := None\<rparr>, w)))"

text \<open>When the upgrade service is there, the code clears \<open>fut_ex\<close>, not \<open>fut_upg\<close>.\<close>

definition start_upgrade ::
  "('fs, 'fx, 'fu, 'vs, 'vx, 'vu, 'w) start_env \<Rightarrow> ('io, 'fs, 'fx, 'fu, 'vx, 'vu) service_start \<Rightarrow> 'w \<Rightarrow>
   ('io, 'fs, 'fx, 'fu, 'vs, 'vx, 'vu, 'w) start_result" where
  "start_upgrade env s w =
     (case ss_fut_upg s of
        None \<Rightarrow> (None, s, w)
      | Some fut \<Rightarrow>
          (case se_upgrade env fut w of
             (Panic, fut, w) \<Rightarrow> (Some Panic, s\<lparr>ss_fut_upg := Some fut\<rparr>, w)
           | (Return Pending, fut, w) \<Rightarrow> (Some (Return Pending), s\<lparr>ss_fut_upg := Some fut\<rparr>, w)
           | (Return (Ready (Err e)), fut, w) \<Rightarrow> (Some (Return (Ready (Err ()))), s\<lparr>ss_fut_upg := Some fut\<rparr>, w)
           | (Return (Ready (Ok upgrade)), fut, w) \<Rightarrow>
               (None, s\<lparr>ss_upgrade := Some upgrade, ss_fut_upg := Some fut, ss_fut_ex := None\<rparr>, w)))"

definition start_service ::
  "('fs, 'fx, 'fu, 'vs, 'vx, 'vu, 'w) start_env \<Rightarrow> ('io, 'fs, 'fx, 'fu, 'vx, 'vu) service_start \<Rightarrow> 'w \<Rightarrow>
   (('io, 'vs, 'vx, 'vu) service_handler, unit) result poll exec \<times> ('io, 'fs, 'fx, 'fu, 'vx, 'vu) service_start \<times> 'w" where
  "start_service env s w =
     (case se_srv env (ss_fut s) w of
        (Panic, fut, w) \<Rightarrow> (Panic, s\<lparr>ss_fut := fut\<rparr>, w)
      | (Return Pending, fut, w) \<Rightarrow> (Return Pending, s\<lparr>ss_fut := fut\<rparr>, w)
      | (Return (Ready (Err e)), fut, w) \<Rightarrow> (Return (Ready (Err ())), s\<lparr>ss_fut := fut\<rparr>, w)
      | (Return (Ready (Ok service)), fut, w) \<Rightarrow>
          (case ss_expect s of
             None \<Rightarrow> (Panic, s\<lparr>ss_fut := fut\<rparr>, w)
           | Some expect \<Rightarrow>
               (Return (Ready (Ok \<lparr>sh_srv = service, sh_expect = expect, sh_upgrade = ss_upgrade s, sh_cfg = ss_cfg s,
                  sh_on_connect = ss_on_connect s\<rparr>)),
                s\<lparr>ss_fut := fut, ss_expect := None, ss_upgrade := None\<rparr>, w)))"

definition start_poll ::
  "('fs, 'fx, 'fu, 'vs, 'vx, 'vu, 'w) start_env \<Rightarrow> ('io, 'fs, 'fx, 'fu, 'vx, 'vu) service_start \<Rightarrow> 'w \<Rightarrow>
   (('io, 'vs, 'vx, 'vu) service_handler, unit) result poll exec \<times> ('io, 'fs, 'fx, 'fu, 'vx, 'vu) service_start \<times> 'w" where
  "start_poll env s w =
     (case start_expect env s w of
        (Some p, s, w) \<Rightarrow> (p, s, w)
      | (None, s, w) \<Rightarrow>
          (case start_upgrade env s w of
             (Some p, s, w) \<Rightarrow> (p, s, w)
           | (None, s, w) \<Rightarrow> start_service env s w))"

section \<open>Readiness\<close>

record ('vs, 'vx, 'vu, 'w) ready_env =
  re_srv_ready :: "'vs \<Rightarrow> 'w \<Rightarrow> (unit, unit) result poll \<times> 'w"
  re_expect_ready :: "'vx \<Rightarrow> 'w \<Rightarrow> (unit, unit) result poll \<times> 'w"
  re_upgrade_ready :: "'vu \<Rightarrow> 'w \<Rightarrow> (unit, unit) result poll \<times> 'w"

definition handler_poll_ready ::
  "('vs, 'vx, 'vu, 'w) ready_env \<Rightarrow> ('io, 'vs, 'vx, 'vu) service_handler \<Rightarrow> 'w \<Rightarrow> (unit, dispatch_error) result poll \<times> 'w" where
  "handler_poll_ready env h w =
     (case re_expect_ready env (sh_expect h) w of
        (Ready (Err e), w) \<Rightarrow> (Ready (Err DeService), w)
      | (p, w) \<Rightarrow>
          (let ready = (p \<noteq> Pending)
           in case re_srv_ready env (sh_srv h) w of
                (Ready (Err e), w) \<Rightarrow> (Ready (Err DeService), w)
              | (p, w) \<Rightarrow>
                  (let ready = (p \<noteq> Pending \<and> ready)
                   in case sh_upgrade h of
                        None \<Rightarrow> (if ready then Ready (Ok ()) else Pending, w)
                      | Some upg \<Rightarrow>
                          (case re_upgrade_ready env upg w of
                             (Ready (Err e), w) \<Rightarrow> (Ready (Err DeService), w)
                           | (p, w) \<Rightarrow> (if p \<noteq> Pending \<and> ready then Ready (Ok ()) else Pending, w)))))"

section \<open>Connections\<close>

datatype http_protocol = ProtoHttp1 | ProtoHttp2

text \<open>The protocol that TLS has negotiated.\<close>

definition alpn_protocol :: "bytes option \<Rightarrow> http_protocol" where
  "alpn_protocol protos =
     (case protos of
        None \<Rightarrow> ProtoHttp1
      | Some p \<Rightarrow> if contains_str p (bstr ''h2'') then ProtoHttp2 else ProtoHttp1)"

text \<open>
  What a connection is made of, beside what the handler knows: the surroundings of the two dispatchers, which hold the services, the
  handshake of HTTP/2, and the pool of request heads.
\<close>

record ('io, 'w, 'g, 'c, 'n, 'm, 't, 'd, 'p, 'f, 'r, 's, 'b, 'k, 'h) conn_env =
  ce_h1 :: "('w, 'g, 'c, 'n) disp_env"
  ce_h2 :: "('m, 't, 'd, 'p, 'f, 'r, 's, 'b, 'k, 'w world) h2_env"
  ce_handshake :: "'io \<Rightarrow> 'h"
  ce_poll :: "'h \<Rightarrow> 'w world \<Rightarrow> (unit, h2_error) result poll \<times> 'h \<times> 'w world"
  ce_pool :: request_pool
  ce_write_buf :: out_buf

type_synonym connect_data = "(extensions \<Rightarrow> extensions) option"

datatype ('e1, 'd1, 'e2, 'd2, 'h) http_state =
    HsH1 'e1 'd1
  | HsH2 'e2 'd2
  | HsH2Handshake "('h \<times> service_config \<times> connect_data \<times> nat option) option"

type_synonym ('w, 'g, 'c, 'n, 'm, 't, 'd, 'p, 'f, 'r, 's, 'b, 'k, 'h) conn_state =
  "(('w, 'g, 'c, 'n) disp_env, ('g, 'c, 'n) dispatcher,
    ('m, 't, 'd, 'p, 'f, 'r, 's, 'b, 'k, 'w world) h2_env, ('f, 'r, 's, 'b, 'k) h2_dispatcher, 'h) http_state"

text \<open>The surroundings of a dispatcher for one connection.\<close>

definition h1_env ::
  "('w, 'g, 'c, 'n) disp_env \<Rightarrow> service_config \<Rightarrow> bool \<Rightarrow> connect_data \<Rightarrow> nat option \<Rightarrow> ('w, 'g, 'c, 'n) disp_env" where
  "h1_env env cfg upgrade on_connect peer_addr =
     env\<lparr>de_config := cfg, de_upgrade := upgrade, de_on_connect := on_connect, de_peer_addr := peer_addr\<rparr>"

definition h2_env_of ::
  "('m, 't, 'd, 'p, 'f, 'r, 's, 'b, 'k, 'w) h2_env \<Rightarrow> service_config \<Rightarrow> connect_data \<Rightarrow> nat option \<Rightarrow>
   ('m, 't, 'd, 'p, 'f, 'r, 's, 'b, 'k, 'w) h2_env" where
  "h2_env_of env cfg on_connect peer_addr =
     env\<lparr>hv_config := cfg, hv_on_connect := on_connect, hv_peer_addr := peer_addr\<rparr>"

definition handler_call ::
  "('io, 'w, 'g, 'c, 'n, 'm, 't, 'd, 'p, 'f, 'r, 's, 'b, 'k, 'h) conn_env \<Rightarrow> ('io, 'vs, 'vx, 'vu) service_handler \<Rightarrow>
   'io \<times> http_protocol \<times> nat option \<Rightarrow> 'w world \<Rightarrow> ('w, 'g, 'c, 'n, 'm, 't, 'd, 'p, 'f, 'r, 's, 'b, 'k, 'h) conn_state" where
  "handler_call ce h req w =
     (let (io, proto, peer_addr) = req;
          on_connect = (case sh_on_connect h of Some f \<Rightarrow> Some (f io) | None \<Rightarrow> None)
      in case proto of
           ProtoHttp2 \<Rightarrow> HsH2Handshake (Some (ce_handshake ce io, sh_cfg h, on_connect, peer_addr))
         | ProtoHttp1 \<Rightarrow>
             (let env = h1_env (ce_h1 ce) (sh_cfg h) (sh_upgrade h \<noteq> None) on_connect peer_addr
              in HsH1 env (disp_new (sh_cfg h) (de_now env w) (ce_write_buf ce) (ce_pool ce))))"

text \<open>A poll of the state: the handshake, when it is over, gives way to the dispatcher, which is polled at once.\<close>

definition poll_h2 ::
  "('m, 't, 'd, 'p, 'f, 'r, 's, 'b, 'k, 'w) h2_env \<Rightarrow> ('f, 'r, 's, 'b, 'k) h2_dispatcher \<Rightarrow> 'w \<Rightarrow>
   ((unit, stop) result poll \<times>
    ('e1, 'd1, ('m, 't, 'd, 'p, 'f, 'r, 's, 'b, 'k, 'w) h2_env, ('f, 'r, 's, 'b, 'k) h2_dispatcher, 'h) http_state \<times> 'w) option" where
  "poll_h2 env d w =
     map_option (\<lambda>(p, d, w). (map_poll (map_err Failed) p, HsH2 env d, w)) (h2_dispatcher_poll env d w)"

definition http_state_poll ::
  "('io, 'w, 'g, 'c, 'n, 'm, 't, 'd, 'p, 'f, 'r, 's, 'b, 'k, 'h) conn_env \<Rightarrow>
   ('w, 'g, 'c, 'n, 'm, 't, 'd, 'p, 'f, 'r, 's, 'b, 'k, 'h) conn_state \<Rightarrow> 'w world \<Rightarrow>
   ((unit, stop) result poll \<times> ('w, 'g, 'c, 'n, 'm, 't, 'd, 'p, 'f, 'r, 's, 'b, 'k, 'h) conn_state \<times> 'w world) option" where
  "http_state_poll ce st w =
     (case st of
        HsH1 env d \<Rightarrow> map_option (\<lambda>(p, d, w). (p, HsH1 env d, w)) (disp_poll env d w)
      | HsH2 env d \<Rightarrow> poll_h2 env d w
      | HsH2Handshake None \<Rightarrow> Some (Ready (Err Crashed), HsH2Handshake None, w)
      | HsH2Handshake (Some (hs, cfg, on_connect, peer_addr)) \<Rightarrow>
          (case ce_poll ce hs w of
             (Ready (Err e), hs, w) \<Rightarrow> Some (Ready (Err (Failed (DeH2 e))), HsH2Handshake (Some (hs, cfg, on_connect, peer_addr)), w)
           | (Pending, hs, w) \<Rightarrow> Some (Pending, HsH2Handshake (Some (hs, cfg, on_connect, peer_addr)), w)
           | (Ready (Ok _), hs, w) \<Rightarrow>
               (let env = h2_env_of (ce_h2 ce) cfg on_connect peer_addr
                in poll_h2 env (h2_dispatcher_new cfg (hv_now env w) None (ce_pool ce)) w)))"

section \<open>One request\<close>

text \<open>The service that reads one request; the transport's \<open>next_item\<close> is a parameter.\<close>

definition one_request_poll ::
  "('f \<Rightarrow> 'w \<Rightarrow> (request_head message, parse_error) result option poll \<times> 'f \<times> 'w) \<Rightarrow> 'f option \<Rightarrow> 'w \<Rightarrow>
   (request_head \<times> 'f, parse_error) result poll exec \<times> 'f option \<times> 'w" where
  "one_request_poll next_item framed w =
     (case framed of
        None \<Rightarrow> (Panic, None, w)
      | Some f \<Rightarrow>
          (case next_item f w of
             (Ready (Some (Ok (Item req))), f, w) \<Rightarrow> (Return (Ready (Ok (req, f))), None, w)
           | (Ready (Some (Ok (Chunk c))), f, w) \<Rightarrow> (Panic, Some f, w)
           | (Ready (Some (Err e)), f, w) \<Rightarrow> (Return (Ready (Err e)), Some f, w)
           | (Ready None, f, w) \<Rightarrow> (Return (Ready (Err PeIncomplete)), Some f, w)
           | (Pending, f, w) \<Rightarrow> (Return Pending, Some f, w)))"

section \<open>What holds of them\<close>

text \<open>The setters of the builder do not undo each other: each changes its own setting only.\<close>

theorem builder_keeps_settings:
  "builder_finish (builder_upgrade u (builder_expect x b)) srv =
     \<lparr>hs_srv = srv, hs_cfg = hs_cfg (builder_finish b srv), hs_expect = x, hs_upgrade = Some u, hs_on_connect = hb_on_connect b\<rparr> \<and>
   hs_on_connect (builder_finish (builder_expect x (builder_upgrade u (builder_on_connect f b))) srv) = Some f \<and>
   sc_keep_alive (hs_cfg (builder_finish (builder_keep_alive (KaTimeout n) b) srv)) = (if n > 0 then Some (n * 1000) else None)"
  by (simp add: builder_finish_def builder_upgrade_def builder_expect_def builder_on_connect_def builder_keep_alive_def service_config_new_def)

text \<open>
  A service with an upgrade handler whose factory is done before that of the service itself cannot be started: the next poll
  polls the finished future of the upgrade factory again, and an asynchronous block that is polled after its end panics.
\<close>

theorem finished_upgrade_polled_again:
  assumes "ss_fut_ex s = Some fx" and "se_expect env fx w = (Return (Ready (Ok x)), fx', w1)"
    and "ss_fut_upg s = Some fu" and "se_upgrade env fu w1 = (Return (Ready (Ok u)), fu', w2)"
    and "se_srv env (ss_fut s) w2 = (Return Pending, fs', w3)"
    and "\<And>w. fst (se_upgrade env fu' w) = Panic"
  shows "\<exists>s'. start_poll env s w = (Return Pending, s', w3) \<and> ss_upgrade s' = Some u \<and> fst (start_poll env s' w') = Panic"
proof -
  let ?s = "s\<lparr>ss_expect := Some x, ss_fut_ex := None, ss_upgrade := Some u, ss_fut_upg := Some fu', ss_fut := fs'\<rparr>"
  have "start_poll env s w = (Return Pending, ?s, w3)"
    using assms(1-5) by (simp add: start_poll_def start_expect_def start_upgrade_def start_service_def)
  moreover obtain f v where "se_upgrade env fu' w' = (Panic, f, v)" using assms(6) [of w'] by (metis prod.collapse)
  then have "fst (start_poll env ?s w') = Panic" by (simp add: start_poll_def start_expect_def start_upgrade_def)
  ultimately show ?thesis by force
qed

text \<open>
  A future that gives its value after some time. \<open>live\<close> are its states until it has given it; nothing is said about a poll after that,
  which may panic.
\<close>

definition gives :: "('f \<Rightarrow> 'w \<Rightarrow> ('v, unit) result poll exec \<times> 'f \<times> 'w) \<Rightarrow> 'v \<Rightarrow> ('f \<Rightarrow> bool) \<Rightarrow> ('f \<Rightarrow> nat) \<Rightarrow> bool" where
  "gives poll v live rank \<longleftrightarrow>
     (\<forall>f w. live f \<longrightarrow>
        (\<exists>f' w'. poll f w = (Return (Ready (Ok v)), f', w') \<or> poll f w = (Return Pending, f', w') \<and> live f' \<and> rank f' < rank f))"

lemma gives_cases:
  assumes "gives poll v live rank" and "live f"
  obtains (now) f' w' where "poll f w = (Return (Ready (Ok v)), f', w')"
    | (wait) f' w' where "poll f w = (Return Pending, f', w')" "live f'" "rank f' < rank f"
  using assms unfolding gives_def by blast

fun exec_poll :: "'a poll exec \<Rightarrow> 'a exec poll" where
  "exec_poll Panic = Ready Panic"
| "exec_poll (Return Pending) = Pending"
| "exec_poll (Return (Ready a)) = Ready (Return a)"

definition start_future ::
  "('fs, 'fx, 'fu, 'vs, 'vx, 'vu, 'w) start_env \<Rightarrow> ('io, 'fs, 'fx, 'fu, 'vx, 'vu) service_start \<Rightarrow> 'w \<Rightarrow>
   ((('io, 'vs, 'vx, 'vu) service_handler, unit) result exec poll option \<times> ('io, 'fs, 'fx, 'fu, 'vx, 'vu) service_start \<times> 'w)" where
  "start_future env s w = (let (p, s, w) = start_poll env s w in (Some (exec_poll p), s, w))"

definition starting ::
  "('fx \<Rightarrow> bool) \<Rightarrow> ('fs \<Rightarrow> bool) \<Rightarrow> 'vx \<Rightarrow> service_config \<Rightarrow> ('io \<Rightarrow> extensions \<Rightarrow> extensions) option \<Rightarrow>
   ('io, 'fs, 'fx, 'fu, 'vx, 'vu) service_start \<Rightarrow> bool" where
  "starting lx ls x cfg oc s \<longleftrightarrow>
     ss_fut_upg s = None \<and> ss_upgrade s = None \<and> ss_cfg s = cfg \<and> ss_on_connect s = oc \<and> ls (ss_fut s) \<and>
     (case ss_fut_ex s of None \<Rightarrow> ss_expect s = Some x | Some f \<Rightarrow> lx f)"

definition start_patience ::
  "('fx \<Rightarrow> nat) \<Rightarrow> ('fs \<Rightarrow> nat) \<Rightarrow> ('io, 'fs, 'fx, 'fu, 'vx, 'vu) service_start \<Rightarrow> 'w \<Rightarrow> patience" where
  "start_patience rx rs s w = (case ss_fut_ex s of None \<Rightarrow> 0 | Some f \<Rightarrow> Suc (rx f), rs (ss_fut s), 0)"

text \<open>
  Property C14. A service without an upgrade handler starts, in whatever order its parts become ready, and what it gets are these parts and its
  configuration. No future is polled again after it has given its value.
\<close>

theorem service_starts:
  assumes "gives (se_expect env) x lx rx" and "gives (se_srv env) v ls rs" and "hs_upgrade h = None"
    and "lx (fa_expect fa (hs_expect h))" and "ls (fa_srv fa (hs_srv h))"
  shows "\<exists>s' w'. await_future (poll_loop (start_future env)) (new_service fa h) w =
    Some (Return (Ok \<lparr>sh_srv = v, sh_expect = x, sh_upgrade = None, sh_cfg = hs_cfg h, sh_on_connect = hs_on_connect h\<rparr>), s', w')"
proof -
  let ?res = "Return (Ok \<lparr>sh_srv = v, sh_expect = x, sh_upgrade = None, sh_cfg = hs_cfg h, sh_on_connect = hs_on_connect h\<rparr>)"
  let ?starting = "starting lx ls x (hs_cfg h) (hs_on_connect h)"
  have serve: "\<exists>p s' w'. start_service env s w = (p, s', w') \<and>
      (p = Return Pending \<and> ?starting s' \<and> (start_patience rx rs s' w', start_patience rx rs s w) \<in> less_patience \<or>
       exec_poll p = Ready ?res)" if "?starting s" "ss_fut_ex s = None" for s w
  proof -
    have "ls (ss_fut s)" using that by (simp add: starting_def)
    then consider (now) f' w' where "se_srv env (ss_fut s) w = (Return (Ready (Ok v)), f', w')"
      | (wait) f' w' where "se_srv env (ss_fut s) w = (Return Pending, f', w')" "ls f'" "rs f' < rs (ss_fut s)"
      by (rule gives_cases [OF assms(2)])
    then show ?thesis
      by cases (use that in \<open>simp_all add: start_service_def starting_def start_patience_def\<close>)
  qed
  have step: "\<exists>p s' w'. start_future env s w = (p, s', w') \<and>
      ((p = None \<or> p = Some Pending) \<and> ?starting s' \<and> (start_patience rx rs s' w', start_patience rx rs s w) \<in> less_patience \<or>
       (\<exists>a. p = Some (Ready a) \<and> a = ?res))" if inv: "?starting s" for s w
  proof (cases "ss_fut_ex s")
    case None
    with inv have "start_poll env s w = start_service env s w"
      by (simp add: start_poll_def start_expect_def start_upgrade_def starting_def)
    with serve [OF inv None, of w] show ?thesis by (auto simp: start_future_def)
  next
    case (Some fx)
    have "lx fx" using inv Some by (simp add: starting_def)
    then consider (now) f' w' where "se_expect env fx w = (Return (Ready (Ok x)), f', w')"
      | (wait) f' w' where "se_expect env fx w = (Return Pending, f', w')" "lx f'" "rx f' < rx fx"
      by (rule gives_cases [OF assms(1)])
    then show ?thesis
    proof cases
      case now
      let ?s = "s\<lparr>ss_expect := Some x, ss_fut_ex := None\<rparr>"
      from now Some inv have fut: "start_poll env s w = start_service env ?s w'"
        by (simp add: start_poll_def start_expect_def start_upgrade_def starting_def)
      have inv': "?starting ?s" "ss_fut_ex ?s = None" using inv by (simp_all add: starting_def)
      have less: "(start_patience rx rs ?s w', start_patience rx rs s w) \<in> less_patience"
        using Some by (simp add: start_patience_def)
      obtain p s1 w1 where r: "start_service env ?s w' = (p, s1, w1)"
        "p = Return Pending \<and> ?starting s1 \<and> (start_patience rx rs s1 w1, start_patience rx rs ?s w') \<in> less_patience \<or>
         exec_poll p = Ready ?res" using serve [OF inv', of w'] by blast
      have "start_future env s w = (Some (exec_poll p), s1, w1)" by (simp only: start_future_def fut r(1) Let_def prod.case)
      moreover have "exec_poll p = Ready ?res \<or> exec_poll p = Pending \<and> ?starting s1 \<and>
          (start_patience rx rs s1 w1, start_patience rx rs s w) \<in> less_patience"
        using r(2) less trans_less_patience [THEN transD] by (metis exec_poll.simps(2))
      ultimately show ?thesis by blast
    next
      case wait
      with Some inv show ?thesis
        by (simp add: start_future_def start_poll_def start_expect_def starting_def start_patience_def)
    qed
  qed
  have "?starting (new_service fa h)" using assms(3-5) by (simp add: starting_def new_service_def)
  from await_rule [where keeps = "\<lambda>s w. ?starting s" and post = "\<lambda>a s w. a = ?res", OF step this]
  show ?thesis by blast
qed

text \<open>A handler is ready only when the service, the expect handler and the upgrade handler, if there is one, are.\<close>

theorem ready_when_all_ready:
  assumes "handler_poll_ready env h w = (Ready (Ok ()), w')"
  shows "\<exists>w1 w2. re_expect_ready env (sh_expect h) w = (Ready (Ok ()), w1) \<and> re_srv_ready env (sh_srv h) w1 = (Ready (Ok ()), w2) \<and>
    (case sh_upgrade h of None \<Rightarrow> w' = w2 | Some u \<Rightarrow> re_upgrade_ready env u w2 = (Ready (Ok ()), w'))"
  using assms
  by (auto simp: handler_poll_ready_def Let_def split: prod.splits poll.splits result.splits option.splits if_splits)

text \<open>
  The service of one request never reaches its \<open>unreachable!\<close>, when the items of the transport are what the codec decodes before
  any body is expected.
\<close>

theorem one_request_is_item:
  assumes "\<And>f w m f' w'. next_item f w = (Ready (Some (Ok m)), f', w') \<Longrightarrow>
      \<exists>c pool src r. hc_payload c = None \<and> codec_decode lib (c, pool) src = (Ok (Some m), r)"
  shows "fst (one_request_poll next_item (Some f) w) \<noteq> Panic"
proof -
  have "next_item f w \<noteq> (Ready (Some (Ok (Chunk c))), f', w')" for f w c f' w'
    using assms [of f w "Chunk c" f' w'] by (auto simp: codec_decode_def split: result.splits option.splits prod.splits)
  then show ?thesis
    by (auto simp: one_request_poll_def split: prod.split poll.split option.split result.split message.split)
qed

section \<open>Witnesses\<close>

text \<open>Futures that count down; a finished one panics.\<close>

definition countdown :: "nat option \<Rightarrow> unit \<Rightarrow> (nat, unit) result poll exec \<times> nat option \<times> unit" where
  "countdown f w = (case f of None \<Rightarrow> (Panic, None, w) | Some n \<Rightarrow> if n = 0 then (Return (Ready (Ok 7)), None, w) else (Return Pending, Some (n - 1), w))"

definition demo_start :: "(nat option, nat option, nat option, nat, nat, nat, unit) start_env" where
  "demo_start = \<lparr>se_srv = countdown, se_expect = countdown, se_upgrade = countdown\<rparr>"

lemma finished_upgrade_polled_again_witness:
  "\<exists>s'. start_poll demo_start \<lparr>ss_fut = Some 1, ss_fut_ex = Some (Some 0), ss_fut_upg = Some (Some 0), ss_expect = None, ss_upgrade = None,
      ss_cfg = service_config_default, ss_on_connect = None :: (unit \<Rightarrow> extensions \<Rightarrow> extensions) option\<rparr> () = (Return Pending, s', ()) \<and> ss_upgrade s' = Some 7 \<and> fst (start_poll demo_start s' ()) = Panic"
  by (rule finished_upgrade_polled_again [where ?fx = "Some 0" and ?fu = "Some 0" and x = 7 and fu' = None and fs' = "Some 0" and fx' = None])
     (simp_all add: demo_start_def countdown_def)

lemma service_starts_witness:
  "\<exists>s' w'. await_future (poll_loop (start_future demo_start))
      (new_service \<lparr>fa_srv = Some, fa_expect = Some, fa_upgrade = Some\<rparr>
        (http_service_new (3 :: nat) (2 :: nat) :: (unit, nat, nat, nat) http_service)) () =
    Some (Return (Ok \<lparr>sh_srv = 7, sh_expect = 7, sh_upgrade = None, sh_cfg = service_config_new (KaTimeout 5) 5000 0 False None,
      sh_on_connect = None\<rparr>), s', w')"
proof -
  have "gives countdown 7 (\<lambda>f. f \<noteq> None) the" by (auto simp: gives_def countdown_def)
  then show ?thesis
    using service_starts [of demo_start 7 "\<lambda>f. f \<noteq> None" the 7 "\<lambda>f. f \<noteq> None" the
        "http_service_new 3 2 :: (unit, nat, nat, nat) http_service" "\<lparr>fa_srv = Some, fa_expect = Some, fa_upgrade = Some\<rparr>" "()"]
    by (simp add: http_service_new_def demo_start_def)
qed

lemma ready_when_all_ready_witness:
  "\<exists>w1 w2. (Ready (Ok ()), ()) = (Ready (Ok ()) :: (unit, unit) result poll, w1) \<and> (Ready (Ok ()), w1) = (Ready (Ok ()) :: (unit, unit) result poll, w2)"
  using ready_when_all_ready [of "\<lparr>re_srv_ready = (\<lambda>v w. (Ready (Ok ()), w)), re_expect_ready = (\<lambda>v w. (Ready (Ok ()), w)),
      re_upgrade_ready = (\<lambda>v w. (Ready (Ok ()), w))\<rparr>" "\<lparr>sh_srv = (), sh_expect = (), sh_upgrade = Some (), sh_cfg = service_config_default, sh_on_connect = None :: (unit \<Rightarrow> extensions \<Rightarrow> extensions) option\<rparr>" "()" "()"]
  by (simp add: handler_poll_ready_def)

lemma one_request_is_item_witness: "fst (one_request_poll (\<lambda>f w. (Pending, f, w)) (Some ()) ()) \<noteq> Panic"
  by (rule one_request_is_item) simp

end
