(* ===== verification/Transport_Service.thy ===== *)
theory Transport_Service
  imports Http_Service
begin

text \<open>
  The services of one protocol (\<open>h1/service.rs\<close>, \<open>h2/service.rs\<close>). They are made like the service of both protocols in
  \<open>Http_Service\<close>, with the same futures and the same checks; what is different is that the configuration is taken out of the
  starting future, and that the protocol is fixed.
\<close>

section \<open>HTTP/1\<close>

record ('io, 's, 'x, 'u) h1_service =
  hi_srv :: 's
  hi_cfg :: service_config
  hi_expect :: 'x
  hi_upgrade :: "'u option"
  hi_on_connect :: "('io \<Rightarrow> extensions \<Rightarrow> extensions) option"

definition h1_with_config :: "'x \<Rightarrow> service_config \<Rightarrow> 's \<Rightarrow> ('io, 's, 'x, 'u) h1_service" where
  "h1_with_config expect_handler cfg service =
     \<lparr>hi_srv = service, hi_cfg = cfg, hi_expect = expect_handler, hi_upgrade = None, hi_on_connect = None\<rparr>"

definition h1_expect :: "'y \<Rightarrow> ('io, 's, 'x, 'u) h1_service \<Rightarrow> ('io, 's, 'y, 'u) h1_service" where
  "h1_expect x h = \<lparr>hi_srv = hi_srv h, hi_cfg = hi_cfg h, hi_expect = x, hi_upgrade = hi_upgrade h, hi_on_connect = hi_on_connect h\<rparr>"

definition h1_upgrade :: "'v option \<Rightarrow> ('io, 's, 'x, 'u) h1_service \<Rightarrow> ('io, 's, 'x, 'v) h1_service" where
  "h1_upgrade u h = \<lparr>hi_srv = hi_srv h, hi_cfg = hi_cfg h, hi_expect = hi_expect h, hi_upgrade = u, hi_on_connect = hi_on_connect h\<rparr>"

definition h1_on_connect :: "('io \<Rightarrow> extensions \<Rightarrow> extensions) option \<Rightarrow> ('io, 's, 'x, 'u) h1_service \<Rightarrow> ('io, 's, 'x, 'u) h1_service" where
  "h1_on_connect f h = h\<lparr>hi_on_connect := f\<rparr>"

definition builder_h1 :: "'x0 \<Rightarrow> ('io, 'x, 'u) service_builder \<Rightarrow> 's \<Rightarrow> ('io, 's, 'x, 'u) h1_service" where
  "builder_h1 expect_handler b service =
     (let cfg = service_config_new (hb_keep_alive b) (hb_client_timeout b) (hb_client_disconnect b) (hb_secure b) (hb_local_addr b)
      in h1_on_connect (hb_on_connect b) (h1_upgrade (hb_upgrade b) (h1_expect (hb_expect b)
           (h1_with_config expect_handler cfg service :: ('io, 's, 'x0, 'u) h1_service))))"

text \<open>The starting future; the configuration is beside the part that it shares with \<open>service.rs\<close>, whose own copy it leaves alone.\<close>

record ('io, 'fs, 'fx, 'fu, 'vx, 'vu) h1_start =
  ht_parts :: "('io, 'fs, 'fx, 'fu, 'vx, 'vu) service_start"
  ht_cfg :: "service_config option"

definition h1_new_service ::
  "('s, 'x, 'u, 'fs, 'fx, 'fu) factories \<Rightarrow> ('io, 's, 'x, 'u) h1_service \<Rightarrow> ('io, 'fs, 'fx, 'fu, 'vx, 'vu) h1_start" where
  "h1_new_service fa h =
     \<lparr>ht_parts = \<lparr>ss_fut = fa_srv fa (hi_srv h), ss_fut_ex = Some (fa_expect fa (hi_expect h)),
        ss_fut_upg = map_option (fa_upgrade fa) (hi_upgrade h), ss_expect = None, ss_upgrade = None, ss_cfg = hi_cfg h,
        ss_on_connect = hi_on_connect h\<rparr>,
      ht_cfg = Some (hi_cfg h)\<rparr>"

definition h1_handler ::
  "('fs, 'fx, 'fu, 'vs, 'vx, 'vu, 'w) start_env \<Rightarrow> ('io, 'fs, 'fx, 'fu, 'vx, 'vu) h1_start \<Rightarrow> 'w \<Rightarrow>
   (('io, 'vs, 'vx, 'vu) service_handler, unit) result poll exec \<times> ('io, 'fs, 'fx, 'fu, 'vx, 'vu) h1_start \<times> 'w" where
  "h1_handler env t w =
     (let s = ht_parts t
      in case se_srv env (ss_fut s) w of
           (Panic, fut, w) \<Rightarrow> (Panic, t\<lparr>ht_parts := s\<lparr>ss_fut := fut\<rparr>\<rparr>, w)
         | (Return Pending, fut, w) \<Rightarrow> (Return Pending, t\<lparr>ht_parts := s\<lparr>ss_fut := fut\<rparr>\<rparr>, w)
         | (Return (Ready (Err e)), fut, w) \<Rightarrow> (Return (Ready (Err ())), t\<lparr>ht_parts := s\<lparr>ss_fut := fut\<rparr>\<rparr>, w)
         | (Return (Ready (Ok service)), fut, w) \<Rightarrow>
             (case ht_cfg t of
                None \<Rightarrow> (Panic, t\<lparr>ht_parts := s\<lparr>ss_fut := fut\<rparr>\<rparr>, w)
              | Some cfg \<Rightarrow>
                  (case ss_expect s of
                     None \<Rightarrow> (Panic, \<lparr>ht_parts = s\<lparr>ss_fut := fut\<rparr>, ht_cfg = None\<rparr>, w)
                   | Some expect \<Rightarrow>
                       (Return (Ready (Ok \<lparr>sh_srv = service, sh_expect = expect, sh_upgrade = ss_upgrade s, sh_cfg = cfg,
                          sh_on_connect = ss_on_connect s\<rparr>)),
                        \<lparr>ht_parts = s\<lparr>ss_fut := fut, ss_expect := None, ss_upgrade := None\<rparr>, ht_cfg = None\<rparr>, w))))"

definition h1_start_poll ::
  "('fs, 'fx, 'fu, 'vs, 'vx, 'vu, 'w) start_env \<Rightarrow> ('io, 'fs, 'fx, 'fu, 'vx, 'vu) h1_start \<Rightarrow> 'w \<Rightarrow>
   (('io, 'vs, 'vx, 'vu) service_handler, unit) result poll exec \<times> ('io, 'fs, 'fx, 'fu, 'vx, 'vu) h1_start \<times> 'w" where
  "h1_start_poll env t w =
     (case start_expect env (ht_parts t) w of
        (Some p, s, w) \<Rightarrow> (p, t\<lparr>ht_parts := s\<rparr>, w)
      | (None, s, w) \<Rightarrow>
          (case start_upgrade env s w of
             (Some p, s, w) \<Rightarrow> (p, t\<lparr>ht_parts := s\<rparr>, w)
           | (None, s, w) \<Rightarrow> h1_handler env (t\<lparr>ht_parts := s\<rparr>) w))"

definition h1_poll_ready ::
  "('vs, 'vx, 'vu, 'w) ready_env \<Rightarrow> ('io, 'vs, 'vx, 'vu) service_handler \<Rightarrow> 'w \<Rightarrow> (unit, dispatch_error) result poll \<times> 'w" where
  "h1_poll_ready env h w =
     (case re_expect_ready env (sh_expect h) w of
        (Ready (Err e), w) \<Rightarrow> (Ready (Err DeService), w)
      | (p, w) \<Rightarrow>
          (let ready = (p \<noteq> Pending)
           in case re_srv_ready env (sh_srv h) w of
                (Ready (Err e), w) \<Rightarrow> (Ready (Err DeService), w)
              | (p, w) \<Rightarrow>
                  (let ready = (p \<noteq> Pending \<and> ready)
                   in case sh_upgrade h of
                        None \<Rightarrow> (if ready then Ready (Ok ()) else Pending, w)
                      | Some upg \<Rightarrow>
                          (case re_upgrade_ready env upg w of
                             (Ready (Err e), w) \<Rightarrow> (Ready (Err DeService), w)
                           | (p, w) \<Rightarrow> (if p \<noteq> Pending \<and> ready then Ready (Ok ()) else Pending, w)))))"

definition h1_call ::
  "('io, 'w, 'g, 'c, 'n, 'm, 't, 'd, 'p, 'f, 'r, 's, 'b, 'k, 'h) conn_env \<Rightarrow> ('io, 'vs, 'vx, 'vu) service_handler \<Rightarrow>
   'io \<times> nat option \<Rightarrow> 'w world \<Rightarrow> ('w, 'g, 'c, 'n) disp_env \<times> ('g, 'c, 'n) dispatcher" where
  "h1_call ce h req w =
     (let (io, addr) = req; on_connect = (case sh_on_connect h of Some f \<Rightarrow> Some (f io) | None \<Rightarrow> None);
          env = h1_env (ce_h1 ce) (sh_cfg h) (sh_upgrade h \<noteq> None) on_connect addr
      in (env, disp_new (sh_cfg h) (de_now env w) (ce_write_buf ce) (ce_pool ce)))"

section \<open>One request\<close>

definition one_request_new :: service_config where "one_request_new = service_config_default"

definition one_request_call :: "(h1_codec \<Rightarrow> 'f) \<Rightarrow> service_config \<Rightarrow> 'f option" where
  "one_request_call framed_new config = Some (framed_new (codec_new (sc_ka_enabled config)))"

section \<open>HTTP/2\<close>

record ('io, 's) h2_service =
  hj_srv :: 's
  hj_cfg :: service_config
  hj_on_connect :: "('io \<Rightarrow> extensions \<Rightarrow> extensions) option"

definition h2_with_config :: "service_config \<Rightarrow> 's \<Rightarrow> ('io, 's) h2_service" where
  "h2_with_config cfg service = \<lparr>hj_srv = service, hj_cfg = cfg, hj_on_connect = None\<rparr>"

definition h2_on_connect :: "('io \<Rightarrow> extensions \<Rightarrow> extensions) option \<Rightarrow> ('io, 's) h2_service \<Rightarrow> ('io, 's) h2_service" where
  "h2_on_connect f h = h\<lparr>hj_on_connect := f\<rparr>"

definition builder_h2 :: "('io, 'x, 'u) service_builder \<Rightarrow> 's \<Rightarrow> ('io, 's) h2_service" where
  "builder_h2 b service =
     (let cfg = service_config_new (hb_keep_alive b) (hb_client_timeout b) (hb_client_disconnect b) (hb_secure b) (hb_local_addr b)
      in h2_on_connect (hb_on_connect b) (h2_with_config cfg service))"

record ('io, 'f) h2_start =
  hu_fut :: 'f
  hu_cfg :: "service_config option"
  hu_on_connect :: "('io \<Rightarrow> extensions \<Rightarrow> extensions) option"

record ('io, 'v) h2_handler =
  hw_srv :: 'v
  hw_cfg :: service_config
  hw_on_connect :: "('io \<Rightarrow> extensions \<Rightarrow> extensions) option"

definition h2_new_service :: "('s \<Rightarrow> 'f) \<Rightarrow> ('io, 's) h2_service \<Rightarrow> ('io, 'f) h2_start" where
  "h2_new_service fa h = \<lparr>hu_fut = fa (hj_srv h), hu_cfg = Some (hj_cfg h), hu_on_connect = hj_on_connect h\<rparr>"

definition h2_start_poll ::
  "('f \<Rightarrow> 'w \<Rightarrow> ('v, 'e) result poll exec \<times> 'f \<times> 'w) \<Rightarrow> ('io, 'f) h2_start \<Rightarrow> 'w \<Rightarrow>
   (('io, 'v) h2_handler, 'e) result poll exec \<times> ('io, 'f) h2_start \<times> 'w" where
  "h2_start_poll poll s w =
     (case poll (hu_fut s) w of
        (Panic, fut, w) \<Rightarrow> (Panic, s\<lparr>hu_fut := fut\<rparr>, w)
      | (Return Pending, fut, w) \<Rightarrow> (Return Pending, s\<lparr>hu_fut := fut\<rparr>, w)
      | (Return (Ready (Err e)), fut, w) \<Rightarrow> (Return (Ready (Err e)), s\<lparr>hu_fut := fut\<rparr>, w)
      | (Return (Ready (Ok service)), fut, w) \<Rightarrow>
          (case hu_cfg s of
             None \<Rightarrow> (Panic, s\<lparr>hu_fut := fut\<rparr>, w)
           | Some cfg \<Rightarrow>
               (Return (Ready (Ok \<lparr>hw_srv = service, hw_cfg = cfg, hw_on_connect = hu_on_connect s\<rparr>)),
                s\<lparr>hu_fut := fut, hu_cfg := None\<rparr>, w)))"

definition h2_poll_ready ::
  "('v \<Rightarrow> 'w \<Rightarrow> (unit, unit) result poll \<times> 'w) \<Rightarrow> ('io, 'v) h2_handler \<Rightarrow> 'w \<Rightarrow> (unit, dispatch_error) result poll \<times> 'w" where
  "h2_poll_ready srv_ready h w = (case srv_ready (hw_srv h) w of (p, w) \<Rightarrow> (map_poll (map_err (\<lambda>e. DeService)) p, w))"

text \<open>The state of a connection: what its dispatcher will need is handed over when the handshake is done.\<close>

datatype ('e, 'd, 'h) h2_state = HcIncoming 'e 'd | HcHandshake "service_config option" "nat option" connect_data 'h

type_synonym ('m, 't, 'd, 'p, 'f, 'r, 's, 'b, 'k, 'w, 'h) h2_conn =
  "(('m, 't, 'd, 'p, 'f, 'r, 's, 'b, 'k, 'w) h2_env, ('f, 'r, 's, 'b, 'k) h2_dispatcher, 'h) h2_state"

type_synonym ('m, 't, 'd, 'p, 'f, 'r, 's, 'b, 'k, 'w, 'h) h2_conn_result =
  "((unit, dispatch_error) result exec poll \<times> ('m, 't, 'd, 'p, 'f, 'r, 's, 'b, 'k, 'w, 'h) h2_conn \<times> 'w) option"

definition h2_call ::
  "('io, 'w, 'g, 'c, 'n, 'm, 't, 'd, 'p, 'f, 'r, 's, 'b, 'k, 'h) conn_env \<Rightarrow> ('io, 'v) h2_handler \<Rightarrow> 'io \<times> nat option \<Rightarrow>
   ('m, 't, 'd, 'p, 'f, 'r, 's, 'b, 'k, 'w world, 'h) h2_conn" where
  "h2_call ce h req =
     (let (io, addr) = req; on_connect = (case hw_on_connect h of Some f \<Rightarrow> Some (f io) | None \<Rightarrow> None)
      in HcHandshake (Some (hw_cfg h)) addr on_connect (ce_handshake ce io))"

definition poll_incoming ::
  "('m, 't, 'd, 'p, 'f, 'r, 's, 'b, 'k, 'w) h2_env \<Rightarrow> ('f, 'r, 's, 'b, 'k) h2_dispatcher \<Rightarrow> 'w \<Rightarrow>
   ('m, 't, 'd, 'p, 'f, 'r, 's, 'b, 'k, 'w, 'h) h2_conn_result" where
  "poll_incoming env d w =
     map_option (\<lambda>(p, d, w). (map_poll Return p, HcIncoming env d, w)) (h2_dispatcher_poll env d w)"

definition h2_conn_poll ::
  "('io, 'w, 'g, 'c, 'n, 'm, 't, 'd, 'p, 'f, 'r, 's, 'b, 'k, 'h) conn_env \<Rightarrow>
   ('m, 't, 'd, 'p, 'f, 'r, 's, 'b, 'k, 'w world, 'h) h2_conn \<Rightarrow> 'w world \<Rightarrow>
   ('m, 't, 'd, 'p, 'f, 'r, 's, 'b, 'k, 'w world, 'h) h2_conn_result" where
  "h2_conn_poll ce st w =
     (case st of
        HcIncoming env d \<Rightarrow> poll_incoming env d w
      | HcHandshake config peer_addr on_connect hs \<Rightarrow>
          (case ce_poll ce hs w of
             (Ready (Ok _), hs, w) \<Rightarrow>
               (case config of
                  None \<Rightarrow> Some (Ready Panic, HcHandshake None peer_addr on_connect hs, w)
                | Some cfg \<Rightarrow>
                    (let env = h2_env_of (ce_h2 ce) cfg on_connect peer_addr
                     in poll_incoming env (h2_dispatcher_new cfg (hv_now env w) None (ce_pool ce)) w))
           | (Ready (Err e), hs, w) \<Rightarrow> Some (Ready (Return (Err (DeH2 e))), HcHandshake config peer_addr on_connect hs, w)
           | (Pending, hs, w) \<Rightarrow> Some (Pending, HcHandshake config peer_addr on_connect hs, w)))"

section \<open>The services agree\<close>

text \<open>The future of the HTTP/1 service starts what the future of \<open>service.rs\<close> starts, poll by poll.\<close>

fun with_cfg ::
  "('io, 'fs, 'fx, 'fu, 'vx, 'vu) service_start \<Rightarrow> service_config option \<Rightarrow> ('io, 'fs, 'fx, 'fu, 'vx, 'vu) h1_start" where
  "with_cfg s cfg = \<lparr>ht_parts = s, ht_cfg = cfg\<rparr>"

lemma start_parts_keep:
  "start_expect env s w = (r, s', w') \<Longrightarrow> ss_cfg s' = ss_cfg s \<and> ss_on_connect s' = ss_on_connect s"
  "start_upgrade env s w = (r', s', w') \<Longrightarrow> ss_cfg s' = ss_cfg s \<and> ss_on_connect s' = ss_on_connect s"
  by (auto simp: start_expect_def start_upgrade_def split: option.splits prod.splits exec.splits poll.splits result.splits)

lemma h1_handler_agrees:
  assumes "start_service env s w = (p, s', w')"
  shows "\<exists>cfg. h1_handler env (with_cfg s (Some (ss_cfg s))) w = (p, with_cfg s' cfg, w') \<and> (p = Return Pending \<longrightarrow> cfg = Some (ss_cfg s'))"
  using assms
  by (auto simp: start_service_def h1_handler_def split: option.splits prod.splits exec.splits poll.splits result.splits)

theorem h1_starts_like_http:
  assumes "start_poll env s w = (p, s', w')"
  shows "\<exists>cfg. h1_start_poll env (with_cfg s (Some (ss_cfg s))) w = (p, with_cfg s' cfg, w') \<and>
    (p = Return Pending \<longrightarrow> cfg = Some (ss_cfg s'))"
proof -
  obtain r1 s1 w1 where e: "start_expect env s w = (r1, s1, w1)" by (metis prod_cases3)
  obtain r2 s2 w2 where u: "start_upgrade env s1 w1 = (r2, s2, w2)" by (metis prod_cases3)
  note keep = start_parts_keep(1) [OF e] start_parts_keep(2) [OF u]
  show ?thesis
  proof (cases r1)
    case (Some p1)
    with assms e keep show ?thesis by (simp add: start_poll_def h1_start_poll_def)
  next
    case r1: None
    show ?thesis
    proof (cases r2)
      case (Some p2)
      with assms e u keep r1 show ?thesis by (simp add: start_poll_def h1_start_poll_def)
    next
      case None
      with assms e u r1 have "start_service env s2 w2 = (p, s', w')" by (simp add: start_poll_def)
      from h1_handler_agrees [OF this] e u r1 None keep show ?thesis by (simp add: h1_start_poll_def)
    qed
  qed
qed

text \<open>
  A connection of the HTTP/2 service is one of the service of both protocols on which TLS has chosen HTTP/2: they take the same
  steps, and give the same answers.
\<close>

fun as_http ::
  "('m, 't, 'd, 'p, 'f, 'r, 's, 'b, 'k, 'w world, 'h) h2_conn \<Rightarrow> ('w, 'g, 'c, 'n, 'm, 't, 'd, 'p, 'f, 'r, 's, 'b, 'k, 'h) conn_state" where
  "as_http (HcIncoming env d) = HsH2 env d"
| "as_http (HcHandshake cfg peer_addr on_connect hs) =
     HsH2Handshake (case cfg of None \<Rightarrow> None | Some c \<Rightarrow> Some (hs, c, on_connect, peer_addr))"

fun as_stop :: "(unit, dispatch_error) result exec \<Rightarrow> (unit, stop) result" where
  "as_stop Panic = Err Crashed"
| "as_stop (Return r) = map_err Failed r"

fun configured :: "('e, 'd, 'h) h2_state \<Rightarrow> bool" where
  "configured (HcIncoming env d) \<longleftrightarrow> True"
| "configured (HcHandshake cfg peer_addr on_connect hs) \<longleftrightarrow> cfg \<noteq> None"

lemma map_poll_map: "map_poll f (map_poll g p) = map_poll (\<lambda>a. f (g a)) p"
  by (cases p) simp_all

lemma poll_h2_incoming:
  "poll_h2 env d w = map_option (\<lambda>(p, st, w). (map_poll as_stop p, as_http st, w)) (poll_incoming env d w)"
  by (simp add: poll_h2_def poll_incoming_def option.map_comp comp_def case_prod_unfold map_poll_map)

theorem h2_like_http_service:
  assumes "configured st"
  shows "http_state_poll ce (as_http st) w = map_option (\<lambda>(p, st, w). (map_poll as_stop p, as_http st, w)) (h2_conn_poll ce st w)"
proof (cases st)
  case (HcIncoming env d)
  then show ?thesis by (simp add: http_state_poll_def h2_conn_poll_def poll_h2_incoming)
next
  case (HcHandshake cfg peer_addr on_connect hs)
  with assms obtain c where "cfg = Some c" by auto
  then show ?thesis
    by (auto simp: HcHandshake http_state_poll_def h2_conn_poll_def poll_h2_incoming Let_def split: prod.split poll.split result.split)
qed

lemma map_poll_panic: "map_poll Return p \<noteq> Ready Panic"
  by (cases p) simp_all

text \<open>The \<open>unwrap\<close> on the configuration and on the service never panics: they are taken once.\<close>

theorem h2_connection_configured:
  assumes "h2_conn_poll ce st w = Some (p, st', w')" and "configured st"
  shows "configured st' \<and> p \<noteq> Ready Panic"
  using assms
  by (cases st) (auto simp: h2_conn_poll_def poll_incoming_def Let_def map_poll_panic
      split: prod.splits poll.splits result.splits option.splits)

lemma calls_agree:
  "handler_call ce h (io, ProtoHttp1, addr) w = (let (env, d) = h1_call ce h (io, addr) w in HsH1 env d)"
  "handler_call ce h (io, ProtoHttp2, addr) w =
     as_http (h2_call ce \<lparr>hw_srv = sh_srv h, hw_cfg = sh_cfg h, hw_on_connect = sh_on_connect h\<rparr> (io, addr))"
  by (simp_all add: handler_call_def h1_call_def h2_call_def Let_def)

lemma builders_agree:
  "hi_cfg (builder_h1 x0 b srv) = hs_cfg (builder_finish b srv) \<and> hj_cfg (builder_h2 b srv) = hs_cfg (builder_finish b srv) \<and>
   hi_expect (builder_h1 x0 b srv) = hb_expect b \<and> hi_upgrade (builder_h1 x0 b srv) = hb_upgrade b \<and>
   hi_on_connect (builder_h1 x0 b srv) = hb_on_connect b \<and> hj_on_connect (builder_h2 b srv) = hb_on_connect b"
  by (simp add: builder_h1_def builder_h2_def builder_finish_def h1_on_connect_def h1_upgrade_def h1_expect_def h1_with_config_def
      h2_on_connect_def h2_with_config_def Let_def)

end
