(* ===== verification/Typed_Headers.thy ===== *)
theory Typed_Headers
  imports Entity_Tag Quality_Item Http_Request
begin

text \<open>
  The typed headers that the macro of \<open>header/common/mod.rs\<close> makes, with its instances (\<open>accept.rs\<close>, \<open>accept_charset.rs\<close>,
  \<open>accept_language.rs\<close>, \<open>allow.rs\<close>, \<open>content_language.rs\<close>, \<open>content_type.rs\<close>, \<open>etag.rs\<close> and the headers that are dates), and
  dates (\<open>header/shared/httpdate.rs\<close>). Media types and language tags are their texts, their parsers are parameters, like
  the calendar of the crate \<open>time\<close>.
\<close>

section \<open>The macro\<close>

text \<open>A list of items, over all values of the name; a single value; and their conversion into a header value.\<close>

definition list_header_parse ::
  "http_lib \<Rightarrow> (bytes \<Rightarrow> ('a, 'e) result) \<Rightarrow> header_name \<Rightarrow> header_map \<Rightarrow> ('a list, parse_error) result" where
  "list_header_parse lib parse name headers = from_comma_delimited lib parse (ga_list (hm_get_all lib headers (ByName name)))"

definition single_header_parse ::
  "http_lib \<Rightarrow> (bytes \<Rightarrow> ('a, 'e) result) \<Rightarrow> header_name \<Rightarrow> header_map \<Rightarrow> ('a, parse_error) result exec" where
  "single_header_parse lib parse name headers =
     exec_bind (hm_get lib headers (ByName name)) (\<lambda>v. Return (from_one_raw_str lib parse v))"

definition list_header_value :: "(bytes \<Rightarrow> header_value option) \<Rightarrow> ('a \<Rightarrow> bytes) \<Rightarrow> 'a list \<Rightarrow> header_value option" where
  "list_header_value from_shared fmt xs = from_shared (fmt_comma_delimited fmt xs)"

section \<open>Instances\<close>

definition ACCEPT :: header_name where "ACCEPT = bstr ''accept''"
definition ACCEPT_CHARSET :: header_name where "ACCEPT_CHARSET = bstr ''accept-charset''"
definition ACCEPT_LANGUAGE :: header_name where "ACCEPT_LANGUAGE = bstr ''accept-language''"
definition ALLOW :: header_name where "ALLOW = bstr ''allow''"
definition CONTENT_LANGUAGE :: header_name where "CONTENT_LANGUAGE = bstr ''content-language''"
definition ETAG :: header_name where "ETAG = bstr ''etag''"

definition accept_parse ::
  "http_lib \<Rightarrow> (bytes \<Rightarrow> ('m, 'e) result) \<Rightarrow> header_map \<Rightarrow> ('m quality_item list, parse_error) result" where
  "accept_parse lib mime = list_header_parse lib (quality_item_from_str mime) ACCEPT"

definition accept_star :: "bytes quality_item list" where "accept_star = [qitem (bstr ''*/*'')]"
definition accept_json :: "bytes quality_item list" where "accept_json = [qitem (bstr ''application/json'')]"
definition accept_text :: "bytes quality_item list" where "accept_text = [qitem (bstr ''text/*'')]"
definition accept_image :: "bytes quality_item list" where "accept_image = [qitem (bstr ''image/*'')]"

definition accept_charset_parse :: "http_lib \<Rightarrow> header_map \<Rightarrow> (charset quality_item list, parse_error) result" where
  "accept_charset_parse lib = list_header_parse lib (quality_item_from_str charset_from_str) ACCEPT_CHARSET"

definition accept_charset_fmt :: "charset quality_item list \<Rightarrow> bytes" where
  "accept_charset_fmt = fmt_comma_delimited (quality_item_fmt charset_label)"

definition accept_language_parse ::
  "http_lib \<Rightarrow> (bytes \<Rightarrow> ('l, 'e) result) \<Rightarrow> header_map \<Rightarrow> ('l quality_item list, parse_error) result" where
  "accept_language_parse lib tag = list_header_parse lib (quality_item_from_str tag) ACCEPT_LANGUAGE"

definition content_language_parse ::
  "http_lib \<Rightarrow> (bytes \<Rightarrow> ('l, 'e) result) \<Rightarrow> header_map \<Rightarrow> ('l quality_item list, parse_error) result" where
  "content_language_parse lib tag = list_header_parse lib (quality_item_from_str tag) CONTENT_LANGUAGE"

definition allow_parse :: "http_lib \<Rightarrow> header_map \<Rightarrow> (http_method list, parse_error) result" where
  "allow_parse lib =
     list_header_parse lib (\<lambda>s. case hl_method_from_bytes lib s of Some m \<Rightarrow> Ok m | None \<Rightarrow> Err ()) ALLOW"

definition content_type_parse :: "http_lib \<Rightarrow> (bytes \<Rightarrow> ('m, 'e) result) \<Rightarrow> header_map \<Rightarrow> ('m, parse_error) result exec" where
  "content_type_parse lib mime = single_header_parse lib mime CONTENT_TYPE"

definition content_type_json :: bytes where "content_type_json = bstr ''application/json''"
definition content_type_plaintext :: bytes where "content_type_plaintext = bstr ''text/plain; charset=utf-8''"
definition content_type_html :: bytes where "content_type_html = bstr ''text/html''"
definition content_type_xml :: bytes where "content_type_xml = bstr ''text/xml''"
definition content_type_form :: bytes where "content_type_form = bstr ''application/x-www-form-urlencoded''"
definition content_type_jpeg :: bytes where "content_type_jpeg = bstr ''image/jpeg''"
definition content_type_png :: bytes where "content_type_png = bstr ''image/png''"
definition content_type_octet_stream :: bytes where "content_type_octet_stream = bstr ''application/octet-stream''"

definition etag_parse :: "http_lib \<Rightarrow> header_map \<Rightarrow> (entity_tag, parse_error) result exec" where
  "etag_parse lib = single_header_parse lib et_from_str ETAG"

section \<open>Dates\<close>

text \<open>The three formats in their order; \<open>strptime\<close> is a parameter, and so are the conversions of a broken-down time.\<close>

type_synonym timespec = "64 word \<times> 32 word"

record 'tm time_lib =
  ti_strptime :: "bytes \<Rightarrow> string \<Rightarrow> 'tm option"
  ti_rfc822 :: "'tm \<Rightarrow> bytes"
  ti_to_utc :: "'tm \<Rightarrow> 'tm"
  ti_at_utc :: "timespec \<Rightarrow> 'tm"
  ti_to_timespec :: "'tm \<Rightarrow> timespec"

definition http_date_from_str :: "'tm time_lib \<Rightarrow> bytes \<Rightarrow> ('tm, parse_error) result" where
  "http_date_from_str lib s =
     (case ti_strptime lib s ''%a, %d %b %Y %T %Z'' of
        Some t \<Rightarrow> Ok t
      | None \<Rightarrow>
          (case ti_strptime lib s ''%A, %d-%b-%y %T %Z'' of
             Some t \<Rightarrow> Ok t
           | None \<Rightarrow> (case ti_strptime lib s ''%c'' of Some t \<Rightarrow> Ok t | None \<Rightarrow> Err PeHeader)))"

definition http_date_fmt :: "'tm time_lib \<Rightarrow> 'tm \<Rightarrow> bytes" where
  "http_date_fmt lib d = ti_rfc822 lib (ti_to_utc lib d)"

definition http_date_value :: "'tm time_lib \<Rightarrow> (bytes \<Rightarrow> header_value option) \<Rightarrow> 'tm \<Rightarrow> header_value option" where
  "http_date_value lib from_shared d = from_shared (ti_rfc822 lib d)"

text \<open>A header whose value is a date.\<close>

definition date_header_parse :: "http_lib \<Rightarrow> 'tm time_lib \<Rightarrow> header_name \<Rightarrow> header_map \<Rightarrow> ('tm, parse_error) result exec" where
  "date_header_parse lib time = single_header_parse lib (http_date_from_str time)"

definition date_parse :: "http_lib \<Rightarrow> 'tm time_lib \<Rightarrow> header_map \<Rightarrow> ('tm, parse_error) result exec" where
  "date_parse lib time = date_header_parse lib time DATE"

definition expires_parse :: "http_lib \<Rightarrow> 'tm time_lib \<Rightarrow> header_map \<Rightarrow> ('tm, parse_error) result exec" where
  "expires_parse lib time = date_header_parse lib time (bstr ''expires'')"

definition if_modified_since_parse :: "http_lib \<Rightarrow> 'tm time_lib \<Rightarrow> header_map \<Rightarrow> ('tm, parse_error) result exec" where
  "if_modified_since_parse lib time = date_header_parse lib time (bstr ''if-modified-since'')"

definition if_unmodified_since_parse :: "http_lib \<Rightarrow> 'tm time_lib \<Rightarrow> header_map \<Rightarrow> ('tm, parse_error) result exec" where
  "if_unmodified_since_parse lib time = date_header_parse lib time (bstr ''if-unmodified-since'')"

definition last_modified_parse :: "http_lib \<Rightarrow> 'tm time_lib \<Rightarrow> header_map \<Rightarrow> ('tm, parse_error) result exec" where
  "last_modified_parse lib time = date_header_parse lib time (bstr ''last-modified'')"

text \<open>
  A time of the system is a number of nanoseconds since 1970. \<open>Timespec::new\<close> panics when the nanoseconds are not between 0
  and a second, and the negation of the smallest integer overflows. A time moved by a duration panics beyond the 64 signed bits
  of its seconds.
\<close>

definition timespec_new :: "64 word \<Rightarrow> 32 word \<Rightarrow> timespec exec" where
  "timespec_new sec nsec = (if 0 \<le> sint nsec \<and> sint nsec < 1000000000 then Return (sec, nsec) else Panic)"

definition duration_of :: "int \<Rightarrow> 64 word \<times> 32 word" where
  "duration_of t = (word_of_int (t div 1000000000), word_of_int (t mod 1000000000))"

definition http_date_from_system :: "'tm time_lib \<Rightarrow> int \<Rightarrow> 'tm exec" where
  "http_date_from_system lib t =
     (let spec = (if 0 \<le> t then (let (secs, nanos) = duration_of t in timespec_new secs nanos)
                  else (let (secs, nanos) = duration_of (- t)
                        in if secs = 2 ^ 63 then Panic else timespec_new (- secs) (- nanos)))
      in exec_bind spec (\<lambda>ts. Return (ti_at_utc lib ts)))"

definition epoch_plus :: "64 word \<Rightarrow> 32 word \<Rightarrow> int exec" where
  "epoch_plus secs nanos = (if uint secs < 2 ^ 63 then Return (uint secs * 1000000000 + uint nanos) else Panic)"

definition epoch_minus :: "64 word \<Rightarrow> 32 word \<Rightarrow> int exec" where
  "epoch_minus secs nanos = (if uint secs < 2 ^ 63 then Return (- (uint secs * 1000000000 + uint nanos)) else Panic)"

definition http_date_to_system :: "'tm time_lib \<Rightarrow> 'tm \<Rightarrow> int exec" where
  "http_date_to_system lib d =
     (let (sec, nsec) = ti_to_timespec lib d
      in if 0 \<le> sint sec then epoch_plus sec nsec else epoch_minus sec nsec)"

section \<open>Lists with qualities\<close>

text \<open>Items that are good in a list are good with a quality, unless a thousandth of it is lost.\<close>

definition quality_kept :: "quality \<Rightarrow> bool" where
  "quality_kept q \<longleftrightarrow> q \<le> 1000 \<and> q \<notin> {251, 253, 502, 506, 511}"

lemma unat_u16: "n < 65536 \<Longrightarrow> unat (q :: u16) = n \<longleftrightarrow> q = of_nat n"
  by (auto simp: unat_of_nat)

locale quality_list = list_item parse fmt good
  for parse :: "bytes \<Rightarrow> ('a, 'e) result" and fmt :: "'a \<Rightarrow> bytes" and good :: "'a \<Rightarrow> bool" +
  assumes fmt_ascii: "good x \<Longrightarrow> list_all (\<lambda>b. b < 0x80 \<and> b \<noteq> 0x3B) (fmt x)"
begin

lemma quality_parse_fmt:
  assumes "good (qi_item q)" and "quality_kept (qi_quality q)"
  shows "quality_item_from_str parse (quality_item_fmt fmt q) = Ok q"
proof -
  have n: "qi_quality q = of_nat (unat (qi_quality q))" by simp
  have "unat (qi_quality q) \<le> 1000" "unat (qi_quality q) \<notin> {251, 253, 502, 506, 511}"
    using assms(2) by (auto simp: quality_kept_def word_le_nat_alt unat_u16)
  then show ?thesis
    using quality_item_roundtrip [of parse fmt "qi_item q" "unat (qi_quality q)"] parse_fmt [OF assms(1)] fmt_plain [OF assms(1)]
      fmt_ascii [OF assms(1)] by (cases q) simp
qed

lemma quality_fmt_plain:
  assumes "good (qi_item q)" and "quality_kept (qi_quality q)"
  shows "quality_item_fmt fmt q \<noteq> [] \<and> trimmed (quality_item_fmt fmt q) \<and> 0x2C \<notin> set (quality_item_fmt fmt q)"
proof -
  let ?n = "unat (qi_quality q)"
  have f: "fmt (qi_item q) \<noteq> []" "\<not> is_ws (hd (fmt (qi_item q)))" "trimmed (fmt (qi_item q))" "0x2C \<notin> set (fmt (qi_item q))"
    using fmt_plain [OF assms(1)] by (auto simp: trimmed_def)
  consider "qi_quality q = 1000" | "qi_quality q = 0" | "qi_quality q \<noteq> 1000" "qi_quality q \<noteq> 0" "0 < ?n" "?n < 1000"
  proof -
    have "?n \<le> 1000" using assms(2) by (simp add: quality_kept_def word_le_nat_alt)
    moreover have "?n = 1000 \<longleftrightarrow> qi_quality q = 1000" by (simp add: unat_u16)
    moreover have "?n = 0 \<longleftrightarrow> qi_quality q = 0" by (simp add: unat_eq_0)
    ultimately show thesis using that by linarith
  qed
  then show ?thesis
  proof cases
    case 1
    with f show ?thesis by (simp add: quality_item_fmt_def)
  next
    case 2
    with f show ?thesis by (auto simp: quality_item_fmt_def trimmed_def is_ws_def)
  next
    case 3
    let ?ds = "trim_end_zeros (pad03 ?n)"
    note ds = f32_from_thousandths(3,4) [OF 3(3,4)]
    have dig: "is_digit b \<Longrightarrow> b \<noteq> 0x2C \<and> \<not> is_ws b" for b by (auto simp: is_digit_def is_ws_def word_le_nat_alt)
    have "0x2C \<notin> set ?ds" using ds(2) dig by blast
    moreover have "\<not> is_ws (last ?ds)" using ds dig last_in_set by blast
    ultimately show ?thesis using f ds(1) 3(1,2) by (simp add: quality_item_fmt_def trimmed_def)
  qed
qed

end

sublocale quality_list \<subseteq> qualities: list_item "quality_item_from_str parse" "quality_item_fmt fmt"
  "\<lambda>q. good (qi_item q) \<and> quality_kept (qi_quality q)"
  by unfold_locales (auto simp: quality_parse_fmt quality_fmt_plain)

definition charset_listed :: "charset \<Rightarrow> bool" where
  "charset_listed c \<longleftrightarrow> charset_from_str (charset_label c) = Ok c \<and> charset_label c \<noteq> [] \<and> trimmed (charset_label c) \<and>
     list_all (\<lambda>b. b < 0x80 \<and> b \<noteq> 0x3B \<and> b \<noteq> 0x2C) (charset_label c)"

interpretation charsets: quality_list charset_from_str charset_label charset_listed
  by unfold_locales (auto simp: charset_listed_def list_all_iff)

lemma insert_get_all: "ga_list (hm_get_all lib (hm_insert h name v) (ByName name)) = [v]"
  by (simp add: ga_list_items ga_items_def hm_get_all_def hm_get2_def as_name_def hm_insert_def update_Some_unfold update_conv)

text \<open>
  What a handler writes into \<open>Accept-Charset\<close> is what is read there: any list of known character sets, with qualities of which
  no thousandth is lost, survives printing, the header map and parsing, whatever else is in the map.
\<close>

theorem accept_charset_survives:
  assumes "list_all (\<lambda>q. charset_listed (qi_item q) \<and> quality_kept (qi_quality q)) qs"
    and "hl_to_str lib (accept_charset_fmt qs) = Some (accept_charset_fmt qs)"
  shows "accept_charset_parse lib (hm_insert h ACCEPT_CHARSET (accept_charset_fmt qs)) = Ok qs"
  using charsets.qualities.from_comma_delimited_fmt [of "[qs]" lib] assms
  by (simp add: accept_charset_parse_def list_header_parse_def insert_get_all accept_charset_fmt_def)

lemma accept_charset_survives_witness:
  "accept_charset_parse demo_http (hm_insert [(ACCEPT_CHARSET, One [1])] ACCEPT_CHARSET
      (accept_charset_fmt [\<lparr>qi_item = Koi8_R, qi_quality = 500\<rparr>, \<lparr>qi_item = Us_Ascii, qi_quality = 1000\<rparr>])) =
   Ok [\<lparr>qi_item = Koi8_R, qi_quality = 500\<rparr>, \<lparr>qi_item = Us_Ascii, qi_quality = 1000\<rparr>]"
  by (rule accept_charset_survives)
     (simp_all add: charset_listed_def quality_kept_def trimmed_def is_ws_def demo_http_def
       charset_named [of Koi8_R, simplified] charset_named [of Us_Ascii, simplified])

text \<open>An entity tag that is set is the one that is read, and nothing else is.\<close>

theorem etag_survives:
  assumes "hl_to_str lib v = Some v"
  shows "etag_parse lib (hm_insert h ETAG v) = Return (Ok t) \<longleftrightarrow> v = et_fmt t \<and> check_slice_validity (et_tag t)"
proof -
  have "hm_get lib (hm_insert h ETAG v) (ByName ETAG) = Return (Some v)"
    by (simp add: hm_get_def hm_get2_def as_name_def hm_insert_def update_conv)
  moreover have "et_from_str [] = Err PeHeader" by (simp add: et_from_str_def)
  ultimately show ?thesis
    using assms entity_tag_exact [of v t]
    by (auto simp: etag_parse_def single_header_parse_def from_one_raw_str_def split: result.splits)
qed

lemma etag_survives_witness: "etag_parse demo_http (hm_insert [] ETAG (bstr ''W/\"a\"'')) = Return (Ok \<lparr>et_weak = True, et_tag = bstr ''a''\<rparr>)"
  using etag_survives [of demo_http "bstr ''W/\"a\"''" "[]" "\<lparr>et_weak = True, et_tag = bstr ''a''\<rparr>"]
  by (simp add: demo_http_def et_fmt_def check_slice_validity_def)

section \<open>Dates before 1970\<close>

lemma seconds_word:
  assumes "0 \<le> s" and "s < 2 ^ 63"
  shows "uint (word_of_int s :: 64 word) = s" "sint (word_of_int s :: 64 word) = s" "word_of_int s \<noteq> (2 ^ 63 :: 64 word)"
    "sint (- word_of_int s :: 64 word) = - s" "0 < s \<Longrightarrow> uint (- word_of_int s :: 64 word) = 2 ^ 64 - s"
proof -
  show u: "uint (word_of_int s :: 64 word) = s" using assms by (simp add: uint_word_of_int)
  show "sint (word_of_int s :: 64 word) = s" using assms by (simp add: signed_of_int signed_take_bit_int_eq_self)
  have "uint (2 ^ 63 :: 64 word) = 2 ^ 63" by simp
  moreover have "uint (word_of_int s :: 64 word) \<noteq> 2 ^ 63" unfolding u using assms(2) by (rule less_imp_neq)
  ultimately show "word_of_int s \<noteq> (2 ^ 63 :: 64 word)" by (rule_tac notI) (drule arg_cong [of _ _ uint], simp only:)
  have "sint (- word_of_int s :: 64 word) = signed_take_bit 63 (- s)"
    unfolding wi_hom_neg signed_of_int by simp
  also have "\<dots> = - s" by (rule signed_take_bit_int_eq_self) (use assms in simp_all)
  finally show "sint (- word_of_int s :: 64 word) = - s" .
  show "uint (- word_of_int s :: 64 word) = 2 ^ 64 - s" if "0 < s"
  proof -
    have "uint (- word_of_int s :: 64 word) = (- s) mod 2 ^ 64" unfolding wi_hom_neg uint_word_of_int by simp
    also have "\<dots> = 2 ^ 64 - s" using assms that by (simp add: zmod_zminus1_eq_if)
    finally show ?thesis .
  qed
qed

lemma nanos_word:
  assumes "0 \<le> n" and "n < 1000000000"
  shows "uint (word_of_int n :: 32 word) = n" "sint (word_of_int n :: 32 word) = n" "sint (- word_of_int n :: 32 word) = - n"
proof -
  show "uint (word_of_int n :: 32 word) = n" using assms by (simp add: uint_word_of_int)
  show "sint (word_of_int n :: 32 word) = n" using assms by (simp add: signed_of_int signed_take_bit_int_eq_self)
  have "sint (- word_of_int n :: 32 word) = signed_take_bit 31 (- n)"
    unfolding wi_hom_neg signed_of_int by simp
  also have "\<dots> = - n" by (rule signed_take_bit_int_eq_self) (use assms in simp_all)
  finally show "sint (- word_of_int n :: 32 word) = - n" .
qed

lemma duration_split:
  assumes "0 \<le> t" and "t < 2 ^ 63 * 1000000000"
  obtains s n where "t = s * 1000000000 + n" "0 \<le> s" "s < 2 ^ 63" "0 \<le> n" "n < 1000000000"
    "duration_of t = (word_of_int s, word_of_int n)"
proof (rule that [of "t div 1000000000" "t mod 1000000000"])
  show "0 \<le> t div 1000000000" "t div 1000000000 < 2 ^ 63" using assms by linarith+
qed (simp_all add: duration_of_def)

text \<open>
  Property C40. A time of the system that becomes a date and is converted back is the same time from 1970 on. Every earlier time panics: one with
  a fraction of a second when the date is made, the others when it is converted back, since the negative seconds are cast to
  an unsigned integer instead of being negated.
\<close>

theorem http_date_times:
  assumes "\<And>ts. ti_to_timespec lib (ti_at_utc lib ts) = ts" and "\<bar>t\<bar> < 2 ^ 63 * 1000000000"
  shows "exec_bind (http_date_from_system lib t) (http_date_to_system lib) = (if 0 \<le> t then Return t else Panic)"
proof (cases "0 \<le> t")
  case True
  with assms(2) have "t < 2 ^ 63 * 1000000000" by simp
  with True obtain s n where d: "t = s * 1000000000 + n" "0 \<le> s" "s < 2 ^ 63" "0 \<le> n" "n < 1000000000"
    "duration_of t = (word_of_int s, word_of_int n)" by (rule duration_split)
  have "http_date_from_system lib t = Return (ti_at_utc lib (word_of_int s, word_of_int n))"
    using True d(4-6) nanos_word [OF d(4,5)] by (simp add: http_date_from_system_def timespec_new_def)
  moreover have "http_date_to_system lib (ti_at_utc lib (word_of_int s, word_of_int n)) = Return t"
    using d(1-3) seconds_word(1,2) [OF d(2,3)] nanos_word(1) [OF d(4,5)]
    by (simp add: http_date_to_system_def assms(1) epoch_plus_def)
  ultimately show ?thesis using True by simp
next
  case False
  with assms(2) have neg: "0 \<le> - t" "- t < 2 ^ 63 * 1000000000" by simp_all
  obtain s n where d: "- t = s * 1000000000 + n" "0 \<le> s" "s < 2 ^ 63" "0 \<le> n" "n < 1000000000"
    "duration_of (- t) = (word_of_int s, word_of_int n)" by (rule duration_split [OF neg])
  note w = seconds_word [OF d(2,3)] and nw = nanos_word [OF d(4,5)]
  show ?thesis
  proof (cases "n = 0")
    case True
    then have pos: "0 < s" using d(1) False by linarith
    have "http_date_from_system lib t = Return (ti_at_utc lib (- word_of_int s, 0))"
      using False d(6) w(3) True by (simp add: http_date_from_system_def timespec_new_def)
    moreover have "http_date_to_system lib (ti_at_utc lib (- word_of_int s, 0)) = Panic"
      using w(4) w(5) [OF pos] pos d(3) by (simp add: http_date_to_system_def assms(1) epoch_minus_def)
    ultimately show ?thesis using False by simp
  next
    case nz: False
    then have "http_date_from_system lib t = Panic"
      using False d(4,6) w(3) nw(3) by (simp add: http_date_from_system_def timespec_new_def)
    with False show ?thesis by simp
  qed
qed

lemma http_date_times_witness:
  "exec_bind (http_date_from_system \<lparr>ti_strptime = (\<lambda>s f. None), ti_rfc822 = (\<lambda>t. []), ti_to_utc = id, ti_at_utc = id, ti_to_timespec = id\<rparr> (- 5))
     (http_date_to_system \<lparr>ti_strptime = (\<lambda>s f. None), ti_rfc822 = (\<lambda>t. []), ti_to_utc = id, ti_at_utc = id, ti_to_timespec = id\<rparr>) = Panic"
  by (subst http_date_times) simp_all

end
