(* ===== verification/Byte_Range.thy ===== *)
theory Byte_Range
  imports Header_Values
begin

text \<open>
  The \<open>Range\<close> header (\<open>header/common/range.rs\<close>; no module of the library includes the file at present). A text is an ASCII header
  value; \<open>parse_header\<close> is \<open>from_one_raw_str\<close> with the parser below.
\<close>

datatype byte_range_spec = FromTo u64 u64 | AllFrom u64 | LastBytes u64

datatype byte_ranges = RangeBytes "byte_range_spec list" | RangeUnregistered bytes bytes

definition to_satisfiable_range :: "u64 \<Rightarrow> byte_range_spec \<Rightarrow> (u64 \<times> u64) option" where
  "to_satisfiable_range full_length r =
     (if full_length = 0 then None
      else case r of
        FromTo a b \<Rightarrow> if a < full_length \<and> a \<le> b then Some (a, min b (full_length - 1)) else None
      | AllFrom a \<Rightarrow> if a < full_length then Some (a, full_length - 1) else None
      | LastBytes n \<Rightarrow>
          if n > 0 then
            (if n > full_length then Some (0, full_length - 1) else Some (full_length - n, full_length - 1))
          else None)"

definition range_bytes :: "u64 \<Rightarrow> u64 \<Rightarrow> byte_ranges" where
  "range_bytes a b = RangeBytes [FromTo a b]"

definition range_bytes_multi :: "(u64 \<times> u64) list \<Rightarrow> byte_ranges" where
  "range_bytes_multi rs = RangeBytes (map (\<lambda>r. FromTo (fst r) (snd r)) rs)"

fun byte_range_fmt :: "byte_range_spec \<Rightarrow> bytes" where
  "byte_range_fmt (FromTo a b) = dec_u64 a @ [0x2D] @ dec_u64 b"
| "byte_range_fmt (LastBytes n) = [0x2D] @ dec_u64 n"
| "byte_range_fmt (AllFrom a) = dec_u64 a @ [0x2D]"

fun join_ranges :: "byte_range_spec list \<Rightarrow> bytes" where
  "join_ranges [] = []"
| "join_ranges [r] = byte_range_fmt r"
| "join_ranges (r # rs) = byte_range_fmt r @ [0x2C] @ join_ranges rs"

fun range_fmt :: "byte_ranges \<Rightarrow> bytes" where
  "range_fmt (RangeBytes rs) = bstr ''bytes='' @ join_ranges rs"
| "range_fmt (RangeUnregistered unit range_str) = unit @ bstr ''='' @ range_str"

definition byte_range_from_str :: "bytes \<Rightarrow> (byte_range_spec, parse_error) result" where
  "byte_range_from_str s =
     (case split_in_two s 0x2D of
        None \<Rightarrow> Err PeHeader
      | Some (start, end) \<Rightarrow>
          if start = [] then (case u64_or_header end of Ok n \<Rightarrow> Ok (LastBytes n) | Err e \<Rightarrow> Err PeHeader)
          else if end = [] then (case u64_or_header start of Ok n \<Rightarrow> Ok (AllFrom n) | Err e \<Rightarrow> Err PeHeader)
          else (case (u64_or_header start, u64_or_header end) of
                  (Ok a, Ok b) \<Rightarrow> if a \<le> b then Ok (FromTo a b) else Err PeHeader
                | _ \<Rightarrow> Err PeHeader))"

definition range_from_str :: "bytes \<Rightarrow> (byte_ranges, parse_error) result" where
  "range_from_str s =
     (case split_in_two s 0x3D of
        None \<Rightarrow> Err PeHeader
      | Some (unit, ranges) \<Rightarrow>
          if unit = bstr ''bytes'' then
            (let rs = comma_items byte_range_from_str ranges in if rs = [] then Err PeHeader else Ok (RangeBytes rs))
          else if unit \<noteq> [] \<and> ranges \<noteq> [] then Ok (RangeUnregistered unit ranges)
          else Err PeHeader)"

section \<open>Which bytes are meant\<close>

fun range_positions :: "nat \<Rightarrow> byte_range_spec \<Rightarrow> nat set" where
  "range_positions len (FromTo a b) = {i. unat a \<le> i \<and> i \<le> unat b \<and> i < len}"
| "range_positions len (AllFrom a) = {i. unat a \<le> i \<and> i < len}"
| "range_positions len (LastBytes n) = {i. len \<le> i + unat n \<and> i < len}"

text \<open>
  The normalised range is exactly the set of positions that the specification selects in an entity of the given length: it stays
  within the entity, ends at or behind its start, and is missing exactly when nothing is selected.
\<close>

theorem satisfiable_range_exact:
  "case to_satisfiable_range full_length r of
     None \<Rightarrow> range_positions (unat full_length) r = {}
   | Some (a, b) \<Rightarrow> range_positions (unat full_length) r = {unat a..unat b} \<and> a \<le> b \<and> b < full_length"
proof (cases "full_length = 0")
  case True
  then show ?thesis by (cases r) (auto simp: to_satisfiable_range_def)
next
  case False
  then have pos: "0 < unat full_length" by (simp add: unat_gt_0)
  have pred: "unat (full_length - 1) = unat full_length - 1" using False by (simp add: unat_minus_one)
  show ?thesis
  proof (cases r)
    case (FromTo a b)
    then show ?thesis using False pos pred
      by (auto simp: to_satisfiable_range_def min_def word_less_nat_alt word_le_nat_alt split: if_splits)
  next
    case (AllFrom a)
    then show ?thesis using False pos pred by (auto simp: to_satisfiable_range_def word_less_nat_alt word_le_nat_alt)
  next
    case (LastBytes n)
    have "unat (full_length - n) = unat full_length - unat n" if "\<not> full_length < n"
      using that by (simp add: unat_sub not_less)
    then show ?thesis using LastBytes False pos pred
      by (auto simp: to_satisfiable_range_def word_less_nat_alt word_le_nat_alt unat_eq_0)
  qed
qed

section \<open>Printing and parsing\<close>

fun range_good :: "byte_range_spec \<Rightarrow> bool" where
  "range_good (FromTo a b) \<longleftrightarrow> a \<le> b"
| "range_good _ \<longleftrightarrow> True"

lemma byte_range_parse_fmt: "byte_range_from_str (byte_range_fmt r) = (if range_good r then Ok r else Err PeHeader)"
proof (cases r)
  case (FromTo a b)
  have "split_in_two (dec_u64 a @ 0x2D # dec_u64 b) 0x2D = Some (dec_u64 a, dec_u64 b)"
    by (rule split_in_two_append) (simp add: dec_u64_def)
  then show ?thesis by (simp add: FromTo byte_range_from_str_def) (simp add: dec_u64_def)
next
  case (AllFrom a)
  have "split_in_two (dec_u64 a @ 0x2D # []) 0x2D = Some (dec_u64 a, [])"
    by (rule split_in_two_append) (simp add: dec_u64_def)
  then show ?thesis by (simp add: AllFrom byte_range_from_str_def) (simp add: dec_u64_def)
next
  case (LastBytes n)
  then show ?thesis by (simp add: byte_range_from_str_def split_in_two_def)
qed

lemma byte_range_bytes: "b \<in> set (byte_range_fmt r) \<Longrightarrow> b = 0x2D \<or> 0x30 \<le> b \<and> b \<le> 0x39"
  using dec_byte_range by (cases r) (auto simp: dec_u64_def)

lemma byte_range_plain: "0x2C \<notin> set (byte_range_fmt r)" "byte_range_fmt r \<noteq> []"
  using byte_range_bytes [of "0x2C" r] by (auto, cases r, simp_all add: dec_u64_def)

lemma dropWhile_none: "(\<And>b. b \<in> set xs \<Longrightarrow> \<not> P b) \<Longrightarrow> dropWhile P xs = xs"
  by (cases xs) auto

lemma byte_range_trim: "trim (byte_range_fmt r) = byte_range_fmt r"
proof -
  have none: "\<not> is_ws b" if "b \<in> set (byte_range_fmt r)" for b
    using byte_range_bytes [OF that] by (auto simp: is_ws_def word_le_nat_alt)
  then have "dropWhile is_ws (byte_range_fmt r) = byte_range_fmt r" by (rule dropWhile_none)
  moreover have "dropWhile is_ws (rev (byte_range_fmt r)) = rev (byte_range_fmt r)" by (rule dropWhile_none) (simp add: none)
  ultimately show ?thesis by (simp add: trim_def)
qed

lemma split_join_ranges: "rs \<noteq> [] \<Longrightarrow> split_on 0x2C (join_ranges rs) = map byte_range_fmt rs"
proof (induction rs rule: join_ranges.induct)
  case (3 r s rs)
  then show ?case using split_on_append [OF byte_range_plain(1), of r "join_ranges (s # rs)"] by simp
qed (auto simp: split_on_no byte_range_plain)

lemma comma_items_ranges: "comma_items byte_range_from_str (join_ranges rs) = filter range_good rs"
proof (cases "rs = []")
  case True
  then show ?thesis by (simp add: comma_items_def trim_def List.map_filter_simps)
next
  case False
  have "filter (\<lambda>x. trim x \<noteq> []) (map byte_range_fmt rs) = map byte_range_fmt rs"
    by (auto simp: filter_id_conv byte_range_trim byte_range_plain)
  moreover have "List.map_filter (\<lambda>x. case byte_range_from_str (trim x) of Ok a \<Rightarrow> Some a | Err e \<Rightarrow> None) (map byte_range_fmt rs) =
      filter range_good rs"
    by (induction rs) (auto simp: List.map_filter_simps byte_range_trim byte_range_parse_fmt)
  ultimately show ?thesis using False by (simp add: comma_items_def split_join_ranges)
qed

text \<open>
  Which ranges survive printing and parsing: a list of byte ranges that is not empty and in which no range ends before its
  start; of other units those with a name, without an equals sign in it, and a set. A range that ends before its start is
  dropped, whatever else is in the list.
\<close>

theorem range_roundtrip:
  "range_from_str (range_fmt r) = Ok r \<longleftrightarrow>
     (case r of
        RangeBytes rs \<Rightarrow> rs \<noteq> [] \<and> list_all range_good rs
      | RangeUnregistered unit range_str \<Rightarrow> unit \<noteq> [] \<and> range_str \<noteq> [] \<and> 0x3D \<notin> set unit \<and> unit \<noteq> bstr ''bytes'')"
proof (cases r)
  case (RangeBytes rs)
  have "split_in_two (bstr ''bytes'' @ 0x3D # join_ranges rs) 0x3D = Some (bstr ''bytes'', join_ranges rs)"
    by (rule split_in_two_append) simp
  then have "range_from_str (range_fmt r) =
      (if filter range_good rs = [] then Err PeHeader else Ok (RangeBytes (filter range_good rs)))"
    by (simp add: RangeBytes range_from_str_def comma_items_ranges)
  moreover have "filter range_good rs = rs \<longleftrightarrow> list_all range_good rs" by (simp add: filter_id_conv list_all_iff)
  ultimately show ?thesis by (auto simp: RangeBytes)
next
  case (RangeUnregistered unit range_str)
  show ?thesis
  proof (cases "0x3D \<in> set unit")
    case True
    then obtain a b where u: "unit = a @ 0x3D # b" "0x3D \<notin> set a" by (meson split_list_first)
    then have "split_in_two (range_fmt r) 0x3D = Some (a, b @ 0x3D # range_str)"
      using split_in_two_append [of "0x3D" a "b @ 0x3D # range_str"] by (simp add: RangeUnregistered)
    moreover have "a \<noteq> unit" using u(1) by simp
    ultimately show ?thesis using True by (auto simp: range_from_str_def RangeUnregistered Let_def)
  next
    case False
    then have "split_in_two (range_fmt r) 0x3D = Some (unit, range_str)" by (simp add: RangeUnregistered)
    then show ?thesis using False by (auto simp: range_from_str_def RangeUnregistered Let_def)
  qed
qed

end
