(* ===== verification/Spec2Isabelle.thy ===== *)
theory Spec2Isabelle
  imports Log_Service Hash_Service Batch_Service Ws_Codec H1_Connection_Runs Client_Pool_Runs Entity_Tag Header_Values Quality_Item Content_Disposition Cookie_Secure Ws_Handshake Content_Encoder Test_Request Client_Connection Transport_Service Typed_Headers Byte_Range
begin

text \<open>
  Verification of the Rust code of the hybrid logging store: the Exonum services that anchor logs
  (\<open>exonum-logstore/backend/src\<close>) and the HTTP and WebSocket library that the back end carries as a
  patched copy (\<open>exonum-logstore/backend/patches/actix-http/src\<close>). Paths below are
  relative to these two directories.

  \<^bold>\<open>The parts and how they interact.\<close> A client writes a record by an Exonum transaction and reads it
  through endpoints. Each of the three services (log entries, hashes, batches) keeps a map from content hashes to
  records, the list of hashes in the order of their arrival, and a history for each submitter.
  The HTTP library serves requests: a connection reads bytes from a socket, its codec decodes heads and body pieces,
  requests go to a service while their bodies flow through a channel with back-pressure, and responses are
  encoded into a buffer that is flushed to the socket. Heads come from pools and hold a header map. After an upgrade
  a connection carries WebSocket frames, which a codec turns into messages. On the client
  side a pool limits the connections and lends them to requests.

  \<^bold>\<open>Theories.\<close>

  \<^item> \<^verbatim>\<open>Rust_Prelude\<close>, \<^verbatim>\<open>Ascii\<close>, \<^verbatim>\<open>Utf8\<close>: integers of fixed width, byte strings, results and panics, and the
    functions of the standard library that the code calls (case, trimming, numbers as text, lossy UTF-8).
  \<^item> \<^verbatim>\<open>Anchor_Interface\<close>: the contract of an anchoring service as locales; \<^verbatim>\<open>Log_Service\<close>, \<^verbatim>\<open>Hash_Service\<close> and
    \<^verbatim>\<open>Batch_Service\<close> model the files of \<open>log_service/\<close>, \<open>hash_service/\<close> and \<open>batch_service/\<close> and
    interpret them. A state is the record of the collections of \<open>schema.rs\<close>; \<open>log_write\<close> is the transaction of
    \<open>transactions.rs\<close>, \<open>log_list\<close> and \<open>log_info\<close> the endpoints of \<open>api.rs\<close>.
  \<^item> \<^verbatim>\<open>Ws_Proto\<close>, \<^verbatim>\<open>Ws_Mask\<close>, \<^verbatim>\<open>Ws_Frame\<close>, \<^verbatim>\<open>Ws_Codec\<close>: \<open>ws/proto.rs\<close>, \<open>ws/mask.rs\<close>, \<open>ws/frame.rs\<close>, \<open>ws/codec.rs\<close>.
  \<^item> \<^verbatim>\<open>Http_Types\<close>, \<^verbatim>\<open>Http_Error\<close>, \<^verbatim>\<open>Http_Helpers\<close>, \<^verbatim>\<open>Http_Body\<close>, \<^verbatim>\<open>Service_Config\<close>: the shared vocabulary with the
    interface to the crates \<open>http\<close> and \<open>httparse\<close>, \<open>error.rs\<close>, \<open>helpers.rs\<close>, \<open>body.rs\<close>, \<open>config.rs\<close>.
  \<^item> \<^verbatim>\<open>Header_Map\<close> (\<open>header/map.rs\<close>, an instance of \<^verbatim>\<open>Multimap_Interface\<close>) and \<^verbatim>\<open>Message_Head\<close> (\<open>message.rs\<close>, \<open>extensions.rs\<close>).
  \<^item> \<^verbatim>\<open>H1_Message_Decoder\<close> and \<^verbatim>\<open>H1_Payload_Decoder\<close> (\<open>h1/decoder.rs\<close>), \<^verbatim>\<open>H1_Transfer_Encoding\<close> and \<^verbatim>\<open>H1_Encoder\<close>
    (\<open>h1/encoder.rs\<close>), \<^verbatim>\<open>H1_Codec\<close> (\<open>h1/codec.rs\<close>), \<^verbatim>\<open>H1_Payload\<close> (\<open>h1/payload.rs\<close>). The decoders, and the codec of
    WebSocket, interpret \<^verbatim>\<open>Codec_Interface\<close>: they only take bytes from the front of their buffer,
    and how a stream is cut does not matter.
  \<^item> \<^verbatim>\<open>H1_Dispatcher\<close> models \<open>h1/dispatcher.rs\<close>, every branch of a poll; \<^verbatim>\<open>H1_Connection\<close> has the rules for its loops and
    the invariants, \<^verbatim>\<open>H1_Connection_Runs\<close> what a connection does. \<^verbatim>\<open>Socket_Interface\<close> is the contract of the byte
    stream, \<^verbatim>\<open>Test_Buffer\<close> the stream of \<open>test.rs\<close>, which satisfies it.
  \<^item> \<^verbatim>\<open>Client_Pool\<close> models \<open>client/pool.rs\<close>; \<^verbatim>\<open>Client_Pool_Invariant\<close> and \<^verbatim>\<open>Client_Pool_Runs\<close> prove what its events keep
    and promise.
  \<^item> \<^verbatim>\<open>Header_Parsing\<close>, \<^verbatim>\<open>Entity_Tag\<close>, \<^verbatim>\<open>Header_Values\<close>, \<^verbatim>\<open>Quality_Item\<close>: typed header values (\<open>header/mod.rs\<close>,
    \<open>header/shared/\<close>, \<open>header/common/\<close>), with the locale \<open>list_item\<close> for values that are written in lists.
    \<^verbatim>\<open>Utf8_Text\<close> has strings as slices of UTF-8 bytes, on which \<^verbatim>\<open>Content_Disposition\<close> and the cookies rest.
  \<^item> \<^verbatim>\<open>Cookie\<close>, \<^verbatim>\<open>Cookie_Parse\<close>, \<^verbatim>\<open>Cookie_Jar\<close>, \<^verbatim>\<open>Cookie_Secure\<close>: the files of \<open>cookie/\<close> (data type and printing, parser, jar
    with its delta, signed and private jars).
  \<^item> \<^verbatim>\<open>Http_Response\<close> (\<open>response.rs\<close> and the errors that become responses), \<^verbatim>\<open>Error_Helpers\<close> (the functions of \<open>error.rs\<close> and
    \<open>httpcodes.rs\<close> that only fix a status), \<^verbatim>\<open>Ws_Handshake\<close> (\<open>ws/mod.rs\<close>) and \<^verbatim>\<open>Http_Request\<close> (\<open>request.rs\<close>, \<open>payload.rs\<close>, \<open>httpmessage.rs\<close>).
  \<^item> \<^verbatim>\<open>Content_Decoder\<close> and \<^verbatim>\<open>Content_Encoder\<close>: the files of \<open>encoding/\<close>, streams around the coders; \<^verbatim>\<open>Poll_Loop\<close> has the
    loop of a stream that is polled until it answers, and the rule that such a loop ends and delivers everything.
  \<^item> \<^verbatim>\<open>H1_Client\<close>: the client's codec (\<open>h1/client.rs\<close>), what becomes of a connection after a response (\<open>client/h1proto.rs\<close>)
    and the errors of requests (\<open>client/error.rs\<close>). \<^verbatim>\<open>H1_Send\<close>: the future that sends a response over a framed transport
    (\<open>h1/utils.rs\<close>), and how the client sends a request with its body.
  \<^item> \<^verbatim>\<open>H2_Dispatcher\<close> (\<open>h2/dispatcher.rs\<close>, \<open>h2/mod.rs\<close>): accepting HTTP/2 requests, the task that sends a response; \<^verbatim>\<open>H2_Client\<close>
    (\<open>client/h2proto.rs\<close>): sending a request and the release of its connection.
  \<^item> \<^verbatim>\<open>Http_Service\<close> (\<open>builder.rs\<close>, \<open>service.rs\<close>) and \<^verbatim>\<open>Transport_Service\<close> (\<open>h1/service.rs\<close>, \<open>h2/service.rs\<close>): configuration, start and
    readiness of the services, and the dispatcher that a connection gets. \<^verbatim>\<open>Client_Connection\<close> (\<open>client/connector.rs\<close>,
    \<open>client/connection.rs\<close>): the pools of a connector, and requests and tunnels over a connection of either protocol.
  \<^item> \<^verbatim>\<open>Typed_Headers\<close> (the header macro of \<open>header/common/mod.rs\<close> with its instances, and the dates of \<open>header/shared/httpdate.rs\<close>),
    \<^verbatim>\<open>Byte_Range\<close> (\<open>header/common/range.rs\<close>, which no module includes), \<^verbatim>\<open>Test_Request\<close> (\<open>TestRequest\<close> of \<open>test.rs\<close>).

  \<^bold>\<open>How the code is rendered.\<close> A struct is a record, an enum a datatype with the constructors of the source. A method
  that changes its object returns the changed one. \<open>Result\<close> is a datatype of its own; a panic (an index, an
  \<open>unwrap\<close>, an assertion, a subtraction below zero) is a value, \<open>Panic\<close> or \<open>Panics\<close>. Machine integers whose width matters are
  words, lengths of buffers that exist are natural numbers. The raw memory of the head encoder is a list of bytes
  with an uninitialised part. Futures are polled: \<open>Pending\<close> or \<open>Ready\<close>. The connection runs on a
  world: the body channels, and an arbitrary state for socket, clock and service, on which
  the fields of \<open>disp_env\<close> are functions.

  \<^bold>\<open>Loops.\<close> Loops that walk over data are structural recursion. The loops of the dispatcher and of the support
  future of the pool, which can run for ever, are \<open>partial_function (option)\<close>, and that they end is a
  theorem (\<open>poll_request_terminates\<close>, \<open>pool_events_return\<close>); where the code does not end, that is a theorem too
  (\<open>expect_queue_hangs\<close>). A future that is awaited, and a \<open>poll\<close> that loops, are \<open>await_future\<close> and \<open>poll_loop\<close> of
  \<^verbatim>\<open>Poll_Loop\<close>, also partial functions; one rule, with a measure of patience, shows for them that they return. There is no fuel.

  \<^bold>\<open>What the lemmas show.\<close> Services: the outcome of every branch of a transaction, permanence of what is stored,
  an invariant of the reachable states with the origin of every record and history, refinement of an abstract ledger, paging. Codecs: round trips,
  independence of segmentation, the grammar of chunked bodies, exactness of framing and of heads, absence of panics, bounds of what is written. Connection:
  polls end, no internal error is reachable without upgrades, bodies and responses go through unchanged and in order, malformed
  and slow clients are answered, and the cases in which pipelined requests hang, overtake or get lost. Pool:
  no event panics, the limit holds, and how slots get lost and waiting requests starve. Headers and cookies: which
  values survive printing and parsing, and which do not; that the parser of cookies on slices implements one on texts and never panics;
  that a client which stores cookies by name and place has those of the jar once it takes the changes. Responses: errors of a builder are
  reported once, cookies are written, a handshake is judged rule by rule. Compression: what is delivered is what the coder makes of
  the whole body, whatever the pieces and the pool; what is lost or left raw after errors. Client: a connection goes back
  to the pool at most once, and only when nothing of it is left over; a request over either protocol gives back no other
  connection than its own. HTTP/2: which headers are sent and received, and that bodies are sent whole. Services: they start
  whatever the order in which their parts become ready. Typed headers: which lists, tags and dates survive being written and read.

  \<^bold>\<open>Parameters.\<close> What the repository does not contain is an argument: SHA-1, Base64, the cryptography of \<open>ring\<close>, hex and Merkle hashes, \<open>httparse\<close> and
  the types of \<open>http\<close>, the formatting of dates, the allocator, the order of hash maps, the slab's choice of a free token,
  dates and durations, percent encoding, media types and language tags, the coders of \<open>flate2\<close> and \<open>brotli2\<close>, the thread pool, \<open>Framed\<close>,
  the crate \<open>h2\<close> with the header map of \<open>http\<close>, the services of the application and their factories, the outcome of opening TCP
  and TLS streams. Hypotheses about them (\<open>env_ok\<close>, \<open>heads_nonempty\<close>, \<open>text_lib_ok\<close> and the like) state their
  documented behaviour, and witnesses instantiate them with concrete functions. Futures and bodies of the application
  (\<open>gives\<close>, \<open>body_gives\<close>) may take any number of polls; nothing is asked of them once they have answered, ended or failed.

  \<^bold>\<open>Not modelled.\<close> The TLS acceptors and service pipelines, the wrapper of a framed WebSocket transport
  (\<open>ws/dispatcher.rs\<close>), the default expect and upgrade handlers, which only pass a request on or panic, the shared cell of a service
  (\<open>cloneable.rs\<close>), printing for debugging and accessors of fields, downcasts of the
  boxed \<open>Error\<close>; capacities of buffers and the scheduling of tasks. The TypeScript service, the contracts and
  the front ends are in other languages.
\<close>

end
